(* ===== verification/Prelude.thy ===== *)
theory Prelude
  imports Main "HOL-Library.Word"
begin

text \<open>
  Shared vocabulary of the development: the C integer types as words, the byte order
  conversions of the host (little endian) and of the wire (\<open>htonl\<close> and friends), and
  the generic facts on lists, bytes and association lists that several components use.

  \<^item> \<open>u8\<close>, \<open>u16\<close>, \<open>u32\<close>, \<open>u64\<close> are the C types \<open>uint8_t\<close> to \<open>uint64_t\<close>; \<open>size_t\<close>
    values are natural numbers, with the wrap-around of \<open>x - 1\<close> at \<open>0\<close> written out by
    \<open>size_pred\<close>.
  \<^item> \<open>int64_t\<close> times are integers: every value the code stores is far below \<open>2 ^ 63\<close>.
  \<^item> A C object of \<open>n\<close> bytes that is handled as raw memory is a \<open>u8 list\<close> of length \<open>n\<close>.
\<close>

unbundle bit_operations_syntax

type_synonym u8 = "8 word"
type_synonym u16 = "16 word"
type_synonym u32 = "32 word"
type_synonym u64 = "64 word"
type_synonym bytes = "8 word list"

named_theorems defs_container
named_theorems wire_simps

subsection \<open>Faults\<close>

text \<open>
  Where the C program would crash, hang or run into undefined behaviour, the model returns
  \<open>Inl\<close> of a fault. \<open>bind_fault\<close> runs the rest of a function after a step that may fault.
\<close>

datatype fault = NullDeref | OutOfBounds | UseAfterFree | DivByZero | AssertFail | Deadlock

fun bind_fault :: "fault + 'a \<Rightarrow> ('a \<Rightarrow> fault + 'b) \<Rightarrow> fault + 'b" where
  "bind_fault (Inl e) f = Inl e"
| "bind_fault (Inr x) f = f x"

lemma bind_fault_Inr_iff: "bind_fault m f = Inr y \<longleftrightarrow> (\<exists>x. m = Inr x \<and> f x = Inr y)"
  by (cases m) auto

text \<open>
  \<open>ok_run P m\<close>: the step \<open>m\<close> ends in a state with \<open>P\<close>, or in an access out of bounds; it
  neither deadlocks nor reaches a dangling or null pointer. \<open>only_oob\<close> is the same for a
  computation without state. The rules follow the structure of a function, as a calculus of
  invariants; the components add the rules of their operations to \<open>ok_rules\<close>.
\<close>

definition only_oob :: "fault + 'a \<Rightarrow> bool" where
  "only_oob m \<longleftrightarrow> (\<forall>e. m = Inl e \<longrightarrow> e = OutOfBounds)"

definition ok_run :: "('s \<Rightarrow> bool) \<Rightarrow> fault + 'r \<times> 's \<Rightarrow> bool" where
  "ok_run P m \<longleftrightarrow> (case m of Inl e \<Rightarrow> e = OutOfBounds | Inr (_, s) \<Rightarrow> P s)"

named_theorems ok_rules

lemma ok_run_Inr [simp]: "ok_run P (Inr (r, s)) \<longleftrightarrow> P s"
  by (simp add: ok_run_def)

lemma ok_run_Inl [simp]: "ok_run P (Inl e) \<longleftrightarrow> e = OutOfBounds"
  by (simp add: ok_run_def)

lemma ok_run_bind [ok_rules]:
  "\<lbrakk>ok_run P m; \<And>r s. P s \<Longrightarrow> ok_run Q (f (r, s))\<rbrakk> \<Longrightarrow> ok_run Q (bind_fault m f)"
  by (cases m) (auto simp: ok_run_def)

lemma ok_run_bind_oob [ok_rules]:
  "\<lbrakk>only_oob m; \<And>x. ok_run Q (f x)\<rbrakk> \<Longrightarrow> ok_run Q (bind_fault m f)"
  by (cases m) (auto simp: ok_run_def only_oob_def)

lemma only_oob_bind: "\<lbrakk>only_oob m; \<And>x. only_oob (f x)\<rbrakk> \<Longrightarrow> only_oob (bind_fault m f)"
  by (cases m) (auto simp: only_oob_def)

lemma only_oob_simps [simp]: "only_oob (Inr x)" "only_oob (Inl e) \<longleftrightarrow> e = OutOfBounds"
  by (simp_all add: only_oob_def)

subsection \<open>Size arithmetic\<close>

definition SIZE_MAX :: nat where
  "SIZE_MAX = 2 ^ 64 - 1"

definition size_pred :: "nat \<Rightarrow> nat" where
  "size_pred n = (if n = 0 then SIZE_MAX else n - 1)"

definition UINT32_MAX :: u32 where
  "UINT32_MAX = 0xFFFFFFFF"

lemma UINT32_MAX_minus_1: "UINT32_MAX = - 1"
  by (simp add: UINT32_MAX_def)

lemma size_pred_pos: "0 < n \<Longrightarrow> size_pred n = n - 1"
  by (simp add: size_pred_def)

subsection \<open>Words in memory\<close>

text \<open>
  \<open>le32 w\<close> is the memory image of a \<open>uint32_t\<close> on the (little endian) host, \<open>of_le32\<close>
  reads it back; \<open>htonl\<close> swaps the bytes, and so \<open>le32 (htonl w)\<close> is big endian.
\<close>

definition le16 :: "u16 \<Rightarrow> bytes" where
  "le16 w = [ucast w, ucast (drop_bit 8 w)]"

definition le32 :: "u32 \<Rightarrow> bytes" where
  "le32 w = [ucast w, ucast (drop_bit 8 w), ucast (drop_bit 16 w), ucast (drop_bit 24 w)]"

definition le64 :: "u64 \<Rightarrow> bytes" where
  "le64 w = le32 (ucast w) @ le32 (ucast (drop_bit 32 w))"

fun of_le16 :: "bytes \<Rightarrow> u16" where
  "of_le16 (a # b # _) = ucast a OR push_bit 8 (ucast b)"
| "of_le16 _ = 0"

fun of_le32 :: "bytes \<Rightarrow> u32" where
  "of_le32 (a # b # c # d # _) =
     ucast a OR push_bit 8 (ucast b) OR push_bit 16 (ucast c) OR push_bit 24 (ucast d)"
| "of_le32 _ = 0"

definition of_le64 :: "bytes \<Rightarrow> u64" where
  "of_le64 xs = ucast (of_le32 xs) OR push_bit 32 (ucast (of_le32 (drop 4 xs)))"

definition htons :: "u16 \<Rightarrow> u16" where
  "htons w = of_le16 (rev (le16 w))"

definition htonl :: "u32 \<Rightarrow> u32" where
  "htonl w = of_le32 (rev (le32 w))"

abbreviation "ntohs \<equiv> htons"

abbreviation "ntohl \<equiv> htonl"

lemma length_le16 [simp]: "length (le16 w) = 2"
  by (simp add: le16_def)

lemma length_le32 [simp]: "length (le32 w) = 4"
  by (simp add: le32_def)

lemma length_le64 [simp]: "length (le64 w) = 8"
  by (simp add: le64_def)

lemma of_le16_le16_append: "of_le16 (le16 w @ xs) = w"
proof (rule bit_word_eqI)
  fix n assume "n < LENGTH(16)"
  then show "bit (of_le16 (le16 w @ xs)) n = bit w n"
    by (cases "n < 8") (simp_all add: le16_def bit_simps, auto)
qed

lemma of_le16_le16 [simp]: "of_le16 (le16 w @ xs) = w" "of_le16 (le16 w) = w"
  using of_le16_le16_append [of w xs] of_le16_le16_append [of w "[]"] by auto

lemma of_le32_le32_append: "of_le32 (le32 w @ xs) = w"
proof (rule bit_word_eqI)
  fix n assume "n < LENGTH(32)"
  then show "bit (of_le32 (le32 w @ xs)) n = bit w n"
    by (cases "n < 8"; cases "n < 16"; cases "n < 24") (simp_all add: le32_def bit_simps, auto)
qed

lemma of_le32_le32 [simp]: "of_le32 (le32 w @ xs) = w" "of_le32 (le32 w) = w"
  using of_le32_le32_append [of w xs] of_le32_le32_append [of w "[]"] by auto

lemma le32_inject [simp]: "le32 a = le32 b \<longleftrightarrow> a = b"
  using of_le32_le32(2) by metis

lemma split_u64:
  "(ucast (ucast w :: u32) OR push_bit 32 (ucast (ucast (drop_bit 32 w) :: u32))) = (w :: u64)"
  by (rule bit_word_eqI) (auto simp: bit_simps dest: bit_imp_le_length)

lemma of_le64_le64 [simp]: "of_le64 (le64 w @ xs) = w" "of_le64 (le64 w) = w"
  by (simp_all add: of_le64_def le64_def split_u64 del: of_le32.simps)

lemma le32_of_le32:
  assumes "length xs = 4"
  shows "le32 (of_le32 xs) = xs"
proof -
  obtain a b c d where xs: "xs = [a, b, c, d]"
    using assms by (auto simp: numeral_eq_Suc length_Suc_conv)
  have "(ucast (of_le32 [a, b, c, d]) :: u8) = a"
    "(ucast (drop_bit 8 (of_le32 [a, b, c, d])) :: u8) = b"
    "(ucast (drop_bit 16 (of_le32 [a, b, c, d])) :: u8) = c"
    "(ucast (drop_bit 24 (of_le32 [a, b, c, d])) :: u8) = d"
    by (rule bit_word_eqI, simp add: bit_simps, auto dest: bit_imp_le_length)+
  then show ?thesis by (simp add: xs le32_def)
qed

lemma of_le32_take: "4 \<le> length xs \<Longrightarrow> of_le32 xs = of_le32 (take 4 xs)"
  by (cases xs rule: of_le32.cases) (simp_all del: of_le32.simps, simp_all)

lemma le32_of_le32_take: "4 \<le> length xs \<Longrightarrow> le32 (of_le32 xs) = take 4 xs"
  by (simp add: of_le32_take [of xs] le32_of_le32)

lemma le32_htonl: "le32 (htonl w) = rev (le32 w)"
  by (simp add: htonl_def le32_of_le32)

lemma le16_of_le16:
  assumes "length xs = 2"
  shows "le16 (of_le16 xs) = xs"
proof -
  obtain a b where xs: "xs = [a, b]"
    using assms by (auto simp: numeral_eq_Suc length_Suc_conv)
  have "(ucast (of_le16 [a, b]) :: u8) = a" "(ucast (drop_bit 8 (of_le16 [a, b])) :: u8) = b"
    by (rule bit_word_eqI, simp add: bit_simps, auto dest: bit_imp_le_length)+
  then show ?thesis by (simp add: xs le16_def)
qed

lemma htons_htons [simp]: "htons (htons w) = w"
  by (simp add: htons_def le16_of_le16 del: of_le16.simps)

lemma htonl_htonl [simp]: "htonl (htonl w) = w"
  by (simp add: htonl_def le32_of_le32 del: of_le32.simps)

lemma htonl_inject [simp]: "htonl a = htonl b \<longleftrightarrow> a = b"
  by (metis htonl_htonl)

lemma xor_cancel_right: "(a :: u32) XOR c = b XOR c \<longleftrightarrow> a = b"
proof
  assume "a XOR c = b XOR c"
  then have "(a XOR c) XOR c = (b XOR c) XOR c" by (rule arg_cong)
  then show "a = b" by (simp add: xor.assoc)
qed simp

lemma xor_cancel: "(a :: u32) XOR c = b XOR c \<longleftrightarrow> a = b" "c XOR a = c XOR b \<longleftrightarrow> a = b"
  using xor_cancel_right [of a c b] by (simp_all add: xor.commute)

text \<open>The bytes of a C string literal.\<close>

definition str :: "string \<Rightarrow> bytes" where
  "str s = map (\<lambda>c. of_nat (of_char c)) s"

subsection \<open>Lists\<close>

lemma map_of_middle:
  "k \<notin> fst ` set xs \<Longrightarrow>
   map_of (xs @ (k, v) # ys) k' = (if k' = k then Some v else map_of (xs @ ys) k')"
  by (induction xs) (auto simp: map_add_def)

lemma concat_update:
  "i < length xss \<Longrightarrow> concat (xss[i := xs]) = concat (take i xss) @ xs @ concat (drop (Suc i) xss)"
  by (simp add: upd_conv_take_nth_drop)

lemma concat_split:
  "i < length xss \<Longrightarrow> concat xss = concat (take i xss) @ xss ! i @ concat (drop (Suc i) xss)"
  by (metis concat.simps(2) concat_append id_take_nth_drop)

lemma set_except_nth:
  assumes "x \<in> set (take i xs) \<union> set (drop (Suc i) xs)"
  shows "\<exists>j < length xs. j \<noteq> i \<and> x = xs ! j"
  using assms
proof
  assume "x \<in> set (take i xs)"
  then obtain j where "j < length (take i xs)" "take i xs ! j = x"
    by (meson in_set_conv_nth)
  then show ?thesis by (intro exI [of _ j]) simp
next
  assume "x \<in> set (drop (Suc i) xs)"
  then obtain j where "j < length (drop (Suc i) xs)" "drop (Suc i) xs ! j = x"
    by (meson in_set_conv_nth)
  then show ?thesis by (intro exI [of _ "Suc i + j"]) simp
qed

end
