(* ===== verification/Interfaces.thy ===== *)
theory Interfaces
  imports Prelude
begin

text \<open>
  The two contracts the containers of \<open>base/\<close> give their clients, as locales.

  \<^item> \<open>fifo\<close>: a queue read as the list of its contents (front first). Its providers are
    \<open>dyn_queue\<close> and the ring buffer \<open>prot_queue\<close>; its clients are the worker loops
    \<open>while (0 == prot_queue_pop(&q, &x)) ...\<close>, which \<open>drain\<close> models.
  \<^item> \<open>kv_store\<close>: a table read as a partial map. Its providers are \<open>dyn_table\<close> and
    \<open>dyn_htable\<close>; \<open>fits\<close> says which keys and values the table can hold (the hash
    table stores byte strings of a fixed size).
\<close>

text \<open>
  \<open>drain pop n q\<close> pops until the queue is empty, at most \<open>n\<close> times; \<open>fifo.drain_all\<close>
  shows that more than the current number of elements is enough.
\<close>

fun drain :: "('q \<Rightarrow> 'a option \<times> 'q) \<Rightarrow> nat \<Rightarrow> 'q \<Rightarrow> 'a list \<times> 'q" where
  "drain pop 0 q = ([], q)"
| "drain pop (Suc n) q =
     (case pop q of
        (None, q') \<Rightarrow> ([], q')
      | (Some x, q') \<Rightarrow> (let (xs, q'') = drain pop n q' in (x # xs, q'')))"

locale fifo =
  fixes contents :: "'q \<Rightarrow> 'a list"
    and inv :: "'q \<Rightarrow> bool"
    and push :: "'q \<Rightarrow> 'a \<Rightarrow> 'q"
    and pop :: "'q \<Rightarrow> 'a option \<times> 'q"
  assumes inv_push: "inv q \<Longrightarrow> inv (push q x)"
    and contents_push: "inv q \<Longrightarrow> contents (push q x) = contents q @ [x]"
    and pop_empty: "inv q \<Longrightarrow> contents q = [] \<Longrightarrow> pop q = (None, q)"
    and pop_front: "inv q \<Longrightarrow> contents q = x # xs \<Longrightarrow>
          \<exists>q'. pop q = (Some x, q') \<and> inv q' \<and> contents q' = xs"
begin

lemma push_all: "inv q \<Longrightarrow> inv (foldl push q xs) \<and> contents (foldl push q xs) = contents q @ xs"
  by (induction xs arbitrary: q) (simp_all add: inv_push contents_push)

lemma drain_all:
  "inv q \<Longrightarrow> length (contents q) < n \<Longrightarrow>
   \<exists>q'. drain pop n q = (contents q, q') \<and> inv q' \<and> contents q' = []"
proof (induction n arbitrary: q)
  case 0
  then show ?case by simp
next
  case (Suc n)
  show ?case
  proof (cases "contents q")
    case Nil
    with Suc.prems show ?thesis by (simp add: pop_empty)
  next
    case (Cons x xs)
    then obtain q' where q': "pop q = (Some x, q')" "inv q'" "contents q' = xs"
      using pop_front Suc.prems(1) by blast
    moreover have "length (contents q') < n"
      using Suc.prems(2) Cons q'(3) by simp
    ultimately obtain q'' where "drain pop n q' = (xs, q'')" "inv q''" "contents q'' = []"
      using Suc.IH by blast
    then show ?thesis using q' Cons by simp
  qed
qed

text \<open>First in, first out: what is pushed comes out once, in order, after what was there.\<close>

lemma push_all_drain:
  assumes "inv q" and "length (contents q @ xs) < n"
  shows "fst (drain pop n (foldl push q xs)) = contents q @ xs"
  using drain_all [of "foldl push q xs" n] push_all [OF assms(1), of xs] assms(2) by auto

end

locale kv_store =
  fixes lookup :: "'t \<Rightarrow> 'k \<Rightarrow> 'v option"
    and inv :: "'t \<Rightarrow> bool"
    and fits :: "'t \<Rightarrow> 'k \<Rightarrow> 'v \<Rightarrow> bool"
    and put :: "'t \<Rightarrow> 'k \<Rightarrow> 'v \<Rightarrow> 't"
    and del :: "'t \<Rightarrow> 'k \<Rightarrow> 't"
  assumes inv_put: "inv t \<Longrightarrow> fits t k v \<Longrightarrow> inv (put t k v)"
    and inv_del: "inv t \<Longrightarrow> fits t k v \<Longrightarrow> inv (del t k)"
    and lookup_put: "inv t \<Longrightarrow> fits t k v \<Longrightarrow> fits t k' v' \<Longrightarrow>
          lookup (put t k v) k' = (if k' = k then Some v else lookup t k')"
    and lookup_del: "inv t \<Longrightarrow> fits t k v \<Longrightarrow> fits t k' v' \<Longrightarrow>
          lookup (del t k) k' = (if k' = k then None else lookup t k')"
    and fits_put: "inv t \<Longrightarrow> fits t k v \<Longrightarrow> fits (put t k v) k' v' = fits t k' v'"
    and fits_del: "inv t \<Longrightarrow> fits t k v \<Longrightarrow> fits (del t k) k' v' = fits t k' v'"
begin

lemma put_all:
  assumes "inv t" and "\<forall>(k, v) \<in> set kvs. fits t k v" and "fits t k' v'"
  shows "inv (foldl (\<lambda>t (k, v). put t k v) t kvs) \<and>
    lookup (foldl (\<lambda>t (k, v). put t k v) t kvs) k' =
      (case map_of (rev kvs) k' of None \<Rightarrow> lookup t k' | Some v \<Rightarrow> Some v)"
  using assms
proof (induction kvs arbitrary: t)
  case Nil
  then show ?case by simp
next
  case (Cons kv kvs)
  obtain k v where kv: "kv = (k, v)" by (cases kv)
  have kvf: "fits t k v" using Cons.prems(2) kv by simp
  have "inv (put t k v)" "\<forall>(k, v) \<in> set kvs. fits (put t k v) k v"
    "\<forall>(a, b) \<in> set kvs. fits (put t k v) a b" "fits (put t k v) k' v'"
    using Cons.prems kvf by (auto simp: kv fits_put inv_put)
  from Cons.IH [OF this(1,3,4)] show ?case
    using lookup_put [OF Cons.prems(1) kvf Cons.prems(3)]
    by (auto simp: kv map_add_def split: option.splits)
qed

lemma put_del:
  assumes "inv t" and "fits t k v" and "fits t k' v'"
  shows "lookup (del (put t k v) k) k' = (if k' = k then None else lookup t k')"
  using lookup_del [of "put t k v" k v k' v'] lookup_put [OF assms] assms
  by (simp add: fits_put inv_put)

end

end
