(* ===== verification/Packproto.thy ===== *)
theory Packproto
  imports Interfaces
begin

text \<open>
  \<open>protocol/src/proto.c\<close> and \<open>protomsgs.c\<close>: the packet header, its checksum and its wire
  form. \<open>protopack\<close> is the packed C structure of 21 bytes and its flexible member
  \<open>data\<close>, the bytes allocated behind the header; \<open>pack_bytes\<close> is the memory it occupies
  on the little endian host. Fields are in host or in network order, as in the C code:
  \<open>retranslate_udp\<close> turns the one into the other.

  The lemmas: a packet that is sent and received unchanged comes out as it went in, the
  checksum detects every error burst of up to four bytes, and the receiver therefore drops a
  datagram that was corrupted in this way.
\<close>

datatype protopack_type =
  PACK_DATA | PACK_ACK | PACK_PING | PACK_PONG | PACK_PUNCH | PACK_GOSSIP | PACK_STATE
| PACK_RACK | PACK_FIN | PACK_RAW_UDP | PACK_NULL | PACK_TURN | PACK_HELLO | PACK_HELLO2

text \<open>The value of an enumerator.\<close>

fun pt_code :: "protopack_type \<Rightarrow> u8" where
  "pt_code PACK_DATA = 0" | "pt_code PACK_ACK = 1" | "pt_code PACK_PING = 2"
| "pt_code PACK_PONG = 3" | "pt_code PACK_PUNCH = 4" | "pt_code PACK_GOSSIP = 5"
| "pt_code PACK_STATE = 6" | "pt_code PACK_RACK = 7" | "pt_code PACK_FIN = 8"
| "pt_code PACK_RAW_UDP = 9" | "pt_code PACK_NULL = 10" | "pt_code PACK_TURN = 11"
| "pt_code PACK_HELLO = 12" | "pt_code PACK_HELLO2 = 13"

definition PACKET_TYPE_MAX :: nat where
  "PACKET_TYPE_MAX = 14"

definition PROTOCOL_OVERHEAD :: nat where
  "PROTOCOL_OVERHEAD = 21"

definition UDP_MTU :: nat where
  "UDP_MTU = 1432"

record protopack =
  seq :: u32
  chsum :: u32
  d_size :: u32
  h_from :: u32
  h_to :: u32
  packtype :: u8
  data :: bytes

subsection \<open>Checksum\<close>

definition crc_bit :: "u32 \<Rightarrow> u32" where
  "crc_bit c = drop_bit 1 c XOR (0xEDB88320 AND (- (c AND 1)))"

definition crc_byte :: "u32 \<Rightarrow> u8 \<Rightarrow> u32" where
  "crc_byte c b = (crc_bit ^^ 8) (c XOR ucast b)"

definition crc32 :: "bytes \<Rightarrow> u32" where
  "crc32 bs = NOT (foldl crc_byte 0xFFFFFFFF bs)"

subsection \<open>Packets\<close>

definition udp_is_RUDP_req :: "u8 \<Rightarrow> bool" where
  "udp_is_RUDP_req t \<longleftrightarrow> t = pt_code PACK_DATA \<or> t = pt_code PACK_FIN \<or> t = pt_code PACK_RACK"

text \<open>
  \<open>payload\<close> is \<open>None\<close> for \<open>NULL\<close>; the caller's buffer holds \<open>payload_size\<close> bytes. The sizes are added
  as naturals: the sum of the code has type \<open>size_t\<close> and wraps only for a payload of almost 2^64 bytes, which no
  buffer holds.
\<close>

definition udp_make_pack ::
  "u32 \<Rightarrow> u32 \<Rightarrow> u32 \<Rightarrow> protopack_type \<Rightarrow> bytes option \<Rightarrow> nat \<Rightarrow> protopack option" where
  "udp_make_pack sequence_n hash_from hash_to type payload payload_size =
     (let total_size = PROTOCOL_OVERHEAD + payload_size in
      if UDP_MTU < total_size then None
      else Some \<lparr>seq = sequence_n, chsum = 0, d_size = of_nat payload_size,
                 h_from = hash_from, h_to = hash_to, packtype = pt_code type,
                 data = (case payload of None \<Rightarrow> replicate payload_size 0
                                       | Some bs \<Rightarrow> take payload_size bs)\<rparr>)"

definition udp_copy_pack :: "protopack \<Rightarrow> fault + protopack" where
  "udp_copy_pack pk =
     (if length (data pk) < unat (d_size pk) then Inl OutOfBounds
      else Inr (pk\<lparr>data := take (unat (d_size pk)) (data pk)\<rparr>))"

definition pack_bytes :: "protopack \<Rightarrow> bytes" where
  "pack_bytes p =
     le32 (seq p) @ le32 (chsum p) @ le32 (d_size p) @ le32 (h_from p) @ le32 (h_to p) @
     packtype p # data p"

definition retranslate_udp :: "protopack \<Rightarrow> fault + protopack" where
  "retranslate_udp pk =
     bind_fault (udp_copy_pack pk) (\<lambda>out.
       let out = out\<lparr>chsum := 0, seq := htonl (seq pk), d_size := htonl (d_size pk),
                     h_from := htonl (h_from pk), h_to := htonl (h_to pk)\<rparr>
       in Inr (out\<lparr>chsum := htonl (crc32 (take (unat (d_size pk) + PROTOCOL_OVERHEAD) (pack_bytes out)))\<rparr>))"

text \<open>
  \<open>protopack_send\<close> takes a packet in network order; the result holds the bytes it writes to
  the caller's buffer of 2048 bytes, whose number it returns (\<open>None\<close> for \<open>-1\<close>).
\<close>

definition protopack_send :: "protopack option \<Rightarrow> fault + bytes option" where
  "protopack_send pack =
     (case pack of
        None \<Rightarrow> Inr None
      | Some pack \<Rightarrow>
          let total_size = PROTOCOL_OVERHEAD + unat (ntohl (d_size pack)) in
          if length (pack_bytes pack) < total_size \<or> 2048 < total_size then Inl OutOfBounds
          else Inr (Some (take total_size (pack_bytes pack))))"

text \<open>The received bytes read as a packed header and its data.\<close>

definition pack_of_bytes :: "bytes \<Rightarrow> protopack" where
  "pack_of_bytes raw =
     \<lparr>seq = of_le32 raw, chsum = of_le32 (drop 4 raw), d_size = of_le32 (drop 8 raw),
      h_from = of_le32 (drop 12 raw), h_to = of_le32 (drop 16 raw),
      packtype = raw ! 20, data = drop 21 raw\<rparr>"

text \<open>
  \<open>recv_pkt->chsum = 0\<close> writes into the caller's buffer: the second component is that buffer
  after the call.
\<close>

definition protopack_recv :: "bytes \<Rightarrow> protopack option \<times> bytes" where
  "protopack_recv raw =
     (if 2048 \<le> length raw then (None, raw)
      else if length raw < PROTOCOL_OVERHEAD then (None, raw)
      else
        let received_chsum = ntohl (chsum (pack_of_bytes raw));
            raw' = pack_bytes ((pack_of_bytes raw)\<lparr>chsum := 0\<rparr>);
            calculated_chsum = crc32 raw'
        in if received_chsum \<noteq> calculated_chsum then (None, raw')
           else
             let p = pack_of_bytes raw'
             in (Some (p\<lparr>chsum := htonl received_chsum, seq := ntohl (seq p),
                         d_size := ntohl (d_size p), h_from := ntohl (h_from p),
                         h_to := ntohl (h_to p)\<rparr>), raw'))"

text \<open>
  What \<open>proto_print\<close> reads: the name of the type from an array of \<open>PACKET_TYPE_MAX\<close> names, or
  the payload as a string of at most \<open>d_size\<close> bytes.
\<close>

definition proto_print :: "protopack \<Rightarrow> fault + unit" where
  "proto_print pack =
     (if packtype pack = pt_code PACK_RACK \<or> packtype pack = pt_code PACK_FIN then Inr ()
      else if packtype pack = pt_code PACK_DATA then
        (if length (data pack) < unat (d_size pack) \<and> 0 \<notin> set (data pack) then Inl OutOfBounds
         else Inr ())
      else if unat (packtype pack) < PACKET_TYPE_MAX then Inr ()
      else Inl OutOfBounds)"

subsection \<open>Messages\<close>

definition PROTO_ADDRSIZE :: nat where
  "PROTO_ADDRSIZE = 6"

definition proto_msg_syst :: "u32 \<Rightarrow> u32 \<Rightarrow> bytes \<Rightarrow> protopack_type \<Rightarrow> protopack option" where
  "proto_msg_syst hash_from hash_to addr_port type =
     udp_make_pack 0 hash_from hash_to type (Some addr_port) PROTO_ADDRSIZE"

definition proto_msg_quick :: "u32 \<Rightarrow> u32 \<Rightarrow> u32 \<Rightarrow> protopack_type \<Rightarrow> protopack option" where
  "proto_msg_quick hash_from hash_to sq type = udp_make_pack sq hash_from hash_to type None 0"

text \<open>The packet it builds.\<close>

definition quick :: "u32 \<Rightarrow> u32 \<Rightarrow> u32 \<Rightarrow> protopack_type \<Rightarrow> protopack" where
  "quick a b n t = \<lparr>seq = n, chsum = 0, d_size = 0, h_from = a, h_to = b, packtype = pt_code t, data = []\<rparr>"

lemma proto_msg_quick_eq: "proto_msg_quick a b n t = Some (quick a b n t)"
  by (simp add: proto_msg_quick_def udp_make_pack_def quick_def PROTOCOL_OVERHEAD_def UDP_MTU_def)

definition proto_punch_msg :: "u32 \<Rightarrow> u32 \<Rightarrow> bytes \<Rightarrow> protopack option" where
  "proto_punch_msg hash_from hash_to info =
     udp_make_pack 0 hash_from hash_to PACK_PUNCH (Some info) 140"

definition proto_msg_relay :: "protopack option \<Rightarrow> u32 \<Rightarrow> u32 \<Rightarrow> fault + protopack option" where
  "proto_msg_relay og_packet from_relay_to relay_uid =
     (case og_packet of
        None \<Rightarrow> Inr None
      | Some og \<Rightarrow>
          bind_fault (retranslate_udp og) (\<lambda>re.
          bind_fault (protopack_send (Some re)) (\<lambda>buf.
            Inr (udp_make_pack 0 relay_uid from_relay_to PACK_NULL buf
                   (case buf of None \<Rightarrow> SIZE_MAX | Some b \<Rightarrow> length b)))))"

subsection \<open>The checksum as an injective state machine\<close>

lemma crc_bit_alt: "crc_bit c = drop_bit 1 c XOR (if bit c 0 then 0xEDB88320 else 0)"
proof -
  have "c AND 1 = of_bool (bit c 0)"
    by (simp add: and_one_eq mod_2_eq_odd bit_0)
  then show ?thesis by (cases "bit c 0") (simp_all add: crc_bit_def)
qed

lemma crc_bit_31: "bit (crc_bit c) 31 \<longleftrightarrow> bit c 0"
proof -
  have "bit (0xEDB88320 :: u32) 31" "\<not> bit (drop_bit 1 c) 31"
    by (auto simp: bit_simps dest: bit_imp_le_length)
  then show ?thesis by (simp add: crc_bit_alt bit_xor_iff)
qed

lemma crc_bit_xor: "crc_bit (a XOR b) = crc_bit a XOR crc_bit b"
  unfolding crc_bit_alt bit_xor_iff drop_bit_xor
  by (cases "bit a 0"; cases "bit b 0") (simp_all add: ac_simps flip: xor.assoc)

lemma crc_bit_0 [simp]: "crc_bit 0 = 0"
  by (simp add: crc_bit_alt)

lemma crc_bit_eq_0: "crc_bit c = 0 \<Longrightarrow> c = 0"
proof -
  assume z: "crc_bit c = 0"
  then have low: "\<not> bit c 0" using crc_bit_31 [of c] by simp
  with z have d: "drop_bit 1 c = 0" by (simp add: crc_bit_alt)
  have "\<not> bit c n" for n
  proof (cases n)
    case 0
    with low show ?thesis by simp
  next
    case (Suc m)
    have "bit (drop_bit 1 c) m = bit c (1 + m)" by (simp add: bit_drop_bit_eq)
    with d Suc show ?thesis by simp
  qed
  then show "c = 0" by (intro bit_eqI) simp
qed

lemma crc_bits_xor: "(crc_bit ^^ n) (a XOR b) = (crc_bit ^^ n) a XOR (crc_bit ^^ n) b"
  by (induction n) (simp_all add: crc_bit_xor)

lemma crc_bits_inject: "(crc_bit ^^ n) a = (crc_bit ^^ n) b \<longleftrightarrow> a = b"
proof
  assume "(crc_bit ^^ n) a = (crc_bit ^^ n) b"
  then have "(crc_bit ^^ n) (a XOR b) = 0" by (simp add: crc_bits_xor)
  then have "a XOR b = 0" by (induction n) (auto dest: crc_bit_eq_0)
  then have "a XOR b = b XOR b" by simp
  then show "a = b" by (simp only: xor_cancel_right)
qed simp

lemma crc_bit_push:
  assumes "n < 8"
  shows "crc_bit (push_bit (Suc n) (ucast (w :: 24 word))) = push_bit n (ucast w)"
proof -
  have "\<not> bit (push_bit (Suc n) (ucast w :: u32)) 0" by (simp only: bit_push_bit_iff) simp
  moreover have "drop_bit 1 (push_bit (Suc n) (ucast w :: u32)) = push_bit n (ucast w)"
    using assms by (intro bit_word_eqI) (auto simp: bit_simps simp del: push_bit_Suc dest: bit_imp_le_length)
  ultimately show ?thesis by (simp add: crc_bit_alt del: push_bit_Suc)
qed

lemma crc_bits_push: "n \<le> 8 \<Longrightarrow> (crc_bit ^^ n) (push_bit n (ucast (w :: 24 word))) = ucast w"
proof (induction n)
  case 0
  then show ?case by simp
next
  case (Suc n)
  then have "crc_bit (push_bit (Suc n) (ucast w)) = push_bit n (ucast w)"
    using crc_bit_push [of n w] by simp
  with Suc show ?case by (simp add: funpow_swap1 del: push_bit_Suc)
qed

text \<open>
  Up to four bytes processed at once: their little endian word is added to the state first.
\<close>

fun le_word :: "bytes \<Rightarrow> u32" where
  "le_word [] = 0"
| "le_word (b # bs) = ucast b XOR push_bit 8 (le_word bs)"

lemma le_word_bound: "length bs \<le> n \<Longrightarrow> bit (le_word bs) i \<Longrightarrow> i < 8 * n"
proof (induction bs arbitrary: n i)
  case Nil
  then show ?case by simp
next
  case (Cons b bs)
  then obtain m where n: "n = Suc m" by (cases n) auto
  have "bit b i \<or> 8 \<le> i \<and> bit (le_word bs) (i - 8)"
    using Cons.prems(2) by (auto simp: bit_simps)
  then show ?case
    using Cons.IH [of m "i - 8"] Cons.prems(1) n by (auto dest: bit_imp_le_length)
qed

lemma le_word_24: "length bs \<le> 3 \<Longrightarrow> \<exists>w :: 24 word. le_word bs = ucast w"
proof (intro exI [of _ "ucast (le_word bs)"] bit_word_eqI)
  fix i assume "length bs \<le> 3" "i < LENGTH(32)"
  then show "bit (le_word bs) i = bit (ucast (ucast (le_word bs) :: 24 word) :: u32) i"
    using le_word_bound [of bs 3 i] by (auto simp: bit_simps)
qed

lemma crc_bytes_word:
  "length bs \<le> 4 \<Longrightarrow> foldl crc_byte c bs = (crc_bit ^^ (8 * length bs)) (c XOR le_word bs)"
proof (induction bs arbitrary: c)
  case Nil
  then show ?case by simp
next
  case (Cons b bs)
  then obtain w :: "24 word" where w: "le_word bs = ucast w"
    using le_word_24 [of bs] by auto
  have "(crc_bit ^^ 8) (c XOR le_word (b # bs)) = crc_byte c b XOR le_word bs"
    using crc_bits_push [of 8 w]
    by (simp add: crc_byte_def crc_bits_xor w flip: xor.assoc)
  then have "(crc_bit ^^ (8 * length bs + 8)) (c XOR le_word (b # bs)) =
      (crc_bit ^^ (8 * length bs)) (crc_byte c b XOR le_word bs)"
    by (simp only: funpow_add comp_apply)
  then show ?case
    using Cons by (simp add: add.commute)
qed

lemma le_word_inject:
  "length xs = length ys \<Longrightarrow> length xs \<le> 4 \<Longrightarrow> le_word xs = le_word ys \<Longrightarrow> xs = ys"
proof (induction xs ys rule: list_induct2)
  case Nil
  then show ?case by simp
next
  case (Cons x xs y ys)
  have "bit x i = bit y i" if "i < 8" for i
  proof -
    have "bit (le_word (x # xs)) i = bit (le_word (y # ys)) i"
      using Cons.prems(2) by simp
    with that show ?thesis by (simp add: bit_simps)
  qed
  then have "x = y" by (auto intro: bit_word_eqI)
  moreover have "bit (le_word xs) i = bit (le_word ys) i" if "i < 24" for i
  proof -
    have "bit (le_word (x # xs)) (i + 8) = bit (le_word (y # ys)) (i + 8)"
      using Cons.prems(2) by simp
    with that show ?thesis
      using bit_imp_le_length [of x "i + 8"] bit_imp_le_length [of y "i + 8"] by (auto simp: bit_simps)
  qed
  then have "le_word xs = le_word ys"
    using Cons.prems(1) Cons.hyps le_word_bound [of xs 3] le_word_bound [of ys 3]
    by (intro bit_word_eqI) force
  ultimately show ?case using Cons by simp
qed

lemma crc_fold_inject: "foldl crc_byte a bs = foldl crc_byte b bs \<longleftrightarrow> a = b"
  by (induction bs arbitrary: a b) (simp_all only: foldl_Nil foldl_Cons crc_byte_def crc_bits_inject xor_cancel)

lemma crc32_burst:
  assumes "length u = length v" and "length u \<le> 4" and "u \<noteq> v"
  shows "crc32 (xs @ u @ ys) \<noteq> crc32 (xs @ v @ ys)"
proof
  define c where "c = foldl crc_byte 0xFFFFFFFF xs"
  assume "crc32 (xs @ u @ ys) = crc32 (xs @ v @ ys)"
  then have "foldl crc_byte (foldl crc_byte c u) ys = foldl crc_byte (foldl crc_byte c v) ys"
    by (simp add: crc32_def c_def)
  then have "le_word u = le_word v"
    using assms by (simp add: crc_fold_inject crc_bytes_word crc_bits_inject xor_cancel)
  with assms le_word_inject [of u v] show False by simp
qed

subsection \<open>The wire form\<close>

lemma pack_of_pack_bytes [simp]: "pack_of_bytes (pack_bytes p) = p"
  by (cases p) (simp add: pack_of_bytes_def pack_bytes_def nth_append)

lemma length_pack_bytes [simp]: "length (pack_bytes p) = PROTOCOL_OVERHEAD + length (data p)"
  by (simp add: pack_bytes_def PROTOCOL_OVERHEAD_def)

lemma pack_bytes_of:
  assumes "PROTOCOL_OVERHEAD \<le> length raw"
  shows "pack_bytes ((pack_of_bytes raw)\<lparr>chsum := c\<rparr>) = take 4 raw @ le32 c @ drop 8 raw"
proof -
  have long: "21 \<le> length raw" using assms by (simp add: PROTOCOL_OVERHEAD_def)
  have s: "le32 (of_le32 (drop n raw)) @ drop (n + 4) raw @ xs = drop n raw @ xs"
    if "n \<le> 16" for n xs
  proof -
    have "le32 (of_le32 (drop n raw)) = take 4 (drop n raw)"
      using long that by (intro le32_of_le32_take) simp
    moreover have "take 4 (drop n raw) @ drop (n + 4) raw = drop n raw"
      by (metis add.commute append_take_drop_id drop_drop)
    ultimately show ?thesis by (metis append.assoc)
  qed
  have last: "raw ! 20 # drop 21 raw = drop (16 + 4) raw"
    using Cons_nth_drop_Suc [of 20 raw] long by simp
  have "le32 (of_le32 (drop 8 raw)) @ le32 (of_le32 (drop 12 raw)) @ le32 (of_le32 (drop 16 raw)) @
      drop (16 + 4) raw = drop 8 raw"
    using s [of 16 "[]"] s [of 12 "[]"] s [of 8 "[]"] by simp
  moreover have "le32 (of_le32 raw) = take 4 raw"
    using long by (intro le32_of_le32_take) simp
  ultimately show ?thesis
    unfolding pack_bytes_def pack_of_bytes_def by (simp add: last)
qed

lemma recv_accepts:
  "(\<exists>p. fst (protopack_recv raw) = Some p) \<longleftrightarrow>
   PROTOCOL_OVERHEAD \<le> length raw \<and> length raw < 2048 \<and>
   ntohl (of_le32 (drop 4 raw)) = crc32 (take 4 raw @ le32 0 @ drop 8 raw)"
proof (cases "PROTOCOL_OVERHEAD \<le> length raw")
  case True
  have "chsum (pack_of_bytes raw) = of_le32 (drop 4 raw)"
    by (simp add: pack_of_bytes_def)
  with True show ?thesis
    by (simp add: protopack_recv_def Let_def pack_bytes_of)
qed (simp add: protopack_recv_def Let_def)

text \<open>What a sender puts on the wire for a packet in host order.\<close>

definition wire :: "protopack \<Rightarrow> fault + bytes option" where
  "wire p = bind_fault (retranslate_udp p) (\<lambda>q. protopack_send (Some q))"

definition pack_ok :: "protopack \<Rightarrow> bool" where
  "pack_ok p \<longleftrightarrow> unat (d_size p) = length (data p) \<and> PROTOCOL_OVERHEAD + length (data p) \<le> UDP_MTU"

lemma udp_make_pack_ok:
  assumes "udp_make_pack sq f t ty payload n = Some p" and "\<And>bs. payload = Some bs \<Longrightarrow> n \<le> length bs"
  shows "pack_ok p" and "data p = (case payload of None \<Rightarrow> replicate n 0 | Some bs \<Rightarrow> take n bs)"
    and "seq p = sq" "h_from p = f" "h_to p = t" "packtype p = pt_code ty"
proof -
  have n: "PROTOCOL_OVERHEAD + n \<le> UDP_MTU" and p: "p = \<lparr>seq = sq, chsum = 0, d_size = of_nat n,
      h_from = f, h_to = t, packtype = pt_code ty,
      data = (case payload of None \<Rightarrow> replicate n 0 | Some bs \<Rightarrow> take n bs)\<rparr>"
    using assms(1) by (auto simp: udp_make_pack_def Let_def split: if_splits)
  have "unat (of_nat n :: u32) = n"
    using n by (simp add: unat_of_nat PROTOCOL_OVERHEAD_def UDP_MTU_def)
  then show "pack_ok p"
    using n assms(2) by (auto simp: pack_ok_def p split: option.split)
qed (use assms in \<open>auto simp: udp_make_pack_def Let_def split: if_splits\<close>)

definition net_order :: "protopack \<Rightarrow> protopack" where
  "net_order p = p\<lparr>seq := htonl (seq p), chsum := 0, d_size := htonl (d_size p),
     h_from := htonl (h_from p), h_to := htonl (h_to p)\<rparr>"

lemma retranslate_ok:
  assumes "pack_ok p"
  shows "retranslate_udp p = Inr ((net_order p)\<lparr>chsum := htonl (crc32 (pack_bytes (net_order p)))\<rparr>)"
proof -
  have "take (unat (d_size p) + PROTOCOL_OVERHEAD) (pack_bytes (net_order p)) = pack_bytes (net_order p)"
    using assms by (intro take_all) (simp add: pack_ok_def net_order_def)
  with assms show ?thesis
    by (cases p) (simp add: retranslate_udp_def udp_copy_pack_def pack_ok_def net_order_def)
qed

lemma wire_ok:
  assumes "pack_ok p"
  shows "wire p = Inr (Some (pack_bytes ((net_order p)\<lparr>chsum := htonl (crc32 (pack_bytes (net_order p)))\<rparr>)))"
  using assms
  by (simp add: wire_def retranslate_ok protopack_send_def pack_ok_def net_order_def Let_def
      PROTOCOL_OVERHEAD_def UDP_MTU_def)

lemma recv_wire:
  assumes "pack_ok p" and "wire p = Inr (Some raw)"
  shows "\<exists>c. fst (protopack_recv raw) = Some (p\<lparr>chsum := c\<rparr>)"
proof -
  let ?n = "net_order p"
  have raw: "raw = pack_bytes (?n\<lparr>chsum := htonl (crc32 (pack_bytes ?n))\<rparr>)"
    using assms wire_ok by simp
  have "PROTOCOL_OVERHEAD \<le> length raw" "length raw < 2048"
    using assms(1) by (simp_all add: raw pack_ok_def net_order_def PROTOCOL_OVERHEAD_def UDP_MTU_def)
  then show ?thesis
    by (cases p) (simp add: protopack_recv_def raw Let_def net_order_def)
qed

lemma recv_burst:
  assumes ok: "fst (protopack_recv (xs @ u @ ys)) = Some p"
    and uv: "length u = length v" "length u \<le> 4" "u \<noteq> v"
    and place: "length xs + length u \<le> 4 \<or> 8 \<le> length xs \<or> 4 \<le> length xs \<and> length xs + length u \<le> 8"
  shows "fst (protopack_recv (xs @ v @ ys)) = None"
proof (rule ccontr)
  assume "fst (protopack_recv (xs @ v @ ys)) \<noteq> None"
  then obtain q where q: "fst (protopack_recv (xs @ v @ ys)) = Some q" by blast
  define f where "f w = take 4 (xs @ w @ ys) @ le32 0 @ drop 8 (xs @ w @ ys)" for w
  have crc: "ntohl (of_le32 (drop 4 (xs @ u @ ys))) = crc32 (f u)"
    "ntohl (of_le32 (drop 4 (xs @ v @ ys))) = crc32 (f v)"
    using exI [of "\<lambda>p. fst (protopack_recv (xs @ u @ ys)) = Some p", OF ok]
      exI [of "\<lambda>p. fst (protopack_recv (xs @ v @ ys)) = Some p", OF q]
    unfolding recv_accepts f_def by blast+
  have long: "21 \<le> length (xs @ u @ ys)"
    using exI [of "\<lambda>p. fst (protopack_recv (xs @ u @ ys)) = Some p", OF ok]
    unfolding recv_accepts by (simp add: PROTOCOL_OVERHEAD_def)
  from place consider "length xs + length u \<le> 4" | "8 \<le> length xs"
    | "4 \<le> length xs" "length xs + length u \<le> 8" by blast
  then show False
  proof cases
    case 1
    then have "f w = xs @ w @ take (4 - length xs - length u) ys @ le32 0 @ drop (8 - length xs - length u) ys"
      if "length w = length u" for w
      using that by (simp add: f_def)
    moreover have "drop 4 (xs @ u @ ys) = drop 4 (xs @ v @ ys)"
      using 1 uv(1) by simp
    ultimately show False
      using crc crc32_burst [OF uv(1,2,3), of xs] uv(1) by simp
  next
    case 2
    then have "f w = (take 4 xs @ le32 0 @ drop 8 xs) @ w @ ys" for w
      by (simp add: f_def)
    moreover have "of_le32 (drop 4 (xs @ w @ ys)) = of_le32 (take 4 (drop 4 xs))" for w
      using 2 of_le32_take [of "drop 4 xs @ w @ ys"] by simp
    ultimately show False
      using crc crc32_burst [OF uv(1,2,3), of "take 4 xs @ le32 0 @ drop 8 xs" ys] by simp
  next
    case 3
    then have "f u = f v"
      using uv(1) by (simp add: f_def)
    then have "of_le32 (drop 4 (xs @ u @ ys)) = of_le32 (drop 4 (xs @ v @ ys))"
      using crc by (metis htonl_inject)
    then have "take 4 (drop 4 (xs @ u @ ys)) = take 4 (drop 4 (xs @ v @ ys))"
      using long uv(1) le32_of_le32_take [of "drop 4 (xs @ u @ ys)"]
        le32_of_le32_take [of "drop 4 (xs @ v @ ys)"] by simp
    with 3 uv show False by simp
  qed
qed

subsection \<open>Properties\<close>

text \<open>
  C6: round trip: a packet converted for the wire and received unchanged is the packet that
  was sent, all fields and data, up to the checksum field.
\<close>

theorem protopack_roundtrip:
  assumes "pack_ok p" and "wire p = Inr (Some raw)"
  shows "\<exists>c. fst (protopack_recv raw) = Some (p\<lparr>chsum := c\<rparr>)"
  using assms by (rule recv_wire)

definition demo_pack :: protopack where
  "demo_pack = \<lparr>seq = 5, chsum = 0, d_size = 2, h_from = 0x01020304, h_to = 9, packtype = 7, data = [1, 2]\<rparr>"

lemma demo_pack_ok: "pack_ok demo_pack"
  by (simp add: pack_ok_def demo_pack_def PROTOCOL_OVERHEAD_def UDP_MTU_def)

theorem protopack_roundtrip_witness:
  "\<exists>raw c. wire demo_pack = Inr (Some raw) \<and> fst (protopack_recv raw) = Some (demo_pack\<lparr>chsum := c\<rparr>)"
  using protopack_roundtrip [OF demo_pack_ok] wire_ok [OF demo_pack_ok] by blast

text \<open>
  C5: the receiver drops every datagram that differs from a valid one in up to four
  consecutive bytes, which lie before, inside or behind the checksum field.
\<close>

theorem protopack_recv_detects_burst:
  assumes "fst (protopack_recv (xs @ u @ ys)) = Some p"
    and "length u = length v" and "length u \<le> 4" and "u \<noteq> v"
    and "length xs + length u \<le> 4 \<or> 8 \<le> length xs \<or> 4 \<le> length xs \<and> length xs + length u \<le> 8"
  shows "fst (protopack_recv (xs @ v @ ys)) = None"
  using assms by (rule recv_burst)

theorem protopack_recv_detects_burst_witness:
  "\<exists>raw p. wire demo_pack = Inr (Some raw) \<and> fst (protopack_recv raw) = Some p \<and>
     fst (protopack_recv (take 20 raw @ [8] @ drop 21 raw)) = None"
proof -
  obtain raw p where raw: "wire demo_pack = Inr (Some raw)" "fst (protopack_recv raw) = Some p"
    using recv_wire [OF demo_pack_ok] wire_ok [OF demo_pack_ok] by blast
  have eq: "raw = take 20 raw @ [7] @ drop 21 raw" "20 \<le> length raw"
    using raw(1) wire_ok [OF demo_pack_ok] by (auto simp: pack_bytes_def demo_pack_def net_order_def)
  then have "fst (protopack_recv (take 20 raw @ [7] @ drop 21 raw)) = Some p" using raw(2) by metis
  from protopack_recv_detects_burst [OF this, of "[8]"] eq(2)
  have "fst (protopack_recv (take 20 raw @ [8] @ drop 21 raw)) = None" by simp
  with raw show ?thesis by blast
qed

text \<open>
  A packet is built exactly when header and payload fit the MTU of 1432 bytes, and it
  then fits every buffer of 2048 bytes on its way.
\<close>

theorem udp_make_pack_mtu:
  "(case udp_make_pack sq f t ty payload n of
      None \<Rightarrow> UDP_MTU < PROTOCOL_OVERHEAD + n
    | Some p \<Rightarrow> PROTOCOL_OVERHEAD + n \<le> UDP_MTU \<and> unat (d_size p) = n \<and>
        PROTOCOL_OVERHEAD + length (data p) \<le> 2048)"
proof (cases "udp_make_pack sq f t ty payload n")
  case None
  then show ?thesis by (simp add: udp_make_pack_def Let_def split: if_splits)
next
  case (Some p)
  have "length (data p) \<le> n \<and> PROTOCOL_OVERHEAD + n \<le> UDP_MTU \<and> d_size p = of_nat n"
    using Some by (auto simp: udp_make_pack_def Let_def split: if_splits option.splits)
  with Some show ?thesis
    by (simp add: unat_of_nat UDP_MTU_def PROTOCOL_OVERHEAD_def)
qed

text \<open>
  A relayed packet carries the original one: what the last hop receives out of the
  relay's payload is the packet the first hop relayed.
\<close>

theorem proto_msg_relay_inner:
  assumes "pack_ok p" and "PROTOCOL_OVERHEAD + (PROTOCOL_OVERHEAD + length (data p)) \<le> UDP_MTU"
  shows "\<exists>q c. proto_msg_relay (Some p) to uid = Inr (Some q) \<and> packtype q = pt_code PACK_NULL \<and>
    h_from q = uid \<and> h_to q = to \<and> fst (protopack_recv (data q)) = Some (p\<lparr>chsum := c\<rparr>)"
proof -
  obtain raw where raw: "wire p = Inr (Some raw)" "length raw = PROTOCOL_OVERHEAD + length (data p)"
    using wire_ok [OF assms(1)] by (simp add: net_order_def)
  obtain q where q: "udp_make_pack 0 uid to PACK_NULL (Some raw) (length raw) = Some q"
    using assms(2) raw(2) by (simp add: udp_make_pack_def Let_def)
  have "data q = raw" "packtype q = pt_code PACK_NULL" "h_from q = uid" "h_to q = to"
    using udp_make_pack_ok [OF q] by simp_all
  moreover have "proto_msg_relay (Some p) to uid = Inr (Some q)"
    using raw(1) q by (auto simp: proto_msg_relay_def wire_def bind_fault_Inr_iff)
  moreover obtain c where "fst (protopack_recv raw) = Some (p\<lparr>chsum := c\<rparr>)"
    using recv_wire [OF assms(1) raw(1)] by blast
  ultimately show ?thesis by blast
qed

theorem proto_msg_relay_inner_witness:
  "\<exists>q c. proto_msg_relay (Some demo_pack) 3 4 = Inr (Some q) \<and>
     fst (protopack_recv (data q)) = Some (demo_pack\<lparr>chsum := c\<rparr>)"
proof -
  have "PROTOCOL_OVERHEAD + (PROTOCOL_OVERHEAD + length (data demo_pack)) \<le> UDP_MTU"
    by (simp add: demo_pack_def PROTOCOL_OVERHEAD_def UDP_MTU_def)
  from proto_msg_relay_inner [OF demo_pack_ok this, of 3 4] show ?thesis by blast
qed

end
