(* ===== verification/Events.thy ===== *)
theory Events
  imports Prelude
begin

text \<open>
  \<open>multithr/events.c\<close>. In the Linux half an event socket is a non-blocking \<open>eventfd\<close>, a
  counter that a notification increments and a read sets back to \<open>0\<close>. A wait returns \<open>0\<close>
  when its timeout passes with the counter at \<open>0\<close>, and \<open>-1\<close> on a closed descriptor.
  Notifications that arrive before a wait are therefore one event to it; a worker has to
  empty its queue at each event. In the half for other systems it is a pair of connected sockets,
  and a notification a byte that waits in a buffer of \<open>cap\<close> bytes.

  The lemmas: notifications merge, and both halves give the same results as long as the buffer holds
  the notifications.
\<close>

record mt_eventsock =
  ev_counter :: nat
  ev_open :: bool

definition mt_evsock_new :: "int \<times> mt_eventsock" where
  "mt_evsock_new = (0, \<lparr>ev_counter = 0, ev_open = True\<rparr>)"

definition mt_evsock_close :: "mt_eventsock \<Rightarrow> mt_eventsock" where
  "mt_evsock_close e = e\<lparr>ev_open := False\<rparr>"

definition mt_evsock_notify :: "mt_eventsock \<Rightarrow> mt_eventsock" where
  "mt_evsock_notify e = (if ev_open e then e\<lparr>ev_counter := ev_counter e + 1\<rparr> else e)"

definition mt_evsock_wait :: "mt_eventsock \<Rightarrow> int \<times> mt_eventsock" where
  "mt_evsock_wait e =
     (if \<not> ev_open e then (-1, e)
      else if 0 < ev_counter e then (1, e\<lparr>ev_counter := 0\<rparr>)
      else (0, e))"

definition mt_evsock_drain :: "mt_eventsock \<Rightarrow> mt_eventsock" where
  "mt_evsock_drain e = (if ev_open e then e\<lparr>ev_counter := 0\<rparr> else e)"

text \<open>
  A wait for several sockets polls copies of their \<open>pollfd\<close> records, but then looks for input in the records
  themselves, where \<open>stale\<close> is what the last \<open>mt_evsock_wait\<close> of each one has left: a socket whose own
  record shows no input is counted and not read. \<open>poll\<close> counts a closed descriptor as ready.
\<close>

definition mt_evsock_waitm :: "bool list \<Rightarrow> mt_eventsock list \<Rightarrow> int \<times> mt_eventsock list" where
  "mt_evsock_waitm stale es =
     (let ready = filter (\<lambda>e. \<not> ev_open e \<or> 0 < ev_counter e) es in
      if ready = [] then (0, es)
      else (int (length ready), map2 (\<lambda>st e. if st \<and> ev_open e then e\<lparr>ev_counter := 0\<rparr> else e) stale es))"

lemma waitm_unread:
  assumes "e \<in> set es" and "0 < ev_counter e"
  shows "0 < fst (mt_evsock_waitm (replicate (length es) False) es) \<and>
    snd (mt_evsock_waitm (replicate (length es) False) es) = es"
proof -
  have "map2 (\<lambda>st e. if st \<and> ev_open e then e\<lparr>ev_counter := 0\<rparr> else e) (replicate (length es) False) es = es"
    for es :: "mt_eventsock list" by (induction es) auto
  moreover have "filter (\<lambda>e. \<not> ev_open e \<or> 0 < ev_counter e) es \<noteq> []" using assms by (auto simp: filter_empty_conv)
  ultimately show ?thesis by (simp add: mt_evsock_waitm_def Let_def)
qed

lemma notify_many:
  "ev_open e \<Longrightarrow> (mt_evsock_notify ^^ n) e = e\<lparr>ev_counter := ev_counter e + n\<rparr>"
  by (induction n) (auto simp: mt_evsock_notify_def)

lemma evsock_coalesces:
  assumes "ev_open e" and "0 < n"
  shows "\<exists>e'. mt_evsock_wait ((mt_evsock_notify ^^ n) e) = (1, e') \<and> fst (mt_evsock_wait e') = 0"
  using assms by (simp add: notify_many mt_evsock_wait_def)

subsection \<open>The pair of sockets\<close>

record pair_eventsock =
  pe_pending :: nat
  pe_open :: bool

definition pair_evsock_new :: "bool \<Rightarrow> int \<times> pair_eventsock option" where
  "pair_evsock_new ok = (if ok then (0, Some \<lparr>pe_pending = 0, pe_open = True\<rparr>) else (-1, None))"

definition pair_evsock_close :: "pair_eventsock \<Rightarrow> int \<times> pair_eventsock" where
  "pair_evsock_close e = (0, e\<lparr>pe_open := False\<rparr>)"

definition pair_evsock_notify :: "nat \<Rightarrow> pair_eventsock \<Rightarrow> int \<times> pair_eventsock" where
  "pair_evsock_notify cap e =
     (if \<not> pe_open e \<or> cap \<le> pe_pending e then (-1, e) else (0, e\<lparr>pe_pending := pe_pending e + 1\<rparr>))"

text \<open>The loop that reads at most 256 bytes at a time until nothing is left: the reads that gave something.\<close>

function read_all :: "nat \<Rightarrow> nat list" where
  "read_all pending = (if pending = 0 then [] else min pending 256 # read_all (pending - min pending 256))"
  by pat_completeness auto
termination
  by (relation "measure id") auto

declare read_all.simps [simp del]

definition pair_evsock_wait :: "pair_eventsock \<Rightarrow> int \<times> pair_eventsock" where
  "pair_evsock_wait e =
     (if \<not> pe_open e then (-1, e)
      else if pe_pending e = 0 then (0, e)
      else (1, e\<lparr>pe_pending := pe_pending e - sum_list (read_all (pe_pending e))\<rparr>))"

definition pair_evsock_drain :: "pair_eventsock \<Rightarrow> int \<times> pair_eventsock" where
  "pair_evsock_drain e =
     (if \<not> pe_open e then (-1, e) else (0, e\<lparr>pe_pending := pe_pending e - sum_list (read_all (pe_pending e))\<rparr>))"

lemma read_all_sum: "sum_list (read_all n) = n"
  by (induction n rule: read_all.induct) (subst read_all.simps, simp)

text \<open>A use of an open event socket, in both halves.\<close>

datatype ev_use = Notify | Wait | Drain

fun ev_run :: "ev_use list \<Rightarrow> mt_eventsock \<Rightarrow> int list \<times> mt_eventsock" where
  "ev_run [] e = ([], e)"
| "ev_run (u # us) e =
     (let (r, e) = (case u of Notify \<Rightarrow> (0, mt_evsock_notify e) | Wait \<Rightarrow> mt_evsock_wait e
                            | Drain \<Rightarrow> (0, mt_evsock_drain e));
          (rs, e) = ev_run us e in (r # rs, e))"

fun pair_run :: "nat \<Rightarrow> ev_use list \<Rightarrow> pair_eventsock \<Rightarrow> int list \<times> pair_eventsock" where
  "pair_run cap [] e = ([], e)"
| "pair_run cap (u # us) e =
     (let (r, e) = (case u of Notify \<Rightarrow> pair_evsock_notify cap e | Wait \<Rightarrow> pair_evsock_wait e
                            | Drain \<Rightarrow> pair_evsock_drain e);
          (rs, e) = pair_run cap us e in (r # rs, e))"

text \<open>Never more than \<open>cap\<close> notifications wait, with \<open>n\<close> of them waiting before.\<close>

fun buffered :: "nat \<Rightarrow> nat \<Rightarrow> ev_use list \<Rightarrow> bool" where
  "buffered cap n [] \<longleftrightarrow> True"
| "buffered cap n (Notify # us) \<longleftrightarrow> n < cap \<and> buffered cap (n + 1) us"
| "buffered cap n (Wait # us) \<longleftrightarrow> buffered cap 0 us"
| "buffered cap n (Drain # us) \<longleftrightarrow> buffered cap 0 us"

lemma halves_step:
  assumes "pe_open e" and "buffered cap (pe_pending e) us"
  shows "pair_run cap us e =
    (let (rs, c) = ev_run us \<lparr>ev_counter = pe_pending e, ev_open = True\<rparr> in (rs, e\<lparr>pe_pending := ev_counter c\<rparr>))"
  using assms
proof (induction us arbitrary: e)
  case (Cons u us)
  have IH: "pair_run cap us (e\<lparr>pe_pending := n\<rparr>) =
      (let (rs, c) = ev_run us \<lparr>ev_counter = n, ev_open = True\<rparr> in (rs, e\<lparr>pe_pending := ev_counter c\<rparr>))"
    if "buffered cap n us" for n
    using Cons.IH [of "e\<lparr>pe_pending := n\<rparr>"] Cons.prems(1) that by simp
  have keep: "e\<lparr>pe_pending := pe_pending e\<rparr> = e" by simp
  from Cons.prems show ?case
    using IH [of 0] IH [of "pe_pending e + 1"] IH [of "pe_pending e", unfolded keep]
    by (cases u) (auto simp: pair_evsock_notify_def pair_evsock_wait_def pair_evsock_drain_def mt_evsock_notify_def
        mt_evsock_wait_def mt_evsock_drain_def read_all_sum Let_def split: prod.splits)
qed simp

text \<open>
  C30: an open event socket of Linux and one of the other systems give the same results in any sequence of notifications, waits
  and drains, as long as between two reads there are never more notifications than the buffer of the pair has room for.
\<close>

theorem evsock_halves_agree:
  assumes "buffered cap 0 us"
  shows "fst (pair_run cap us (the (snd (pair_evsock_new True)))) = fst (ev_run us (snd mt_evsock_new))"
  using halves_step [of "\<lparr>pe_pending = 0, pe_open = True\<rparr>" cap us] assms
  by (simp add: pair_evsock_new_def mt_evsock_new_def split: prod.splits)

theorem evsock_halves_agree_witness:
  "fst (pair_run 2 [Notify, Notify, Wait, Wait, Notify, Drain, Wait] (the (snd (pair_evsock_new True)))) = [0, 0, 1, 0, 0, 0, 0]"
  using evsock_halves_agree [of 2 "[Notify, Notify, Wait, Wait, Notify, Drain, Wait]"]
  by (simp add: mt_evsock_new_def mt_evsock_notify_def mt_evsock_wait_def mt_evsock_drain_def)

subsection \<open>Clocks\<close>

text \<open>What the functions of \<open>multithr/time.h\<close> make of a reading of seconds and nanoseconds.\<close>

record timespec =
  tv_sec :: int
  tv_nsec :: int

definition timespec_seconds :: "timespec \<Rightarrow> int" where
  "timespec_seconds tv = tv_sec tv"

definition timespec_millis :: "timespec \<Rightarrow> int" where
  "timespec_millis tv = tv_sec tv * 1000 + tv_nsec tv div 1000000"

definition timespec_micros :: "timespec \<Rightarrow> int" where
  "timespec_micros tv = tv_sec tv * 1000000 + tv_nsec tv div 1000"

lemma timespec_consistent:
  assumes "0 \<le> tv_nsec tv" and "tv_nsec tv < 1000000000"
  shows "timespec_micros tv div 1000 = timespec_millis tv \<and> timespec_millis tv div 1000 = timespec_seconds tv"
proof -
  have "tv_nsec tv div 1000 div 1000 = tv_nsec tv div 1000000" by (simp add: zdiv_zmult2_eq [symmetric])
  moreover have "tv_nsec tv div 1000000 div 1000 = 0"
    using assms by (simp add: zdiv_zmult2_eq [symmetric] div_pos_pos_trivial)
  moreover have "(a * 1000000 + b) div 1000 = a * 1000 + b div 1000" for a b :: int
    using div_mult_self1 [of 1000 b "a * 1000"] by (simp add: algebra_simps)
  ultimately show ?thesis by (simp add: timespec_micros_def timespec_millis_def timespec_seconds_def)
qed

end
