(* ===== verification/Providers.thy ===== *)
theory Providers
  imports Packproto Events
begin

text \<open>
  \<open>providers/src\<close>: the sender and the listener, the two threads between the packet queues
  and the UDP socket. \<open>'fd\<close> is the address and descriptor of a peer (\<open>nnet_fd\<close>), which this
  layer only stores and hands on. A protected queue is the list of its contents (the ring
  buffer of \<open>Prot_Queue\<close> implements it), and the socket is the list of datagrams sent.

  A worker's infinite loop is the function of one iteration: \<open>pvd_sender_iter\<close> waits for
  the event and empties the queue, \<open>pvd_listener_iter\<close> takes one datagram. Threads,
  \<open>pthread_join\<close> and the socket calls themselves are not modelled. A packet handler's
  \<open>proxy\<close> is a function from the packet and the address to its answer.
\<close>

record proxyfied =
  drop_pkt :: bool
  proxyfied_pkt :: "protopack option"

type_synonym 'fd proxy_if = "(protopack \<Rightarrow> 'fd \<Rightarrow> proxyfied) option"

definition proxy_if_create :: "'fd proxy_if" where
  "proxy_if_create = None"

definition proxy_if_handler :: "'fd proxy_if \<Rightarrow> (protopack \<Rightarrow> 'fd \<Rightarrow> proxyfied) option \<Rightarrow> 'fd proxy_if" where
  "proxy_if_handler iface func = func"

definition proxy_perform :: "'fd proxy_if \<Rightarrow> protopack \<Rightarrow> 'fd \<Rightarrow> proxyfied" where
  "proxy_perform iface pkt nfd =
     (case iface of
        None \<Rightarrow> \<lparr>drop_pkt = False, proxyfied_pkt = Some pkt\<rparr>
      | Some prx \<Rightarrow> prx pkt nfd)"

subsection \<open>Sender\<close>

record 'fd pvd_sender =
  s_packets :: "(protopack \<times> 'fd) list"
  s_newpack :: mt_eventsock
  s_running :: bool
  s_proxy :: "'fd proxy_if"

definition pvd_sender_new :: "int \<times> 'fd pvd_sender" where
  "pvd_sender_new =
     (0, \<lparr>s_packets = [], s_newpack = snd mt_evsock_new, s_running = False, s_proxy = None\<rparr>)"

definition pvd_sender_proxy :: "'fd pvd_sender \<Rightarrow> 'fd proxy_if \<Rightarrow> int \<times> 'fd pvd_sender" where
  "pvd_sender_proxy s prx = (0, s\<lparr>s_proxy := prx\<rparr>)"

definition pvd_sender_end :: "'fd pvd_sender \<Rightarrow> 'fd pvd_sender" where
  "pvd_sender_end s =
     s\<lparr>s_running := False, s_newpack := mt_evsock_close (s_newpack s), s_packets := []\<rparr>"

definition pvd_sender_start :: "int \<Rightarrow> 'fd pvd_sender \<Rightarrow> int \<times> 'fd pvd_sender" where
  "pvd_sender_start r s = (r, s\<lparr>s_running := (r = 0)\<rparr>)"

text \<open>\<open>packet\<close> is \<open>None\<close> for \<open>NULL\<close>.\<close>

definition pvd_sender_send ::
  "'fd pvd_sender \<Rightarrow> protopack option \<Rightarrow> 'fd \<Rightarrow> fault + int \<times> 'fd pvd_sender" where
  "pvd_sender_send s packet to =
     (case packet of
        None \<Rightarrow> Inr (-1, s)
      | Some p \<Rightarrow> bind_fault (udp_copy_pack p) (\<lambda>pkt.
          Inr (0, s\<lparr>s_packets := s_packets s @ [(pkt, to)],
                    s_newpack := mt_evsock_notify (s_newpack s)\<rparr>)))"

text \<open>
  The conversion of one packet to the bytes of the datagram (\<open>None\<close>: too large). The packet
  is copied to a zeroed buffer of 2048 bytes in network order, the checksum put in place.
\<close>

definition sender_datagram :: "protopack \<Rightarrow> fault + bytes option" where
  "sender_datagram pkt =
     (let total_size = PROTOCOL_OVERHEAD + unat (d_size pkt) in
      if 2048 < total_size then Inr None
      else
        let p = pkt\<lparr>seq := htonl (seq pkt), d_size := htonl (d_size pkt),
                    h_from := htonl (h_from pkt), h_to := htonl (h_to pkt), chsum := 0\<rparr>
        in if length (pack_bytes p) < total_size then Inl OutOfBounds
           else
             let buf = take total_size (pack_bytes p)
             in Inr (Some (pack_bytes ((pack_of_bytes buf)\<lparr>chsum := htonl (crc32 buf)\<rparr>))))"

text \<open>\<open>_pvd_sender_low_send\<close>: the datagram it hands to the socket, and its result.\<close>

definition pvd_sender_low_send ::
  "protopack \<Rightarrow> 'fd \<Rightarrow> bool \<Rightarrow> fault + int \<times> (bytes \<times> 'fd) list" where
  "pvd_sender_low_send packet to no_conversion =
     bind_fault (udp_copy_pack packet) (\<lambda>copy.
       if no_conversion then
         bind_fault (protopack_send (Some packet)) (\<lambda>b.
           Inr (0, case b of None \<Rightarrow> [] | Some buf \<Rightarrow> [(buf, to)]))
       else bind_fault (sender_datagram copy) (\<lambda>b.
         Inr (case b of None \<Rightarrow> (-1, []) | Some buf \<Rightarrow> (0, [(buf, to)]))))"

text \<open>The body of the loop over the popped packets.\<close>

definition sender_one :: "'fd proxy_if \<Rightarrow> protopack \<Rightarrow> 'fd \<Rightarrow> fault + (bytes \<times> 'fd) list" where
  "sender_one prx pkt to =
     (let ans = (case prx of None \<Rightarrow> \<lparr>drop_pkt = False, proxyfied_pkt = Some pkt\<rparr>
                           | Some _ \<Rightarrow> proxy_perform prx pkt to)
      in if drop_pkt ans then Inr []
         else case proxyfied_pkt ans of
                None \<Rightarrow> Inl NullDeref
              | Some p \<Rightarrow> bind_fault (sender_datagram p) (\<lambda>b.
                  Inr (case b of None \<Rightarrow> [] | Some buf \<Rightarrow> [(buf, to)])))"

fun sender_drain ::
  "'fd proxy_if \<Rightarrow> (protopack \<times> 'fd) list \<Rightarrow> fault + (bytes \<times> 'fd) list" where
  "sender_drain prx [] = Inr []"
| "sender_drain prx ((pkt, to) # ps) =
     bind_fault (sender_one prx pkt to) (\<lambda>out.
     bind_fault (sender_drain prx ps) (\<lambda>outs. Inr (out @ outs)))"

text \<open>
  One iteration of \<open>pvd_sender_worker\<close> (\<open>None\<close>: the loop ends): the datagrams sent, and the
  sender after it.
\<close>

definition pvd_sender_iter ::
  "'fd pvd_sender \<Rightarrow> fault + ((bytes \<times> 'fd) list \<times> 'fd pvd_sender) option" where
  "pvd_sender_iter s =
     (if \<not> s_running s then Inr None
      else
        let (r, e) = mt_evsock_wait (s_newpack s) in
        if r < 0 then Inr None
        else if r = 0 then Inr (Some ([], s\<lparr>s_newpack := e\<rparr>))
        else bind_fault (sender_drain (s_proxy s) (s_packets s)) (\<lambda>out.
               Inr (Some (out, s\<lparr>s_newpack := e, s_packets := []\<rparr>))))"

subsection \<open>Listener\<close>

record 'fd pvd_listener =
  l_packets :: "(protopack option \<times> 'fd) list"
  l_newpack :: mt_eventsock
  l_running :: bool
  l_proxy :: "'fd proxy_if"

definition pvd_listener_new :: "int \<times> 'fd pvd_listener" where
  "pvd_listener_new =
     (0, \<lparr>l_packets = [], l_newpack = snd mt_evsock_new, l_running = False, l_proxy = None\<rparr>)"

definition pvd_listener_proxy :: "'fd pvd_listener \<Rightarrow> 'fd proxy_if \<Rightarrow> int \<times> 'fd pvd_listener" where
  "pvd_listener_proxy l prx = (0, l\<lparr>l_proxy := prx\<rparr>)"

definition pvd_listener_end :: "'fd pvd_listener \<Rightarrow> 'fd pvd_listener" where
  "pvd_listener_end l =
     l\<lparr>l_running := False, l_newpack := mt_evsock_close (l_newpack l), l_packets := []\<rparr>"

definition pvd_listener_start :: "int \<Rightarrow> 'fd pvd_listener \<Rightarrow> int \<times> 'fd pvd_listener" where
  "pvd_listener_start r l = (if r < 0 then (r, l\<lparr>l_running := True\<rparr>) else (0, l\<lparr>l_running := True\<rparr>))"

definition pvd_listener_pass ::
  "'fd pvd_listener \<Rightarrow> protopack option \<times> 'fd \<Rightarrow> int \<times> 'fd pvd_listener" where
  "pvd_listener_pass l pkt =
     (0, l\<lparr>l_packets := l_packets l @ [pkt], l_newpack := mt_evsock_notify (l_newpack l)\<rparr>)"

definition pvd_next_packet ::
  "'fd pvd_listener \<Rightarrow> (protopack option \<times> 'fd) option \<times> 'fd pvd_listener" where
  "pvd_next_packet l =
     (case l_packets l of
        [] \<Rightarrow> (None, l)
      | p # ps \<Rightarrow> (Some p, l\<lparr>l_packets := ps\<rparr>))"

text \<open>
  One iteration of \<open>pvd_listener_worker\<close> that has received the datagram \<open>raw\<close>. An empty
  datagram is skipped.
\<close>

definition pvd_listener_iter :: "'fd pvd_listener \<Rightarrow> bytes \<Rightarrow> 'fd \<Rightarrow> 'fd pvd_listener" where
  "pvd_listener_iter l raw from =
     (if raw = [] then l
      else case fst (protopack_recv raw) of
        None \<Rightarrow> l
      | Some pkt \<Rightarrow>
          let ans = (case l_proxy l of None \<Rightarrow> \<lparr>drop_pkt = False, proxyfied_pkt = Some pkt\<rparr>
                                     | Some _ \<Rightarrow> proxy_perform (l_proxy l) pkt from)
          in if drop_pkt ans then l
             else snd (pvd_listener_pass l (proxyfied_pkt ans, from)))"

subsection \<open>Lemmas\<close>

lemma pvd_sender_send_ok:
  assumes "pack_ok p"
  shows "pvd_sender_send s (Some p) to =
    Inr (0, s\<lparr>s_packets := s_packets s @ [(p, to)], s_newpack := mt_evsock_notify (s_newpack s)\<rparr>)"
  using assms by (cases p) (simp add: pvd_sender_send_def udp_copy_pack_def pack_ok_def)

lemma sender_datagram_wire:
  assumes "pack_ok p"
  shows "sender_datagram p = wire p"
proof -
  have "p\<lparr>seq := htonl (seq p), d_size := htonl (d_size p), h_from := htonl (h_from p),
      h_to := htonl (h_to p), chsum := 0\<rparr> = net_order p"
    by (cases p) (simp add: net_order_def)
  moreover have "length (pack_bytes (net_order p)) = PROTOCOL_OVERHEAD + unat (d_size p)"
    using assms by (simp add: pack_ok_def net_order_def)
  moreover from this have "take (PROTOCOL_OVERHEAD + unat (d_size p)) (pack_bytes (net_order p)) = pack_bytes (net_order p)"
    by simp
  moreover have "\<not> 2048 < PROTOCOL_OVERHEAD + unat (d_size p)"
    using assms by (simp add: pack_ok_def UDP_MTU_def)
  ultimately show ?thesis
    by (simp add: sender_datagram_def wire_ok [OF assms] Let_def)
qed

definition deliver :: "'fd pvd_listener \<Rightarrow> (bytes \<times> 'fd) list \<Rightarrow> 'fd pvd_listener" where
  "deliver l ds = foldl (\<lambda>l (raw, fd). pvd_listener_iter l raw fd) l ds"

lemma sender_drain_wire:
  assumes "\<forall>(p, to) \<in> set ps. pack_ok p"
  shows "\<exists>out. sender_drain None ps = Inr out \<and> map snd out = map snd ps \<and>
    list_all2 (\<lambda>(p, _) (raw, _). wire p = Inr (Some raw)) ps out"
  using assms
proof (induction ps)
  case Nil
  then show ?case by simp
next
  case (Cons x ps)
  obtain p to where x: "x = (p, to)" by (cases x)
  with Cons.prems have ok: "pack_ok p" by simp
  obtain raw where "wire p = Inr (Some raw)"
    using wire_ok [OF ok] by simp
  with Cons ok show ?case
    by (auto simp: x sender_one_def sender_datagram_wire)
qed

lemma deliver_wire:
  assumes "list_all2 (\<lambda>(p, _) (raw, _). wire p = Inr (Some raw)) ps out"
    and "\<forall>(p, to) \<in> set ps. pack_ok p" and "l_proxy l = None"
  shows "\<exists>qs. l_packets (deliver l out) = l_packets l @ qs \<and>
    list_all2 (\<lambda>(p, _) (q, _). \<exists>c. q = Some (p\<lparr>chsum := c\<rparr>)) ps qs"
  using assms
proof (induction ps out arbitrary: l rule: list_all2_induct)
  case Nil
  then show ?case by (simp add: deliver_def)
next
  case (Cons x ps y ys)
  obtain p to raw fd where xy: "x = (p, to)" "y = (raw, fd)" by (cases x; cases y)
  with Cons have ok: "pack_ok p" and w: "wire p = Inr (Some raw)" by simp_all
  then obtain c where c: "fst (protopack_recv raw) = Some (p\<lparr>chsum := c\<rparr>)"
    using recv_wire by blast
  have "raw \<noteq> []" using w wire_ok [OF ok] by (auto simp: pack_bytes_def)
  with c Cons.prems(2) have l: "pvd_listener_iter l raw fd =
      snd (pvd_listener_pass l (Some (p\<lparr>chsum := c\<rparr>), fd))"
    by (simp add: pvd_listener_iter_def)
  then have "l_packets (pvd_listener_iter l raw fd) = l_packets l @ [(Some (p\<lparr>chsum := c\<rparr>), fd)]"
    "l_proxy (pvd_listener_iter l raw fd) = None"
    using Cons.prems(2) by (simp_all add: pvd_listener_pass_def)
  with Cons.IH [of "pvd_listener_iter l raw fd"] Cons.prems(1) show ?case
    by (auto simp: deliver_def xy)
qed

subsection \<open>Properties\<close>

text \<open>
  C7: from queue to queue: when the sender is notified and no proxies are set, one iteration
  of its worker sends one datagram for each queued packet, and the listener that receives
  them in order queues the same packets, in order, up to their checksum fields.
\<close>

theorem sender_to_listener:
  assumes "\<forall>(p, to) \<in> set (s_packets s). pack_ok p" and "s_proxy s = None" and "l_proxy l = None"
    and "s_running s" and "ev_open (s_newpack s)" and "0 < ev_counter (s_newpack s)"
  shows "\<exists>out s'. pvd_sender_iter s = Inr (Some (out, s')) \<and> s_packets s' = [] \<and>
    map snd out = map snd (s_packets s) \<and>
    (\<exists>qs. l_packets (deliver l out) = l_packets l @ qs \<and>
      list_all2 (\<lambda>(p, _) (q, _). \<exists>c. q = Some (p\<lparr>chsum := c\<rparr>)) (s_packets s) qs)"
proof -
  obtain out where out: "sender_drain None (s_packets s) = Inr out" "map snd out = map snd (s_packets s)"
    "list_all2 (\<lambda>(p, _) (raw, _). wire p = Inr (Some raw)) (s_packets s) out"
    using sender_drain_wire [OF assms(1)] by blast
  have "pvd_sender_iter s = Inr (Some (out, s\<lparr>s_newpack := (s_newpack s)\<lparr>ev_counter := 0\<rparr>, s_packets := []\<rparr>))"
    using assms out(1) by (simp add: pvd_sender_iter_def mt_evsock_wait_def)
  with out(2) deliver_wire [OF out(3) assms(1,3)] show ?thesis by auto
qed

definition demo_sender :: "nat pvd_sender" where
  "demo_sender = \<lparr>s_packets = [(demo_pack, 1), (demo_pack\<lparr>seq := 6\<rparr>, 2)],
     s_newpack = \<lparr>ev_counter = 2, ev_open = True\<rparr>, s_running = True, s_proxy = None\<rparr>"

theorem sender_to_listener_witness:
  "\<exists>out s'. pvd_sender_iter demo_sender = Inr (Some (out, s')) \<and> map snd out = [1, 2] \<and>
     length (l_packets (deliver (snd pvd_listener_new) out)) = 2"
proof -
  have "pack_ok (demo_pack\<lparr>seq := 6\<rparr>)"
    using demo_pack_ok by (simp add: pack_ok_def)
  then have "\<forall>(p, to) \<in> set (s_packets demo_sender). pack_ok p"
    using demo_pack_ok by (simp add: demo_sender_def)
  from sender_to_listener [OF this, of "snd pvd_listener_new"]
  obtain out s' qs where "pvd_sender_iter demo_sender = Inr (Some (out, s'))"
    "map snd out = map snd (s_packets demo_sender)"
    "l_packets (deliver (snd pvd_listener_new) out) = l_packets (snd pvd_listener_new) @ qs"
    "list_all2 (\<lambda>(p, _) (q, _). \<exists>c. q = Some (p\<lparr>chsum := c\<rparr>)) (s_packets demo_sender) qs"
    by (auto simp: demo_sender_def pvd_listener_new_def)
  then show ?thesis
    by (auto simp: demo_sender_def pvd_listener_new_def dest: list_all2_lengthD)
qed

end
