(* ===== verification/Dyn_Array.thy ===== *)
theory Dyn_Array
  imports Interfaces
begin

text \<open>
  \<open>base/dyn_array.c\<close>, the growable array every other container is built on, and
  \<open>base/dyn_queue.c\<close>, the plain queue over it.

  An element of \<open>element_size\<close> bytes is a value of type \<open>'a\<close>, and \<open>memcmp\<close> of two
  elements is equality. \<open>elements\<close> are the \<open>len\<close> elements stored, \<open>da_head\<close> is the C
  field \<open>head\<close>, and \<open>da_cap\<close> counts the elements the heap block behind the C field
  \<open>elements\<close> has room for (\<open>0\<close> for \<open>NULL\<close>): writing past it is a heap overflow, so
  \<open>da_safe\<close> is memory safety. A call of \<open>realloc\<close> that may fail is the boolean
  argument \<open>ok\<close>.
\<close>

record 'a dyn_array =
  elements :: "'a list"
  da_cap :: nat
  da_head :: nat
  element_size :: nat

abbreviation len :: "'a dyn_array \<Rightarrow> nat" where
  "len a \<equiv> length (elements a)"

definition dyn_array_create :: "nat \<Rightarrow> 'a dyn_array" where
  "dyn_array_create es =
     \<lparr>elements = [], da_cap = 0, da_head = 1, element_size = es\<rparr>"

definition dyn_array_end :: "'a dyn_array \<Rightarrow> 'a dyn_array" where
  "dyn_array_end a = a\<lparr>elements := [], da_cap := 0, da_head := 0, element_size := 0\<rparr>"

text \<open>The growth step shared by push and resize: double \<open>head\<close> elements, if memory allows.\<close>

definition da_grow :: "'a dyn_array \<Rightarrow> 'a dyn_array" where
  "da_grow a = a\<lparr>da_cap := da_head a * 2, da_head := da_head a * 2\<rparr>"

definition dyn_array_push :: "bool \<Rightarrow> 'a dyn_array \<Rightarrow> 'a \<Rightarrow> int \<times> 'a dyn_array" where
  "dyn_array_push ok a x =
     (if size_pred (da_head a) \<le> len a then
        if \<not> ok then (-1, a)
        else (0, (da_grow a)\<lparr>elements := elements a @ [x]\<rparr>)
      else (0, a\<lparr>elements := elements a @ [x]\<rparr>))"

definition dyn_array_resize :: "bool \<Rightarrow> 'a dyn_array \<Rightarrow> nat \<Rightarrow> int \<times> 'a dyn_array" where
  "dyn_array_resize ok a s =
     (if s = SIZE_MAX then (-1, a)
      else if size_pred (da_head a) \<le> s then
        if \<not> ok then (-1, a) else (0, da_grow a)
      else (0, a))"

definition dyn_array_from_c :: "bool \<Rightarrow> nat \<Rightarrow> 'a list \<Rightarrow> int \<times> 'a dyn_array option" where
  "dyn_array_from_c ok es xs =
     (case dyn_array_resize ok (dyn_array_create es) (length xs) of
        (r, a) \<Rightarrow> if r < 0 then (-1, None) else (0, Some (a\<lparr>elements := xs\<rparr>)))"

fun index_loop :: "'a list \<Rightarrow> 'a \<Rightarrow> nat \<Rightarrow> nat" where
  "index_loop [] x i = SIZE_MAX"
| "index_loop (y # ys) x i = (if x \<noteq> y then index_loop ys x (Suc i) else i)"

definition dyn_array_index :: "'a dyn_array \<Rightarrow> 'a \<Rightarrow> nat" where
  "dyn_array_index a x = index_loop (elements a) x 0"

definition dyn_array_remove :: "'a dyn_array \<Rightarrow> nat \<Rightarrow> int \<times> 'a dyn_array" where
  "dyn_array_remove a i =
     (if len a \<le> i then (-1, a)
      else (0, a\<lparr>elements := take i (elements a) @ drop (Suc i) (elements a)\<rparr>))"

fun count_loop :: "'a list \<Rightarrow> 'a \<Rightarrow> int \<Rightarrow> int" where
  "count_loop [] x c = c"
| "count_loop (y # ys) x c = count_loop ys x (if x = y then c + 1 else c)"

definition dyn_array_count :: "'a dyn_array \<Rightarrow> 'a \<Rightarrow> int" where
  "dyn_array_count a x = count_loop (elements a) x 0"

definition dyn_array_at :: "'a dyn_array \<Rightarrow> nat \<Rightarrow> 'a option" where
  "dyn_array_at a i = (if len a \<le> i then None else Some (elements a ! i))"

function setself_loop :: "'a dyn_array \<Rightarrow> nat \<Rightarrow> 'a dyn_array" where
  "setself_loop a i =
     (case dyn_array_at a i of
        None \<Rightarrow> a
      | Some x \<Rightarrow>
          if 1 < dyn_array_count a x then setself_loop (snd (dyn_array_remove a i)) i
          else setself_loop a (Suc i))"
  by pat_completeness auto
termination
  by (relation "measure (\<lambda>(a, i). len a - i)")
    (auto simp: dyn_array_at_def dyn_array_remove_def split: if_splits)

definition dyn_array_setself :: "'a dyn_array \<Rightarrow> 'a dyn_array" where
  "dyn_array_setself a = setself_loop a 0"

definition dyn_array_insert :: "bool \<Rightarrow> 'a dyn_array \<Rightarrow> nat \<Rightarrow> 'a \<Rightarrow> int \<times> 'a dyn_array" where
  "dyn_array_insert ok a i x =
     (if len a < i then (-1, a)
      else if size_pred (da_head a) \<le> len a \<and> \<not> ok then (-1, a)
      else
        let new_capacity = (if da_head a = 0 then 2 else da_head a * 2);
            a' = (if size_pred (da_head a) \<le> len a
                  then a\<lparr>da_cap := new_capacity, da_head := new_capacity\<rparr> else a)
        in (0, a'\<lparr>elements := take i (elements a) @ x # drop i (elements a)\<rparr>))"

text \<open>\<open>qsort\<close> is the C library's: it is the argument \<open>qs\<close>, given the comparison.\<close>

definition dyn_array_sort ::
  "(('a \<Rightarrow> 'a \<Rightarrow> int) \<Rightarrow> 'a list \<Rightarrow> 'a list) \<Rightarrow> 'a dyn_array \<Rightarrow> ('a \<Rightarrow> 'a \<Rightarrow> int) \<Rightarrow> 'a dyn_array"
  where
  "dyn_array_sort qs a cmp =
     (if len a \<le> 1 then a else a\<lparr>elements := qs cmp (elements a)\<rparr>)"

record 'a dyn_queue =
  dq_arr :: "'a dyn_array"

definition dyn_queue_create :: "nat \<Rightarrow> 'a dyn_queue" where
  "dyn_queue_create es = \<lparr>dq_arr = dyn_array_create es\<rparr>"

definition dyn_queue_push :: "bool \<Rightarrow> 'a dyn_queue \<Rightarrow> 'a \<Rightarrow> int \<times> 'a dyn_queue" where
  "dyn_queue_push ok q x =
     (let (r, a) = dyn_array_push ok (dq_arr q) x in (r, q\<lparr>dq_arr := a\<rparr>))"

text \<open>\<open>dyn_queue_pop\<close> copies the front element out (\<open>None\<close> when it returns \<open>-1\<close>).\<close>

definition dyn_queue_pop :: "'a dyn_queue \<Rightarrow> 'a option \<times> 'a dyn_queue" where
  "dyn_queue_pop q =
     (if len (dq_arr q) = 0 then (None, q)
      else (Some (hd (elements (dq_arr q))),
            q\<lparr>dq_arr := snd (dyn_array_remove (dq_arr q) 0)\<rparr>))"

definition dyn_queue_peek :: "'a dyn_queue \<Rightarrow> 'a option" where
  "dyn_queue_peek q = dyn_array_at (dq_arr q) 0"

definition dyn_queue_end :: "'a dyn_queue \<Rightarrow> 'a dyn_queue" where
  "dyn_queue_end q = q\<lparr>dq_arr := dyn_array_end (dq_arr q)\<rparr>"

subsection \<open>Memory safety\<close>

text \<open>
  \<open>da_safe\<close>: no more elements than the block holds. \<open>da_wf\<close> is the invariant that
  creation establishes and every operation keeps; it keeps \<open>len < head\<close>, so that the
  next write still fits.
\<close>

definition da_safe :: "'a dyn_array \<Rightarrow> bool" where
  "da_safe a \<longleftrightarrow> len a \<le> da_cap a"

definition da_wf :: "'a dyn_array \<Rightarrow> bool" where
  "da_wf a \<longleftrightarrow> len a < da_head a \<and>
     (da_cap a = da_head a \<or> da_head a = 1 \<and> da_cap a = 0)"

lemma da_wf_safe: "da_wf a \<Longrightarrow> da_safe a"
  by (auto simp: da_wf_def da_safe_def)

lemma da_wf_create [simp]: "da_wf (dyn_array_create es)"
  by (simp add: da_wf_def dyn_array_create_def)

lemma da_wf_push: "da_wf a \<Longrightarrow> da_wf (snd (dyn_array_push ok a x))"
  by (auto simp: da_wf_def dyn_array_push_def da_grow_def size_pred_def)

lemma da_wf_remove: "da_wf a \<Longrightarrow> da_wf (snd (dyn_array_remove a i))"
  by (auto simp: da_wf_def dyn_array_remove_def)

lemma da_wf_insert: "da_wf a \<Longrightarrow> da_wf (snd (dyn_array_insert ok a i x))"
  by (auto simp: da_wf_def dyn_array_insert_def size_pred_def Let_def)

lemma da_wf_resize: "da_wf a \<Longrightarrow> da_wf (snd (dyn_array_resize ok a s))"
  by (auto simp: da_wf_def dyn_array_resize_def da_grow_def)

lemma da_wf_setself_loop: "da_wf a \<Longrightarrow> da_wf (setself_loop a i)"
proof (induction a i rule: setself_loop.induct)
  case (1 a i)
  then show ?case
    by (subst setself_loop.simps)
      (auto simp: da_wf_remove split: option.splits)
qed

subsection \<open>Functional behaviour\<close>

lemma elements_create [simp]: "elements (dyn_array_create es) = []"
  by (simp add: dyn_array_create_def)

lemma dyn_array_push_ok:
  "fst (dyn_array_push True a x) = 0"
  "elements (snd (dyn_array_push True a x)) = elements a @ [x]"
  by (simp_all add: dyn_array_push_def da_grow_def)

lemma elements_remove:
  "i < len a \<Longrightarrow> elements (snd (dyn_array_remove a i)) = take i (elements a) @ drop (Suc i) (elements a)"
  by (simp add: dyn_array_remove_def)

lemma elements_insert:
  "i \<le> len a \<Longrightarrow> elements (snd (dyn_array_insert True a i x)) = take i (elements a) @ x # drop i (elements a)"
  by (simp add: dyn_array_insert_def Let_def)

lemma count_loop_eq: "count_loop xs x c = c + int (count_list xs x)"
  by (induction xs arbitrary: c) auto

lemma dyn_array_count_eq: "dyn_array_count a x = int (count_list (elements a) x)"
  by (simp add: dyn_array_count_def count_loop_eq)

lemma index_loop_notin: "x \<notin> set xs \<Longrightarrow> index_loop xs x i = SIZE_MAX"
  by (induction xs arbitrary: i) auto

lemma index_loop_in:
  "x \<in> set xs \<Longrightarrow> \<exists>j < length xs. index_loop xs x i = i + j \<and> xs ! j = x \<and> x \<notin> set (take j xs)"
proof (induction xs arbitrary: i)
  case Nil
  then show ?case by simp
next
  case (Cons y ys)
  show ?case
  proof (cases "x = y")
    case True
    then show ?thesis by (intro exI [of _ 0]) simp
  next
    case False
    with Cons obtain j where "j < length ys" "index_loop ys x (Suc i) = Suc i + j"
      "ys ! j = x" "x \<notin> set (take j ys)" by fastforce
    with False show ?thesis by (intro exI [of _ "Suc j"]) simp
  qed
qed

lemma setself_loop_remdups:
  assumes "i \<le> len a" and "\<forall>x \<in> set (take i (elements a)). count_list (elements a) x = 1"
  shows "elements (setself_loop a i) =
     take i (elements a) @ remdups (drop i (elements a))"
  using assms
proof (induction a i rule: setself_loop.induct)
  case (1 a i)
  let ?xs = "elements a"
  show ?case
  proof (cases "i < len a")
    case False
    with "1.prems" show ?thesis
      by (subst setself_loop.simps) (simp add: dyn_array_at_def)
  next
    case True
    define x where "x = ?xs ! i"
    have split: "?xs = take i ?xs @ x # drop (Suc i) ?xs"
      using True by (simp add: x_def id_take_nth_drop [symmetric])
    have cnt: "count_list ?xs y = count_list (take i ?xs) y + count_list (x # drop (Suc i) ?xs) y" for y
      by (subst split) (simp only: count_list_append)
    have at: "dyn_array_at a i = Some x"
      using True by (simp add: dyn_array_at_def x_def)
    have drop_i: "drop i ?xs = x # drop (Suc i) ?xs"
      using True by (simp add: x_def Cons_nth_drop_Suc)
    show ?thesis
    proof (cases "1 < dyn_array_count a x")
      case dup: True
      let ?b = "snd (dyn_array_remove a i)"
      have el: "elements ?b = take i ?xs @ drop (Suc i) ?xs"
        using True by (rule elements_remove)
      have x_out: "x \<notin> set (take i ?xs)"
        using "1.prems"(2) dup by (auto simp: dyn_array_count_eq)
      then have "0 < count_list (drop (Suc i) ?xs) x"
        using dup cnt [of x] by (simp add: dyn_array_count_eq)
      then have x_rest: "x \<in> set (drop (Suc i) ?xs)"
        by (metis count_notin less_irrefl)
      have "\<forall>y \<in> set (take i (elements ?b)). count_list (elements ?b) y = 1"
        using "1.prems" cnt x_out True by (auto simp: el split: if_splits)
      then have "elements (setself_loop ?b i) = take i (elements ?b) @ remdups (drop i (elements ?b))"
        using "1.IH"(1) [OF at dup] True by (simp add: el)
      then show ?thesis
        using at dup x_rest True by (subst setself_loop.simps) (simp add: el drop_i)
    next
      case uniq: False
      have c1: "count_list ?xs x = 1"
        using uniq cnt [of x] by (simp add: dyn_array_count_eq)
      then have x_rest: "x \<notin> set (drop (Suc i) ?xs)"
        using cnt [of x] by (auto simp: count_list_0_iff)
      have "take (Suc i) ?xs = take i ?xs @ [x]"
        using True by (simp add: x_def take_Suc_conv_app_nth)
      then have "\<forall>y \<in> set (take (Suc i) ?xs). count_list ?xs y = 1"
        using "1.prems"(2) c1 by auto
      then have "elements (setself_loop a (Suc i)) = take (Suc i) ?xs @ remdups (drop (Suc i) ?xs)"
        using "1.IH"(2) [OF at uniq] True by simp
      then show ?thesis
        using at uniq x_rest True \<open>take (Suc i) ?xs = take i ?xs @ [x]\<close>
        by (subst setself_loop.simps) (simp add: drop_i)
    qed
  qed
qed

lemma elements_setself: "elements (dyn_array_setself a) = remdups (elements a)"
  using setself_loop_remdups [of 0 a] by (simp add: dyn_array_setself_def)

interpretation dq: fifo "\<lambda>q. elements (dq_arr q)" "\<lambda>q. da_wf (dq_arr q)"
  "\<lambda>q x. snd (dyn_queue_push True q x)" dyn_queue_pop
proof unfold_locales
  fix q :: "'a dyn_queue" and x xs
  assume wf: "da_wf (dq_arr q)" and front: "elements (dq_arr q) = x # xs"
  then show "\<exists>q'. dyn_queue_pop q = (Some x, q') \<and> da_wf (dq_arr q') \<and> elements (dq_arr q') = xs"
    by (auto simp: dyn_queue_pop_def dyn_array_remove_def da_wf_def)
qed (auto simp: dyn_queue_push_def dyn_queue_pop_def dyn_array_push_ok da_wf_push split_beta)

subsection \<open>Properties\<close>

datatype 'a da_op = DaPush bool 'a | DaInsert bool nat 'a | DaRemove nat | DaResize bool nat | DaSetself

fun da_apply :: "'a dyn_array \<Rightarrow> 'a da_op \<Rightarrow> 'a dyn_array" where
  "da_apply a (DaPush ok x) = snd (dyn_array_push ok a x)"
| "da_apply a (DaInsert ok i x) = snd (dyn_array_insert ok a i x)"
| "da_apply a (DaRemove i) = snd (dyn_array_remove a i)"
| "da_apply a (DaResize ok n) = snd (dyn_array_resize ok a n)"
| "da_apply a DaSetself = dyn_array_setself a"

lemma da_wf_apply: "da_wf a \<Longrightarrow> da_wf (da_apply a p)"
  by (cases p)
    (simp_all add: da_wf_push da_wf_insert da_wf_remove da_wf_resize da_wf_setself_loop dyn_array_setself_def
        del: setself_loop.simps)

text \<open>
  Memory safety of the array: no sequence of operations, whatever allocations fail in
  it, makes an array created empty hold more elements than its block has room for.
\<close>

theorem dyn_array_run_safe: "da_safe (foldl da_apply (dyn_array_create es) ops)"
proof -
  have "da_wf a \<Longrightarrow> da_wf (foldl da_apply a ops)" for a :: "'a dyn_array"
    by (induction ops arbitrary: a) (simp_all add: da_wf_apply)
  then show ?thesis by (intro da_wf_safe) simp
qed

text \<open>
  \<open>dyn_array_from_c\<close> asks \<open>dyn_array_resize\<close> for room, which doubles the capacity once
  and not up to the size asked for: a list of more than two elements is copied past the end
  of the block.
\<close>

theorem dyn_array_from_c_overflow:
  assumes "2 < length xs" and "length xs \<noteq> SIZE_MAX"
  shows "\<exists>a. dyn_array_from_c True es xs = (0, Some a) \<and> \<not> da_safe a"
  using assms
  by (simp add: dyn_array_from_c_def dyn_array_resize_def dyn_array_create_def size_pred_def
      da_grow_def da_safe_def)

theorem dyn_array_from_c_overflow_witness:
  "\<exists>a. dyn_array_from_c True 1 [1, 2, 3 :: nat] = (0, Some a) \<and> \<not> da_safe a"
  by (rule dyn_array_from_c_overflow) (simp_all add: SIZE_MAX_def)

text \<open>
  \<open>dyn_array_setself\<close> makes the array a set: it keeps the last occurrence of each
  element, in order.
\<close>

theorem dyn_array_setself_remdups: "elements (dyn_array_setself a) = remdups (elements a)"
  by (rule elements_setself)

end
