(* ===== verification/Rudp_Conn.thy ===== *)
theory Rudp_Conn
  imports Providers Dyn_Array
begin

text \<open>
  \<open>rudp/src/packets.c\<close> and \<open>connection.c\<close>: one end of a reliable UDP connection, with its
  send window, retransmission and reordering of received packets.

  The queues \<open>pkts_net\<close> and \<open>pkts_reordered\<close> are the lists of their contents; the pending
  and the reorder arrays are \<open>dyn_array\<close>s. A packet pointer is the packet it owns. The
  sender a connection points to is shared with all others, so it is passed along, and the
  clock readings are arguments. Memory is assumed available in this and the higher layers.
\<close>

definition RUDP_RETRANSMISSION_CAP :: nat where
  "RUDP_RETRANSMISSION_CAP = 10"

definition RUDP_REORDER_WINDOW :: int where
  "RUDP_REORDER_WINDOW = 128"

definition RUDP_SEND_WINDOW :: nat where
  "RUDP_SEND_WINDOW = 128"

definition EAGAIN :: int where
  "EAGAIN = 11"

definition ENOTCONN :: int where
  "ENOTCONN = 107"

definition INT64_MAX :: int where
  "INT64_MAX = 2 ^ 63 - 1"

datatype rudp_pkt_state =
  RUDP_STATE_INITED | RUDP_STATE_SENT | RUDP_STATE_ACKED | RUDP_STATE_LOST

record rudp_pending_pkt =
  pp_seq :: u32
  pp_timestamp :: int
  copy_pack :: "protopack option"
  pp_state :: rudp_pkt_state
  retransmit_count :: nat
  send_timestamp :: int

definition rudp_pkt_make ::
  "rudp_pending_pkt \<Rightarrow> protopack option \<Rightarrow> rudp_pkt_state \<Rightarrow> u32 \<Rightarrow> int \<Rightarrow> int \<times> rudp_pending_pkt" where
  "rudp_pkt_make out pack state sq now =
     (if pack = None then (-1, out)
      else (0, out\<lparr>retransmit_count := 0, copy_pack := pack, pp_state := state,
                   pp_seq := sq, pp_timestamp := now\<rparr>))"

record 'fd rudp_connection =
  s_uid :: u32
  c_uid :: u32
  nfd :: 'fd
  ev_host :: mt_eventsock
  ev_net :: mt_eventsock
  ev_reordered :: mt_eventsock
  pkts_reorder_buf :: "protopack dyn_array"
  pkts_fhost :: "rudp_pending_pkt dyn_array"
  pkts_net :: "protopack list"
  pkts_reordered :: "protopack list"
  current_seq :: u32
  last_sended_ack :: u32
  last_recved_ack :: u32
  last_recved_seq :: u32
  last_ack_sent_seq :: u32
  packets_since_ack :: u32
  last_ack_timestamp :: int
  ack_threshold :: u32
  ack_timeout_ms :: int
  avg_rtt_ms :: int
  oldest_timestamp :: int
  closed :: bool

definition rudp_conn_new :: "u32 \<Rightarrow> u32 \<Rightarrow> 'fd \<Rightarrow> int \<Rightarrow> 'fd rudp_connection" where
  "rudp_conn_new self_uid conn_uid fd now =
     \<lparr>s_uid = self_uid, c_uid = conn_uid, nfd = fd,
      ev_host = snd mt_evsock_new, ev_net = snd mt_evsock_new, ev_reordered = snd mt_evsock_new,
      pkts_reorder_buf = dyn_array_create 8, pkts_fhost = dyn_array_create 40,
      pkts_net = [], pkts_reordered = [],
      current_seq = 0, last_sended_ack = UINT32_MAX, last_recved_ack = UINT32_MAX,
      last_recved_seq = UINT32_MAX, last_ack_sent_seq = UINT32_MAX,
      packets_since_ack = 0, last_ack_timestamp = now,
      ack_threshold = 2, ack_timeout_ms = 2000, avg_rtt_ms = 250,
      oldest_timestamp = INT64_MAX, closed = False\<rparr>"

text \<open>\<open>rudp_conn_close\<close> empties the containers, frees the arrays and sends \<open>FIN\<close> twice.\<close>

definition rudp_conn_close ::
  "'fd rudp_connection \<Rightarrow> 'fd pvd_sender \<Rightarrow> fault + 'fd rudp_connection \<times> 'fd pvd_sender" where
  "rudp_conn_close conn snder =
     (let c = conn\<lparr>pkts_net := [], pkts_reordered := [],
                   pkts_reorder_buf := dyn_array_end (pkts_reorder_buf conn),
                   pkts_fhost := dyn_array_end (pkts_fhost conn),
                   ev_host := mt_evsock_close (ev_host conn),
                   ev_net := mt_evsock_close (ev_net conn)\<rparr>;
          fin_pkt = proto_msg_quick (s_uid conn) (c_uid conn) (current_seq conn) PACK_FIN
      in bind_fault (pvd_sender_send snder fin_pkt (nfd conn)) (\<lambda>(_, s1).
         bind_fault (pvd_sender_send s1 fin_pkt (nfd conn)) (\<lambda>(_, s2).
           Inr (c\<lparr>closed := True\<rparr>, s2))))"

subsection \<open>Interface\<close>

text \<open>\<open>t1\<close> and \<open>t2\<close> are the two clock readings of \<open>rudp_conn_send\<close>.\<close>

definition rudp_conn_send ::
  "'fd rudp_connection \<Rightarrow> 'fd pvd_sender \<Rightarrow> protopack \<Rightarrow> int \<Rightarrow> int \<Rightarrow>
   fault + int \<times> 'fd rudp_connection \<times> 'fd pvd_sender" where
  "rudp_conn_send conn snder pkt t1 t2 =
     (if closed conn then Inr (ENOTCONN, conn, snder)
      else if RUDP_SEND_WINDOW \<le> len (pkts_fhost conn) then Inr (EAGAIN, conn, snder)
      else
        bind_fault (udp_copy_pack pkt) (\<lambda>copy.
        let pack_copy = copy\<lparr>seq := current_seq conn\<rparr>;
            (r, pending) = rudp_pkt_make
              \<lparr>pp_seq = 0, pp_timestamp = 0, copy_pack = None, pp_state = RUDP_STATE_INITED,
               retransmit_count = 0, send_timestamp = 0\<rparr>
              (Some pack_copy) RUDP_STATE_INITED (current_seq conn) t1
        in if r < 0 then Inr (-1, conn, snder)
           else
             bind_fault (pvd_sender_send snder (Some pack_copy) (nfd conn)) (\<lambda>(_, snder').
             let pending = pending\<lparr>pp_state := RUDP_STATE_SENT, send_timestamp := t2\<rparr>;
                 (r, arr) = dyn_array_push True (pkts_fhost conn) pending
             in if r < 0 then Inr (-1, conn, snder')
                else Inr (0, conn\<lparr>pkts_fhost := arr, current_seq := current_seq conn + 1\<rparr>, snder'))))"

definition rudp_conn_recv ::
  "'fd rudp_connection \<Rightarrow> int \<times> protopack option \<times> 'fd rudp_connection" where
  "rudp_conn_recv conn =
     (if closed conn then (ENOTCONN, None, conn)
      else case pkts_reordered conn of
             [] \<Rightarrow> (-1, None, conn)
           | p # ps \<Rightarrow> (0, Some p, conn\<lparr>pkts_reordered := ps\<rparr>))"

definition rudp_conn_wait :: "'fd rudp_connection \<Rightarrow> int \<times> 'fd rudp_connection" where
  "rudp_conn_wait conn =
     (if closed conn then (-1, conn)
      else let (r, e) = mt_evsock_wait (ev_reordered conn) in
           (r, conn\<lparr>ev_reordered := if 0 < r then mt_evsock_drain e else e\<rparr>))"

definition rudp_conn_inflight :: "'fd rudp_connection \<Rightarrow> nat" where
  "rudp_conn_inflight conn = (if closed conn then SIZE_MAX else len (pkts_fhost conn))"

subsection \<open>Private functions\<close>

definition rudp_conn_pass_net ::
  "'fd rudp_connection \<Rightarrow> protopack option \<Rightarrow> int \<times> 'fd rudp_connection" where
  "rudp_conn_pass_net conn pkt =
     (case pkt of
        None \<Rightarrow> (-1, conn)
      | Some p \<Rightarrow> (0, conn\<lparr>pkts_net := pkts_net conn @ [p], ev_net := mt_evsock_notify (ev_net conn)\<rparr>))"

definition rudp_conn_wait_net :: "'fd rudp_connection \<Rightarrow> int \<times> 'fd rudp_connection" where
  "rudp_conn_wait_net conn =
     (let (r, e) = mt_evsock_wait (ev_net conn) in
      (r, conn\<lparr>ev_net := if 0 < r then mt_evsock_drain e else e\<rparr>))"

definition rudp_conn_wait_host :: "'fd rudp_connection \<Rightarrow> int \<times> 'fd rudp_connection" where
  "rudp_conn_wait_host conn =
     (let (r, e) = mt_evsock_wait (ev_host conn) in
      (r, conn\<lparr>ev_host := if 0 < r then mt_evsock_drain e else e\<rparr>))"

definition expected_seq :: "'fd rudp_connection \<Rightarrow> u32" where
  "expected_seq conn = (if last_recved_seq conn = UINT32_MAX then 0 else last_recved_seq conn + 1)"

text \<open>The search for the place of \<open>s\<close> in the reorder buffer: position and \<open>duplicate\<close>.\<close>

fun reorder_pos :: "protopack list \<Rightarrow> u32 \<Rightarrow> nat \<Rightarrow> nat \<times> bool" where
  "reorder_pos [] s pos = (pos, False)"
| "reorder_pos (e # es) s pos =
     (if seq e = s then (pos, True)
      else if s < seq e then (pos, False)
      else reorder_pos es s (pos + 1))"

definition reorder_one :: "'fd rudp_connection \<Rightarrow> protopack \<Rightarrow> 'fd rudp_connection" where
  "reorder_one conn pkt =
     (let diff = sint (seq pkt - expected_seq conn) in
      if diff < 0 \<or> RUDP_REORDER_WINDOW < diff then conn
      else
        let (pos, duplicate) = reorder_pos (elements (pkts_reorder_buf conn)) (seq pkt) 0 in
        if duplicate then conn
        else conn\<lparr>pkts_reorder_buf := snd (dyn_array_insert True (pkts_reorder_buf conn) pos pkt)\<rparr>)"

function deliver_loop :: "'fd rudp_connection \<Rightarrow> 'fd rudp_connection" where
  "deliver_loop conn =
     (case dyn_array_at (pkts_reorder_buf conn) 0 of
        None \<Rightarrow> conn
      | Some p \<Rightarrow>
          if seq p = expected_seq conn then
            deliver_loop
              (conn\<lparr>last_recved_seq := seq p,
                    pkts_reorder_buf := snd (dyn_array_remove (pkts_reorder_buf conn) 0),
                    pkts_reordered := pkts_reordered conn @ [p],
                    ev_reordered := mt_evsock_notify (ev_reordered conn)\<rparr>)
          else conn)"
  by pat_completeness auto
termination
  by (relation "measure (\<lambda>c. len (pkts_reorder_buf c))")
    (auto simp: dyn_array_at_def dyn_array_remove_def split: if_splits)

declare deliver_loop.simps [simp del]

definition rudp_conn_reordering :: "'fd rudp_connection \<Rightarrow> int \<times> 'fd rudp_connection" where
  "rudp_conn_reordering conn =
     (let conn = foldl reorder_one (conn\<lparr>pkts_net := []\<rparr>) (pkts_net conn)
      in (0, deliver_loop conn))"

text \<open>\<open>avg * (1.5 + n)\<close> truncated to an integer.\<close>

definition backoff_ms :: "int \<Rightarrow> nat \<Rightarrow> int" where
  "backoff_ms avg n = avg * (3 + 2 * int n) div 2"

function timeouts_loop ::
  "'fd rudp_connection \<Rightarrow> 'fd pvd_sender \<Rightarrow> int \<Rightarrow> nat \<Rightarrow>
   fault + int \<times> 'fd rudp_connection \<times> 'fd pvd_sender" where
  "timeouts_loop conn snder now_ms i =
     (case dyn_array_at (pkts_fhost conn) i of
        None \<Rightarrow> Inr (0, conn, snder)
      | Some pkt \<Rightarrow>
          if copy_pack pkt = None then
            timeouts_loop (conn\<lparr>pkts_fhost := snd (dyn_array_remove (pkts_fhost conn) i)\<rparr>) snder now_ms i
          else if RUDP_RETRANSMISSION_CAP \<le> retransmit_count pkt then
            let n = len (pkts_fhost conn);
                arr = (pkts_fhost conn)\<lparr>elements :=
                        (elements (pkts_fhost conn))[i := elements (pkts_fhost conn) ! (n - 1)]\<rparr>
            in Inr (-1, conn\<lparr>pkts_fhost := snd (dyn_array_remove arr (n - 1)), closed := True\<rparr>, snder)
          else if backoff_ms (avg_rtt_ms conn) (retransmit_count pkt) \<le> now_ms - pp_timestamp pkt then
            bind_fault (pvd_sender_send snder (copy_pack pkt) (nfd conn)) (\<lambda>(_, snder').
              timeouts_loop
                (conn\<lparr>pkts_fhost := (pkts_fhost conn)\<lparr>elements :=
                   (elements (pkts_fhost conn))
                     [i := pkt\<lparr>pp_timestamp := now_ms, retransmit_count := retransmit_count pkt + 1\<rparr>]\<rparr>\<rparr>)
                snder' now_ms (i + 1))
          else timeouts_loop conn snder now_ms (i + 1))"
  by pat_completeness auto
termination
  by (relation "measure (\<lambda>(conn, snder, now, i). len (pkts_fhost conn) - i)")
    (auto simp: dyn_array_at_def dyn_array_remove_def split: if_splits)

declare timeouts_loop.simps [simp del]

definition rudp_conn_timeouts ::
  "'fd rudp_connection \<Rightarrow> 'fd pvd_sender \<Rightarrow> int \<Rightarrow> fault + int \<times> 'fd rudp_connection \<times> 'fd pvd_sender" where
  "rudp_conn_timeouts conn snder now_ms =
     (if len (pkts_fhost conn) = 0 then Inr (0, conn, snder)
      else timeouts_loop conn snder now_ms 0)"

subsection \<open>Reordering\<close>

text \<open>
  The reorder buffer is strictly sorted by sequence number. \<open>expected_seq\<close> is the successor
  of the last received number in every case, the initial value \<open>UINT32_MAX\<close> included.
\<close>

abbreviation buf :: "'fd rudp_connection \<Rightarrow> protopack list" where
  "buf c \<equiv> elements (pkts_reorder_buf c)"

abbreviation pending :: "'fd rudp_connection \<Rightarrow> rudp_pending_pkt list" where
  "pending c \<equiv> elements (pkts_fhost c)"

definition rx_sorted :: "'fd rudp_connection \<Rightarrow> bool" where
  "rx_sorted c \<longleftrightarrow> sorted_wrt (<) (map seq (buf c)) \<and> da_wf (pkts_reorder_buf c)"

definition in_window :: "u32 \<Rightarrow> u32 \<Rightarrow> bool" where
  "in_window e s \<longleftrightarrow> 0 \<le> sint (s - e) \<and> sint (s - e) \<le> RUDP_REORDER_WINDOW"

lemma expected_seq_eq: "expected_seq c = last_recved_seq c + 1"
  by (simp add: expected_seq_def UINT32_MAX_def)

lemma reorder_pos_range:
  "reorder_pos es s n = (pos, dup) \<Longrightarrow> n \<le> pos \<and> pos \<le> n + length es"
  by (induction es s n rule: reorder_pos.induct) (auto split: if_splits)

lemma reorder_pos_sorted:
  assumes "sorted_wrt (<) (map seq es)" and "reorder_pos es s n = (pos, dup)"
  shows "(dup \<longleftrightarrow> s \<in> seq ` set es) \<and>
    (\<not> dup \<longrightarrow> (\<forall>e \<in> set (take (pos - n) es). seq e < s) \<and> (\<forall>e \<in> set (drop (pos - n) es). s < seq e))"
  using assms
proof (induction es s n rule: reorder_pos.induct)
  case (1 s pos)
  then show ?case by simp
next
  case (2 e es s n)
  show ?case
  proof (cases "seq e = s \<or> s < seq e")
    case True
    with "2.prems" show ?thesis by (fastforce split: if_splits)
  next
    case False
    then have lt: "seq e < s" by auto
    with "2.prems" have rec: "reorder_pos es s (n + 1) = (pos, dup)" "sorted_wrt (<) (map seq es)"
      by (simp_all split: if_splits)
    have "n + 1 \<le> pos" using reorder_pos_range [OF rec(1)] by simp
    then have m: "pos - n = Suc (pos - (n + 1))" by simp
    have ne: "seq e \<noteq> s" "\<not> s < seq e" using False by blast+
    have "s \<in> seq ` set (e # es) \<longleftrightarrow> s \<in> seq ` set es" using ne(1) by auto
    with "2.IH" [OF ne rec(2,1)] lt show ?thesis
      unfolding m take_Suc_Cons drop_Suc_Cons by simp
  qed
qed

lemma sorted_insert:
  assumes "sorted_wrt (<) (map seq es)" and "\<forall>e \<in> set (take n es). seq e < seq p"
    and "\<forall>e \<in> set (drop n es). seq p < seq e"
  shows "sorted_wrt (<) (map seq (take n es @ p # drop n es))"
proof -
  have "sorted_wrt (<) (map seq (take n es @ drop n es))"
    using assms(1) by simp
  with assms(2,3) show ?thesis
    unfolding map_append sorted_wrt_append by auto
qed

lemma frame_self:
  "\<exists>a. c = c\<lparr>pkts_reorder_buf := a\<rparr>"
  "\<exists>l a r e. c = c\<lparr>last_recved_seq := l, pkts_reorder_buf := a, pkts_reordered := r, ev_reordered := e\<rparr>"
proof -
  have "c = c\<lparr>pkts_reorder_buf := pkts_reorder_buf c\<rparr>"
    "c = c\<lparr>last_recved_seq := last_recved_seq c, pkts_reorder_buf := pkts_reorder_buf c,
            pkts_reordered := pkts_reordered c, ev_reordered := ev_reordered c\<rparr>"
    by simp_all
  then show "\<exists>a. c = c\<lparr>pkts_reorder_buf := a\<rparr>"
    and "\<exists>l a r e. c = c\<lparr>last_recved_seq := l, pkts_reorder_buf := a, pkts_reordered := r, ev_reordered := e\<rparr>"
    by blast+
qed

lemma reorder_one_buf:
  assumes "rx_sorted c"
  shows "rx_sorted (reorder_one c p)" and "set (buf (reorder_one c p)) \<subseteq> set (buf c) \<union> {q. q = p \<and> in_window (expected_seq c) (seq q)}"
    and "set (buf c) \<subseteq> set (buf (reorder_one c p))"
    and "in_window (expected_seq c) (seq p) \<Longrightarrow> seq p \<in> seq ` set (buf (reorder_one c p))"
    and "\<exists>a. reorder_one c p = c\<lparr>pkts_reorder_buf := a\<rparr>"
proof -
  obtain pos dup where pd: "reorder_pos (buf c) (seq p) 0 = (pos, dup)" by fastforce
  note s = reorder_pos_sorted [OF _ pd] and r = reorder_pos_range [OF pd]
  have el: "elements (snd (dyn_array_insert True (pkts_reorder_buf c) pos p)) = take pos (buf c) @ p # drop pos (buf c)"
    using r by (intro elements_insert) simp
  have "set (take pos (buf c)) \<union> set (drop pos (buf c)) = set (buf c)"
    by (metis append_take_drop_id set_append)
  then have set_el: "set (take pos (buf c) @ p # drop pos (buf c)) = insert p (set (buf c))"
    by auto
  have sorted: "sorted_wrt (<) (map seq (buf c))" "da_wf (pkts_reorder_buf c)"
    using assms by (simp_all add: rx_sorted_def)
  show "rx_sorted (reorder_one c p)"
    using assms s [OF sorted(1)] sorted_insert [OF sorted(1), of pos p] da_wf_insert [OF sorted(2)]
    by (auto simp: reorder_one_def pd rx_sorted_def el Let_def)
  show "set (buf (reorder_one c p)) \<subseteq> set (buf c) \<union> {q. q = p \<and> in_window (expected_seq c) (seq q)}"
    "set (buf c) \<subseteq> set (buf (reorder_one c p))"
    using set_el by (auto simp: reorder_one_def pd el Let_def in_window_def)
  show "\<exists>a. reorder_one c p = c\<lparr>pkts_reorder_buf := a\<rparr>"
    using frame_self(1) [of c] by (simp add: reorder_one_def pd Let_def) blast
  show "in_window (expected_seq c) (seq p) \<Longrightarrow> seq p \<in> seq ` set (buf (reorder_one c p))"
    using s [OF sorted(1)] by (auto simp: reorder_one_def pd el Let_def in_window_def)
qed

lemma reorder_fold_buf:
  assumes "rx_sorted c"
  shows "rx_sorted (foldl reorder_one c ps) \<and>
    set (buf (foldl reorder_one c ps)) \<subseteq> {p \<in> set ps. in_window (expected_seq c) (seq p)} \<union> set (buf c) \<and>
    set (buf c) \<subseteq> set (buf (foldl reorder_one c ps)) \<and>
    (\<forall>p \<in> set ps. in_window (expected_seq c) (seq p)
       \<longrightarrow> seq p \<in> seq ` set (buf (foldl reorder_one c ps))) \<and>
    (\<exists>a. foldl reorder_one c ps = c\<lparr>pkts_reorder_buf := a\<rparr>)"
  using assms
proof (induction ps arbitrary: c)
  case Nil
  then show ?case using frame_self(1) [of c] by simp
next
  case (Cons p ps)
  note one = reorder_one_buf [OF Cons.prems, of p]
  obtain a where a: "reorder_one c p = c\<lparr>pkts_reorder_buf := a\<rparr>" using one(5) by blast
  have e: "expected_seq (reorder_one c p) = expected_seq c"
    by (simp add: a expected_seq_def)
  note IH = Cons.IH [OF one(1), unfolded e]
  let ?f = "foldl reorder_one (reorder_one c p) ps"
  obtain a' where "?f = (reorder_one c p)\<lparr>pkts_reorder_buf := a'\<rparr>"
    using IH by blast
  then have "foldl reorder_one c (p # ps) = c\<lparr>pkts_reorder_buf := a'\<rparr>"
    by (simp add: a)
  then have frame: "\<exists>a. foldl reorder_one c (p # ps) = c\<lparr>pkts_reorder_buf := a\<rparr>"
    by blast
  have up: "set (buf (reorder_one c p)) \<subseteq> set (buf ?f)" using IH by blast
  have "seq p \<in> seq ` set (buf ?f)" if "in_window (expected_seq c) (seq p)"
    using one(4) [OF that] image_mono [OF up, of seq] by (rule rev_subsetD)
  then show ?case
    using IH one(2,3) up frame by (simp only: foldl_Cons list.set ball_simps) blast
qed

lemma deliver_loop_frame:
  "\<exists>l a r e. deliver_loop c = c\<lparr>last_recved_seq := l, pkts_reorder_buf := a, pkts_reordered := r, ev_reordered := e\<rparr>"
proof (induction c rule: deliver_loop.induct)
  case (1 c)
  show ?case
  proof (cases "dyn_array_at (pkts_reorder_buf c) 0")
    case None
    then show ?thesis using frame_self(2) [of c] by (simp add: deliver_loop.simps [of c])
  next
    case (Some p)
    show ?thesis
    proof (cases "seq p = expected_seq c")
      case True
      with Some "1.IH" [OF Some True] show ?thesis
        by (simp add: deliver_loop.simps [of c])
    next
      case False
      with Some show ?thesis using frame_self(2) [of c] by (simp add: deliver_loop.simps [of c])
    qed
  qed
qed

lemma deliver_loop_spec:
  "\<exists>k \<le> length (buf c). buf (deliver_loop c) = drop k (buf c) \<and>
     pkts_reordered (deliver_loop c) = pkts_reordered c @ take k (buf c) \<and>
     map seq (take k (buf c)) = map (\<lambda>i. expected_seq c + of_nat i) [0..<k] \<and>
     expected_seq (deliver_loop c) = expected_seq c + of_nat k \<and>
     (buf (deliver_loop c) = [] \<or> seq (hd (buf (deliver_loop c))) \<noteq> expected_seq (deliver_loop c)) \<and>
     (da_wf (pkts_reorder_buf c) \<longrightarrow> da_wf (pkts_reorder_buf (deliver_loop c)))"
proof (induction c rule: deliver_loop.induct)
  case (1 c)
  show ?case
  proof (cases "buf c")
    case Nil
    then have "dyn_array_at (pkts_reorder_buf c) 0 = None" by (simp add: dyn_array_at_def)
    then show ?thesis using Nil by (simp add: deliver_loop.simps)
  next
    case (Cons p ps)
    then have at: "dyn_array_at (pkts_reorder_buf c) 0 = Some p" by (simp add: dyn_array_at_def)
    show ?thesis
    proof (cases "seq p = expected_seq c")
      case False
      with at Cons show ?thesis by (simp add: deliver_loop.simps)
    next
      case True
      let ?c = "c\<lparr>last_recved_seq := seq p,
                    pkts_reorder_buf := snd (dyn_array_remove (pkts_reorder_buf c) 0),
                    pkts_reordered := pkts_reordered c @ [p],
                    ev_reordered := mt_evsock_notify (ev_reordered c)\<rparr>"
      have b: "buf ?c = ps" using Cons by (simp add: dyn_array_remove_def)
      have e: "expected_seq ?c = expected_seq c + 1" using True by (simp add: expected_seq_eq)
      have d: "deliver_loop c = deliver_loop ?c"
        using at True by (simp add: deliver_loop.simps [of c])
      obtain k where k: "k \<le> length ps" "buf (deliver_loop ?c) = drop k ps"
        "pkts_reordered (deliver_loop ?c) = pkts_reordered c @ p # take k ps"
        "map seq (take k ps) = map (\<lambda>i. expected_seq c + 1 + of_nat i) [0..<k]"
        "expected_seq (deliver_loop ?c) = expected_seq c + 1 + of_nat k"
        "buf (deliver_loop ?c) = [] \<or> seq (hd (buf (deliver_loop ?c))) \<noteq> expected_seq (deliver_loop ?c)"
        "da_wf (pkts_reorder_buf ?c) \<longrightarrow> da_wf (pkts_reorder_buf (deliver_loop ?c))"
        using "1.IH" [OF at True] unfolding b e by auto
      have "map seq (take (Suc k) (buf c)) = map (\<lambda>i. expected_seq c + of_nat i) [0..<Suc k]"
        using True k(4) Cons by (simp add: upt_conv_Cons map_Suc_upt [symmetric] add.assoc del: upt_Suc)
      moreover have "da_wf (pkts_reorder_buf c) \<longrightarrow> da_wf (pkts_reorder_buf (deliver_loop c))"
        using k(7) da_wf_remove [of "pkts_reorder_buf c" 0] by (simp add: d)
      ultimately show ?thesis
        using k Cons unfolding d by (intro exI [of _ "Suc k"]) (simp add: add.assoc)
    qed
  qed
qed

lemma reordering_eq:
  "snd (rudp_conn_reordering c) = deliver_loop (foldl reorder_one (c\<lparr>pkts_net := []\<rparr>) (pkts_net c))"
  by (simp add: rudp_conn_reordering_def Let_def)

text \<open>
  What one run of \<open>_rudp_conn_reordering\<close> does: it hands over a run of consecutive packets
  from \<open>expected_seq\<close> on, keeps the rest sorted, and stops at the first gap.
\<close>

lemma reordering_spec:
  assumes "rx_sorted c"
  defines "c' \<equiv> snd (rudp_conn_reordering c)"
  shows "\<exists>ds. pkts_reordered c' = pkts_reordered c @ ds \<and>
      set ds \<union> set (buf c') \<subseteq>
        {p \<in> set (pkts_net c). in_window (expected_seq c) (seq p)} \<union> set (buf c) \<and>
      map seq ds = map (\<lambda>i. expected_seq c + of_nat i) [0..<length ds] \<and>
      expected_seq c' = expected_seq c + of_nat (length ds) \<and>
      (buf c' = [] \<or> seq (hd (buf c')) \<noteq> expected_seq c') \<and>
      (\<forall>p \<in> set (pkts_net c). in_window (expected_seq c) (seq p) \<longrightarrow>
         seq p \<in> seq ` (set ds \<union> set (buf c'))) \<and>
      sorted_wrt (<) (map seq (ds @ buf c'))"
    and "rx_sorted c'" and "pkts_net c' = []"
    and "pkts_fhost c' = pkts_fhost c" "current_seq c' = current_seq c" "closed c' = closed c"
    and "nfd c' = nfd c" "avg_rtt_ms c' = avg_rtt_ms c" "ack_threshold c' = ack_threshold c"
    and "last_ack_sent_seq c' = last_ack_sent_seq c" "packets_since_ack c' = packets_since_ack c"
    and "s_uid c' = s_uid c" "c_uid c' = c_uid c"
proof -
  define m where "m = foldl reorder_one (c\<lparr>pkts_net := []\<rparr>) (pkts_net c)"
  have c': "c' = deliver_loop m" by (simp add: c'_def m_def reordering_eq)
  have "rx_sorted (c\<lparr>pkts_net := []\<rparr>)" using assms by (simp add: rx_sorted_def)
  note f = reorder_fold_buf [OF this, of "pkts_net c", folded m_def]
  have e0: "expected_seq (c\<lparr>pkts_net := []\<rparr>) = expected_seq c" by (simp add: expected_seq_def)
  obtain a where a: "m = c\<lparr>pkts_net := [], pkts_reorder_buf := a\<rparr>" using f by auto
  then have e: "expected_seq m = expected_seq c" by (simp add: expected_seq_def)
  obtain k where k: "k \<le> length (buf m)" "buf c' = drop k (buf m)"
     "pkts_reordered c' = pkts_reordered c @ take k (buf m)"
     "map seq (take k (buf m)) = map (\<lambda>i. expected_seq c + of_nat i) [0..<k]"
     "expected_seq c' = expected_seq c + of_nat k"
     "buf c' = [] \<or> seq (hd (buf c')) \<noteq> expected_seq c'"
     "da_wf (pkts_reorder_buf m) \<longrightarrow> da_wf (pkts_reorder_buf c')"
    using deliver_loop_spec [of m, folded c', unfolded e] a by auto
  have un: "set (take k (buf m)) \<union> set (buf c') = set (buf m)"
    unfolding k(2) by (metis append_take_drop_id set_append)
  have "take k (buf m) @ buf c' = buf m" by (simp add: k(2))
  moreover have srt0: "sorted_wrt (<) (map seq (buf m))" "da_wf (pkts_reorder_buf m)"
    using f by (simp_all add: rx_sorted_def)
  ultimately have srt: "sorted_wrt (<) (map seq (take k (buf m) @ buf c'))" by simp
  show "\<exists>ds. pkts_reordered c' = pkts_reordered c @ ds \<and>
      set ds \<union> set (buf c') \<subseteq>
        {p \<in> set (pkts_net c). in_window (expected_seq c) (seq p)} \<union> set (buf c) \<and>
      map seq ds = map (\<lambda>i. expected_seq c + of_nat i) [0..<length ds] \<and>
      expected_seq c' = expected_seq c + of_nat (length ds) \<and>
      (buf c' = [] \<or> seq (hd (buf c')) \<noteq> expected_seq c') \<and>
      (\<forall>p \<in> set (pkts_net c). in_window (expected_seq c) (seq p) \<longrightarrow>
         seq p \<in> seq ` (set ds \<union> set (buf c'))) \<and>
      sorted_wrt (<) (map seq (ds @ buf c'))"
    using k f un srt unfolding e0
    by (intro exI [of _ "take k (buf m)"]) auto
  show "rx_sorted c'"
    using k(7) srt0 by (simp add: rx_sorted_def k(2) sorted_wrt_drop drop_map [symmetric])
  obtain l b r v where "deliver_loop m = m\<lparr>last_recved_seq := l, pkts_reorder_buf := b,
      pkts_reordered := r, ev_reordered := v\<rparr>"
    using deliver_loop_frame by blast
  then show "pkts_net c' = []" "pkts_fhost c' = pkts_fhost c" "current_seq c' = current_seq c"
    "closed c' = closed c" "nfd c' = nfd c" "avg_rtt_ms c' = avg_rtt_ms c"
    "ack_threshold c' = ack_threshold c" "last_ack_sent_seq c' = last_ack_sent_seq c"
    "packets_since_ack c' = packets_since_ack c" "s_uid c' = s_uid c" "c_uid c' = c_uid c"
    by (simp_all add: c' a)
qed

lemma sorted_hd_gap:
  assumes "sorted_wrt (<) (map seq ps)" and "ps = [] \<or> e < seq (hd ps)"
  shows "e \<notin> seq ` set ps"
  using assms by (cases ps) auto

subsection \<open>The send window\<close>

definition pend_ok :: "rudp_pending_pkt \<Rightarrow> bool" where
  "pend_ok pp \<longleftrightarrow> (\<exists>q. copy_pack pp = Some q \<and> pack_ok q \<and> seq q = pp_seq pp) \<and>
     retransmit_count pp \<le> RUDP_RETRANSMISSION_CAP"

definition pend_key :: "rudp_pending_pkt \<Rightarrow> u32 \<times> protopack option" where
  "pend_key pp = (pp_seq pp, copy_pack pp)"

lemma pack_ok_seq [simp]: "pack_ok (p\<lparr>seq := n\<rparr>) = pack_ok p" "pack_ok (p\<lparr>chsum := n\<rparr>) = pack_ok p"
  by (simp_all add: pack_ok_def)

lemma copy_pack_ok: "pack_ok p \<Longrightarrow> udp_copy_pack p = Inr p"
  by (cases p) (simp add: udp_copy_pack_def pack_ok_def)

lemma rudp_conn_send_ok:
  assumes "pack_ok pkt" and "\<not> closed c" and "len (pkts_fhost c) < RUDP_SEND_WINDOW"
  defines "q \<equiv> pkt\<lparr>seq := current_seq c\<rparr>"
  shows "\<exists>c' s' pp. rudp_conn_send c s pkt t1 t2 = Inr (0, c', s') \<and>
    s_packets s' = s_packets s @ [(q, nfd c)] \<and> pending c' = pending c @ [pp] \<and>
    pend_key pp = (current_seq c, Some q) \<and> pend_ok pp \<and> current_seq c' = current_seq c + 1 \<and>
    (\<exists>a. c' = c\<lparr>pkts_fhost := a, current_seq := current_seq c + 1\<rparr>)"
  using assms
  by (auto simp: rudp_conn_send_def copy_pack_ok rudp_pkt_make_def pvd_sender_send_ok
      dyn_array_push_ok pend_ok_def pend_key_def Let_def split_beta)

lemma rudp_conn_send_full:
  "\<not> closed c \<Longrightarrow> RUDP_SEND_WINDOW \<le> len (pkts_fhost c) \<Longrightarrow>
   rudp_conn_send c s pkt t1 t2 = Inr (EAGAIN, c, s)"
  by (simp add: rudp_conn_send_def)

lemma tx_frame_self: "\<exists>a b. c = c\<lparr>pkts_fhost := a, closed := b\<rparr>"
proof -
  have "c = c\<lparr>pkts_fhost := pkts_fhost c, closed := closed c\<rparr>" by simp
  then show ?thesis by blast
qed

lemma timeouts_loop_spec:
  assumes "\<forall>pp \<in> set (pending c). pend_ok pp"
  shows "\<exists>r c' s' extra. timeouts_loop c s now i = Inr (r, c', s') \<and>
    s_packets s' = s_packets s @ extra \<and>
    (\<forall>(q, to) \<in> set extra. to = nfd c \<and> Some q \<in> copy_pack ` set (pending c)) \<and>
    (r = 0 \<and> map pend_key (pending c') = map pend_key (pending c) \<and> closed c' = closed c \<or>
     r = -1 \<and> closed c' \<and> length (pending c') < length (pending c) \<and>
       pend_key ` set (pending c') \<subseteq> pend_key ` set (pending c)) \<and>
    (\<forall>pp \<in> set (pending c'). pend_ok pp) \<and>
    (\<exists>a b. c' = c\<lparr>pkts_fhost := a, closed := b\<rparr>)"
  using assms
proof (induction c s now i rule: timeouts_loop.induct)
  case (1 c s now i)
  show ?case
  proof (cases "dyn_array_at (pkts_fhost c) i")
    case None
    with "1.prems" tx_frame_self [of c] show ?thesis
      by (simp add: timeouts_loop.simps [of c])
  next
    case (Some pkt)
    then have i: "i < length (pending c)" "pkt = pending c ! i"
      by (simp_all add: dyn_array_at_def split: if_splits)
    then have pok: "pend_ok pkt" and pin: "pkt \<in> set (pending c)" using "1.prems" by simp_all
    then obtain q where q: "copy_pack pkt = Some q" "pack_ok q" "seq q = pp_seq pkt"
      by (auto simp: pend_ok_def)
    have sent: "pvd_sender_send s (copy_pack pkt) (nfd c) =
        Inr (0, s\<lparr>s_packets := s_packets s @ [(q, nfd c)], s_newpack := mt_evsock_notify (s_newpack s)\<rparr>)"
      using q by (simp add: pvd_sender_send_ok)
    consider (cap) "RUDP_RETRANSMISSION_CAP \<le> retransmit_count pkt"
      | (resend) "\<not> RUDP_RETRANSMISSION_CAP \<le> retransmit_count pkt"
          "backoff_ms (avg_rtt_ms c) (retransmit_count pkt) \<le> now - pp_timestamp pkt"
      | (idle) "\<not> RUDP_RETRANSMISSION_CAP \<le> retransmit_count pkt"
          "\<not> backoff_ms (avg_rtt_ms c) (retransmit_count pkt) \<le> now - pp_timestamp pkt" by blast
    then show ?thesis
    proof cases
      case cap
      define ys where "ys = (pending c)[i := pending c ! (length (pending c) - 1)]"
      have ys: "set ys \<subseteq> set (pending c)" "length ys = length (pending c)"
        using i unfolding ys_def by (auto dest!: set_update_subset_insert [THEN subsetD])
      let ?zs = "take (length ys - 1) ys @ drop (Suc (length ys - 1)) ys"
      have "set ?zs \<subseteq> set ys" by (auto dest: in_set_takeD in_set_dropD)
      then have zs: "set ?zs \<subseteq> set (pending c)" "length ?zs < length (pending c)" using ys i by auto
      then have zok: "\<forall>pp \<in> set ?zs. pend_ok pp" using "1.prems" by blast
      define arr where "arr = snd (dyn_array_remove ((pkts_fhost c)\<lparr>elements := ys\<rparr>) (length ys - 1))"
      have el: "elements arr = ?zs"
        using i ys(2) by (simp add: arr_def elements_remove)
      have "timeouts_loop c s now i = Inr (-1, c\<lparr>pkts_fhost := arr, closed := True\<rparr>, s)"
        using Some cap q by (simp add: timeouts_loop.simps [of c] Let_def arr_def ys_def)
      moreover have "pend_key ` set ?zs \<subseteq> pend_key ` set (pending c)"
        using zs(1) by (rule image_mono)
      ultimately show ?thesis
        using zs(2) zok el by (intro exI [of _ "-1"] exI [of _ "c\<lparr>pkts_fhost := arr, closed := True\<rparr>"] exI [of _ s] exI [of _ "[]"]) auto
    next
      case resend
      let ?pkt = "pkt\<lparr>pp_timestamp := now, retransmit_count := retransmit_count pkt + 1\<rparr>"
      let ?c = "c\<lparr>pkts_fhost := (pkts_fhost c)\<lparr>elements := (pending c)[i := ?pkt]\<rparr>\<rparr>"
      let ?s = "s\<lparr>s_packets := s_packets s @ [(q, nfd c)], s_newpack := mt_evsock_notify (s_newpack s)\<rparr>"
      have key: "pend_key ?pkt = pend_key (pending c ! i)" and cp: "copy_pack ?pkt = copy_pack (pending c ! i)"
        by (simp_all add: pend_key_def i)
      then have keys: "map pend_key (pending ?c) = map pend_key (pending c)"
        "map copy_pack (pending ?c) = map copy_pack (pending c)"
        by (simp_all add: map_update list_update_same_conv i del: list_update_id)
      have copies: "copy_pack ` set (pending ?c) = copy_pack ` set (pending c)"
        "pend_key ` set (pending ?c) = pend_key ` set (pending c)"
        using keys by (metis list.set_map)+
      have "pend_ok ?pkt" using pok resend(1) by (auto simp: pend_ok_def)
      then have ok: "\<forall>pp \<in> set (pending ?c). pend_ok pp"
        using "1.prems" by (auto dest!: set_update_subset_insert [THEN subsetD])
      have step: "timeouts_loop c s now i = timeouts_loop ?c ?s now (i + 1)"
        using Some resend q sent by (simp add: timeouts_loop.simps [of c])
      have len: "length (pending ?c) = length (pending c)" by simp
      have ne: "copy_pack pkt \<noteq> None" using q by simp
      have flds: "nfd ?c = nfd c" "closed ?c = closed c" by simp_all
      note IH0 = "1.IH"(2) [OF Some ne resend ok, of ?s, unfolded keys(1) copies len flds]
      from IH0
      obtain r c' s' extra a b where IH: "timeouts_loop ?c ?s now (i + 1) = Inr (r, c', s')"
          "s_packets s' = s_packets ?s @ extra"
          "\<forall>(q, to) \<in> set extra. to = nfd c \<and> Some q \<in> copy_pack ` set (pending c)"
          "r = 0 \<and> map pend_key (pending c') = map pend_key (pending c) \<and> closed c' = closed c \<or>
           r = -1 \<and> closed c' \<and> length (pending c') < length (pending c) \<and>
             pend_key ` set (pending c') \<subseteq> pend_key ` set (pending c)"
          "\<forall>pp \<in> set (pending c'). pend_ok pp" "c' = ?c\<lparr>pkts_fhost := a, closed := b\<rparr>"
        by (elim exE conjE) (rule that; assumption)
      have "Some q \<in> copy_pack ` set (pending c)" using q(1) pin by (metis imageI)
      moreover have "s_packets s' = s_packets s @ (q, nfd c) # extra" using IH(2) by simp
      moreover have "\<exists>a b. c' = c\<lparr>pkts_fhost := a, closed := b\<rparr>" using IH(6) by force
      ultimately show ?thesis
        using IH(1,3,4,5) unfolding step
        by (intro exI [of _ r] exI [of _ c'] exI [of _ s'] exI [of _ "(q, nfd c) # extra"]) simp
    next
      case idle
      with Some q show ?thesis
        using "1.IH"(3) [OF Some _ idle "1.prems"] by (simp add: timeouts_loop.simps [of c])
    qed
  qed
qed

subsection \<open>Properties\<close>

definition receive :: "'fd rudp_connection \<Rightarrow> protopack \<Rightarrow> 'fd rudp_connection" where
  "receive c p = snd (rudp_conn_reordering (snd (rudp_conn_pass_net c (Some p))))"

lemma stuck_insert:
  assumes "rx_sorted c" and "buf c \<noteq> []" and "seq (hd (buf c)) < e"
  shows "buf (reorder_one c p) \<noteq> [] \<and> seq (hd (buf (reorder_one c p))) < e"
proof -
  have srt: "sorted_wrt (<) (map seq (buf (reorder_one c p)))"
    using reorder_one_buf(1) [OF assms(1)] by (simp add: rx_sorted_def)
  have mem: "hd (buf c) \<in> set (buf (reorder_one c p))"
    using reorder_one_buf(3) [OF assms(1), of p] assms(2) by auto
  then obtain x xs where x: "buf (reorder_one c p) = x # xs" by (cases "buf (reorder_one c p)") auto
  then have "seq x \<le> seq (hd (buf c))" using srt mem by fastforce
  with assms(3) x show ?thesis by simp
qed

lemma stuck_fold:
  assumes "rx_sorted c" and "buf c \<noteq> []" and "seq (hd (buf c)) < e"
  shows "buf (foldl reorder_one c ps) \<noteq> [] \<and> seq (hd (buf (foldl reorder_one c ps))) < e"
  using assms
proof (induction ps arbitrary: c)
  case (Cons p ps)
  then show ?case
    using stuck_insert [OF Cons.prems, of p] reorder_one_buf(1) [OF Cons.prems(1), of p] by simp
qed simp

lemma stuck_receive:
  assumes "rx_sorted c" and "buf c \<noteq> []" and "seq (hd (buf c)) < expected_seq c"
  shows "rx_sorted (receive c p) \<and> buf (receive c p) \<noteq> [] \<and> expected_seq (receive c p) = expected_seq c \<and>
    seq (hd (buf (receive c p))) < expected_seq (receive c p) \<and> pkts_reordered (receive c p) = pkts_reordered c"
proof -
  let ?c = "snd (rudp_conn_pass_net c (Some p))"
  define m where "m = foldl reorder_one (?c\<lparr>pkts_net := []\<rparr>) (pkts_net ?c)"
  have same: "expected_seq (?c\<lparr>pkts_net := []\<rparr>) = expected_seq c" "buf (?c\<lparr>pkts_net := []\<rparr>) = buf c"
    "rx_sorted (?c\<lparr>pkts_net := []\<rparr>)"
    using assms(1) by (simp_all add: rudp_conn_pass_net_def expected_seq_def rx_sorted_def)
  have st: "buf m \<noteq> []" "seq (hd (buf m)) < expected_seq c"
    using stuck_fold [of "?c\<lparr>pkts_net := []\<rparr>" "expected_seq c"] assms same by (simp_all add: m_def)
  note f = reorder_fold_buf [OF same(3), of "pkts_net ?c", folded m_def]
  obtain a where a: "m = ?c\<lparr>pkts_net := [], pkts_reorder_buf := a\<rparr>" using f by auto
  then have e: "expected_seq m = expected_seq c" "pkts_reordered m = pkts_reordered c"
    by (simp_all add: expected_seq_def rudp_conn_pass_net_def)
  have "dyn_array_at (pkts_reorder_buf m) 0 = Some (hd (buf m))"
    using st(1) by (simp add: dyn_array_at_def hd_conv_nth)
  then have "deliver_loop m = m"
    using st(2) e(1) by (simp add: deliver_loop.simps [of m])
  then have "receive c p = m" by (simp add: receive_def reordering_eq m_def)
  with st e f show ?thesis by simp
qed

text \<open>
  Wrap-around: once the front of the reorder buffer holds a number below the expected
  one, which happens when a packet with a wrapped sequence number overtakes the last ones
  before the wrap, the connection never delivers a packet again, whatever arrives.
\<close>

theorem rudp_stuck_at_wrap:
  assumes "rx_sorted c" and "buf c \<noteq> []" and "seq (hd (buf c)) < expected_seq c"
  shows "pkts_reordered (foldl receive c ps) = pkts_reordered c"
  using assms
proof (induction ps arbitrary: c)
  case (Cons p ps)
  note st = stuck_receive [OF Cons.prems, of p]
  then have "pkts_reordered (foldl receive (receive c p) ps) = pkts_reordered (receive c p)"
    by (intro Cons.IH) blast+
  with st show ?case by simp
qed simp

definition wrap_conn :: "nat rudp_connection" where
  "wrap_conn = (rudp_conn_new 1 2 0 0)\<lparr>last_recved_seq := 0xFFFFFFFD\<rparr>"

definition wrap_pack :: "u32 \<Rightarrow> protopack" where
  "wrap_pack n = demo_pack\<lparr>seq := n, packtype := 0\<rparr>"

text \<open>
  The witness reaches such a state from a connection that has received everything up to
  number \<open>0xFFFFFFFD\<close> and gets the packets \<open>0xFFFFFFFE\<close>, \<open>0xFFFFFFFF\<close> and \<open>0\<close>, the last first.
\<close>

lemma wrap_state:
  "buf (receive wrap_conn (wrap_pack 0)) = [wrap_pack 0]"
  "expected_seq (receive wrap_conn (wrap_pack 0)) = 0xFFFFFFFE"
  "rx_sorted (receive wrap_conn (wrap_pack 0))" "pkts_reordered (receive wrap_conn (wrap_pack 0)) = []"
  by (simp_all add: receive_def rudp_conn_pass_net_def wrap_conn_def rudp_conn_new_def reordering_eq
      reorder_one_def expected_seq_def UINT32_MAX_def wrap_pack_def RUDP_REORDER_WINDOW_def
      dyn_array_insert_def dyn_array_create_def deliver_loop.simps dyn_array_at_def rx_sorted_def
      da_wf_def size_pred_def Let_def)

theorem rudp_stuck_at_wrap_witness:
  "pkts_reordered (foldl receive wrap_conn [wrap_pack 0, wrap_pack 0xFFFFFFFE, wrap_pack 0xFFFFFFFF]) = []"
  using rudp_stuck_at_wrap [of "receive wrap_conn (wrap_pack 0)" "[wrap_pack 0xFFFFFFFE, wrap_pack 0xFFFFFFFF]"]
    wrap_state by (simp add: wrap_pack_def)

text \<open>
  One run of \<open>_rudp_conn_reordering\<close> hands over packets with consecutive numbers from
  the expected one on, empties the network queue, keeps the buffer strictly sorted and
  leaves no expected packet at its front; what is handed over or kept is what arrived.
\<close>

theorem rudp_reordering_in_order:
  assumes "rx_sorted c"
  defines "c' \<equiv> snd (rudp_conn_reordering c)"
  shows "rx_sorted c' \<and> pkts_net c' = [] \<and>
    (\<exists>ds. pkts_reordered c' = pkts_reordered c @ ds \<and>
       set ds \<union> set (buf c') \<subseteq> set (pkts_net c) \<union> set (buf c) \<and>
       map seq ds = map (\<lambda>i. expected_seq c + of_nat i) [0..<length ds] \<and>
       expected_seq c' = expected_seq c + of_nat (length ds) \<and>
       (buf c' = [] \<or> seq (hd (buf c')) \<noteq> expected_seq c'))"
proof -
  obtain ds where "pkts_reordered c' = pkts_reordered c @ ds"
    "set ds \<union> set (buf c') \<subseteq> {p \<in> set (pkts_net c). in_window (expected_seq c) (seq p)} \<union> set (buf c)"
    "map seq ds = map (\<lambda>i. expected_seq c + of_nat i) [0..<length ds]"
    "expected_seq c' = expected_seq c + of_nat (length ds)"
    "buf c' = [] \<or> seq (hd (buf c')) \<noteq> expected_seq c'"
    using reordering_spec(1) [OF assms(1), folded c'_def] by (elim exE conjE) (rule that; assumption)
  with reordering_spec(2,3) [OF assms(1), folded c'_def] show ?thesis by blast
qed

definition gap_conn :: "nat rudp_connection" where
  "gap_conn = (rudp_conn_new 1 2 0 0)\<lparr>pkts_net := [wrap_pack 3, wrap_pack 1, wrap_pack 0, wrap_pack 1]\<rparr>"

theorem rudp_reordering_in_order_witness:
  "\<exists>ds. pkts_reordered (snd (rudp_conn_reordering gap_conn)) = ds \<and>
     map seq ds = map of_nat [0..<length ds]"
proof -
  have "rx_sorted gap_conn"
    by (simp add: rx_sorted_def gap_conn_def rudp_conn_new_def)
  from rudp_reordering_in_order [OF this] show ?thesis
    by (auto simp: gap_conn_def rudp_conn_new_def expected_seq_def)
qed

end
