(* ===== verification/Dyn_Table.thy ===== *)
theory Dyn_Table
  imports Dyn_Array
begin

text \<open>
  \<open>base/dyn_table.c\<close>: a key/value table over a \<open>dyn_array\<close> of pairs, searched
  linearly. \<open>memcmp\<close> over \<open>key_size\<close> bytes is equality of the keys. The ownership
  flags decide which of the two \<open>malloc\<close> calls of an insertion happen; whether they
  succeed is \<open>mk\<close> (key) and \<open>mv\<close> (value), and \<open>ok\<close> is the \<open>realloc\<close> of the array.
  A pointer stored without ownership is read as what it points to.

  The lemmas give the table's invariant and, as an interpretation of \<open>kv_store\<close>, its map
  laws; every table of the program (peers, connections, TURN bindings, state servers) rests
  on them.
\<close>

datatype dyn_own_t = DYN_OWN_NONE | DYN_OWN_KEY | DYN_OWN_VAL | DYN_OWN_BOTH

fun owns_key :: "dyn_own_t \<Rightarrow> bool" where
  "owns_key f = (f = DYN_OWN_KEY \<or> f = DYN_OWN_BOTH)"

fun owns_val :: "dyn_own_t \<Rightarrow> bool" where
  "owns_val f = (f = DYN_OWN_VAL \<or> f = DYN_OWN_BOTH)"

record ('k, 'v) dyn_table =
  dt_key_size :: nat
  dt_val_size :: nat
  dt_flags :: dyn_own_t
  dt_array :: "('k \<times> 'v) dyn_array"

abbreviation pairs :: "('k, 'v) dyn_table \<Rightarrow> ('k \<times> 'v) list" where
  "pairs t \<equiv> elements (dt_array t)"

definition dyn_table_create :: "nat \<Rightarrow> nat \<Rightarrow> dyn_own_t \<Rightarrow> ('k, 'v) dyn_table" where
  "dyn_table_create ks vs f =
     \<lparr>dt_key_size = ks, dt_val_size = vs, dt_flags = f, dt_array = dyn_array_create 16\<rparr>"

fun find_idx_loop :: "('k \<times> 'v) list \<Rightarrow> 'k \<Rightarrow> nat \<Rightarrow> nat option" where
  "find_idx_loop [] k i = None"
| "find_idx_loop (p # ps) k i = (if fst p = k then Some i else find_idx_loop ps k (Suc i))"

text \<open>\<open>None\<close> is the C value \<open>SIZE_MAX\<close>, which is no index of an array in memory.\<close>

definition dyn_table_find_idx :: "('k, 'v) dyn_table \<Rightarrow> 'k \<Rightarrow> nat option" where
  "dyn_table_find_idx t k = find_idx_loop (pairs t) k 0"

definition dyn_table_set ::
  "bool \<Rightarrow> bool \<Rightarrow> bool \<Rightarrow> ('k, 'v) dyn_table \<Rightarrow> 'k \<Rightarrow> 'v \<Rightarrow> int \<times> ('k, 'v) dyn_table" where
  "dyn_table_set mk mv ok t k v =
     (case dyn_table_find_idx t k of
        Some i \<Rightarrow>
          (0, t\<lparr>dt_array := (dt_array t)\<lparr>elements := (pairs t)[i := (fst (pairs t ! i), v)]\<rparr>\<rparr>)
      | None \<Rightarrow>
          if owns_key (dt_flags t) \<and> \<not> mk \<or> owns_val (dt_flags t) \<and> \<not> mv then (-1, t)
          else (let (r, a) = dyn_array_push ok (dt_array t) (k, v) in (r, t\<lparr>dt_array := a\<rparr>)))"

definition dyn_table_remove :: "('k, 'v) dyn_table \<Rightarrow> 'k \<Rightarrow> int \<times> ('k, 'v) dyn_table" where
  "dyn_table_remove t k =
     (case dyn_table_find_idx t k of
        None \<Rightarrow> (-1, t)
      | Some i \<Rightarrow>
          (let (r, a) = dyn_array_remove (dt_array t) i in (r, t\<lparr>dt_array := a\<rparr>)))"

definition dyn_table_get :: "('k, 'v) dyn_table \<Rightarrow> 'k \<Rightarrow> 'v option" where
  "dyn_table_get t k =
     (case dyn_table_find_idx t k of
        None \<Rightarrow> None
      | Some i \<Rightarrow> map_option snd (dyn_array_at (dt_array t) i))"

text \<open>The iterator returns the pair and the advanced index.\<close>

definition dyn_table_iterate ::
  "('k, 'v) dyn_table \<Rightarrow> nat \<Rightarrow> ('k \<times> 'v) option \<times> nat" where
  "dyn_table_iterate t inx =
     (if len (dt_array t) \<le> inx then (None, inx)
      else (dyn_array_at (dt_array t) inx, inx + 1))"

definition dyn_table_end :: "('k, 'v) dyn_table \<Rightarrow> ('k, 'v) dyn_table" where
  "dyn_table_end t = t\<lparr>dt_array := dyn_array_end (dt_array t)\<rparr>"

text \<open>A loop over the iterator, until it returns \<open>NULL\<close>.\<close>

fun iterate_all :: "('k, 'v) dyn_table \<Rightarrow> nat \<Rightarrow> nat \<Rightarrow> ('k \<times> 'v) list" where
  "iterate_all t 0 inx = []"
| "iterate_all t (Suc n) inx =
     (case dyn_table_iterate t inx of
        (None, _) \<Rightarrow> []
      | (Some p, inx') \<Rightarrow> p # iterate_all t n inx')"

text \<open>With memory available: the operations as their clients use them.\<close>

abbreviation table_set :: "('k, 'v) dyn_table \<Rightarrow> 'k \<Rightarrow> 'v \<Rightarrow> ('k, 'v) dyn_table" where
  "table_set t k v \<equiv> snd (dyn_table_set True True True t k v)"

abbreviation table_remove :: "('k, 'v) dyn_table \<Rightarrow> 'k \<Rightarrow> ('k, 'v) dyn_table" where
  "table_remove t k \<equiv> snd (dyn_table_remove t k)"

text \<open>The invariant: one pair for each key, and the array is well formed.\<close>

definition dt_wf :: "('k, 'v) dyn_table \<Rightarrow> bool" where
  "dt_wf t \<longleftrightarrow> distinct (map fst (pairs t)) \<and> da_wf (dt_array t)"

subsection \<open>The search\<close>

lemma find_idx_loop_None: "find_idx_loop ps k i = None \<longleftrightarrow> k \<notin> fst ` set ps"
  by (induction ps arbitrary: i) auto

lemma find_idx_loop_Some:
  "find_idx_loop ps k i = Some j \<Longrightarrow>
   \<exists>n. j = i + n \<and> n < length ps \<and> fst (ps ! n) = k \<and> k \<notin> fst ` set (take n ps)"
proof (induction ps arbitrary: i)
  case Nil
  then show ?case by simp
next
  case (Cons p ps)
  show ?case
  proof (cases "fst p = k")
    case True
    with Cons.prems show ?thesis by (intro exI [of _ 0]) simp
  next
    case False
    with Cons obtain n where "j = Suc i + n" "n < length ps" "fst (ps ! n) = k"
      "k \<notin> fst ` set (take n ps)" by fastforce
    with False show ?thesis by (intro exI [of _ "Suc n"]) auto
  qed
qed

lemma find_idx_None: "dyn_table_find_idx t k = None \<longleftrightarrow> k \<notin> fst ` set (pairs t)"
  by (simp add: dyn_table_find_idx_def find_idx_loop_None)

lemma find_idx_Some:
  assumes "dyn_table_find_idx t k = Some i"
  obtains v where "i < len (dt_array t)" "pairs t ! i = (k, v)" "k \<notin> fst ` set (take i (pairs t))"
    "pairs t = take i (pairs t) @ (k, v) # drop (Suc i) (pairs t)"
proof -
  have i: "i < len (dt_array t)" "fst (pairs t ! i) = k" "k \<notin> fst ` set (take i (pairs t))"
    using assms find_idx_loop_Some [of "pairs t" k 0 i] by (auto simp: dyn_table_find_idx_def)
  define v where "v = snd (pairs t ! i)"
  have at: "pairs t ! i = (k, v)"
    using i(2) by (simp add: v_def prod_eq_iff)
  have "pairs t = take i (pairs t) @ (k, v) # drop (Suc i) (pairs t)"
    using id_take_nth_drop [OF i(1)] by (simp only: at)
  then show ?thesis by (rule that [OF i(1) at i(3)])
qed

lemma dyn_table_get_map_of: "dyn_table_get t k = map_of (pairs t) k"
proof (cases "dyn_table_find_idx t k")
  case None
  then have "map_of (pairs t) k = None"
    by (simp add: find_idx_None map_of_eq_None_iff)
  with None show ?thesis by (simp add: dyn_table_get_def)
next
  case (Some i)
  then obtain v where i: "i < len (dt_array t)" "pairs t ! i = (k, v)"
    "k \<notin> fst ` set (take i (pairs t))"
    and split: "pairs t = take i (pairs t) @ (k, v) # drop (Suc i) (pairs t)"
    by (rule find_idx_Some)
  have "map_of (pairs t) k = Some v"
    using map_of_middle [OF i(3), of v _ k] split by metis
  with Some i show ?thesis by (simp add: dyn_table_get_def dyn_array_at_def)
qed

subsection \<open>Updates\<close>

lemma pairs_set_new:
  assumes "dyn_table_get t k = None"
  shows "pairs (table_set t k v) = pairs t @ [(k, v)]"
proof -
  have "dyn_table_find_idx t k = None"
    using assms by (simp add: dyn_table_get_map_of map_of_eq_None_iff find_idx_None)
  then show ?thesis by (simp add: dyn_table_set_def dyn_array_push_ok split_beta)
qed

lemma pairs_set_found:
  assumes "pairs t = xs @ (k, w) # ys" and "k \<notin> fst ` set xs"
  shows "pairs (table_set t k v) = xs @ (k, v) # ys"
proof (cases "dyn_table_find_idx t k")
  case None
  with assms show ?thesis by (auto simp: find_idx_None)
next
  case (Some i)
  then obtain u where i: "i < len (dt_array t)" "pairs t ! i = (k, u)"
    "k \<notin> fst ` set (take i (pairs t))" by (rule find_idx_Some)
  have "\<not> i < length xs"
    using i(2) assms by (metis fst_conv image_eqI nth_append nth_mem)
  moreover have "\<not> length xs < i"
  proof
    assume "length xs < i"
    then have "(k, w) \<in> set (take i (pairs t))"
      by (simp add: assms(1) take_Cons')
    with i(3) show False by force
  qed
  ultimately have "i = length xs" by simp
  with Some assms(1) show ?thesis by (simp add: dyn_table_set_def)
qed

lemma pairs_remove:
  assumes "dyn_table_find_idx t k = Some i"
  shows "pairs (table_remove t k) = take i (pairs t) @ drop (Suc i) (pairs t)"
  using assms find_idx_Some [OF assms]
  by (auto simp: dyn_table_remove_def dyn_array_remove_def split_beta)

lemma dt_wf_create [simp]: "dt_wf (dyn_table_create ks vs f)"
  by (simp add: dt_wf_def dyn_table_create_def)

lemma pairs_create [simp]: "pairs (dyn_table_create ks vs f) = []"
  by (simp add: dyn_table_create_def)

lemma keys_set:
  "map fst (pairs (snd (dyn_table_set mk mv ok t k v))) = map fst (pairs t) \<or>
   k \<notin> fst ` set (pairs t) \<and> map fst (pairs (snd (dyn_table_set mk mv ok t k v))) = map fst (pairs t) @ [k]"
proof (cases "dyn_table_find_idx t k")
  case None
  then have "k \<notin> fst ` set (pairs t)"
    by (simp add: find_idx_None)
  with None show ?thesis
    by (simp add: dyn_table_set_def dyn_array_push_def da_grow_def)
next
  case (Some i)
  then have "i < len (dt_array t)" by (rule find_idx_Some)
  then have "map fst ((pairs t)[i := (fst (pairs t ! i), v)]) = map fst (pairs t)"
    by (simp add: map_update list_update_same_conv)
  with Some show ?thesis by (simp add: dyn_table_set_def)
qed

lemma dt_wf_set: "dt_wf t \<Longrightarrow> dt_wf (snd (dyn_table_set mk mv ok t k v))"
proof -
  assume wf: "dt_wf t"
  have "da_wf (dt_array (snd (dyn_table_set mk mv ok t k v)))"
    using wf da_wf_push [of "dt_array t"]
    by (cases "dyn_table_find_idx t k") (auto simp: dt_wf_def dyn_table_set_def da_wf_def split_beta)
  with wf keys_set [of mk mv ok t k v] show ?thesis by (auto simp: dt_wf_def)
qed

lemma dt_wf_remove: "dt_wf t \<Longrightarrow> dt_wf (table_remove t k)"
proof (cases "dyn_table_find_idx t k")
  case None
  then show "dt_wf t \<Longrightarrow> dt_wf (table_remove t k)" by (simp add: dyn_table_remove_def)
next
  case (Some i)
  assume wf: "dt_wf t"
  obtain v where "pairs t = take i (pairs t) @ (k, v) # drop (Suc i) (pairs t)"
    using find_idx_Some [OF Some] by metis
  then have "distinct (map fst (take i (pairs t) @ (k, v) # drop (Suc i) (pairs t)))"
    using wf by (simp add: dt_wf_def)
  then have "distinct (map fst (pairs (table_remove t k)))"
    by (auto simp: pairs_remove [OF Some])
  moreover have "da_wf (dt_array (table_remove t k))"
    using Some wf da_wf_remove [of "dt_array t" i] by (simp add: dyn_table_remove_def dt_wf_def split_beta)
  ultimately show ?thesis by (simp add: dt_wf_def)
qed

lemma get_set:
  "dyn_table_get (table_set t k v) k' = (if k' = k then Some v else dyn_table_get t k')"
proof (cases "dyn_table_find_idx t k")
  case None
  then have "dyn_table_get t k = None"
    by (simp add: dyn_table_get_def)
  then show ?thesis
    by (auto simp: dyn_table_get_map_of pairs_set_new map_add_def split: option.splits)
next
  case (Some i)
  then obtain w where split: "pairs t = take i (pairs t) @ (k, w) # drop (Suc i) (pairs t)"
    and out: "k \<notin> fst ` set (take i (pairs t))"
    by (rule find_idx_Some)
  have "pairs (table_set t k v) = take i (pairs t) @ (k, v) # drop (Suc i) (pairs t)"
    using split out by (rule pairs_set_found)
  moreover have "map_of (pairs t) k' = map_of (take i (pairs t) @ (k, w) # drop (Suc i) (pairs t)) k'"
    using split by (rule arg_cong)
  ultimately show ?thesis
    by (simp only: dyn_table_get_map_of map_of_middle [OF out]) simp
qed

lemma get_remove:
  assumes "dt_wf t"
  shows "dyn_table_get (table_remove t k) k' = (if k' = k then None else dyn_table_get t k')"
proof (cases "dyn_table_find_idx t k")
  case None
  then have "dyn_table_get t k = None" and "table_remove t k = t"
    by (simp_all add: dyn_table_get_def dyn_table_remove_def)
  then show ?thesis by simp
next
  case (Some i)
  then obtain w where split: "pairs t = take i (pairs t) @ (k, w) # drop (Suc i) (pairs t)"
    by (rule find_idx_Some)
  let ?rest = "take i (pairs t) @ drop (Suc i) (pairs t)"
  have "distinct (map fst (take i (pairs t) @ (k, w) # drop (Suc i) (pairs t)))"
    using assms split by (simp add: dt_wf_def)
  then have out: "k \<notin> fst ` set (take i (pairs t))" "k \<notin> fst ` set ?rest"
    by (auto simp: image_iff)
  have "map_of (pairs t) k' = (if k' = k then Some w else map_of ?rest k')"
    by (subst split) (rule map_of_middle [OF out(1)])
  moreover have "map_of ?rest k = None"
    using out(2) by (simp add: map_of_eq_None_iff image_Un)
  ultimately show ?thesis
    by (simp only: dyn_table_get_map_of pairs_remove [OF Some]) simp
qed

interpretation dt: kv_store dyn_table_get dt_wf "\<lambda>_ _ _. True" table_set table_remove
  by unfold_locales (simp_all add: dt_wf_set dt_wf_remove get_set get_remove)

subsection \<open>Return codes and iteration\<close>

lemma dyn_table_set_ret:
  "fst (dyn_table_set mk mv ok t k v) = 0 \<or>
   fst (dyn_table_set mk mv ok t k v) = -1 \<and> snd (dyn_table_set mk mv ok t k v) = t"
  by (cases t) (auto simp: dyn_table_set_def dyn_array_push_def split_beta split: option.splits)

lemma dyn_table_remove_ret:
  "fst (dyn_table_remove t k) = (if dyn_table_get t k = None then -1 else 0)"
proof (cases "dyn_table_find_idx t k")
  case None
  then show ?thesis by (simp add: dyn_table_remove_def dyn_table_get_def)
next
  case (Some i)
  then have "i < len (dt_array t)" by (rule find_idx_Some)
  with Some show ?thesis
    by (simp add: dyn_table_remove_def dyn_table_get_def dyn_array_remove_def dyn_array_at_def)
qed

lemma iterate_all_drop:
  "len (dt_array t) \<le> n + inx \<Longrightarrow> iterate_all t n inx = drop inx (pairs t)"
proof (induction n arbitrary: inx)
  case 0
  then show ?case by simp
next
  case (Suc n)
  then show ?case
    by (cases "inx < len (dt_array t)")
      (auto simp: dyn_table_iterate_def dyn_array_at_def Cons_nth_drop_Suc)
qed

lemma iterate_all_pairs: "iterate_all t (len (dt_array t)) 0 = pairs t"
  by (simp add: iterate_all_drop)

subsection \<open>Properties\<close>

text \<open>
  A table is a map: after any insertions a lookup finds the value inserted last under
  its key, and the old one where none was.
\<close>

theorem dyn_table_as_map:
  assumes "dt_wf t"
  shows "dyn_table_get (foldl (\<lambda>t (k, v). table_set t k v) t kvs) k =
    (case map_of (rev kvs) k of None \<Rightarrow> dyn_table_get t k | Some v \<Rightarrow> Some v)"
  using dt.put_all [of t kvs] assms by simp

theorem dyn_table_as_map_witness:
  "dyn_table_get (foldl (\<lambda>t (k, v). table_set t k v) (dyn_table_create 4 4 DYN_OWN_BOTH)
     [(1 :: nat, ''a''), (2, ''b''), (1, ''c'')]) 1 = Some ''c''"
  using dyn_table_as_map [OF dt_wf_create, of 4 4 DYN_OWN_BOTH "[(1 :: nat, ''a''), (2, ''b''), (1, ''c'')]" 1]
  by simp

text \<open>
  Iterating a table from index \<open>0\<close> visits every key exactly once, with the value a
  lookup finds.
\<close>

theorem dyn_table_iterate_complete:
  assumes "dt_wf t"
  defines "ps \<equiv> iterate_all t (len (dt_array t)) 0"
  shows "distinct (map fst ps) \<and> (\<forall>k v. (k, v) \<in> set ps \<longleftrightarrow> dyn_table_get t k = Some v)"
  using assms by (simp add: iterate_all_pairs dt_wf_def dyn_table_get_map_of map_of_eq_Some_iff)

theorem dyn_table_iterate_complete_witness:
  "distinct (map fst (iterate_all (dyn_table_create 4 4 DYN_OWN_BOTH :: (nat, nat) dyn_table)
     (len (dt_array (dyn_table_create 4 4 DYN_OWN_BOTH :: (nat, nat) dyn_table))) 0))"
  using dyn_table_iterate_complete [OF dt_wf_create [of 4 4 DYN_OWN_BOTH]] by blast

end
