(* ===== verification/Dyn_Htable.thy ===== *)
theory Dyn_Htable
  imports Interfaces
begin

text \<open>
  \<open>base/dyn_htable.c\<close>, the chained hash table with fixed-size byte string keys and values.

  A node is a pair of its key and value bytes, a chain is the list of its nodes, and the
  bucket array \<open>nodes\<close> is \<open>Null\<close>, \<open>Freed\<close> (the pointer \<open>ht_destroy\<close> leaves behind) or
  \<open>Live\<close> with the chains of the block actually allocated. Reading a chain outside the
  block, through \<open>NULL\<close> or after \<open>free\<close> is a fault, and so is a failing \<open>assert\<close>. The
  arguments \<open>oka\<close> and \<open>okn\<close> say whether the \<open>malloc\<close> of a bucket array and those of
  a node succeed. \<open>hash\<close> and \<open>compare\<close> are always the two default functions.

  The lemmas: the invariant \<open>ht_wf\<close>, that every operation of a table keeps it, that growing
  and shrinking keep every lookup, and the map laws as an interpretation of \<open>kv_store\<close>.
\<close>

type_synonym ht_chain = "(bytes \<times> bytes) list"

datatype ht_node_array = Null | Freed | Live "ht_chain list"

record dyn_htable =
  ht_size :: nat
  ht_threshold :: nat
  ht_capacity :: nat
  ht_key_size :: nat
  ht_value_size :: nat
  ht_nodes :: ht_node_array

definition HT_MINIMUM_CAPACITY :: nat where
  "HT_MINIMUM_CAPACITY = 8"

definition HT_LOAD_FACTOR :: nat where
  "HT_LOAD_FACTOR = 5"

definition HT_GROWTH_FACTOR :: nat where
  "HT_GROWTH_FACTOR = 2"

text \<open>The C expression \<open>(1 / 4)\<close> divides integers.\<close>

definition HT_SHRINK_THRESHOLD :: nat where
  "HT_SHRINK_THRESHOLD = 1 div 4"

definition HT_ERROR :: int where
  "HT_ERROR = -1"

subsection \<open>Private functions\<close>

text \<open>djb2 over the key's bytes; \<open>char\<close> is signed, so each byte is sign extended.\<close>

definition ht_default_hash :: "bytes \<Rightarrow> nat \<Rightarrow> u64" where
  "ht_default_hash key n =
     foldl (\<lambda>h b. (push_bit 5 h + h) XOR scast b) 5381 (take n key)"

definition ht_default_compare_eq :: "bytes \<Rightarrow> bytes \<Rightarrow> nat \<Rightarrow> bool" where
  "ht_default_compare_eq a b n \<longleftrightarrow> take n a = take n b"

definition ht_hash :: "dyn_htable \<Rightarrow> bytes \<Rightarrow> nat" where
  "ht_hash t key = unat (ht_default_hash key (ht_key_size t)) mod ht_capacity t"

definition ht_equal :: "dyn_htable \<Rightarrow> bytes \<Rightarrow> bytes \<Rightarrow> bool" where
  "ht_equal t a b = ht_default_compare_eq a b (ht_key_size t)"

definition ht_should_grow :: "dyn_htable \<Rightarrow> fault + bool" where
  "ht_should_grow t =
     (if \<not> ht_size t \<le> ht_capacity t then Inl AssertFail else Inr (ht_size t = ht_capacity t))"

definition ht_should_shrink :: "dyn_htable \<Rightarrow> fault + bool" where
  "ht_should_shrink t =
     (if \<not> ht_size t \<le> ht_capacity t then Inl AssertFail
      else Inr (ht_size t = ht_capacity t * HT_SHRINK_THRESHOLD))"

definition ht_is_initialized :: "dyn_htable \<Rightarrow> bool" where
  "ht_is_initialized t \<longleftrightarrow> ht_nodes t \<noteq> Null"

text \<open>The read \<open>nodes[i]\<close>.\<close>

definition ht_chain_at :: "dyn_htable \<Rightarrow> nat \<Rightarrow> fault + ht_chain" where
  "ht_chain_at t i =
     (case ht_nodes t of
        Null \<Rightarrow> Inl NullDeref
      | Freed \<Rightarrow> Inl UseAfterFree
      | Live ns \<Rightarrow> if i < length ns then Inr (ns ! i) else Inl OutOfBounds)"

definition ht_set_chain :: "dyn_htable \<Rightarrow> nat \<Rightarrow> ht_chain \<Rightarrow> dyn_htable" where
  "ht_set_chain t i c =
     (case ht_nodes t of Live ns \<Rightarrow> t\<lparr>ht_nodes := Live (ns[i := c])\<rparr> | _ \<Rightarrow> t)"

text \<open>The nodes of the chains \<open>0 .. capacity - 1\<close>, in the order the loops visit them.\<close>

definition ht_all_nodes :: "dyn_htable \<Rightarrow> fault + ht_chain list" where
  "ht_all_nodes t =
     (case ht_nodes t of
        Null \<Rightarrow> Inl NullDeref
      | Freed \<Rightarrow> Inl UseAfterFree
      | Live ns \<Rightarrow> if length ns < ht_capacity t then Inl OutOfBounds
                  else Inr (take (ht_capacity t) ns))"

definition ht_allocate :: "bool \<Rightarrow> dyn_htable \<Rightarrow> nat \<Rightarrow> int \<times> dyn_htable" where
  "ht_allocate oka t capacity =
     (if \<not> oka then (HT_ERROR, t\<lparr>ht_nodes := Null\<rparr>)
      else (0, t\<lparr>ht_nodes := Live (replicate capacity []), ht_capacity := capacity,
                 ht_threshold := capacity * HT_LOAD_FACTOR\<rparr>))"

definition ht_create_node :: "bool \<Rightarrow> dyn_htable \<Rightarrow> bytes \<Rightarrow> bytes \<Rightarrow> (bytes \<times> bytes) option" where
  "ht_create_node okn t k v =
     (if okn then Some (take (ht_key_size t) k, take (ht_value_size t) v) else None)"

text \<open>When the node cannot be allocated, the bucket is overwritten with \<open>NULL\<close>.\<close>

definition ht_push_front ::
  "bool \<Rightarrow> dyn_htable \<Rightarrow> nat \<Rightarrow> bytes \<Rightarrow> bytes \<Rightarrow> fault + int \<times> dyn_htable" where
  "ht_push_front okn t i k v =
     bind_fault (ht_chain_at t i) (\<lambda>c.
       case ht_create_node okn t k v of
         None \<Rightarrow> Inr (HT_ERROR, ht_set_chain t i [])
       | Some n \<Rightarrow> Inr (0, ht_set_chain t i (n # c)))"

definition ht_rehash_node :: "dyn_htable \<Rightarrow> bytes \<times> bytes \<Rightarrow> dyn_htable" where
  "ht_rehash_node t n =
     (case ht_nodes t of
        Live ns \<Rightarrow> t\<lparr>ht_nodes := Live (ns[ht_hash t (fst n) := n # ns ! ht_hash t (fst n)])\<rparr>
      | _ \<Rightarrow> t)"

definition ht_rehash :: "dyn_htable \<Rightarrow> ht_chain list \<Rightarrow> dyn_htable" where
  "ht_rehash t old = foldl ht_rehash_node t (concat old)"

definition ht_resize :: "bool \<Rightarrow> dyn_htable \<Rightarrow> nat \<Rightarrow> fault + int \<times> dyn_htable" where
  "ht_resize oka t new_capacity =
     (if new_capacity < HT_MINIMUM_CAPACITY \<and> \<not> HT_MINIMUM_CAPACITY < ht_capacity t then Inr (0, t)
      else
        let new_capacity = (if new_capacity < HT_MINIMUM_CAPACITY then HT_MINIMUM_CAPACITY
                            else new_capacity);
            (r, t') = ht_allocate oka t new_capacity
        in if r = HT_ERROR then Inr (HT_ERROR, t')
           else bind_fault (ht_all_nodes t) (\<lambda>old. Inr (0, ht_rehash t' old)))"

definition ht_adjust_capacity :: "bool \<Rightarrow> dyn_htable \<Rightarrow> fault + int \<times> dyn_htable" where
  "ht_adjust_capacity oka t = ht_resize oka t (ht_size t * HT_GROWTH_FACTOR)"

subsection \<open>Interface\<close>

text \<open>\<open>ht_setup\<close> fills a table structure whose previous contents do not matter.\<close>

definition ht_setup :: "bool \<Rightarrow> nat \<Rightarrow> nat \<Rightarrow> nat \<Rightarrow> int \<times> dyn_htable" where
  "ht_setup oka key_size value_size capacity =
     (let capacity = (if capacity < HT_MINIMUM_CAPACITY then HT_MINIMUM_CAPACITY else capacity);
          (r, t) = ht_allocate oka \<lparr>ht_size = 0, ht_threshold = 0, ht_capacity = 0,
                     ht_key_size = 0, ht_value_size = 0, ht_nodes = Null\<rparr> capacity
      in if r = HT_ERROR then (HT_ERROR, t)
         else (0, t\<lparr>ht_key_size := key_size, ht_value_size := value_size, ht_size := 0\<rparr>))"

fun ht_copy_nodes ::
  "bool \<Rightarrow> dyn_htable \<Rightarrow> (nat \<times> bytes \<times> bytes) list \<Rightarrow> fault + int \<times> dyn_htable" where
  "ht_copy_nodes okn t [] = Inr (0, t)"
| "ht_copy_nodes okn t ((i, k, v) # ns) =
     bind_fault (ht_push_front okn t i k v) (\<lambda>(r, t').
       if r = HT_ERROR then Inr (HT_ERROR, t') else ht_copy_nodes okn t' ns)"

definition ht_copy :: "bool \<Rightarrow> bool \<Rightarrow> dyn_htable \<Rightarrow> dyn_htable \<Rightarrow> fault + int \<times> dyn_htable" where
  "ht_copy oka okn first second =
     (if \<not> ht_is_initialized second then Inl AssertFail
      else
        let (r, t) = ht_allocate oka first (ht_capacity second)
        in if r = HT_ERROR then Inr (HT_ERROR, t)
           else
             let t = t\<lparr>ht_key_size := ht_key_size second, ht_value_size := ht_value_size second,
                       ht_size := ht_size second\<rparr>
             in bind_fault (ht_all_nodes second) (\<lambda>old.
                  ht_copy_nodes okn t
                    (concat (map (\<lambda>(i, c). map (Pair i) c) (zip [0..<length old] old)))))"

definition ht_move :: "dyn_htable \<Rightarrow> dyn_htable \<Rightarrow> fault + int \<times> dyn_htable \<times> dyn_htable" where
  "ht_move first second =
     (if \<not> ht_is_initialized second then Inl AssertFail
      else Inr (0, second, second\<lparr>ht_nodes := Null\<rparr>))"

definition ht_swap :: "dyn_htable \<Rightarrow> dyn_htable \<Rightarrow> fault + int \<times> dyn_htable \<times> dyn_htable" where
  "ht_swap first second =
     (if \<not> ht_is_initialized first \<or> \<not> ht_is_initialized second then Inl AssertFail
      else Inr (0,
        first\<lparr>ht_key_size := ht_key_size second, ht_value_size := ht_value_size second,
              ht_size := ht_size second, ht_nodes := ht_nodes second\<rparr>,
        second\<lparr>ht_key_size := ht_key_size first, ht_value_size := ht_value_size first,
               ht_size := ht_size first, ht_nodes := ht_nodes first\<rparr>))"

definition ht_destroy :: "dyn_htable \<Rightarrow> fault + int \<times> dyn_htable" where
  "ht_destroy t =
     (if \<not> ht_is_initialized t then Inl AssertFail
      else bind_fault (ht_all_nodes t) (\<lambda>_. Inr (0, t\<lparr>ht_nodes := Freed\<rparr>)))"

fun chain_lookup :: "dyn_htable \<Rightarrow> ht_chain \<Rightarrow> bytes \<Rightarrow> bytes option" where
  "chain_lookup t [] k = None"
| "chain_lookup t (n # c) k = (if ht_equal t k (fst n) then Some (snd n) else chain_lookup t c k)"

fun chain_update :: "dyn_htable \<Rightarrow> ht_chain \<Rightarrow> bytes \<Rightarrow> bytes \<Rightarrow> ht_chain option" where
  "chain_update t [] k v = None"
| "chain_update t (n # c) k v =
     (if ht_equal t k (fst n) then Some ((fst n, take (ht_value_size t) v) # c)
      else map_option (Cons n) (chain_update t c k v))"

fun chain_erase :: "dyn_htable \<Rightarrow> ht_chain \<Rightarrow> bytes \<Rightarrow> ht_chain option" where
  "chain_erase t [] k = None"
| "chain_erase t (n # c) k =
     (if ht_equal t k (fst n) then Some c else map_option (Cons n) (chain_erase t c k))"

definition ht_insert ::
  "bool \<Rightarrow> bool \<Rightarrow> dyn_htable \<Rightarrow> bytes \<Rightarrow> bytes \<Rightarrow> fault + int \<times> dyn_htable" where
  "ht_insert oka okn t k v =
     (if \<not> ht_is_initialized t then Inl AssertFail
      else
        bind_fault (ht_should_grow t) (\<lambda>grow.
        bind_fault (if grow then map_sum id snd (ht_adjust_capacity oka t) else Inr t) (\<lambda>t.
        let i = ht_hash t k in
        bind_fault (ht_chain_at t i) (\<lambda>c.
          case chain_update t c k v of
            Some c' \<Rightarrow> Inr (1, ht_set_chain t i c')
          | None \<Rightarrow>
              bind_fault (ht_push_front okn t i k v) (\<lambda>(r, t').
                if r = HT_ERROR then Inr (HT_ERROR, t')
                else Inr (0, t'\<lparr>ht_size := ht_size t' + 1\<rparr>))))))"

definition ht_lookup :: "dyn_htable \<Rightarrow> bytes \<Rightarrow> fault + bytes option" where
  "ht_lookup t k = bind_fault (ht_chain_at t (ht_hash t k)) (\<lambda>c. Inr (chain_lookup t c k))"

definition ht_contains :: "dyn_htable \<Rightarrow> bytes \<Rightarrow> fault + int" where
  "ht_contains t k =
     (if \<not> ht_is_initialized t then Inl AssertFail
      else bind_fault (ht_chain_at t (ht_hash t k)) (\<lambda>c.
             Inr (if chain_lookup t c k = None then 0 else 1)))"

definition ht_const_lookup :: "dyn_htable \<Rightarrow> bytes \<Rightarrow> fault + bytes option" where
  "ht_const_lookup t k = bind_fault (ht_chain_at t (ht_hash t k)) (\<lambda>c. Inr (chain_lookup t c k))"

definition ht_erase :: "bool \<Rightarrow> dyn_htable \<Rightarrow> bytes \<Rightarrow> fault + int \<times> dyn_htable" where
  "ht_erase oka t k =
     (let i = ht_hash t k in
      bind_fault (ht_chain_at t i) (\<lambda>c.
        case chain_erase t c k of
          None \<Rightarrow> Inr (0, t)
        | Some c' \<Rightarrow>
            let t' = (ht_set_chain t i c')\<lparr>ht_size := size_pred (ht_size t)\<rparr> in
            bind_fault (ht_should_shrink t') (\<lambda>shrink.
              if shrink then
                bind_fault (ht_adjust_capacity oka t') (\<lambda>(r, t'').
                  if r = HT_ERROR then Inr (HT_ERROR, t'') else Inr (0, t''))
              else Inr (0, t'))))"

definition ht_clear :: "bool \<Rightarrow> dyn_htable \<Rightarrow> fault + int \<times> dyn_htable" where
  "ht_clear oka t =
     (if ht_nodes t = Null then Inl AssertFail
      else bind_fault (ht_destroy t) (\<lambda>(_, t').
             Inr (0, (snd (ht_allocate oka t' HT_MINIMUM_CAPACITY))\<lparr>ht_size := 0\<rparr>)))"

definition ht_is_empty :: "dyn_htable \<Rightarrow> int" where
  "ht_is_empty t = (if ht_size t = 0 then 1 else 0)"

definition ht_reserve :: "bool \<Rightarrow> dyn_htable \<Rightarrow> nat \<Rightarrow> fault + int \<times> dyn_htable" where
  "ht_reserve oka t minimum_capacity =
     (if \<not> ht_is_initialized t then Inl AssertFail
      else if ht_threshold t < minimum_capacity
      then ht_resize oka t (minimum_capacity div HT_LOAD_FACTOR)
      else Inr (0, t))"

subsection \<open>Buckets\<close>

text \<open>
  \<open>buckets_ok\<close>: the bucket array holds \<open>capacity\<close> chains, every node lies in the chain its
  key hashes to, no chain has a key twice, and keys and values have the table's sizes.
  \<open>ht_get\<close> is the map the table stands for.
\<close>

fun chains_of :: "ht_node_array \<Rightarrow> ht_chain list" where
  "chains_of (Live ns) = ns"
| "chains_of _ = []"

abbreviation ht_chains :: "dyn_htable \<Rightarrow> ht_chain list" where
  "ht_chains t \<equiv> chains_of (ht_nodes t)"

definition ht_get :: "dyn_htable \<Rightarrow> bytes \<Rightarrow> bytes option" where
  "ht_get t k = map_of (ht_chains t ! ht_hash t k) k"

definition chain_ok :: "dyn_htable \<Rightarrow> nat \<Rightarrow> ht_chain \<Rightarrow> bool" where
  "chain_ok t i c \<longleftrightarrow> distinct (map fst c) \<and>
     (\<forall>(k, v) \<in> set c. length k = ht_key_size t \<and> length v = ht_value_size t \<and> ht_hash t k = i)"

definition buckets_ok :: "dyn_htable \<Rightarrow> bool" where
  "buckets_ok t \<longleftrightarrow> ht_nodes t \<noteq> Null \<and> ht_nodes t \<noteq> Freed \<and> length (ht_chains t) = ht_capacity t \<and>
     0 < ht_capacity t \<and> (\<forall>i < ht_capacity t. chain_ok t i (ht_chains t ! i))"

definition ht_wf :: "dyn_htable \<Rightarrow> bool" where
  "ht_wf t \<longleftrightarrow> buckets_ok t \<and> HT_MINIMUM_CAPACITY \<le> ht_capacity t \<and>
     ht_size t = length (concat (ht_chains t)) \<and> ht_size t \<le> ht_capacity t"

lemma ht_hash_less: "buckets_ok t \<Longrightarrow> ht_hash t k < ht_capacity t"
  by (simp add: buckets_ok_def ht_hash_def)

lemma chain_at_ok:
  "buckets_ok t \<Longrightarrow> ht_chain_at t (ht_hash t k) = Inr (ht_chains t ! ht_hash t k)"
  using ht_hash_less [of t k] by (cases "ht_nodes t") (auto simp: ht_chain_at_def buckets_ok_def)

lemma chain_ok_hash: "buckets_ok t \<Longrightarrow> chain_ok t (ht_hash t k) (ht_chains t ! ht_hash t k)"
  using ht_hash_less [of t k] by (simp add: buckets_ok_def)

lemma placed_distinct:
  assumes "\<forall>i < length cs. distinct (map fst (cs ! i)) \<and> (\<forall>n \<in> set (cs ! i). h (fst n) = i + m)"
  shows "distinct (map fst (concat cs))"
  using assms
proof (induction cs arbitrary: m)
  case Nil
  then show ?case by simp
next
  case (Cons c cs)
  have step: "\<forall>i < length cs. distinct (map fst (cs ! i)) \<and> (\<forall>n \<in> set (cs ! i). h (fst n) = i + Suc m)"
    using Cons.prems by (auto simp: All_less_Suc2)
  have low: "distinct (map fst c)" "\<forall>n \<in> set c. h (fst n) = m"
    using Cons.prems by (auto simp: All_less_Suc2)
  have "h (fst n) \<noteq> m" if "n \<in> set (concat cs)" for n
  proof -
    from that obtain c' where "c' \<in> set cs" "n \<in> set c'" by auto
    then obtain j where "j < length cs" "n \<in> set (cs ! j)" by (auto simp: in_set_conv_nth)
    then have "h (fst n) = j + Suc m" using step by blast
    then show ?thesis by simp
  qed
  then have "fst ` set c \<inter> fst ` set (concat cs) = {}"
    using low(2) by force
  with Cons.IH [OF step] low(1) show ?case by simp
qed

lemma chain_okD:
  assumes "chain_ok t i c"
  shows "distinct (map fst c)" and "\<forall>n \<in> set c. ht_hash t (fst n) = i"
    and "\<forall>n \<in> set c. length (fst n) = ht_key_size t"
  using assms by (auto simp: chain_ok_def)

lemma nodes_distinct:
  assumes "buckets_ok t"
  shows "distinct (map fst (concat (ht_chains t)))"
proof (rule placed_distinct)
  have "distinct (map fst (ht_chains t ! i)) \<and>
      (\<forall>n \<in> set (ht_chains t ! i). ht_hash t (fst n) = i + 0)" if "i < length (ht_chains t)" for i
    using assms that chain_okD(1,2) [of t i "ht_chains t ! i"] by (simp add: buckets_ok_def)
  then show "\<forall>i < length (ht_chains t). distinct (map fst (ht_chains t ! i)) \<and>
      (\<forall>n \<in> set (ht_chains t ! i). ht_hash t (fst n) = i + 0)" by blast
qed

lemma map_of_nodes:
  assumes "buckets_ok t"
  shows "map_of (concat (ht_chains t)) k = ht_get t k"
proof -
  let ?i = "ht_hash t k"
  have i: "?i < length (ht_chains t)"
    using assms ht_hash_less by (simp add: buckets_ok_def)
  have out: "k \<notin> fst ` set c" if mem: "c \<in> set (take ?i (ht_chains t)) \<union> set (drop (Suc ?i) (ht_chains t))" for c
  proof -
    obtain j where j: "j < length (ht_chains t)" "j \<noteq> ?i" "c = ht_chains t ! j"
      using set_except_nth [OF mem] by blast
    then have "\<forall>n \<in> set c. ht_hash t (fst n) = j"
      using assms chain_okD(2) [of t j c] by (simp add: buckets_ok_def)
    with j(2) show ?thesis by auto
  qed
  then have "k \<notin> fst ` set (concat (take ?i (ht_chains t)))"
    and "k \<notin> fst ` set (concat (drop (Suc ?i) (ht_chains t)))"
    by force+
  then have "map_of (concat (take ?i (ht_chains t))) k = None"
    "map_of (concat (drop (Suc ?i) (ht_chains t))) k = None"
    by (simp_all add: map_of_eq_None_iff)
  then show ?thesis
    by (subst concat_split [OF i]) (simp add: ht_get_def map_add_def split: option.splits)
qed

lemma set_chain_fields [simp]:
  "ht_size (ht_set_chain t i c) = ht_size t" "ht_capacity (ht_set_chain t i c) = ht_capacity t"
  "ht_key_size (ht_set_chain t i c) = ht_key_size t"
  "ht_value_size (ht_set_chain t i c) = ht_value_size t"
  "ht_hash (ht_set_chain t i c) k = ht_hash t k"
  by (simp_all add: ht_set_chain_def ht_hash_def split: ht_node_array.splits)

lemma chains_set_chain [simp]: "ht_chains (ht_set_chain t i c) = (ht_chains t)[i := c]"
  by (simp add: ht_set_chain_def split: ht_node_array.splits)

lemma buckets_ok_set_chain:
  assumes "buckets_ok t" and "chain_ok t i c"
  shows "buckets_ok (ht_set_chain t i c)"
proof -
  have "chain_ok (ht_set_chain t i c) j d = chain_ok t j d" for j d
    by (simp add: chain_ok_def)
  moreover have "ht_nodes (ht_set_chain t i c) \<noteq> Null" "ht_nodes (ht_set_chain t i c) \<noteq> Freed"
    using assms(1) by (cases "ht_nodes t"; simp add: buckets_ok_def ht_set_chain_def)+
  moreover have "chain_ok t j ((ht_chains t)[i := c] ! j)" if "j < ht_capacity t" for j
    using assms that by (cases "j = i") (auto simp: buckets_ok_def)
  ultimately show ?thesis
    using assms(1) by (simp add: buckets_ok_def)
qed

lemma ht_get_set_chain:
  assumes "buckets_ok t" and "i < ht_capacity t"
  shows "ht_get (ht_set_chain t i c) k = (if ht_hash t k = i then map_of c k else ht_get t k)"
  using assms by (auto simp: ht_get_def buckets_ok_def)

lemma length_set_chain:
  assumes "i < length (ht_chains t)"
  shows "length (concat (ht_chains (ht_set_chain t i c))) + length (ht_chains t ! i) =
    length (concat (ht_chains t)) + length c"
  using arg_cong [OF concat_split [OF assms], of length] assms by (simp add: concat_update)

lemma ht_size_update [simp]:
  "ht_hash (t\<lparr>ht_size := n\<rparr>) k = ht_hash t k" "ht_get (t\<lparr>ht_size := n\<rparr>) k = ht_get t k"
  "chain_ok (t\<lparr>ht_size := n\<rparr>) i c = chain_ok t i c" "buckets_ok (t\<lparr>ht_size := n\<rparr>) = buckets_ok t"
  by (simp_all add: ht_hash_def ht_get_def chain_ok_def buckets_ok_def)

text \<open>Putting a new node at the front of its chain, the step of insertion and of rehashing.\<close>

lemma cons_chain:
  assumes ok: "buckets_ok t" and "length k = ht_key_size t" "length v = ht_value_size t"
    and new: "ht_get t k = None"
  defines "t' \<equiv> ht_set_chain t (ht_hash t k) ((k, v) # ht_chains t ! ht_hash t k)"
  shows "buckets_ok t'" and "length (concat (ht_chains t')) = length (concat (ht_chains t)) + 1"
    and "ht_get t' k' = (if k' = k then Some v else ht_get t k')"
proof -
  have "chain_ok t (ht_hash t k) ((k, v) # ht_chains t ! ht_hash t k)"
    using chain_ok_hash [OF ok, of k] new assms(2,3)
    by (auto simp: chain_ok_def ht_get_def map_of_eq_None_iff)
  then show "buckets_ok t'"
    unfolding t'_def by (rule buckets_ok_set_chain [OF ok])
  have i: "ht_hash t k < ht_capacity t" "ht_hash t k < length (ht_chains t)"
    using ok ht_hash_less by (auto simp: buckets_ok_def)
  show "length (concat (ht_chains t')) = length (concat (ht_chains t)) + 1"
    using length_set_chain [OF i(2), of "(k, v) # ht_chains t ! ht_hash t k"]
    unfolding t'_def by simp
  show "ht_get t' k' = (if k' = k then Some v else ht_get t k')"
    unfolding t'_def by (auto simp: ht_get_set_chain [OF ok i(1)]) (auto simp: ht_get_def)
qed

subsection \<open>Searching a chain\<close>

lemma chain_ok_Nil [simp]: "chain_ok t i []"
  by (simp add: chain_ok_def)

lemma chain_ok_Cons:
  "chain_ok t i (n # c) \<longleftrightarrow> chain_ok t i c \<and> fst n \<notin> fst ` set c \<and>
     length (fst n) = ht_key_size t \<and> length (snd n) = ht_value_size t \<and> ht_hash t (fst n) = i"
  by (cases n) (auto simp: chain_ok_def)

lemma ht_equal_iff:
  "length a = ht_key_size t \<Longrightarrow> length b = ht_key_size t \<Longrightarrow> ht_equal t a b \<longleftrightarrow> a = b"
  by (simp add: ht_equal_def ht_default_compare_eq_def)

lemma chain_lookup_map_of:
  "chain_ok t i c \<Longrightarrow> length k = ht_key_size t \<Longrightarrow> chain_lookup t c k = map_of c k"
  by (induction c) (auto simp: chain_ok_Cons ht_equal_iff)

lemma chain_update_None:
  "chain_ok t i c \<Longrightarrow> length k = ht_key_size t \<Longrightarrow>
   chain_update t c k v = None \<longleftrightarrow> map_of c k = None"
  by (induction c) (auto simp: chain_ok_Cons ht_equal_iff)

lemma chain_update_Some:
  assumes "chain_update t c k v = Some c'" and "chain_ok t i c"
    and "length k = ht_key_size t" and "length v = ht_value_size t"
  shows "chain_ok t i c' \<and> map fst c' = map fst c \<and>
    map_of c' k' = (if k' = k then Some v else map_of c k')"
  using assms
proof (induction c arbitrary: c')
  case Nil
  then show ?case by simp
next
  case (Cons n c)
  show ?case
  proof (cases "fst n = k")
    case True
    with Cons.prems show ?thesis by (auto simp: chain_ok_Cons ht_equal_iff)
  next
    case False
    with Cons.prems obtain d where d: "chain_update t c k v = Some d" "c' = n # d"
      by (auto simp: chain_ok_Cons ht_equal_iff)
    with Cons have "chain_ok t i d \<and> map fst d = map fst c \<and>
        map_of d k' = (if k' = k then Some v else map_of c k')"
      by (simp add: chain_ok_Cons)
    moreover from this have "fst ` set d = fst ` set c"
      by (metis list.set_map)
    ultimately show ?thesis
      using Cons.prems False d by (cases n) (auto simp: chain_ok_Cons)
  qed
qed

lemma chain_erase_None:
  "chain_ok t i c \<Longrightarrow> length k = ht_key_size t \<Longrightarrow>
   chain_erase t c k = None \<longleftrightarrow> map_of c k = None"
  by (induction c) (auto simp: chain_ok_Cons ht_equal_iff)

lemma chain_erase_Some:
  assumes "chain_erase t c k = Some c'" and "chain_ok t i c" and "length k = ht_key_size t"
  shows "chain_ok t i c' \<and> length c = length c' + 1 \<and> set c' \<subseteq> set c \<and>
    map_of c' k' = (if k' = k then None else map_of c k')"
  using assms
proof (induction c arbitrary: c')
  case Nil
  then show ?case by simp
next
  case (Cons n c)
  show ?case
  proof (cases "fst n = k")
    case True
    then have "map_of c k = None"
      using Cons.prems(2) by (auto simp: chain_ok_Cons map_of_eq_None_iff)
    with True Cons.prems show ?thesis by (auto simp: chain_ok_Cons ht_equal_iff)
  next
    case False
    with Cons.prems obtain d where d: "chain_erase t c k = Some d" "c' = n # d"
      by (auto simp: chain_ok_Cons ht_equal_iff)
    with Cons have "chain_ok t i d \<and> length c = length d + 1 \<and> set d \<subseteq> set c \<and>
        map_of d k' = (if k' = k then None else map_of c k')"
      by (simp add: chain_ok_Cons)
    then show ?thesis
      using Cons.prems False d by (cases n) (auto simp: chain_ok_Cons)
  qed
qed

subsection \<open>Growing, shrinking and rehashing\<close>

lemma rehash_node_eq:
  "buckets_ok t \<Longrightarrow> ht_rehash_node t n =
     ht_set_chain t (ht_hash t (fst n)) (n # ht_chains t ! ht_hash t (fst n))"
  by (cases "ht_nodes t") (auto simp: ht_rehash_node_def ht_set_chain_def buckets_ok_def)

lemma rehash_all:
  assumes "buckets_ok t" and "distinct (map fst ns)"
    and "\<forall>(k, v) \<in> set ns. length k = ht_key_size t \<and> length v = ht_value_size t \<and> ht_get t k = None"
  shows "buckets_ok (foldl ht_rehash_node t ns) \<and>
    length (concat (ht_chains (foldl ht_rehash_node t ns))) = length (concat (ht_chains t)) + length ns \<and>
    ht_get (foldl ht_rehash_node t ns) k' = (case map_of ns k' of None \<Rightarrow> ht_get t k' | Some v \<Rightarrow> Some v) \<and>
    ht_size (foldl ht_rehash_node t ns) = ht_size t \<and>
    ht_capacity (foldl ht_rehash_node t ns) = ht_capacity t \<and>
    ht_key_size (foldl ht_rehash_node t ns) = ht_key_size t \<and>
    ht_value_size (foldl ht_rehash_node t ns) = ht_value_size t"
  using assms
proof (induction ns arbitrary: t)
  case Nil
  then show ?case by simp
next
  case (Cons n ns)
  obtain k v where n: "n = (k, v)" by (cases n)
  have kv: "length k = ht_key_size t" "length v = ht_value_size t" "ht_get t k = None"
    using Cons.prems(3) by (simp_all add: n)
  let ?t = "ht_rehash_node t (k, v)"
  have eq: "?t = ht_set_chain t (ht_hash t k) ((k, v) # ht_chains t ! ht_hash t k)"
    using rehash_node_eq [OF Cons.prems(1)] by simp
  note cc = cons_chain [OF Cons.prems(1) kv, folded eq]
  have fields: "ht_size ?t = ht_size t" "ht_capacity ?t = ht_capacity t"
    "ht_key_size ?t = ht_key_size t" "ht_value_size ?t = ht_value_size t"
    by (simp_all add: eq)
  have out: "k \<notin> fst ` set ns" and dist: "distinct (map fst ns)"
    using Cons.prems(2) by (simp_all add: n)
  have "\<forall>(a, b) \<in> set ns. length a = ht_key_size ?t \<and> length b = ht_value_size ?t \<and> ht_get ?t a = None"
  proof clarify
    fix a b assume ab: "(a, b) \<in> set ns"
    then have "a \<noteq> k" using out by force
    moreover have "length a = ht_key_size t \<and> length b = ht_value_size t \<and> ht_get t a = None"
      using bspec [OF Cons.prems(3), of "(a, b)"] ab by simp
    ultimately show "length a = ht_key_size ?t \<and> length b = ht_value_size ?t \<and> ht_get ?t a = None"
      by (simp add: fields cc(3))
  qed
  note IH = Cons.IH [OF cc(1) dist this]
  have "map_of ns k = None" using out by (simp add: map_of_eq_None_iff)
  then show ?case
    using IH by (auto simp: n fields cc(2,3) split: option.splits)
qed

lemma buckets_ok_fresh:
  assumes "0 < c" and "ht_nodes t = Live (replicate c [])" and "ht_capacity t = c"
  shows "buckets_ok t" and "ht_get t k = None" and "length (concat (ht_chains t)) = 0"
proof -
  show ok: "buckets_ok t" using assms by (simp add: buckets_ok_def)
  show "ht_get t k = None"
    using assms ht_hash_less [OF ok] by (simp add: ht_get_def)
  show "length (concat (ht_chains t)) = 0" using assms by simp
qed

lemma ht_wf_buckets: "ht_wf t \<Longrightarrow> buckets_ok t"
  by (simp add: ht_wf_def)

lemma nodes_sizes:
  assumes "buckets_ok t"
  shows "\<forall>(k, v) \<in> set (concat (ht_chains t)). length k = ht_key_size t \<and> length v = ht_value_size t"
proof clarify
  fix k v assume "(k, v) \<in> set (concat (ht_chains t))"
  then obtain i where "i < length (ht_chains t)" "(k, v) \<in> set (ht_chains t ! i)"
    by (auto simp: in_set_conv_nth) (metis nth_mem)
  with assms show "length k = ht_key_size t \<and> length v = ht_value_size t"
    by (auto simp: buckets_ok_def chain_ok_def)
qed

lemma ht_resize_ok:
  assumes wf: "ht_wf t" and fits: "ht_size t \<le> max n HT_MINIMUM_CAPACITY"
  obtains t' where "ht_resize True t n = Inr (0, t')" "ht_wf t'" "ht_size t' = ht_size t"
    "ht_key_size t' = ht_key_size t" "ht_value_size t' = ht_value_size t"
    "\<And>k. ht_get t' k = ht_get t k" "n \<ge> HT_MINIMUM_CAPACITY \<Longrightarrow> ht_capacity t' = n"
proof (cases "n < HT_MINIMUM_CAPACITY \<and> \<not> HT_MINIMUM_CAPACITY < ht_capacity t")
  case True
  with wf that [of t] show ?thesis by (simp add: ht_resize_def)
next
  case False
  define c where "c = max n HT_MINIMUM_CAPACITY"
  have c: "0 < c" "HT_MINIMUM_CAPACITY \<le> c" "ht_size t \<le> c"
    using fits by (simp_all add: c_def HT_MINIMUM_CAPACITY_def)
  define u where "u = t\<lparr>ht_nodes := Live (replicate c []), ht_capacity := c, ht_threshold := c * HT_LOAD_FACTOR\<rparr>"
  have u: "ht_size u = ht_size t" "ht_key_size u = ht_key_size t" "ht_value_size u = ht_value_size t"
    "ht_nodes u = Live (replicate c [])" "ht_capacity u = c"
    by (simp_all add: u_def)
  let ?ns = "concat (ht_chains t)"
  have old: "ht_all_nodes t = Inr (ht_chains t)"
    using wf by (cases "ht_nodes t") (auto simp: ht_wf_def buckets_ok_def ht_all_nodes_def)
  have sizes: "\<forall>(k, v) \<in> set ?ns. length k = ht_key_size u \<and> length v = ht_value_size u \<and> ht_get u k = None"
    using nodes_sizes [OF ht_wf_buckets [OF wf]] buckets_ok_fresh(2) [OF c(1) u(4,5)]
    by (auto simp: u)
  note ra = rehash_all [OF buckets_ok_fresh(1) [OF c(1) u(4,5)] nodes_distinct [OF ht_wf_buckets [OF wf]] sizes]
  have "(if n < HT_MINIMUM_CAPACITY then HT_MINIMUM_CAPACITY else n) = c"
    by (simp add: c_def)
  then have "ht_resize True t n = Inr (0, ht_rehash u (ht_chains t))"
    using False old
    by (auto simp: ht_resize_def ht_allocate_def Let_def HT_ERROR_def u_def)
  moreover have "ht_wf (ht_rehash u (ht_chains t))"
    using ra wf c buckets_ok_fresh(3) [OF c(1) u(4,5)] by (simp add: ht_wf_def ht_rehash_def u)
  moreover have "ht_get (ht_rehash u (ht_chains t)) k = ht_get t k" for k
    using ra [of k] map_of_nodes [OF ht_wf_buckets [OF wf], of k] buckets_ok_fresh(2) [OF c(1) u(4,5)]
    by (simp add: ht_rehash_def split: option.splits)
  ultimately show ?thesis
    using that ra by (simp add: ht_rehash_def u c_def)
qed

subsection \<open>The operations of the table\<close>

text \<open>
  \<open>ht_put\<close> and \<open>ht_del\<close> are the tables \<open>ht_insert\<close> and \<open>ht_erase\<close> leave when memory is
  available; the two lemmas before them show that neither faults on a well-formed table, so
  the default \<open>t\<close> is never taken there.
\<close>

lemma ht_setup_ok:
  assumes "ht_setup True ks vs c = (r, t)"
  shows "r = 0 \<and> ht_wf t \<and> ht_get t k = None \<and> ht_key_size t = ks \<and> ht_value_size t = vs"
proof -
  define d where "d = max c HT_MINIMUM_CAPACITY"
  have d: "0 < d" "HT_MINIMUM_CAPACITY \<le> d" by (simp_all add: d_def HT_MINIMUM_CAPACITY_def)
  have "(if c < HT_MINIMUM_CAPACITY then HT_MINIMUM_CAPACITY else c) = d" by (simp add: d_def)
  then have t: "r = 0" "ht_nodes t = Live (replicate d [])" "ht_capacity t = d" "ht_size t = 0"
    "ht_key_size t = ks" "ht_value_size t = vs"
    using assms by (auto simp: ht_setup_def ht_allocate_def HT_ERROR_def Let_def)
  then show ?thesis
    using buckets_ok_fresh [OF d(1) t(2,3)] d by (simp add: ht_wf_def)
qed

lemma ht_lookup_ok:
  assumes "ht_wf t" and "length k = ht_key_size t"
  shows "ht_lookup t k = Inr (ht_get t k)"
  using assms chain_at_ok [of t k] chain_lookup_map_of [OF chain_ok_hash, of t k k]
  by (simp add: ht_wf_def ht_lookup_def ht_get_def)

lemma ht_wf_live: "ht_wf t \<Longrightarrow> ht_is_initialized t"
  by (auto simp: ht_wf_def buckets_ok_def ht_is_initialized_def)

lemma ht_grow_ok:
  assumes wf: "ht_wf t"
  obtains t' where
    "ht_insert oka okn t k v =
       (if ht_size t = ht_capacity t \<and> \<not> oka then ht_insert oka okn t k v
        else let i = ht_hash t' k in
          bind_fault (ht_chain_at t' i) (\<lambda>c.
            case chain_update t' c k v of
              Some c' \<Rightarrow> Inr (1, ht_set_chain t' i c')
            | None \<Rightarrow> bind_fault (ht_push_front okn t' i k v) (\<lambda>(r, t'').
                if r = HT_ERROR then Inr (HT_ERROR, t'')
                else Inr (0, t''\<lparr>ht_size := ht_size t'' + 1\<rparr>))))"
    "ht_wf t'" "ht_size t' < ht_capacity t'" "ht_size t' = ht_size t"
    "ht_key_size t' = ht_key_size t" "ht_value_size t' = ht_value_size t"
    "\<And>k'. ht_get t' k' = ht_get t k'"
proof (cases "ht_size t = ht_capacity t")
  case False
  with wf that [of t] show ?thesis
    by (simp add: ht_insert_def ht_should_grow_def ht_wf_live ht_wf_def)
next
  case True
  have "HT_MINIMUM_CAPACITY \<le> ht_size t"
    using wf unfolding ht_wf_def True by blast
  then have "HT_MINIMUM_CAPACITY \<le> ht_size t * HT_GROWTH_FACTOR" "0 < ht_size t"
    by (simp_all add: HT_GROWTH_FACTOR_def HT_MINIMUM_CAPACITY_def)
  with ht_resize_ok [OF wf, of "ht_size t * HT_GROWTH_FACTOR"] obtain t' where
    t': "ht_resize True t (ht_size t * HT_GROWTH_FACTOR) = Inr (0, t')" "ht_wf t'"
      "ht_size t' = ht_size t" "ht_key_size t' = ht_key_size t"
      "ht_value_size t' = ht_value_size t" "\<And>k'. ht_get t' k' = ht_get t k'"
      "ht_capacity t' = ht_size t * HT_GROWTH_FACTOR"
    by (auto simp: HT_GROWTH_FACTOR_def)
  with that [of t'] True \<open>0 < ht_size t\<close> wf show ?thesis
    by (cases oka)
      (simp_all add: ht_insert_def ht_should_grow_def ht_wf_live ht_adjust_capacity_def HT_GROWTH_FACTOR_def)
qed

lemma ht_insert_ok:
  assumes wf: "ht_wf t" and k: "length k = ht_key_size t" and v: "length v = ht_value_size t"
  obtains r t' where "ht_insert True True t k v = Inr (r, t')" "r = (if ht_get t k = None then 0 else 1)"
    "ht_wf t'" "ht_key_size t' = ht_key_size t" "ht_value_size t' = ht_value_size t"
    "ht_size t' = ht_size t + (if ht_get t k = None then 1 else 0)"
    "\<And>k'. ht_get t' k' = (if k' = k then Some v else ht_get t k')"
proof -
  obtain u where ins: "ht_insert True True t k v =
        (let i = ht_hash u k in
          bind_fault (ht_chain_at u i) (\<lambda>c.
            case chain_update u c k v of
              Some c' \<Rightarrow> Inr (1, ht_set_chain u i c')
            | None \<Rightarrow> bind_fault (ht_push_front True u i k v) (\<lambda>(r, t'').
                if r = HT_ERROR then Inr (HT_ERROR, t'')
                else Inr (0, t''\<lparr>ht_size := ht_size t'' + 1\<rparr>))))"
    and u: "ht_wf u" "ht_size u < ht_capacity u" "ht_size u = ht_size t"
      "ht_key_size u = ht_key_size t" "ht_value_size u = ht_value_size t"
      "\<And>k'. ht_get u k' = ht_get t k'"
    using ht_grow_ok [OF wf, of True True k v] by auto
  let ?i = "ht_hash u k" and ?c = "ht_chains u ! ht_hash u k"
  note ok = ht_wf_buckets [OF u(1)]
  have i: "?i < ht_capacity u" "?i < length (ht_chains u)"
    using ok ht_hash_less [OF ok] by (simp_all add: buckets_ok_def)
  show ?thesis
  proof (cases "chain_update u ?c k v")
    case None
    then have none: "ht_get u k = None"
      using chain_update_None [OF chain_ok_hash [OF ok]] k u(4) by (simp add: ht_get_def)
    define w where "w = ht_set_chain u ?i ((k, v) # ?c)"
    note cc = cons_chain [OF ok _ _ none, of v, folded w_def, unfolded u(4,5), OF k v]
    have "ht_wf (w\<lparr>ht_size := ht_size u + 1\<rparr>)"
      using cc u(1,2) by (simp add: ht_wf_def w_def)
    moreover have "ht_get (w\<lparr>ht_size := ht_size u + 1\<rparr>) k' = ht_get w k'" for k'
      by (simp add: ht_get_def ht_hash_def)
    moreover have "ht_insert True True t k v = Inr (0, w\<lparr>ht_size := ht_size u + 1\<rparr>)"
      using None chain_at_ok [OF ok, of k] k v
      by (simp add: ins ht_push_front_def ht_create_node_def HT_ERROR_def w_def u(4,5) Let_def)
    ultimately show ?thesis
      using that none cc(3) u by (simp add: w_def)
  next
    case (Some c')
    then have some: "ht_get u k \<noteq> None"
      using chain_update_None [OF chain_ok_hash [OF ok], of k k v] k u(4) by (simp add: ht_get_def)
    note cu = chain_update_Some [OF Some chain_ok_hash [OF ok], unfolded u(4,5), OF k v]
    define w where "w = ht_set_chain u ?i c'"
    have "length c' = length ?c"
      using cu by (metis length_map)
    then have "length (concat (ht_chains w)) = length (concat (ht_chains u))"
      using length_set_chain [OF i(2), of c'] by (simp add: w_def)
    then have "ht_wf w"
      using buckets_ok_set_chain [OF ok] cu u(1) by (simp add: ht_wf_def w_def)
    moreover have "ht_get w k' = (if k' = k then Some v else ht_get t k')" for k'
      using cu [of k'] by (auto simp: w_def ht_get_set_chain [OF ok i(1)] u(6) [symmetric]) (auto simp: ht_get_def)
    moreover have "ht_insert True True t k v = Inr (1, w)"
      using Some chain_at_ok [OF ok, of k] by (simp add: ins w_def)
    ultimately show ?thesis
      using that some u by (simp add: w_def)
  qed
qed

lemma ht_erase_ok:
  assumes wf: "ht_wf t" and k: "length k = ht_key_size t"
  obtains t' where "ht_erase True t k = Inr (0, t')"
    "ht_wf t'" "ht_key_size t' = ht_key_size t" "ht_value_size t' = ht_value_size t"
    "ht_size t' = ht_size t - (if ht_get t k = None then 0 else 1)"
    "\<And>k'. ht_get t' k' = (if k' = k then None else ht_get t k')"
proof -
  let ?i = "ht_hash t k" and ?c = "ht_chains t ! ht_hash t k"
  note ok = ht_wf_buckets [OF wf]
  have i: "?i < ht_capacity t" "?i < length (ht_chains t)"
    using ok ht_hash_less [OF ok] by (simp_all add: buckets_ok_def)
  show ?thesis
  proof (cases "chain_erase t ?c k")
    case None
    then have "ht_get t k = None"
      using chain_erase_None [OF chain_ok_hash [OF ok] k] by (simp add: ht_get_def)
    then show ?thesis
      using that [of t] None wf chain_at_ok [OF ok, of k] by (simp add: ht_erase_def)
  next
    case (Some c')
    then have some: "ht_get t k \<noteq> None"
      using chain_erase_None [OF chain_ok_hash [OF ok] k, of k] by (auto simp: ht_get_def)
    note ce = chain_erase_Some [OF Some chain_ok_hash [OF ok] k]
    define w where "w = (ht_set_chain t ?i c')\<lparr>ht_size := size_pred (ht_size t)\<rparr>"
    have "length (concat ((ht_chains t)[?i := c'])) + length ?c = length (concat (ht_chains t)) + length c'"
      using length_set_chain [OF i(2), of c'] by (simp del: length_concat)
    then have sz: "length (concat (ht_chains t)) = length (concat (ht_chains w)) + 1"
      using conjunct1 [OF conjunct2 [OF ce]] by (simp add: w_def del: length_concat)
    then have size: "0 < ht_size t" "ht_size w = ht_size t - 1"
      using wf unfolding ht_wf_def by (simp_all add: w_def size_pred_def)
    have "buckets_ok w"
      using buckets_ok_set_chain [OF ok, of ?i c'] ce by (simp add: w_def)
    moreover have cap: "ht_capacity w = ht_capacity t"
      by (simp add: w_def)
    moreover have "HT_MINIMUM_CAPACITY \<le> ht_capacity t" "ht_size t = length (concat (ht_chains t))"
      "ht_size t \<le> ht_capacity t"
      using wf unfolding ht_wf_def by blast+
    ultimately have wf': "ht_wf w"
      using sz size(2) unfolding ht_wf_def cap by linarith
    have get: "ht_get w k' = (if k' = k then None else ht_get t k')" for k'
    proof -
      have "ht_get w k' = ht_get (ht_set_chain t ?i c') k'"
        by (simp add: w_def ht_get_def ht_hash_def)
      then show ?thesis
        using ce [of k'] by (auto simp: ht_get_set_chain [OF ok i(1)]) (auto simp: ht_get_def)
    qed
    have er: "ht_erase True t k = bind_fault (ht_should_shrink w) (\<lambda>shrink.
          if shrink then bind_fault (ht_adjust_capacity True w) (\<lambda>(r, t'').
            if r = HT_ERROR then Inr (HT_ERROR, t'') else Inr (0, t''))
          else Inr (0, w))"
      using Some chain_at_ok [OF ok, of k] by (simp add: ht_erase_def Let_def w_def [symmetric])
    have shrink: "ht_should_shrink w = Inr (ht_size w = 0)"
      using wf' by (simp add: ht_wf_def ht_should_shrink_def HT_SHRINK_THRESHOLD_def)
    obtain w' where w': "ht_resize True w (ht_size w * HT_GROWTH_FACTOR) = Inr (0, w')" "ht_wf w'"
      "ht_size w' = ht_size w" "ht_key_size w' = ht_key_size w" "ht_value_size w' = ht_value_size w"
      "\<And>k. ht_get w' k = ht_get w k"
      by (rule ht_resize_ok [OF wf', of "ht_size w * HT_GROWTH_FACTOR"])
        (simp_all add: HT_GROWTH_FACTOR_def)
    have fields: "ht_key_size w = ht_key_size t" "ht_value_size w = ht_value_size t"
      by (simp_all add: w_def)
    show ?thesis
    proof (cases "ht_size w = 0")
      case True
      then have "ht_erase True t k = Inr (0, w')"
        using w'(1) by (simp add: er shrink ht_adjust_capacity_def HT_ERROR_def)
      with that [of w'] w' fields get some size show ?thesis by simp
    next
      case False
      then have "ht_erase True t k = Inr (0, w)" by (simp add: er shrink)
      with that [of w] wf' fields get some size show ?thesis by simp
    qed
  qed
qed

lemma ht_clear_ok:
  assumes "ht_wf t"
  shows "\<exists>t'. ht_clear True t = Inr (0, t') \<and> ht_wf t' \<and> ht_get t' k = None \<and> ht_size t' = 0"
proof -
  have pos: "0 < HT_MINIMUM_CAPACITY" by (simp add: HT_MINIMUM_CAPACITY_def)
  have all: "ht_all_nodes t = Inr (ht_chains t)" and live: "ht_nodes t \<noteq> Null"
    using assms by (cases "ht_nodes t"; auto simp: ht_wf_def buckets_ok_def ht_all_nodes_def)+
  define u where "u = (snd (ht_allocate True (t\<lparr>ht_nodes := Freed\<rparr>) HT_MINIMUM_CAPACITY))\<lparr>ht_size := 0\<rparr>"
  have u: "ht_nodes u = Live (replicate HT_MINIMUM_CAPACITY [])" "ht_capacity u = HT_MINIMUM_CAPACITY"
    "ht_size u = 0"
    by (simp_all add: u_def ht_allocate_def)
  have "ht_clear True t = Inr (0, u)"
    using all live by (simp add: ht_clear_def ht_destroy_def ht_is_initialized_def u_def)
  moreover have "ht_wf u"
    using buckets_ok_fresh [OF pos u(1,2)] u by (simp add: ht_wf_def)
  ultimately show ?thesis
    using buckets_ok_fresh(2) [OF pos u(1,2)] u(3) by blast
qed

definition ht_put :: "dyn_htable \<Rightarrow> bytes \<Rightarrow> bytes \<Rightarrow> dyn_htable" where
  "ht_put t k v = (case ht_insert True True t k v of Inr (_, t') \<Rightarrow> t' | Inl _ \<Rightarrow> t)"

definition ht_del :: "dyn_htable \<Rightarrow> bytes \<Rightarrow> dyn_htable" where
  "ht_del t k = (case ht_erase True t k of Inr (_, t') \<Rightarrow> t' | Inl _ \<Rightarrow> t)"

definition ht_fits :: "dyn_htable \<Rightarrow> bytes \<Rightarrow> bytes \<Rightarrow> bool" where
  "ht_fits t k v \<longleftrightarrow> length k = ht_key_size t \<and> length v = ht_value_size t"

lemma ht_put_ok:
  assumes wf: "ht_wf t" and "length k = ht_key_size t" and "length v = ht_value_size t"
  shows "ht_wf (ht_put t k v) \<and> ht_key_size (ht_put t k v) = ht_key_size t \<and>
    ht_value_size (ht_put t k v) = ht_value_size t \<and>
    ht_get (ht_put t k v) k' = (if k' = k then Some v else ht_get t k')"
proof (rule ht_insert_ok [OF assms])
  fix r t'
  assume "ht_insert True True t k v = Inr (r, t')"
  then have eq: "ht_put t k v = t'" by (simp add: ht_put_def)
  assume "ht_wf t'" "ht_key_size t' = ht_key_size t" "ht_value_size t' = ht_value_size t"
    "\<And>k'. ht_get t' k' = (if k' = k then Some v else ht_get t k')"
  then show ?thesis unfolding eq by blast
qed

lemma ht_del_ok:
  assumes "ht_wf t" and "length k = ht_key_size t"
  shows "ht_wf (ht_del t k) \<and> ht_key_size (ht_del t k) = ht_key_size t \<and>
    ht_value_size (ht_del t k) = ht_value_size t \<and>
    ht_get (ht_del t k) k' = (if k' = k then None else ht_get t k')"
proof (rule ht_erase_ok [OF assms])
  fix t'
  assume "ht_erase True t k = Inr (0, t')"
  then have eq: "ht_del t k = t'" by (simp add: ht_del_def)
  assume "ht_wf t'" "ht_key_size t' = ht_key_size t" "ht_value_size t' = ht_value_size t"
    "\<And>k'. ht_get t' k' = (if k' = k then None else ht_get t k')"
  then show ?thesis unfolding eq by blast
qed

interpretation ht: kv_store ht_get ht_wf ht_fits ht_put ht_del
proof unfold_locales
  fix t k v k' v'
  assume wf: "ht_wf t" and f: "ht_fits t k v"
  then have p: "ht_wf (ht_put t k v)" "ht_key_size (ht_put t k v) = ht_key_size t"
      "ht_value_size (ht_put t k v) = ht_value_size t"
      "ht_get (ht_put t k v) k' = (if k' = k then Some v else ht_get t k')"
    and d: "ht_wf (ht_del t k)" "ht_key_size (ht_del t k) = ht_key_size t"
      "ht_value_size (ht_del t k) = ht_value_size t"
      "ht_get (ht_del t k) k' = (if k' = k then None else ht_get t k')"
    using ht_put_ok [of t k v k'] ht_del_ok [of t k k'] by (auto simp: ht_fits_def)
  show "ht_wf (ht_put t k v)" and "ht_wf (ht_del t k)" by (fact p d)+
  show "ht_fits (ht_put t k v) k' v' = ht_fits t k' v'"
    and "ht_fits (ht_del t k) k' v' = ht_fits t k' v'"
    using p d by (simp_all add: ht_fits_def)
  show "ht_get (ht_put t k v) k' = (if k' = k then Some v else ht_get t k')"
    and "ht_get (ht_del t k) k' = (if k' = k then None else ht_get t k')"
    by (fact p d)+
qed

subsection \<open>Properties\<close>

text \<open>
  C15: insertion into a well-formed hash table whose allocations succeed never faults, keeps the table well formed, and
  is seen by every later lookup; no other key changes its value, even if the table grows.
\<close>

theorem ht_insert_lookup:
  assumes "ht_wf t" and "length k = ht_key_size t" and "length v = ht_value_size t"
    and "length k' = ht_key_size t"
  shows "\<exists>r t'. ht_insert True True t k v = Inr (r, t') \<and> ht_wf t' \<and>
    ht_lookup t' k' = (if k' = k then Inr (Some v) else ht_lookup t k')"
proof (rule ht_insert_ok [OF assms(1-3)])
  fix r t'
  assume a: "ht_insert True True t k v = Inr (r, t')" "ht_wf t'" "ht_key_size t' = ht_key_size t"
    and g: "\<And>k'. ht_get t' k' = (if k' = k then Some v else ht_get t k')"
  have "ht_lookup t' k' = Inr (ht_get t' k')" "ht_lookup t k' = Inr (ht_get t k')"
    using a assms by (simp_all add: ht_lookup_ok)
  with a g show ?thesis by auto
qed

definition demo_table :: dyn_htable where
  "demo_table = snd (ht_setup True 2 1 0)"

lemma demo_table_wf: "ht_wf demo_table" "ht_key_size demo_table = 2" "ht_value_size demo_table = 1"
  using ht_setup_ok [of 2 1 0] by (simp_all add: demo_table_def prod_eq_iff)

theorem ht_insert_lookup_witness:
  "\<exists>r t'. ht_insert True True demo_table [1, 2] [3] = Inr (r, t') \<and> ht_lookup t' [1, 2] = Inr (Some [3])"
  using ht_insert_lookup [of demo_table "[1, 2]" "[3]" "[1, 2]"] demo_table_wf by auto

text \<open>
  Erasing a key never faults, makes exactly that key absent, and keeps the table well
  formed, whether or not the table shrinks.
\<close>

theorem ht_erase_lookup:
  assumes "ht_wf t" and "length k = ht_key_size t" and "length k' = ht_key_size t"
  shows "\<exists>t'. ht_erase True t k = Inr (0, t') \<and> ht_wf t' \<and>
    ht_lookup t' k' = (if k' = k then Inr None else ht_lookup t k')"
proof (rule ht_erase_ok [OF assms(1,2)])
  fix t'
  assume a: "ht_erase True t k = Inr (0, t')" "ht_wf t'" "ht_key_size t' = ht_key_size t"
    and g: "\<And>k'. ht_get t' k' = (if k' = k then None else ht_get t k')"
  have "ht_lookup t' k' = Inr (ht_get t' k')" "ht_lookup t k' = Inr (ht_get t k')"
    using a assms by (simp_all add: ht_lookup_ok)
  with a g show ?thesis by auto
qed

theorem ht_erase_lookup_witness:
  "\<exists>t'. ht_erase True demo_table [1, 2] = Inr (0, t') \<and> ht_lookup t' [1, 2] = Inr None"
  using ht_erase_lookup [of demo_table "[1, 2]" "[1, 2]"] demo_table_wf by auto

lemmas table_eval = ht_swap_def ht_setup_def ht_allocate_def ht_is_initialized_def ht_lookup_def
  ht_hash_def ht_chain_at_def ht_insert_def ht_should_grow_def ht_push_front_def ht_create_node_def
  ht_set_chain_def ht_equal_def ht_default_compare_eq_def HT_ERROR_def HT_MINIMUM_CAPACITY_def Let_def

lemma demo_hash:
  "ht_default_hash [8] (Suc 0) = 177581" "ht_default_hash [1] (Suc 0) = 177572"
  "ht_default_hash [9] (Suc 0) = 177580"
  by (simp_all add: ht_default_hash_def)

text \<open>
  \<open>ht_swap\<close> exchanges the bucket arrays of two tables but not their capacities: a table
  of capacity 16 swapped with one of capacity 8 reads outside its bucket array.
\<close>

theorem ht_swap_out_of_bounds:
  "(case ht_swap (snd (ht_setup True 1 1 16)) (snd (ht_setup True 1 1 8)) of
      Inr (r, a, b) \<Rightarrow> r = 0 \<and> ht_lookup a [8] = Inl OutOfBounds
    | Inl _ \<Rightarrow> False)"
  by (simp add: table_eval demo_hash)

text \<open>
  An insertion that fails for lack of memory for the new node drops every node of the
  bucket: a key stored before is no longer found.
\<close>

theorem ht_insert_oom_loses_chain:
  "(case ht_insert True True (snd (ht_setup True 1 1 8)) [1] [7] of
      Inr (_, t) \<Rightarrow> ht_lookup t [1] = Inr (Some [7]) \<and>
        (case ht_insert True False t [9] [5] of
           Inr (r, t') \<Rightarrow> r = -1 \<and> ht_lookup t' [1] = Inr None
         | Inl _ \<Rightarrow> False)
    | Inl _ \<Rightarrow> False)"
  by (simp add: table_eval demo_hash)

end
