(* ===== verification/Prot.thy ===== *)
theory Prot
  imports Dyn_Table Dyn_Htable
begin

text \<open>
  \<open>base/prot_array.c\<close>, \<open>base/prot_table.c\<close> and \<open>base/prot_htable.c\<close>: the containers
  behind a \<open>PTHREAD_MUTEX_NORMAL\<close> mutex. A protected container is the container and the
  state of its mutex; \<open>with_mutex\<close> is the pattern lock, call, unlock that each of these
  functions is written in. Locking a held normal mutex from the thread that holds it never
  returns, the fault \<open>Deadlock\<close>.

  The lemmas: no wrapper keeps its mutex, a wrapper computes what the wrapped function does,
  \<open>prot_array_filter\<close> drops exactly the elements its callback selects, calling it with their
  original indices, and a protected hash table cannot be copied, moved or swapped with itself.
\<close>

record 'a prot =
  mtx :: bool
  obj :: 'a

definition mutex_lock :: "'a prot \<Rightarrow> fault + 'a prot" where
  "mutex_lock p = (if mtx p then Inl Deadlock else Inr (p\<lparr>mtx := True\<rparr>))"

definition mutex_unlock :: "'a prot \<Rightarrow> 'a prot" where
  "mutex_unlock p = p\<lparr>mtx := False\<rparr>"

definition with_mutex ::
  "'a prot \<Rightarrow> ('a \<Rightarrow> fault + 'r \<times> 'a) \<Rightarrow> fault + 'r \<times> 'a prot" where
  "with_mutex p f =
     bind_fault (mutex_lock p) (\<lambda>p.
     bind_fault (f (obj p)) (\<lambda>(r, x).
     Inr (r, mutex_unlock (p\<lparr>obj := x\<rparr>))))"

subsection \<open>Arrays\<close>

type_synonym 'a prot_array = "'a dyn_array prot"

definition prot_array_create :: "nat \<Rightarrow> int \<times> 'a prot_array" where
  "prot_array_create es = (0, \<lparr>mtx = False, obj = dyn_array_create es\<rparr>)"

definition prot_array_lock :: "'a prot_array \<Rightarrow> fault + 'a prot_array" where
  "prot_array_lock p = mutex_lock p"

definition prot_array_unlock :: "'a prot_array \<Rightarrow> 'a prot_array" where
  "prot_array_unlock p = mutex_unlock p"

definition prot_array_len :: "'a prot_array \<Rightarrow> fault + nat \<times> 'a prot_array" where
  "prot_array_len p = with_mutex p (\<lambda>a. Inr (len a, a))"

definition prot_array_push :: "bool \<Rightarrow> 'a prot_array \<Rightarrow> 'a \<Rightarrow> fault + int \<times> 'a prot_array" where
  "prot_array_push ok p x = with_mutex p (\<lambda>a. Inr (dyn_array_push ok a x))"

definition prot_array_index :: "'a prot_array \<Rightarrow> 'a \<Rightarrow> fault + nat \<times> 'a prot_array" where
  "prot_array_index p x = with_mutex p (\<lambda>a. Inr (dyn_array_index a x, a))"

definition prot_array_at :: "'a prot_array \<Rightarrow> nat \<Rightarrow> fault + 'a option \<times> 'a prot_array" where
  "prot_array_at p i = with_mutex p (\<lambda>a. Inr (dyn_array_at a i, a))"

text \<open>
  The callback \<open>f\<close> gets the index, the element and its context \<open>c\<close> and returns its result
  and the context; the element stays unless it returns \<open>1\<close>.
\<close>

function filter_loop ::
  "(nat \<Rightarrow> 'a \<Rightarrow> 'c \<Rightarrow> int \<times> 'c) \<Rightarrow> 'a dyn_array \<Rightarrow> nat \<Rightarrow> nat \<Rightarrow> 'c \<Rightarrow> 'c \<times> 'a dyn_array" where
  "filter_loop f a i offset c =
     (if i < len a then
        let (r, c) = f (offset + i) (elements a ! i) c in
        if r = 1 then filter_loop f (snd (dyn_array_remove a i)) i (Suc offset) c
        else filter_loop f a (Suc i) offset c
      else (c, a))"
  by pat_completeness auto
termination
  by (relation "measure (\<lambda>(f, a, i, offset, c). len a - i)")
    (auto simp: dyn_array_remove_def split: if_splits)

declare filter_loop.simps [simp del]

definition prot_array_filter ::
  "'a prot_array \<Rightarrow> (nat \<Rightarrow> 'a \<Rightarrow> 'c \<Rightarrow> int \<times> 'c) \<Rightarrow> 'c \<Rightarrow> fault + 'c \<times> 'a prot_array" where
  "prot_array_filter p f c = with_mutex p (\<lambda>a. Inr (filter_loop f a 0 0 c))"

definition prot_array_remove :: "'a prot_array \<Rightarrow> nat \<Rightarrow> fault + int \<times> 'a prot_array" where
  "prot_array_remove p i = with_mutex p (\<lambda>a. Inr (dyn_array_remove a i))"

definition prot_array_count :: "'a prot_array \<Rightarrow> 'a \<Rightarrow> fault + int \<times> 'a prot_array" where
  "prot_array_count p x = with_mutex p (\<lambda>a. Inr (dyn_array_count a x, a))"

definition prot_array_setself :: "'a prot_array \<Rightarrow> fault + unit \<times> 'a prot_array" where
  "prot_array_setself p = with_mutex p (\<lambda>a. Inr ((), dyn_array_setself a))"

definition prot_array_sort ::
  "(('a \<Rightarrow> 'a \<Rightarrow> int) \<Rightarrow> 'a list \<Rightarrow> 'a list) \<Rightarrow> 'a prot_array \<Rightarrow> ('a \<Rightarrow> 'a \<Rightarrow> int) \<Rightarrow>
   fault + unit \<times> 'a prot_array" where
  "prot_array_sort qs p cmp = with_mutex p (\<lambda>a. Inr ((), dyn_array_sort qs a cmp))"

definition prot_array_end :: "'a prot_array \<Rightarrow> 'a prot_array" where
  "prot_array_end p = p\<lparr>obj := dyn_array_end (obj p)\<rparr>"

subsection \<open>Tables\<close>

type_synonym ('k, 'v) prot_table = "('k, 'v) dyn_table prot"

definition prot_table_create :: "nat \<Rightarrow> nat \<Rightarrow> dyn_own_t \<Rightarrow> int \<times> ('k, 'v) prot_table" where
  "prot_table_create ks vs flags = (0, \<lparr>mtx = False, obj = dyn_table_create ks vs flags\<rparr>)"

definition prot_table_set ::
  "bool \<Rightarrow> bool \<Rightarrow> bool \<Rightarrow> ('k, 'v) prot_table \<Rightarrow> 'k \<Rightarrow> 'v \<Rightarrow> fault + int \<times> ('k, 'v) prot_table" where
  "prot_table_set mk mv ok p k v = with_mutex p (\<lambda>t. Inr (dyn_table_set mk mv ok t k v))"

definition prot_table_get ::
  "('k, 'v) prot_table \<Rightarrow> 'k \<Rightarrow> fault + 'v option \<times> ('k, 'v) prot_table" where
  "prot_table_get p k = with_mutex p (\<lambda>t. Inr (dyn_table_get t k, t))"

definition prot_table_remove ::
  "('k, 'v) prot_table \<Rightarrow> 'k \<Rightarrow> fault + int \<times> ('k, 'v) prot_table" where
  "prot_table_remove p k = with_mutex p (\<lambda>t. Inr (dyn_table_remove t k))"

definition prot_table_iterate ::
  "('k, 'v) prot_table \<Rightarrow> nat \<Rightarrow> fault + (('k \<times> 'v) option \<times> nat) \<times> ('k, 'v) prot_table" where
  "prot_table_iterate p inx = with_mutex p (\<lambda>t. Inr (dyn_table_iterate t inx, t))"

definition prot_table_end :: "('k, 'v) prot_table \<Rightarrow> fault + unit \<times> ('k, 'v) prot_table" where
  "prot_table_end p = with_mutex p (\<lambda>t. Inr ((), dyn_table_end t))"

subsection \<open>Hash tables\<close>

type_synonym prot_htable = "dyn_htable prot"

definition prot_ht_setup :: "bool \<Rightarrow> nat \<Rightarrow> nat \<Rightarrow> nat \<Rightarrow> int \<times> prot_htable" where
  "prot_ht_setup oka ks vs c =
     (let (r, t) = ht_setup oka ks vs c in (r, \<lparr>mtx = False, obj = t\<rparr>))"

text \<open>
  Two tables are locked in the order first, second; \<open>same\<close> says that both pointers are the
  same table.
\<close>

definition with_mutexes ::
  "bool \<Rightarrow> 'a prot \<Rightarrow> 'a prot \<Rightarrow> ('a \<Rightarrow> 'a \<Rightarrow> fault + 'r \<times> 'a \<times> 'a) \<Rightarrow>
   fault + 'r \<times> 'a prot \<times> 'a prot" where
  "with_mutexes same p q f =
     bind_fault (mutex_lock p) (\<lambda>p.
     bind_fault (mutex_lock (if same then p else q)) (\<lambda>q.
     bind_fault (f (obj p) (obj q)) (\<lambda>(r, x, y).
     Inr (r, mutex_unlock (p\<lparr>obj := x\<rparr>), mutex_unlock (q\<lparr>obj := y\<rparr>)))))"

definition prot_ht_copy ::
  "bool \<Rightarrow> bool \<Rightarrow> bool \<Rightarrow> prot_htable \<Rightarrow> prot_htable \<Rightarrow> fault + int \<times> prot_htable \<times> prot_htable" where
  "prot_ht_copy oka okn same first second =
     with_mutexes same first second
       (\<lambda>x y. map_sum id (\<lambda>(r, x'). (r, x', y)) (ht_copy oka okn x y))"

definition prot_ht_move ::
  "bool \<Rightarrow> prot_htable \<Rightarrow> prot_htable \<Rightarrow> fault + int \<times> prot_htable \<times> prot_htable" where
  "prot_ht_move same first second = with_mutexes same first second ht_move"

definition prot_ht_swap ::
  "bool \<Rightarrow> prot_htable \<Rightarrow> prot_htable \<Rightarrow> fault + int \<times> prot_htable \<times> prot_htable" where
  "prot_ht_swap same first second = with_mutexes same first second ht_swap"

definition prot_ht_destroy :: "prot_htable \<Rightarrow> fault + int \<times> prot_htable" where
  "prot_ht_destroy p = with_mutex p ht_destroy"

definition prot_ht_insert ::
  "bool \<Rightarrow> bool \<Rightarrow> prot_htable \<Rightarrow> bytes \<Rightarrow> bytes \<Rightarrow> fault + int \<times> prot_htable" where
  "prot_ht_insert oka okn p k v = with_mutex p (\<lambda>t. ht_insert oka okn t k v)"

definition prot_ht_contains :: "prot_htable \<Rightarrow> bytes \<Rightarrow> fault + int \<times> prot_htable" where
  "prot_ht_contains p k = with_mutex p (\<lambda>t. map_sum id (\<lambda>r. (r, t)) (ht_contains t k))"

definition prot_ht_lookup :: "prot_htable \<Rightarrow> bytes \<Rightarrow> fault + bytes option \<times> prot_htable" where
  "prot_ht_lookup p k = with_mutex p (\<lambda>t. map_sum id (\<lambda>r. (r, t)) (ht_lookup t k))"

definition prot_ht_const_lookup :: "prot_htable \<Rightarrow> bytes \<Rightarrow> fault + bytes option \<times> prot_htable" where
  "prot_ht_const_lookup p k = with_mutex p (\<lambda>t. map_sum id (\<lambda>r. (r, t)) (ht_const_lookup t k))"

definition prot_ht_erase :: "bool \<Rightarrow> prot_htable \<Rightarrow> bytes \<Rightarrow> fault + int \<times> prot_htable" where
  "prot_ht_erase oka p k = with_mutex p (\<lambda>t. ht_erase oka t k)"

definition prot_ht_clear :: "bool \<Rightarrow> prot_htable \<Rightarrow> fault + int \<times> prot_htable" where
  "prot_ht_clear oka p = with_mutex p (ht_clear oka)"

definition prot_ht_is_empty :: "prot_htable \<Rightarrow> fault + int \<times> prot_htable" where
  "prot_ht_is_empty p = with_mutex p (\<lambda>t. Inr (ht_is_empty t, t))"

definition prot_ht_is_initialized :: "prot_htable \<Rightarrow> fault + bool \<times> prot_htable" where
  "prot_ht_is_initialized p = with_mutex p (\<lambda>t. Inr (ht_is_initialized t, t))"

definition prot_ht_reserve :: "bool \<Rightarrow> prot_htable \<Rightarrow> nat \<Rightarrow> fault + int \<times> prot_htable" where
  "prot_ht_reserve oka p n = with_mutex p (\<lambda>t. ht_reserve oka t n)"

subsection \<open>Lock discipline\<close>

lemma with_mutex_free:
  "\<not> mtx p \<Longrightarrow>
   with_mutex p f = map_sum id (\<lambda>(r, x). (r, \<lparr>mtx = False, obj = x\<rparr>)) (f (obj p))"
  by (cases p; cases "f (obj p)")
    (auto simp: with_mutex_def mutex_lock_def mutex_unlock_def)

lemma with_mutex_released: "with_mutex p f = Inr (r, p') \<Longrightarrow> \<not> mtx p'"
  by (auto simp: with_mutex_def mutex_unlock_def bind_fault_Inr_iff)

lemma with_mutex_held: "mtx p \<Longrightarrow> with_mutex p f = Inl Deadlock"
  by (simp add: with_mutex_def mutex_lock_def)

lemma with_mutexes_same: "with_mutexes True p p f = Inl Deadlock"
  by (simp add: with_mutexes_def mutex_lock_def)

subsection \<open>Filtering\<close>

text \<open>What \<open>prot_array_filter\<close> promises: one call for each element, in order, at its index.\<close>

fun filter_spec :: "(nat \<Rightarrow> 'a \<Rightarrow> 'c \<Rightarrow> int \<times> 'c) \<Rightarrow> nat \<Rightarrow> 'a list \<Rightarrow> 'c \<Rightarrow> 'c \<times> 'a list" where
  "filter_spec f i [] c = (c, [])"
| "filter_spec f i (x # xs) c =
     (let (r, c) = f i x c; (c, ys) = filter_spec f (Suc i) xs c
      in (c, if r = 1 then ys else x # ys))"

lemma filter_loop_spec:
  assumes "i \<le> len a"
  shows "filter_spec f (offset + i) (drop i (elements a)) c =
      (fst (filter_loop f a i offset c), drop i (elements (snd (filter_loop f a i offset c)))) \<and>
    take i (elements (snd (filter_loop f a i offset c))) = take i (elements a)"
  using assms
proof (induction f a i offset c rule: filter_loop.induct)
  case (1 f a i offset c)
  show ?case
  proof (cases "i < len a")
    case False
    with "1.prems" show ?thesis
      by (simp add: filter_loop.simps [of f a "len a"])
  next
    case True
    obtain r c' where r: "f (offset + i) (elements a ! i) c = (r, c')"
      by fastforce
    have drop: "drop i (elements a) = elements a ! i # drop (Suc i) (elements a)"
      using True by (simp add: Cons_nth_drop_Suc)
    show ?thesis
    proof (cases "r = 1")
      case removed: True
      let ?b = "snd (dyn_array_remove a i)"
      have el: "elements ?b = take i (elements a) @ drop (Suc i) (elements a)"
        using True by (rule elements_remove)
      then have "i \<le> len ?b" using True by simp
      from "1.IH"(1) [OF True r [symmetric] refl removed this] show ?thesis
        using True r removed
        by (simp add: filter_loop.simps [of f a i] drop el split_beta)
    next
      case kept: False
      note IH = "1.IH"(2) [OF True r [symmetric] refl kept]
      let ?res = "filter_loop f a (Suc i) offset c'"
      have t: "take (Suc i) (elements (snd ?res)) = take (Suc i) (elements a)"
        using IH True by simp
      then have t': "take i (elements (snd ?res)) = take i (elements a)"
        by (metis le_add2 min.absorb1 plus_1_eq_Suc take_take)
      have long: "i < length (elements (snd ?res))"
        using arg_cong [OF t, of length] True by simp
      then have "elements (snd ?res) ! i = elements a ! i"
        using t True by (metis lessI nth_take)
      then have "drop i (elements (snd ?res)) = elements a ! i # drop (Suc i) (elements (snd ?res))"
        using long by (metis Cons_nth_drop_Suc)
      then show ?thesis
        using IH True r kept t'
        by (simp add: filter_loop.simps [of f a i] drop split_beta)
    qed
  qed
qed

lemma filter_loop_elements:
  "elements (snd (filter_loop f a 0 0 c)) = snd (filter_spec f 0 (elements a) c) \<and>
   fst (filter_loop f a 0 0 c) = fst (filter_spec f 0 (elements a) c)"
  using filter_loop_spec [of 0 a f 0 c] by simp

lemma filter_spec_pure:
  "filter_spec (\<lambda>i x c. (if P x then 1 else 0, c)) i xs c = (c, filter (\<lambda>x. \<not> P x) xs)"
  by (induction xs arbitrary: i) auto

lemma prot_ht_self_deadlock:
  "prot_ht_copy oka okn True p p = Inl Deadlock" "prot_ht_move True p p = Inl Deadlock"
  "prot_ht_swap True p p = Inl Deadlock"
  by (simp_all add: prot_ht_copy_def prot_ht_move_def prot_ht_swap_def with_mutexes_same)

subsection \<open>Properties\<close>

text \<open>
  \<open>prot_array_filter\<close> calls its callback once for each element, in order, with the index
  the element had before the call, removes those it returns \<open>1\<close> for, keeps the order of
  the others, and releases the mutex.
\<close>

theorem prot_array_filter_ok:
  assumes "\<not> mtx p"
  shows "\<exists>a. prot_array_filter p f c = Inr (fst (filter_spec f 0 (elements (obj p)) c), \<lparr>mtx = False, obj = a\<rparr>) \<and>
    elements a = snd (filter_spec f 0 (elements (obj p)) c)"
  using assms filter_loop_elements [of f "obj p" c]
  by (simp add: prot_array_filter_def with_mutex_free split_beta)

theorem prot_array_filter_ok_witness:
  "\<exists>a. prot_array_filter \<lparr>mtx = False, obj = \<lparr>elements = [5, 6, 7 :: nat], da_cap = 4, da_head = 4, element_size = 8\<rparr>\<rparr>
     (\<lambda>i x c. (if i = 1 then 1 else 0, c + x)) 0 = Inr (18, \<lparr>mtx = False, obj = a\<rparr>) \<and> elements a = [5, 7]"
  using prot_array_filter_ok [of "\<lparr>mtx = False, obj = \<lparr>elements = [5, 6, 7 :: nat], da_cap = 4, da_head = 4, element_size = 8\<rparr>\<rparr>"
      "\<lambda>i x c. (if i = 1 then 1 else 0, c + x)" 0]
  by simp

text \<open>
  Copying, moving or swapping a protected hash table with itself locks its mutex twice
  and never returns.
\<close>

theorem prot_ht_self_never_returns:
  "prot_ht_copy oka okn True p p = Inl Deadlock \<and> prot_ht_move True p p = Inl Deadlock \<and>
   prot_ht_swap True p p = Inl Deadlock"
  by (simp add: prot_ht_self_deadlock)

end
