(* ===== verification/Prot_Queue.thy ===== *)
theory Prot_Queue
  imports Prot
begin

text \<open>
  \<open>base/prot_queue.c\<close>: the queue every thread of the program hands its packets through, a
  ring buffer inside a protected array. \<open>elements\<close> of the inner array is the whole ring
  (the C code sets \<open>len\<close> to its capacity), \<open>pq_head\<close> the index of the front, \<open>pq_tail\<close>
  that of the next free slot and \<open>pq_count\<close> the number of queued elements. Fresh memory
  (\<open>calloc\<close>, the upper half of a grown ring) holds the value \<open>z\<close>. \<open>prot_queue_pop\<close> returns
  the element it copies out, \<open>None\<close> for the result \<open>-1\<close>.

  \<open>ring\<close> reads the queue as a list; the lemmas show that the operations implement the
  list operations on it, growth at a wrapped-around position included, and the queue is
  interpreted as \<open>fifo\<close>.
\<close>

record 'a prot_queue =
  pq_arr :: "'a prot_array"
  pq_head :: nat
  pq_tail :: nat
  pq_count :: nat

abbreviation slots :: "'a prot_queue \<Rightarrow> 'a list" where
  "slots q \<equiv> elements (obj (pq_arr q))"

abbreviation pq_cap :: "'a prot_queue \<Rightarrow> nat" where
  "pq_cap q \<equiv> length (slots q)"

definition pq_set_array :: "'a prot_queue \<Rightarrow> 'a list \<Rightarrow> nat \<Rightarrow> 'a prot_queue" where
  "pq_set_array q xs h =
     q\<lparr>pq_arr := (pq_arr q)\<lparr>obj := (obj (pq_arr q))\<lparr>elements := xs, da_cap := h, da_head := h\<rparr>\<rparr>\<rparr>"

definition prot_queue_create :: "bool \<Rightarrow> 'a \<Rightarrow> nat \<Rightarrow> int \<times> 'a prot_queue" where
  "prot_queue_create ok z es =
     (let (r, arr) = prot_array_create es;
          q = \<lparr>pq_arr = arr, pq_head = 0, pq_tail = 0, pq_count = 0\<rparr>
      in if \<not> ok then (-1, q\<lparr>pq_arr := prot_array_end arr\<rparr>)
         else (r, pq_set_array q (replicate 1024 z) 1024))"

definition prot_queue_grow_unsafe :: "'a \<Rightarrow> 'a prot_queue \<Rightarrow> 'a prot_queue" where
  "prot_queue_grow_unsafe z q =
     (let old_cap = pq_cap q; new_cap = old_cap * 2 in
      (pq_set_array q
        (map (\<lambda>i. if i < pq_count q then slots q ! ((pq_head q + i) mod old_cap) else z)
          [0..<new_cap]) new_cap)
      \<lparr>pq_head := 0, pq_tail := pq_count q\<rparr>)"

definition prot_queue_push_unsafe :: "'a \<Rightarrow> 'a prot_queue \<Rightarrow> 'a \<Rightarrow> int \<times> 'a prot_queue" where
  "prot_queue_push_unsafe z q x =
     (let q = (if pq_count q = pq_cap q then prot_queue_grow_unsafe z q else q);
          q = q\<lparr>pq_arr := (pq_arr q)\<lparr>obj := (obj (pq_arr q))\<lparr>elements := (slots q)[pq_tail q := x]\<rparr>\<rparr>\<rparr>
      in (0, q\<lparr>pq_tail := (pq_tail q + 1) mod pq_cap q, pq_count := pq_count q + 1\<rparr>))"

definition prot_queue_pop_unsafe :: "'a prot_queue \<Rightarrow> 'a option \<times> 'a prot_queue" where
  "prot_queue_pop_unsafe q =
     (if pq_count q = 0 then (None, q)
      else (Some (slots q ! pq_head q),
            q\<lparr>pq_head := (pq_head q + 1) mod pq_cap q, pq_count := pq_count q - 1\<rparr>))"

text \<open>The locked operations: the mutex is the one of the inner array.\<close>

definition pq_locked :: "'a prot_queue \<Rightarrow> ('a prot_queue \<Rightarrow> 'r \<times> 'a prot_queue) \<Rightarrow>
    fault + 'r \<times> 'a prot_queue" where
  "pq_locked q f =
     bind_fault (prot_array_lock (pq_arr q)) (\<lambda>a.
       let (r, q') = f (q\<lparr>pq_arr := a\<rparr>)
       in Inr (r, q'\<lparr>pq_arr := prot_array_unlock (pq_arr q')\<rparr>))"

definition prot_queue_push :: "'a \<Rightarrow> 'a prot_queue \<Rightarrow> 'a \<Rightarrow> fault + int \<times> 'a prot_queue" where
  "prot_queue_push z q x =
     bind_fault (prot_array_lock (pq_arr q)) (\<lambda>a.
       let q = q\<lparr>pq_arr := a\<rparr>;
           q = (if pq_count q = pq_cap q then prot_queue_grow_unsafe z q else q);
           q = q\<lparr>pq_arr := (pq_arr q)\<lparr>obj := (obj (pq_arr q))\<lparr>elements := (slots q)[pq_tail q := x]\<rparr>\<rparr>\<rparr>
       in if \<not> 0 < pq_cap q then Inl AssertFail
          else
            let q = q\<lparr>pq_tail := (pq_tail q + 1) mod pq_cap q, pq_count := pq_count q + 1\<rparr>
            in Inr (0, q\<lparr>pq_arr := prot_array_unlock (pq_arr q)\<rparr>))"

definition prot_queue_upush :: "'a \<Rightarrow> 'a prot_queue \<Rightarrow> 'a \<Rightarrow> fault + int \<times> 'a prot_queue" where
  "prot_queue_upush z q x =
     pq_locked q (\<lambda>q.
       if list_ex (\<lambda>i. slots q ! ((pq_head q + i) mod pq_cap q) = x) [0..<pq_count q] then (0, q)
       else (0, snd (prot_queue_push_unsafe z q x)))"

definition prot_queue_pop :: "'a prot_queue \<Rightarrow> fault + 'a option \<times> 'a prot_queue" where
  "prot_queue_pop q = pq_locked q prot_queue_pop_unsafe"

definition prot_queue_len :: "'a prot_queue \<Rightarrow> fault + nat \<times> 'a prot_queue" where
  "prot_queue_len q = pq_locked q (\<lambda>q. (pq_count q, q))"

text \<open>\<open>prot_queue_peek\<close> tests for emptiness before it locks.\<close>

definition prot_queue_peek :: "'a prot_queue \<Rightarrow> fault + 'a option \<times> 'a prot_queue" where
  "prot_queue_peek q =
     (if pq_count q = 0 then Inr (None, q)
      else pq_locked q (\<lambda>q. (Some (slots q ! pq_head q), q)))"

definition prot_queue_end :: "'a prot_queue \<Rightarrow> 'a prot_queue" where
  "prot_queue_end q = q\<lparr>pq_arr := prot_array_end (pq_arr q)\<rparr>"

subsection \<open>The queue as a list\<close>

definition ring :: "'a prot_queue \<Rightarrow> 'a list" where
  "ring q = map (\<lambda>i. slots q ! ((pq_head q + i) mod pq_cap q)) [0..<pq_count q]"

definition pq_wf :: "'a prot_queue \<Rightarrow> bool" where
  "pq_wf q \<longleftrightarrow> \<not> mtx (pq_arr q) \<and> 0 < pq_cap q \<and> pq_count q \<le> pq_cap q \<and> pq_head q < pq_cap q \<and>
     pq_tail q = (pq_head q + pq_count q) mod pq_cap q"

definition pq_ok :: "'a prot_queue \<Rightarrow> bool" where
  "pq_ok q \<longleftrightarrow> 0 < pq_cap q \<and> pq_count q \<le> pq_cap q \<and> pq_head q < pq_cap q \<and>
     pq_tail q = (pq_head q + pq_count q) mod pq_cap q"

lemma pq_wf_iff: "pq_wf q \<longleftrightarrow> \<not> mtx (pq_arr q) \<and> pq_ok q"
  by (simp add: pq_wf_def pq_ok_def)

lemma length_ring [simp]: "length (ring q) = pq_count q"
  by (simp add: ring_def)

lemma pq_create_ok:
  "fst (prot_queue_create True z es) = 0 \<and> pq_wf (snd (prot_queue_create True z es)) \<and>
   ring (snd (prot_queue_create True z es)) = []"
  by (simp add: prot_queue_create_def prot_array_create_def pq_wf_def pq_set_array_def ring_def Let_def)

lemma pq_grow_ok:
  assumes "pq_ok q"
  shows "pq_ok (prot_queue_grow_unsafe z q)" and "ring (prot_queue_grow_unsafe z q) = ring q"
    and "pq_count (prot_queue_grow_unsafe z q) = pq_count q"
    and "pq_count (prot_queue_grow_unsafe z q) < pq_cap (prot_queue_grow_unsafe z q)"
    and "mtx (pq_arr (prot_queue_grow_unsafe z q)) = mtx (pq_arr q)"
  using assms
  by (simp_all add: prot_queue_grow_unsafe_def pq_ok_def pq_set_array_def ring_def Let_def)

lemma ring_index_inj:
  fixes h c i j :: nat
  assumes "i < j" "j < c"
  shows "(h + i) mod c \<noteq> (h + j) mod c"
proof
  assume "(h + i) mod c = (h + j) mod c"
  then have "c dvd (h + j) - (h + i)"
    using assms(1) by (metis add_left_mono less_imp_le mod_eq_dvd_iff_nat)
  then have "c dvd j - i" by simp
  then have "c \<le> j - i" using assms(1) by (intro dvd_imp_le) simp_all
  with assms show False by linarith
qed

lemma pq_store_ok:
  fixes q :: "'a prot_queue" and x :: 'a
  assumes ok: "pq_ok q" and room: "pq_count q < pq_cap q"
  defines "q' \<equiv> q\<lparr>pq_arr := (pq_arr q)\<lparr>obj := (obj (pq_arr q))\<lparr>elements := (slots q)[pq_tail q := x]\<rparr>\<rparr>,
      pq_tail := (pq_tail q + 1) mod pq_cap q, pq_count := pq_count q + 1\<rparr>"
  shows "pq_ok q'" and "ring q' = ring q @ [x]"
proof -
  have tail: "pq_tail q < pq_cap q" "pq_tail q = (pq_head q + pq_count q) mod pq_cap q"
    using ok by (simp_all add: pq_ok_def)
  show "pq_ok q'"
    using ok room by (simp add: q'_def pq_ok_def mod_Suc_eq)
  have old: "(slots q)[pq_tail q := x] ! ((pq_head q + i) mod pq_cap q) =
      slots q ! ((pq_head q + i) mod pq_cap q)" if "i < pq_count q" for i
  proof -
    have "(pq_head q + i) mod pq_cap q \<noteq> pq_tail q"
      using ring_index_inj [of i "pq_count q" "pq_cap q" "pq_head q"] that room tail(2) by simp
    then show ?thesis by (metis nth_list_update_neq)
  qed
  have "(slots q)[pq_tail q := x] ! ((pq_head q + pq_count q) mod pq_cap q) = x"
    using tail by simp
  then show "ring q' = ring q @ [x]"
    using old by (simp add: q'_def ring_def)
qed

lemma pq_push_unsafe_ok:
  assumes "pq_ok q"
  shows "pq_ok (snd (prot_queue_push_unsafe z q x))"
    and "ring (snd (prot_queue_push_unsafe z q x)) = ring q @ [x]"
proof -
  define p where "p = (if pq_count q = pq_cap q then prot_queue_grow_unsafe z q else q)"
  have p: "pq_ok p" "pq_count p < pq_cap p" "ring p = ring q"
    using assms pq_grow_ok [OF assms, of z] by (auto simp: p_def pq_ok_def)
  then show "pq_ok (snd (prot_queue_push_unsafe z q x))"
    and "ring (snd (prot_queue_push_unsafe z q x)) = ring q @ [x]"
    using pq_store_ok [OF p(1,2), of x]
    by (simp_all add: prot_queue_push_unsafe_def Let_def p_def [symmetric])
qed

lemma pq_pop_unsafe_ok:
  assumes "pq_ok q"
  shows "ring q = [] \<Longrightarrow> prot_queue_pop_unsafe q = (None, q)"
    and "ring q = x # xs \<Longrightarrow>
      \<exists>q'. prot_queue_pop_unsafe q = (Some x, q') \<and> pq_ok q' \<and> ring q' = xs \<and> mtx (pq_arr q') = mtx (pq_arr q)"
proof -
  show "ring q = [] \<Longrightarrow> prot_queue_pop_unsafe q = (None, q)"
    using length_ring [of q] by (simp add: prot_queue_pop_unsafe_def)
next
  assume front: "ring q = x # xs"
  then have pos: "0 < pq_count q" "length xs = pq_count q - 1"
    using length_ring [of q] by auto
  have nth: "ring q ! i = slots q ! ((pq_head q + i) mod pq_cap q)" if "i < pq_count q" for i
    using that by (simp add: ring_def)
  define q' where "q' = q\<lparr>pq_head := (pq_head q + 1) mod pq_cap q, pq_count := pq_count q - 1\<rparr>"
  have x: "x = slots q ! pq_head q"
    using nth [OF pos(1)] front assms by (simp add: pq_ok_def)
  obtain n where n: "pq_count q = Suc n" using pos(1) gr0_conv_Suc by blast
  have "(pq_head q + Suc n) mod pq_cap q = ((pq_head q + 1) mod pq_cap q + n) mod pq_cap q"
    by (simp add: mod_add_left_eq)
  then have ok': "pq_ok q'"
    using assms n by (simp add: q'_def pq_ok_def)
  have "ring q' ! i = xs ! i" if "i < length xs" for i
  proof -
    have "ring q ! Suc i = slots q ! ((pq_head q + Suc i) mod pq_cap q)"
      using nth [of "Suc i"] that pos by simp
    moreover have "((pq_head q + 1) mod pq_cap q + i) mod pq_cap q = (pq_head q + Suc i) mod pq_cap q"
      by (simp add: mod_add_left_eq)
    moreover have "ring q' ! i = slots q ! (((pq_head q + 1) mod pq_cap q + i) mod pq_cap q)"
      using that pos by (simp add: q'_def ring_def)
    ultimately show ?thesis using front by simp
  qed
  then have "ring q' = xs"
    using pos by (intro nth_equalityI) (simp_all add: q'_def)
  with ok' x pos show "\<exists>q'. prot_queue_pop_unsafe q = (Some x, q') \<and> pq_ok q' \<and> ring q' = xs \<and>
      mtx (pq_arr q') = mtx (pq_arr q)"
    by (intro exI [of _ q']) (simp add: prot_queue_pop_unsafe_def q'_def)
qed

subsection \<open>The locked operations\<close>

lemma pq_set_mtx [simp]:
  "pq_ok (q\<lparr>pq_arr := (pq_arr q)\<lparr>mtx := b\<rparr>\<rparr>) = pq_ok q"
  "ring (q\<lparr>pq_arr := (pq_arr q)\<lparr>mtx := b\<rparr>\<rparr>) = ring q"
  by (simp_all add: pq_ok_def ring_def)

lemma pq_locked_free:
  assumes "\<not> mtx (pq_arr q)"
  shows "pq_locked q f =
    (let (r, q') = f (q\<lparr>pq_arr := (pq_arr q)\<lparr>mtx := True\<rparr>\<rparr>)
     in Inr (r, q'\<lparr>pq_arr := (pq_arr q')\<lparr>mtx := False\<rparr>\<rparr>))"
  using assms by (simp add: pq_locked_def prot_array_lock_def mutex_lock_def
      prot_array_unlock_def mutex_unlock_def split_beta Let_def)

lemma fst_push_unsafe [simp]: "fst (prot_queue_push_unsafe z q x) = 0"
  by (simp add: prot_queue_push_unsafe_def Let_def)

lemma push_as_unsafe:
  assumes "pq_wf q"
  shows "prot_queue_push z q x = pq_locked q (\<lambda>q. prot_queue_push_unsafe z q x)"
proof -
  let ?q = "q\<lparr>pq_arr := (pq_arr q)\<lparr>mtx := True\<rparr>\<rparr>"
  have "pq_ok ?q" using assms by (simp add: pq_wf_iff)
  then have "slots (prot_queue_grow_unsafe z ?q) \<noteq> []" "slots q \<noteq> []"
    using pq_grow_ok(1) [of ?q z] by (auto simp: pq_ok_def)
  with assms show ?thesis
    by (cases "pq_count q = pq_cap q")
      (simp_all add: pq_locked_free pq_wf_iff prot_queue_push_def prot_array_lock_def mutex_lock_def
        prot_array_unlock_def mutex_unlock_def prot_queue_push_unsafe_def Let_def)
qed

lemma prot_queue_push_ok:
  assumes "pq_wf q"
  shows "\<exists>q'. prot_queue_push z q x = Inr (0, q') \<and> pq_wf q' \<and> ring q' = ring q @ [x]"
proof -
  let ?q = "q\<lparr>pq_arr := (pq_arr q)\<lparr>mtx := True\<rparr>\<rparr>"
  have "pq_ok ?q" using assms by (simp add: pq_wf_iff)
  from pq_push_unsafe_ok [OF this, of z x] show ?thesis
    using assms by (simp add: push_as_unsafe pq_locked_free pq_wf_iff split_beta Let_def)
qed

lemma ring_list_ex:
  "list_ex (\<lambda>i. slots q ! ((pq_head q + i) mod pq_cap q) = x) [0..<pq_count q] \<longleftrightarrow> x \<in> set (ring q)"
  by (auto simp: list_ex_iff ring_def)

lemma prot_queue_upush_ok:
  assumes "pq_wf q"
  shows "\<exists>q'. prot_queue_upush z q x = Inr (0, q') \<and> pq_wf q' \<and>
    ring q' = (if x \<in> set (ring q) then ring q else ring q @ [x])"
proof -
  let ?q = "q\<lparr>pq_arr := (pq_arr q)\<lparr>mtx := True\<rparr>\<rparr>"
  have ok: "pq_ok ?q" using assms by (simp add: pq_wf_iff)
  have ex: "list_ex (\<lambda>i. slots ?q ! ((pq_head ?q + i) mod pq_cap ?q) = x) [0..<pq_count ?q] \<longleftrightarrow> x \<in> set (ring q)"
    unfolding ring_list_ex by simp
  show ?thesis
    using assms pq_push_unsafe_ok [OF ok, of z x] ok
    unfolding prot_queue_upush_def
    by (subst pq_locked_free) (simp_all only: ex split: if_split, auto simp: pq_wf_iff)
qed

lemma prot_queue_pop_ok:
  assumes "pq_wf q"
  shows "ring q = [] \<Longrightarrow> prot_queue_pop q = Inr (None, q)"
    and "ring q = x # xs \<Longrightarrow> \<exists>q'. prot_queue_pop q = Inr (Some x, q') \<and> pq_wf q' \<and> ring q' = xs"
proof -
  let ?q = "q\<lparr>pq_arr := (pq_arr q)\<lparr>mtx := True\<rparr>\<rparr>"
  have ok: "pq_ok ?q" and free: "\<not> mtx (pq_arr q)" using assms by (simp_all add: pq_wf_iff)
  show "ring q = [] \<Longrightarrow> prot_queue_pop q = Inr (None, q)"
    using pq_pop_unsafe_ok(1) [OF ok] free by (simp add: prot_queue_pop_def pq_locked_free)
  show "\<exists>q'. prot_queue_pop q = Inr (Some x, q') \<and> pq_wf q' \<and> ring q' = xs" if "ring q = x # xs"
    using pq_pop_unsafe_ok(2) [OF ok, of x xs] free that
    by (auto simp: prot_queue_pop_def pq_locked_free pq_wf_iff)
qed

lemma prot_queue_len_ok: "pq_wf q \<Longrightarrow> prot_queue_len q = Inr (length (ring q), q)"
  by (simp add: prot_queue_len_def pq_locked_free pq_wf_iff)

lemma prot_queue_peek_ok:
  assumes "pq_wf q"
  shows "prot_queue_peek q = Inr (case ring q of [] \<Rightarrow> None | x # _ \<Rightarrow> Some x, q)"
proof (cases "pq_count q")
  case 0
  then show ?thesis by (simp add: prot_queue_peek_def ring_def)
next
  case (Suc n)
  then have "ring q = slots q ! (pq_head q mod pq_cap q) #
      map (\<lambda>i. slots q ! ((pq_head q + i) mod pq_cap q)) [1..<pq_count q]"
    by (simp add: ring_def upt_conv_Cons del: upt_Suc)
  with Suc assms show ?thesis
    by (simp add: prot_queue_peek_def pq_locked_free pq_wf_def)
qed

text \<open>The queue as its users see it: when the mutex is free neither operation faults.\<close>

definition pq_push :: "'a \<Rightarrow> 'a prot_queue \<Rightarrow> 'a \<Rightarrow> 'a prot_queue" where
  "pq_push z q x = (case prot_queue_push z q x of Inr (_, q') \<Rightarrow> q' | Inl _ \<Rightarrow> q)"

definition pq_pop :: "'a prot_queue \<Rightarrow> 'a option \<times> 'a prot_queue" where
  "pq_pop q = (case prot_queue_pop q of Inr r \<Rightarrow> r | Inl _ \<Rightarrow> (None, q))"

interpretation pq: fifo ring pq_wf "pq_push z" pq_pop
proof unfold_locales
  fix q :: "'a prot_queue" and x xs
  assume wf: "pq_wf q"
  obtain q' where "prot_queue_push z q x = Inr (0, q')" "pq_wf q'" "ring q' = ring q @ [x]"
    using prot_queue_push_ok [OF wf] by blast
  then show "pq_wf (pq_push z q x)" and "ring (pq_push z q x) = ring q @ [x]"
    by (simp_all add: pq_push_def)
  show "ring q = [] \<Longrightarrow> pq_pop q = (None, q)"
    using prot_queue_pop_ok(1) [OF wf] by (simp add: pq_pop_def)
  show "ring q = x # xs \<Longrightarrow> \<exists>q'. pq_pop q = (Some x, q') \<and> pq_wf q' \<and> ring q' = xs"
    using prot_queue_pop_ok(2) [OF wf, of x xs] by (auto simp: pq_pop_def)
qed

subsection \<open>Properties\<close>

text \<open>
  C14: the queue is first in, first out: after any pushes, popping until the queue is empty
  returns what was queued and then what was pushed, each once, in order, at any rotation of
  the ring and across its growth.
\<close>

theorem prot_queue_fifo:
  assumes "pq_wf q" and "length (ring q @ xs) < n"
  shows "fst (drain pq_pop n (foldl (pq_push z) q xs)) = ring q @ xs"
  using assms by (rule pq.push_all_drain)

definition demo_queue :: "nat prot_queue" where
  "demo_queue = \<lparr>pq_arr = \<lparr>mtx = False, obj = \<lparr>elements = [7, 8], da_cap = 2, da_head = 2, element_size = 8\<rparr>\<rparr>,
     pq_head = 1, pq_tail = 1, pq_count = 2\<rparr>"

lemma demo_queue_wf: "pq_wf demo_queue" "ring demo_queue = [8, 7]"
  by code_simp+

theorem prot_queue_fifo_witness:
  "fst (drain pq_pop 5 (foldl (pq_push 0) demo_queue [1, 2])) = [8, 7, 1, 2]"
  using prot_queue_fifo [of demo_queue "[1, 2]" 5 0] demo_queue_wf by simp

text \<open>
  \<open>prot_queue_upush\<close> keeps the queue free of duplicates: it returns with the mutex free,
  appends an element that is not queued, and leaves the queue as it is otherwise.
\<close>

theorem prot_queue_upush_unique:
  assumes "pq_wf q" and "distinct (ring q)"
  shows "\<exists>q'. prot_queue_upush z q x = Inr (0, q') \<and> pq_wf q' \<and> distinct (ring q') \<and>
    set (ring q') = insert x (set (ring q))"
  using prot_queue_upush_ok [OF assms(1), of z x] assms(2) by auto

theorem prot_queue_upush_unique_witness:
  "\<exists>q'. prot_queue_upush 0 demo_queue 9 = Inr (0, q') \<and> set (ring q') = {7, 8, 9}"
  using prot_queue_upush_unique [of demo_queue 0 9] demo_queue_wf by auto

end
