(* ===== verification/Rudp_Disp.thy ===== *)
theory Rudp_Disp
  imports Rudp_Conn Prot_Queue "HOL-Library.Multiset"
begin

text \<open>
  \<open>rudp/src/dispatcher.c\<close>: the table of connections and the worker that routes received
  packets to them.

  Connections live on a heap, \<open>heap\<close>, and the table maps a peer's UID to the address of its
  connection (\<open>None\<close> for a \<open>NULL\<close> pointer), so that a pointer the host program got from
  \<open>rudp_get_connection\<close> can outlive its connection: reading a freed address is the fault
  \<open>UseAfterFree\<close>. The table keeps its mutex. \<open>rand()\<close> is the argument \<open>rnd\<close>.
  \<open>rudp_dispatcher_iter\<close> is one iteration of the worker thread's loop.
\<close>

record 'fd rudp_dispatcher =
  d_sender :: "'fd pvd_sender"
  passed_pkts :: "protopack list"
  ev_passed :: mt_eventsock
  connections :: "(u32, nat option) prot_table"
  self_uid :: u32
  is_running :: bool
  heap :: "nat \<Rightarrow> 'fd rudp_connection option"
  next_addr :: nat

definition rudp_dispatcher_new :: "'fd pvd_sender \<Rightarrow> u32 \<Rightarrow> int \<times> 'fd rudp_dispatcher" where
  "rudp_dispatcher_new snder uid =
     (0, \<lparr>d_sender = snder, passed_pkts = [], ev_passed = snd mt_evsock_new,
          connections = snd (prot_table_create 4 8 DYN_OWN_BOTH), self_uid = uid,
          is_running = False, heap = (\<lambda>_. None), next_addr = 0\<rparr>)"

text \<open>\<open>conn->...\<close> through a pointer.\<close>

definition load :: "'fd rudp_dispatcher \<Rightarrow> nat \<Rightarrow> fault + 'fd rudp_connection" where
  "load d a = (case heap d a of None \<Rightarrow> Inl UseAfterFree | Some c \<Rightarrow> Inr c)"

definition store :: "'fd rudp_dispatcher \<Rightarrow> nat \<Rightarrow> 'fd rudp_connection \<Rightarrow> 'fd rudp_dispatcher" where
  "store d a c = d\<lparr>heap := (heap d)(a := Some c)\<rparr>"

definition rudp_est_connection ::
  "'fd rudp_dispatcher \<Rightarrow> u32 \<Rightarrow> 'fd \<Rightarrow> int \<Rightarrow> fault + int \<times> nat \<times> 'fd rudp_dispatcher" where
  "rudp_est_connection d other_UID fd now =
     (let a = next_addr d;
          d = (store d a (rudp_conn_new (self_uid d) other_UID fd now))\<lparr>next_addr := a + 1\<rparr>
      in bind_fault (prot_table_set True True True (connections d) other_UID (Some a)) (\<lambda>(_, t).
           Inr (0, a, d\<lparr>connections := t\<rparr>)))"

text \<open>A successful call returns the connection's address.\<close>

definition rudp_get_connection ::
  "'fd rudp_dispatcher \<Rightarrow> u32 \<Rightarrow> nat \<Rightarrow> fault + int \<times> nat option \<times> 'fd rudp_dispatcher" where
  "rudp_get_connection d UID rnd =
     (if UID = UINT32_MAX then
        bind_fault (mutex_lock (connections d)) (\<lambda>t.
          let arr = dt_array (obj t) in
          if len arr = 0 then Inl DivByZero
          else case dyn_array_at arr (rnd mod len arr) of
                 None \<Rightarrow> Inr (-1, None, d\<lparr>connections := t\<rparr>)
               | Some (_, p) \<Rightarrow>
                   Inr (if p = None then -1 else 0, p, d\<lparr>connections := mutex_unlock t\<rparr>))
      else
        bind_fault (prot_table_get (connections d) UID) (\<lambda>(ptr, t).
          case ptr of
            Some (Some a) \<Rightarrow> Inr (0, Some a, d\<lparr>connections := t\<rparr>)
          | _ \<Rightarrow> Inr (-1, None, d\<lparr>connections := t\<rparr>)))"

definition rudp_close_conncetion ::
  "'fd rudp_dispatcher \<Rightarrow> u32 \<Rightarrow> fault + int \<times> 'fd rudp_dispatcher" where
  "rudp_close_conncetion d UID =
     bind_fault (prot_table_get (connections d) UID) (\<lambda>(conn, t).
       let d = d\<lparr>connections := t\<rparr>;
           remove = (\<lambda>d. bind_fault (prot_table_remove (connections d) UID)
                            (\<lambda>(r, t). Inr (r, d\<lparr>connections := t\<rparr>)))
       in case conn of
            None \<Rightarrow> Inr (-1, d)
          | Some None \<Rightarrow> remove d
          | Some (Some a) \<Rightarrow>
              bind_fault (load d a) (\<lambda>c.
              bind_fault (rudp_conn_close c (d_sender d)) (\<lambda>(_, s).
              remove (d\<lparr>d_sender := s, heap := (heap d)(a := None)\<rparr>))))"

definition rudp_dispatcher_pass ::
  "'fd rudp_dispatcher \<Rightarrow> protopack option \<Rightarrow> int \<times> 'fd rudp_dispatcher" where
  "rudp_dispatcher_pass d pkt =
     (case pkt of
        None \<Rightarrow> (-1, d)
      | Some p \<Rightarrow> (0, d\<lparr>passed_pkts := passed_pkts d @ [p],
                        ev_passed := mt_evsock_notify (ev_passed d)\<rparr>))"

definition rudp_dispatcher_run :: "int \<Rightarrow> 'fd rudp_dispatcher \<Rightarrow> int \<times> 'fd rudp_dispatcher" where
  "rudp_dispatcher_run r d = (r, d\<lparr>is_running := \<not> r < 0\<rparr>)"

subsection \<open>The packet handlers\<close>

definition clamp :: "u32 \<Rightarrow> u32 \<Rightarrow> u32 \<Rightarrow> u32" where
  "clamp a b c = (if a < b then b else if c < a then c else a)"

text \<open>The threshold after an acknowledgement for \<open>packets_count\<close> packets was sent.\<close>

definition next_threshold :: "int \<Rightarrow> u32 \<Rightarrow> u32 \<Rightarrow> u32" where
  "next_threshold avg packets_count th =
     (let th = (if avg < 30 then if th < 16 then th + 2 else 16
                else if 100 < avg then if 2 < th then th - 1 else 2
                else th);
          th = (if packets_count = 0 \<and> 4 < th then 4 else th)
      in clamp th 2 16)"

text \<open>The branch for \<open>PACK_DATA\<close>.\<close>

definition data_handler ::
  "'fd rudp_connection \<Rightarrow> 'fd pvd_sender \<Rightarrow> protopack \<Rightarrow> int \<Rightarrow>
   fault + 'fd rudp_connection \<times> 'fd pvd_sender" where
  "data_handler conn snder pkt now_ms =
     (let expected = expected_seq conn;
          (r, conn) = rudp_conn_pass_net conn (Some pkt)
      in if r < 0 then Inr (conn, snder)
         else
           let conn = (if seq pkt \<noteq> expected then conn else snd (rudp_conn_reordering conn));
               conn = conn\<lparr>packets_since_ack := packets_since_ack conn + 1\<rparr>;
               should_send_ack = (seq pkt \<noteq> expected
                 \<or> ack_threshold conn \<le> packets_since_ack conn
                 \<or> avg_rtt_ms conn div 2 \<le> now_ms - last_ack_timestamp conn
                 \<or> ack_timeout_ms conn \<le> now_ms - last_ack_timestamp conn
                 \<or> last_ack_sent_seq conn = UINT32_MAX)
           in if should_send_ack \<and> last_recved_seq conn \<noteq> UINT32_MAX then
                case proto_msg_quick (s_uid conn) (c_uid conn) (last_recved_seq conn) PACK_RACK of
                  None \<Rightarrow> Inr (conn\<lparr>packets_since_ack := 0, last_ack_timestamp := now_ms\<rparr>, snder)
                | Some msg \<Rightarrow>
                    bind_fault (pvd_sender_send snder (Some msg) (nfd conn)) (\<lambda>(_, snder).
                      Inr (conn\<lparr>last_ack_sent_seq := last_recved_seq conn, packets_since_ack := 0,
                             last_ack_timestamp := now_ms,
                             ack_threshold := next_threshold (avg_rtt_ms conn) (packets_since_ack conn)
                                                (ack_threshold conn)\<rparr>, snder))
              else Inr (conn, snder))"

text \<open>The loop of the branch for \<open>PACK_RACK\<close>: the array and \<open>rtt_sample\<close>.\<close>

function rack_loop ::
  "rudp_pending_pkt dyn_array \<Rightarrow> u32 \<Rightarrow> int \<Rightarrow> nat \<Rightarrow> int \<Rightarrow> int \<times> rudp_pending_pkt dyn_array" where
  "rack_loop arr ack now_ms i rtt_sample =
     (case dyn_array_at arr i of
        None \<Rightarrow> (rtt_sample, arr)
      | Some ppkt \<Rightarrow>
          if pp_seq ppkt \<le> ack then
            let rtt_sample = (if pp_seq ppkt = ack \<and> retransmit_count ppkt = 0
                              then now_ms - pp_timestamp ppkt else rtt_sample);
                last_idx = len arr - 1;
                arr' = arr\<lparr>elements := (elements arr)[i := elements arr ! last_idx]\<rparr>
            in rack_loop (snd (dyn_array_remove arr' last_idx)) ack now_ms i rtt_sample
          else rack_loop arr ack now_ms (i + 1) rtt_sample)"
  by pat_completeness auto
termination
  by (relation "measure (\<lambda>(arr, ack, now, i, s). len arr - i)")
    (auto simp: dyn_array_at_def dyn_array_remove_def split: if_splits)

declare rack_loop.simps [simp del]

text \<open>The C division truncates; the averages are never negative (\<open>avg_rtt_bounds\<close>).\<close>

definition next_rtt :: "int \<Rightarrow> int \<Rightarrow> int" where
  "next_rtt avg rtt_sample =
     (if 0 < rtt_sample \<and> rtt_sample < 10000 then
        let s = (if rtt_sample < 20 then 20 else rtt_sample) in
        if avg * 3 < s \<and> 50 < avg then (avg * 7 + s) div 8 else (avg * 3 + s) div 4
      else avg)"

definition rack_handler :: "'fd rudp_connection \<Rightarrow> protopack \<Rightarrow> int \<Rightarrow> 'fd rudp_connection" where
  "rack_handler conn pkt now_ms =
     (let (rtt_sample, arr) = rack_loop (pkts_fhost conn) (seq pkt) now_ms 0 (-1)
      in conn\<lparr>pkts_fhost := arr, avg_rtt_ms := next_rtt (avg_rtt_ms conn) rtt_sample\<rparr>)"

text \<open>
  \<open>_rudp_dispatcher_net_handler\<close> on the connection at \<open>a\<close>. A packet of another type is
  reported by its name, read from an array of \<open>PACKET_TYPE_MAX\<close> names.
\<close>

definition rudp_dispatcher_net_handler ::
  "'fd rudp_dispatcher \<Rightarrow> nat \<Rightarrow> protopack \<Rightarrow> int \<Rightarrow> fault + 'fd rudp_dispatcher" where
  "rudp_dispatcher_net_handler d a pkt now_ms =
     (if packtype pkt = pt_code PACK_DATA then
        bind_fault (load d a) (\<lambda>c.
        bind_fault (data_handler c (d_sender d) pkt now_ms) (\<lambda>(c, s).
          Inr ((store d a c)\<lparr>d_sender := s\<rparr>)))
      else if packtype pkt = pt_code PACK_RACK then
        bind_fault (load d a) (\<lambda>c. Inr (store d a (rack_handler c pkt now_ms)))
      else if packtype pkt = pt_code PACK_FIN then
        bind_fault (load d a) (\<lambda>c.
          let d = store d a (c\<lparr>ev_reordered := mt_evsock_notify (ev_reordered c)\<rparr>)
          in map_sum id snd (rudp_close_conncetion d (c_uid c)))
      else if unat (packtype pkt) < PACKET_TYPE_MAX then Inr d
      else Inl OutOfBounds)"

subsection \<open>The worker\<close>

fun timeouts_all ::
  "'fd rudp_dispatcher \<Rightarrow> nat option list \<Rightarrow> int \<Rightarrow> fault + 'fd rudp_dispatcher" where
  "timeouts_all d [] now_ms = Inr d"
| "timeouts_all d (None # as) now_ms = timeouts_all d as now_ms"
| "timeouts_all d (Some a # as) now_ms =
     bind_fault (load d a) (\<lambda>c.
     bind_fault (rudp_conn_timeouts c (d_sender d) now_ms) (\<lambda>(_, c, s).
       timeouts_all ((store d a c)\<lparr>d_sender := s\<rparr>) as now_ms))"

text \<open>
  The loop over the passed packets; \<open>clock\<close> and \<open>rnd\<close> give the clock reading and the
  random number for the packet that is popped next.
\<close>

fun worker_packets ::
  "'fd rudp_dispatcher \<Rightarrow> protopack list \<Rightarrow> (nat \<Rightarrow> int) \<Rightarrow> (nat \<Rightarrow> nat) \<Rightarrow> nat \<Rightarrow>
   fault + 'fd rudp_dispatcher" where
  "worker_packets d [] clock rnd i = Inr d"
| "worker_packets d (pkt # ps) clock rnd i =
     bind_fault (rudp_get_connection d (h_from pkt) (rnd i)) (\<lambda>(r, conn, d).
       if r < 0 then worker_packets d ps clock rnd (i + 1)
       else
         bind_fault (udp_copy_pack pkt) (\<lambda>copy.
         bind_fault (rudp_dispatcher_net_handler d (the conn) copy (clock i)) (\<lambda>d.
           worker_packets d ps clock rnd (i + 1))))"

text \<open>
  One iteration (\<open>None\<close>: the loop ends); the state of the loop is the dispatcher and
  \<open>last_timeout_check\<close>.
\<close>

definition rudp_dispatcher_iter ::
  "'fd rudp_dispatcher \<Rightarrow> int \<Rightarrow> (nat \<Rightarrow> int) \<Rightarrow> (nat \<Rightarrow> nat) \<Rightarrow>
   fault + ('fd rudp_dispatcher \<times> int) option" where
  "rudp_dispatcher_iter d last_check clock rnd =
     (if \<not> is_running d then Inr None
      else
        let (r, e) = mt_evsock_wait (ev_passed d);
            d = d\<lparr>ev_passed := mt_evsock_drain e\<rparr>
        in if r < 0 then Inr None
           else
             bind_fault
               (if 10 \<le> clock 0 - last_check then
                  bind_fault (mutex_lock (connections d)) (\<lambda>t.
                    map_sum id (\<lambda>d. (d, clock 0))
                      (timeouts_all (d\<lparr>connections := mutex_unlock t\<rparr>) (map snd (pairs (obj t))) (clock 0)))
                else Inr (d, last_check)) (\<lambda>(d, last_check).
             if r = 0 then Inr (Some (d, last_check))
             else
               bind_fault
                 (worker_packets (d\<lparr>ev_passed := mt_evsock_drain (ev_passed d), passed_pkts := []\<rparr>)
                   (passed_pkts d) clock rnd 0) (\<lambda>d.
                 Inr (Some (d, last_check)))))"

fun close_all :: "'fd rudp_dispatcher \<Rightarrow> nat option list \<Rightarrow> fault + 'fd rudp_dispatcher" where
  "close_all d [] = Inr d"
| "close_all d (None # as) = close_all d as"
| "close_all d (Some a # as) =
     bind_fault (load d a) (\<lambda>c.
     bind_fault (rudp_conn_close c (d_sender d)) (\<lambda>(_, s).
       close_all (d\<lparr>d_sender := s, heap := (heap d)(a := None)\<rparr>) as))"

definition rudp_dispatcher_end :: "'fd rudp_dispatcher \<Rightarrow> fault + int \<times> 'fd rudp_dispatcher" where
  "rudp_dispatcher_end d =
     (let d = d\<lparr>is_running := False, passed_pkts := []\<rparr> in
      bind_fault (mutex_lock (connections d)) (\<lambda>t.
      bind_fault (close_all (d\<lparr>connections := mutex_unlock t\<rparr>) (map snd (pairs (obj t)))) (\<lambda>d.
      bind_fault (prot_table_end (connections d)) (\<lambda>(_, t).
        Inr (0, d\<lparr>connections := t\<rparr>)))))"

subsection \<open>Acknowledgements\<close>

lemma swap_remove:
  assumes "i < length xs"
  defines "ys \<equiv> butlast (xs[i := xs ! (length xs - 1)])"
  shows "take i ys = take i xs" and "add_mset (xs ! i) (mset (drop i ys)) = mset (drop i xs)"
proof -
  obtain us x zs where xs: "xs = us @ x # zs" "length us = i"
    using assms(1) id_take_nth_drop [of i xs] by (metis length_take min.absorb4)
  have "take i ys = take i xs \<and> add_mset (xs ! i) (mset (drop i ys)) = mset (drop i xs)"
  proof (cases zs rule: rev_cases)
    case Nil
    with xs show ?thesis by (auto simp: ys_def butlast_append)
  next
    case (snoc ws l)
    have "xs ! (length xs - 1) = l"
      unfolding xs snoc by (simp add: nth_append)
    then have "ys = us @ l # ws"
      using xs by (auto simp: ys_def snoc list_update_append butlast_append)
    with xs show ?thesis by (simp add: snoc nth_append)
  qed
  then show "take i ys = take i xs" and "add_mset (xs ! i) (mset (drop i ys)) = mset (drop i xs)"
    by auto
qed

lemma rack_loop_mset:
  assumes "i \<le> len arr"
  shows "mset (elements (snd (rack_loop arr ack now i s))) =
    mset (take i (elements arr)) + filter_mset (\<lambda>p. ack < pp_seq p) (mset (drop i (elements arr)))"
  using assms
proof (induction arr ack now i s rule: rack_loop.induct)
  case (1 arr ack now i s)
  let ?xs = "elements arr"
  show ?case
  proof (cases "i < len arr")
    case False
    then have "dyn_array_at arr i = None" by (simp add: dyn_array_at_def)
    with False show ?thesis by (simp add: rack_loop.simps [of arr])
  next
    case True
    then have at: "dyn_array_at arr i = Some (?xs ! i)" by (simp add: dyn_array_at_def)
    have d: "drop i ?xs = ?xs ! i # drop (Suc i) ?xs" using True by (simp add: Cons_nth_drop_Suc)
    show ?thesis
    proof (cases "pp_seq (?xs ! i) \<le> ack")
      case False
      then have "mset (take (Suc i) ?xs) + filter_mset (\<lambda>p. ack < pp_seq p) (mset (drop (Suc i) ?xs)) =
          mset (take i ?xs) + filter_mset (\<lambda>p. ack < pp_seq p) (mset (drop i ?xs))"
        using True unfolding d by (simp add: take_Suc_conv_app_nth not_le)
      with "1.IH"(2) [OF at False] True at False show ?thesis
        by (simp add: rack_loop.simps [of arr])
    next
      case acked: True
      define ys where "ys = butlast (?xs[i := ?xs ! (len arr - 1)])"
      let ?arr = "snd (dyn_array_remove (arr\<lparr>elements := ?xs[i := ?xs ! (len arr - 1)]\<rparr>) (len arr - 1))"
      let ?s = "if pp_seq (?xs ! i) = ack \<and> retransmit_count (?xs ! i) = 0
                then now - pp_timestamp (?xs ! i) else s"
      have el: "elements ?arr = ys"
        using True by (simp add: elements_remove ys_def butlast_conv_take)
      have y: "take i ys = take i ?xs" "add_mset (?xs ! i) (mset (drop i ys)) = mset (drop i ?xs)"
        using swap_remove [OF True] by (simp_all add: ys_def)
      have len: "i \<le> len ?arr" using True unfolding el by (simp add: ys_def)
      have "rack_loop arr ack now i s = rack_loop ?arr ack now i ?s"
        using at acked by (simp add: rack_loop.simps [of arr] Let_def)
      moreover have "mset (elements (snd (rack_loop ?arr ack now i ?s))) =
          mset (take i ys) + filter_mset (\<lambda>p. ack < pp_seq p) (mset (drop i ys))"
        using "1.IH"(1) [OF at acked refl refl refl len] unfolding el .
      moreover have "filter_mset (\<lambda>p. ack < pp_seq p) (mset (drop i ?xs)) =
          filter_mset (\<lambda>p. ack < pp_seq p) (mset (drop i ys))"
        using acked unfolding y(2) [symmetric] by simp
      ultimately show ?thesis by (simp add: y(1))
    qed
  qed
qed

text \<open>\<open>RACK\<close> is cumulative: exactly the pending packets up to its number are dropped.\<close>

lemma rack_handler_pending:
  "mset (pending (rack_handler c pkt now)) = filter_mset (\<lambda>p. seq pkt < pp_seq p) (mset (pending c))"
  using rack_loop_mset [of 0 "pkts_fhost c"] by (simp add: rack_handler_def split_beta)

lemma rack_handler_frame:
  "\<exists>a r. rack_handler c pkt now = c\<lparr>pkts_fhost := a, avg_rtt_ms := r\<rparr>"
  by (auto simp: rack_handler_def split_beta)

lemma next_rtt_bounds:
  assumes "20 \<le> avg" and "avg \<le> 9999"
  shows "20 \<le> next_rtt avg s" and "next_rtt avg s \<le> 9999"
  using assms by (auto simp: next_rtt_def Let_def)

lemma next_threshold_bounds:
  "2 \<le> next_threshold avg n th \<and> next_threshold avg n th \<le> 16"
proof -
  have "2 \<le> clamp t 2 16 \<and> clamp t 2 16 \<le> 16" for t
    by (auto simp: clamp_def not_less)
  then show ?thesis by (simp add: next_threshold_def Let_def)
qed

subsection \<open>Data packets\<close>

lemma quick_msg_ok:
  "\<exists>m. proto_msg_quick f t s ty = Some m \<and> pack_ok m \<and> seq m = s \<and> packtype m = pt_code ty \<and>
     h_from m = f \<and> h_to m = t"
  by (simp add: proto_msg_quick_def udp_make_pack_def Let_def PROTOCOL_OVERHEAD_def UDP_MTU_def pack_ok_def)

text \<open>
  The data handler queues the packet, reorders when it is the expected one, and sends at
  most one acknowledgement, which carries the number of the last packet handed over.
\<close>

definition data_rx :: "'fd rudp_connection \<Rightarrow> protopack \<Rightarrow> 'fd rudp_connection" where
  "data_rx c pkt =
     (let c' = c\<lparr>pkts_net := pkts_net c @ [pkt], ev_net := mt_evsock_notify (ev_net c)\<rparr>
      in if seq pkt \<noteq> expected_seq c then c' else snd (rudp_conn_reordering c'))"

lemma data_handler_spec:
  "\<exists>c' s' acks a b e f. data_handler c s pkt now = Inr (c', s') \<and>
     c' = (data_rx c pkt)\<lparr>packets_since_ack := a, last_ack_sent_seq := b, last_ack_timestamp := e,
             ack_threshold := f\<rparr> \<and>
     s_packets s' = s_packets s @ acks \<and>
     (\<forall>(q, to) \<in> set acks. last_recved_seq (data_rx c pkt) \<noteq> UINT32_MAX \<and>
        seq q = last_recved_seq (data_rx c pkt) \<and> packtype q = pt_code PACK_RACK \<and> pack_ok q) \<and>
     (seq pkt \<noteq> expected_seq c \<and> last_recved_seq c \<noteq> UINT32_MAX \<longrightarrow> acks \<noteq> [])"
proof -
  define d where "d = (data_rx c pkt)\<lparr>packets_since_ack := packets_since_ack (data_rx c pkt) + 1\<rparr>"
  obtain m where m: "proto_msg_quick (s_uid d) (c_uid d) (last_recved_seq d) PACK_RACK = Some m"
    "pack_ok m" "seq m = last_recved_seq d" "packtype m = pt_code PACK_RACK"
    using quick_msg_ok by blast
  define ack where "ack = (seq pkt \<noteq> expected_seq c
                 \<or> ack_threshold d \<le> packets_since_ack d
                 \<or> avg_rtt_ms d div 2 \<le> now - last_ack_timestamp d
                 \<or> ack_timeout_ms d \<le> now - last_ack_timestamp d
                 \<or> last_ack_sent_seq d = UINT32_MAX)"
  have eq: "data_handler c s pkt now =
      (if ack \<and> last_recved_seq d \<noteq> UINT32_MAX then
         Inr (d\<lparr>last_ack_sent_seq := last_recved_seq d, packets_since_ack := 0,
                last_ack_timestamp := now,
                ack_threshold := next_threshold (avg_rtt_ms d) (packets_since_ack d) (ack_threshold d)\<rparr>,
              s\<lparr>s_packets := s_packets s @ [(m, nfd d)], s_newpack := mt_evsock_notify (s_newpack s)\<rparr>)
       else Inr (d, s))"
    using m(1,2)
    by (simp add: data_handler_def rudp_conn_pass_net_def data_rx_def d_def ack_def Let_def pvd_sender_send_ok)
  have lr: "last_recved_seq d = last_recved_seq (data_rx c pkt)" by (simp add: d_def)
  have miss: "last_recved_seq d = last_recved_seq c" if "seq pkt \<noteq> expected_seq c"
    using that by (simp add: d_def data_rx_def)
  show ?thesis
  proof (cases "ack \<and> last_recved_seq d \<noteq> UINT32_MAX")
    case True
    define d' where "d' = d\<lparr>last_ack_sent_seq := last_recved_seq d, packets_since_ack := 0,
        last_ack_timestamp := now,
        ack_threshold := next_threshold (avg_rtt_ms d) (packets_since_ack d) (ack_threshold d)\<rparr>"
    define s' where "s' = s\<lparr>s_packets := s_packets s @ [(m, nfd d)],
        s_newpack := mt_evsock_notify (s_newpack s)\<rparr>"
    have "d' = (data_rx c pkt)\<lparr>packets_since_ack := 0, last_ack_sent_seq := last_recved_seq d,
        last_ack_timestamp := now,
        ack_threshold := next_threshold (avg_rtt_ms d) (packets_since_ack d) (ack_threshold d)\<rparr>"
      by (simp add: d'_def d_def)
    moreover have "data_handler c s pkt now = Inr (d', s')"
      unfolding eq d'_def s'_def by (rule if_P [OF True])
    moreover have "s_packets s' = s_packets s @ [(m, nfd d)]" by (simp add: s'_def)
    ultimately show ?thesis
      using True m lr
      by (intro exI conjI) (assumption | simp)+
  next
    case False
    have "d = (data_rx c pkt)\<lparr>packets_since_ack := packets_since_ack d,
        last_ack_sent_seq := last_ack_sent_seq d, last_ack_timestamp := last_ack_timestamp d,
        ack_threshold := ack_threshold d\<rparr>"
      by (simp add: d_def)
    moreover have "seq pkt \<noteq> expected_seq c \<longrightarrow> last_recved_seq c = UINT32_MAX"
      using False miss by (auto simp: ack_def)
    moreover have "data_handler c s pkt now = Inr (d, s)"
      unfolding eq by (rule if_not_P [OF False])
    ultimately show ?thesis
      by (intro exI [of _ d] exI [of _ s] exI [of _ "[]"]) (simp, metis)
  qed
qed

subsection \<open>Properties\<close>

text \<open>
  A \<open>RACK\<close> is cumulative: the handler drops exactly the pending packets numbered up to
  the acknowledged one, each once, although it removes them by swapping with the last.
\<close>

theorem rack_drops_acknowledged:
  "mset (pending (rack_handler c pkt now)) = filter_mset (\<lambda>pp. seq pkt < pp_seq pp) (mset (pending c))"
  by (rule rack_handler_pending)

text \<open>
  The adaptive parameters stay in their ranges: the round trip average between 20 ms and
  10 s, and the acknowledgement threshold between 2 and 16, for every packet and clock.
\<close>

theorem rudp_adaptive_bounds:
  assumes "20 \<le> avg_rtt_ms c" and "avg_rtt_ms c \<le> 9999"
    and "2 \<le> ack_threshold c" and "ack_threshold c \<le> 16" and "rx_sorted c"
  shows "20 \<le> avg_rtt_ms (rack_handler c pkt now) \<and> avg_rtt_ms (rack_handler c pkt now) \<le> 9999 \<and>
    (\<exists>c' s'. data_handler c s pkt now = Inr (c', s') \<and>
       2 \<le> ack_threshold c' \<and> ack_threshold c' \<le> 16 \<and> avg_rtt_ms c' = avg_rtt_ms c)"
proof -
  have rx: "ack_threshold (data_rx c pkt) = ack_threshold c" "avg_rtt_ms (data_rx c pkt) = avg_rtt_ms c"
  proof -
    have "rx_sorted (c\<lparr>pkts_net := pkts_net c @ [pkt], ev_net := mt_evsock_notify (ev_net c)\<rparr>)"
      using assms(5) by (simp add: rx_sorted_def)
    from reordering_spec(8,9) [OF this]
    show "ack_threshold (data_rx c pkt) = ack_threshold c" "avg_rtt_ms (data_rx c pkt) = avg_rtt_ms c"
      by (simp_all add: data_rx_def Let_def)
  qed
  define d where "d = (data_rx c pkt)\<lparr>packets_since_ack := packets_since_ack (data_rx c pkt) + 1\<rparr>"
  obtain m where m: "proto_msg_quick (s_uid d) (c_uid d) (last_recved_seq d) PACK_RACK = Some m" "pack_ok m"
    using quick_msg_ok by blast
  define sends where "sends = ((seq pkt \<noteq> expected_seq c
                 \<or> ack_threshold d \<le> packets_since_ack d
                 \<or> avg_rtt_ms d div 2 \<le> now - last_ack_timestamp d
                 \<or> ack_timeout_ms d \<le> now - last_ack_timestamp d
                 \<or> last_ack_sent_seq d = UINT32_MAX) \<and> last_recved_seq d \<noteq> UINT32_MAX)"
  define d' where "d' = (if sends then
         d\<lparr>last_ack_sent_seq := last_recved_seq d, packets_since_ack := 0,
                last_ack_timestamp := now,
                ack_threshold := next_threshold (avg_rtt_ms d) (packets_since_ack d) (ack_threshold d)\<rparr>
       else d)"
  have "\<exists>s'. data_handler c s pkt now = Inr (d', s')"
    using m
    by (auto simp: data_handler_def rudp_conn_pass_net_def data_rx_def d_def d'_def sends_def Let_def pvd_sender_send_ok)
  moreover have "2 \<le> ack_threshold d' \<and> ack_threshold d' \<le> 16 \<and> avg_rtt_ms d' = avg_rtt_ms c"
    using next_threshold_bounds assms(3,4) rx by (simp add: d'_def d_def)
  ultimately show ?thesis
    using next_rtt_bounds [OF assms(1,2)] by (auto simp: rack_handler_def split_beta)
qed

theorem rudp_adaptive_bounds_witness:
  "20 \<le> avg_rtt_ms (rack_handler wrap_conn (wrap_pack 0) 7)"
proof -
  have "rx_sorted wrap_conn" "20 \<le> avg_rtt_ms wrap_conn" "avg_rtt_ms wrap_conn \<le> 9999"
    "2 \<le> ack_threshold wrap_conn" "ack_threshold wrap_conn \<le> 16"
    by (simp_all add: wrap_conn_def rudp_conn_new_def rx_sorted_def)
  with rudp_adaptive_bounds [of wrap_conn "wrap_pack 0" 7] show ?thesis by blast
qed

text \<open>
  A packet whose sender field is \<open>0xFFFFFFFF\<close> selects a random connection: while no
  connection is established it divides by zero and takes the worker down.
\<close>

theorem rudp_worker_division_by_zero:
  assumes "h_from pkt = UINT32_MAX" and "len (dt_array (obj (connections d))) = 0"
    and "\<not> mtx (connections d)"
  shows "worker_packets d (pkt # ps) clock rnd i = Inl DivByZero"
  using assms by (simp add: rudp_get_connection_def mutex_lock_def)

definition empty_disp :: "nat rudp_dispatcher" where
  "empty_disp = snd (rudp_dispatcher_new (snd pvd_sender_new) 1)"

theorem rudp_worker_division_by_zero_witness:
  "worker_packets empty_disp [demo_pack\<lparr>h_from := UINT32_MAX\<rparr>] (\<lambda>_. 0) (\<lambda>_. 0) 0 = Inl DivByZero"
  using rudp_worker_division_by_zero [of "demo_pack\<lparr>h_from := UINT32_MAX\<rparr>" empty_disp]
  by (simp add: empty_disp_def rudp_dispatcher_new_def prot_table_create_def)

lemma rudp_conn_close_ok: "\<exists>c' s'. rudp_conn_close c s = Inr (c', s')"
proof -
  obtain m where "proto_msg_quick (s_uid c) (c_uid c) (current_seq c) PACK_FIN = Some m" "pack_ok m"
    using quick_msg_ok by blast
  then show ?thesis by (simp add: rudp_conn_close_def pvd_sender_send_ok Let_def)
qed

text \<open>
  A \<open>FIN\<close> from the peer frees the connection and removes it from the table: afterwards
  the peer's UID is unknown to the dispatcher, and the pointer the host program holds is
  dangling.
\<close>

theorem rudp_fin_frees_connection:
  assumes "dyn_table_get (obj (connections d)) u = Some (Some a)" and "heap d a = Some c"
    and "c_uid c = u" and "packtype pkt = pt_code PACK_FIN" and "\<not> mtx (connections d)"
    and "dt_wf (obj (connections d))" and "u \<noteq> UINT32_MAX"
  shows "\<exists>d'. rudp_dispatcher_net_handler d a pkt now = Inr d' \<and> load d' a = Inl UseAfterFree \<and>
    (\<exists>d''. rudp_get_connection d' u rnd = Inr (-1, None, d''))"
proof -
  let ?c = "c\<lparr>ev_reordered := mt_evsock_notify (ev_reordered c)\<rparr>"
  let ?t = "obj (connections d)"
  define t' where "t' = \<lparr>mtx = False, obj = table_remove ?t u\<rparr>"
  obtain c' s' where cl: "rudp_conn_close ?c (d_sender d) = Inr (c', s')"
    using rudp_conn_close_ok by blast
  define d' where "d' = d\<lparr>heap := (heap d)(a := None), d_sender := s', connections := t'\<rparr>"
  have "\<exists>h. heap h = (heap d)(a := None) \<and> connections h = t' \<and>
      rudp_dispatcher_net_handler d a pkt now = Inr h"
    using assms cl
    by (simp add: rudp_dispatcher_net_handler_def load_def store_def rudp_close_conncetion_def
        prot_table_get_def prot_table_remove_def with_mutex_free t'_def split_beta Let_def)
  then obtain h where h: "heap h = (heap d)(a := None)" "connections h = t'"
    "rudp_dispatcher_net_handler d a pkt now = Inr h" by blast
  have "dyn_table_get (table_remove ?t u) u = None"
    using get_remove [OF assms(6), of u u] by simp
  then have "\<exists>d''. rudp_get_connection h u rnd = Inr (-1, None, d'')"
    using assms(7) by (simp add: rudp_get_connection_def prot_table_get_def with_mutex_free h(2) t'_def)
  moreover have "load h a = Inl UseAfterFree" by (simp add: load_def h(1))
  ultimately show ?thesis using h(3) by blast
qed

definition one_conn_disp :: "nat rudp_dispatcher" where
  "one_conn_disp = empty_disp
     \<lparr>connections := \<lparr>mtx = False, obj = table_set (dyn_table_create 4 8 DYN_OWN_BOTH) 2 (Some 0)\<rparr>,
      heap := [0 \<mapsto> rudp_conn_new 1 2 0 0], next_addr := 1\<rparr>"

theorem rudp_fin_frees_connection_witness:
  "\<exists>d'. rudp_dispatcher_net_handler one_conn_disp 0 (demo_pack\<lparr>packtype := 8\<rparr>) 5 = Inr d' \<and>
     load d' 0 = Inl UseAfterFree"
proof -
  have "dt_wf (obj (connections one_conn_disp))"
    by (simp add: one_conn_disp_def dt_wf_set)
  moreover have "(2 :: u32) \<noteq> UINT32_MAX" by (simp add: UINT32_MAX_def)
  ultimately show ?thesis
    using rudp_fin_frees_connection [of one_conn_disp 2 0 "rudp_conn_new 1 2 0 0" "demo_pack\<lparr>packtype := 8\<rparr>" 5 0]
    by (auto simp: one_conn_disp_def get_set rudp_conn_new_def)
qed

subsection \<open>The connections of a dispatcher\<close>

definition conns :: "'fd rudp_dispatcher \<Rightarrow> u32 \<Rightarrow> nat option option" where
  "conns d = dyn_table_get (obj (connections d))"

text \<open>The mutex is free, every filed connection is alive, and no two UIDs share one.\<close>

definition disp_ok :: "'fd rudp_dispatcher \<Rightarrow> bool" where
  "disp_ok d \<longleftrightarrow>
     \<not> mtx (connections d) \<and> dt_wf (obj (connections d)) \<and>
     (\<forall>uid a. conns d uid = Some (Some a) \<longrightarrow> heap d a \<noteq> None \<and> a < next_addr d) \<and>
     (\<forall>u v a. conns d u = Some (Some a) \<and> conns d v = Some (Some a) \<longrightarrow> u = v)"

lemma conns_same: "disp_ok d \<Longrightarrow> d\<lparr>connections := \<lparr>mtx = False, obj = obj (connections d)\<rparr>\<rparr> = d"
  by (cases d; cases "connections d") (simp add: disp_ok_def)

lemma conns_get:
  "disp_ok d \<Longrightarrow> prot_table_get (connections d) uid =
     Inr (conns d uid, \<lparr>mtx = False, obj = obj (connections d)\<rparr>)"
  by (simp add: prot_table_get_def with_mutex_free disp_ok_def conns_def)

lemma conns_remove:
  assumes "disp_ok d"
  shows "\<exists>r. prot_table_remove (connections d) uid =
      Inr (r, \<lparr>mtx = False, obj = table_remove (obj (connections d)) uid\<rparr>)"
  using assms by (simp add: prot_table_remove_def with_mutex_free disp_ok_def split_beta)

text \<open>The \<open>FIN\<close> packets of a closed connection.\<close>

definition fins :: "'fd rudp_dispatcher \<Rightarrow> u32 \<Rightarrow> (protopack \<times> 'fd) list" where
  "fins d uid =
     (case conns d uid of
        Some (Some a) \<Rightarrow>
          (case heap d a of
             Some c \<Rightarrow> replicate 2 (quick (s_uid c) (c_uid c) (current_seq c) PACK_FIN, nfd c)
           | None \<Rightarrow> [])
      | _ \<Rightarrow> [])"

lemma conn_close_ok:
  "\<exists>c' s'. rudp_conn_close c s = Inr (c', s') \<and>
     s_packets s' = s_packets s @ replicate 2 (quick (s_uid c) (c_uid c) (current_seq c) PACK_FIN, nfd c)"
  by (simp add: rudp_conn_close_def proto_msg_quick_eq pvd_sender_send_def udp_copy_pack_def numeral_2_eq_2
      Let_def) (simp add: quick_def)

lemma close_ok:
  assumes "disp_ok d"
  obtains r d' where "rudp_close_conncetion d uid = Inr (r, d')" "disp_ok d'"
    "conns d' = (conns d)(uid := None)" "self_uid d' = self_uid d"
    "s_packets (d_sender d') = s_packets (d_sender d) @ fins d uid"
proof -
  let ?t = "\<lparr>mtx = False, obj = table_remove (obj (connections d)) uid\<rparr>"
  have wf: "dt_wf (obj (connections d))" using assms by (simp add: disp_ok_def)
  have rm: "dyn_table_get (table_remove (obj (connections d)) uid) = (conns d)(uid := None)"
    using wf by (intro ext) (simp add: get_remove conns_def)
  obtain r where r: "prot_table_remove (connections d) uid = Inr (r, ?t)"
    using conns_remove [OF assms] by blast
  have same: "prot_table_remove \<lparr>mtx = False, obj = obj (connections d)\<rparr> uid = Inr (r, ?t)"
    using r assms by (metis conns_same disp_ok_def prot.surjective unit.exhaust)
  show ?thesis
  proof (cases "\<exists>a. conns d uid = Some (Some a)")
    case True
    then obtain a where a: "conns d uid = Some (Some a)" by blast
    with assms have "heap d a \<noteq> None" unfolding disp_ok_def by blast
    then obtain c where c: "heap d a = Some c" by blast
    obtain c' s' where close: "rudp_conn_close c (d_sender d) = Inr (c', s')"
      "s_packets s' = s_packets (d_sender d) @
         replicate 2 (quick (s_uid c) (c_uid c) (current_seq c) PACK_FIN, nfd c)"
      using conn_close_ok by blast
    let ?d = "d\<lparr>d_sender := s', heap := (heap d)(a := None), connections := ?t\<rparr>"
    have "rudp_close_conncetion d uid = Inr (r, ?d)"
      by (simp add: rudp_close_conncetion_def conns_get [OF assms] a load_def c close(1) same)
    moreover have "conns ?d = (conns d)(uid := None)" by (simp add: conns_def rm)
    moreover have "disp_ok ?d"
      using assms a by (auto simp: disp_ok_def calculation(2) dt_wf_remove wf)
    ultimately show ?thesis using that close(2) by (simp add: fins_def a c)
  next
    case False
    then consider "conns d uid = None" | "conns d uid = Some None" by (metis option.exhaust)
    then show ?thesis
    proof cases
      case 1
      then have "rudp_close_conncetion d uid = Inr (-1, d)"
        by (simp add: rudp_close_conncetion_def conns_get [OF assms] conns_same [OF assms])
      with assms 1 show ?thesis by (intro that [of "-1" d]) (auto simp: fins_def)
    next
      case 2
      let ?d = "d\<lparr>connections := ?t\<rparr>"
      have "rudp_close_conncetion d uid = Inr (r, ?d)"
        by (simp add: rudp_close_conncetion_def conns_get [OF assms] 2 same)
      moreover have "conns ?d = (conns d)(uid := None)" by (simp add: conns_def rm)
      moreover have "disp_ok ?d" using assms by (auto simp: disp_ok_def calculation(2) dt_wf_remove wf)
      ultimately show ?thesis using that by (simp add: fins_def 2)
    qed
  qed
qed

lemma est_ok:
  assumes "disp_ok d"
  obtains a d' where "rudp_est_connection d uid fd now = Inr (0, a, d')" "disp_ok d'"
    "conns d' = (conns d)(uid \<mapsto> Some a)" "self_uid d' = self_uid d" "d_sender d' = d_sender d"
    "heap d' = (heap d)(a \<mapsto> rudp_conn_new (self_uid d) uid fd now)" "a = next_addr d"
proof
  let ?t = "\<lparr>mtx = False, obj = table_set (obj (connections d)) uid (Some (next_addr d))\<rparr>"
  let ?d = "(store d (next_addr d) (rudp_conn_new (self_uid d) uid fd now))
     \<lparr>next_addr := next_addr d + 1, connections := ?t\<rparr>"
  show "rudp_est_connection d uid fd now = Inr (0, next_addr d, ?d)"
    using assms by (simp add: rudp_est_connection_def store_def prot_table_set_def with_mutex_free
        disp_ok_def split_beta Let_def)
  show c: "conns ?d = (conns d)(uid \<mapsto> Some (next_addr d))"
    by (rule ext) (simp add: conns_def get_set)
  show "disp_ok ?d"
    using assms unfolding disp_ok_def c
    by (auto simp: dt_wf_set store_def dest: less_imp_neq) (metis less_Suc_eq)+
  show "self_uid ?d = self_uid d" "d_sender ?d = d_sender d"
    "heap ?d = (heap d)(next_addr d \<mapsto> rudp_conn_new (self_uid d) uid fd now)" "next_addr d = next_addr d"
    by (simp_all add: store_def)
qed

lemma disp_ok_sender [simp]: "disp_ok (d\<lparr>d_sender := s\<rparr>) = disp_ok d"
  "disp_ok (d\<lparr>self_uid := u\<rparr>) = disp_ok d"
  by (simp_all add: disp_ok_def conns_def)

lemma disp_ok_new: "disp_ok (snd (rudp_dispatcher_new s uid))" "conns (snd (rudp_dispatcher_new s uid)) = Map.empty"
proof -
  show "conns (snd (rudp_dispatcher_new s uid)) = Map.empty"
    by (rule ext) (simp add: conns_def rudp_dispatcher_new_def prot_table_create_def dyn_table_get_map_of)
  then show "disp_ok (snd (rudp_dispatcher_new s uid))"
    by (simp add: disp_ok_def) (simp add: rudp_dispatcher_new_def prot_table_create_def)
qed

lemma get_connection_ok:
  assumes "disp_ok d" and "uid \<noteq> UINT32_MAX"
  shows "rudp_get_connection d uid rnd =
    Inr (case conns d uid of Some (Some a) \<Rightarrow> (0, Some a, d) | _ \<Rightarrow> (-1, None, d))"
  using assms(2)
  by (auto simp: rudp_get_connection_def conns_get [OF assms(1)] conns_same [OF assms(1)] split: option.split)

text \<open>The dispatcher's worker keeps its connections alive too.\<close>

definition same_disp :: "'fd rudp_dispatcher \<Rightarrow> 'fd rudp_dispatcher \<Rightarrow> bool" where
  "same_disp d d' \<longleftrightarrow> disp_ok d' \<and> self_uid d' = self_uid d"

lemma same_disp_trans: "same_disp a b \<Longrightarrow> same_disp b c \<Longrightarrow> same_disp a c"
  by (simp add: same_disp_def)

lemma store_ok: "disp_ok d \<Longrightarrow> load d a = Inr c \<Longrightarrow> same_disp d ((store d a c')\<lparr>d_sender := s\<rparr>)"
  "disp_ok d \<Longrightarrow> load d a = Inr c \<Longrightarrow> same_disp d (store d a c')"
  by (auto simp: same_disp_def disp_ok_def conns_def store_def load_def split: option.splits)

lemma get_connection_same:
  assumes "disp_ok d" and "rudp_get_connection d uid rnd = Inr (r, p, d')"
  shows "d' = d"
proof (cases "uid = UINT32_MAX")
  case True
  have free: "\<not> mtx (connections d)" using assms(1) by (simp add: disp_ok_def)
  have lock: "mutex_lock (connections d) = Inr ((connections d)\<lparr>mtx := True\<rparr>)"
    "mutex_unlock ((connections d)\<lparr>mtx := True\<rparr>) = \<lparr>mtx = False, obj = obj (connections d)\<rparr>"
    using free by (cases "connections d"; simp add: mutex_lock_def mutex_unlock_def)+
  show ?thesis
  proof (cases "pairs (obj (connections d)) = []")
    case empty: True
    with True assms(2) lock show ?thesis by (simp add: rudp_get_connection_def Let_def)
  next
    case False
    then have lt: "rnd mod length (pairs (obj (connections d))) < length (pairs (obj (connections d)))" by simp
    obtain k q where "pairs (obj (connections d)) ! (rnd mod length (pairs (obj (connections d)))) = (k, q)"
      by fastforce
    with True assms(2) lock lt False conns_same [OF assms(1)] show ?thesis
      by (simp add: rudp_get_connection_def Let_def dyn_array_at_def)
  qed
next
  case False
  with get_connection_ok [OF assms(1), of uid rnd] assms(2) show ?thesis by (auto split: option.splits)
qed

lemma net_handler_ok:
  assumes "disp_ok d" and "rudp_dispatcher_net_handler d a pkt now = Inr d'"
  shows "same_disp d d'"
proof -
  have close: "same_disp d d2" if ok: "disp_ok d1" and u: "self_uid d1 = self_uid d"
    and m: "map_sum id snd (rudp_close_conncetion d1 uid) = Inr d2" for d1 d2 uid
  proof -
    obtain r d3 where "rudp_close_conncetion d1 uid = Inr (r, d3)" "disp_ok d3" "self_uid d3 = self_uid d1"
      by (rule close_ok [OF ok])
    with u m show ?thesis by (auto simp: same_disp_def)
  qed
  consider (data) "packtype pkt = pt_code PACK_DATA" | (rack) "packtype pkt = pt_code PACK_RACK"
    | (fin) "packtype pkt = pt_code PACK_FIN"
    | (other) "packtype pkt \<notin> pt_code ` {PACK_DATA, PACK_RACK, PACK_FIN}" by auto
  then show ?thesis
  proof cases
    case data
    with assms(2) obtain c c' s where "load d a = Inr c" "d' = (store d a c')\<lparr>d_sender := s\<rparr>"
      by (auto simp: rudp_dispatcher_net_handler_def bind_fault_Inr_iff)
    with store_ok(1) [OF assms(1)] show ?thesis by blast
  next
    case rack
    with assms(2) obtain c where "load d a = Inr c" "d' = store d a (rack_handler c pkt now)"
      by (auto simp: rudp_dispatcher_net_handler_def bind_fault_Inr_iff)
    with store_ok(2) [OF assms(1)] show ?thesis by blast
  next
    case fin
    with assms(2) obtain c where c: "load d a = Inr c" and m: "map_sum id snd (rudp_close_conncetion
        (store d a (c\<lparr>ev_reordered := mt_evsock_notify (ev_reordered c)\<rparr>)) (c_uid c)) = Inr d'"
      by (auto simp: rudp_dispatcher_net_handler_def bind_fault_Inr_iff Let_def)
    have "same_disp d (store d a (c\<lparr>ev_reordered := mt_evsock_notify (ev_reordered c)\<rparr>))"
      by (rule store_ok(2) [OF assms(1) c])
    then show ?thesis using close [OF _ _ m] by (simp add: same_disp_def)
  next
    case other
    with assms show ?thesis by (auto simp: rudp_dispatcher_net_handler_def same_disp_def split: if_splits)
  qed
qed

lemma timeouts_all_ok:
  "\<lbrakk>disp_ok d; timeouts_all d as now = Inr d'\<rbrakk> \<Longrightarrow> same_disp d d'"
proof (induction "as" arbitrary: d)
  case (Cons x as)
  show ?case
  proof (cases x)
    case None
    with Cons show ?thesis by simp
  next
    case (Some a)
    with Cons.prems(2) obtain c r c' s where c: "load d a = Inr c"
      "timeouts_all ((store d a c')\<lparr>d_sender := s\<rparr>) as now = Inr d'"
      by (auto simp: bind_fault_Inr_iff)
    have d: "same_disp d ((store d a c')\<lparr>d_sender := s\<rparr>)" by (rule store_ok(1) [OF Cons.prems(1) c(1)])
    then have "disp_ok ((store d a c')\<lparr>d_sender := s\<rparr>)" unfolding same_disp_def by (rule conjunct1)
    from Cons.IH [OF this c(2)] show ?thesis by (rule same_disp_trans [OF d])
  qed
qed (simp add: same_disp_def)

lemma worker_packets_ok:
  "\<lbrakk>disp_ok d; worker_packets d ps clock rnd i = Inr d'\<rbrakk> \<Longrightarrow> same_disp d d'"
proof (induction ps arbitrary: d i)
  case (Cons p ps)
  obtain r a d1 where g: "rudp_get_connection d (h_from p) (rnd i) = Inr (r, a, d1)"
    using Cons.prems(2) by (cases "rudp_get_connection d (h_from p) (rnd i)") auto
  have d1: "d1 = d" by (rule get_connection_same [OF Cons.prems(1) g])
  show ?case
  proof (cases "r < 0")
    case True
    with Cons.prems g d1 show ?thesis by (auto intro: Cons.IH)
  next
    case False
    with Cons.prems(2) g d1 obtain p' d2 where d2: "rudp_dispatcher_net_handler d (the a) p' (clock i) = Inr d2"
      "worker_packets d2 ps clock rnd (i + 1) = Inr d'"
      by (auto simp: bind_fault_Inr_iff)
    have s: "same_disp d d2" by (rule net_handler_ok [OF Cons.prems(1) d2(1)])
    then have "disp_ok d2" by (simp add: same_disp_def)
    from Cons.IH [OF this d2(2)] show ?thesis by (rule same_disp_trans [OF s])
  qed
qed (simp add: same_disp_def)

lemma disp_ok_updates [simp]:
  "disp_ok (d\<lparr>ev_passed := e\<rparr>) = disp_ok d" "disp_ok (d\<lparr>passed_pkts := ps\<rparr>) = disp_ok d"
  by (simp_all add: disp_ok_def conns_def)

lemma disp_iter_ok:
  assumes "disp_ok d" and "rudp_dispatcher_iter d lc clock rnd = Inr (Some (d', lc'))"
  shows "same_disp d d'"
proof -
  obtain r ev where w: "mt_evsock_wait (ev_passed d) = (r, ev)" by fastforce
  let ?d = "d\<lparr>ev_passed := mt_evsock_drain ev\<rparr>"
  have d: "disp_ok ?d" using assms(1) by simp
  let ?m = "if 10 \<le> clock 0 - lc then
      bind_fault (mutex_lock (connections ?d)) (\<lambda>t.
        map_sum id (\<lambda>d. (d, clock 0))
          (timeouts_all (?d\<lparr>connections := mutex_unlock t\<rparr>) (map snd (pairs (obj t))) (clock 0)))
    else Inr (?d, lc)"
  have m: "same_disp d d1" if "?m = Inr (d1, l)" for d1 l
  proof (cases "10 \<le> clock 0 - lc")
    case True
    have "mutex_lock (connections ?d) = Inr ((connections ?d)\<lparr>mtx := True\<rparr>)"
      "?d\<lparr>connections := mutex_unlock ((connections ?d)\<lparr>mtx := True\<rparr>)\<rparr> = ?d"
      using d conns_same [OF d]
      by (cases "connections d"; simp add: mutex_lock_def mutex_unlock_def disp_ok_def)+
    with that True obtain ds where "timeouts_all ?d ds (clock 0) = Inr d1"
      by (cases "timeouts_all ?d (map snd (pairs (obj (connections d)))) (clock 0)") auto
    from timeouts_all_ok [OF d this] show ?thesis by (simp add: same_disp_def)
  next
    case False
    with that d show ?thesis by (auto simp: same_disp_def)
  qed
  have r: "\<not> r < 0" "is_running d" using assms(2) w by (auto simp: rudp_dispatcher_iter_def Let_def split: if_splits)
  obtain d1 l where d1: "?m = Inr (d1, l)"
    and rest: "(if r = 0 then Inr (Some (d1, l)) else
      bind_fault (worker_packets (d1\<lparr>ev_passed := mt_evsock_drain (ev_passed d1), passed_pkts := []\<rparr>)
        (passed_pkts d1) clock rnd 0) (\<lambda>d. Inr (Some (d, l)))) = Inr (Some (d', lc'))"
    using assms(2) r w by (cases ?m) (auto simp: rudp_dispatcher_iter_def Let_def split: if_splits)
  have s1: "same_disp d d1" by (rule m [OF d1])
  show ?thesis
  proof (cases "r = 0")
    case True
    with rest s1 show ?thesis by simp
  next
    case False
    let ?d1 = "d1\<lparr>ev_passed := mt_evsock_drain (ev_passed d1), passed_pkts := []\<rparr>"
    have "worker_packets ?d1 (passed_pkts d1) clock rnd 0 = Inr d'"
      using rest False by (auto simp: bind_fault_Inr_iff)
    moreover have "disp_ok ?d1" using s1 by (simp add: same_disp_def)
    ultimately have "same_disp ?d1 d'" by (rule worker_packets_ok [rotated])
    with s1 show ?thesis by (simp add: same_disp_def)
  qed
qed

end
