(* ===== verification/Rudp_Channel.thy ===== *)
theory Rudp_Channel
  imports Rudp_Disp
begin

text \<open>
  Two connections and the network between them: the promise of reliable UDP, end to end.

  \<open>chA\<close> sends and \<open>chB\<close> receives. Every packet the sender of one side was ever given stays
  in that sender's list \<open>s_packets\<close>, and a step may hand any of them to the other side at any
  time: packets are lost, duplicated and reordered at will, and arrive with an arbitrary
  checksum field (the rest of a packet survives the wire, \<open>Providers\<close>). The steps are the
  functions of \<open>connection.c\<close> and the handlers of \<open>dispatcher.c\<close>. \<open>sent\<close> is the log of the
  packets \<open>rudp_conn_send\<close> accepted, \<open>got\<close> that of the packets \<open>rudp_conn_recv\<close> returned.

  The invariant \<open>ch_inv\<close> holds in every reachable state before sequence numbers come near
  their wrap-around; the received stream is a prefix of the sent one, and a packet leaves
  the send window only after the receiver has it.
\<close>

record 'fd channel =
  chA :: "'fd rudp_connection"
  chB :: "'fd rudp_connection"
  sA :: "'fd pvd_sender"
  sB :: "'fd pvd_sender"
  sent :: "protopack list"
  got :: "protopack list"

definition ch_init :: "u32 \<Rightarrow> u32 \<Rightarrow> 'fd \<Rightarrow> 'fd \<Rightarrow> int \<Rightarrow> 'fd channel" where
  "ch_init ua ub fa fb now =
     \<lparr>chA = rudp_conn_new ua ub fb now, chB = rudp_conn_new ub ua fa now,
      sA = snd pvd_sender_new, sB = snd pvd_sender_new, sent = [], got = []\<rparr>"

inductive ch_step :: "'fd channel \<Rightarrow> 'fd channel \<Rightarrow> bool" where
  app_send: "pack_ok p \<Longrightarrow> rudp_conn_send (chA s) (sA s) p t1 t2 = Inr (0, a, sa) \<Longrightarrow>
     ch_step s (s\<lparr>chA := a, sA := sa, sent := sent s @ [p\<lparr>seq := current_seq (chA s)\<rparr>]\<rparr>)"
| timeouts: "rudp_conn_timeouts (chA s) (sA s) now = Inr (r, a, sa) \<Longrightarrow>
     ch_step s (s\<lparr>chA := a, sA := sa\<rparr>)"
| net_data: "(p, to) \<in> set (s_packets (sA s)) \<Longrightarrow>
     data_handler (chB s) (sB s) (p\<lparr>chsum := x\<rparr>) now = Inr (b, sb) \<Longrightarrow>
     ch_step s (s\<lparr>chB := b, sB := sb\<rparr>)"
| net_ack: "(q, to) \<in> set (s_packets (sB s)) \<Longrightarrow>
     ch_step s (s\<lparr>chA := rack_handler (chA s) (q\<lparr>chsum := x\<rparr>) now\<rparr>)"
| app_recv: "rudp_conn_recv (chB s) = (0, Some p, b) \<Longrightarrow>
     ch_step s (s\<lparr>chB := b, got := got s @ [p]\<rparr>)"

inductive ch_reach :: "'fd channel \<Rightarrow> bool" where
  ch_init: "ch_reach (ch_init ua ub fa fb now)"
| ch_next: "ch_reach s \<Longrightarrow> ch_step s s' \<Longrightarrow> ch_reach s'"

inductive_cases ch_stepE: "ch_step s s'"

text \<open>A packet up to its checksum field.\<close>

definition strip :: "protopack \<Rightarrow> protopack" where
  "strip p = p\<lparr>chsum := 0\<rparr>"

text \<open>Sequence numbers stay this far from their wrap-around.\<close>

definition SEQ_BOUND :: nat where
  "SEQ_BOUND = 2 ^ 32 - 129"

definition log_ok :: "protopack list \<Rightarrow> bool" where
  "log_ok S \<longleftrightarrow> length S \<le> SEQ_BOUND \<and> (\<forall>i < length S. seq (S ! i) = of_nat i)"

definition from_log :: "protopack list \<Rightarrow> protopack \<Rightarrow> bool" where
  "from_log S p \<longleftrightarrow> (\<exists>i < length S. strip p = strip (S ! i))"

definition rx_inv :: "protopack list \<Rightarrow> protopack list \<Rightarrow> 'fd rudp_connection \<Rightarrow> bool" where
  "rx_inv S g c \<longleftrightarrow> rx_sorted c \<and> (\<forall>p \<in> set (buf c) \<union> set (pkts_net c). from_log S p) \<and>
     (\<forall>p \<in> set (buf c). expected_seq c \<le> seq p) \<and>
     length (g @ pkts_reordered c) \<le> length S \<and>
     map strip (g @ pkts_reordered c) = map strip (take (length (g @ pkts_reordered c)) S) \<and>
     expected_seq c = of_nat (length (g @ pkts_reordered c))"

definition tx_inv :: "protopack list \<Rightarrow> 'fd rudp_connection \<Rightarrow> bool" where
  "tx_inv S c \<longleftrightarrow> current_seq c = of_nat (length S) \<and> length (pending c) \<le> RUDP_SEND_WINDOW \<and>
     (\<forall>pp \<in> set (pending c). pend_ok pp \<and> (\<exists>i < length S. pend_key pp = (of_nat i, Some (S ! i))))"

definition retained :: "nat \<Rightarrow> nat \<Rightarrow> 'fd rudp_connection \<Rightarrow> bool" where
  "retained n m c \<longleftrightarrow> closed c \<or> (\<forall>i. n \<le> i \<and> i < m \<longrightarrow> of_nat i \<in> pp_seq ` set (pending c))"

definition ch_inv :: "'fd channel \<Rightarrow> bool" where
  "ch_inv s \<longleftrightarrow>
     (let n = length (got s @ pkts_reordered (chB s)) in
      log_ok (sent s) \<and> tx_inv (sent s) (chA s) \<and> rx_inv (sent s) (got s) (chB s) \<and>
      (\<forall>(p, to) \<in> set (s_packets (sA s)). p \<in> set (sent s)) \<and>
      (\<forall>(q, to) \<in> set (s_packets (sB s)). \<exists>m. m < n \<and> seq q = of_nat m) \<and>
      retained n (length (sent s)) (chA s))"

subsection \<open>Sequence numbers as indices\<close>

lemma seq_of_nat:
  assumes "i < 2 ^ 32" and "j < 2 ^ 32"
  shows "(of_nat i :: u32) = of_nat j \<longleftrightarrow> i = j" and "(of_nat i :: u32) \<le> of_nat j \<longleftrightarrow> i \<le> j"
    and "(of_nat i :: u32) < of_nat j \<longleftrightarrow> i < j"
  using assms
  by (simp_all add: word_of_nat_eq_iff take_bit_eq_mod word_le_nat_alt word_less_nat_alt unat_of_nat)

lemma nat_sint: "0 \<le> sint (w :: u32) \<Longrightarrow> of_nat (nat (sint w)) = w"
  by simp

lemma in_window_index:
  assumes "in_window (of_nat n) (of_nat j)" and "n \<le> SEQ_BOUND" and "j < 2 ^ 32"
  shows "n \<le> j"
proof -
  let ?d = "of_nat j - of_nat n :: u32"
  define k where "k = nat (sint ?d)"
  have w: "0 \<le> sint ?d" "sint ?d \<le> 128"
    using assms(1) by (simp_all add: in_window_def RUDP_REORDER_WINDOW_def)
  then have k: "k \<le> 128" "?d = of_nat k"
    unfolding k_def using nat_sint [OF w(1)] by simp_all
  then have "(of_nat j :: u32) = of_nat (n + k)"
    by (simp add: diff_eq_eq add.commute)
  moreover have "n + k < 2 ^ 32" using k(1) assms(2) by (simp add: SEQ_BOUND_def)
  ultimately have "j = n + k" using assms(3) seq_of_nat(1) by blast
  then show ?thesis by simp
qed

lemma strip_seq: "strip p = strip q \<Longrightarrow> seq p = seq q"
  by (metis protopack.select_convs(1) protopack.surjective protopack.update_convs(2) strip_def)

lemma strip_chsum [simp]: "strip (p\<lparr>chsum := x\<rparr>) = strip p"
  by (simp add: strip_def)

lemma from_log_seq:
  assumes "log_ok S" and "from_log S p"
  obtains i where "i < length S" "strip p = strip (S ! i)" "seq p = of_nat i" "i < 2 ^ 32"
proof -
  obtain i where i: "i < length S" "strip p = strip (S ! i)" using assms(2) by (auto simp: from_log_def)
  then have "seq p = of_nat i" "i < 2 ^ 32"
    using assms(1) strip_seq [OF i(2)] by (simp_all add: log_ok_def SEQ_BOUND_def)
  with i that show thesis by blast
qed

text \<open>A run of consecutive packets from the log, starting at index \<open>n\<close>, is a slice of it.\<close>

lemma run_is_slice:
  assumes log: "log_ok S" and frm: "\<forall>d \<in> set ds. from_log S d" and "n \<le> length S"
    and seqs: "map seq ds = map (\<lambda>i. of_nat n + of_nat i) [0..<length ds]"
  shows "n + length ds \<le> length S" and "map strip ds = map strip (take (length ds) (drop n S))"
proof -
  have at: "\<exists>j < length S. (of_nat j :: u32) = of_nat (n + i) \<and> strip (ds ! i) = strip (S ! j)"
    if "i < length ds" for i
  proof -
    have "from_log S (ds ! i)" using frm that by simp
    then obtain j where "j < length S" "strip (ds ! i) = strip (S ! j)" "seq (ds ! i) = of_nat j"
      using from_log_seq [OF log] by blast
    moreover have "seq (ds ! i) = of_nat n + of_nat i"
      using arg_cong [OF seqs, of "\<lambda>xs. xs ! i"] that by simp
    ultimately show ?thesis by (metis of_nat_add)
  qed
  have bound: "length S < 2 ^ 32" using log by (simp add: log_ok_def SEQ_BOUND_def)
  show le: "n + length ds \<le> length S"
  proof (rule ccontr)
    assume "\<not> n + length ds \<le> length S"
    then have "length S - n < length ds" "n + (length S - n) = length S" using assms(3) by auto
    then obtain j where "j < length S" "(of_nat j :: u32) = of_nat (length S)" using at by metis
    with bound show False using seq_of_nat(1) [of j "length S"] by simp
  qed
  have "strip (ds ! i) = strip (S ! (n + i))" if i: "i < length ds" for i
  proof -
    obtain j where j: "j < length S" "(of_nat j :: u32) = of_nat (n + i)" "strip (ds ! i) = strip (S ! j)"
      using at [OF i] by blast
    then have "j = n + i" using seq_of_nat(1) [of j "n + i"] le i bound by simp
    with j show ?thesis by simp
  qed
  then show "map strip ds = map strip (take (length ds) (drop n S))"
    using le by (intro nth_equalityI) simp_all
qed

subsection \<open>The receiver\<close>

lemma rx_inv_reordering:
  assumes inv: "rx_inv S g c" and log: "log_ok S"
  shows "rx_inv S g (snd (rudp_conn_reordering c))"
    and "length (pkts_reordered c) \<le> length (pkts_reordered (snd (rudp_conn_reordering c)))"
proof -
  define c' where "c' = snd (rudp_conn_reordering c)"
  define n where "n = length (g @ pkts_reordered c)"
  have rx: "rx_sorted c" and frm: "\<forall>p \<in> set (buf c) \<union> set (pkts_net c). from_log S p"
    and low: "\<forall>p \<in> set (buf c). expected_seq c \<le> seq p"
    and n: "n \<le> length S" "map strip (g @ pkts_reordered c) = map strip (take n S)" "expected_seq c = of_nat n"
    using inv unfolding rx_inv_def n_def by blast+
  obtain ds where ds: "pkts_reordered c' = pkts_reordered c @ ds"
    "set ds \<union> set (buf c') \<subseteq> {p \<in> set (pkts_net c). in_window (expected_seq c) (seq p)} \<union> set (buf c)"
    "map seq ds = map (\<lambda>i. expected_seq c + of_nat i) [0..<length ds]"
    "expected_seq c' = expected_seq c + of_nat (length ds)"
    "sorted_wrt (<) (map seq (ds @ buf c'))"
    using reordering_spec(1) [OF rx, folded c'_def] by (elim exE conjE) (rule that; assumption)
  have sub: "set ds \<union> set (buf c') \<subseteq> set (buf c) \<union> set (pkts_net c)" using ds(2) by blast
  then have froms: "\<forall>d \<in> set ds. from_log S d" "\<forall>d \<in> set (buf c'). from_log S d" using frm by blast+
  note slice = run_is_slice [OF log froms(1) n(1) ds(3) [unfolded n(3)]]
  have bound: "length S \<le> SEQ_BOUND" using log by (simp add: log_ok_def)
  have e': "expected_seq c' = of_nat (n + length ds)" using ds(4) n(3) by simp
  have lo: "of_nat n \<le> seq p" if "p \<in> set (buf c')" for p
  proof (cases "p \<in> set (buf c)")
    case True
    with low n(3) show ?thesis by simp
  next
    case False
    then have w: "in_window (of_nat n) (seq p)" using ds(2) that n(3) by auto
    have "from_log S p" using froms(2) that by blast
    then obtain j where j: "j < length S" "strip p = strip (S ! j)" "seq p = of_nat j" "j < 2 ^ 32"
      by (rule from_log_seq [OF log])
    have "n \<le> j" using in_window_index [of n j] w j n(1) bound by simp
    then show ?thesis using seq_of_nat(2) [of n j] j by simp
  qed
  have low': "expected_seq c' \<le> seq p" if p: "p \<in> set (buf c')" for p
  proof (cases ds rule: rev_cases)
    case Nil
    with lo [OF p] e' show ?thesis by simp
  next
    case (snoc ds0 d)
    have "d \<in> set ds" by (simp add: snoc)
    then have "seq d < seq p"
      using ds(5) p by (fastforce simp: sorted_wrt_append)
    have "seq d = of_nat (n + length ds0)"
      using arg_cong [OF ds(3), of last] n(3) by (simp add: snoc)
    have "from_log S p" using froms(2) p by blast
    then obtain j where j: "j < length S" "strip p = strip (S ! j)" "seq p = of_nat j" "j < 2 ^ 32"
      by (rule from_log_seq [OF log])
    have b: "n + length ds < 2 ^ 32" using slice(1) bound by (simp add: SEQ_BOUND_def)
    have "n + length ds0 < j"
      using \<open>seq d < seq p\<close> \<open>seq d = _\<close> j b seq_of_nat(3) [of "n + length ds0" j] by (simp add: snoc)
    then have "n + length ds \<le> j" by (simp add: snoc)
    then show ?thesis using e' j b seq_of_nat(2) [of "n + length ds" j] by simp
  qed
  have "map strip (g @ pkts_reordered c') = map strip (take (n + length ds) S)"
    using n(2) slice(2) by (simp add: ds(1) take_add)
  then show "rx_inv S g (snd (rudp_conn_reordering c))"
    using slice(1) e' froms(2) low' reordering_spec(2,3) [OF rx]
    unfolding rx_inv_def c'_def [symmetric] by (auto simp: ds(1) n_def add.assoc)
  show "length (pkts_reordered c) \<le> length (pkts_reordered (snd (rudp_conn_reordering c)))"
    using ds(1) by (simp add: c'_def)
qed

lemma rx_inv_data_rx:
  assumes "rx_inv S g c" and "log_ok S" and "from_log S p"
  shows "rx_inv S g (data_rx c p)"
    and "length (pkts_reordered c) \<le> length (pkts_reordered (data_rx c p))"
proof -
  let ?c = "c\<lparr>pkts_net := pkts_net c @ [p], ev_net := mt_evsock_notify (ev_net c)\<rparr>"
  have "rx_inv S g ?c"
    using assms by (auto simp: rx_inv_def rx_sorted_def expected_seq_def)
  then show "rx_inv S g (data_rx c p)"
    and "length (pkts_reordered c) \<le> length (pkts_reordered (data_rx c p))"
    using rx_inv_reordering [of S g ?c] assms(2) by (simp_all add: data_rx_def Let_def)
qed

text \<open>Progress: when the first missing packet arrives, at least that packet is handed over.\<close>

lemma data_rx_progress:
  assumes inv: "rx_inv S g c" and log: "log_ok S" and p: "from_log S p" "seq p = expected_seq c"
  shows "length (pkts_reordered c) < length (pkts_reordered (data_rx c p))"
proof -
  let ?c = "c\<lparr>pkts_net := pkts_net c @ [p], ev_net := mt_evsock_notify (ev_net c)\<rparr>"
  have inv': "rx_inv S g ?c"
    using inv p by (auto simp: rx_inv_def rx_sorted_def expected_seq_def)
  define c' where "c' = snd (rudp_conn_reordering ?c)"
  have d: "data_rx c p = c'" using p(2) by (simp add: data_rx_def c'_def)
  have e: "expected_seq ?c = expected_seq c" by (simp add: expected_seq_def)
  have "rx_sorted ?c" using inv' by (simp add: rx_inv_def)
  from reordering_spec(1) [OF this, folded c'_def, unfolded e] obtain ds where
    ds: "pkts_reordered c' = pkts_reordered c @ ds"
      "expected_seq c' = expected_seq c + of_nat (length ds)"
      "buf c' = [] \<or> seq (hd (buf c')) \<noteq> expected_seq c'"
      "\<forall>q \<in> set (pkts_net ?c). in_window (expected_seq c) (seq q) \<longrightarrow> seq q \<in> seq ` (set ds \<union> set (buf c'))"
      "sorted_wrt (<) (map seq (ds @ buf c'))"
    by auto
  have "seq p \<in> seq ` (set ds \<union> set (buf c'))"
    using ds(4) p(2) by (simp add: in_window_def RUDP_REORDER_WINDOW_def)
  moreover have "\<forall>q \<in> set (buf c'). expected_seq c' \<le> seq q"
    using rx_inv_reordering(1) [OF inv' log] unfolding c'_def rx_inv_def by blast
  ultimately have "ds \<noteq> []"
    using ds(2,3,5) p(2) by (cases "buf c'") fastforce+
  then show ?thesis by (simp add: d ds(1))
qed

subsection \<open>The sender\<close>

lemma from_log_append: "from_log S p \<Longrightarrow> from_log (S @ [x]) p"
  unfolding from_log_def by (metis butlast_snoc length_append_singleton less_Suc_eq nth_butlast)

lemma rx_inv_append: "rx_inv S g c \<Longrightarrow> rx_inv (S @ [x]) g c"
  by (auto simp: rx_inv_def intro: from_log_append)

lemma send_result:
  assumes "rudp_conn_send c s p t1 t2 = Inr (0, a, sa)"
  shows "\<not> closed c" and "len (pkts_fhost c) < RUDP_SEND_WINDOW"
  using assms by (auto simp: rudp_conn_send_def ENOTCONN_def EAGAIN_def not_le split: if_splits)

lemma nth_append_old: "i < length xs \<Longrightarrow> (xs @ [x]) ! i = xs ! i"
  by (simp add: nth_append)

lemma tx_invD:
  "tx_inv S c \<Longrightarrow> pp \<in> set (pending c) \<Longrightarrow>
   pend_ok pp \<and> (\<exists>i < length S. pend_key pp = (of_nat i, Some (S ! i)))"
  by (simp add: tx_inv_def)

lemma map_eq_image: "map f xs = map f ys \<Longrightarrow> f ` set xs = f ` set ys \<and> length xs = length ys"
  by (metis length_map list.set_map)

lemma tx_inv_send:
  assumes tx: "tx_inv S c" and p: "pack_ok p" and r: "rudp_conn_send c s p t1 t2 = Inr (0, a, sa)"
  defines "q \<equiv> p\<lparr>seq := current_seq c\<rparr>"
  shows "tx_inv (S @ [q]) a" and "s_packets sa = s_packets s @ [(q, nfd c)]"
    and "retained n (length S) c \<Longrightarrow> retained n (length (S @ [q])) a"
    and "seq q = of_nat (length S)"
proof -
  obtain c' s' pp where st: "rudp_conn_send c s p t1 t2 = Inr (0, c', s')"
    "s_packets s' = s_packets s @ [(q, nfd c)]" "pending c' = pending c @ [pp]"
    "pend_key pp = (current_seq c, Some q)" "pend_ok pp" "current_seq c' = current_seq c + 1"
    "\<exists>a. c' = c\<lparr>pkts_fhost := a, current_seq := current_seq c + 1\<rparr>"
    using rudp_conn_send_ok [OF p send_result [OF r], of s t1 t2, folded q_def]
    by (elim exE conjE) (rule that; (assumption | blast))
  then have eq: "c' = a" "s' = sa" using r by simp_all
  have cs: "current_seq c = of_nat (length S)" using tx by (simp add: tx_inv_def)
  then show "seq q = of_nat (length S)" by (simp add: q_def)
  show "s_packets sa = s_packets s @ [(q, nfd c)]" using st(2) eq by simp
  have old: "pend_ok pp' \<and> (\<exists>i < length (S @ [q]). pend_key pp' = (of_nat i, Some ((S @ [q]) ! i)))"
    if mem: "pp' \<in> set (pending c)" for pp'
  proof -
    obtain i where i: "pend_ok pp'" "i < length S" "pend_key pp' = (of_nat i, Some (S ! i))"
      using tx_invD [OF tx mem] by blast
    then have "pend_key pp' = (of_nat i, Some ((S @ [q]) ! i))" by (simp add: nth_append_old)
    moreover have "i < length (S @ [q])" using i(2) by simp
    ultimately show ?thesis using i(1) by blast
  qed
  have new: "pend_key pp = (of_nat (length S), Some ((S @ [q]) ! length S))"
    using st(4) cs by simp
  then have "\<exists>i < length (S @ [q]). pend_key pp = (of_nat i, Some ((S @ [q]) ! i))"
    by (intro exI [of _ "length S"]) simp
  then show "tx_inv (S @ [q]) a"
    using st(3,5,6) old send_result(2) [OF r] cs unfolding eq
    by (auto simp: tx_inv_def)
  have "pp_seq pp = of_nat (length S)" using new by (simp add: pend_key_def)
  moreover have "closed a = closed c" using st(7) eq by auto
  ultimately show "retained n (length S) c \<Longrightarrow> retained n (length (S @ [q])) a"
    using st(3) eq by (auto simp: retained_def less_Suc_eq)
qed

lemma tx_inv_timeouts:
  assumes tx: "tx_inv S c" and r: "rudp_conn_timeouts c s now = Inr (r, a, sa)"
  shows "tx_inv S a" and "retained n m c \<Longrightarrow> retained n m a"
    and "\<forall>(p, to) \<in> set (s_packets sa). (p, to) \<in> set (s_packets s) \<or> p \<in> set S"
proof -
  have pok: "\<forall>pp \<in> set (pending c). pend_ok pp" using tx by (simp add: tx_inv_def)
  obtain r' c' s' extra where st: "timeouts_loop c s now 0 = Inr (r', c', s')"
    "s_packets s' = s_packets s @ extra"
    "\<forall>(q, to) \<in> set extra. to = nfd c \<and> Some q \<in> copy_pack ` set (pending c)"
    "r' = 0 \<and> map pend_key (pending c') = map pend_key (pending c) \<and> closed c' = closed c \<or>
     r' = -1 \<and> closed c' \<and> length (pending c') < length (pending c) \<and>
       pend_key ` set (pending c') \<subseteq> pend_key ` set (pending c)"
    "\<forall>pp \<in> set (pending c'). pend_ok pp" "\<exists>a b. c' = c\<lparr>pkts_fhost := a, closed := b\<rparr>"
    using timeouts_loop_spec [OF pok, of s now 0]
    by (elim exE conjE) (rule that; (assumption | blast))
  have goal: "tx_inv S a \<and> (retained n m c \<longrightarrow> retained n m a) \<and>
    (\<forall>(p, to) \<in> set (s_packets sa). (p, to) \<in> set (s_packets s) \<or> p \<in> set S)"
  proof (cases "pending c = []")
    case True
    with r tx show ?thesis by (auto simp: rudp_conn_timeouts_def)
  next
    case False
    then have eq: "a = c'" "sa = s'" using r st(1) by (simp_all add: rudp_conn_timeouts_def)
    have both: "pend_key ` set (pending c') \<subseteq> pend_key ` set (pending c) \<and>
        length (pending c') \<le> length (pending c)"
      using st(4)
    proof (elim disjE conjE)
      assume "map pend_key (pending c') = map pend_key (pending c)"
      then show ?thesis using map_eq_image [of pend_key "pending c'" "pending c"] by simp
    qed simp
    note keys = conjunct1 [OF both] conjunct2 [OF both]
    have "\<exists>i < length S. pend_key pp = (of_nat i, Some (S ! i))" if mem: "pp \<in> set (pending c')" for pp
    proof -
      obtain pp' where "pp' \<in> set (pending c)" "pend_key pp = pend_key pp'"
        using subsetD [OF keys(1) imageI [OF mem]] by auto
      with tx_invD [OF tx] show ?thesis by simp
    qed
    moreover have "current_seq c' = current_seq c" using st(6) by auto
    ultimately have "tx_inv S c'"
      using tx st(5) keys(2) by (auto simp: tx_inv_def)
    moreover have "retained n m c'" if ret: "retained n m c"
    proof (cases "closed c'")
      case False
      then have k: "map pend_key (pending c') = map pend_key (pending c)" "closed c' = closed c"
        using st(4) by auto
      have "pp_seq ` A = fst ` pend_key ` A" for A
        by (force simp: pend_key_def)
      then have "pp_seq ` set (pending c') = pp_seq ` set (pending c)"
        using map_eq_image [OF k(1)] by simp
      with ret k(2) show ?thesis by (simp add: retained_def)
    qed (simp add: retained_def)
    moreover have "p \<in> set S" if mem: "(p, to) \<in> set extra" for p to
    proof -
      have "Some p \<in> copy_pack ` set (pending c)" using st(3) mem by auto
      then obtain pp where "pp \<in> set (pending c)" "copy_pack pp = Some p" by auto
      with tx_invD [OF tx, of pp] show ?thesis by (auto simp: pend_key_def)
    qed
    ultimately show ?thesis using st(2) eq by auto
  qed
  then show "tx_inv S a" "retained n m c \<Longrightarrow> retained n m a"
    "\<forall>(p, to) \<in> set (s_packets sa). (p, to) \<in> set (s_packets s) \<or> p \<in> set S" by blast+
qed

lemma rack_pending: "pp \<in> set (pending (rack_handler c q now)) \<longleftrightarrow> pp \<in> set (pending c) \<and> seq q < pp_seq pp"
proof -
  have "pp \<in># mset (pending (rack_handler c q now)) \<longleftrightarrow> pp \<in> set (pending c) \<and> seq q < pp_seq pp"
    unfolding rack_handler_pending by simp
  then show ?thesis by simp
qed

lemma rack_length: "length (pending (rack_handler c q now)) \<le> length (pending c)"
proof -
  have "size (mset (pending (rack_handler c q now))) \<le> size (mset (pending c))"
    unfolding rack_handler_pending by (rule size_filter_mset_lesseq)
  then show ?thesis by simp
qed

lemma tx_inv_rack:
  assumes tx: "tx_inv S c" and q: "seq q = of_nat m" "m < n" "n \<le> SEQ_BOUND" "length S \<le> SEQ_BOUND"
  shows "tx_inv S (rack_handler c q now)"
    and "retained n (length S) c \<Longrightarrow> retained n (length S) (rack_handler c q now)"
proof -
  let ?c = "rack_handler c q now"
  have same: "current_seq ?c = current_seq c" "closed ?c = closed c"
    using rack_handler_frame [of c q now] by auto
  then show "tx_inv S ?c"
    using tx rack_length [of c q now] by (auto simp: tx_inv_def rack_pending)
  have "of_nat i \<in> pp_seq ` set (pending ?c)"
    if "n \<le> i" "i < length S" "of_nat i \<in> pp_seq ` set (pending c)" for i
  proof -
    have "seq q < of_nat i"
      using that(1,2) q seq_of_nat(3) [of m i] by (simp add: SEQ_BOUND_def)
    with that(3) show ?thesis by (auto simp: rack_pending)
  qed
  then show "retained n (length S) c \<Longrightarrow> retained n (length S) ?c"
    by (auto simp: retained_def same)
qed

subsection \<open>The invariant\<close>

lemma rx_inv_frame [simp]:
  "rx_inv S g (c\<lparr>packets_since_ack := i1, last_ack_sent_seq := i2, last_ack_timestamp := i3,
     ack_threshold := i4\<rparr>) = rx_inv S g c"
  by (simp add: rx_inv_def rx_sorted_def expected_seq_def)

lemma retained_mono: "retained n m c \<Longrightarrow> n \<le> n' \<Longrightarrow> retained n' m c"
  by (auto simp: retained_def)

lemma expected_pos:
  assumes "expected_seq c = of_nat n" and "last_recved_seq c \<noteq> UINT32_MAX" and "n < 2 ^ 32"
  shows "\<exists>m < n. last_recved_seq c = of_nat m"
proof (cases n)
  case 0
  then have "last_recved_seq c + 1 = 0" using assms(1) by (simp add: expected_seq_eq)
  then have "last_recved_seq c = UINT32_MAX" by (simp add: UINT32_MAX_minus_1 eq_neg_iff_add_eq_0)
  with assms(2) show ?thesis by simp
next
  case (Suc m)
  then have "last_recved_seq c + 1 = of_nat m + 1" using assms(1) by (simp add: expected_seq_eq add.commute)
  then show ?thesis using Suc by (intro exI [of _ m]) simp
qed

lemma ch_inv_init: "ch_inv (ch_init ua ub fa fb now)"
  by (simp add: ch_inv_def ch_init_def rudp_conn_new_def pvd_sender_new_def log_ok_def tx_inv_def
      rx_inv_def rx_sorted_def retained_def expected_seq_def)

lemma ch_inv_step:
  assumes "ch_step s s'" and "ch_inv s" and "length (sent s') \<le> SEQ_BOUND"
  shows "ch_inv s'"
  using assms
proof (induction rule: ch_step.induct)
  case (app_send p s t1 t2 a sa)
  define q where "q = p\<lparr>seq := current_seq (chA s)\<rparr>"
  have tx: "tx_inv (sent s) (chA s)" using app_send.prems(1) by (simp add: ch_inv_def Let_def)
  note t = tx_inv_send [OF tx app_send.hyps, folded q_def]
  have "log_ok (sent s @ [q])"
    using app_send.prems t(4) by (auto simp: ch_inv_def log_ok_def Let_def nth_append less_Suc_eq)
  then show ?case
    using app_send.prems(1) t(1-3) rx_inv_append
    by (auto simp: ch_inv_def Let_def q_def [symmetric])
next
  case (timeouts s now r a sa)
  have tx: "tx_inv (sent s) (chA s)" using timeouts.prems(1) by (simp add: ch_inv_def Let_def)
  show ?case
    using timeouts.prems(1) tx_inv_timeouts [OF tx timeouts.hyps] by (auto simp: ch_inv_def Let_def)
next
  case (net_data p to s x now b sb)
  let ?c = "chB s" and ?p = "p\<lparr>chsum := x\<rparr>"
  have inv: "log_ok (sent s)" "rx_inv (sent s) (got s) ?c" "p \<in> set (sent s)"
    using net_data.prems(1) net_data.hyps(1) by (auto simp: ch_inv_def Let_def)
  then have frm: "from_log (sent s) ?p" by (auto simp: from_log_def in_set_conv_nth)
  note d = rx_inv_data_rx [OF inv(2,1) frm]
  obtain c' s'' acks i1 i2 i3 i4 where h: "data_handler ?c (sB s) ?p now = Inr (c', s'')"
    "c' = (data_rx ?c ?p)\<lparr>packets_since_ack := i1, last_ack_sent_seq := i2, last_ack_timestamp := i3,
             ack_threshold := i4\<rparr>"
    "s_packets s'' = s_packets (sB s) @ acks"
    "\<forall>(q, to) \<in> set acks. last_recved_seq (data_rx ?c ?p) \<noteq> UINT32_MAX \<and>
        seq q = last_recved_seq (data_rx ?c ?p) \<and> packtype q = pt_code PACK_RACK \<and> pack_ok q"
    using data_handler_spec [of ?c "sB s" ?p now] by (elim exE conjE) (rule that; assumption)
  have eq: "b = c'" "sb = s''" using h(1) net_data.hyps(2) by simp_all
  define n where "n = length (got s @ pkts_reordered (data_rx ?c ?p))"
  have rx: "rx_inv (sent s) (got s) b"
    using d(1) by (simp add: eq h(2))
  have n: "expected_seq (data_rx ?c ?p) = of_nat n" "n \<le> length (sent s)"
    using d(1) unfolding rx_inv_def n_def by blast+
  have ack: "\<exists>m < n. seq q = of_nat m" if "(q, to) \<in> set acks" for q to
  proof -
    have lr: "last_recved_seq (data_rx ?c ?p) \<noteq> UINT32_MAX" "seq q = last_recved_seq (data_rx ?c ?p)"
      using h(4) that by auto
    have "n < 2 ^ 32" using n(2) inv(1) by (simp add: log_ok_def SEQ_BOUND_def)
    with expected_pos [OF n(1) lr(1)] lr(2) show ?thesis by simp
  qed
  have len: "length (got s @ pkts_reordered b) = n" by (simp add: n_def eq h(2))
  have mono: "length (got s @ pkts_reordered ?c) \<le> n" using d(2) by (simp add: n_def)
  have "\<exists>m < n. seq q = of_nat m" if "(q, to) \<in> set (s_packets (sB s))" for q to
  proof -
    have "\<exists>m < length (got s @ pkts_reordered ?c). seq q = of_nat m"
      using net_data.prems(1) that by (auto simp: ch_inv_def Let_def)
    with mono show ?thesis by (meson less_le_trans)
  qed
  with ack have "\<forall>(q, to) \<in> set (s_packets sb). \<exists>m < n. seq q = of_nat m"
    by (auto simp: eq h(3))
  moreover have "retained n (length (sent s)) (chA s)"
    using net_data.prems(1) mono by (auto simp: ch_inv_def Let_def intro: retained_mono)
  ultimately show ?case
    using net_data.prems(1) rx len by (simp add: ch_inv_def Let_def)
next
  case (net_ack q to s x now)
  define n where "n = length (got s @ pkts_reordered (chB s))"
  have inv: "log_ok (sent s)" "tx_inv (sent s) (chA s)" "retained n (length (sent s)) (chA s)"
      "n \<le> length (sent s)" and "\<exists>m < n. seq q = of_nat m"
    using net_ack by (auto simp: ch_inv_def Let_def n_def rx_inv_def)
  then obtain m where m: "seq (q\<lparr>chsum := x\<rparr>) = of_nat m" "m < n" by auto
  have "n \<le> SEQ_BOUND" "length (sent s) \<le> SEQ_BOUND" using inv by (simp_all add: log_ok_def)
  note t = tx_inv_rack [OF inv(2) m this]
  show ?case
    using net_ack.prems(1) t(1) t(2) [OF inv(3)] by (simp add: ch_inv_def Let_def n_def)
next
  case (app_recv s p b)
  obtain ps where "pkts_reordered (chB s) = p # ps" "b = (chB s)\<lparr>pkts_reordered := ps\<rparr>"
    using app_recv.hyps by (auto simp: rudp_conn_recv_def split: if_splits list.splits)
  then show ?case
    using app_recv.prems(1) by (auto simp: ch_inv_def Let_def rx_inv_def rx_sorted_def expected_seq_def)
qed

lemma sent_mono: "ch_step s s' \<Longrightarrow> length (sent s) \<le> length (sent s')"
  by (induction rule: ch_step.induct) auto

lemma ch_inv_reach: "ch_reach s \<Longrightarrow> length (sent s) \<le> SEQ_BOUND \<Longrightarrow> ch_inv s"
proof (induction rule: ch_reach.induct)
  case (ch_init ua ub fa fb now)
  show ?case by (rule ch_inv_init)
next
  case (ch_next s s')
  then show ?case using sent_mono [OF ch_next.hyps(2)] ch_inv_step by fastforce
qed

subsection \<open>Transmissions\<close>

text \<open>
  \<open>copies w\<close> counts the packets numbered \<open>w\<close> that were handed to the sender, the first
  transmission and the repetitions; \<open>window_ok\<close> says that the counter of a pending entry
  is exact and that no number is handed over more than eleven times, also after its entry is gone.
\<close>

definition copies :: "u32 \<Rightarrow> 'fd pvd_sender \<Rightarrow> nat" where
  "copies w s = length (filter (\<lambda>(p, _). seq p = w) (s_packets s))"

definition sends_ok :: "'fd rudp_connection \<Rightarrow> 'fd pvd_sender \<Rightarrow> bool" where
  "sends_ok c s \<longleftrightarrow> distinct (map pp_seq (pending c)) \<and>
     (\<forall>pp \<in> set (pending c). copies (pp_seq pp) s = 1 + retransmit_count pp) \<and>
     (\<forall>w. copies w s \<le> 1 + RUDP_RETRANSMISSION_CAP)"

lemma sends_subset:
  assumes "sends_ok c s" and "mset ys \<subseteq># mset (pending c)" and "pending c' = ys"
  shows "sends_ok c' s"
proof -
  obtain zs where "mset (pending c) = mset (ys @ zs)"
    using assms(2) by (metis mset_append mset_subset_eqD subset_mset.add_diff_inverse ex_mset)
  then have "mset (map pp_seq (pending c)) = mset (map pp_seq (ys @ zs))" by (simp only: mset_map)
  from mset_eq_imp_distinct_iff [OF this] have "distinct (map pp_seq (ys @ zs))" using assms(1) by (simp add: sends_ok_def)
  then have "distinct (map pp_seq ys)" by simp
  moreover have "set ys \<subseteq> set (pending c)" using set_mset_mono [OF assms(2)] by simp
  ultimately show ?thesis using assms(1,3) by (auto simp: sends_ok_def)
qed

lemma timeouts_sends:
  assumes "\<forall>pp \<in> set (pending c). pend_ok pp" and "sends_ok c s" and "timeouts_loop c s now i = Inr (r, c', s')"
  shows "sends_ok c' s'"
  using assms
proof (induction c s now i rule: timeouts_loop.induct)
  case (1 c s now i)
  show ?case
  proof (cases "dyn_array_at (pkts_fhost c) i")
    case None
    with "1.prems" show ?thesis by (simp add: timeouts_loop.simps [of c])
  next
    case (Some pkt)
    then have i: "i < length (pending c)" "pkt = pending c ! i"
      by (simp_all add: dyn_array_at_def split: if_splits)
    then have pin: "pkt \<in> set (pending c)" and "pend_ok pkt" using "1.prems"(1) by simp_all
    then obtain q where q: "copy_pack pkt = Some q" "pack_ok q" "seq q = pp_seq pkt" by (auto simp: pend_ok_def)
    consider (cap) "RUDP_RETRANSMISSION_CAP \<le> retransmit_count pkt"
      | (resend) "\<not> RUDP_RETRANSMISSION_CAP \<le> retransmit_count pkt"
          "backoff_ms (avg_rtt_ms c) (retransmit_count pkt) \<le> now - pp_timestamp pkt"
      | (idle) "\<not> RUDP_RETRANSMISSION_CAP \<le> retransmit_count pkt"
          "\<not> backoff_ms (avg_rtt_ms c) (retransmit_count pkt) \<le> now - pp_timestamp pkt" by blast
    then show ?thesis
    proof cases
      case cap
      define ys where "ys = (pending c)[i := pending c ! (length (pending c) - 1)]"
      have e: "pending c' = butlast ys \<and> s' = s"
        using "1.prems"(3) Some cap q i
        by (auto simp: timeouts_loop.simps [of c] Let_def elements_remove ys_def butlast_conv_take)
      note sw = swap_remove [OF i(1), folded ys_def]
      have "mset (butlast ys) = mset (take i (butlast ys)) + mset (drop i (butlast ys))"
        by (metis append_take_drop_id mset_append)
      then have "add_mset (pending c ! i) (mset (butlast ys)) = mset (take i (pending c)) + mset (drop i (pending c))"
        using sw by simp
      then have "add_mset (pending c ! i) (mset (butlast ys)) = mset (pending c)"
        by (metis append_take_drop_id mset_append)
      then have "mset (butlast ys) \<subseteq># mset (pending c)" by (metis add_mset_add_single mset_subset_eq_add_left)
      with sends_subset [OF "1.prems"(2)] e show ?thesis by blast
    next
      case resend
      let ?pkt = "pkt\<lparr>pp_timestamp := now, retransmit_count := retransmit_count pkt + 1\<rparr>"
      let ?c = "c\<lparr>pkts_fhost := (pkts_fhost c)\<lparr>elements := (pending c)[i := ?pkt]\<rparr>\<rparr>"
      let ?s = "s\<lparr>s_packets := s_packets s @ [(q, nfd c)], s_newpack := mt_evsock_notify (s_newpack s)\<rparr>"
      have step: "timeouts_loop c s now i = timeouts_loop ?c ?s now (i + 1)"
        using Some resend q by (simp add: timeouts_loop.simps [of c] pvd_sender_send_ok)
      have ok: "\<forall>pp \<in> set (pending ?c). pend_ok pp"
        using "1.prems"(1) \<open>pend_ok pkt\<close> resend(1) by (auto simp: pend_ok_def dest!: set_update_subset_insert [THEN subsetD])
      have cp: "copies w ?s = copies w s + (if w = pp_seq pkt then 1 else 0)" for w
        using q(3) by (auto simp: copies_def)
      have old: "distinct (map pp_seq (pending c))" "\<forall>pp \<in> set (pending c). copies (pp_seq pp) s = 1 + retransmit_count pp"
        "\<forall>w. copies w s \<le> 1 + RUDP_RETRANSMISSION_CAP" using "1.prems"(2) by (simp_all add: sends_ok_def)
      have keys: "map pp_seq (pending ?c) = map pp_seq (pending c)"
        using i by (simp add: map_update list_update_same_conv)
      have "copies (pp_seq (pending ?c ! j)) ?s = 1 + retransmit_count (pending ?c ! j)" if j: "j < length (pending c)" for j
      proof (cases "j = i")
        case True
        then show ?thesis using old(2) pin i(1) cp [of "pp_seq pkt"] by simp
      next
        case False
        then have "pp_seq (pending c ! j) \<noteq> pp_seq pkt"
          using old(1) i j by (simp add: distinct_conv_nth)
        then show ?thesis using False j old(2) cp by simp
      qed
      then have "\<forall>pp \<in> set (pending ?c). copies (pp_seq pp) ?s = 1 + retransmit_count pp"
        by (auto simp: in_set_conv_nth simp del: nth_list_update)
      moreover have "copies w ?s \<le> 1 + RUDP_RETRANSMISSION_CAP" for w
        using cp [of w] old(2,3) pin resend(1) by (cases "w = pp_seq pkt") auto
      ultimately have "sends_ok ?c ?s" using old(1) keys by (simp add: sends_ok_def)
      with "1.IH"(2) [OF Some _ resend ok, of ?s] q(1) "1.prems"(3) step show ?thesis by simp
    next
      case idle
      then have "timeouts_loop c s now i = timeouts_loop c s now (i + 1)"
        using Some q by (simp add: timeouts_loop.simps [of c s now i])
      with "1.IH"(3) [OF Some _ idle] q(1) "1.prems" show ?thesis by simp
    qed
  qed
qed

lemma send_fresh:
  assumes "pack_ok p" and "rudp_conn_send c s p t1 t2 = Inr (0, a, sa)"
  shows "\<exists>pp. pending a = pending c @ [pp] \<and> pp_seq pp = current_seq c \<and> retransmit_count pp = 0"
  using assms
  by (auto simp: rudp_conn_send_def copy_pack_ok rudp_pkt_make_def pvd_sender_send_ok dyn_array_push_ok Let_def split_beta ENOTCONN_def EAGAIN_def
      split: if_splits)


definition window_ok :: "'fd channel \<Rightarrow> bool" where
  "window_ok s \<longleftrightarrow> sends_ok (chA s) (sA s)"

lemma copies_none: "\<forall>(p, to) \<in> set (s_packets s). seq p \<noteq> w \<Longrightarrow> copies w s = 0"
  by (auto simp: copies_def filter_empty_conv)

lemma window_step:
  assumes "ch_step s s'" and "ch_inv s" and "length (sent s') \<le> SEQ_BOUND" and "window_ok s"
  shows "window_ok s'"
  using assms
proof (induction rule: ch_step.induct)
  case (app_send p s t1 t2 a sa)
  have inv: "tx_inv (sent s) (chA s)" "log_ok (sent s)" "\<forall>(p, to) \<in> set (s_packets (sA s)). p \<in> set (sent s)"
    using app_send.prems(1) by (simp_all add: ch_inv_def Let_def)
  let ?w = "current_seq (chA s)"
  have w: "?w = of_nat (length (sent s))" using inv(1) by (simp add: tx_inv_def)
  have fresh: "seq q \<noteq> ?w" if "q \<in> set (sent s)" for q
  proof -
    from that obtain k where "k < length (sent s)" "q = sent s ! k" unfolding in_set_conv_nth by blast
    then show ?thesis
      using inv(2) w seq_of_nat(1) [of k "length (sent s)"] app_send.prems(2) by (simp add: log_ok_def SEQ_BOUND_def)
  qed
  have none: "copies ?w (sA s) = 0" using inv(3) fresh by (intro copies_none) auto
  have cp: "copies v sa = copies v (sA s) + (if v = ?w then 1 else 0)" for v
    using tx_inv_send(2) [OF inv(1) app_send.hyps] by (auto simp: copies_def)
  obtain pp where pp: "pending a = pending (chA s) @ [pp]" "pp_seq pp = ?w" "retransmit_count pp = 0"
    using send_fresh [OF app_send.hyps] by blast
  have old: "sends_ok (chA s) (sA s)" using app_send.prems(3) by (simp add: window_ok_def)
  have "pp_seq x \<noteq> ?w" if "x \<in> set (pending (chA s))" for x
  proof
    assume "pp_seq x = ?w"
    with old that none show False by (auto simp: sends_ok_def)
  qed
  moreover have "copies v sa \<le> 1 + RUDP_RETRANSMISSION_CAP" for v
    using cp [of v] none old by (cases "v = ?w") (simp_all add: sends_ok_def)
  ultimately show ?case using old pp cp none by (auto simp: window_ok_def sends_ok_def)
next
  case (timeouts s now r a sa)
  have "\<forall>pp \<in> set (pending (chA s)). pend_ok pp"
    using timeouts.prems(1) by (auto simp: ch_inv_def tx_inv_def Let_def)
  then show ?case
    using timeouts timeouts_sends [of "chA s" "sA s" now 0 r a sa]
    by (auto simp: window_ok_def rudp_conn_timeouts_def split: if_splits)
next
  case (net_ack q to s x now)
  have "mset (pending (rack_handler (chA s) (q\<lparr>chsum := x\<rparr>) now)) \<subseteq># mset (pending (chA s))"
    by (simp add: rack_handler_pending)
  with sends_subset [OF _ this refl] net_ack.prems(3) show ?case by (simp add: window_ok_def)
qed (simp_all add: window_ok_def)

lemma window_reach: "ch_reach s \<Longrightarrow> length (sent s) \<le> SEQ_BOUND \<Longrightarrow> window_ok s"
proof (induction rule: ch_reach.induct)
  case (ch_init ua ub fa fb now)
  show ?case
    by (simp add: window_ok_def sends_ok_def ch_init_def rudp_conn_new_def pvd_sender_new_def copies_def)
next
  case (ch_next s s')
  then show ?case using sent_mono [OF ch_next.hyps(2)] window_step ch_inv_reach [OF ch_next.hyps(1)] by fastforce
qed

subsection \<open>Properties\<close>

lemma got_prefix:
  assumes "ch_reach s" and "length (sent s) \<le> SEQ_BOUND"
  shows "map strip (got s) = map strip (take (length (got s)) (sent s))"
proof -
  have "rx_inv (sent s) (got s) (chB s)"
    using ch_inv_reach [OF assms] by (simp add: ch_inv_def Let_def)
  then have "map strip (got s @ pkts_reordered (chB s)) =
      map strip (take (length (got s @ pkts_reordered (chB s))) (sent s))"
    unfolding rx_inv_def by blast
  from arg_cong [OF this, of "take (length (got s))"] show ?thesis
    by (simp add: take_map min_def)
qed

text \<open>
  C1: reliable, ordered delivery: as long as at most 2^32 - 129 packets are sent on the connection,
  whatever the network loses, repeats or reorders, the packets the receiving program has got
  are a prefix of the packets the sending program has sent, in the same order, each exactly
  once (up to the checksum field).
\<close>

theorem rudp_stream_prefix:
  assumes "ch_reach s" and "length (sent s) \<le> SEQ_BOUND"
  shows "map strip (got s) = map strip (take (length (got s)) (sent s))"
  using assms by (rule got_prefix)

text \<open>
  C2: nothing is lost: while the sending connection is open and at most 2^32 - 129 packets have been
  sent on it, every packet that has not yet been made ready at the receiver is still in the send
  window, so it is retransmitted.
\<close>

theorem rudp_unreceived_retained:
  assumes "ch_reach s" and "length (sent s) \<le> SEQ_BOUND" and "\<not> closed (chA s)"
    and "length (got s @ pkts_reordered (chB s)) \<le> i" and "i < length (sent s)"
  shows "\<exists>pp \<in> set (pending (chA s)). pend_key pp = (of_nat i, Some (sent s ! i))"
proof -
  have inv: "tx_inv (sent s) (chA s)"
    "retained (length (got s @ pkts_reordered (chB s))) (length (sent s)) (chA s)"
    using ch_inv_reach [OF assms(1,2)] by (simp_all add: ch_inv_def Let_def)
  then have "of_nat i \<in> pp_seq ` set (pending (chA s))"
    using assms(3-5) by (simp add: retained_def)
  then obtain pp where pp: "pp \<in> set (pending (chA s))" "pp_seq pp = of_nat i" by auto
  then obtain j where j: "j < length (sent s)" "pend_key pp = (of_nat j, Some (sent s ! j))"
    using tx_invD [OF inv(1)] by blast
  then have "j = i"
    using pp(2) seq_of_nat(1) [of i j] assms(2,5) by (simp add: pend_key_def SEQ_BOUND_def)
  with pp j show ?thesis by blast
qed

text \<open>
  C3: progress: while at most 2^32 - 129 packets have been sent on the connection, a copy of the
  first packet not yet made ready that reaches the receiver, whatever came before it, makes the data
  handler hand over at least that packet, without a fault.
\<close>

theorem rudp_progress:
  assumes "ch_reach s" and "length (sent s) \<le> SEQ_BOUND"
    and "n = length (got s @ pkts_reordered (chB s))" and "n < length (sent s)"
  shows "\<exists>b sb. data_handler (chB s) (sB s) ((sent s ! n)\<lparr>chsum := x\<rparr>) now = Inr (b, sb) \<and>
    n < length (got s @ pkts_reordered b)"
proof -
  let ?p = "(sent s ! n)\<lparr>chsum := x\<rparr>"
  have inv: "log_ok (sent s)" "rx_inv (sent s) (got s) (chB s)"
    using ch_inv_reach [OF assms(1,2)] by (simp_all add: ch_inv_def Let_def)
  have "expected_seq (chB s) = of_nat n" using inv(2) unfolding rx_inv_def assms(3) by blast
  then have "seq ?p = expected_seq (chB s)" using inv(1) assms(4) by (simp add: log_ok_def)
  moreover have "from_log (sent s) ?p" using assms(4) by (auto simp: from_log_def)
  ultimately have more: "length (pkts_reordered (chB s)) < length (pkts_reordered (data_rx (chB s) ?p))"
    using data_rx_progress [OF inv(2,1)] by blast
  obtain c' s' acks i1 i2 i3 i4 where h: "data_handler (chB s) (sB s) ?p now = Inr (c', s')"
    "c' = (data_rx (chB s) ?p)\<lparr>packets_since_ack := i1, last_ack_sent_seq := i2, last_ack_timestamp := i3,
             ack_threshold := i4\<rparr>"
    using data_handler_spec [of "chB s" "sB s" ?p now] by (elim exE conjE) (rule that; assumption)
  with more assms(3) show ?thesis by simp
qed

text \<open>
  C29: the send window: as long as at most 2^32 - 129 packets are sent on the connection, at most 128
  are pending, each entry owns the packet with its number, and the sender was given that packet
  exactly once and once more for each retransmission counted in the entry. No packet is handed to
  the sender more than eleven times, pending or not.
\<close>

theorem rudp_send_window:
  assumes "ch_reach s" and "length (sent s) \<le> SEQ_BOUND"
  shows "length (pending (chA s)) \<le> 128 \<and> (\<forall>w. copies w (sA s) \<le> 1 + 10) \<and>
    (\<forall>pp \<in> set (pending (chA s)). retransmit_count pp \<le> 10 \<and> copies (pp_seq pp) (sA s) = 1 + retransmit_count pp \<and>
       (\<exists>q. copy_pack pp = Some q \<and> seq q = pp_seq pp \<and> q \<in> set (sent s)))"
proof -
  have inv: "tx_inv (sent s) (chA s)" using ch_inv_reach [OF assms] by (simp add: ch_inv_def Let_def)
  have win: "sends_ok (chA s) (sA s)" using window_reach [OF assms] by (simp add: window_ok_def)
  have "\<exists>q. copy_pack pp = Some q \<and> seq q = pp_seq pp \<and> q \<in> set (sent s)" "retransmit_count pp \<le> 10"
    if "pp \<in> set (pending (chA s))" for pp
    using tx_invD [OF inv that] by (auto simp: pend_ok_def pend_key_def RUDP_RETRANSMISSION_CAP_def)
  with inv win show ?thesis by (simp add: tx_inv_def sends_ok_def RUDP_SEND_WINDOW_def RUDP_RETRANSMISSION_CAP_def)
qed

text \<open>A reachable state with one packet handed over, for the witnesses.\<close>

definition demo_ch :: "nat channel" where
  "demo_ch = ch_init 1 2 10 20 0"

lemma demo_first:
  assumes "pack_ok q"
  obtains a sa b sb p where "rudp_conn_send (chA demo_ch) (sA demo_ch) q 0 0 = Inr (0, a, sa)" "\<not> closed a"
    "ch_reach (demo_ch\<lparr>chA := a, sA := sa, sent := [q\<lparr>seq := 0\<rparr>]\<rparr>)"
    "ch_step (demo_ch\<lparr>chA := a, sA := sa, sent := [q\<lparr>seq := 0\<rparr>]\<rparr>)
       (demo_ch\<lparr>chA := a, sA := sa, sent := [q\<lparr>seq := 0\<rparr>], chB := b, sB := sb\<rparr>)"
    "pkts_reordered b = [p]" "\<not> closed b"
proof -
  let ?q = "q\<lparr>seq := 0\<rparr>"
  have c0: "\<not> closed (chA demo_ch)" "len (pkts_fhost (chA demo_ch)) < RUDP_SEND_WINDOW"
    "current_seq (chA demo_ch) = 0" "s_packets (sA demo_ch) = []" "pkts_reordered (chB demo_ch) = []"
    "got demo_ch = []" "sent demo_ch = []"
    by (simp_all add: demo_ch_def ch_init_def rudp_conn_new_def RUDP_SEND_WINDOW_def pvd_sender_new_def)
  obtain a sa pp where a: "rudp_conn_send (chA demo_ch) (sA demo_ch) q 0 0 = Inr (0, a, sa)"
    "s_packets sa = s_packets (sA demo_ch) @ [(?q, nfd (chA demo_ch))]"
    "\<exists>x. a = (chA demo_ch)\<lparr>pkts_fhost := x, current_seq := 0 + 1\<rparr>"
    using rudp_conn_send_ok [OF assms c0(1,2), of "sA demo_ch" 0 0] unfolding c0(3)
    by (elim exE conjE) (rule that; (assumption | blast))
  define s1 where "s1 = demo_ch\<lparr>chA := a, sA := sa, sent := [?q]\<rparr>"
  have r1: "ch_reach s1"
    using ch_step.app_send [OF assms a(1)] ch_reach.ch_init ch_reach.ch_next c0
    unfolding s1_def demo_ch_def by fastforce
  have "1 \<le> SEQ_BOUND" by (simp add: SEQ_BOUND_def)
  then have inv: "ch_inv s1" using ch_inv_reach [OF r1] by (simp add: s1_def)
  have log: "log_ok [?q]" "rx_inv [?q] [] (chB demo_ch)"
    using inv c0 by (simp_all add: ch_inv_def s1_def Let_def)
  have e: "expected_seq (chB demo_ch) = 0"
    using log(2) c0 unfolding rx_inv_def by simp
  have frm: "from_log [?q] ?q" by (simp add: from_log_def)
  have more: "length (pkts_reordered (chB demo_ch)) < length (pkts_reordered (data_rx (chB demo_ch) ?q))"
    using data_rx_progress [OF log(2,1) frm] e by simp
  have "length (pkts_reordered (data_rx (chB demo_ch) ?q)) \<le> 1"
    using rx_inv_data_rx(1) [OF log(2,1) frm] by (simp add: rx_inv_def)
  with more obtain p where p: "pkts_reordered (data_rx (chB demo_ch) ?q) = [p]"
    by (cases "pkts_reordered (data_rx (chB demo_ch) ?q)") auto
  obtain b sb acks i1 i2 i3 i4 where b: "data_handler (chB demo_ch) (sB demo_ch) ?q 0 = Inr (b, sb)"
    "b = (data_rx (chB demo_ch) ?q)\<lparr>packets_since_ack := i1, last_ack_sent_seq := i2, last_ack_timestamp := i3,
             ack_threshold := i4\<rparr>"
    using data_handler_spec [of "chB demo_ch" "sB demo_ch" ?q 0] by (elim exE conjE) (rule that; assumption)
  have "closed (data_rx (chB demo_ch) ?q) = False"
    using reordering_spec(6) [of "(chB demo_ch)\<lparr>pkts_net := pkts_net (chB demo_ch) @ [?q],
      ev_net := mt_evsock_notify (ev_net (chB demo_ch))\<rparr>"] log(2) e
    by (simp add: data_rx_def rx_inv_def rx_sorted_def demo_ch_def ch_init_def rudp_conn_new_def)
  with b p have b': "pkts_reordered b = [p]" "\<not> closed b" by simp_all
  define s2 where "s2 = s1\<lparr>chB := b, sB := sb\<rparr>"
  have "ch_step s1 s2"
    unfolding s2_def
    by (rule ch_step.net_data [of ?q "nfd (chA demo_ch)" _ "chsum ?q" 0])
      (use a(2) b(1) in \<open>simp_all add: s1_def\<close>)
  moreover have "\<not> closed a" using a(3) c0(1) by auto
  ultimately show ?thesis using that [where a = a and sa = sa and b = b and sb = sb and p = p] a(1) r1 b' unfolding s2_def s1_def by simp
qed

lemma demo_reach:
  "\<exists>s :: nat channel. ch_reach s \<and> sent s = [demo_pack\<lparr>seq := 0\<rparr>] \<and> length (got s) = 1 \<and>
     \<not> closed (chA s) \<and> pkts_reordered (chB s) = []"
proof -
  obtain a sa b sb p where f: "\<not> closed a" "ch_reach (demo_ch\<lparr>chA := a, sA := sa, sent := [demo_pack\<lparr>seq := 0\<rparr>]\<rparr>)"
    "ch_step (demo_ch\<lparr>chA := a, sA := sa, sent := [demo_pack\<lparr>seq := 0\<rparr>]\<rparr>)
       (demo_ch\<lparr>chA := a, sA := sa, sent := [demo_pack\<lparr>seq := 0\<rparr>], chB := b, sB := sb\<rparr>)"
    "pkts_reordered b = [p]" "\<not> closed b"
    using demo_first [OF demo_pack_ok] by metis
  let ?s = "demo_ch\<lparr>chA := a, sA := sa, sent := [demo_pack\<lparr>seq := 0\<rparr>], chB := b, sB := sb\<rparr>"
  have "ch_step ?s (?s\<lparr>chB := b\<lparr>pkts_reordered := []\<rparr>, got := got ?s @ [p]\<rparr>)"
    by (rule ch_step.app_recv) (use f in \<open>simp add: rudp_conn_recv_def\<close>)
  then have "ch_reach (?s\<lparr>chB := b\<lparr>pkts_reordered := []\<rparr>, got := got ?s @ [p]\<rparr>)"
    by (rule ch_reach.ch_next [OF ch_reach.ch_next [OF f(2,3)]])
  moreover have "got demo_ch = []" by (simp add: demo_ch_def ch_init_def)
  ultimately show ?thesis using f(1)
    by (intro exI [of _ "?s\<lparr>chB := b\<lparr>pkts_reordered := []\<rparr>, got := got ?s @ [p]\<rparr>"]) simp
qed

theorem rudp_stream_prefix_witness:
  "\<exists>s :: nat channel. length (got s) = 1 \<and> map strip (got s) = [strip (demo_pack\<lparr>seq := 0\<rparr>)]"
proof -
  obtain s :: "nat channel" where s: "ch_reach s" "sent s = [demo_pack\<lparr>seq := 0\<rparr>]" "length (got s) = 1"
    using demo_reach by blast
  have "length (sent s) \<le> SEQ_BOUND" by (simp add: s(2) SEQ_BOUND_def)
  from rudp_stream_prefix [OF s(1) this] s show ?thesis by auto
qed

lemma demo_sent:
  "\<exists>s :: nat channel. ch_reach s \<and> sent s = [demo_pack\<lparr>seq := 0\<rparr>] \<and> got s = [] \<and>
     \<not> closed (chA s) \<and> pkts_reordered (chB s) = []"
proof -
  have c0: "\<not> closed (chA demo_ch)" "len (pkts_fhost (chA demo_ch)) < RUDP_SEND_WINDOW"
    "current_seq (chA demo_ch) = 0" "pkts_reordered (chB demo_ch) = []" "got demo_ch = []" "sent demo_ch = []"
    by (simp_all add: demo_ch_def ch_init_def rudp_conn_new_def RUDP_SEND_WINDOW_def pvd_sender_new_def)
  obtain a sa where a: "rudp_conn_send (chA demo_ch) (sA demo_ch) demo_pack 0 0 = Inr (0, a, sa)"
    "\<exists>x. a = (chA demo_ch)\<lparr>pkts_fhost := x, current_seq := current_seq (chA demo_ch) + 1\<rparr>"
    using rudp_conn_send_ok [OF demo_pack_ok c0(1,2), of "sA demo_ch" 0 0]
    by (elim exE conjE) (rule that; (assumption | blast))
  have "ch_reach (demo_ch\<lparr>chA := a, sA := sa, sent := sent demo_ch @ [demo_pack\<lparr>seq := current_seq (chA demo_ch)\<rparr>]\<rparr>)"
    using ch_reach.ch_next [OF ch_reach.ch_init ch_step.app_send [OF demo_pack_ok a(1) [unfolded demo_ch_def]]]
    unfolding demo_ch_def .
  then show ?thesis using c0 a(2) by (intro exI conjI) (assumption | auto)+
qed

theorem rudp_unreceived_retained_witness:
  "\<exists>s :: nat channel. ch_reach s \<and> (\<exists>pp \<in> set (pending (chA s)). pend_key pp = (0, Some (demo_pack\<lparr>seq := 0\<rparr>)))"
proof -
  obtain s :: "nat channel" where s: "ch_reach s" "sent s = [demo_pack\<lparr>seq := 0\<rparr>]" "got s = []"
    "\<not> closed (chA s)" "pkts_reordered (chB s) = []"
    using demo_sent by blast
  have "length (sent s) \<le> SEQ_BOUND" by (simp add: s(2) SEQ_BOUND_def)
  from rudp_unreceived_retained [OF s(1) this s(4), of 0] s show ?thesis by auto
qed

theorem rudp_progress_witness:
  "\<exists>s b sb. ch_reach (s :: nat channel) \<and>
     data_handler (chB s) (sB s) (demo_pack\<lparr>seq := 0, chsum := 7\<rparr>) 3 = Inr (b, sb) \<and> pkts_reordered b \<noteq> []"
proof -
  obtain s :: "nat channel" where s: "ch_reach s" "sent s = [demo_pack\<lparr>seq := 0\<rparr>]" "got s = []"
    "\<not> closed (chA s)" "pkts_reordered (chB s) = []"
    using demo_sent by blast
  have "length (sent s) \<le> SEQ_BOUND" by (simp add: s(2) SEQ_BOUND_def)
  from rudp_progress [OF s(1) this, of 0 7 3] s show ?thesis by auto
qed

theorem rudp_send_window_witness:
  "\<exists>s :: nat channel. ch_reach s \<and> length (sent s) = 1 \<and> copies 0 (sA s) \<le> 11 \<and>
     (\<forall>pp \<in> set (pending (chA s)). copies (pp_seq pp) (sA s) = 1 + retransmit_count pp)"
proof -
  obtain s :: "nat channel" where s: "ch_reach s" "sent s = [demo_pack\<lparr>seq := 0\<rparr>]"
    using demo_sent by blast
  have "length (sent s) \<le> SEQ_BOUND" by (simp add: s(2) SEQ_BOUND_def)
  from rudp_send_window [OF s(1) this] s show ?thesis by auto
qed

end
