(* ===== verification/Crypto.thy ===== *)
theory Crypto
  imports Prelude
begin

text \<open>
  \<open>crypto/src\<close>: signatures, UIDs of public keys, sessions, and the files that hold keys. The
  primitives of libsodium are the argument \<open>so\<close>; \<open>sodium_ok\<close> states what its documentation
  promises of them. A file is its bytes, \<open>None\<close> when it cannot be opened.

  The lemmas: two ends that have shaken hands decrypt each other's messages as long as they
  arrive in order, a public key and its UID survive their textual form, and no key pair can
  be loaded from a file.
\<close>

record sodium =
  so_sha256 :: "bytes \<Rightarrow> bytes"
  so_sign :: "bytes \<Rightarrow> bytes \<Rightarrow> bytes"
  so_verify :: "bytes \<Rightarrow> bytes \<Rightarrow> bytes \<Rightarrow> bool"
  so_sign_pub :: "bytes \<Rightarrow> bytes"
  so_b64 :: "bytes \<Rightarrow> bytes"
  so_unb64 :: "nat \<Rightarrow> bytes \<Rightarrow> bytes option"
  so_seal :: "bytes \<Rightarrow> bytes \<Rightarrow> bytes \<Rightarrow> bytes"
  so_open :: "bytes \<Rightarrow> bytes \<Rightarrow> bytes \<Rightarrow> bytes option"
  so_kx_pub :: "bytes \<Rightarrow> bytes"
  so_kx_client :: "bytes \<Rightarrow> bytes \<Rightarrow> bytes \<Rightarrow> (bytes \<times> bytes) option"
  so_kx_server :: "bytes \<Rightarrow> bytes \<Rightarrow> bytes \<Rightarrow> (bytes \<times> bytes) option"

definition AEAD_ABYTES :: nat where
  "AEAD_ABYTES = 16"

text \<open>
  The documented behaviour of the primitives: a signature of 64 bytes verifies under
  the key that made it, opening undoes sealing under the same key and nonce and seals add \<open>AEAD_ABYTES\<close>,
  decoding undoes encoding when the buffer is large enough, and the two sides of a key
  exchange derive the same two keys, in opposite roles.
\<close>

definition sodium_ok :: "sodium \<Rightarrow> bool" where
  "sodium_ok so \<longleftrightarrow>
     (\<forall>sk m. so_verify so (so_sign so sk m) m (so_sign_pub so sk) \<and> length (so_sign so sk m) = 64) \<and>
     (\<forall>k n m. so_open so k n (so_seal so k n m) = Some m \<and>
              length (so_seal so k n m) = length m + AEAD_ABYTES) \<and>
     (\<forall>n b. length b \<le> n \<longrightarrow> so_unb64 so n (so_b64 so b) = Some b) \<and>
     (\<forall>a b rx tx. so_kx_client so (so_kx_pub so a) a (so_kx_pub so b) = Some (rx, tx) \<longrightarrow>
              so_kx_server so (so_kx_pub so b) b (so_kx_pub so a) = Some (tx, rx))"

subsection \<open>Signatures and UIDs\<close>

record sign =
  id_pub :: bytes
  id_sec :: bytes

definition sign_data :: "sodium \<Rightarrow> sign \<Rightarrow> bytes \<Rightarrow> bytes" where
  "sign_data so sg msg = so_sign so (id_sec sg) msg"

definition sign_verify :: "sodium \<Rightarrow> bytes \<Rightarrow> bytes \<Rightarrow> bytes \<Rightarrow> int" where
  "sign_verify so msg signature pub_key = (if so_verify so signature msg pub_key then 0 else -1)"

definition crypto_pubkey_to_uid :: "sodium \<Rightarrow> bytes \<Rightarrow> u32" where
  "crypto_pubkey_to_uid so pubkey = of_le32 (so_sha256 so (take 32 pubkey))"

definition crypto_pubkey_and_uid_check :: "sodium \<Rightarrow> bytes \<Rightarrow> u32 \<Rightarrow> bool" where
  "crypto_pubkey_and_uid_check so pubkey uid \<longleftrightarrow> uid = crypto_pubkey_to_uid so pubkey"

text \<open>\<open>pubkey\<close> and the result are \<open>None\<close> for \<open>NULL\<close>; \<open>ok\<close> is the result of \<open>malloc\<close>.\<close>

definition crypto_encode_pubkey_uid :: "sodium \<Rightarrow> bool \<Rightarrow> bytes option \<Rightarrow> u32 \<Rightarrow> bytes option" where
  "crypto_encode_pubkey_uid so ok pubkey uid =
     (case pubkey of
        None \<Rightarrow> None
      | Some pk \<Rightarrow>
          let binary_blob = take 32 pk @ [58] @ le32 (htonl uid) in
          if \<not> ok then None else Some (so_b64 so binary_blob))"

definition crypto_decode_pubkey_uid :: "sodium \<Rightarrow> bytes option \<Rightarrow> int \<times> (bytes \<times> u32) option" where
  "crypto_decode_pubkey_uid so b64_str =
     (case b64_str of
        None \<Rightarrow> (-1, None)
      | Some s \<Rightarrow>
          (case so_unb64 so 37 s of
             None \<Rightarrow> (-1, None)
           | Some blob \<Rightarrow>
               if length blob \<noteq> 37 then (-1, None)
               else if blob ! 32 \<noteq> 58 then (-1, None)
               else (0, Some (take 32 blob, ntohl (of_le32 (drop 33 blob))))))"

definition hex_char :: "u8 \<Rightarrow> u8" where
  "hex_char n = (if n < 10 then 48 + n else 87 + n)"

definition crypto_fingerprint :: "bytes \<Rightarrow> bytes" where
  "crypto_fingerprint pubkey = concat (map (\<lambda>b. [hex_char (drop_bit 4 b), hex_char (b AND 15)]) (take 8 pubkey))"

subsection \<open>Files\<close>

text \<open>\<open>fread\<close> and \<open>fwrite\<close> return the number of items, here of one item.\<close>

definition fread_one :: "nat \<Rightarrow> bytes \<Rightarrow> nat \<times> bytes" where
  "fread_one n content = (if n \<le> length content then (1, take n content) else (0, []))"

record crypto_keypair =
  public_key :: bytes
  private_key :: bytes

text \<open>\<open>w\<close> is the result of \<open>fwrite\<close>.\<close>

definition crypto_keypair_store :: "bool \<Rightarrow> nat \<Rightarrow> crypto_keypair \<Rightarrow> int \<times> bytes option" where
  "crypto_keypair_store opened w kp =
     (if \<not> opened then (-1, None)
      else if w \<noteq> 1 then (-1, Some [])
      else (0, Some (public_key kp @ private_key kp)))"

definition crypto_keypair_load :: "crypto_keypair \<Rightarrow> bytes option \<Rightarrow> int \<times> crypto_keypair" where
  "crypto_keypair_load kp content =
     (case content of
        None \<Rightarrow> (-1, kp)
      | Some c \<Rightarrow>
          (let (n, bs) = fread_one 64 c;
               kp = (if n = 1 then \<lparr>public_key = take 32 bs, private_key = drop 32 bs\<rparr> else kp)
           in if n \<noteq> 64 then (-1, kp) else (0, kp)))"

definition sign_store :: "bool \<Rightarrow> nat \<Rightarrow> sign \<Rightarrow> int \<times> bytes option" where
  "sign_store opened w kp =
     (if \<not> opened then (-1, None)
      else if w \<noteq> 1 then (-1, Some [])
      else (0, Some (id_pub kp @ id_sec kp)))"

definition sign_load :: "sign \<Rightarrow> bytes option \<Rightarrow> int \<times> sign" where
  "sign_load kp content =
     (case content of
        None \<Rightarrow> (-1, kp)
      | Some c \<Rightarrow>
          (let (n, bs) = fread_one 96 c in
           if n \<noteq> 1 then (-1, kp) else (0, \<lparr>id_pub = take 32 bs, id_sec = drop 32 bs\<rparr>)))"

subsection \<open>Sessions\<close>

record crypto_session_keys =
  sk_rx :: bytes
  sk_tx :: bytes

text \<open>On failure the keys are left as they were.\<close>

definition crypto_handshake_server ::
  "sodium \<Rightarrow> bytes \<Rightarrow> crypto_keypair \<Rightarrow> crypto_session_keys \<Rightarrow> int \<times> crypto_session_keys" where
  "crypto_handshake_server so client_pubk kp sk =
     (case so_kx_server so (public_key kp) (private_key kp) client_pubk of
        None \<Rightarrow> (-1, sk)
      | Some (rx, tx) \<Rightarrow> (0, \<lparr>sk_rx = rx, sk_tx = tx\<rparr>))"

definition crypto_handshake_client ::
  "sodium \<Rightarrow> bytes \<Rightarrow> crypto_keypair \<Rightarrow> crypto_session_keys \<Rightarrow> int \<times> crypto_session_keys" where
  "crypto_handshake_client so server_pubk kp sk =
     (case so_kx_client so (public_key kp) (private_key kp) server_pubk of
        None \<Rightarrow> (-1, sk)
      | Some (rx, tx) \<Rightarrow> (0, \<lparr>sk_rx = rx, sk_tx = tx\<rparr>))"

definition crypto_nonce :: "u64 \<Rightarrow> bytes" where
  "crypto_nonce counter = replicate 4 0 @ le64 counter"

text \<open>Sealing cannot fail; the counter goes up.\<close>

definition crypto_encrypt ::
  "sodium \<Rightarrow> bytes \<Rightarrow> u64 \<Rightarrow> crypto_session_keys \<Rightarrow> int \<times> bytes \<times> u64" where
  "crypto_encrypt so raw counter sk =
     (0, so_seal so (sk_tx sk) (crypto_nonce counter) raw, counter + 1)"

definition crypto_decrypt ::
  "sodium \<Rightarrow> bytes \<Rightarrow> u64 \<Rightarrow> crypto_session_keys \<Rightarrow> int \<times> bytes option \<times> u64" where
  "crypto_decrypt so ciphertext counter sk =
     (if length ciphertext < AEAD_ABYTES then (-1, None, counter)
      else case so_open so (sk_rx sk) (crypto_nonce counter) ciphertext of
        None \<Rightarrow> (-1, None, counter)
      | Some raw \<Rightarrow> (0, Some raw, counter + 1))"

subsection \<open>Message streams\<close>

fun encrypt_all :: "sodium \<Rightarrow> bytes list \<Rightarrow> u64 \<Rightarrow> crypto_session_keys \<Rightarrow> bytes list" where
  "encrypt_all so [] counter sk = []"
| "encrypt_all so (m # ms) counter sk =
     (let (_, c, counter) = crypto_encrypt so m counter sk in c # encrypt_all so ms counter sk)"

text \<open>The receiver stops at the first message that does not decrypt.\<close>

fun decrypt_all :: "sodium \<Rightarrow> bytes list \<Rightarrow> u64 \<Rightarrow> crypto_session_keys \<Rightarrow> bytes list" where
  "decrypt_all so [] counter sk = []"
| "decrypt_all so (c # cs) counter sk =
     (case crypto_decrypt so c counter sk of
        (_, Some m, counter) \<Rightarrow> m # decrypt_all so cs counter sk
      | (_, None, _) \<Rightarrow> [])"

lemma decrypt_encrypt_all:
  assumes "sodium_ok so" and "sk_rx rk = sk_tx sk"
  shows "decrypt_all so (encrypt_all so ms n sk) n rk = ms"
  using assms by (induction ms arbitrary: n)
    (simp_all add: crypto_encrypt_def crypto_decrypt_def sodium_ok_def)

subsection \<open>Properties\<close>

text \<open>
  Two ends that shook hands with each other's public keys hold each other's session
  keys, and a stream of messages encrypted by the client and received in order decrypts to
  exactly these messages at the server.
\<close>

theorem crypto_session_stream:
  assumes "sodium_ok so"
    and "crypto_handshake_client so (so_kx_pub so b) \<lparr>public_key = so_kx_pub so a, private_key = a\<rparr> sk0 = (0, ck)"
  shows "\<exists>sk. crypto_handshake_server so (so_kx_pub so a) \<lparr>public_key = so_kx_pub so b, private_key = b\<rparr> sk1 = (0, sk) \<and>
    sk_rx sk = sk_tx ck \<and> sk_tx sk = sk_rx ck \<and>
    decrypt_all so (encrypt_all so ms n ck) n sk = ms \<and>
    decrypt_all so (encrypt_all so ms n sk) n ck = ms"
proof -
  obtain rx tx where k: "so_kx_client so (so_kx_pub so a) a (so_kx_pub so b) = Some (rx, tx)"
    "ck = \<lparr>sk_rx = rx, sk_tx = tx\<rparr>"
    using assms(2) by (auto simp: crypto_handshake_client_def split: option.splits prod.splits)
  then have "so_kx_server so (so_kx_pub so b) b (so_kx_pub so a) = Some (tx, rx)"
    using assms(1) by (simp add: sodium_ok_def)
  with k decrypt_encrypt_all [OF assms(1)] show ?thesis
    by (simp add: crypto_handshake_server_def)
qed

definition demo_sodium :: sodium where
  "demo_sodium = \<lparr>so_sha256 = (\<lambda>b. b), so_sign = (\<lambda>sk m. take 64 (sk @ m @ replicate 64 0)),
     so_verify = (\<lambda>s m pk. s = take 64 (pk @ m @ replicate 64 0)), so_sign_pub = (\<lambda>sk. sk), so_b64 = (\<lambda>b. b), so_unb64 = (\<lambda>n b. if length b \<le> n then Some b else None),
     so_seal = (\<lambda>k n m. replicate 16 0 @ m), so_open = (\<lambda>k n c. Some (drop 16 c)), so_kx_pub = (\<lambda>a. a),
     so_kx_client = (\<lambda>pk sk other. Some (other @ pk, pk @ other)),
     so_kx_server = (\<lambda>pk sk other. Some (other @ pk, pk @ other))\<rparr>"

lemma demo_sodium_ok: "sodium_ok demo_sodium"
  by (auto simp: sodium_ok_def demo_sodium_def AEAD_ABYTES_def min_def)

theorem crypto_session_stream_witness:
  "\<exists>sk. crypto_handshake_server demo_sodium [1] \<lparr>public_key = [2], private_key = [2]\<rparr> \<lparr>sk_rx = [], sk_tx = []\<rparr> = (0, sk) \<and>
     decrypt_all demo_sodium (encrypt_all demo_sodium [[5], [6, 7]] 0 \<lparr>sk_rx = [2, 1], sk_tx = [1, 2]\<rparr>) 0 sk = [[5], [6, 7]]"
proof -
  have "crypto_handshake_client demo_sodium (so_kx_pub demo_sodium [2])
      \<lparr>public_key = so_kx_pub demo_sodium [1], private_key = [1]\<rparr> \<lparr>sk_rx = [], sk_tx = []\<rparr> =
      (0, \<lparr>sk_rx = [2, 1], sk_tx = [1, 2]\<rparr>)"
    by (simp add: crypto_handshake_client_def demo_sodium_def)
  from crypto_session_stream [OF demo_sodium_ok this, of "\<lparr>sk_rx = [], sk_tx = []\<rparr>" "[[5], [6, 7]]" 0]
  show ?thesis by (auto simp: demo_sodium_def)
qed

text \<open>
  A public key and its UID are what decoding their textual form gives back.
\<close>

theorem crypto_pubkey_uid_roundtrip:
  assumes "sodium_ok so" and "length pk = 32"
  shows "\<exists>s. crypto_encode_pubkey_uid so True (Some pk) uid = Some s \<and>
    crypto_decode_pubkey_uid so (Some s) = (0, Some (pk, uid))"
proof -
  let ?blob = "pk @ [58] @ le32 (htonl uid)"
  have "so_unb64 so 37 (so_b64 so ?blob) = Some ?blob"
    using assms by (simp add: sodium_ok_def)
  then show ?thesis
    using assms(2) by (simp add: crypto_encode_pubkey_uid_def crypto_decode_pubkey_uid_def
        nth_append del: of_le32.simps)
qed

theorem crypto_pubkey_uid_roundtrip_witness:
  "\<exists>s. crypto_encode_pubkey_uid demo_sodium True (Some (replicate 32 7)) 0x01020304 = Some s \<and>
     crypto_decode_pubkey_uid demo_sodium (Some s) = (0, Some (replicate 32 7, 0x01020304))"
  using crypto_pubkey_uid_roundtrip [OF demo_sodium_ok, of "replicate 32 7" "0x01020304"] by simp

text \<open>
  No file can be loaded as a key pair, not even the one that was stored: the number of
  items that \<open>fread\<close> returns is compared with the number of bytes.
\<close>

theorem crypto_keypair_load_fails:
  "fst (crypto_keypair_load kp content) = -1"
  by (simp add: crypto_keypair_load_def fread_one_def split: option.splits)

text \<open>
  A signing key survives its file.
\<close>

theorem sign_store_load:
  assumes "length (id_pub kp) = 32" and "length (id_sec kp) = 64"
  shows "sign_load kp' (snd (sign_store True 1 kp)) = (0, kp)"
  using assms by (simp add: sign_store_def sign_load_def fread_one_def)

theorem sign_store_load_witness:
  "sign_load \<lparr>id_pub = [], id_sec = []\<rparr>
     (snd (sign_store True 1 \<lparr>id_pub = replicate 32 1, id_sec = replicate 64 2\<rparr>)) =
   (0, \<lparr>id_pub = replicate 32 1, id_sec = replicate 64 2\<rparr>)"
  by (rule sign_store_load) simp_all

end
