(* ===== verification/E2ee.thy ===== *)
theory E2ee
  imports Crypto Packproto
begin

text \<open>
  \<open>e2ee/src/connection.c\<close>: end-to-end encryption between two peers that know each other's
  signing keys. A handshake message carries a fresh exchange key, signed; the side with the
  smaller UID derives the session keys as the server, the other one as the client. The key
  pair of \<open>crypto_keypair_make\<close>, the nonce of \<open>randombytes_random\<close> and the results of \<open>stat\<close>
  and of the file operations are arguments; the connection is never \<open>NULL\<close>.

  The lemmas: a handshake in both directions gives a session whose messages come out as they
  went in, in both directions and among any number of packets that do not open; a message is
  encrypted only after a handshake whose signature was verified; a refused message or
  handshake changes nothing that matters; an exchange key is never loaded from its file.
\<close>

datatype e2ee_hs_state = E2EE_NOT_HANDSHAKED | E2EE_HANDSHAKE_SENT | E2EE_HANDSHAKE_ENDED

record e2ee_connection =
  st_signature :: sign
  st_other_pubkey :: bytes
  ec_skeys :: crypto_session_keys
  ec_kp :: crypto_keypair
  hstate :: e2ee_hs_state
  hs_as :: bool
  tx_nonce :: u64
  rx_nonce :: u64

definition E2EE_OVERHEAD :: nat where
  "E2EE_OVERHEAD = AEAD_ABYTES"

subsection \<open>Operations\<close>

text \<open>\<open>st_other\<close> is \<open>None\<close> for \<open>NULL\<close>; the session keys are left as they were.\<close>

definition e2ee_conn_init ::
  "sodium \<Rightarrow> crypto_keypair \<Rightarrow> e2ee_connection \<Rightarrow> sign \<Rightarrow> bytes option \<Rightarrow> int \<times> e2ee_connection" where
  "e2ee_conn_init so made conn my_signature st_other =
     (case st_other of
        None \<Rightarrow> (-1, conn)
      | Some other \<Rightarrow>
          (0, conn\<lparr>hstate := E2EE_NOT_HANDSHAKED,
                   hs_as := crypto_pubkey_to_uid so (id_pub my_signature) < crypto_pubkey_to_uid so other,
                   st_signature := my_signature,
                   ec_kp := made,
                   st_other_pubkey := take 32 other,
                   tx_nonce := 0, rx_nonce := 0\<rparr>))"

text \<open>
  \<open>path\<close> is \<open>None\<close> for \<open>NULL\<close> and otherwise the content of the file, if it can be opened.
\<close>

definition e2ee_conn_load_keypair ::
  "e2ee_connection \<Rightarrow> bytes option option \<Rightarrow> int \<times> e2ee_connection" where
  "e2ee_conn_load_keypair conn path =
     (case path of
        None \<Rightarrow> (-1, conn)
      | Some content \<Rightarrow>
          (let (r, kp) = crypto_keypair_load (ec_kp conn) content in (r, conn\<lparr>ec_kp := kp\<rparr>)))"

definition e2ee_conn_save_keypair ::
  "bool \<Rightarrow> nat \<Rightarrow> e2ee_connection \<Rightarrow> bool \<Rightarrow> int \<times> bytes option" where
  "e2ee_conn_save_keypair opened w conn path =
     (if \<not> path then (-1, None) else crypto_keypair_store opened w (ec_kp conn))"

text \<open>\<open>found\<close> is the content of the file when \<open>stat\<close> finds it.\<close>

definition e2ee_conn_upd_keypair ::
  "bool \<Rightarrow> nat \<Rightarrow> e2ee_connection \<Rightarrow> bytes option option \<Rightarrow> int \<times> e2ee_connection \<times> bytes option" where
  "e2ee_conn_upd_keypair opened w conn found =
     (case found of
        Some content \<Rightarrow>
          (let (r, conn) = e2ee_conn_load_keypair conn (Some content) in (r, conn, content))
      | None \<Rightarrow>
          (let (r, content) = e2ee_conn_save_keypair opened w conn True in (r, conn, content)))"

definition e2ee_conn_end :: "e2ee_connection \<Rightarrow> e2ee_connection" where
  "e2ee_conn_end conn =
     \<lparr>st_signature = \<lparr>id_pub = replicate 32 0, id_sec = replicate 64 0\<rparr>,
      st_other_pubkey = replicate 32 0,
      ec_skeys = \<lparr>sk_rx = replicate 32 0, sk_tx = replicate 32 0\<rparr>,
      ec_kp = \<lparr>public_key = replicate 32 0, private_key = replicate 32 0\<rparr>,
      hstate = E2EE_NOT_HANDSHAKED, hs_as = False, tx_nonce = 0, rx_nonce = 0\<rparr>"

text \<open>The second component is what is written to \<open>outbuf\<close>, whose length is \<open>*outsz\<close>.\<close>

definition e2ee_encrypt ::
  "sodium \<Rightarrow> e2ee_connection \<Rightarrow> bytes \<Rightarrow> int \<times> bytes option \<times> e2ee_connection" where
  "e2ee_encrypt so conn raw =
     (if hstate conn \<noteq> E2EE_HANDSHAKE_ENDED then (-1, None, conn)
      else if UDP_MTU - PROTOCOL_OVERHEAD - E2EE_OVERHEAD < length raw then (-1, None, conn)
      else
        (let (r, ciphered, nonce) = crypto_encrypt so raw (tx_nonce conn) (ec_skeys conn) in
         if r < 0 then (-1, None, conn\<lparr>tx_nonce := nonce\<rparr>)
         else (0, Some ciphered, conn\<lparr>tx_nonce := nonce\<rparr>)))"

definition e2ee_decrypt ::
  "sodium \<Rightarrow> e2ee_connection \<Rightarrow> bytes \<Rightarrow> int \<times> bytes option \<times> e2ee_connection" where
  "e2ee_decrypt so conn inp =
     (if hstate conn \<noteq> E2EE_HANDSHAKE_ENDED then (-1, None, conn)
      else if length inp < AEAD_ABYTES then (-1, None, conn)
      else
        (case crypto_decrypt so inp (rx_nonce conn) (ec_skeys conn) of
           (r, decrypted, nonce) \<Rightarrow>
             if r < 0 then (-1, None, conn\<lparr>rx_nonce := nonce\<rparr>)
             else (0, decrypted, conn\<lparr>rx_nonce := nonce\<rparr>)))"

text \<open>The memory image of the packed structure \<open>e2ee_handshake\<close>: nonce, key, signature.\<close>

definition hs_payload :: "u32 \<Rightarrow> bytes \<Rightarrow> bytes" where
  "hs_payload nonce key = le32 nonce @ key"

definition e2ee_conn_handshake_init ::
  "sodium \<Rightarrow> u32 \<Rightarrow> e2ee_connection \<Rightarrow> int \<times> bytes \<times> e2ee_connection" where
  "e2ee_conn_handshake_init so nonce conn =
     (let key = take 32 (public_key (ec_kp conn)) in
      (0, le32 nonce @ key @ sign_data so (st_signature conn) (hs_payload nonce key),
       conn\<lparr>hstate := E2EE_HANDSHAKE_SENT\<rparr>))"

definition e2ee_conn_handshake_resp ::
  "sodium \<Rightarrow> e2ee_connection \<Rightarrow> bytes \<Rightarrow> int \<times> e2ee_connection" where
  "e2ee_conn_handshake_resp so conn buf =
     (let nonce = of_le32 buf; key = take 32 (drop 4 buf); signature = take 64 (drop 36 buf) in
      if sign_verify so (hs_payload nonce key) signature (st_other_pubkey conn) < 0 then (-1, conn)
      else
        (let (r, sk) =
           (if hs_as conn then crypto_handshake_server so key (ec_kp conn) (ec_skeys conn)
            else crypto_handshake_client so key (ec_kp conn) (ec_skeys conn))
         in if r < 0 then (-1, conn\<lparr>ec_skeys := sk\<rparr>)
            else (0, conn\<lparr>ec_skeys := sk, hstate := E2EE_HANDSHAKE_ENDED\<rparr>)))"


subsection \<open>A session\<close>

text \<open>
  Two ends that hold each other's keys and count alike. A conversation is a list of events:
  a message of one end, sent and received at once as reliable UDP delivers it, or a packet
  that someone else puts in.
\<close>

definition e2ee_paired :: "e2ee_connection \<Rightarrow> e2ee_connection \<Rightarrow> bool" where
  "e2ee_paired a b \<longleftrightarrow>
     hstate a = E2EE_HANDSHAKE_ENDED \<and> hstate b = E2EE_HANDSHAKE_ENDED \<and>
     sk_rx (ec_skeys a) = sk_tx (ec_skeys b) \<and> sk_tx (ec_skeys a) = sk_rx (ec_skeys b) \<and>
     tx_nonce a = rx_nonce b \<and> rx_nonce a = tx_nonce b"

datatype e2ee_event = AtoB bytes | BtoA bytes | IntoA bytes | IntoB bytes

definition e2ee_transfer ::
  "sodium \<Rightarrow> e2ee_connection \<Rightarrow> e2ee_connection \<Rightarrow> bytes \<Rightarrow> bytes list \<times> e2ee_connection \<times> e2ee_connection" where
  "e2ee_transfer so a b m =
     (case e2ee_encrypt so a m of
        (_, None, a) \<Rightarrow> ([], a, b)
      | (_, Some c, a) \<Rightarrow>
          (case e2ee_decrypt so b c of
             (_, None, b) \<Rightarrow> ([], a, b)
           | (_, Some m', b) \<Rightarrow> ([m'], a, b)))"

text \<open>What the programs at \<open>b\<close> and at \<open>a\<close> receive.\<close>

fun e2ee_talk ::
  "sodium \<Rightarrow> e2ee_connection \<Rightarrow> e2ee_connection \<Rightarrow> e2ee_event list \<Rightarrow> bytes list \<times> bytes list" where
  "e2ee_talk so a b [] = ([], [])"
| "e2ee_talk so a b (AtoB m # es) =
     (let (d, a, b) = e2ee_transfer so a b m; (to_b, to_a) = e2ee_talk so a b es in (d @ to_b, to_a))"
| "e2ee_talk so a b (BtoA m # es) =
     (let (d, b, a) = e2ee_transfer so b a m; (to_b, to_a) = e2ee_talk so a b es in (to_b, d @ to_a))"
| "e2ee_talk so a b (IntoA c # es) =
     (case e2ee_decrypt so a c of
        (_, None, a) \<Rightarrow> e2ee_talk so a b es
      | (_, Some m, a) \<Rightarrow> (let (to_b, to_a) = e2ee_talk so a b es in (to_b, m # to_a)))"
| "e2ee_talk so a b (IntoB c # es) =
     (case e2ee_decrypt so b c of
        (_, None, b) \<Rightarrow> e2ee_talk so a b es
      | (_, Some m, b) \<Rightarrow> (let (to_b, to_a) = e2ee_talk so a b es in (m # to_b, to_a)))"

text \<open>The messages said by each side.\<close>

fun said_a :: "e2ee_event \<Rightarrow> bytes list" where
  "said_a (AtoB m) = [m]"
| "said_a _ = []"

fun said_b :: "e2ee_event \<Rightarrow> bytes list" where
  "said_b (BtoA m) = [m]"
| "said_b _ = []"

text \<open>Messages fit a packet; what others put in opens under no nonce with the key \<open>k\<close>.\<close>

definition E2EE_MAX :: nat where
  "E2EE_MAX = UDP_MTU - PROTOCOL_OVERHEAD - E2EE_OVERHEAD"

definition foreign :: "sodium \<Rightarrow> bytes \<Rightarrow> bytes \<Rightarrow> bool" where
  "foreign so k c \<longleftrightarrow> (\<forall>n. so_open so k n c = None)"

fun event_ok :: "sodium \<Rightarrow> bytes \<Rightarrow> bytes \<Rightarrow> e2ee_event \<Rightarrow> bool" where
  "event_ok so ka kb (AtoB m) \<longleftrightarrow> length m \<le> E2EE_MAX"
| "event_ok so ka kb (BtoA m) \<longleftrightarrow> length m \<le> E2EE_MAX"
| "event_ok so ka kb (IntoA c) \<longleftrightarrow> foreign so ka c"
| "event_ok so ka kb (IntoB c) \<longleftrightarrow> foreign so kb c"

lemma e2ee_paired_sym: "e2ee_paired a b \<longleftrightarrow> e2ee_paired b a"
  by (auto simp: e2ee_paired_def)

lemma e2ee_transfer_paired:
  assumes "sodium_ok so" and "e2ee_paired a b" and "length m \<le> E2EE_MAX"
  shows "e2ee_transfer so a b m =
    ([m], a\<lparr>tx_nonce := tx_nonce a + 1\<rparr>, b\<lparr>rx_nonce := rx_nonce b + 1\<rparr>)"
  using assms unfolding sodium_ok_def e2ee_paired_def E2EE_MAX_def
  by (simp add: e2ee_transfer_def e2ee_encrypt_def e2ee_decrypt_def crypto_encrypt_def
      crypto_decrypt_def)

lemma e2ee_paired_step:
  "e2ee_paired a b \<Longrightarrow> e2ee_paired (a\<lparr>tx_nonce := tx_nonce a + 1\<rparr>) (b\<lparr>rx_nonce := rx_nonce b + 1\<rparr>)"
  by (simp add: e2ee_paired_def)

lemma e2ee_decrypt_foreign:
  "foreign so (sk_rx (ec_skeys conn)) c \<Longrightarrow> e2ee_decrypt so conn c = (-1, None, conn)"
  by (simp add: e2ee_decrypt_def crypto_decrypt_def foreign_def)

lemma e2ee_talk_paired:
  assumes "sodium_ok so" and "e2ee_paired a b"
    and "\<forall>e \<in> set es. event_ok so (sk_rx (ec_skeys a)) (sk_rx (ec_skeys b)) e"
  shows "e2ee_talk so a b es = (concat (map said_a es), concat (map said_b es))"
  using assms(2,3)
proof (induction es arbitrary: a b)
  case (Cons e es)
  show ?case
  proof (cases e)
    case (AtoB m)
    then show ?thesis
      using Cons.prems Cons.IH [OF e2ee_paired_step [OF Cons.prems(1)]]
      by (simp add: e2ee_transfer_paired [OF assms(1)])
  next
    case (BtoA m)
    have "e2ee_paired b a" using Cons.prems(1) by (simp add: e2ee_paired_sym)
    with BtoA show ?thesis
      using Cons.prems Cons.IH [of "a\<lparr>rx_nonce := rx_nonce a + 1\<rparr>" "b\<lparr>tx_nonce := tx_nonce b + 1\<rparr>"]
      by (simp add: e2ee_transfer_paired [OF assms(1)] e2ee_paired_def)
  qed (use Cons in \<open>simp_all add: e2ee_decrypt_foreign\<close>)
qed simp

text \<open>What an end needs to know of itself: both its keys are real keys.\<close>

definition sign_wf :: "sodium \<Rightarrow> sign \<Rightarrow> bool" where
  "sign_wf so sg \<longleftrightarrow> id_pub sg = so_sign_pub so (id_sec sg) \<and> length (id_pub sg) = 32"

definition kp_wf :: "sodium \<Rightarrow> crypto_keypair \<Rightarrow> bool" where
  "kp_wf so kp \<longleftrightarrow> public_key kp = so_kx_pub so (private_key kp) \<and> length (public_key kp) = 32"

lemma sign_verify_own:
  "\<lbrakk>sodium_ok so; sign_wf so sg\<rbrakk> \<Longrightarrow> sign_verify so m (sign_data so sg m) (id_pub sg) = 0"
  by (simp add: sign_verify_def sign_data_def sodium_ok_def sign_wf_def)

text \<open>Receiving the handshake of the other side is deriving the keys with its exchange key.\<close>

lemma e2ee_resp_of_init:
  assumes "sodium_ok so" and "sign_wf so (st_signature c)" and "kp_wf so (ec_kp c)"
    and "st_other_pubkey conn = id_pub (st_signature c)"
    and "e2ee_conn_handshake_init so nonce c = (r, hs, c')"
  shows "e2ee_conn_handshake_resp so conn hs =
    (let key = public_key (ec_kp c); (r, sk) =
        (if hs_as conn then crypto_handshake_server so key (ec_kp conn) (ec_skeys conn)
         else crypto_handshake_client so key (ec_kp conn) (ec_skeys conn))
     in if r < 0 then (-1, conn\<lparr>ec_skeys := sk\<rparr>)
        else (0, conn\<lparr>ec_skeys := sk, hstate := E2EE_HANDSHAKE_ENDED\<rparr>))"
proof -
  let ?key = "public_key (ec_kp c)"
  let ?sig = "sign_data so (st_signature c) (hs_payload nonce ?key)"
  have k: "length ?key = 32" using assms(3) unfolding kp_wf_def by blast
  have sig: "length ?sig = 64" using assms(1) by (simp add: sign_data_def sodium_ok_def)
  have hs: "hs = le32 nonce @ ?key @ ?sig"
    using assms(5) k by (auto simp: e2ee_conn_handshake_init_def Let_def)
  have "of_le32 hs = nonce" "take 32 (drop 4 hs) = ?key" "take 64 (drop 36 hs) = ?sig"
    using k sig by (simp_all add: hs del: of_le32.simps)
  then show ?thesis
    using sign_verify_own [OF assms(1,2)] assms(4)
    by (simp add: e2ee_conn_handshake_resp_def Let_def del: of_le32.simps)
qed

text \<open>Making a connection and its handshake message.\<close>

definition e2ee_open ::
  "sodium \<Rightarrow> crypto_keypair \<Rightarrow> e2ee_connection \<Rightarrow> sign \<Rightarrow> bytes \<Rightarrow> u32 \<Rightarrow> bytes \<times> e2ee_connection" where
  "e2ee_open so made conn sg other nonce =
     (let (_, c) = e2ee_conn_init so made conn sg (Some other);
          (_, hs, c) = e2ee_conn_handshake_init so nonce c
      in (hs, c))"

lemma e2ee_open_fields:
  assumes "e2ee_open so made conn sg other nonce = (hs, c)" and "length other = 32"
  shows "st_signature c = sg" "st_other_pubkey c = other" "ec_kp c = made"
    "hs_as c \<longleftrightarrow> crypto_pubkey_to_uid so (id_pub sg) < crypto_pubkey_to_uid so other"
    "tx_nonce c = 0" "rx_nonce c = 0"
    "\<exists>c0 r. e2ee_conn_handshake_init so nonce c0 = (r, hs, c) \<and> st_signature c0 = sg \<and> ec_kp c0 = made"
proof -
  let ?c0 = "snd (e2ee_conn_init so made conn sg (Some other))"
  have i: "e2ee_conn_handshake_init so nonce ?c0 = (0, hs, c)"
    using assms(1) by (simp add: e2ee_open_def e2ee_conn_init_def e2ee_conn_handshake_init_def Let_def)
  have c0: "st_signature ?c0 = sg" "ec_kp ?c0 = made"
    by (simp_all add: e2ee_conn_init_def)
  show "\<exists>c0 r. e2ee_conn_handshake_init so nonce c0 = (r, hs, c) \<and> st_signature c0 = sg \<and> ec_kp c0 = made"
    using i c0 by blast
qed (use assms in \<open>auto simp: e2ee_open_def e2ee_conn_init_def e2ee_conn_handshake_init_def Let_def\<close>)

lemma e2ee_handshake_pairs:
  assumes "sodium_ok so" and wf: "sign_wf so sa" "sign_wf so sb" "kp_wf so ka" "kp_wf so kb"
    and uid: "crypto_pubkey_to_uid so (id_pub sa) < crypto_pubkey_to_uid so (id_pub sb)"
    and kx: "so_kx_client so (public_key kb) (private_key kb) (public_key ka) \<noteq> None"
    and a: "e2ee_open so ka a0 sa (id_pub sb) na = (ha, a1)"
    and b: "e2ee_open so kb b0 sb (id_pub sa) nb = (hb, b1)"
  shows "\<exists>a2 b2. e2ee_conn_handshake_resp so a1 hb = (0, a2) \<and>
    e2ee_conn_handshake_resp so b1 ha = (0, b2) \<and> e2ee_paired a2 b2"
proof -
  have len: "length (id_pub sa) = 32" "length (id_pub sb) = 32"
    using wf(1,2) unfolding sign_wf_def by blast+
  note fa = e2ee_open_fields [OF a len(2)] and fb = e2ee_open_fields [OF b len(1)]
  obtain ca ra where ca: "e2ee_conn_handshake_init so na ca = (ra, ha, a1)" "st_signature ca = sa" "ec_kp ca = ka"
    using fa(7) by blast
  obtain cb rb where cb: "e2ee_conn_handshake_init so nb cb = (rb, hb, b1)" "st_signature cb = sb" "ec_kp cb = kb"
    using fb(7) by blast
  obtain rx tx where k: "so_kx_client so (public_key kb) (private_key kb) (public_key ka) = Some (rx, tx)"
    using kx by auto
  have pub: "public_key ka = so_kx_pub so (private_key ka)" "public_key kb = so_kx_pub so (private_key kb)"
    using wf(3,4) unfolding kp_wf_def by blast+
  have k': "so_kx_server so (public_key ka) (private_key ka) (public_key kb) = Some (tx, rx)"
    using assms(1) k unfolding sodium_ok_def pub by blast
  have role: "hs_as a1" "\<not> hs_as b1" using fa(4) fb(4) uid by auto
  have "e2ee_conn_handshake_resp so a1 hb =
      (0, a1\<lparr>ec_skeys := \<lparr>sk_rx = tx, sk_tx = rx\<rparr>, hstate := E2EE_HANDSHAKE_ENDED\<rparr>)"
    using e2ee_resp_of_init [OF assms(1) _ _ _ cb(1), of a1] wf fa(2,3) k' role(1)
    by (simp add: cb(2,3) crypto_handshake_server_def)
  moreover have "e2ee_conn_handshake_resp so b1 ha =
      (0, b1\<lparr>ec_skeys := \<lparr>sk_rx = rx, sk_tx = tx\<rparr>, hstate := E2EE_HANDSHAKE_ENDED\<rparr>)"
    using e2ee_resp_of_init [OF assms(1) _ _ _ ca(1), of b1] wf fb(2,3) k role(2)
    by (simp add: ca(2,3) crypto_handshake_client_def)
  ultimately show ?thesis
    using fa(5,6) fb(5,6) by (simp add: e2ee_paired_def)
qed

subsection \<open>Every use of a connection\<close>

text \<open>
  What may happen to a connection after its creation, with the nonces under which messages
  have been sealed. The files, nonces and packets are arbitrary.
\<close>

inductive e2ee_reach ::
  "sodium \<Rightarrow> crypto_keypair \<Rightarrow> sign \<Rightarrow> bytes \<Rightarrow> e2ee_connection \<Rightarrow> u64 list \<Rightarrow> bool"
  for so made sg other where
  e2ee_new: "e2ee_conn_init so made conn sg (Some other) = (0, c) \<Longrightarrow> e2ee_reach so made sg other c []"
| e2ee_load: "\<lbrakk>e2ee_reach so made sg other c ns; e2ee_conn_upd_keypair opened w c found = (r, c', content)\<rbrakk>
    \<Longrightarrow> e2ee_reach so made sg other c' ns"
| e2ee_greet: "\<lbrakk>e2ee_reach so made sg other c ns; e2ee_conn_handshake_init so nonce c = (r, hs, c')\<rbrakk>
    \<Longrightarrow> e2ee_reach so made sg other c' ns"
| e2ee_answer: "\<lbrakk>e2ee_reach so made sg other c ns; e2ee_conn_handshake_resp so c buf = (r, c')\<rbrakk>
    \<Longrightarrow> e2ee_reach so made sg other c' ns"
| e2ee_send: "\<lbrakk>e2ee_reach so made sg other c ns; e2ee_encrypt so c m = (r, out, c')\<rbrakk>
    \<Longrightarrow> e2ee_reach so made sg other c' (if out = None then ns else ns @ [tx_nonce c])"
| e2ee_recv: "\<lbrakk>e2ee_reach so made sg other c ns; e2ee_decrypt so c inp = (r, out, c')\<rbrakk>
    \<Longrightarrow> e2ee_reach so made sg other c' ns"

text \<open>The session keys come from an exchange key that the other peer signed.\<close>

definition keys_signed :: "sodium \<Rightarrow> bytes \<Rightarrow> bool \<Rightarrow> crypto_session_keys \<Rightarrow> bool" where
  "keys_signed so other server sk \<longleftrightarrow>
     (\<exists>nonce key signature kp sk0.
        sign_verify so (hs_payload nonce key) signature other = 0 \<and>
        (if server then crypto_handshake_server so key kp sk0 else crypto_handshake_client so key kp sk0) = (0, sk))"

definition e2ee_inv :: "sodium \<Rightarrow> sign \<Rightarrow> bytes \<Rightarrow> e2ee_connection \<Rightarrow> u64 list \<Rightarrow> bool" where
  "e2ee_inv so sg other c ns \<longleftrightarrow>
     st_signature c = sg \<and> st_other_pubkey c = take 32 other \<and>
     (hstate c = E2EE_HANDSHAKE_ENDED \<longrightarrow> keys_signed so (take 32 other) (hs_as c) (ec_skeys c)) \<and>
     ns = map of_nat [0..<length ns] \<and> tx_nonce c = of_nat (length ns)"

lemma sign_verify_cases: "sign_verify so m s k < 0 \<or> sign_verify so m s k = 0"
  by (simp add: sign_verify_def)

lemma handshake_cases:
  "crypto_handshake_server so key kp sk = (-1, sk) \<or> (\<exists>sk'. crypto_handshake_server so key kp sk = (0, sk'))"
  "crypto_handshake_client so key kp sk = (-1, sk) \<or> (\<exists>sk'. crypto_handshake_client so key kp sk = (0, sk'))"
  by (auto simp: crypto_handshake_server_def crypto_handshake_client_def split: option.splits)

lemma e2ee_resp_cases:
  assumes "e2ee_conn_handshake_resp so c buf = (r, c')"
  shows "r = -1 \<and> c' = c \<or> (\<exists>sk. r = 0 \<and> c' = c\<lparr>ec_skeys := sk, hstate := E2EE_HANDSHAKE_ENDED\<rparr> \<and>
    keys_signed so (st_other_pubkey c) (hs_as c) sk)"
proof -
  let ?key = "take 32 (drop 4 buf)"
  let ?v = "sign_verify so (hs_payload (of_le32 buf) ?key) (take 64 (drop 36 buf)) (st_other_pubkey c)"
  let ?hs = "if hs_as c then crypto_handshake_server so ?key (ec_kp c) (ec_skeys c)
    else crypto_handshake_client so ?key (ec_kp c) (ec_skeys c)"
  have def: "e2ee_conn_handshake_resp so c buf =
    (if ?v < 0 then (-1, c)
     else let (r, sk) = ?hs in if r < 0 then (-1, c\<lparr>ec_skeys := sk\<rparr>)
       else (0, c\<lparr>ec_skeys := sk, hstate := E2EE_HANDSHAKE_ENDED\<rparr>))"
    by (simp add: e2ee_conn_handshake_resp_def Let_def del: of_le32.simps)
  show ?thesis
  proof (cases "?v < 0")
    case True
    then show ?thesis using assms by (simp add: def)
  next
    case False
    then have v: "?v = 0" using sign_verify_cases by blast
    consider "?hs = (-1, ec_skeys c)" | sk where "?hs = (0, sk)"
      using handshake_cases [of so ?key "ec_kp c" "ec_skeys c"] by (cases "hs_as c") auto
    then show ?thesis
    proof cases
      case 1
      then show ?thesis using assms False unfolding def by simp
    next
      case 2
      then have "keys_signed so (st_other_pubkey c) (hs_as c) sk"
        using v unfolding keys_signed_def by blast
      then show ?thesis using assms False 2 unfolding def by auto
    qed
  qed
qed

lemma e2ee_encrypt_cases:
  assumes "e2ee_encrypt so c m = (r, out, c')"
  shows "r = -1 \<and> out = None \<and> c' = c \<or>
    r = 0 \<and> hstate c = E2EE_HANDSHAKE_ENDED \<and> length m \<le> E2EE_MAX \<and> c' = c\<lparr>tx_nonce := tx_nonce c + 1\<rparr> \<and>
    out = Some (so_seal so (sk_tx (ec_skeys c)) (crypto_nonce (tx_nonce c)) m)"
  using assms by (auto simp: e2ee_encrypt_def crypto_encrypt_def E2EE_MAX_def split: if_splits)

lemma e2ee_decrypt_cases:
  assumes "e2ee_decrypt so c inp = (r, out, c')"
  shows "r = -1 \<and> out = None \<and> c' = c \<or>
    r = 0 \<and> hstate c = E2EE_HANDSHAKE_ENDED \<and> c' = c\<lparr>rx_nonce := rx_nonce c + 1\<rparr> \<and>
    out = so_open so (sk_rx (ec_skeys c)) (crypto_nonce (rx_nonce c)) inp"
  using assms by (auto simp: e2ee_decrypt_def crypto_decrypt_def split: if_splits option.splits)

lemma e2ee_upd_keypair_cases:
  assumes "e2ee_conn_upd_keypair opened w c found = (r, c', content)"
  shows "c' = c \<or> (\<exists>kp. c' = c\<lparr>ec_kp := kp\<rparr>)"
  using assms by (auto simp: e2ee_conn_upd_keypair_def e2ee_conn_load_keypair_def
      split: option.splits prod.splits)

lemma of_nat_range_Suc:
  "ns = map of_nat [0..<length ns] \<Longrightarrow>
   ns @ [of_nat (length ns)] = map of_nat [0..<length (ns @ [of_nat (length ns)])]"
  by simp

lemma e2ee_reach_inv: "e2ee_reach so made sg other c ns \<Longrightarrow> e2ee_inv so sg other c ns"
proof (induction rule: e2ee_reach.induct)
  case (e2ee_new conn c)
  then show ?case by (auto simp: e2ee_conn_init_def e2ee_inv_def)
next
  case (e2ee_load c ns opened w found r c' content)
  then show ?case using e2ee_upd_keypair_cases [OF e2ee_load.hyps(2)]
    by (auto simp: e2ee_inv_def)
next
  case (e2ee_greet c ns nonce r hs c')
  then show ?case by (auto simp: e2ee_conn_handshake_init_def e2ee_inv_def Let_def)
next
  case (e2ee_answer c ns buf r c')
  then show ?case using e2ee_resp_cases [OF e2ee_answer.hyps(2)]
    by (auto simp: e2ee_inv_def)
next
  case (e2ee_send c ns m r out c')
  then show ?case using e2ee_encrypt_cases [OF e2ee_send.hyps(2)] of_nat_range_Suc [of ns]
    by (auto simp: e2ee_inv_def simp del: upt_Suc)
next
  case (e2ee_recv c ns inp r out c')
  then show ?case using e2ee_decrypt_cases [OF e2ee_recv.hyps(2)]
    by (auto simp: e2ee_inv_def)
qed

lemma distinct_of_nat_range:
  assumes "n \<le> 2 ^ LENGTH('a)"
  shows "distinct (map of_nat [0..<n] :: 'a :: len word list)"
proof -
  have "take_bit LENGTH('a) x = x" if "x < n" for x
    using that assms by (simp add: take_bit_nat_eq_self_iff)
  then show ?thesis by (simp add: distinct_map inj_on_def word_of_nat_eq_iff)
qed

subsection \<open>Properties\<close>

text \<open>
  C11: two peers that exchange the handshake messages of their connections end up with a session in
  which each receives exactly the messages of the other one, in order, whatever other packets
  that open under no nonce are put in between.
\<close>

theorem e2ee_session:
  assumes "sodium_ok so" and "sign_wf so sa" "sign_wf so sb" "kp_wf so ka" "kp_wf so kb"
    and "crypto_pubkey_to_uid so (id_pub sa) < crypto_pubkey_to_uid so (id_pub sb)"
    and "so_kx_client so (public_key kb) (private_key kb) (public_key ka) \<noteq> None"
    and "e2ee_open so ka a0 sa (id_pub sb) na = (ha, a1)"
    and "e2ee_open so kb b0 sb (id_pub sa) nb = (hb, b1)"
  shows "\<exists>a2 b2. e2ee_conn_handshake_resp so a1 hb = (0, a2) \<and> e2ee_conn_handshake_resp so b1 ha = (0, b2) \<and>
    (\<forall>es. (\<forall>e \<in> set es. event_ok so (sk_rx (ec_skeys a2)) (sk_rx (ec_skeys b2)) e) \<longrightarrow>
       e2ee_talk so a2 b2 es = (concat (map said_a es), concat (map said_b es)))"
proof -
  obtain a2 b2 where "e2ee_conn_handshake_resp so a1 hb = (0, a2)"
    "e2ee_conn_handshake_resp so b1 ha = (0, b2)" "e2ee_paired a2 b2"
    using e2ee_handshake_pairs [OF assms] by blast
  then show ?thesis using e2ee_talk_paired [OF assms(1)] by blast
qed

definition demo_aead :: sodium where
  "demo_aead = demo_sodium\<lparr>so_open := (\<lambda>k n c. if take 16 c = replicate 16 0 then Some (drop 16 c) else None)\<rparr>"

lemma demo_aead_ok: "sodium_ok demo_aead"
  by (auto simp: sodium_ok_def demo_aead_def demo_sodium_def AEAD_ABYTES_def min_def)

definition demo_sign :: "u8 \<Rightarrow> sign" where
  "demo_sign i = \<lparr>id_pub = replicate 32 i, id_sec = replicate 32 i\<rparr>"

definition demo_kp :: "u8 \<Rightarrow> crypto_keypair" where
  "demo_kp i = \<lparr>public_key = replicate 32 i, private_key = replicate 32 i\<rparr>"

definition demo_conn :: e2ee_connection where
  "demo_conn = e2ee_conn_end undefined"

theorem e2ee_session_witness:
  "\<exists>a2 b2. e2ee_conn_handshake_resp demo_aead
       (snd (e2ee_open demo_aead (demo_kp 5) demo_conn (demo_sign 1) (id_pub (demo_sign 2)) 7))
       (fst (e2ee_open demo_aead (demo_kp 6) demo_conn (demo_sign 2) (id_pub (demo_sign 1)) 9)) = (0, a2) \<and>
     e2ee_talk demo_aead a2 b2 [AtoB [10], IntoB [66], BtoA [20, 21], AtoB []] = ([[10], []], [[20, 21]])"
proof -
  obtain ha a1 where a: "e2ee_open demo_aead (demo_kp 5) demo_conn (demo_sign 1) (id_pub (demo_sign 2)) 7 = (ha, a1)"
    by (cases "e2ee_open demo_aead (demo_kp 5) demo_conn (demo_sign 1) (id_pub (demo_sign 2)) 7")
  obtain hb b1 where b: "e2ee_open demo_aead (demo_kp 6) demo_conn (demo_sign 2) (id_pub (demo_sign 1)) 9 = (hb, b1)"
    by (cases "e2ee_open demo_aead (demo_kp 6) demo_conn (demo_sign 2) (id_pub (demo_sign 1)) 9")
  have wf: "sign_wf demo_aead (demo_sign i)" "kp_wf demo_aead (demo_kp i)" for i
    by (simp_all add: sign_wf_def kp_wf_def demo_sign_def demo_kp_def demo_aead_def demo_sodium_def)
  have uid: "crypto_pubkey_to_uid demo_aead (id_pub (demo_sign 1)) < crypto_pubkey_to_uid demo_aead (id_pub (demo_sign 2))"
    by code_simp
  have kx: "so_kx_client demo_aead (public_key (demo_kp 6)) (private_key (demo_kp 6)) (public_key (demo_kp 5)) \<noteq> None"
    by (simp add: demo_aead_def demo_sodium_def)
  obtain a2 b2 where t: "e2ee_conn_handshake_resp demo_aead a1 hb = (0, a2)"
    "\<forall>es. (\<forall>e \<in> set es. event_ok demo_aead (sk_rx (ec_skeys a2)) (sk_rx (ec_skeys b2)) e) \<longrightarrow>
       e2ee_talk demo_aead a2 b2 es = (concat (map said_a es), concat (map said_b es))"
    using e2ee_session [OF demo_aead_ok wf(1) wf(1) wf(2) wf(2) uid kx a b] by blast
  have f: "foreign demo_aead k [66]" for k
    by (simp add: foreign_def demo_aead_def numeral_eq_Suc)
  have "e2ee_talk demo_aead a2 b2 [AtoB [10], IntoB [66], BtoA [20, 21], AtoB []] = ([[10], []], [[20, 21]])"
    using t(2) [THEN spec, of "[AtoB [10], IntoB [66], BtoA [20, 21], AtoB []]"] f
    by (simp add: E2EE_MAX_def UDP_MTU_def PROTOCOL_OVERHEAD_def E2EE_OVERHEAD_def AEAD_ABYTES_def
        del: e2ee_talk.simps)
  then show ?thesis using a b t(1) by auto
qed

text \<open>
  C12: a connection seals messages only with keys derived from an exchange key that the other
  peer signed, and no two of its first \<open>2 ^ 64\<close> messages under the same nonce, whatever
  packets and files it is given.
\<close>

theorem e2ee_seals_safely:
  assumes "e2ee_reach so made sg other c ns" and "e2ee_encrypt so c m = (0, Some out, c')"
  shows "keys_signed so (take 32 other) (hs_as c) (ec_skeys c) \<and>
    out = so_seal so (sk_tx (ec_skeys c)) (crypto_nonce (tx_nonce c)) m \<and>
    (length ns < 2 ^ 64 \<longrightarrow> distinct (ns @ [tx_nonce c]))"
proof -
  have inv: "e2ee_inv so sg other c ns"
    using assms(1) by (rule e2ee_reach_inv)
  have enc: "hstate c = E2EE_HANDSHAKE_ENDED"
    "out = so_seal so (sk_tx (ec_skeys c)) (crypto_nonce (tx_nonce c)) m"
    using e2ee_encrypt_cases [OF assms(2)] by auto
  have "ns @ [tx_nonce c] = map of_nat [0..<length ns + 1]"
    using inv of_nat_range_Suc [of ns] by (simp add: e2ee_inv_def)
  then have "length ns < 2 ^ 64 \<longrightarrow> distinct (ns @ [tx_nonce c])"
    using distinct_of_nat_range [where 'a = 64, of "length ns + 1"] by simp
  with inv enc show ?thesis by (simp add: e2ee_inv_def)
qed

theorem e2ee_seals_safely_witness:
  "\<exists>(c :: e2ee_connection) ns. ns = [0] \<and> tx_nonce c = 1 \<and> keys_signed demo_aead (replicate 32 2) (hs_as c) (ec_skeys c) \<and>
     distinct (ns @ [tx_nonce c])"
proof -
  define c0 where "c0 = snd (e2ee_conn_init demo_aead (demo_kp 5) demo_conn (demo_sign 1) (Some (replicate 32 2)))"
  define hs where "hs = fst (e2ee_open demo_aead (demo_kp 6) demo_conn (demo_sign 2) (replicate 32 1) 9)"
  define c1 where "c1 = snd (e2ee_conn_handshake_resp demo_aead c0 hs)"
  define c2 where "c2 = snd (snd (e2ee_encrypt demo_aead c1 [1]))"
  note defs = c2_def c1_def hs_def c0_def demo_sign_def demo_kp_def
  have r: "e2ee_reach demo_aead (demo_kp 5) (demo_sign 1) (replicate 32 2) c0 []"
    by (rule e2ee_new [where conn = demo_conn]) (simp add: c0_def e2ee_conn_init_def)
  have "e2ee_conn_handshake_resp demo_aead c0 hs = (0, c1)"
    unfolding defs by code_simp
  then have r1: "e2ee_reach demo_aead (demo_kp 5) (demo_sign 1) (replicate 32 2) c1 []"
    by (rule e2ee_answer [OF r])
  have e: "e2ee_encrypt demo_aead c1 [1] = (0, Some (replicate 16 0 @ [1]), c2)"
    "e2ee_encrypt demo_aead c2 [2] = (0, Some (replicate 16 0 @ [2]), c2\<lparr>tx_nonce := 2\<rparr>)"
    and n: "tx_nonce c1 = 0" "tx_nonce c2 = 1"
    unfolding defs by code_simp+
  have r2: "e2ee_reach demo_aead (demo_kp 5) (demo_sign 1) (replicate 32 2) c2 [0]"
    using e2ee_send [OF r1 e(1)] n by simp
  show ?thesis
    using e2ee_seals_safely [OF r2 e(2)] n by (intro exI [of _ c2] exI [of _ "[0]"] conjI) simp_all
qed

text \<open>
  \<open>e2ee_conn_upd_keypair\<close> reports a failure whenever the key file exists, although a
  file of 64 bytes has replaced the key pair of the connection.
\<close>

theorem e2ee_upd_keypair_fails:
  assumes "length (public_key kp) = 32" and "length (private_key kp) = 32"
  shows "e2ee_conn_upd_keypair opened w c (Some (Some (public_key kp @ private_key kp))) =
    (-1, c\<lparr>ec_kp := kp\<rparr>, Some (public_key kp @ private_key kp))"
  using assms by (simp add: e2ee_conn_upd_keypair_def e2ee_conn_load_keypair_def
      crypto_keypair_load_def fread_one_def)

end
