(* ===== verification/Secure_Channel.thy ===== *)
theory Secure_Channel
  imports Rudp_Channel E2ee
begin

text \<open>
  The two layers of a conversation together: the cipher of \<open>e2ee\<close> on top of a connection of \<open>rudp\<close>, in one
  direction. A program seals a message, keeps what it got until \<open>rudp_conn_send\<close> accepts it as the data of a
  packet, and at the other end opens the data of each packet that \<open>rudp_conn_recv\<close> returns. In between
  is the network of \<open>Rudp_Channel\<close>, which loses, repeats and reorders packets.

  What is heard is a prefix of what was said: the nonces, which both ends only count, stay in step because the
  stream of packets is a prefix of the stream that was sent.
\<close>

record 'fd talk =
  tk_ch :: "'fd channel"
  tk_a :: e2ee_connection
  tk_b :: e2ee_connection
  tk_out :: "bytes option"
  tk_said :: "bytes list"
  tk_heard :: "bytes list"

text \<open>The conversation starts on a connection whose packets, such as the handshake's, have all been received.\<close>

definition talk_init :: "'fd channel \<Rightarrow> e2ee_connection \<Rightarrow> e2ee_connection \<Rightarrow> 'fd talk" where
  "talk_init ch a b = \<lparr>tk_ch = ch, tk_a = a, tk_b = b, tk_out = None, tk_said = [], tk_heard = []\<rparr>"

inductive talk_step :: "sodium \<Rightarrow> 'fd talk \<Rightarrow> 'fd talk \<Rightarrow> bool" for so where
  seal: "tk_out s = None \<Longrightarrow> e2ee_encrypt so (tk_a s) m = (0, Some c, a) \<Longrightarrow>
     talk_step so s (s\<lparr>tk_a := a, tk_out := Some c, tk_said := tk_said s @ [m]\<rparr>)"
| push: "tk_out s = Some c \<Longrightarrow>
     udp_make_pack 0 (s_uid (chA (tk_ch s))) (c_uid (chA (tk_ch s))) PACK_DATA (Some c) (length c) = Some p \<Longrightarrow>
     rudp_conn_send (chA (tk_ch s)) (sA (tk_ch s)) p t1 t2 = Inr (r, a, sa) \<Longrightarrow>
     talk_step so s
       (if r = 0 then s\<lparr>tk_out := None,
          tk_ch := (tk_ch s)\<lparr>chA := a, sA := sa, sent := sent (tk_ch s) @ [p\<lparr>seq := current_seq (chA (tk_ch s))\<rparr>]\<rparr>\<rparr>
        else s\<lparr>tk_ch := (tk_ch s)\<lparr>chA := a, sA := sa\<rparr>\<rparr>)"
| network: "ch_step (tk_ch s) ch \<Longrightarrow> sent ch = sent (tk_ch s) \<Longrightarrow> got ch = got (tk_ch s) \<Longrightarrow>
     talk_step so s (s\<lparr>tk_ch := ch\<rparr>)"
| hear: "rudp_conn_recv (chB (tk_ch s)) = (0, Some p, cb) \<Longrightarrow>
     e2ee_decrypt so (tk_b s) (take (unat (d_size p)) (data p)) = (r, m, b) \<Longrightarrow>
     talk_step so s (s\<lparr>tk_ch := (tk_ch s)\<lparr>chB := cb, got := got (tk_ch s) @ [p]\<rparr>, tk_b := b,
       tk_heard := tk_heard s @ (case m of None \<Rightarrow> [] | Some m \<Rightarrow> [m])\<rparr>)"

inductive talk_reach :: "sodium \<Rightarrow> 'fd talk \<Rightarrow> 'fd talk \<Rightarrow> bool" for so s0 where
  talk_start: "talk_reach so s0 s0"
| talk_next: "talk_reach so s0 s \<Longrightarrow> talk_step so s s' \<Longrightarrow> talk_reach so s0 s'"

text \<open>The ciphertext of the message number \<open>i\<close>, and the data of the packets from number \<open>h\<close> on.\<close>

definition sealed_as :: "sodium \<Rightarrow> bytes \<Rightarrow> bytes list \<Rightarrow> nat \<Rightarrow> bytes" where
  "sealed_as so k ms i = so_seal so k (crypto_nonce (of_nat i)) (ms ! i)"

definition talk_inv :: "sodium \<Rightarrow> bytes \<Rightarrow> nat \<Rightarrow> 'fd talk \<Rightarrow> bool" where
  "talk_inv so k h s \<longleftrightarrow>
     (let ch = tk_ch s; n = length (tk_said s) - (if tk_out s = None then 0 else 1) in
      ch_reach ch \<and> hstate (tk_a s) = E2EE_HANDSHAKE_ENDED \<and> hstate (tk_b s) = E2EE_HANDSHAKE_ENDED \<and>
      sk_tx (ec_skeys (tk_a s)) = k \<and> sk_rx (ec_skeys (tk_b s)) = k \<and>
      tx_nonce (tk_a s) = of_nat (length (tk_said s)) \<and>
      (\<forall>c. tk_out s = Some c \<longrightarrow> tk_said s \<noteq> [] \<and> c = sealed_as so k (tk_said s) n) \<and>
      length (sent ch) = h + n \<and>
      (\<forall>i < n. let p = sent ch ! (h + i) in data p = sealed_as so k (tk_said s) i \<and> unat (d_size p) = length (data p)) \<and>
      (length (sent ch) \<le> SEQ_BOUND \<longrightarrow>
         h \<le> length (got ch) \<and> length (got ch) \<le> h + n \<and> tk_heard s = take (length (got ch) - h) (tk_said s) \<and>
         rx_nonce (tk_b s) = of_nat (length (got ch) - h)))"

lemma send_refused:
  assumes "rudp_conn_send c s p t1 t2 = Inr (r, c', s')" and "pack_ok p" and "r \<noteq> 0"
  shows "c' = c \<and> s' = s"
proof (cases "closed c \<or> RUDP_SEND_WINDOW \<le> len (pkts_fhost c)")
  case True
  then show ?thesis using assms(1) by (auto simp: rudp_conn_send_def split: if_splits)
next
  case False
  then show ?thesis using rudp_conn_send_ok [OF assms(2), of c s t1 t2] assms(1,3) by auto
qed

lemma sealed_as_append: "i < length ms \<Longrightarrow> sealed_as so k (ms @ [m]) i = sealed_as so k ms i"
  by (simp add: sealed_as_def nth_append)

lemma made_pack:
  assumes "udp_make_pack q f t ty (Some c) (length c) = Some p"
  shows "pack_ok p" "data p = c" "unat (d_size p) = length c"
  using assms udp_make_pack_ok [OF assms] by (auto simp: udp_make_pack_def Let_def pack_ok_def split: if_splits)

lemma strip_data: "strip p = strip q \<Longrightarrow> data p = data q \<and> d_size p = d_size q"
  by (cases p; cases q) (simp add: strip_def)

lemma got_next:
  assumes "ch_reach ch" and "got ch = gs @ [p]" and "length (sent ch) \<le> SEQ_BOUND"
  shows "length gs < length (sent ch) \<and> data p = data (sent ch ! length gs) \<and> d_size p = d_size (sent ch ! length gs)"
proof -
  have m: "map strip (gs @ [p]) = map strip (take (length gs + 1) (sent ch))"
    using got_prefix [OF assms(1,3)] assms(2) by simp
  from arg_cong [OF m, of length] have l: "length gs < length (sent ch)" by simp
  moreover from arg_cong [OF m, of "\<lambda>xs. xs ! length gs"] l have "strip p = strip (sent ch ! length gs)"
    by (simp add: nth_append)
  ultimately show ?thesis using strip_data by blast
qed

lemma sealed_opens:
  assumes "sodium_ok so" and "hstate b = E2EE_HANDSHAKE_ENDED" and "sk_rx (ec_skeys b) = k" and "rx_nonce b = of_nat i"
  shows "e2ee_decrypt so b (sealed_as so k ms i) = (0, Some (ms ! i), b\<lparr>rx_nonce := of_nat (Suc i)\<rparr>)"
  using assms by (simp add: e2ee_decrypt_def crypto_decrypt_def sealed_as_def sodium_ok_def)

lemma talk_inv_seal:
  assumes "talk_inv so k h s" and "tk_out s = None" and "e2ee_encrypt so (tk_a s) m = (0, Some c, a)"
  shows "talk_inv so k h (s\<lparr>tk_a := a, tk_out := Some c, tk_said := tk_said s @ [m]\<rparr>)"
proof -
  have a: "a = (tk_a s)\<lparr>tx_nonce := tx_nonce (tk_a s) + 1\<rparr>"
    "c = so_seal so (sk_tx (ec_skeys (tk_a s))) (crypto_nonce (tx_nonce (tk_a s))) m"
    using assms(3) by (auto simp: e2ee_encrypt_def crypto_encrypt_def split: if_splits)
  show ?thesis
    using assms(1,2) unfolding talk_inv_def Let_def
    by (auto simp: a sealed_as_def nth_append)
qed

lemma talk_inv_push:
  assumes "talk_inv so k h s" and "tk_out s = Some c"
    and "udp_make_pack 0 (s_uid (chA (tk_ch s))) (c_uid (chA (tk_ch s))) PACK_DATA (Some c) (length c) = Some p"
    and "rudp_conn_send (chA (tk_ch s)) (sA (tk_ch s)) p t1 t2 = Inr (0, a, sa)"
  shows "talk_inv so k h (s\<lparr>tk_out := None,
    tk_ch := (tk_ch s)\<lparr>chA := a, sA := sa, sent := sent (tk_ch s) @ [p\<lparr>seq := current_seq (chA (tk_ch s))\<rparr>]\<rparr>\<rparr>)"
proof -
  note p = made_pack [OF assms(3)]
  let ?p = "p\<lparr>seq := current_seq (chA (tk_ch s))\<rparr>"
  let ?ch = "(tk_ch s)\<lparr>chA := a, sA := sa, sent := sent (tk_ch s) @ [?p]\<rparr>"
  define n where "n = length (tk_said s) - 1"
  have inv: "ch_reach (tk_ch s)" "length (tk_said s) = Suc n" "c = sealed_as so k (tk_said s) n"
    "length (sent (tk_ch s)) = h + n"
    "\<forall>i < n. data (sent (tk_ch s) ! (h + i)) = sealed_as so k (tk_said s) i \<and>
      unat (d_size (sent (tk_ch s) ! (h + i))) = length (data (sent (tk_ch s) ! (h + i)))"
    using assms(1,2) by (auto simp: talk_inv_def Let_def n_def)
  have r: "ch_reach ?ch" using ch_reach.ch_next [OF inv(1) ch_step.app_send [OF p(1) assms(4)]] .
  have "\<forall>i < Suc n. data ((sent (tk_ch s) @ [?p]) ! (h + i)) = sealed_as so k (tk_said s) i \<and>
      unat (d_size ((sent (tk_ch s) @ [?p]) ! (h + i))) = length (data ((sent (tk_ch s) @ [?p]) ! (h + i)))"
    using inv(3-5) p(2,3) by (simp add: less_Suc_eq nth_append)
  with assms(1,2) inv r show ?thesis by (auto simp: talk_inv_def Let_def)
qed

lemma talk_inv_hear:
  assumes "talk_inv so k h s" and "sodium_ok so" and "rudp_conn_recv (chB (tk_ch s)) = (0, Some p, cb)"
    and "e2ee_decrypt so (tk_b s) (take (unat (d_size p)) (data p)) = (r, m, b)"
  shows "talk_inv so k h (s\<lparr>tk_ch := (tk_ch s)\<lparr>chB := cb, got := got (tk_ch s) @ [p]\<rparr>, tk_b := b,
       tk_heard := tk_heard s @ (case m of None \<Rightarrow> [] | Some m \<Rightarrow> [m])\<rparr>)"
proof -
  let ?ch = "(tk_ch s)\<lparr>chB := cb, got := got (tk_ch s) @ [p]\<rparr>"
  define n where "n = length (tk_said s) - (if tk_out s = None then 0 else 1)"
  define i where "i = length (got (tk_ch s)) - h"
  note inv = assms(1) [unfolded talk_inv_def Let_def, folded n_def]
  have reach: "ch_reach ?ch" using ch_reach.ch_next [OF _ ch_step.app_recv [OF assms(3)]] inv by blast
  have b: "hstate b = E2EE_HANDSHAKE_ENDED" "ec_skeys b = ec_skeys (tk_b s)"
    using assms(4) inv by (auto simp: e2ee_decrypt_def split: if_splits prod.splits)
  have "tk_heard s @ (case m of None \<Rightarrow> [] | Some m \<Rightarrow> [m]) = take (Suc i) (tk_said s) \<and> rx_nonce b = of_nat (Suc i) \<and>
      h \<le> length (got (tk_ch s)) \<and> i < n" if bound: "length (sent (tk_ch s)) \<le> SEQ_BOUND"
  proof -
    have g: "h \<le> length (got (tk_ch s))" "tk_heard s = take i (tk_said s)" "rx_nonce (tk_b s) = of_nat i"
      using inv bound by (simp_all add: i_def)
    have p: "h + i < length (sent (tk_ch s))" "data p = data (sent (tk_ch s) ! (h + i))" "d_size p = d_size (sent (tk_ch s) ! (h + i))"
      using got_next [OF reach, of "got (tk_ch s)" p] bound g(1) by (simp_all add: i_def)
    then have n: "i < n" using inv by simp
    with p inv have "take (unat (d_size p)) (data p) = sealed_as so k (tk_said s) i" by (simp add: Let_def)
    then have d: "m = Some (tk_said s ! i)" "b = (tk_b s)\<lparr>rx_nonce := of_nat (Suc i)\<rparr>"
      using assms(4) sealed_opens [OF assms(2), of "tk_b s" k i "tk_said s"] inv g(3) by simp_all
    have "i < length (tk_said s)" using n by (simp add: n_def split: if_splits)
    with g n d show ?thesis by (simp add: take_Suc_conv_app_nth)
  qed
  then show ?thesis
    using inv reach b unfolding talk_inv_def Let_def by (auto simp: i_def n_def Suc_diff_le split: if_splits)
qed

lemma talk_inv_step: "talk_step so s s' \<Longrightarrow> sodium_ok so \<Longrightarrow> talk_inv so k h s \<Longrightarrow> talk_inv so k h s'"
proof (induction rule: talk_step.induct)
  case (push s c p t1 t2 r a sa)
  show ?case
  proof (cases "r = 0")
    case True
    with push(3) have "rudp_conn_send (chA (tk_ch s)) (sA (tk_ch s)) p t1 t2 = Inr (0, a, sa)" by simp
    from talk_inv_push [OF push(5,1,2) this] True show ?thesis by simp
  next
    case False
    then have "a = chA (tk_ch s)" "sa = sA (tk_ch s)"
      using send_refused [OF push(3) made_pack(1) [OF push(2)]] by simp_all
    with False push show ?thesis by simp
  qed
next
  case (network s ch)
  then show ?case by (auto simp: talk_inv_def Let_def intro: ch_reach.ch_next)
qed (auto intro: talk_inv_seal talk_inv_hear)

lemma talk_inv_reach:
  assumes "talk_reach so s0 s" and "sodium_ok so" and "talk_inv so k h s0"
  shows "talk_inv so k h s"
  using assms(1) by (induction rule: talk_reach.induct) (auto intro: talk_inv_step assms)

lemma talk_inv_init:
  assumes "ch_reach ch" and "length (got ch) = length (sent ch)" and "e2ee_paired a b" and "tx_nonce a = 0"
  shows "talk_inv so (sk_tx (ec_skeys a)) (length (sent ch)) (talk_init ch a b)"
  using assms by (simp add: talk_inv_def talk_init_def e2ee_paired_def Let_def)

subsection \<open>Properties\<close>

text \<open>
  C13: two paired ends of an encrypted session (each receives with the key the other one sends with) that start
  to talk with their nonces at zero, on a connection whose earlier packets have all been received and which
  carries at most 2^32 - 129 packets in all: under any loss, duplication and reordering what the program at the
  other end has heard is a prefix of what was said, one message for each packet it received; no packet of the
  stream fails to open.
\<close>

theorem secure_stream_prefix:
  assumes "talk_reach so (talk_init ch a b) s" and "sodium_ok so" and "ch_reach ch" and "length (got ch) = length (sent ch)"
    and "e2ee_paired a b" and "tx_nonce a = 0" and "length (sent (tk_ch s)) \<le> SEQ_BOUND"
  shows "tk_heard s = take (length (tk_heard s)) (tk_said s) \<and> length (tk_heard s) = length (got (tk_ch s)) - length (got ch) \<and>
    length (tk_heard s) \<le> length (tk_said s)"
proof -
  have "talk_inv so (sk_tx (ec_skeys a)) (length (sent ch)) s"
    using talk_inv_reach [OF assms(1,2) talk_inv_init [OF assms(3-6)]] .
  then have "tk_heard s = take (length (got (tk_ch s)) - length (got ch)) (tk_said s)"
    and "length (got (tk_ch s)) \<le> length (got ch) + (length (tk_said s) - (if tk_out s = None then 0 else 1))"
    using assms(4,7) by (simp_all add: talk_inv_def Let_def)
  moreover from this(2) have "length (got (tk_ch s)) - length (got ch) \<le> length (tk_said s)"
    by (simp split: if_splits)
  ultimately show ?thesis by simp
qed

definition demo_end :: "bytes \<Rightarrow> bytes \<Rightarrow> e2ee_connection" where
  "demo_end rx tx = demo_conn\<lparr>hstate := E2EE_HANDSHAKE_ENDED, ec_skeys := \<lparr>sk_rx = rx, sk_tx = tx\<rparr>\<rparr>"

theorem secure_stream_prefix_witness:
  "\<exists>s :: nat talk. talk_reach demo_sodium (talk_init demo_ch (demo_end [1] [2]) (demo_end [2] [1])) s \<and>
     tk_said s = [[10, 11]] \<and> tk_heard s = [[10, 11]]"
proof -
  let ?a = "demo_end [1] [2]" and ?b = "demo_end [2] [1]" and ?c = "replicate 16 0 @ [10, 11] :: bytes"
  let ?s0 = "talk_init demo_ch ?a ?b"
  let ?s1 = "?s0\<lparr>tk_a := ?a\<lparr>tx_nonce := 1\<rparr>, tk_out := Some ?c, tk_said := [[10, 11]]\<rparr>"
  have ends: "e2ee_paired ?a ?b" "tx_nonce ?a = 0" by (simp_all add: e2ee_paired_def demo_end_def demo_conn_def e2ee_conn_end_def)
  have "e2ee_encrypt demo_sodium ?a [10, 11] = (0, Some ?c, ?a\<lparr>tx_nonce := 1\<rparr>)"
    unfolding demo_end_def demo_conn_def by code_simp
  then have "talk_step demo_sodium ?s0 ?s1"
    using talk_step.seal [of ?s0 demo_sodium "[10, 11]" ?c "?a\<lparr>tx_nonce := 1\<rparr>"] by (simp add: talk_init_def)
  then have r1: "talk_reach demo_sodium ?s0 ?s1" by (rule talk_next [OF talk_start])
  obtain q where q: "udp_make_pack 0 (s_uid (chA demo_ch)) (c_uid (chA demo_ch)) PACK_DATA (Some ?c) (length ?c) = Some q"
    by (simp add: udp_make_pack_def PROTOCOL_OVERHEAD_def UDP_MTU_def)
  have z: "current_seq (chA demo_ch) = 0" "sent demo_ch = []" "got demo_ch = []" "ch_reach demo_ch"
    by (simp_all add: demo_ch_def ch_init_def rudp_conn_new_def ch_reach.ch_init [unfolded ch_init_def rudp_conn_new_def])
  obtain a sa b sb p where f: "rudp_conn_send (chA demo_ch) (sA demo_ch) q 0 0 = Inr (0, a, sa)"
    "ch_step (demo_ch\<lparr>chA := a, sA := sa, sent := [q\<lparr>seq := 0\<rparr>]\<rparr>)
       (demo_ch\<lparr>chA := a, sA := sa, sent := [q\<lparr>seq := 0\<rparr>], chB := b, sB := sb\<rparr>)"
    "pkts_reordered b = [p]" "\<not> closed b"
    using demo_first [OF made_pack(1) [OF q]] by metis
  let ?ch = "demo_ch\<lparr>chA := a, sA := sa, sent := [q\<lparr>seq := 0\<rparr>]\<rparr>"
  let ?ch' = "?ch\<lparr>chB := b, sB := sb\<rparr>"
  let ?s2 = "?s1\<lparr>tk_out := None, tk_ch := ?ch\<rparr>" and ?s3 = "?s1\<lparr>tk_out := None, tk_ch := ?ch'\<rparr>"
  have "talk_step demo_sodium ?s1 ?s2"
    using talk_step.push [of ?s1 ?c q 0 0 0 a sa demo_sodium] q f(1) z by (simp add: talk_init_def)
  then have r2: "talk_reach demo_sodium ?s0 ?s2" by (rule talk_next [OF r1])
  have "talk_step demo_sodium ?s2 ?s3"
    using talk_step.network [of ?s2 ?ch' demo_sodium] f(2) by simp
  then have r3: "talk_reach demo_sodium ?s0 ?s3" by (rule talk_next [OF r2])
  obtain r m b' where d: "e2ee_decrypt demo_sodium ?b (take (unat (d_size p)) (data p)) = (r, m, b')" by (cases "e2ee_decrypt demo_sodium ?b (take (unat (d_size p)) (data p))")
  let ?s4 = "?s3\<lparr>tk_ch := ?ch'\<lparr>chB := b\<lparr>pkts_reordered := []\<rparr>, got := [p]\<rparr>, tk_b := b', tk_heard := (case m of None \<Rightarrow> [] | Some m \<Rightarrow> [m])\<rparr>"
  have "talk_step demo_sodium ?s3 ?s4"
    using talk_step.hear [of ?s3 p "b\<lparr>pkts_reordered := []\<rparr>" demo_sodium r m b'] f(3,4) d z
    by (simp add: rudp_conn_recv_def talk_init_def)
  then have r4: "talk_reach demo_sodium ?s0 ?s4" by (rule talk_next [OF r3])
  have eq: "length (got demo_ch) = length (sent demo_ch)" by (simp add: z)
  have "length (sent (tk_ch ?s4)) \<le> SEQ_BOUND" by (simp add: SEQ_BOUND_def)
  then have h: "tk_heard ?s4 = take (length (tk_heard ?s4)) (tk_said ?s4)" "length (tk_heard ?s4) = length (got (tk_ch ?s4)) - length (got demo_ch)"
    using secure_stream_prefix [OF r4 demo_sodium_ok z(4) eq ends] by blast+
  from h(2) z(3) have "length (tk_heard ?s4) = 1" by simp
  with h(1) have "tk_heard ?s4 = take 1 (tk_said ?s4)" by metis
  with r4 show ?thesis by (intro exI [of _ ?s4] conjI) simp_all
qed

end
