(* ===== verification/Lownet.thy ===== *)
theory Lownet
  imports Prelude
begin

text \<open>
  The address half of \<open>lownet/core.c\<close>: textual addresses (\<open>naddr_t\<close>), socket addresses
  (\<open>nnet_fd\<close>), the conversions between them, and the address hash. A C string is the list
  of its bytes before the \<open>NUL\<close>. A \<open>naddr_t\<close> is its memory image, because packets carry
  that image: 48 bytes of the union (IPv4: text in 16 bytes, port; IPv6: text in 46 bytes,
  port) and the type in 4 bytes.

  The IPv4 text conversions of the C library are written out; those of IPv6 are the argument
  \<open>lib6\<close>, and the answer of \<open>gethostbyname\<close> the argument \<open>dns\<close>. A \<open>strcpy\<close> past the end of
  its target is the fault \<open>OutOfBounds\<close>.

  The lemmas: parsing inverts printing, a socket address survives the way through its text,
  and the final mix of the hash is a bijection.
\<close>

type_synonym naddr_t = bytes

record sockaddr_storage =
  ss_family :: u16
  ss_port :: u16
  ss_addr4 :: bytes
  ss_addr6 :: bytes
  ss_scope :: u32

record nnet_fd =
  rfd :: int
  fd_addr :: sockaddr_storage
  fd_addr_len :: nat

record lib6 =
  pton6 :: "bytes \<Rightarrow> bytes option"
  ntop6 :: "bytes \<Rightarrow> bytes"

definition AF_INET :: u16 where
  "AF_INET = 2"

definition AF_INET6 :: u16 where
  "AF_INET6 = 10"

definition nADDR_IPV4 :: u32 where
  "nADDR_IPV4 = 0"

definition nADDR_IPV6 :: u32 where
  "nADDR_IPV6 = 1"

definition cstr :: "bytes \<Rightarrow> bytes" where
  "cstr = takeWhile (\<lambda>b. b \<noteq> 0)"

definition zeros :: "nat \<Rightarrow> bytes" where
  "zeros n = replicate n 0"

lemma length_zeros [simp]: "length (zeros n) = n"
  by (simp add: zeros_def)

subsection \<open>The IPv4 text conversions of the C library\<close>

text \<open>Octets in decimal, without leading zeros, separated by dots.\<close>

definition digit :: "nat \<Rightarrow> u8" where
  "digit n = of_nat (48 + n)"

definition dec_octet :: "u8 \<Rightarrow> bytes" where
  "dec_octet b =
     (let n = unat b in
      if n < 10 then [digit n]
      else if n < 100 then [digit (n div 10), digit (n mod 10)]
      else [digit (n div 100), digit (n div 10 mod 10), digit (n mod 10)])"

fun inet_ntop4 :: "bytes \<Rightarrow> bytes" where
  "inet_ntop4 [a, b, c, d] =
     dec_octet a @ [46] @ dec_octet b @ [46] @ dec_octet c @ [46] @ dec_octet d"
| "inet_ntop4 _ = []"

text \<open>
  The parser's state: the octets before the current one, the current one, and whether it
  has a digit.
\<close>

fun pton4_loop :: "bytes \<Rightarrow> nat list \<Rightarrow> nat \<Rightarrow> bool \<Rightarrow> bytes option" where
  "pton4_loop [] octs cur saw =
     (if saw \<and> length octs = 3 then Some (map of_nat (octs @ [cur])) else None)"
| "pton4_loop (c # cs) octs cur saw =
     (if 48 \<le> c \<and> c \<le> 57 then
        (if saw \<and> cur = 0 \<or> 255 < cur * 10 + (unat c - 48) then None
         else pton4_loop cs octs (cur * 10 + (unat c - 48)) True)
      else if c = 46 \<and> saw then
        (if length octs = 3 then None else pton4_loop cs (octs @ [cur]) 0 False)
      else None)"

definition inet_pton4 :: "bytes \<Rightarrow> bytes option" where
  "inet_pton4 s = pton4_loop s [] 0 False"

subsection \<open>Textual addresses\<close>

definition ln_ipv4 :: "bytes \<Rightarrow> u16 \<Rightarrow> fault + bytes" where
  "ln_ipv4 ip port =
     (if length ip < 16 then Inr (ip @ zeros (16 - length ip) @ le16 port) else Inl OutOfBounds)"

definition ln_ipv6 :: "bytes \<Rightarrow> u16 \<Rightarrow> fault + bytes" where
  "ln_ipv6 ip port =
     (if length ip < 46 then Inr (ip @ zeros (46 - length ip) @ le16 port) else Inl OutOfBounds)"

definition ln_make4 :: "bytes \<Rightarrow> naddr_t" where
  "ln_make4 v4 = v4 @ zeros 30 @ le32 nADDR_IPV4"

definition ln_make6 :: "bytes \<Rightarrow> naddr_t" where
  "ln_make6 v6 = v6 @ le32 nADDR_IPV6"

definition na_t :: "naddr_t \<Rightarrow> u32" where
  "na_t a = of_le32 (drop 48 a)"

definition ln_gip :: "naddr_t \<Rightarrow> bytes" where
  "ln_gip a = (if na_t a = nADDR_IPV4 \<or> na_t a = nADDR_IPV6 then cstr a else [])"

definition ln_gport :: "naddr_t \<Rightarrow> u16" where
  "ln_gport a =
     (if na_t a = nADDR_IPV4 then of_le16 (drop 16 a)
      else if na_t a = nADDR_IPV6 then of_le16 (drop 46 a) else 0)"

text \<open>The image with the text and the port of one of the two forms replaced.\<close>

definition na_store4 :: "naddr_t \<Rightarrow> bytes \<Rightarrow> u16 \<Rightarrow> naddr_t" where
  "na_store4 out ip port =
     take 16 (ip @ zeros 16) @ le16 port @ take 30 (drop 18 out) @ le32 nADDR_IPV4"

definition na_store6 :: "naddr_t \<Rightarrow> bytes \<Rightarrow> u16 \<Rightarrow> naddr_t" where
  "na_store6 out ip port = take 46 (ip @ zeros 46) @ le16 port @ le32 nADDR_IPV6"

definition ln_resolve ::
  "(bytes \<Rightarrow> bytes list option) \<Rightarrow> bytes \<Rightarrow> naddr_t \<Rightarrow> int \<times> naddr_t" where
  "ln_resolve dns domain output =
     (case dns domain of
        None \<Rightarrow> (-1, output)
      | Some addr_list \<Rightarrow>
          (let ip = (case addr_list of [] \<Rightarrow> [] | a # _ \<Rightarrow> inet_ntop4 a) in
           if ip = [] then (-1, output)
           else if 58 \<in> set ip then (0, na_store6 output ip 0)
           else (0, na_store4 output ip 0)))"

definition ln_set_port4 :: "naddr_t \<Rightarrow> u16 \<Rightarrow> naddr_t" where
  "ln_set_port4 a port = take 16 a @ le16 port @ drop 18 a"

definition ln_set_port6 :: "naddr_t \<Rightarrow> u16 \<Rightarrow> naddr_t" where
  "ln_set_port6 a port = take 46 a @ le16 port @ drop 48 a"

definition ln_uni ::
  "lib6 \<Rightarrow> (bytes \<Rightarrow> bytes list option) \<Rightarrow> bytes \<Rightarrow> u16 \<Rightarrow> naddr_t \<Rightarrow> fault + int \<times> naddr_t" where
  "ln_uni lib dns uni_addr port out =
     (if inet_pton4 uni_addr \<noteq> None then
        bind_fault (ln_ipv4 uni_addr port) (\<lambda>v4. Inr (0, ln_make4 v4))
      else if pton6 lib uni_addr \<noteq> None then
        bind_fault (ln_ipv6 uni_addr port) (\<lambda>v6. Inr (0, ln_make6 v6))
      else
        (let (r, out) = ln_resolve dns uni_addr out in
         if r = 0 then
           Inr (0, if na_t out = nADDR_IPV4 then ln_set_port4 out port
                   else if na_t out = nADDR_IPV6 then ln_set_port6 out port else out)
         else Inr (-1, out)))"

definition ln_uniq ::
  "lib6 \<Rightarrow> (bytes \<Rightarrow> bytes list option) \<Rightarrow> naddr_t \<Rightarrow> bytes \<Rightarrow> u16 \<Rightarrow> fault + naddr_t" where
  "ln_uniq lib dns junk uni_addr port =
     bind_fault (ln_uni lib dns uni_addr port junk) (\<lambda>(r, out).
       Inr (if r < 0 then zeros 52 else out))"

definition ln_resolveq ::
  "(bytes \<Rightarrow> bytes list option) \<Rightarrow> naddr_t \<Rightarrow> bytes \<Rightarrow> u32 \<Rightarrow> naddr_t" where
  "ln_resolveq dns junk domain port =
     (let (r, a) = ln_resolve dns domain junk in
      if r < 0 then zeros 52 else ln_set_port4 a (ucast port))"

definition ln_domain ::
  "(bytes \<Rightarrow> bytes list option) \<Rightarrow> naddr_t \<Rightarrow> bytes \<Rightarrow> u32 \<Rightarrow> naddr_t" where
  "ln_domain dns junk domain port =
     (let (r, a) = ln_resolve dns domain junk in
      if r < 0 then zeros 52
      else if na_t a = nADDR_IPV4 then ln_set_port4 a (ucast port)
      else ln_set_port6 a (ucast port))"

definition ln_addrcmp :: "naddr_t \<Rightarrow> naddr_t \<Rightarrow> bool" where
  "ln_addrcmp a b =
     (if na_t a \<noteq> na_t b then False
      else if na_t a = nADDR_IPV4 then
        of_le16 (drop 16 a) = of_le16 (drop 16 b) \<and> cstr a = cstr b
      else of_le16 (drop 46 a) = of_le16 (drop 46 b) \<and> cstr a = cstr b)"

definition ln_hton :: "naddr_t \<Rightarrow> fault + naddr_t" where
  "ln_hton a =
     (if na_t a = nADDR_IPV4 then
        bind_fault (ln_ipv4 (cstr a) (htons (of_le16 (drop 16 a)))) (\<lambda>v4. Inr (ln_make4 v4))
      else if na_t a = nADDR_IPV6 then
        bind_fault (ln_ipv6 (cstr a) (htons (of_le16 (drop 46 a)))) (\<lambda>v6. Inr (ln_make6 v6))
      else Inr (zeros 52))"

definition ln_ntoh :: "naddr_t \<Rightarrow> fault + naddr_t" where
  "ln_ntoh a =
     (if na_t a = nADDR_IPV4 then
        bind_fault (ln_ipv4 (cstr a) (ntohs (of_le16 (drop 16 a)))) (\<lambda>v4. Inr (ln_make4 v4))
      else if na_t a = nADDR_IPV6 then
        bind_fault (ln_ipv6 (cstr a) (ntohs (of_le16 (drop 46 a)))) (\<lambda>v6. Inr (ln_make6 v6))
      else Inr (zeros 52))"

definition ln_from_uint32 :: "bytes \<Rightarrow> u16 \<Rightarrow> naddr_t" where
  "ln_from_uint32 ip_bin port = na_store4 (zeros 52) (inet_ntop4 ip_bin) port"

definition ln_to_uint32 :: "naddr_t \<Rightarrow> bytes" where
  "ln_to_uint32 a =
     (if na_t a \<noteq> nADDR_IPV4 then zeros 4
      else case inet_pton4 (cstr a) of None \<Rightarrow> zeros 4 | Some ip \<Rightarrow> ip)"

subsection \<open>Socket addresses\<close>

definition zero_sockaddr :: sockaddr_storage where
  "zero_sockaddr =
     \<lparr>ss_family = 0, ss_port = 0, ss_addr4 = zeros 4, ss_addr6 = zeros 16, ss_scope = 0\<rparr>"

definition ln_netfd :: "lib6 \<Rightarrow> naddr_t \<Rightarrow> nnet_fd \<Rightarrow> int \<times> nnet_fd" where
  "ln_netfd lib a out =
     (if na_t a = nADDR_IPV4 then
        (case inet_pton4 (cstr a) of
           None \<Rightarrow> (-1, out)
         | Some ip \<Rightarrow>
             (0, out\<lparr>fd_addr := (fd_addr out)\<lparr>ss_addr4 := ip, ss_family := AF_INET,
                        ss_port := htons (of_le16 (drop 16 a))\<rparr>,
                    fd_addr_len := 16\<rparr>))
      else if na_t a = nADDR_IPV6 then
        (case pton6 lib (cstr a) of
           None \<Rightarrow> (-1, out)
         | Some ip \<Rightarrow>
             (0, out\<lparr>fd_addr := (fd_addr out)\<lparr>ss_addr6 := ip, ss_family := AF_INET6,
                        ss_port := htons (of_le16 (drop 46 a))\<rparr>,
                    fd_addr_len := 28\<rparr>))
      else (-1, out))"

definition ln_netfdq :: "lib6 \<Rightarrow> naddr_t \<Rightarrow> nnet_fd" where
  "ln_netfdq lib a =
     (let (r, out) = ln_netfd lib a \<lparr>rfd = 0, fd_addr = zero_sockaddr, fd_addr_len = 0\<rparr> in
      if r < 0 then \<lparr>rfd = -1, fd_addr = zero_sockaddr, fd_addr_len = 0\<rparr> else out)"

definition ln_nfd2addr :: "lib6 \<Rightarrow> nnet_fd \<Rightarrow> fault + naddr_t" where
  "ln_nfd2addr lib fd =
     (if ss_family (fd_addr fd) = AF_INET then
        bind_fault (ln_ipv4 (inet_ntop4 (ss_addr4 (fd_addr fd))) (ntohs (ss_port (fd_addr fd))))
          (\<lambda>v4. Inr (ln_make4 v4))
      else if ss_family (fd_addr fd) = AF_INET6 then
        bind_fault (ln_ipv6 (ntop6 lib (ss_addr6 (fd_addr fd))) (ntohs (ss_port (fd_addr fd))))
          (\<lambda>v6. Inr (ln_make6 v6))
      else Inr (zeros 52))"

subsection \<open>The hash\<close>

definition rotl32 :: "nat \<Rightarrow> u32 \<Rightarrow> u32" where
  "rotl32 r k = push_bit r k OR drop_bit (32 - r) k"

definition murmur_scramble :: "u32 \<Rightarrow> u32" where
  "murmur_scramble k = rotl32 15 (k * 0xcc9e2d51) * 0x1b873593"

definition murmur_block :: "u32 \<Rightarrow> u32 \<Rightarrow> u32" where
  "murmur_block h k = rotl32 13 (h XOR murmur_scramble k) * 5 + 0xe6546b64"

definition murmur_tail :: "bytes \<Rightarrow> u32 \<Rightarrow> u32" where
  "murmur_tail tail h =
     (case tail of
        [a] \<Rightarrow> h XOR murmur_scramble (ucast a)
      | [a, b] \<Rightarrow> h XOR murmur_scramble (push_bit 8 (ucast b) XOR ucast a)
      | [a, b, c] \<Rightarrow>
          h XOR murmur_scramble (push_bit 16 (ucast c) XOR push_bit 8 (ucast b) XOR ucast a)
      | _ \<Rightarrow> h)"

fun murmur_body :: "bytes \<Rightarrow> u32 \<Rightarrow> u32" where
  "murmur_body (a # b # c # d # rest) h = murmur_body rest (murmur_block h (of_le32 [a, b, c, d]))"
| "murmur_body tail h = murmur_tail tail h"

definition murmur_fmix :: "u32 \<Rightarrow> u32" where
  "murmur_fmix h =
     (let h = h XOR drop_bit 16 h;
          h = h * 0x85ebca6b;
          h = h XOR drop_bit 13 h;
          h = h * 0xc2b2ae35 in
      h XOR drop_bit 16 h)"

definition murmurhash3_32 :: "bytes \<Rightarrow> u32 \<Rightarrow> u32" where
  "murmurhash3_32 key seed = murmur_fmix (murmur_body key seed XOR of_nat (length key))"

definition ln_nfd2hash :: "nnet_fd \<Rightarrow> u32" where
  "ln_nfd2hash fd =
     (let ss = fd_addr fd in
      if ss_family ss = AF_INET then murmurhash3_32 (ss_addr4 ss @ le16 (ss_port ss)) 0xDEADBEF
      else if ss_family ss = AF_INET6 then
        murmurhash3_32 (ss_addr6 ss @ le16 (ss_port ss)) 0xDEADBEF
      else 0)"

subsection \<open>The hash is a bijection block by block\<close>

lemma rotl32_rotl32:
  assumes "0 < r" and "r < 32"
  shows "rotl32 (32 - r) (rotl32 r k) = k"
proof (rule bit_word_eqI)
  fix n assume "n < LENGTH(32)"
  then have n: "n < 32" by simp
  show "bit (rotl32 (32 - r) (rotl32 r k)) n = bit k n"
  proof (cases "n < 32 - r")
    case True
    with assms n have "r + n < 32" "\<not> 32 \<le> n + r" "n + r - r = n" by simp_all
    with True assms n show ?thesis
      by (auto simp add: rotl32_def bit_simps add.commute [of n r])
  next
    case False
    with assms n have a: "n - (32 - r) < r" "32 - r \<le> n" "32 - r + (n - (32 - r)) = n" by simp_all
    with n assms show ?thesis
      by (auto simp add: rotl32_def bit_simps dest: bit_imp_le_length)
  qed
qed

lemma inj_rotl32: "0 < r \<Longrightarrow> r < 32 \<Longrightarrow> rotl32 r a = rotl32 r b \<longleftrightarrow> a = b"
  by (metis rotl32_rotl32)

lemma mult_unit_cancel:
  fixes c d :: u32
  assumes "c * d = 1"
  shows "a * c = b * c \<longleftrightarrow> a = b"
proof
  assume "a * c = b * c"
  then have "a * (c * d) = b * (c * d)" by (simp only: mult.assoc [symmetric])
  then show "a = b" by (simp add: assms)
qed simp

lemma xorshift_16: "(h XOR drop_bit 16 h) XOR drop_bit 16 (h XOR drop_bit 16 h) = (h :: u32)"
  by (rule bit_word_eqI) (auto simp: bit_simps dest: bit_imp_le_length)

lemma xorshift_13:
  "(let y = h XOR drop_bit 13 h in y XOR drop_bit 13 y XOR drop_bit 26 y) = (h :: u32)"
  unfolding Let_def by (rule bit_word_eqI) (auto simp: bit_simps dest: bit_imp_le_length)

lemma xorshift_inject [simp]:
  fixes a b :: u32
  shows "a XOR drop_bit 16 a = b XOR drop_bit 16 b \<longleftrightarrow> a = b"
    and "a XOR drop_bit 13 a = b XOR drop_bit 13 b \<longleftrightarrow> a = b"
   apply (metis xorshift_16)
  apply (metis xorshift_13)
  done

lemma murmur_fmix_inject [simp]: "murmur_fmix a = murmur_fmix b \<longleftrightarrow> a = b"
  by (simp add: murmur_fmix_def Let_def mult_unit_cancel [of "0x85ebca6b" "0xa5cb9243"]
      mult_unit_cancel [of "0xc2b2ae35" "0x7ed1b41d"])

lemma murmur_scramble_inject [simp]: "murmur_scramble a = murmur_scramble b \<longleftrightarrow> a = b"
  by (simp add: murmur_scramble_def inj_rotl32 mult_unit_cancel [of "0xcc9e2d51" "0xdee13bb1"]
      mult_unit_cancel [of "0x1b873593" "0x56ed309b"])

lemma murmur_block_inject [simp]:
  "murmur_block h a = murmur_block h b \<longleftrightarrow> a = b"
  "murmur_block g a = murmur_block h a \<longleftrightarrow> g = h"
  by (simp_all add: murmur_block_def inj_rotl32 xor_cancel mult_unit_cancel [of 5 "0xcccccccd"])

subsection \<open>The IPv4 parser inverts the printer\<close>

lemma digit_range: "n < 10 \<Longrightarrow> 48 \<le> digit n \<and> digit n \<le> 57 \<and> unat (digit n) = 48 + n"
proof -
  assume "n < 10"
  then have "n \<in> {0,1,2,3,4,5,6,7,8,9}" by auto
  then show ?thesis by (auto simp: digit_def)
qed

lemma pton4_digit:
  "\<lbrakk>n < 10; \<not> (saw \<and> cur = 0); cur * 10 + n \<le> 255\<rbrakk> \<Longrightarrow>
   pton4_loop (digit n # cs) octs cur saw = pton4_loop cs octs (cur * 10 + n) True"
  using digit_range [of n] by auto

lemma pton4_octet:
  "pton4_loop (dec_octet b @ cs) octs 0 False = pton4_loop cs octs (unat b) True"
proof -
  have b: "unat b < 256" using unsigned_less [of b] by simp
  consider "unat b < 10" | "10 \<le> unat b" "unat b < 100" | "100 \<le> unat b" by linarith
  then show ?thesis
  proof cases
    case 1 then show ?thesis by (simp add: dec_octet_def pton4_digit del: pton4_loop.simps)
  next
    case 2
    then have "unat b div 10 < 10" "0 < unat b div 10" by auto
    moreover have "unat b div 10 * 10 + unat b mod 10 = unat b" by simp
    moreover have "unat b div 10 \<le> 255" "unat b \<le> 255" using 2 by auto
    ultimately show ?thesis using 2
      by (simp add: dec_octet_def Let_def pton4_digit del: pton4_loop.simps)
  next
    case 3
    define n where "n = unat b"
    have n: "100 \<le> n" "n < 256" using 3 b by (auto simp: n_def)
    have "n div 100 < 10" "0 < n div 100" using n by auto
    moreover have "n div 100 * 10 + n div 10 mod 10 = n div 10"
      using div_mult2_eq [of n 10 10] by simp
    moreover have "(n div 10) * 10 + n mod 10 = n" by simp
    moreover have "n div 10 \<le> 255" "n div 100 \<le> 255" "n \<le> 255" "n div 10 \<noteq> 0" using n by auto
    ultimately show ?thesis using n
      by (simp add: dec_octet_def n_def [symmetric] pton4_digit del: pton4_loop.simps)
  qed
qed

lemma pton4_dot:
  "length octs < 3 \<Longrightarrow> pton4_loop (46 # cs) octs cur True = pton4_loop cs (octs @ [cur]) 0 False"
  by (simp add: word_le_nat_alt)

lemma inet_pton4_ntop4: "length ip = 4 \<Longrightarrow> inet_pton4 (inet_ntop4 ip) = Some ip"
  by (auto simp: numeral_eq_Suc length_Suc_conv inet_pton4_def pton4_octet pton4_dot
      pton4_octet [where cs = "[]", simplified] simp del: pton4_loop.simps(2))

lemma length_dec_octet: "length (dec_octet b) \<le> 3" "dec_octet b \<noteq> []"
  by (simp_all add: dec_octet_def Let_def)

lemma dec_octet_nonzero: "0 \<notin> set (dec_octet b)"
proof -
  have d: "digit n = 0 \<Longrightarrow> 10 \<le> n" for n using digit_range [of n] by (cases "n < 10") auto
  have "unat b div 100 < 10" using unsigned_less [of b, where 'a = nat] by simp
  then show ?thesis by (auto simp: dec_octet_def Let_def dest!: sym [of 0] d)
qed

lemma length_inet_ntop4: "length (inet_ntop4 ip) \<le> 15"
proof (cases ip rule: inet_ntop4.cases)
  case (1 a b c d)
  then show ?thesis using length_dec_octet(1) [of a] length_dec_octet(1) [of b]
      length_dec_octet(1) [of c] length_dec_octet(1) [of d] by simp
qed simp_all

lemma inet_ntop4_nonzero: "0 \<notin> set (inet_ntop4 ip)"
  by (cases ip rule: inet_ntop4.cases) (simp_all add: dec_octet_nonzero)

subsection \<open>Addresses through their text\<close>

definition lib6_ok :: "lib6 \<Rightarrow> bool" where
  "lib6_ok lib \<longleftrightarrow>
     (\<forall>a. length a = 16 \<longrightarrow>
        length (ntop6 lib a) < 46 \<and> 0 \<notin> set (ntop6 lib a) \<and> pton6 lib (ntop6 lib a) = Some a)"

definition na4 :: "bytes \<Rightarrow> u16 \<Rightarrow> naddr_t" where
  "na4 ip port = ln_make4 (ip @ zeros (16 - length ip) @ le16 port)"

definition na6 :: "bytes \<Rightarrow> u16 \<Rightarrow> naddr_t" where
  "na6 ip port = ln_make6 (ip @ zeros (46 - length ip) @ le16 port)"

lemma AF_distinct [simp]: "AF_INET \<noteq> AF_INET6" "AF_INET6 \<noteq> AF_INET"
  "nADDR_IPV4 \<noteq> nADDR_IPV6" "nADDR_IPV6 \<noteq> nADDR_IPV4"
  by (simp_all add: AF_INET_def AF_INET6_def nADDR_IPV4_def nADDR_IPV6_def)

lemma cstr_append_zero: "\<lbrakk>0 \<notin> set ip; 0 < n\<rbrakk> \<Longrightarrow> cstr (ip @ zeros n @ rest) = ip"
  by (cases n) (auto simp: cstr_def zeros_def takeWhile_append2 takeWhile_tail)

lemma na4_fields:
  assumes "length ip < 16" and "0 \<notin> set ip"
  shows "length (na4 ip port) = 52" "na_t (na4 ip port) = nADDR_IPV4" "cstr (na4 ip port) = ip"
    and "of_le16 (drop 16 (na4 ip port)) = port"
  using assms
  by (simp_all add: na4_def ln_make4_def na_t_def zeros_def cstr_append_zero [unfolded zeros_def])

lemma na6_fields:
  assumes "length ip < 46" and "0 \<notin> set ip"
  shows "length (na6 ip port) = 52" "na_t (na6 ip port) = nADDR_IPV6" "cstr (na6 ip port) = ip"
    and "of_le16 (drop 46 (na6 ip port)) = port"
  using assms
  by (simp_all add: na6_def ln_make6_def na_t_def zeros_def cstr_append_zero [unfolded zeros_def])

lemma ln_hton_na4:
  assumes "length ip < 16" and "0 \<notin> set ip"
  shows "ln_hton (na4 ip port) = Inr (na4 ip (htons port))"
    and "ln_ntoh (na4 ip port) = Inr (na4 ip (ntohs port))"
  using na4_fields [OF assms, of port] assms(1) by (simp_all add: ln_hton_def ln_ntoh_def ln_ipv4_def na4_def)

lemma ln_nfd2addr_v4:
  "ss_family (fd_addr fd) = AF_INET \<Longrightarrow>
   ln_nfd2addr lib fd = Inr (na4 (inet_ntop4 (ss_addr4 (fd_addr fd))) (ntohs (ss_port (fd_addr fd))))"
  using length_inet_ntop4 [of "ss_addr4 (fd_addr fd)"]
  by (simp add: ln_nfd2addr_def ln_ipv4_def na4_def)

lemma ln_nfd2addr_v6:
  "\<lbrakk>ss_family (fd_addr fd) = AF_INET6; lib6_ok lib; length (ss_addr6 (fd_addr fd)) = 16\<rbrakk> \<Longrightarrow>
   ln_nfd2addr lib fd = Inr (na6 (ntop6 lib (ss_addr6 (fd_addr fd))) (ntohs (ss_port (fd_addr fd))))"
  by (simp add: ln_nfd2addr_def ln_ipv6_def na6_def lib6_ok_def)

text \<open>What the text of an address can carry: the family, the port and the address proper.\<close>

definition same_endpoint :: "nnet_fd \<Rightarrow> nnet_fd \<Rightarrow> bool" where
  "same_endpoint fd fd' \<longleftrightarrow>
     ss_family (fd_addr fd) = ss_family (fd_addr fd') \<and> ss_port (fd_addr fd) = ss_port (fd_addr fd') \<and>
     (if ss_family (fd_addr fd) = AF_INET then ss_addr4 (fd_addr fd) = ss_addr4 (fd_addr fd')
      else ss_addr6 (fd_addr fd) = ss_addr6 (fd_addr fd'))"

definition fd_wf :: "nnet_fd \<Rightarrow> bool" where
  "fd_wf fd \<longleftrightarrow>
     ss_family (fd_addr fd) = AF_INET \<and> length (ss_addr4 (fd_addr fd)) = 4 \<or>
     ss_family (fd_addr fd) = AF_INET6 \<and> length (ss_addr6 (fd_addr fd)) = 16"

lemma nfd2addr_netfdq:
  assumes "lib6_ok lib" and "fd_wf fd"
  shows "\<exists>a. ln_nfd2addr lib fd = Inr a \<and> length a = 52 \<and> same_endpoint fd (ln_netfdq lib a) \<and>
    rfd (ln_netfdq lib a) = 0"
  using assms(2) unfolding fd_wf_def
proof (elim disjE conjE)
  assume v4: "ss_family (fd_addr fd) = AF_INET" "length (ss_addr4 (fd_addr fd)) = 4"
  have "length (inet_ntop4 (ss_addr4 (fd_addr fd))) < 16"
    using length_inet_ntop4 [of "ss_addr4 (fd_addr fd)"] by simp
  note f = na4_fields [OF this inet_ntop4_nonzero, of "ntohs (ss_port (fd_addr fd))"]
  show ?thesis using v4 f(1)
    by (simp add: ln_nfd2addr_v4 ln_netfdq_def ln_netfd_def f(2-4) inet_pton4_ntop4
        same_endpoint_def)
next
  assume v6: "ss_family (fd_addr fd) = AF_INET6" "length (ss_addr6 (fd_addr fd)) = 16"
  then have "length (ntop6 lib (ss_addr6 (fd_addr fd))) < 46"
    "0 \<notin> set (ntop6 lib (ss_addr6 (fd_addr fd)))"
    using assms(1) by (simp_all add: lib6_ok_def)
  note f = na6_fields [OF this, of "ntohs (ss_port (fd_addr fd))"]
  show ?thesis using v6 f(1) assms(1)
    by (simp add: ln_nfd2addr_v6 ln_netfdq_def ln_netfd_def f(2-4) lib6_ok_def same_endpoint_def)
qed

text \<open>An instance of the IPv6 text conversions: the sixteen bytes as 32 letters.\<close>

fun letters :: "bytes \<Rightarrow> bytes" where
  "letters [] = []"
| "letters (b # bs) = of_nat (65 + unat b div 16) # of_nat (65 + unat b mod 16) # letters bs"

fun of_letters :: "bytes \<Rightarrow> bytes" where
  "of_letters (x # y # r) = of_nat ((unat x - 65) * 16 + (unat y - 65)) # of_letters r"
| "of_letters _ = []"

definition demo_lib6 :: lib6 where
  "demo_lib6 = \<lparr>pton6 = (\<lambda>s. if length s = 32 then Some (of_letters s) else None), ntop6 = letters\<rparr>"

lemma demo_lib6_ok: "lib6_ok demo_lib6"
proof -
  have letter: "unat (of_nat (65 + n) :: u8) = 65 + n" if "n < 16" for n
    using that by (simp add: unat_of_nat del: of_nat_add)
  have byte: "unat b div 16 < 16" for b :: u8
    using unsigned_less [of b, where 'a = nat] by simp
  have nz: "(of_nat (65 + n) :: u8) \<noteq> 0" if "n < 16" for n
    using letter [OF that] by (metis add_is_0 unat_0 zero_neq_numeral)
  have "of_letters (letters a) = a" "length (letters a) = 2 * length a" "0 \<notin> set (letters a)" for a
    by (induction a) (simp_all add: letter byte nz [THEN not_sym] del: of_nat_add)
  then show ?thesis by (simp add: lib6_ok_def demo_lib6_def)
qed

end
