(* ===== verification/Peerdb.thy ===== *)
theory Peerdb
  imports Prot Events Lownet
begin

text \<open>
  \<open>peersyst/src/peerdb.c\<close>: the database of known peers, a protected table from UIDs to
  \<open>peer_info\<close> and an event socket notified at state changes. A pointer into the table, as
  \<open>_prot_table_get_unsafe\<close> returns it, is the index of its pair, and a write through it is
  \<open>peer_modify\<close>. \<open>malloc\<close> results and the clock (milliseconds, an integer) are arguments.

  The lemmas read the database as a map (\<open>peer_lookup\<close>) and show that each operation is the
  obvious one on that map, and that every entry stays filed under its own UID.
\<close>

datatype peer_state = PEER_ST_INITED | PEER_ST_NATPUNCHING | PEER_ST_ACTIVE
  | PEER_ST_HELLO_SENT | PEER_ST_CRYPTO_HANDSHAKING | PEER_ST_PROTECTED

record peer_info =
  pi_server :: naddr_t
  pi_state :: peer_state
  pi_UID :: u32
  pi_last_seen :: u32
  pi_pubkey :: bytes
  pi_nfd :: nnet_fd
  pi_ctx :: nat

record light_peer_info =
  li_UID :: u32
  li_server :: naddr_t
  li_addr :: naddr_t
  li_pubkey :: bytes

record peers_db =
  pdb_data :: "(u32, peer_info) prot_table"
  pdb_statchange :: mt_eventsock

definition CRYPTO_PUBKEY_BYTES :: nat where
  "CRYPTO_PUBKEY_BYTES = 32"

definition peers_db_init :: "int \<times> peers_db" where
  "peers_db_init =
     (let (r, ev) = mt_evsock_new; (_, t) = prot_table_create 4 288 DYN_OWN_BOTH in
      (if r < 0 then -1 else 0, \<lparr>pdb_data = t, pdb_statchange = ev\<rparr>))"

definition on_data ::
  "peers_db \<Rightarrow> (u32, peer_info) prot_table \<Rightarrow> peers_db" where
  "on_data db t = db\<lparr>pdb_data := t\<rparr>"

definition peers_db_end :: "peers_db \<Rightarrow> fault + int \<times> peers_db" where
  "peers_db_end db =
     bind_fault (prot_table_end (pdb_data db)) (\<lambda>(_, t).
     Inr (0, db\<lparr>pdb_data := t, pdb_statchange := mt_evsock_close (pdb_statchange db)\<rparr>))"

text \<open>The result of the insertion is dropped.\<close>

definition peers_db_add ::
  "bool \<Rightarrow> bool \<Rightarrow> bool \<Rightarrow> peers_db \<Rightarrow> peer_info \<Rightarrow> fault + int \<times> peers_db" where
  "peers_db_add mk mv ok db info =
     bind_fault (prot_table_set mk mv ok (pdb_data db) (pi_UID info) info) (\<lambda>(_, t).
     Inr (0, on_data db t))"

definition peers_db_remove :: "peers_db \<Rightarrow> u32 \<Rightarrow> fault + int \<times> peers_db" where
  "peers_db_remove db uid =
     bind_fault (prot_table_remove (pdb_data db) uid) (\<lambda>(r, t). Inr (r, on_data db t))"

definition peers_db_get :: "peers_db \<Rightarrow> u32 \<Rightarrow> fault + (int \<times> peer_info option) \<times> peers_db" where
  "peers_db_get db uid =
     bind_fault (with_mutex (pdb_data db) (\<lambda>t.
       Inr (case dyn_table_get t uid of
              None \<Rightarrow> ((-1, None), t)
            | Some info \<Rightarrow> ((0, Some info), t)))) (\<lambda>(r, t).
     Inr (r, on_data db t))"

definition peers_db_check :: "peers_db \<Rightarrow> u32 \<Rightarrow> fault + bool \<times> peers_db" where
  "peers_db_check db uid =
     bind_fault (prot_table_get (pdb_data db) uid) (\<lambda>(p, t). Inr (p \<noteq> None, on_data db t))"

definition peers_db_scheck :: "peers_db \<Rightarrow> u32 \<Rightarrow> peer_state \<Rightarrow> fault + bool \<times> peers_db" where
  "peers_db_scheck db uid st =
     bind_fault (peers_db_get db uid) (\<lambda>((_, info), db).
     Inr (case info of None \<Rightarrow> False | Some i \<Rightarrow> pi_state i = st, db))"

text \<open>Writing through the pointer that the lookup returned.\<close>

definition peer_modify ::
  "(u32, peer_info) dyn_table \<Rightarrow> u32 \<Rightarrow> (peer_info \<Rightarrow> peer_info) \<Rightarrow> int \<times> (u32, peer_info) dyn_table"
  where
  "peer_modify t uid f =
     (case dyn_table_find_idx t uid of
        None \<Rightarrow> (-1, t)
      | Some i \<Rightarrow>
          (0, t\<lparr>dt_array := (dt_array t)\<lparr>elements :=
                (pairs t)[i := (fst (pairs t ! i), f (snd (pairs t ! i)))]\<rparr>\<rparr>))"

definition peers_db_schange :: "peers_db \<Rightarrow> u32 \<Rightarrow> peer_state \<Rightarrow> fault + int \<times> peers_db" where
  "peers_db_schange db uid new_state =
     bind_fault (with_mutex (pdb_data db) (\<lambda>t.
       Inr (peer_modify t uid (\<lambda>info. info\<lparr>pi_state := new_state\<rparr>)))) (\<lambda>(r, t).
     if r < 0 then Inr (-1, on_data db t)
     else Inr (0, db\<lparr>pdb_data := t, pdb_statchange := mt_evsock_notify (pdb_statchange db)\<rparr>))"

definition peers_db_unfd :: "peers_db \<Rightarrow> u32 \<Rightarrow> nnet_fd \<Rightarrow> fault + int \<times> peers_db" where
  "peers_db_unfd db uid nfd =
     bind_fault (with_mutex (pdb_data db) (\<lambda>t.
       Inr (peer_modify t uid (\<lambda>info. info\<lparr>pi_nfd := nfd\<rparr>)))) (\<lambda>(r, t).
     Inr (r, on_data db t))"

text \<open>The time is an \<open>int64_t\<close>, the field a \<open>uint32_t\<close>.\<close>

definition peers_db_utime :: "int \<Rightarrow> peers_db \<Rightarrow> u32 \<Rightarrow> fault + int \<times> peers_db" where
  "peers_db_utime now db uid =
     bind_fault (with_mutex (pdb_data db) (\<lambda>t.
       Inr (peer_modify t uid (\<lambda>info. info\<lparr>pi_last_seen := word_of_int now\<rparr>)))) (\<lambda>(r, t).
     Inr (r, on_data db t))"

definition peers_db_linfo :: "lib6 \<Rightarrow> peer_info \<Rightarrow> fault + light_peer_info" where
  "peers_db_linfo lib input =
     bind_fault (ln_nfd2addr lib (pi_nfd input)) (\<lambda>a.
     Inr \<lparr>li_UID = pi_UID input, li_server = pi_server input, li_addr = a,
          li_pubkey = pi_pubkey input\<rparr>)"

definition peers_db_reconstruct :: "lib6 \<Rightarrow> int \<Rightarrow> light_peer_info \<Rightarrow> peer_info" where
  "peers_db_reconstruct lib now input =
     \<lparr>pi_server = li_server input, pi_state = PEER_ST_INITED, pi_UID = li_UID input,
      pi_last_seen = word_of_int now, pi_pubkey = li_pubkey input,
      pi_nfd = ln_netfdq lib (li_addr input), pi_ctx = 0\<rparr>"

subsection \<open>Filters and waiting\<close>

text \<open>
  The filters count the matches, allocate room for so many, and copy. The copy loop fails
  when it runs past the room.
\<close>

fun count_state :: "(u32 \<times> peer_info) list \<Rightarrow> peer_state \<Rightarrow> nat \<Rightarrow> nat" where
  "count_state [] st count = count"
| "count_state (p # ps) st count =
     count_state ps st (if pi_state (snd p) = st then count + 1 else count)"

fun copy_state ::
  "nat \<Rightarrow> (u32 \<times> peer_info) list \<Rightarrow> peer_state \<Rightarrow> peer_info list \<Rightarrow> fault + peer_info list" where
  "copy_state room [] st infos = Inr infos"
| "copy_state room (p # ps) st infos =
     (if pi_state (snd p) = st then
        (if length infos < room then copy_state room ps st (infos @ [snd p]) else Inl OutOfBounds)
      else copy_state room ps st infos)"

definition peers_db_fstate ::
  "bool \<Rightarrow> peers_db \<Rightarrow> peer_state \<Rightarrow> fault + (int \<times> peer_info list) \<times> peers_db" where
  "peers_db_fstate ok db st =
     bind_fault (with_mutex (pdb_data db) (\<lambda>t.
       (let count = count_state (pairs t) st 0 in
        if count = 0 then Inr ((0, []), t)
        else if \<not> ok then Inr ((-1, []), t)
        else bind_fault (copy_state count (pairs t) st []) (\<lambda>infos. Inr ((0, infos), t)))))
     (\<lambda>(r, t). Inr (r, on_data db t))"

fun count_addr ::
  "lib6 \<Rightarrow> (u32 \<times> peer_info) list \<Rightarrow> naddr_t \<Rightarrow> nat \<Rightarrow> fault + nat" where
  "count_addr lib [] a count = Inr count"
| "count_addr lib (p # ps) a count =
     bind_fault (ln_nfd2addr lib (pi_nfd (snd p))) (\<lambda>n.
     count_addr lib ps a (if ln_addrcmp a n then count + 1 else count))"

fun copy_addr ::
  "lib6 \<Rightarrow> nat \<Rightarrow> (u32 \<times> peer_info) list \<Rightarrow> naddr_t \<Rightarrow> peer_info list \<Rightarrow> fault + peer_info list" where
  "copy_addr lib room [] a infos = Inr infos"
| "copy_addr lib room (p # ps) a infos =
     bind_fault (ln_nfd2addr lib (pi_nfd (snd p))) (\<lambda>n.
     if ln_addrcmp a n then
       (if length infos < room then copy_addr lib room ps a (infos @ [snd p]) else Inl OutOfBounds)
     else copy_addr lib room ps a infos)"

definition peers_db_faddr ::
  "lib6 \<Rightarrow> bool \<Rightarrow> peers_db \<Rightarrow> naddr_t \<Rightarrow> fault + (int \<times> peer_info list) \<times> peers_db" where
  "peers_db_faddr lib ok db a =
     bind_fault (with_mutex (pdb_data db) (\<lambda>t.
       bind_fault (count_addr lib (pairs t) a 0) (\<lambda>count.
        if count = 0 then Inr ((0, []), t)
        else if \<not> ok then Inr ((-1, []), t)
        else bind_fault (copy_addr lib count (pairs t) a []) (\<lambda>infos. Inr ((0, infos), t)))))
     (\<lambda>(r, t). Inr (r, on_data db t))"

fun find_state :: "(u32 \<times> peer_info) list \<Rightarrow> u32 \<Rightarrow> peer_state \<Rightarrow> peer_info option" where
  "find_state [] uid st = None"
| "find_state (p # ps) uid st =
     (if fst p = uid \<and> pi_state (snd p) = st then Some (snd p) else find_state ps uid st)"

text \<open>
  One round of the waiting loop, entered with what the event wait returned, and the loop over
  the rounds that happen, each with the database as the other threads left it. \<open>None\<close>: it
  still waits after them.
\<close>

definition wait_round :: "int \<Rightarrow> peers_db \<Rightarrow> u32 \<Rightarrow> peer_state \<Rightarrow> fault + (int \<times> peer_info option) option"
  where
  "wait_round r db uid st =
     (if r = -1 then Inr (Some (-1, None))
      else bind_fault (with_mutex (pdb_data db) (\<lambda>t. Inr (find_state (pairs t) uid st, t)))
        (\<lambda>(found, _). Inr (map_option (\<lambda>info. (0, Some info)) found)))"

fun peers_db_wait ::
  "(int \<times> peers_db) list \<Rightarrow> u32 \<Rightarrow> peer_state \<Rightarrow> fault + (int \<times> peer_info option) option" where
  "peers_db_wait [] uid st = Inr None"
| "peers_db_wait ((r, db) # rounds) uid st =
     bind_fault (wait_round r db uid st) (\<lambda>res.
     case res of None \<Rightarrow> peers_db_wait rounds uid st | Some x \<Rightarrow> Inr (Some x))"

definition peers_db_snapshot :: "bool \<Rightarrow> peers_db \<Rightarrow> fault + peer_info list \<times> peers_db" where
  "peers_db_snapshot ok db =
     bind_fault (with_mutex (pdb_data db) (\<lambda>t.
       if ok \<or> pairs t = [] then Inr (map snd (pairs t), t) else Inl NullDeref))
     (\<lambda>(r, t). Inr (r, on_data db t))"

subsection \<open>The database as a map\<close>

definition peer_lookup :: "peers_db \<Rightarrow> u32 \<Rightarrow> peer_info option" where
  "peer_lookup db = dyn_table_get (obj (pdb_data db))"

definition db_pairs :: "peers_db \<Rightarrow> (u32 \<times> peer_info) list" where
  "db_pairs db = pairs (obj (pdb_data db))"

text \<open>The mutex is free, keys are unique, and every entry is filed under its own UID.\<close>

definition db_wf :: "peers_db \<Rightarrow> bool" where
  "db_wf db \<longleftrightarrow>
     \<not> mtx (pdb_data db) \<and> dt_wf (obj (pdb_data db)) \<and>
     (\<forall>uid info. peer_lookup db uid = Some info \<longrightarrow> pi_UID info = uid)"

lemma peer_modify_get:
  "dyn_table_get (snd (peer_modify t uid f)) uid' =
     (if uid' = uid then map_option f (dyn_table_get t uid) else dyn_table_get t uid')"
  "fst (peer_modify t uid f) = (if dyn_table_get t uid = None then -1 else 0)"
  "map fst (pairs (snd (peer_modify t uid f))) = map fst (pairs t)"
proof -
  have "dyn_table_get (snd (peer_modify t uid f)) uid' =
      (if uid' = uid then map_option f (dyn_table_get t uid) else dyn_table_get t uid') \<and>
    fst (peer_modify t uid f) = (if dyn_table_get t uid = None then -1 else 0) \<and>
    map fst (pairs (snd (peer_modify t uid f))) = map fst (pairs t)"
  proof (cases "dyn_table_find_idx t uid")
    case None
    then show ?thesis by (simp add: peer_modify_def dyn_table_get_def)
  next
    case (Some i)
    obtain v where i: "i < len (dt_array t)" "pairs t ! i = (uid, v)"
      "uid \<notin> fst ` set (take i (pairs t))"
      "pairs t = take i (pairs t) @ (uid, v) # drop (Suc i) (pairs t)"
      using Some by (rule find_idx_Some)
    have p: "pairs (snd (peer_modify t uid f)) = take i (pairs t) @ (uid, f v) # drop (Suc i) (pairs t)"
      using Some i(1,2) by (simp add: peer_modify_def upd_conv_take_nth_drop)
    have old: "map_of (pairs t) k =
        (if k = uid then Some v else map_of (take i (pairs t) @ drop (Suc i) (pairs t)) k)" for k
      by (subst i(4)) (rule map_of_middle [OF i(3)])
    have "map fst (take i (pairs t) @ (uid, f v) # drop (Suc i) (pairs t)) =
        map fst (take i (pairs t) @ (uid, v) # drop (Suc i) (pairs t))" by simp
    then have "map fst (pairs (snd (peer_modify t uid f))) = map fst (pairs t)"
      using p i(4) by metis
    moreover have "map_of (pairs (snd (peer_modify t uid f))) k =
        (if k = uid then Some (f v) else map_of (take i (pairs t) @ drop (Suc i) (pairs t)) k)" for k
      unfolding p by (rule map_of_middle [OF i(3)])
    ultimately show ?thesis
      unfolding dyn_table_get_map_of by (simp add: old [of uid] old [of uid'] del: map_of_append)
        (simp add: peer_modify_def Some)
  qed
  then show "dyn_table_get (snd (peer_modify t uid f)) uid' =
      (if uid' = uid then map_option f (dyn_table_get t uid) else dyn_table_get t uid')"
    "fst (peer_modify t uid f) = (if dyn_table_get t uid = None then -1 else 0)"
    "map fst (pairs (snd (peer_modify t uid f))) = map fst (pairs t)" by blast+
qed

lemma dt_wf_modify: "dt_wf t \<Longrightarrow> dt_wf (snd (peer_modify t uid f))"
proof -
  have "da_wf (dt_array t) \<Longrightarrow> da_wf (dt_array (snd (peer_modify t uid f)))"
    by (simp add: peer_modify_def da_wf_def split: option.splits)
  then show "dt_wf t \<Longrightarrow> dt_wf (snd (peer_modify t uid f))"
    by (simp add: dt_wf_def peer_modify_get(3))
qed

lemma db_wf_init: "db_wf (snd peers_db_init)" "peer_lookup (snd peers_db_init) = Map.empty"
proof -
  have "dyn_table_get (dyn_table_create k v fl) = Map.empty" for k v fl
    by (rule ext) (simp add: dyn_table_get_map_of)
  then show "peer_lookup (snd peers_db_init) = Map.empty"
    by (simp add: peers_db_init_def mt_evsock_new_def prot_table_create_def peer_lookup_def)
  then show "db_wf (snd peers_db_init)"
    by (simp add: db_wf_def)
      (simp add: peers_db_init_def mt_evsock_new_def prot_table_create_def)
qed

text \<open>The frame shared by the operations: the database with its table replaced.\<close>

definition db_with :: "peers_db \<Rightarrow> (u32, peer_info) dyn_table \<Rightarrow> peers_db" where
  "db_with db t = db\<lparr>pdb_data := \<lparr>mtx = False, obj = t\<rparr>\<rparr>"

lemma db_with_sel [simp]:
  "peer_lookup (db_with db t) = dyn_table_get t" "pdb_statchange (db_with db t) = pdb_statchange db"
  "db_pairs (db_with db t) = pairs t"
  by (simp_all add: db_with_def peer_lookup_def db_pairs_def)

lemma db_with_same: "db_wf db \<Longrightarrow> db_with db (obj (pdb_data db)) = db"
  by (cases db; cases "pdb_data db") (auto simp: db_with_def db_wf_def)

lemma db_wf_with:
  "\<lbrakk>dt_wf t; \<And>uid info. dyn_table_get t uid = Some info \<Longrightarrow> pi_UID info = uid\<rbrakk> \<Longrightarrow> db_wf (db_with db t)"
  by (simp add: db_wf_def) (simp add: db_with_def)

lemma db_wfD: "db_wf db \<Longrightarrow> \<not> mtx (pdb_data db)" "db_wf db \<Longrightarrow> dt_wf (obj (pdb_data db))"
  "db_wf db \<Longrightarrow> peer_lookup db uid = Some info \<Longrightarrow> pi_UID info = uid"
  by (simp_all add: db_wf_def)

lemma peers_db_add_ok:
  assumes "db_wf db"
  obtains db' where "peers_db_add True True True db info = Inr (0, db')" "db_wf db'"
    "peer_lookup db' = (peer_lookup db)(pi_UID info \<mapsto> info)" "pdb_statchange db' = pdb_statchange db"
proof
  let ?t = "table_set (obj (pdb_data db)) (pi_UID info) info"
  note wf = db_wfD [OF assms]
  show "peers_db_add True True True db info = Inr (0, db_with db ?t)"
    using wf(1) by (simp add: peers_db_add_def prot_table_set_def with_mutex_free on_data_def
        db_with_def split_beta)
  show l: "peer_lookup (db_with db ?t) = (peer_lookup db)(pi_UID info \<mapsto> info)"
    by (rule ext, simp, simp add: peer_lookup_def get_set)
  show "db_wf (db_with db ?t)"
    by (rule db_wf_with) (use wf in \<open>auto simp: dt_wf_set get_set peer_lookup_def split: if_splits\<close>)
qed simp

lemma peers_db_remove_ok:
  assumes "db_wf db"
  obtains r db' where "peers_db_remove db uid = Inr (r, db')" "db_wf db'"
    "peer_lookup db' = (peer_lookup db)(uid := None)"
    "r = (if peer_lookup db uid = None then -1 else 0)"
proof
  let ?t = "table_remove (obj (pdb_data db)) uid"
  note wf = db_wfD [OF assms]
  show "peers_db_remove db uid =
      Inr (if peer_lookup db uid = None then -1 else 0, db_with db ?t)"
    using wf(1) by (simp add: peers_db_remove_def prot_table_remove_def with_mutex_free on_data_def
        db_with_def split_beta dyn_table_remove_ret peer_lookup_def)
  show l: "peer_lookup (db_with db ?t) = (peer_lookup db)(uid := None)"
    by (rule ext, simp, simp add: peer_lookup_def get_remove wf(2))
  show "db_wf (db_with db ?t)"
    by (rule db_wf_with)
      (use wf in \<open>auto simp: dt_wf_remove get_remove peer_lookup_def split: if_splits\<close>)
qed simp

lemma peers_db_get_ok:
  "db_wf db \<Longrightarrow> peers_db_get db uid =
     Inr (case peer_lookup db uid of None \<Rightarrow> (-1, None) | Some i \<Rightarrow> (0, Some i), db)"
  by (frule db_with_same)
    (auto simp: peers_db_get_def with_mutex_free db_wfD(1) on_data_def db_with_def peer_lookup_def
      split: option.splits)

lemma peers_db_check_ok:
  "db_wf db \<Longrightarrow> peers_db_check db uid = Inr (peer_lookup db uid \<noteq> None, db)"
  by (frule db_with_same)
    (simp add: peers_db_check_def prot_table_get_def with_mutex_free db_wfD(1) on_data_def
      db_with_def peer_lookup_def)

lemma peers_db_scheck_ok:
  "db_wf db \<Longrightarrow> peers_db_scheck db uid st =
     Inr (\<exists>i. peer_lookup db uid = Some i \<and> pi_state i = st, db)"
  by (simp add: peers_db_scheck_def peers_db_get_ok split: option.splits)

lemma db_wf_modify:
  assumes "db_wf db" and "\<And>i. pi_UID (f i) = pi_UID i"
  shows "db_wf (db_with db (snd (peer_modify (obj (pdb_data db)) uid f)))"
  by (rule db_wf_with) (use assms db_wfD [OF assms(1)] in
    \<open>auto simp: dt_wf_modify peer_modify_get(1) peer_lookup_def split: if_splits\<close>)

lemma peers_db_schange_ok:
  assumes "db_wf db"
  obtains r db' where "peers_db_schange db uid st = Inr (r, db')" "db_wf db'"
    "peer_lookup db' = (peer_lookup db)(uid := map_option (\<lambda>i. i\<lparr>pi_state := st\<rparr>) (peer_lookup db uid))"
    "r = (if peer_lookup db uid = None then -1 else 0)"
    "pdb_statchange db' =
       (if r = 0 then mt_evsock_notify (pdb_statchange db) else pdb_statchange db)"
proof
  let ?f = "\<lambda>i. i\<lparr>pi_state := st\<rparr>"
  let ?t = "snd (peer_modify (obj (pdb_data db)) uid ?f)"
  let ?ev = "if peer_lookup db uid = None then pdb_statchange db
             else mt_evsock_notify (pdb_statchange db)"
  note wf = db_wfD [OF assms]
  show "peers_db_schange db uid st =
      Inr (if peer_lookup db uid = None then -1 else 0, (db_with db ?t)\<lparr>pdb_statchange := ?ev\<rparr>)"
    using wf(1) by (simp add: peers_db_schange_def with_mutex_free on_data_def
        db_with_def split_beta peer_modify_get(2) peer_lookup_def)
  show "peer_lookup ((db_with db ?t)\<lparr>pdb_statchange := ?ev\<rparr>) =
      (peer_lookup db)(uid := map_option ?f (peer_lookup db uid))"
    by (rule ext) (simp add: peer_lookup_def db_with_def peer_modify_get(1))
  show "db_wf ((db_with db ?t)\<lparr>pdb_statchange := ?ev\<rparr>)"
    using db_wf_modify [OF assms, of ?f uid] by (simp add: db_wf_def peer_lookup_def)
qed simp_all

lemma count_state_eq: "count_state ps st c = c + length (filter (\<lambda>p. pi_state (snd p) = st) ps)"
  by (induction ps arbitrary: c) auto

lemma copy_state_ok:
  "length infos + length (filter (\<lambda>p. pi_state (snd p) = st) ps) \<le> room \<Longrightarrow>
   copy_state room ps st infos = Inr (infos @ map snd (filter (\<lambda>p. pi_state (snd p) = st) ps))"
  by (induction ps arbitrary: infos) auto

lemma peers_db_fstate_ok:
  "db_wf db \<Longrightarrow> peers_db_fstate True db st =
     Inr ((0, map snd (filter (\<lambda>p. pi_state (snd p) = st) (db_pairs db))), db)"
  by (frule db_with_same)
    (simp add: peers_db_fstate_def with_mutex_free db_wfD(1) on_data_def db_with_def
      count_state_eq copy_state_ok db_pairs_def)

lemma db_pairs_lookup:
  "db_wf db \<Longrightarrow> (uid, info) \<in> set (db_pairs db) \<longleftrightarrow> peer_lookup db uid = Some info"
  by (auto simp: db_wf_def dt_wf_def db_pairs_def peer_lookup_def dyn_table_get_map_of)

lemma find_state_Some:
  "find_state ps uid st = Some i \<Longrightarrow> (uid, i) \<in> set ps \<and> pi_state i = st"
  by (induction ps) (auto split: if_splits)

lemma find_state_None:
  "find_state ps uid st = None \<longleftrightarrow> (\<forall>i. (uid, i) \<in> set ps \<longrightarrow> pi_state i \<noteq> st)"
  by (induction ps) auto

lemma wait_round_ok:
  assumes "db_wf db" and "r \<noteq> -1"
  shows "wait_round r db uid st =
    Inr (case peer_lookup db uid of
           None \<Rightarrow> None
         | Some i \<Rightarrow> if pi_state i = st then Some (0, Some i) else None)"
proof -
  have "find_state (db_pairs db) uid st =
      (case peer_lookup db uid of None \<Rightarrow> None | Some i \<Rightarrow> if pi_state i = st then Some i else None)"
  proof (cases "find_state (db_pairs db) uid st")
    case None
    then show ?thesis
      by (auto simp: find_state_None db_pairs_lookup [OF assms(1)] split: option.splits)
  next
    case (Some i)
    then show ?thesis using find_state_Some [OF Some]
      by (simp add: db_pairs_lookup [OF assms(1)])
  qed
  then show ?thesis
    using assms(2) db_wfD(1) [OF assms(1)]
    by (simp add: wait_round_def with_mutex_free db_pairs_def split: option.splits)
qed

lemma fstate_uids:
  assumes "db_wf db"
  shows "map pi_UID (map snd (filter P (db_pairs db))) = map fst (filter P (db_pairs db))"
  using db_wfD(3) [OF assms] db_pairs_lookup [OF assms] by auto

subsection \<open>A concrete database\<close>

definition demo_fd :: nnet_fd where
  "demo_fd = \<lparr>rfd = 5, fd_addr = zero_sockaddr\<lparr>ss_family := AF_INET, ss_port := htons 9000,
     ss_addr4 := [10, 0, 0, 7]\<rparr>, fd_addr_len = 16\<rparr>"

definition demo_peer :: peer_info where
  "demo_peer = \<lparr>pi_server = zeros 52, pi_state = PEER_ST_INITED, pi_UID = 77, pi_last_seen = 0,
     pi_pubkey = zeros 32, pi_nfd = demo_fd, pi_ctx = 0\<rparr>"

definition demo_db :: peers_db where
  "demo_db = (case peers_db_add True True True (snd peers_db_init) demo_peer of
     Inr (_, db) \<Rightarrow> db | Inl _ \<Rightarrow> snd peers_db_init)"

lemma demo_peer_sel [simp]:
  "pi_UID demo_peer = 77" "pi_state demo_peer = PEER_ST_INITED" "pi_nfd demo_peer = demo_fd"
  by (simp_all add: demo_peer_def)

lemma demo_db_wf: "db_wf demo_db" "peer_lookup demo_db = [77 \<mapsto> demo_peer]"
proof -
  obtain db where "peers_db_add True True True (snd peers_db_init) demo_peer = Inr (0, db)"
    "db_wf db" "peer_lookup db = (peer_lookup (snd peers_db_init))(pi_UID demo_peer \<mapsto> demo_peer)"
    using peers_db_add_ok [OF db_wf_init(1)] by metis
  then show "db_wf demo_db" "peer_lookup demo_db = [77 \<mapsto> demo_peer]"
    by (simp_all add: demo_db_def db_wf_init(2))
qed

subsection \<open>Properties\<close>

text \<open>
  A state change of a known peer changes the state of this peer only, keeps the
  database well formed and wakes the waiting threads; for an unknown peer nothing changes.
\<close>

theorem peers_db_schange_effect:
  assumes "db_wf db" and "ev_open (pdb_statchange db)"
  shows "\<exists>r db'. peers_db_schange db uid st = Inr (r, db') \<and> db_wf db' \<and>
    peer_lookup db' =
      (peer_lookup db)(uid := map_option (\<lambda>i. i\<lparr>pi_state := st\<rparr>) (peer_lookup db uid)) \<and>
    (peer_lookup db uid = None \<longrightarrow> r = -1 \<and> pdb_statchange db' = pdb_statchange db) \<and>
    (peer_lookup db uid \<noteq> None \<longrightarrow> r = 0 \<and> fst (mt_evsock_wait (pdb_statchange db')) = 1)"
proof -
  obtain r db' where "peers_db_schange db uid st = Inr (r, db')" "db_wf db'"
    "peer_lookup db' = (peer_lookup db)(uid := map_option (\<lambda>i. i\<lparr>pi_state := st\<rparr>) (peer_lookup db uid))"
    "r = (if peer_lookup db uid = None then -1 else 0)"
    "pdb_statchange db' = (if r = 0 then mt_evsock_notify (pdb_statchange db) else pdb_statchange db)"
    by (rule peers_db_schange_ok [OF assms(1)])
  with assms(2) show ?thesis
    by (intro exI [of _ r] exI [of _ db'])
      (simp add: mt_evsock_notify_def mt_evsock_wait_def)
qed

theorem peers_db_schange_effect_witness:
  "\<exists>db'. peers_db_schange demo_db 77 PEER_ST_ACTIVE = Inr (0, db') \<and>
     peer_lookup db' 77 = Some (demo_peer\<lparr>pi_state := PEER_ST_ACTIVE\<rparr>)"
proof -
  have "ev_open (pdb_statchange demo_db)"
    by (simp add: demo_db_def peers_db_init_def mt_evsock_new_def prot_table_create_def
        peers_db_add_def prot_table_set_def with_mutex_free on_data_def split_beta)
  then show ?thesis
    using peers_db_schange_effect [OF demo_db_wf(1), of 77 PEER_ST_ACTIVE] demo_db_wf(2) by auto
qed

text \<open>
  Filtering by state returns each peer in that state exactly once and no other peer;
  the copy never runs past the block that was allocated for the count.
\<close>

theorem peers_db_fstate_exact:
  assumes "db_wf db"
  shows "\<exists>infos. peers_db_fstate True db st = Inr ((0, infos), db) \<and> distinct (map pi_UID infos) \<and>
    (\<forall>i. i \<in> set infos \<longleftrightarrow> peer_lookup db (pi_UID i) = Some i \<and> pi_state i = st)"
proof (intro exI conjI)
  let ?P = "\<lambda>p. pi_state (snd p) = st"
  let ?infos = "map snd (filter ?P (db_pairs db))"
  show "peers_db_fstate True db st = Inr ((0, ?infos), db)" by (rule peers_db_fstate_ok [OF assms])
  have "distinct (map fst (db_pairs db))" using assms by (simp add: db_wf_def dt_wf_def db_pairs_def)
  then have "distinct (map fst (filter ?P (db_pairs db)))" by (rule distinct_map_filter)
  then show "distinct (map pi_UID ?infos)" by (simp only: fstate_uids [OF assms])
  show "\<forall>i. i \<in> set ?infos \<longleftrightarrow> peer_lookup db (pi_UID i) = Some i \<and> pi_state i = st"
    using db_wfD(3) [OF assms] db_pairs_lookup [OF assms] by force
qed

theorem peers_db_fstate_exact_witness:
  "\<exists>infos. peers_db_fstate True demo_db PEER_ST_INITED = Inr ((0, infos), demo_db) \<and> demo_peer \<in> set infos"
  using peers_db_fstate_exact [OF demo_db_wf(1), of PEER_ST_INITED]
  by (auto simp: demo_db_wf(2))

text \<open>
  What one peer sends about another, \<open>light_peer_info\<close>, and the entry rebuilt from it
  agree with the original entry in everything a connection needs: UID, state server, public
  key, and the address as family, port and IP.
\<close>

theorem peers_db_linfo_reconstruct:
  assumes "lib6_ok lib" and "fd_wf (pi_nfd p)"
  shows "\<exists>l. peers_db_linfo lib p = Inr l \<and>
    (let q = peers_db_reconstruct lib now l in
     pi_UID q = pi_UID p \<and> pi_server q = pi_server p \<and> pi_pubkey q = pi_pubkey p \<and>
     same_endpoint (pi_nfd p) (pi_nfd q) \<and> pi_state q = PEER_ST_INITED)"
proof -
  obtain a where "ln_nfd2addr lib (pi_nfd p) = Inr a" "same_endpoint (pi_nfd p) (ln_netfdq lib a)"
    using nfd2addr_netfdq [OF assms] by (elim exE conjE)
  then show ?thesis by (simp add: peers_db_linfo_def peers_db_reconstruct_def)
qed

theorem peers_db_linfo_reconstruct_witness:
  "\<exists>l. peers_db_linfo demo_lib6 demo_peer = Inr l \<and>
     pi_UID (peers_db_reconstruct demo_lib6 0 l) = 77 \<and>
     same_endpoint demo_fd (pi_nfd (peers_db_reconstruct demo_lib6 0 l))"
proof -
  have "fd_wf (pi_nfd demo_peer)" by (simp add: fd_wf_def demo_fd_def)
  then show ?thesis
    using peers_db_linfo_reconstruct [OF demo_lib6_ok, of demo_peer 0] by (auto simp: Let_def)
qed

text \<open>
  Waiting for a peer's state ends at the first wake-up at which the database holds the
  peer in that state, with this entry, and goes on through all the wake-ups before.
\<close>

theorem peers_db_wait_first:
  assumes "\<forall>(r, db) \<in> set (before @ [(r0, db0)]). db_wf db \<and> r \<noteq> -1"
    and "\<forall>(r, db) \<in> set before. \<forall>i. peer_lookup db uid = Some i \<longrightarrow> pi_state i \<noteq> st"
    and "peer_lookup db0 uid = Some info" and "pi_state info = st"
  shows "peers_db_wait before uid st = Inr None \<and>
    peers_db_wait (before @ (r0, db0) # later) uid st = Inr (Some (0, Some info))"
  using assms
proof (induction before)
  case Nil
  then show ?case by (simp add: wait_round_ok)
next
  case (Cons x before)
  obtain r db where x: "x = (r, db)" by (cases x)
  have "wait_round r db uid st = Inr None"
    using Cons.prems(1,2) by (auto simp: x wait_round_ok split: option.splits)
  with Cons x show ?case by simp
qed

theorem peers_db_wait_first_witness:
  "peers_db_wait [(1, snd peers_db_init), (1, demo_db)] 77 PEER_ST_INITED =
     Inr (Some (0, Some demo_peer))"
  using peers_db_wait_first [of "[(1, snd peers_db_init)]" 1 demo_db 77 PEER_ST_INITED demo_peer "[]"]
  by (simp add: db_wf_init demo_db_wf)

text \<open>
  The header promises that \<open>UINT32_MAX\<close> waits for any update; the code treats it as an
  ordinary UID, so that wait never ends while no peer has this UID, whatever changes.
\<close>

theorem peers_db_wait_any_stuck:
  assumes "\<forall>(r, db) \<in> set rounds. db_wf db \<and> r \<noteq> -1 \<and> peer_lookup db UINT32_MAX = None"
  shows "peers_db_wait rounds UINT32_MAX st = Inr None"
  using assms by (induction rounds) (auto simp: wait_round_ok)

theorem peers_db_wait_any_stuck_witness:
  "peers_db_wait [(1, demo_db), (1, demo_db)] UINT32_MAX PEER_ST_INITED = Inr None"
  using peers_db_wait_any_stuck [of "[(1, demo_db), (1, demo_db)]" PEER_ST_INITED]
  by (simp add: demo_db_wf UINT32_MAX_def)

end
