(* ===== verification/Gossip.thy ===== *)
theory Gossip
  imports Prot Packproto Peerdb "HOL-Library.Multiset"
begin

text \<open>
  \<open>gossip/src/system.c\<close>: the set of gossiped entries, one for each known UID, behind a
  protected array. Entries travel as their memory image of 152 bytes. The clock (seconds)
  and the values of \<open>rand\<close> are arguments, as are the results of \<open>realloc\<close> and \<open>malloc\<close>.

  The lemmas read the array as a map from UIDs (\<open>gossip_lookup\<close>): an insertion is a merge by
  version number, so that the result of many insertions does not depend on their order.
\<close>

record gossip_metadata =
  md_pubkey :: bytes
  md_server :: naddr_t

record gossip_entry =
  ge_uid :: u32
  ge_addr :: naddr_t
  ge_version :: u32
  ge_timestamp :: u64
  ge_md :: gossip_metadata

record gossip_system =
  gossips :: "gossip_entry prot_array"
  last_gossiped :: u32
  gs_self_uid :: u32

definition GOSSIP_DEAD_DT :: u64 where
  "GOSSIP_DEAD_DT = 60 * 60"

definition GOSSIP_ENTRY_SIZE :: nat where
  "GOSSIP_ENTRY_SIZE = 152"

text \<open>The memory image of the packed struct.\<close>

definition entry_bytes :: "gossip_entry \<Rightarrow> bytes" where
  "entry_bytes e =
     le32 (ge_uid e) @ ge_addr e @ le32 (ge_version e) @
     le64 (ge_timestamp e) @
     md_pubkey (ge_md e) @ md_server (ge_md e)"

definition entry_of_bytes :: "bytes \<Rightarrow> gossip_entry" where
  "entry_of_bytes bs =
     \<lparr>ge_uid = of_le32 bs, ge_addr = take 52 (drop 4 bs), ge_version = of_le32 (drop 56 bs),
      ge_timestamp = of_le64 (drop 60 bs),
      ge_md = \<lparr>md_pubkey = take 32 (drop 68 bs), md_server = take 52 (drop 100 bs)\<rparr>\<rparr>"

definition gossip_system_init :: "u32 \<Rightarrow> int \<times> gossip_system" where
  "gossip_system_init self_uid =
     (0, \<lparr>gossips = snd (prot_array_create GOSSIP_ENTRY_SIZE), last_gossiped = 0,
          gs_self_uid = self_uid\<rparr>)"

definition gossip_system_end :: "gossip_system \<Rightarrow> int \<times> gossip_system" where
  "gossip_system_end g = (0, g\<lparr>gossips := prot_array_end (gossips g)\<rparr>)"

definition on_gossips ::
  "gossip_system \<Rightarrow> (gossip_entry dyn_array \<Rightarrow> fault + 'r \<times> gossip_entry dyn_array) \<Rightarrow>
   fault + 'r \<times> gossip_system" where
  "on_gossips g f =
     bind_fault (with_mutex (gossips g) f) (\<lambda>(r, a). Inr (r, g\<lparr>gossips := a\<rparr>))"

text \<open>The difference of the \<open>int64_t\<close> clock and the \<open>uint64_t\<close> time stamp is unsigned.\<close>

definition gossip_dead :: "int \<Rightarrow> gossip_entry \<Rightarrow> bool" where
  "gossip_dead now e \<longleftrightarrow> \<not> word_of_int now - ge_timestamp e < GOSSIP_DEAD_DT"

function cleanup_loop :: "int \<Rightarrow> gossip_entry dyn_array \<Rightarrow> nat \<Rightarrow> gossip_entry dyn_array" where
  "cleanup_loop now a i =
     (if i < len a then
        (if \<not> gossip_dead now (elements a ! i) then cleanup_loop now a (Suc i)
         else cleanup_loop now (snd (dyn_array_remove a i)) i)
      else a)"
  by pat_completeness auto
termination
  by (relation "measure (\<lambda>(now, a, i). len a - i)") (auto simp: dyn_array_remove_def)

declare cleanup_loop.simps [simp del]

definition gossip_cleanup :: "int \<Rightarrow> gossip_system \<Rightarrow> fault + int \<times> gossip_system" where
  "gossip_cleanup now g = on_gossips g (\<lambda>a. Inr (0, cleanup_loop now a 0))"

fun gossip_find :: "gossip_entry list \<Rightarrow> u32 \<Rightarrow> nat \<Rightarrow> (nat \<times> gossip_entry) option" where
  "gossip_find [] uid i = None"
| "gossip_find (e # es) uid i = (if ge_uid e = uid then Some (i, e) else gossip_find es uid (Suc i))"

definition gossip_new_entry :: "bool \<Rightarrow> gossip_system \<Rightarrow> gossip_entry \<Rightarrow> fault + int \<times> gossip_system"
  where
  "gossip_new_entry ok g entry =
     (if ge_uid entry = gs_self_uid g then Inr (0, g)
      else on_gossips g (\<lambda>a.
        case gossip_find (elements a) (ge_uid entry) 0 of
          Some (inx, existing) \<Rightarrow>
            if ge_version entry \<le> ge_version existing then Inr (0, a)
            else Inr (0, snd (dyn_array_push ok (snd (dyn_array_remove a inx)) entry))
        | None \<Rightarrow> Inr (0, snd (dyn_array_push ok a entry))))"

text \<open>The start of a Fisher-Yates shuffle: the first \<open>n\<close> positions are drawn.\<close>

fun shuffle_loop :: "(nat \<Rightarrow> nat) \<Rightarrow> nat \<Rightarrow> nat \<Rightarrow> nat list \<Rightarrow> nat list" where
  "shuffle_loop rnd 0 i indices = indices"
| "shuffle_loop rnd (Suc n) i indices =
     (let j = i + rnd i mod (length indices - i) in
      shuffle_loop rnd n (Suc i) (indices[i := indices ! j, j := indices ! i]))"

text \<open>Return code, entries and their number; \<open>ok\<close> is the result of both allocations.\<close>

definition gossip_random_entries ::
  "bool \<Rightarrow> (nat \<Rightarrow> nat) \<Rightarrow> gossip_system \<Rightarrow> nat \<Rightarrow>
   fault + (int \<times> gossip_entry list \<times> nat) \<times> gossip_system" where
  "gossip_random_entries ok rnd g n =
     (if n = 0 then Inr ((-1, [], n), g)
      else on_gossips g (\<lambda>a.
        let l = len a in
        if l = 0 then Inr ((1, [], n), a)
        else if \<not> ok then Inl NullDeref
        else
          (let m = (if l < n then l else n);
               indices = shuffle_loop rnd m 0 [0..<l] in
           Inr ((0, map (\<lambda>i. elements a ! i) (take m indices), m), a))))"

text \<open>
  One entry of a packet is read at \<open>offset\<close> after the count, and only then is the offset
  checked. Reading past the payload is the fault.
\<close>

fun from_packet_loop ::
  "bool \<Rightarrow> nat \<Rightarrow> bytes \<Rightarrow> nat \<Rightarrow> nat \<Rightarrow> gossip_system \<Rightarrow> fault + int \<times> gossip_system" where
  "from_packet_loop ok 0 payload data_sz offset g = Inr (0, g)"
| "from_packet_loop ok (Suc n) payload data_sz offset g =
     (if length payload < 4 + offset + GOSSIP_ENTRY_SIZE then Inl OutOfBounds
      else let header = entry_of_bytes (take GOSSIP_ENTRY_SIZE (drop (4 + offset) payload)) in
        if data_sz < offset + GOSSIP_ENTRY_SIZE then Inr (-1, g)
        else bind_fault (gossip_new_entry ok g header) (\<lambda>(_, g).
          from_packet_loop ok n payload data_sz (offset + GOSSIP_ENTRY_SIZE) g))"

definition gossip_from_packet ::
  "bool \<Rightarrow> gossip_system \<Rightarrow> protopack \<Rightarrow> fault + int \<times> gossip_system" where
  "gossip_from_packet ok g pack_in =
     (if unat (d_size pack_in) < GOSSIP_ENTRY_SIZE + 4 then Inr (-1, g)
      else from_packet_loop ok (unat (ntohl (of_le32 (data pack_in)))) (data pack_in)
        (unat (d_size pack_in)) 0 g)"

text \<open>
  \<open>entries\<close> is an array of pointers; reading the \<open>i\<close>-th past its end is the fault.
\<close>

fun copy_entries :: "gossip_entry list \<Rightarrow> nat \<Rightarrow> nat \<Rightarrow> bytes \<Rightarrow> fault + bytes" where
  "copy_entries entries i 0 out = Inr out"
| "copy_entries entries i (Suc n) out =
     (if i < length entries then copy_entries entries (Suc i) n (out @ entry_bytes (entries ! i))
      else Inl OutOfBounds)"

definition gossip_to_data :: "bool \<Rightarrow> gossip_entry list \<Rightarrow> nat \<Rightarrow> fault + int \<times> bytes" where
  "gossip_to_data ok entries n =
     (if n = 0 \<or> \<not> ok then Inr (-1, [])
      else bind_fault (copy_entries entries 0 n (le32 (htonl (of_nat n)))) (\<lambda>out. Inr (0, out)))"

definition gossip_create_entry ::
  "int \<Rightarrow> u32 \<Rightarrow> naddr_t \<Rightarrow> gossip_metadata \<Rightarrow> bool \<Rightarrow> fault + gossip_entry" where
  "gossip_create_entry now uid addr md convert_hton =
     bind_fault (if convert_hton then ln_hton addr else Inr addr) (\<lambda>a.
     Inr \<lparr>ge_uid = uid, ge_addr = a, ge_version = 0, ge_timestamp = word_of_int now, ge_md = md\<rparr>)"

subsection \<open>The entries as a map\<close>

definition gossip_lookup :: "gossip_system \<Rightarrow> u32 \<Rightarrow> gossip_entry option" where
  "gossip_lookup g uid = map_option snd (gossip_find (elements (obj (gossips g))) uid 0)"

text \<open>The mutex is free, UIDs are unique, and the own UID is not among them.\<close>

definition gossip_wf :: "gossip_system \<Rightarrow> bool" where
  "gossip_wf g \<longleftrightarrow>
     \<not> mtx (gossips g) \<and> distinct (map ge_uid (elements (obj (gossips g)))) \<and>
     gs_self_uid g \<notin> ge_uid ` set (elements (obj (gossips g)))"

lemma gossip_find_None: "gossip_find es uid i = None \<longleftrightarrow> uid \<notin> ge_uid ` set es"
  by (induction es arbitrary: i) auto

lemma gossip_find_Some:
  "gossip_find es uid i = Some (j, e) \<Longrightarrow>
   \<exists>xs ys. es = xs @ e # ys \<and> j = i + length xs \<and> ge_uid e = uid \<and> uid \<notin> ge_uid ` set xs"
proof (induction es arbitrary: i)
  case (Cons x es)
  show ?case
  proof (cases "ge_uid x = uid")
    case True
    with Cons.prems show ?thesis by (intro exI [of _ "[]"] exI [of _ es]) auto
  next
    case False
    with Cons obtain xs ys where "es = xs @ e # ys" "j = Suc i + length xs" "ge_uid e = uid"
      "uid \<notin> ge_uid ` set xs" by fastforce
    with False show ?thesis by (intro exI [of _ "x # xs"] exI [of _ ys]) auto
  qed
qed simp

lemma gossip_find_append:
  "gossip_find (xs @ ys) uid i =
     (case gossip_find xs uid i of None \<Rightarrow> gossip_find ys uid (i + length xs) | Some r \<Rightarrow> Some r)"
  by (induction xs arbitrary: i) (auto split: option.splits)

lemma gossip_find_shift: "map_option snd (gossip_find es uid i) = map_option snd (gossip_find es uid 0)"
proof (induction es arbitrary: i)
  case (Cons e es)
  show ?case using Cons [of "Suc i"] Cons [of "Suc 0"] by simp
qed simp

definition find_entry :: "gossip_entry list \<Rightarrow> u32 \<Rightarrow> gossip_entry option" where
  "find_entry es uid = map_option snd (gossip_find es uid 0)"

lemma find_entry_simps [simp]:
  "find_entry [] uid = None"
  "find_entry (e # es) uid = (if ge_uid e = uid then Some e else find_entry es uid)"
  "find_entry (xs @ ys) uid = (case find_entry xs uid of None \<Rightarrow> find_entry ys uid | Some e \<Rightarrow> Some e)"
proof -
  show "find_entry (e # es) uid = (if ge_uid e = uid then Some e else find_entry es uid)"
    using gossip_find_shift [of es uid "Suc 0"] by (simp add: find_entry_def)
  show "find_entry (xs @ ys) uid = (case find_entry xs uid of None \<Rightarrow> find_entry ys uid | Some e \<Rightarrow> Some e)"
    using gossip_find_shift [of ys uid "length xs"]
    by (simp add: find_entry_def gossip_find_append split: option.splits)
qed (simp add: find_entry_def)

lemma find_entry_None: "find_entry es uid = None \<longleftrightarrow> uid \<notin> ge_uid ` set es"
  by (induction es) auto

lemma find_entry_Some: "find_entry es uid = Some e \<Longrightarrow> e \<in> set es \<and> ge_uid e = uid"
  by (induction es) (auto split: if_splits)

lemma gossip_lookup_find: "gossip_lookup g = find_entry (elements (obj (gossips g)))"
  by (rule ext) (simp add: gossip_lookup_def find_entry_def)

text \<open>What an insertion does to the list of entries.\<close>

definition merge_entry :: "gossip_entry list \<Rightarrow> gossip_entry \<Rightarrow> gossip_entry list" where
  "merge_entry es e =
     (case gossip_find es (ge_uid e) 0 of
        Some (inx, old) \<Rightarrow>
          if ge_version e \<le> ge_version old then es else take inx es @ drop (Suc inx) es @ [e]
      | None \<Rightarrow> es @ [e])"

lemma merge_entry_cases:
  assumes "distinct (map ge_uid es)"
  shows "distinct (map ge_uid (merge_entry es e))"
    and "find_entry (merge_entry es e) =
      (case find_entry es (ge_uid e) of
         Some old \<Rightarrow> if ge_version e \<le> ge_version old then find_entry es else (find_entry es)(ge_uid e \<mapsto> e)
       | None \<Rightarrow> (find_entry es)(ge_uid e \<mapsto> e))"
    and "ge_uid ` set (merge_entry es e) \<subseteq> insert (ge_uid e) (ge_uid ` set es)"
proof -
  have "distinct (map ge_uid (merge_entry es e)) \<and>
    find_entry (merge_entry es e) =
      (case find_entry es (ge_uid e) of
         Some old \<Rightarrow> if ge_version e \<le> ge_version old then find_entry es else (find_entry es)(ge_uid e \<mapsto> e)
       | None \<Rightarrow> (find_entry es)(ge_uid e \<mapsto> e)) \<and>
    ge_uid ` set (merge_entry es e) \<subseteq> insert (ge_uid e) (ge_uid ` set es)"
  proof (cases "gossip_find es (ge_uid e) 0")
    case None
    then have out: "ge_uid e \<notin> ge_uid ` set es" "find_entry es (ge_uid e) = None"
      by (simp_all add: gossip_find_None find_entry_def)
    have "find_entry (es @ [e]) = (find_entry es)(ge_uid e \<mapsto> e)"
      by (rule ext) (auto simp: out(2) split: option.splits)
    with None out assms show ?thesis by (auto simp: merge_entry_def)
  next
    case (Some p)
    then obtain j old where s: "gossip_find es (ge_uid e) 0 = Some (j, old)" by (cases p) auto
    then obtain xs ys where es: "es = xs @ old # ys" "j = length xs" "ge_uid old = ge_uid e"
      "ge_uid e \<notin> ge_uid ` set xs"
      using gossip_find_Some by fastforce
    have old: "find_entry es (ge_uid e) = Some old" using s by (simp add: find_entry_def)
    have ys: "ge_uid e \<notin> ge_uid ` set ys" using assms es(1,3) by auto
    have merge: "merge_entry es e = (if ge_version e \<le> ge_version old then es else xs @ ys @ [e])"
      using s by (simp add: merge_entry_def es(1,2))
    have "find_entry (xs @ ys @ [e]) = (find_entry es)(ge_uid e \<mapsto> e)"
    proof (rule ext)
      fix u
      have "find_entry xs (ge_uid e) = None" "find_entry ys (ge_uid e) = None"
        using es(4) ys by (simp_all add: find_entry_None)
      then show "find_entry (xs @ ys @ [e]) u = ((find_entry es)(ge_uid e \<mapsto> e)) u"
        using es(3) by (cases "u = ge_uid e") (simp_all add: es(1) split: option.splits)
    qed
    moreover have "distinct (map ge_uid (xs @ ys @ [e]))"
      using assms es ys by auto
    moreover have "ge_uid ` set (xs @ ys @ [e]) \<subseteq> insert (ge_uid e) (ge_uid ` set es)"
      by (auto simp: es(1))
    ultimately show ?thesis
      using assms by (cases "ge_version e \<le> ge_version old") (simp_all add: merge old, blast+)
  qed
  then show "distinct (map ge_uid (merge_entry es e))"
    and "find_entry (merge_entry es e) =
      (case find_entry es (ge_uid e) of
         Some old \<Rightarrow> if ge_version e \<le> ge_version old then find_entry es else (find_entry es)(ge_uid e \<mapsto> e)
       | None \<Rightarrow> (find_entry es)(ge_uid e \<mapsto> e))"
    and "ge_uid ` set (merge_entry es e) \<subseteq> insert (ge_uid e) (ge_uid ` set es)" by blast+
qed

lemma gossip_new_entry_merge:
  assumes "gossip_wf g"
  obtains g' where "gossip_new_entry True g e = Inr (0, g')" "gossip_wf g'"
    "gs_self_uid g' = gs_self_uid g"
    "elements (obj (gossips g')) =
       (if ge_uid e = gs_self_uid g then elements (obj (gossips g))
        else merge_entry (elements (obj (gossips g))) e)"
proof (cases "ge_uid e = gs_self_uid g")
  case True
  with assms that [of g] show ?thesis by (simp add: gossip_new_entry_def)
next
  case False
  let ?a = "obj (gossips g)"
  have free: "\<not> mtx (gossips g)" using assms by (simp add: gossip_wf_def)
  define a' where "a' = (case gossip_find (elements ?a) (ge_uid e) 0 of
      Some (inx, old) \<Rightarrow> if ge_version e \<le> ge_version old then ?a
        else snd (dyn_array_push True (snd (dyn_array_remove ?a inx)) e)
    | None \<Rightarrow> snd (dyn_array_push True ?a e))"
  have run: "gossip_new_entry True g e = Inr (0, g\<lparr>gossips := \<lparr>mtx = False, obj = a'\<rparr>\<rparr>)"
    using False free
    by (auto simp: gossip_new_entry_def on_gossips_def with_mutex_free a'_def split: option.splits)
  have el: "elements a' = merge_entry (elements ?a) e"
    using gossip_find_Some [of "elements ?a" "ge_uid e" 0]
    by (auto simp: a'_def merge_entry_def dyn_array_push_ok elements_remove split: option.splits)
  have "gossip_wf (g\<lparr>gossips := \<lparr>mtx = False, obj = a'\<rparr>\<rparr>)"
    using assms False merge_entry_cases [of "elements ?a" e]
    by (auto simp: gossip_wf_def el)
  with that [OF run] el False show ?thesis by simp
qed

lemma gossip_init_wf: "gossip_wf (snd (gossip_system_init uid))"
  "elements (obj (gossips (snd (gossip_system_init uid)))) = []"
  "gs_self_uid (snd (gossip_system_init uid)) = uid"
  by (simp_all add: gossip_system_init_def gossip_wf_def prot_array_create_def)

lemma cleanup_loop_filter:
  "elements (cleanup_loop now a i) =
     take i (elements a) @ filter (\<lambda>e. \<not> gossip_dead now e) (drop i (elements a))"
proof (induction now a i rule: cleanup_loop.induct)
  case (1 now a i)
  show ?case
  proof (cases "i < len a")
    case False
    then show ?thesis by (simp add: cleanup_loop.simps [of now a i])
  next
    case True
    then have d: "drop i (elements a) = elements a ! i # drop (Suc i) (elements a)"
      by (simp add: Cons_nth_drop_Suc)
    show ?thesis
    proof (cases "gossip_dead now (elements a ! i)")
      case False
      with 1(1) True show ?thesis
        by (simp add: cleanup_loop.simps [of now a i] d take_Suc_conv_app_nth)
    next
      case dead: True
      with 1(2) True have "elements (cleanup_loop now a i) =
          take i (elements (snd (dyn_array_remove a i))) @
          filter (\<lambda>e. \<not> gossip_dead now e) (drop i (elements (snd (dyn_array_remove a i))))"
        by (simp add: cleanup_loop.simps [of now a i])
      with True dead show ?thesis by (simp add: elements_remove d)
    qed
  qed
qed

subsection \<open>Packets of entries\<close>

definition entry_ok :: "gossip_entry \<Rightarrow> bool" where
  "entry_ok e \<longleftrightarrow>
     length (ge_addr e) = 52 \<and> length (md_pubkey (ge_md e)) = 32 \<and> length (md_server (ge_md e)) = 52"

lemma length_entry_bytes: "entry_ok e \<Longrightarrow> length (entry_bytes e) = GOSSIP_ENTRY_SIZE"
  by (simp add: entry_ok_def entry_bytes_def GOSSIP_ENTRY_SIZE_def)

lemma entry_of_entry_bytes: "entry_ok e \<Longrightarrow> entry_of_bytes (entry_bytes e) = e"
  by (cases e, cases "ge_md e")
    (simp add: entry_ok_def entry_bytes_def entry_of_bytes_def del: of_le32.simps)

text \<open>Inserting entries one after the other, as a packet does.\<close>

fun gossip_add_all :: "bool \<Rightarrow> gossip_system \<Rightarrow> gossip_entry list \<Rightarrow> fault + int \<times> gossip_system" where
  "gossip_add_all ok g [] = Inr (0, g)"
| "gossip_add_all ok g (e # es) =
     bind_fault (gossip_new_entry ok g e) (\<lambda>(_, g). gossip_add_all ok g es)"

lemma from_packet_loop_all:
  assumes "drop (4 + off) payload = concat (map entry_bytes es)" and "\<forall>e \<in> set es. entry_ok e"
    and "4 + off \<le> length payload"
  shows "from_packet_loop ok (length es) payload (length payload) off g = gossip_add_all ok g es"
  using assms
proof (induction es arbitrary: off g)
  case (Cons e es)
  let ?S = GOSSIP_ENTRY_SIZE
  have d: "drop (4 + off) payload = entry_bytes e @ concat (map entry_bytes es)"
    using Cons.prems(1) by simp
  have e: "entry_ok e" and l: "length (entry_bytes e) = ?S"
    using Cons.prems(2) by (simp_all add: length_entry_bytes)
  have "length (drop (4 + off) payload) = ?S + length (concat (map entry_bytes es))"
    by (simp only: d length_append l)
  then have len: "4 + off + ?S \<le> length payload" using Cons.prems(3) by simp
  have "drop (4 + (off + ?S)) payload = drop ?S (drop (4 + off) payload)"
    by (simp add: ac_simps)
  also have "\<dots> = concat (map entry_bytes es)" by (simp only: d) (simp add: l)
  finally have rest: "drop (4 + (off + ?S)) payload = concat (map entry_bytes es)" .
  have "entry_of_bytes (take ?S (drop (4 + off) payload)) = e"
    by (simp only: d) (simp add: l entry_of_entry_bytes [OF e])
  moreover have "from_packet_loop ok (length es) payload (length payload) (off + ?S) g' =
      gossip_add_all ok g' es" for g'
    using Cons.IH [OF rest] Cons.prems(2) len by simp
  ultimately show ?case using len by (cases "gossip_new_entry ok g e") (auto simp: Let_def)
qed simp

lemma copy_entries_ok:
  "i + n \<le> length es \<Longrightarrow>
   copy_entries es i n out = Inr (out @ concat (map entry_bytes (take n (drop i es))))"
  by (induction n arbitrary: i out) (simp_all add: Cons_nth_drop_Suc [symmetric])

lemma copy_entries_past: "\<lbrakk>i \<le> length es; length es < i + n\<rbrakk> \<Longrightarrow> copy_entries es i n out = Inl OutOfBounds"
  by (induction n arbitrary: i out) auto

lemma from_packet_loop_past:
  assumes "gossip_wf g" and "length payload < 4 + off + n * GOSSIP_ENTRY_SIZE"
    and "length payload = data_sz" and "4 + off \<le> length payload"
  shows "from_packet_loop True n payload data_sz off g = Inl OutOfBounds"
  using assms
proof (induction n arbitrary: off g)
  case 0
  then show ?case by simp
next
  case (Suc n)
  show ?case
  proof (cases "length payload < 4 + off + GOSSIP_ENTRY_SIZE")
    case False
    let ?e = "entry_of_bytes (take GOSSIP_ENTRY_SIZE (drop (4 + off) payload))"
    obtain g' where "gossip_new_entry True g ?e = Inr (0, g')" "gossip_wf g'"
      using gossip_new_entry_merge [OF Suc.prems(1)] by metis
    with False Suc.prems Suc.IH [of g' "off + GOSSIP_ENTRY_SIZE"] show ?thesis by simp
  qed simp
qed

subsection \<open>The shuffle\<close>

lemma shuffle_loop_mset:
  "i + n \<le> length xs \<Longrightarrow>
   mset (shuffle_loop rnd n i xs) = mset xs \<and> length (shuffle_loop rnd n i xs) = length xs"
proof (induction n arbitrary: i xs)
  case (Suc n)
  let ?j = "i + rnd i mod (length xs - i)"
  have "rnd i mod (length xs - i) < length xs - i" using Suc.prems by simp
  then have j: "?j < length xs" and i: "i < length xs" using Suc.prems by linarith+
  have "mset (xs[i := xs ! ?j, ?j := xs ! i]) = mset xs"
    using mset_swap [OF j i] by simp
  with Suc show ?case by (simp add: Let_def)
qed simp

subsection \<open>Merging\<close>

text \<open>\<open>e\<close> is the newest entry of its UID among \<open>es\<close>.\<close>

definition newest :: "gossip_entry list \<Rightarrow> gossip_entry \<Rightarrow> bool" where
  "newest es e \<longleftrightarrow> e \<in> set es \<and> (\<forall>x \<in> set es. ge_uid x = ge_uid e \<longrightarrow> ge_version x \<le> ge_version e)"

text \<open>The first entry of a UID with the highest version among \<open>es\<close>.\<close>

definition newest_of :: "gossip_entry list \<Rightarrow> u32 \<Rightarrow> gossip_entry option" where
  "newest_of es u = find (\<lambda>e. ge_uid e = u \<and> newest es e) es"

lemma find_snoc: "find P (xs @ [x]) = (case find P xs of Some y \<Rightarrow> Some y | None \<Rightarrow> if P x then Some x else None)"
  by (induction xs) auto

lemma newest_of_None: "newest_of es u = None \<longleftrightarrow> (\<forall>e \<in> set es. ge_uid e \<noteq> u)"
proof (cases "\<exists>e \<in> set es. ge_uid e = u")
  case True
  let ?V = "ge_version ` {e \<in> set es. ge_uid e = u}"
  have "finite ?V" "?V \<noteq> {}" using True by auto
  then have "Max ?V \<in> ?V" by (rule Max_in)
  define m where "m = Max ?V"
  with \<open>Max ?V \<in> ?V\<close> obtain e where e: "e \<in> set es" "ge_uid e = u" "ge_version e = m" by auto
  have "ge_version x \<le> ge_version e" if "x \<in> set es" "ge_uid x = u" for x
    unfolding e(3) m_def using that \<open>finite ?V\<close> by (intro Max_ge) auto
  with e show ?thesis by (auto simp: newest_of_def find_None_iff newest_def)
qed (auto simp: newest_of_def find_None_iff)

lemma newest_ofD: "newest_of es u = Some e \<Longrightarrow> newest es e \<and> ge_uid e = u"
  by (auto simp: newest_of_def find_Some_iff)

lemma newest_of_snoc:
  "newest_of (es @ [e]) u =
     (if ge_uid e \<noteq> u then newest_of es u
      else case newest_of es u of
        Some old \<Rightarrow> if ge_version e \<le> ge_version old then Some old else Some e
      | None \<Rightarrow> Some e)"
proof (cases "ge_uid e = u")
  case False
  have "find (\<lambda>x. ge_uid x = u \<and> newest (es @ [e]) x) es = find (\<lambda>x. ge_uid x = u \<and> newest es x) es"
    using False by (intro find_cong) (auto simp: newest_def)
  with False show ?thesis by (simp add: newest_of_def find_snoc split: option.splits)
next
  case True
  show ?thesis
  proof (cases "newest_of es u")
    case None
    then have no: "\<forall>x \<in> set es. ge_uid x \<noteq> u" by (simp add: newest_of_None)
    then have "find (\<lambda>x. ge_uid x = u \<and> newest (es @ [e]) x) es = None" by (auto simp: find_None_iff)
    moreover have "newest (es @ [e]) e" using no True by (auto simp: newest_def)
    ultimately show ?thesis using True None by (simp add: newest_of_def find_snoc)
  next
    case (Some old)
    then have o: "newest es old" "ge_uid old = u" using newest_ofD by blast+
    show ?thesis
    proof (cases "ge_version e \<le> ge_version old")
      case le: True
      have "newest (es @ [e]) x \<longleftrightarrow> newest es x" if "x \<in> set es" "ge_uid x = u" for x
        using that o True le by (auto simp: newest_def intro: order_trans)
      then have "find (\<lambda>x. ge_uid x = u \<and> newest (es @ [e]) x) es = find (\<lambda>x. ge_uid x = u \<and> newest es x) es"
        by (intro find_cong) auto
      with True Some le show ?thesis by (simp add: newest_of_def find_snoc)
    next
      case False
      have "\<not> (ge_uid x = u \<and> newest (es @ [e]) x)" if "x \<in> set es" for x
        using that o True False by (fastforce simp: newest_def)
      then have "find (\<lambda>x. ge_uid x = u \<and> newest (es @ [e]) x) es = None" by (auto simp: find_None_iff)
      moreover have "newest (es @ [e]) e" using o True False by (fastforce simp: newest_def)
      ultimately show ?thesis using True Some False by (simp add: newest_of_def find_snoc)
    qed
  qed
qed

lemma gossip_add_all_snoc:
  "gossip_add_all ok g (es @ [e]) =
     bind_fault (gossip_add_all ok g es) (\<lambda>(_, h). gossip_add_all ok h [e])"
  proof (induction es arbitrary: g)
  case (Cons x xs)
  then show ?case by (cases "gossip_new_entry ok g x") (auto simp: split_def)
qed simp

lemma add_all_newest_of:
  "\<exists>h. gossip_add_all True (snd (gossip_system_init uid)) es = Inr (0, h) \<and> gossip_wf h \<and> gs_self_uid h = uid \<and>
     (\<forall>u. u \<noteq> uid \<longrightarrow> gossip_lookup h u = newest_of es u)"
proof (induction es rule: rev_induct)
  case Nil
  show ?case by (simp add: gossip_init_wf gossip_lookup_find newest_of_def)
next
  case (snoc e es)
  then obtain h where h: "gossip_add_all True (snd (gossip_system_init uid)) es = Inr (0, h)" "gossip_wf h"
    "gs_self_uid h = uid" "\<forall>u. u \<noteq> uid \<longrightarrow> gossip_lookup h u = newest_of es u" by blast
  obtain h' where h': "gossip_new_entry True h e = Inr (0, h')" "gossip_wf h'" "gs_self_uid h' = gs_self_uid h"
    "elements (obj (gossips h')) =
       (if ge_uid e = gs_self_uid h then elements (obj (gossips h))
        else merge_entry (elements (obj (gossips h))) e)"
    by (rule gossip_new_entry_merge [OF h(2)])
  have "gossip_lookup h' = (if ge_uid e = uid then gossip_lookup h
     else case gossip_lookup h (ge_uid e) of
         Some old \<Rightarrow> if ge_version e \<le> ge_version old then gossip_lookup h
           else (gossip_lookup h)(ge_uid e \<mapsto> e)
       | None \<Rightarrow> (gossip_lookup h)(ge_uid e \<mapsto> e))"
    using h(2,3) merge_entry_cases(2) [of "elements (obj (gossips h))" e]
    unfolding gossip_lookup_find h'(4) by (simp add: gossip_wf_def)
  then have "gossip_lookup h' u = newest_of (es @ [e]) u" if "u \<noteq> uid" for u
    using that h(4) by (auto simp: newest_of_snoc split: option.splits)
  with h(1,3) h' show ?case by (simp add: gossip_add_all_snoc)
qed

lemma newest_of_version:
  assumes "set es = set es'"
  shows "map_option ge_version (newest_of es u) = map_option ge_version (newest_of es' u)"
proof (cases "newest_of es u")
  case None
  then have "newest_of es' u = None" using assms by (simp add: newest_of_None)
  with None show ?thesis by simp
next
  case (Some e)
  then obtain e' where e': "newest_of es' u = Some e'" using assms newest_of_None by (metis not_Some_eq)
  then have "ge_version e = ge_version e'"
    using newest_ofD [OF Some] newest_ofD [OF e'] assms by (auto simp: newest_def intro: order_antisym)
  with Some e' show ?thesis by simp
qed

lemma gossip_dead_age:
  assumes "0 \<le> now" and "now < 2 ^ 63" and "int (unat (ge_timestamp e)) < 2 ^ 63"
  shows "gossip_dead now e \<longleftrightarrow>
    \<not> (int (unat (ge_timestamp e)) \<le> now \<and> now < int (unat (ge_timestamp e)) + 3600)"
proof -
  define t where "t = int (unat (ge_timestamp e))"
  have t: "0 \<le> t" "t < 2 ^ 63" "ge_timestamp e = word_of_int t"
    using assms(3) by (simp_all add: t_def)
  have "uint (word_of_int now - ge_timestamp e) = (now - t) mod 2 ^ 64"
    unfolding t(3) of_int_diff [symmetric] by (simp add: uint_word_of_int del: of_int_diff)
  also have "\<dots> = (if t \<le> now then now - t else now - t + 2 ^ 64)"
  proof (cases "t \<le> now")
    case True
    then show ?thesis using assms(2) t(1) by (simp add: mod_pos_pos_trivial)
  next
    case False
    have "(now - t) mod 2 ^ 64 = (now - t + 2 ^ 64) mod 2 ^ 64" by simp
    also have "\<dots> = now - t + 2 ^ 64"
      using False assms(1) t(2) by (intro mod_pos_pos_trivial) simp_all
    finally show ?thesis using False by simp
  qed
  finally show ?thesis
    unfolding gossip_dead_def GOSSIP_DEAD_DT_def word_less_def t_def [symmetric]
    using t(1,2) assms(1,2) by (auto split: if_splits)
qed

subsection \<open>Properties\<close>

text \<open>
  Inserting an entry never faults and keeps one entry for each UID; an entry with a
  higher version replaces the known one, another version changes nothing, a new UID is
  added, the own UID is ignored, and the other UIDs are untouched.
\<close>

theorem gossip_new_entry_merges:
  assumes "gossip_wf g"
  shows "\<exists>g'. gossip_new_entry True g e = Inr (0, g') \<and> gossip_wf g' \<and>
    gossip_lookup g' =
      (if ge_uid e = gs_self_uid g then gossip_lookup g
       else case gossip_lookup g (ge_uid e) of
         Some old \<Rightarrow> if ge_version e \<le> ge_version old then gossip_lookup g
           else (gossip_lookup g)(ge_uid e \<mapsto> e)
       | None \<Rightarrow> (gossip_lookup g)(ge_uid e \<mapsto> e))"
proof -
  obtain g' where g': "gossip_new_entry True g e = Inr (0, g')" "gossip_wf g'"
    "elements (obj (gossips g')) =
       (if ge_uid e = gs_self_uid g then elements (obj (gossips g))
        else merge_entry (elements (obj (gossips g))) e)"
    by (rule gossip_new_entry_merge [OF assms])
  then show ?thesis
    using assms merge_entry_cases(2) [of "elements (obj (gossips g))" e]
    unfolding gossip_lookup_find by (intro exI [of _ g']) (simp add: gossip_wf_def)
qed

definition demo_entry :: "u32 \<Rightarrow> u32 \<Rightarrow> gossip_entry" where
  "demo_entry uid version = \<lparr>ge_uid = uid, ge_addr = zeros 52, ge_version = version,
     ge_timestamp = 1000, ge_md = \<lparr>md_pubkey = zeros 32, md_server = zeros 52\<rparr>\<rparr>"

lemma demo_entry_sel [simp]:
  "ge_uid (demo_entry u v) = u" "ge_version (demo_entry u v) = v" "entry_ok (demo_entry u v)"
  "ge_timestamp (demo_entry u v) = 1000"
  by (simp_all add: demo_entry_def entry_ok_def zeros_def)

definition demo_gossip :: "gossip_entry list \<Rightarrow> gossip_system" where
  "demo_gossip es = \<lparr>gossips = \<lparr>mtx = False, obj = (dyn_array_create 152)\<lparr>elements := es\<rparr>\<rparr>,
     last_gossiped = 0, gs_self_uid = 1\<rparr>"

lemma demo_gossip_wf:
  "distinct (map ge_uid es) \<Longrightarrow> 1 \<notin> ge_uid ` set es \<Longrightarrow> gossip_wf (demo_gossip es)"
  "elements (obj (gossips (demo_gossip es))) = es"
  by (simp_all add: demo_gossip_def gossip_wf_def)

theorem gossip_new_entry_merges_witness:
  "\<exists>g'. gossip_new_entry True (snd (gossip_system_init 1)) (demo_entry 5 2) = Inr (0, g') \<and>
     gossip_lookup g' 5 = Some (demo_entry 5 2)"
  using gossip_new_entry_merges [OF gossip_init_wf(1), of 1 "demo_entry 5 2"]
  by (auto simp: gossip_init_wf gossip_lookup_find)

text \<open>
  C9: two nodes, each with a UID of its own, that received the same entries, in any order and any
  number of times: for every UID but their own each knows the first entry it received among those
  with the highest version, so that both know the same version of every peer, and the same entry
  where the version determines it. The program itself only makes entries of version 0
  (\<open>gossip_created_never_replaces\<close>): of several such entries of one UID each node keeps the one it
  heard first, and these need not agree.
\<close>

theorem gossip_converges:
  assumes "set es = set es'"
  shows "\<exists>h h'. gossip_add_all True (snd (gossip_system_init uid)) es = Inr (0, h) \<and>
    gossip_add_all True (snd (gossip_system_init uid')) es' = Inr (0, h') \<and>
    (\<forall>u. u \<noteq> uid \<and> u \<noteq> uid' \<longrightarrow>
       gossip_lookup h u = newest_of es u \<and> gossip_lookup h' u = newest_of es' u \<and>
       map_option ge_version (gossip_lookup h u) = map_option ge_version (gossip_lookup h' u) \<and>
       ((\<forall>a \<in> set es. \<forall>b \<in> set es. ge_uid a = u \<and> ge_uid b = u \<and> ge_version a = ge_version b \<longrightarrow> a = b) \<longrightarrow>
        gossip_lookup h u = gossip_lookup h' u))"
proof -
  obtain h h' where h: "gossip_add_all True (snd (gossip_system_init uid)) es = Inr (0, h)"
    "gossip_add_all True (snd (gossip_system_init uid')) es' = Inr (0, h')"
    "\<forall>u. u \<noteq> uid \<longrightarrow> gossip_lookup h u = newest_of es u" "\<forall>u. u \<noteq> uid' \<longrightarrow> gossip_lookup h' u = newest_of es' u"
    using add_all_newest_of [of uid es] add_all_newest_of [of uid' es'] by blast
  have "newest_of es u = newest_of es' u"
    if "\<forall>a \<in> set es. \<forall>b \<in> set es. ge_uid a = u \<and> ge_uid b = u \<and> ge_version a = ge_version b \<longrightarrow> a = b" for u
  proof (cases "newest_of es u")
    case (Some e)
    then obtain e' where e': "newest_of es' u = Some e'" "ge_version e = ge_version e'"
      using newest_of_version [OF assms, of u] Some by (cases "newest_of es' u") auto
    then have "e \<in> set es" "e' \<in> set es" "ge_uid e = u" "ge_uid e' = u"
      using newest_ofD [OF Some] newest_ofD [OF e'(1)] assms by (auto simp: newest_def)
    with that e' Some show ?thesis by auto
  next
    case None
    with assms show ?thesis using newest_of_None [of es u] newest_of_None [of es' u] by auto
  qed
  with h newest_of_version [OF assms] show ?thesis by (intro exI [of _ h] exI [of _ h']) auto
qed

theorem gossip_converges_witness:
  "\<exists>h h'. gossip_add_all True (snd (gossip_system_init 1)) [demo_entry 5 2, demo_entry 5 3] = Inr (0, h) \<and>
    gossip_add_all True (snd (gossip_system_init 2)) [demo_entry 5 3, demo_entry 5 2, demo_entry 5 3] = Inr (0, h') \<and>
    gossip_lookup h 5 = Some (demo_entry 5 3) \<and> gossip_lookup h' 5 = Some (demo_entry 5 3)"
proof -
  let ?es = "[demo_entry 5 2, demo_entry 5 3]" and ?es' = "[demo_entry 5 3, demo_entry 5 2, demo_entry 5 3]"
  have "set ?es = set ?es'" by auto
  from gossip_converges [OF this, of 1 2] obtain h h' where h: "gossip_add_all True (snd (gossip_system_init 1)) ?es = Inr (0, h)"
    "gossip_add_all True (snd (gossip_system_init 2)) ?es' = Inr (0, h')"
    "\<forall>u. u \<noteq> 1 \<and> u \<noteq> 2 \<longrightarrow> gossip_lookup h u = newest_of ?es u \<and> gossip_lookup h' u = newest_of ?es' u"
    by blast
  have "gossip_lookup h 5 = newest_of ?es 5 \<and> gossip_lookup h' 5 = newest_of ?es' 5" using h(3) by simp
  with h(1,2) show ?thesis by (intro exI [of _ h] exI [of _ h']) (simp add: newest_of_def newest_def)
qed

text \<open>
  Entries travel unchanged: receiving the packet that \<open>gossip_to_data\<close> fills with some
  entries is the same as inserting these entries one after the other.
\<close>

theorem gossip_packet_roundtrip:
  assumes "es \<noteq> []" and "\<forall>e \<in> set es. entry_ok e" and "4 + length es * GOSSIP_ENTRY_SIZE < 2 ^ 32"
  shows "case gossip_to_data True es (length es) of
      Inr (r, out) \<Rightarrow>
        r = 0 \<and> gossip_from_packet ok g (p\<lparr>d_size := of_nat (length out), data := out\<rparr>) =
          gossip_add_all ok g es
    | Inl _ \<Rightarrow> False"
proof -
  let ?out = "le32 (htonl (of_nat (length es))) @ concat (map entry_bytes es)"
  have mk: "gossip_to_data True es (length es) = Inr (0, ?out)"
    using assms(1) by (simp add: gossip_to_data_def copy_entries_ok)
  have "length (concat (map entry_bytes es)) = length es * GOSSIP_ENTRY_SIZE"
    using assms(2) by (induction es) (simp_all add: length_entry_bytes)
  then have len: "length ?out = 4 + length es * GOSSIP_ENTRY_SIZE" by simp
  have sz: "unat (of_nat (length ?out) :: u32) = length ?out"
    using assms(3) unfolding len by (simp add: unat_of_nat del: of_nat_add of_nat_mult)
  have "length es < 2 ^ 32" using assms(3) by (simp add: GOSSIP_ENTRY_SIZE_def)
  then have n: "unat (of_nat (length es) :: u32) = length es"
    by (simp add: unat_of_nat)
  have "GOSSIP_ENTRY_SIZE + 4 \<le> length ?out" using assms(1) len by (cases es) simp_all
  then have "gossip_from_packet ok g (p\<lparr>d_size := of_nat (length ?out), data := ?out\<rparr>) =
      gossip_add_all ok g es"
    using from_packet_loop_all [of 0 ?out es ok g] assms(2)
    by (simp add: gossip_from_packet_def sz n del: length_append)
  with mk show ?thesis by simp
qed

theorem gossip_packet_roundtrip_witness:
  "case gossip_to_data True [demo_entry 5 2] (length [demo_entry 5 2]) of
      Inr (r, out) \<Rightarrow>
        r = 0 \<and> gossip_from_packet True (snd (gossip_system_init 1)) (demo_pack\<lparr>d_size := of_nat (length out), data := out\<rparr>) =
          gossip_add_all True (snd (gossip_system_init 1)) [demo_entry 5 2]
    | Inl _ \<Rightarrow> False"
  by (rule gossip_packet_roundtrip) (simp_all add: GOSSIP_ENTRY_SIZE_def)

text \<open>
  The bound of the reading loop is tested after the entry has been copied: a packet of
  at least one entry whose count promises more than the payload holds makes the code read
  past the end of the payload, whoever sent it.
\<close>

theorem gossip_from_packet_overread:
  assumes "gossip_wf g" and "length (data p) = unat (d_size p)"
    and "4 + GOSSIP_ENTRY_SIZE \<le> length (data p)"
    and "length (data p) < 4 + unat (ntohl (of_le32 (data p))) * GOSSIP_ENTRY_SIZE"
  shows "gossip_from_packet True g p = Inl OutOfBounds"
  using assms from_packet_loop_past [of g "data p" 0 "unat (ntohl (of_le32 (data p)))" "unat (d_size p)"]
  by (simp add: gossip_from_packet_def)

theorem gossip_from_packet_overread_witness:
  "gossip_from_packet True (snd (gossip_system_init 1))
     \<lparr>seq = 0, chsum = 0, d_size = 156, h_from = 9, h_to = 1, packtype = 6,
      data = [0, 0, 0, 2] @ replicate 152 0\<rparr> = Inl OutOfBounds"
  by (rule gossip_from_packet_overread)
    (simp_all add: gossip_init_wf(1) GOSSIP_ENTRY_SIZE_def htonl_def le32_def)

text \<open>
  A cleanup keeps exactly the entries younger than an hour; an entry stamped in the
  future, by a peer whose clock is ahead, is not among them, since the age is unsigned.
\<close>

theorem gossip_cleanup_exact:
  assumes "gossip_wf g" and "0 \<le> now" and "now < 2 ^ 63"
    and "\<forall>e \<in> set (elements (obj (gossips g))). int (unat (ge_timestamp e)) < 2 ^ 63"
  shows "\<exists>g'. gossip_cleanup now g = Inr (0, g') \<and>
    elements (obj (gossips g')) =
      filter (\<lambda>e. int (unat (ge_timestamp e)) \<le> now \<and> now < int (unat (ge_timestamp e)) + 3600)
        (elements (obj (gossips g)))"
proof -
  have "\<not> gossip_dead now e \<longleftrightarrow>
      int (unat (ge_timestamp e)) \<le> now \<and> now < int (unat (ge_timestamp e)) + 3600"
    if "e \<in> set (elements (obj (gossips g)))" for e
    using gossip_dead_age [of now e] assms(2-4) that by auto
  then have "filter (\<lambda>e. \<not> gossip_dead now e) (elements (obj (gossips g))) =
      filter (\<lambda>e. int (unat (ge_timestamp e)) \<le> now \<and> now < int (unat (ge_timestamp e)) + 3600)
        (elements (obj (gossips g)))"
    by (rule filter_cong [OF refl])
  then show ?thesis
    using assms(1) by (simp add: gossip_cleanup_def on_gossips_def with_mutex_free gossip_wf_def
        cleanup_loop_filter)
qed

theorem gossip_cleanup_exact_witness:
  "\<exists>g'. gossip_cleanup 900 (demo_gossip [demo_entry 5 2]) = Inr (0, g') \<and> elements (obj (gossips g')) = []"
  using gossip_cleanup_exact [OF demo_gossip_wf(1), of "[demo_entry 5 2]" 900]
  by (simp add: demo_gossip_wf(2))

text \<open>
  A random selection returns as many entries as asked for, or all when there are fewer,
  none of them twice, whatever \<open>rand\<close> returns, and leaves the system as it is.
\<close>

theorem gossip_random_entries_sample:
  assumes "\<not> mtx (gossips g)" and "0 < n" and "elements (obj (gossips g)) \<noteq> []"
  shows "\<exists>es m. gossip_random_entries True rnd g n = Inr ((0, es, m), g) \<and>
    m = min n (length (elements (obj (gossips g)))) \<and> length es = m \<and>
    mset es \<subseteq># mset (elements (obj (gossips g)))"
proof -
  let ?xs = "elements (obj (gossips g))"
  let ?m = "min n (length ?xs)"
  let ?idx = "shuffle_loop rnd ?m 0 [0..<length ?xs]"
  have m: "(if length ?xs < n then length ?xs else n) = ?m" by simp
  have idx: "mset ?idx = mset [0..<length ?xs]" "length ?idx = length ?xs"
    using shuffle_loop_mset [of 0 ?m "[0..<length ?xs]" rnd] by simp_all
  have "mset (take ?m ?idx) \<subseteq># mset ?idx"
    by (metis append_take_drop_id mset_append mset_subset_eq_add_left)
  then have "image_mset ((!) ?xs) (mset (take ?m ?idx)) \<subseteq># image_mset ((!) ?xs) (mset [0..<length ?xs])"
    unfolding idx(1) by (rule image_mset_subseteq_mono)
  also have "image_mset ((!) ?xs) (mset [0..<length ?xs]) = mset ?xs"
    by (metis map_nth mset_map)
  finally have "mset (map ((!) ?xs) (take ?m ?idx)) \<subseteq># mset ?xs" by simp
  moreover have "g\<lparr>gossips := \<lparr>mtx = False, obj = obj (gossips g)\<rparr>\<rparr> = g"
    using assms(1) by (cases g, cases "gossips g") simp
  ultimately show ?thesis
    using assms idx(2) by (simp add: gossip_random_entries_def on_gossips_def with_mutex_free Let_def m)
qed

lemma demo_gossip_free: "\<not> mtx (gossips (demo_gossip es))"
  by (simp add: demo_gossip_def)

theorem gossip_random_entries_sample_witness:
  "\<exists>es m. gossip_random_entries True (\<lambda>i. 7 * i + 3) (demo_gossip [demo_entry 5 2, demo_entry 6 1]) 5 =
     Inr ((0, es, m), demo_gossip [demo_entry 5 2, demo_entry 6 1]) \<and> m = 2 \<and> length es = 2"
  using gossip_random_entries_sample [of "demo_gossip [demo_entry 5 2, demo_entry 6 1]" 5 "\<lambda>i. 7 * i + 3"]
  by (auto simp: demo_gossip_wf(2) demo_gossip_free numeral_2_eq_2)

text \<open>
  The version of an entry is meant to count retransmissions, but every entry the
  program creates has version \<open>0\<close> and nothing increments it: an entry created for a known UID
  is dropped, so that address changes and fresh time stamps do not spread.
\<close>

theorem gossip_created_never_replaces:
  assumes "gossip_wf g" and "gossip_lookup g uid = Some old"
    and "gossip_create_entry now uid addr md conv = Inr e"
  shows "\<exists>g'. gossip_new_entry True g e = Inr (0, g') \<and> gossip_lookup g' = gossip_lookup g"
proof -
  have e: "ge_uid e = uid" "ge_version e = 0"
    using assms(3) by (auto simp: gossip_create_entry_def bind_fault_Inr_iff)
  obtain g' where g': "gossip_new_entry True g e = Inr (0, g')"
    "elements (obj (gossips g')) =
       (if ge_uid e = gs_self_uid g then elements (obj (gossips g))
        else merge_entry (elements (obj (gossips g))) e)"
    by (rule gossip_new_entry_merge [OF assms(1)])
  then show ?thesis
    using assms(1,2) merge_entry_cases(2) [of "elements (obj (gossips g))" e]
    unfolding gossip_lookup_find by (intro exI [of _ g']) (simp add: gossip_wf_def e)
qed

theorem gossip_created_never_replaces_witness:
  "\<exists>e g'. gossip_create_entry 5000 5 (na4 [] 0) \<lparr>md_pubkey = zeros 32, md_server = zeros 52\<rparr> True = Inr e \<and>
     gossip_new_entry True (demo_gossip [demo_entry 5 2]) e = Inr (0, g') \<and>
     gossip_lookup g' 5 = Some (demo_entry 5 2)"
proof -
  let ?md = "\<lparr>md_pubkey = zeros 32, md_server = zeros 52\<rparr>"
  obtain e where e: "gossip_create_entry 5000 5 (na4 [] 0) ?md True = Inr e"
    by (simp add: gossip_create_entry_def ln_hton_def na4_fields ln_ipv4_def)
  moreover have "gossip_lookup (demo_gossip [demo_entry 5 2]) 5 = Some (demo_entry 5 2)"
    by (simp add: gossip_lookup_find demo_gossip_wf)
  ultimately show ?thesis
    using gossip_created_never_replaces [OF demo_gossip_wf(1), of "[demo_entry 5 2]" 5 "demo_entry 5 2" 5000 "na4 [] 0" ?md True e]
    by auto
qed

end
