(* ===== verification/Turn.thy ===== *)
theory Turn
  imports Providers Peerdb
begin

text \<open>
  \<open>turn/src\<close>: relaying through a TURN server. \<open>packets.c\<close> makes and reads the requests,
  \<open>statem.c\<close> keeps the bound pairs and the outstanding requests of a client. A request is its
  fields; \<open>req_bytes\<close> is its memory image, which is what is sent. Memory is assumed to be
  available; \<open>rand\<close>, clocks and event results are arguments. The member \<open>outgoing_tpacks\<close>
  is never used, and left out.

  The lemmas: the two copies of the hash agree; the hash of a pair determines either UID from the other one; the reader of a
  request reads its fields at other offsets than those they are written at; and a wrapped
  packet is never produced.
\<close>

datatype turn_rtype = TURN_OPEN_HOLE | TURN_CLOSE_HOLE | TURN_SYSTEM_MSG | TURN_DATA_MSG

fun rtype_code :: "turn_rtype \<Rightarrow> u32" where
  "rtype_code TURN_OPEN_HOLE = 0" | "rtype_code TURN_CLOSE_HOLE = 1"
| "rtype_code TURN_SYSTEM_MSG = 2" | "rtype_code TURN_DATA_MSG = 3"

record turn_request =
  tr_type :: u32
  tr_to_UID :: u32
  tr_TRUID :: u32
  tr_to_whom :: naddr_t
  tr_d_size :: u32
  tr_data :: bytes

definition TURN_REQUEST_SIZE :: nat where
  "TURN_REQUEST_SIZE = 68"

definition req_bytes :: "turn_request \<Rightarrow> bytes" where
  "req_bytes r =
     le32 (tr_type r) @ le32 (tr_to_UID r) @ le32 (tr_TRUID r) @ tr_to_whom r @
     le32 (tr_d_size r) @ tr_data r"

definition turn_req_make ::
  "turn_rtype \<Rightarrow> naddr_t \<Rightarrow> u32 \<Rightarrow> u32 \<Rightarrow> bytes \<Rightarrow> nat \<Rightarrow> fault + turn_request" where
  "turn_req_make type to_whom to_UID truid dat dsz =
     bind_fault (ln_hton to_whom) (\<lambda>a.
     if length dat < dsz then Inl OutOfBounds
     else Inr \<lparr>tr_type = rtype_code type, tr_to_UID = htonl to_UID, tr_TRUID = htonl truid,
               tr_to_whom = a, tr_d_size = htonl (of_nat dsz), tr_data = take dsz dat\<rparr>)"

text \<open>The fields in the order in which they are read; \<open>dat\<close> is \<open>None\<close> for \<open>NULL\<close>.\<close>

definition turn_req_recv :: "bytes option \<Rightarrow> nat \<Rightarrow> fault + turn_request option" where
  "turn_req_recv dat dsz =
     (case dat of
        None \<Rightarrow> Inr None
      | Some bs \<Rightarrow>
          if dsz < TURN_REQUEST_SIZE then Inr None
          else if length bs < dsz then Inl OutOfBounds
          else
            let out = \<lparr>tr_type = of_le32 (drop 52 bs), tr_to_UID = ntohl (of_le32 (drop 60 bs)),
                       tr_TRUID = ntohl (of_le32 (drop 64 bs)), tr_to_whom = take 52 bs,
                       tr_d_size = ntohl (of_le32 (drop 56 bs)), tr_data = []\<rparr>
            in if unat (tr_d_size out) \<noteq> dsz - TURN_REQUEST_SIZE then Inr None
               else Inr (Some (out\<lparr>tr_data := take (unat (tr_d_size out)) (drop 68 bs)\<rparr>)))"

subsection \<open>The client\<close>

record turn_bind_peer =
  linfo_origin :: light_peer_info
  linfo_connected :: light_peer_info

definition TURN_SST_OK :: u32 where
  "TURN_SST_OK = 0"

definition TURN_SST_FAIL :: u32 where
  "TURN_SST_FAIL = 1"

definition TURN_SST_SENT :: u32 where
  "TURN_SST_SENT = 2"

definition TURN_COMMENTARY_MAX_SIZE :: nat where
  "TURN_COMMENTARY_MAX_SIZE = 500"

record turn_client =
  tc_TRUID :: u32
  turn_sUID :: u32
  outgoing_ev :: mt_eventsock
  binded_clients :: "(u32, turn_bind_peer) prot_table"
  sys_requests :: "(u32, u32) prot_table"
  sys_ev :: mt_eventsock
  tc_sender :: "nnet_fd pvd_sender"

text \<open>The copy of the hash that \<open>statem.c\<close> has, with its counter and its \<open>switch\<close>.\<close>

fun turn_murmur_blocks :: "bytes \<Rightarrow> nat \<Rightarrow> nat \<Rightarrow> u32 \<Rightarrow> u32" where
  "turn_murmur_blocks key i 0 h = h"
| "turn_murmur_blocks key i (Suc n) h =
     (let k = of_le32 (drop (4 * i) key) * 0xcc9e2d51;
          k = (push_bit 15 k OR drop_bit (32 - 15) k) * 0x1b873593;
          h = h XOR k;
          h = push_bit 13 h OR drop_bit (32 - 13) h in
      turn_murmur_blocks key (i + 1) n (h * 5 + 0xe6546b64))"

definition turn_murmur_tail :: "bytes \<Rightarrow> nat \<Rightarrow> u32 \<Rightarrow> u32" where
  "turn_murmur_tail tail n h =
     (let k1 = 0;
          k1 = (if n = 3 then k1 XOR push_bit 16 (ucast (tail ! 2)) else k1);
          k1 = (if n = 3 \<or> n = 2 then k1 XOR push_bit 8 (ucast (tail ! 1)) else k1) in
      if n = 3 \<or> n = 2 \<or> n = 1 then
        let k1 = (k1 XOR ucast (tail ! 0)) * 0xcc9e2d51;
            k1 = (push_bit 15 k1 OR drop_bit (32 - 15) k1) * 0x1b873593 in
        h XOR k1
      else h)"

definition turn_murmurhash3_32 :: "bytes \<Rightarrow> u32 \<Rightarrow> u32" where
  "turn_murmurhash3_32 key seed =
     (let nblocks = length key div 4;
          h = turn_murmur_blocks key 0 nblocks seed;
          h = turn_murmur_tail (drop (nblocks * 4) key) (length key mod 4) h;
          h = h XOR of_nat (length key);
          h = h XOR drop_bit 16 h;
          h = h * 0x85ebca6b;
          h = h XOR drop_bit 13 h;
          h = h * 0xc2b2ae35 in
      h XOR drop_bit 16 h)"

definition turn_pair_hash :: "u32 \<Rightarrow> u32 \<Rightarrow> u32" where
  "turn_pair_hash uid_from uid_to = turn_murmurhash3_32 (le32 uid_from @ le32 uid_to) 0xEAFE"

definition turn_check_pair :: "turn_client \<Rightarrow> u32 \<Rightarrow> u32 \<Rightarrow> fault + bool \<times> turn_client" where
  "turn_check_pair cli uid_from uid_to =
     bind_fault (prot_table_get (binded_clients cli) (turn_pair_hash uid_from uid_to)) (\<lambda>(p, t).
     Inr (p \<noteq> None, cli\<lparr>binded_clients := t\<rparr>))"

definition turn_client_init :: "nat \<Rightarrow> u32 \<Rightarrow> nnet_fd pvd_sender \<Rightarrow> int \<times> turn_client" where
  "turn_client_init rnd sUID sender =
     (0, \<lparr>tc_TRUID = of_nat (rnd mod (unat UINT32_MAX div 2)), turn_sUID = sUID,
          outgoing_ev = snd mt_evsock_new,
          binded_clients = snd (prot_table_create 4 280 DYN_OWN_BOTH),
          sys_requests = snd (prot_table_create 4 4 DYN_OWN_BOTH),
          sys_ev = snd mt_evsock_new, tc_sender = sender\<rparr>)"

definition turn_client_end :: "turn_client \<Rightarrow> fault + int \<times> turn_client" where
  "turn_client_end cli =
     bind_fault (prot_table_end (binded_clients cli)) (\<lambda>(_, b).
     bind_fault (prot_table_end (sys_requests cli)) (\<lambda>(_, s).
     Inr (0, cli\<lparr>outgoing_ev := mt_evsock_close (outgoing_ev cli),
                 sys_ev := mt_evsock_close (sys_ev cli),
                 binded_clients := b, sys_requests := s\<rparr>)))"

definition turn_client_bind :: "turn_client \<Rightarrow> u32 \<Rightarrow> turn_bind_peer \<Rightarrow> fault + int \<times> turn_client" where
  "turn_client_bind cli hsh peer =
     bind_fault (prot_table_set True True True (binded_clients cli) hsh peer) (\<lambda>(_, t).
     Inr (0, cli\<lparr>binded_clients := t\<rparr>))"

definition turn_client_info ::
  "turn_client \<Rightarrow> u32 \<Rightarrow> fault + (int \<times> turn_bind_peer option) \<times> turn_client" where
  "turn_client_info cli hsh =
     bind_fault (prot_table_get (binded_clients cli) hsh) (\<lambda>(p, t).
     Inr (case p of None \<Rightarrow> (-1, None) | Some b \<Rightarrow> (0, Some b), cli\<lparr>binded_clients := t\<rparr>))"

definition turn_client_unbind :: "turn_client \<Rightarrow> u32 \<Rightarrow> fault + int \<times> turn_client" where
  "turn_client_unbind cli hsh =
     bind_fault (prot_table_remove (binded_clients cli) hsh) (\<lambda>(_, t).
     Inr (0, cli\<lparr>binded_clients := t\<rparr>))"

text \<open>
  The packet is in host order here, and \<open>protopack_send\<close> and the size of the request read
  the converted fields as they are.
\<close>

definition turn_client_wrap ::
  "turn_client \<Rightarrow> protopack \<Rightarrow> fault + (int \<times> protopack option) \<times> turn_client" where
  "turn_client_wrap cli pack =
     bind_fault (prot_table_get (binded_clients cli) (turn_pair_hash (turn_sUID cli) (h_to pack)))
     (\<lambda>(p, t).
       let cli = cli\<lparr>binded_clients := t\<rparr> in
       case p of
         None \<Rightarrow> Inr ((-1, None), cli)
       | Some bpeer \<Rightarrow>
           bind_fault (protopack_send (Some pack)) (\<lambda>b.
           let buf = (case b of None \<Rightarrow> [] | Some bs \<Rightarrow> bs) in
           bind_fault (turn_req_make TURN_DATA_MSG (li_addr (linfo_connected bpeer)) (h_to pack) 0
             (buf @ zeros (2048 - length buf)) (length buf)) (\<lambda>req.
           Inr ((0, udp_make_pack 0 (turn_sUID cli) (h_to pack) PACK_TURN (Some (req_bytes req))
                      (TURN_REQUEST_SIZE + unat (tr_d_size req))), cli))))"

definition turn_client_unwrap ::
  "turn_client \<Rightarrow> protopack \<Rightarrow> fault + (int \<times> protopack option) \<times> turn_client" where
  "turn_client_unwrap cli pack =
     bind_fault (prot_table_get (binded_clients cli) (turn_pair_hash (turn_sUID cli) (h_to pack)))
     (\<lambda>(p, t).
       let cli = cli\<lparr>binded_clients := t\<rparr> in
       case p of
         None \<Rightarrow> Inr ((-1, None), cli)
       | Some _ \<Rightarrow>
           bind_fault (turn_req_recv (Some (data pack)) (unat (d_size pack))) (\<lambda>req.
           case req of
             None \<Rightarrow> Inr ((-1, None), cli)
           | Some r \<Rightarrow>
               (case fst (protopack_recv (tr_data r)) of
                  None \<Rightarrow> Inr ((-1, None), cli)
                | Some out \<Rightarrow> Inr ((0, Some out), cli))))"

text \<open>Only the fixed part of the request is sent.\<close>

definition turn_client_qsend :: "lib6 \<Rightarrow> turn_client \<Rightarrow> turn_request \<Rightarrow> fault + int \<times> turn_client" where
  "turn_client_qsend lib cli req =
     (let nfd = ln_netfdq lib (tr_to_whom req);
          pkt = udp_make_pack 0 (turn_sUID cli) 0 PACK_TURN (Some (req_bytes req)) TURN_REQUEST_SIZE in
      bind_fault (pvd_sender_send (tc_sender cli) pkt nfd) (\<lambda>(_, s).
      Inr (0, cli\<lparr>tc_sender := s\<rparr>)))"

definition turn_client_req_sys ::
  "naddr_t \<Rightarrow> u32 \<Rightarrow> u32 \<Rightarrow> u32 \<Rightarrow> bytes option \<Rightarrow> fault + turn_request" where
  "turn_client_req_sys to_whom to_UID truid status commentary =
     (let dat = le32 (ntohl truid) @ le32 status @
                (case commentary of None \<Rightarrow> [] | Some c \<Rightarrow> c) in
      turn_req_make TURN_SYSTEM_MSG to_whom to_UID truid dat (length dat))"

text \<open>
  The two \<open>memcpy\<close> calls have their arguments swapped: they store the caller's values into
  the request. The result is the return code, the request, the commentary and the client.
\<close>

definition turn_client_unwrap_sys ::
  "turn_client \<Rightarrow> turn_request \<Rightarrow> u32 \<Rightarrow> u32 \<Rightarrow>
   fault + (int \<times> turn_request \<times> bytes option) \<times> turn_client" where
  "turn_client_unwrap_sys cli request status truid =
     (if unat (tr_d_size request) < 4 + 8 then Inr ((-1, request, None), cli)
      else if length (tr_data request) < 8 then Inl OutOfBounds
      else
        let request = request\<lparr>tr_data := le32 truid @ le32 status @ drop 8 (tr_data request)\<rparr> in
        if truid \<noteq> TURN_SST_FAIL \<and> truid \<noteq> TURN_SST_OK then Inr ((-1, request, None), cli)
        else if 8 < unat (tr_d_size request) \<and>
                TURN_COMMENTARY_MAX_SIZE < unat (tr_d_size request) - 8 then Inr ((0, request, None), cli)
        else if length (tr_data request) < unat (tr_d_size request) then Inl OutOfBounds
        else
          let commentary = (if 8 < unat (tr_d_size request)
                then Some (take (unat (tr_d_size request) - 8) (drop 8 (tr_data request))) else None) in
          bind_fault (prot_table_set True True True (sys_requests cli) truid status) (\<lambda>(_, t).
          Inr ((0, request, commentary),
               cli\<lparr>sys_requests := t, sys_ev := mt_evsock_notify (sys_ev cli)\<rparr>)))"

definition li_bytes :: "light_peer_info \<Rightarrow> bytes" where
  "li_bytes l = le32 (li_UID l) @ li_server l @ li_addr l @ li_pubkey l"

definition turn_client_req_bind ::
  "turn_client \<Rightarrow> turn_bind_peer \<Rightarrow> fault + (int \<times> protopack option \<times> u32) \<times> turn_client" where
  "turn_client_req_bind cli bind_to =
     (let l = linfo_connected bind_to in
      bind_fault (turn_req_make TURN_OPEN_HOLE (li_addr l) (li_UID l) (tc_TRUID cli) (li_bytes l) 140)
      (\<lambda>req.
        let out = udp_make_pack 0 (turn_sUID cli) 0 PACK_TURN (Some (req_bytes req)) TURN_REQUEST_SIZE;
            truid = tc_TRUID cli in
        bind_fault (prot_table_set True True True (sys_requests cli) truid TURN_SST_SENT) (\<lambda>(_, t).
        Inr ((0, out, truid), cli\<lparr>tc_TRUID := truid + 1, sys_requests := t\<rparr>))))"

definition turn_client_req_unbind ::
  "turn_client \<Rightarrow> turn_bind_peer \<Rightarrow> fault + (int \<times> protopack option \<times> u32) \<times> turn_client" where
  "turn_client_req_unbind cli close_with =
     (let l = linfo_connected close_with in
      bind_fault (turn_req_make TURN_CLOSE_HOLE (li_addr l) (li_UID l) (tc_TRUID cli) [] 0)
      (\<lambda>req.
        let out = udp_make_pack 0 (turn_sUID cli) 0 PACK_TURN (Some (req_bytes req)) TURN_REQUEST_SIZE;
            truid = tc_TRUID cli in
        bind_fault (prot_table_set True True True (sys_requests cli) truid TURN_SST_SENT) (\<lambda>(_, t).
        Inr ((0, out, truid), cli\<lparr>tc_TRUID := truid + 1, sys_requests := t\<rparr>))))"

text \<open>
  The waiting loop over the rounds that happen: what the event wait returned, the client as
  the other threads left it, and the clock after the test. \<open>None\<close>: it still waits.
\<close>

fun turn_client_req_wait ::
  "(int \<times> turn_client \<times> int) list \<Rightarrow> int \<Rightarrow> u32 \<Rightarrow> int \<Rightarrow> u32 \<Rightarrow> fault + int option" where
  "turn_client_req_wait [] start_ms truid timeout_ms status = Inr None"
| "turn_client_req_wait ((r, cli, now_ms) # rounds) start_ms truid timeout_ms status =
     (if r < 0 then Inr (Some r)
      else bind_fault (if 0 < r then
             bind_fault (prot_table_get (sys_requests cli) truid) (\<lambda>(st, _). Inr (st = Some status))
           else Inr False) (\<lambda>found.
        if found then Inr (Some r)
        else if timeout_ms = -1 then turn_client_req_wait rounds start_ms truid timeout_ms status
        else if timeout_ms \<le> now_ms - start_ms then Inr (Some 0)
        else turn_client_req_wait rounds start_ms truid timeout_ms status))"

subsection \<open>The hash of a pair\<close>

lemma drop_block: "drop (4 + m) (a # b # c # d # key) = drop m key"
proof -
  have "drop (4 + m) (a # b # c # d # key) = drop m (drop 4 (a # b # c # d # key))" by (simp only: drop_drop add.commute [of m 4])
  then show ?thesis by simp
qed

lemma murmur_blocks_shift:
  "turn_murmur_blocks (a # b # c # d # key) (Suc i) n h = turn_murmur_blocks key i n h"
  by (induction n arbitrary: i h) (simp_all add: Let_def drop_block del: of_le32.simps)

lemma turn_murmur_tail_eq:
  "turn_murmur_tail [] 0 h = murmur_tail [] h" "turn_murmur_tail [a] 1 h = murmur_tail [a] h"
  "turn_murmur_tail [a, b] 2 h = murmur_tail [a, b] h" "turn_murmur_tail [a, b, c] 3 h = murmur_tail [a, b, c] h"
  by (simp_all add: turn_murmur_tail_def murmur_tail_def murmur_scramble_def rotl32_def Let_def xor.assoc)

lemma murmur_copy:
  "turn_murmur_tail (drop (length key div 4 * 4) key) (length key mod 4) (turn_murmur_blocks key 0 (length key div 4) h) =
   murmur_body key h"
proof (induction key h rule: murmur_body.induct)
  case (1 a b c d rest h)
  have "length (a # b # c # d # rest) div 4 = Suc (length rest div 4)" "length (a # b # c # d # rest) mod 4 = length rest mod 4"
    by simp_all
  moreover have "of_le32 (a # b # c # d # rest) = of_le32 [a, b, c, d]" by simp
  ultimately show ?case using 1
    by (simp add: drop_block murmur_blocks_shift murmur_block_def murmur_scramble_def rotl32_def Let_def del: of_le32.simps)
qed (simp_all add: turn_murmur_tail_eq [simplified] turn_murmur_tail_eq [simplified numeral_2_eq_2 numeral_3_eq_3])

lemma turn_murmur_eq: "turn_murmurhash3_32 = murmurhash3_32"
  by (intro ext) (simp add: turn_murmurhash3_32_def murmurhash3_32_def murmur_fmix_def murmur_copy Let_def)

lemma turn_pair_hash_alt:
  "turn_pair_hash a b = murmur_fmix (murmur_block (murmur_block 0xEAFE a) b XOR 8)"
proof -
  obtain a0 a1 a2 a3 where a: "le32 a = [a0, a1, a2, a3]" by (simp add: le32_def)
  obtain b0 b1 b2 b3 where b: "le32 b = [b0, b1, b2, b3]" by (simp add: le32_def)
  have "murmur_body (le32 a @ le32 b) h = murmur_block (murmur_block h a) b" for h
    using of_le32_le32(2) [of a] of_le32_le32(2) [of b]
    by (simp add: a b murmur_tail_def del: of_le32.simps)
  then show ?thesis by (simp add: turn_pair_hash_def turn_murmur_eq murmurhash3_32_def)
qed

subsection \<open>Byte order\<close>

lemma small_high_bytes:
  fixes w :: u32
  assumes "unat w < 65536"
  shows "ucast (drop_bit 16 w) = (0 :: u8)" "ucast (drop_bit 24 w) = (0 :: u8)"
proof -
  have "unat (drop_bit 16 w) = 0"
    using assms by (simp add: drop_bit_eq_div unat_div_distrib)
  then have d: "drop_bit 16 w = 0" by (simp add: unat_eq_zero)
  moreover have "drop_bit 24 w = drop_bit 8 (drop_bit 16 w)" by simp
  ultimately show "ucast (drop_bit 16 w) = (0 :: u8)" "ucast (drop_bit 24 w) = (0 :: u8)"
    by (simp, metis (no_types) drop_bit_of_0 unsigned_0)
qed

text \<open>A small number in the wrong byte order is large.\<close>

lemma htonl_large:
  assumes "w \<noteq> 0" and "unat w < 65536"
  shows "65536 \<le> unat (htonl w)"
proof (rule ccontr)
  assume "\<not> 65536 \<le> unat (htonl w)"
  then have "le32 (htonl w) = [ucast (htonl w), ucast (drop_bit 8 (htonl w)), 0, 0]"
    by (simp add: le32_def small_high_bytes)
  moreover have "le32 w = [ucast w, ucast (drop_bit 8 w), 0, 0]"
    using assms(2) by (simp add: le32_def small_high_bytes)
  ultimately have "le32 w = le32 0"
    using le32_htonl [of w] by (simp add: le32_def)
  with assms(1) show False by simp
qed

subsection \<open>The client's tables\<close>

definition bound :: "turn_client \<Rightarrow> u32 \<Rightarrow> turn_bind_peer option" where
  "bound cli = dyn_table_get (obj (binded_clients cli))"

definition turn_wf :: "turn_client \<Rightarrow> bool" where
  "turn_wf cli \<longleftrightarrow>
     \<not> mtx (binded_clients cli) \<and> dt_wf (obj (binded_clients cli)) \<and>
     \<not> mtx (sys_requests cli) \<and> dt_wf (obj (sys_requests cli))"

lemma binded_same: "turn_wf cli \<Longrightarrow> cli\<lparr>binded_clients := \<lparr>mtx = False, obj = obj (binded_clients cli)\<rparr>\<rparr> = cli"
  by (cases cli; cases "binded_clients cli") (simp add: turn_wf_def)

lemma bound_get:
  "turn_wf cli \<Longrightarrow> prot_table_get (binded_clients cli) k =
     Inr (bound cli k, \<lparr>mtx = False, obj = obj (binded_clients cli)\<rparr>)"
  by (simp add: prot_table_get_def with_mutex_free turn_wf_def bound_def)

lemma turn_check_pair_ok:
  "turn_wf cli \<Longrightarrow> turn_check_pair cli a b = Inr (bound cli (turn_pair_hash a b) \<noteq> None, cli)"
  by (simp add: turn_check_pair_def bound_get binded_same)

lemma turn_client_info_ok:
  "turn_wf cli \<Longrightarrow> turn_client_info cli k =
     Inr (case bound cli k of None \<Rightarrow> (-1, None) | Some b \<Rightarrow> (0, Some b), cli)"
  by (simp add: turn_client_info_def bound_get binded_same)

lemma turn_client_bind_ok:
  assumes "turn_wf cli"
  obtains cli' where "turn_client_bind cli k b = Inr (0, cli')" "turn_wf cli'"
    "bound cli' = (bound cli)(k \<mapsto> b)" "turn_sUID cli' = turn_sUID cli"
proof
  let ?t = "\<lparr>mtx = False, obj = table_set (obj (binded_clients cli)) k b\<rparr>"
  show "turn_client_bind cli k b = Inr (0, cli\<lparr>binded_clients := ?t\<rparr>)"
    using assms by (simp add: turn_client_bind_def prot_table_set_def with_mutex_free turn_wf_def split_beta)
  show "turn_wf (cli\<lparr>binded_clients := ?t\<rparr>)"
    using assms by (simp add: turn_wf_def dt_wf_set)
  show "bound (cli\<lparr>binded_clients := ?t\<rparr>) = (bound cli)(k \<mapsto> b)"
    by (rule ext) (simp add: bound_def get_set)
qed simp

lemma turn_client_unbind_ok:
  assumes "turn_wf cli"
  obtains cli' where "turn_client_unbind cli k = Inr (0, cli')" "turn_wf cli'"
    "bound cli' = (bound cli)(k := None)" "turn_sUID cli' = turn_sUID cli"
proof
  let ?t = "\<lparr>mtx = False, obj = table_remove (obj (binded_clients cli)) k\<rparr>"
  show "turn_client_unbind cli k = Inr (0, cli\<lparr>binded_clients := ?t\<rparr>)"
    using assms by (simp add: turn_client_unbind_def prot_table_remove_def with_mutex_free turn_wf_def split_beta)
  show "turn_wf (cli\<lparr>binded_clients := ?t\<rparr>)"
    using assms by (simp add: turn_wf_def dt_wf_remove)
  show "bound (cli\<lparr>binded_clients := ?t\<rparr>) = (bound cli)(k := None)"
    using assms by (intro ext) (simp add: bound_def get_remove turn_wf_def)
qed simp

lemma turn_init_wf:
  "turn_wf (snd (turn_client_init rnd uid s))" "turn_sUID (snd (turn_client_init rnd uid s)) = uid"
  by (simp_all add: turn_client_init_def turn_wf_def prot_table_create_def)

subsection \<open>Requests in memory\<close>

text \<open>The address of an IPv4 request ends in zeros after the port: the rest of the union and the type.\<close>

lemma na4_zeros: "length ip < 16 \<Longrightarrow> drop 18 (na4 ip port) = zeros 34"
  by (simp add: na4_def ln_make4_def zeros_def nADDR_IPV4_def le32_def replicate_add [symmetric, of _ 4 30]
      numeral_eq_Suc)

lemma drop_zeros: "drop n (zeros m) = zeros (m - n)"
  by (simp add: zeros_def)

lemma of_le32_zeros: "4 \<le> n \<Longrightarrow> of_le32 (zeros n @ xs) = 0"
proof -
  assume "4 \<le> n"
  then obtain m where "n = Suc (Suc (Suc (Suc m)))" by (auto simp: numeral_eq_Suc le_eq_less_or_eq dest!: less_imp_Suc_add)
  then show ?thesis by (simp add: zeros_def)
qed

lemma drop_req_bytes:
  assumes "length (tr_to_whom r) = 52" and "12 \<le> n" and "n \<le> 64"
  shows "drop n (req_bytes r) = drop (n - 12) (tr_to_whom r) @ le32 (tr_d_size r) @ tr_data r"
  using assms by (simp add: req_bytes_def)

lemma req_fields_shifted:
  assumes "tr_to_whom r = na4 ip port" and "length ip < 16" and "0 \<notin> set ip"
  shows "of_le32 (drop 52 (req_bytes r)) = 0" "of_le32 (drop 56 (req_bytes r)) = 0"
    and "of_le32 (drop 60 (req_bytes r)) = 0" "of_le32 (drop 64 (req_bytes r)) = tr_d_size r"
    and "length (req_bytes r) = TURN_REQUEST_SIZE + length (tr_data r)"
proof -
  have l: "length (tr_to_whom r) = 52" using assms by (simp add: na4_fields)
  have z: "drop (n - 12) (tr_to_whom r) = zeros (64 - n)" if "30 \<le> n" for n
  proof -
    have "drop (n - 12) (tr_to_whom r) = drop (n - 30) (drop 18 (tr_to_whom r))"
      using that by simp
    also have "\<dots> = zeros (64 - n)"
      using that by (simp only: assms(1) na4_zeros [OF assms(2)] drop_zeros) simp
    finally show ?thesis .
  qed
  show "of_le32 (drop 52 (req_bytes r)) = 0" "of_le32 (drop 56 (req_bytes r)) = 0"
    "of_le32 (drop 60 (req_bytes r)) = 0"
    using z [of 52] z [of 56] z [of 60] by (simp_all add: drop_req_bytes [OF l] of_le32_zeros)
  show "of_le32 (drop 64 (req_bytes r)) = tr_d_size r"
    by (simp add: drop_req_bytes [OF l] l del: of_le32.simps)
  show "length (req_bytes r) = TURN_REQUEST_SIZE + length (tr_data r)"
    by (simp add: req_bytes_def l TURN_REQUEST_SIZE_def)
qed

subsection \<open>Properties\<close>

text \<open>
  The identifier of a pair of UIDs determines either UID once the other one is known: a
  server never confuses two peers bound with the same partner.
\<close>

theorem turn_pair_hash_determines:
  "(turn_pair_hash a b = turn_pair_hash a c \<longleftrightarrow> b = c) \<and>
   (turn_pair_hash a c = turn_pair_hash b c \<longleftrightarrow> a = b)"
  by (simp add: turn_pair_hash_alt xor_cancel)

text \<open>
  A request that was made for an IPv4 address is not read back by the peer: with a
  payload it is dropped as malformed, and without one it reads as a request to open a hole
  for UID 0, whatever its type was, because reader and struct disagree on the field order.
\<close>

theorem turn_request_not_received:
  assumes "length ip < 16" and "0 \<notin> set ip" and "length dat < 2 ^ 32"
  shows "\<exists>r. turn_req_make type (na4 ip port) to_UID truid dat (length dat) = Inr r \<and>
    (dat \<noteq> [] \<longrightarrow> turn_req_recv (Some (req_bytes r)) (length (req_bytes r)) = Inr None) \<and>
    (dat = [] \<longrightarrow> (\<exists>q. turn_req_recv (Some (req_bytes r)) (length (req_bytes r)) = Inr (Some q) \<and>
       tr_type q = rtype_code TURN_OPEN_HOLE \<and> tr_to_UID q = 0 \<and> tr_TRUID q = 0))"
proof -
  define r where "r = \<lparr>tr_type = rtype_code type, tr_to_UID = htonl to_UID, tr_TRUID = htonl truid,
    tr_to_whom = na4 ip (htons port), tr_d_size = htonl (of_nat (length dat)), tr_data = dat\<rparr>"
  have make: "turn_req_make type (na4 ip port) to_UID truid dat (length dat) = Inr r"
    by (simp add: turn_req_make_def ln_hton_na4 [OF assms(1,2)] r_def)
  have r: "tr_to_whom r = na4 ip (htons port)" "tr_d_size r = htonl (of_nat (length dat))" "tr_data r = dat"
    by (simp_all add: r_def)
  note f = req_fields_shifted [OF r(1) assms(1,2)]
  have h0: "htonl 0 = 0" by (simp add: htonl_def le32_def)
  have "turn_req_recv (Some (req_bytes r)) (length (req_bytes r)) =
      Inr (if dat = [] then Some \<lparr>tr_type = 0, tr_to_UID = 0, tr_TRUID = 0,
             tr_to_whom = take 52 (req_bytes r), tr_d_size = 0, tr_data = []\<rparr> else None)"
    by (simp add: turn_req_recv_def Let_def f r h0 del: of_le32.simps)
  with make show ?thesis by (intro exI [of _ r]) simp
qed

theorem turn_request_not_received_witness:
  "\<exists>r q. turn_req_make TURN_CLOSE_HOLE (na4 [49, 46, 49] 9000) 77 5 [] 0 = Inr r \<and>
     turn_req_recv (Some (req_bytes r)) (length (req_bytes r)) = Inr (Some q) \<and>
     tr_type q = rtype_code TURN_OPEN_HOLE"
  using turn_request_not_received [of "[49, 46, 49]" "[]" TURN_CLOSE_HOLE 9000 77 5] by auto

text \<open>
  Wrapping a packet for a bound peer never gives a packet to send: the sizes are read
  in the wrong byte order, so that a packet with a payload makes the code copy past its
  buffers and one without is refused as too large.
\<close>

theorem turn_wrap_never:
  assumes "turn_wf cli" and "bound cli (turn_pair_hash (turn_sUID cli) (h_to p)) = Some bpeer"
    and "unat (d_size p) < 65536"
  shows "case turn_client_wrap cli p of
      Inl e \<Rightarrow> e = OutOfBounds
    | Inr ((r, out), _) \<Rightarrow> d_size p = 0 \<and> r = 0 \<and> out = None"
proof (cases "d_size p = 0")
  case False
  then have "65536 \<le> unat (htonl (d_size p))" by (rule htonl_large [OF _ assms(3)])
  then have "protopack_send (Some p) = Inl OutOfBounds" by (simp add: protopack_send_def Let_def)
  then show ?thesis using assms(1,2) by (simp add: turn_client_wrap_def bound_get)
next
  case True
  have "htonl 0 = 0" by (simp add: htonl_def le32_def)
  then have send: "protopack_send (Some p) = Inr (Some (take 21 (pack_bytes p)))"
    using True by (simp add: protopack_send_def PROTOCOL_OVERHEAD_def)
  have l: "min (PROTOCOL_OVERHEAD + length (data p)) 21 = 21" by (simp add: PROTOCOL_OVERHEAD_def)
  have big: "65536 \<le> unat (htonl 21)" by (rule htonl_large) simp_all
  show ?thesis
  proof (cases "ln_hton (li_addr (linfo_connected bpeer))")
    case (Inl e)
    then have "e = OutOfBounds"
      by (auto simp: ln_hton_def ln_ipv4_def ln_ipv6_def split: if_splits)
    with Inl show ?thesis using assms(1,2)
      by (simp add: turn_client_wrap_def bound_get send turn_req_make_def)
  next
    case (Inr a)
    then show ?thesis using assms(1,2) True big
      by (simp add: turn_client_wrap_def bound_get send turn_req_make_def Let_def l udp_make_pack_def UDP_MTU_def)
  qed
qed

definition demo_bind :: turn_bind_peer where
  "demo_bind = \<lparr>linfo_origin = \<lparr>li_UID = 7, li_server = zeros 52, li_addr = na4 [] 0, li_pubkey = zeros 32\<rparr>,
     linfo_connected = \<lparr>li_UID = 9, li_server = zeros 52, li_addr = na4 [] 0, li_pubkey = zeros 32\<rparr>\<rparr>"

definition demo_turn :: turn_client where
  "demo_turn = (case turn_client_bind (snd (turn_client_init 3 7 (snd pvd_sender_new)))
       (turn_pair_hash 7 (h_to demo_pack)) demo_bind of
     Inr (_, cli) \<Rightarrow> cli | Inl _ \<Rightarrow> snd (turn_client_init 3 7 (snd pvd_sender_new)))"

lemma demo_turn_wf:
  "turn_wf demo_turn" "turn_sUID demo_turn = 7" "bound demo_turn (turn_pair_hash 7 (h_to demo_pack)) = Some demo_bind"
proof -
  let ?s = "snd (turn_client_init 3 7 (snd pvd_sender_new))"
  obtain cli where "turn_client_bind ?s (turn_pair_hash 7 (h_to demo_pack)) demo_bind = Inr (0, cli)"
    "turn_wf cli" "bound cli = (bound ?s)(turn_pair_hash 7 (h_to demo_pack) \<mapsto> demo_bind)"
    "turn_sUID cli = turn_sUID ?s"
    by (rule turn_client_bind_ok [OF turn_init_wf(1)])
  then show "turn_wf demo_turn" "turn_sUID demo_turn = 7"
    "bound demo_turn (turn_pair_hash 7 (h_to demo_pack)) = Some demo_bind"
    by (simp_all add: demo_turn_def turn_init_wf)
qed

theorem turn_wrap_never_witness:
  "case turn_client_wrap demo_turn demo_pack of
      Inl e \<Rightarrow> e = OutOfBounds
    | Inr ((r, out), _) \<Rightarrow> d_size demo_pack = 0 \<and> r = 0 \<and> out = None"
  by (rule turn_wrap_never [OF demo_turn_wf(1), of demo_pack demo_bind])
    (simp only: demo_turn_wf, simp add: demo_pack_def)

text \<open>
  The answer to a TURN request goes to the wrong port: the address of an answer is
  already in network order when it is converted once more.
\<close>

theorem turn_answer_port_swapped:
  assumes "length ip = 4"
    and "turn_client_req_sys (na4 (inet_ntop4 ip) port) to_UID truid status c = Inr r"
  shows "ss_port (fd_addr (ln_netfdq lib (tr_to_whom r))) = port \<and>
    ss_port (fd_addr (ln_netfdq lib (na4 (inet_ntop4 ip) port))) = htons port"
proof -
  have l: "length (inet_ntop4 ip) < 16" using length_inet_ntop4 [of ip] by simp
  note f = na4_fields [OF l inet_ntop4_nonzero]
  have r: "tr_to_whom r = na4 (inet_ntop4 ip) (htons port)"
    using assms(2) by (auto simp: turn_client_req_sys_def turn_req_make_def ln_hton_na4 [OF l inet_ntop4_nonzero]
        Let_def split: if_splits)
  show ?thesis
    by (simp add: r ln_netfdq_def ln_netfd_def f(2-4) inet_pton4_ntop4 assms(1))
qed

theorem turn_answer_port_swapped_witness:
  "\<exists>r. turn_client_req_sys (na4 (inet_ntop4 [10, 0, 0, 7]) 9000) 7 1 TURN_SST_OK None = Inr r \<and>
     ss_port (fd_addr (ln_netfdq demo_lib6 (tr_to_whom r))) = 9000"
proof -
  have l: "length (inet_ntop4 [10, 0, 0, 7]) < 16" using length_inet_ntop4 [of "[10, 0, 0, 7]"] by simp
  obtain r where "turn_client_req_sys (na4 (inet_ntop4 [10, 0, 0, 7]) 9000) 7 1 TURN_SST_OK None = Inr r"
    by (simp add: turn_client_req_sys_def turn_req_make_def ln_hton_na4 [OF l inet_ntop4_nonzero]
        del: inet_ntop4.simps)
  with turn_answer_port_swapped [OF _ this, of demo_lib6] show ?thesis
    by (intro exI [of _ r]) (simp del: inet_ntop4.simps)
qed

text \<open>
  Reading a system message never looks at what the server answered: whatever the
  request carries, the status filed is the one the caller passed in.
\<close>

theorem turn_unwrap_sys_blind:
  assumes "turn_wf cli" and "turn_client_unwrap_sys cli request status truid = Inr ((rc, request', c), cli')"
  shows "dyn_table_get (obj (sys_requests cli')) = dyn_table_get (obj (sys_requests cli)) \<or>
    dyn_table_get (obj (sys_requests cli')) = (dyn_table_get (obj (sys_requests cli)))(truid \<mapsto> status)"
proof -
  have s: "prot_table_set True True True (sys_requests cli) truid status =
      Inr (fst (dyn_table_set True True True (obj (sys_requests cli)) truid status),
           \<lparr>mtx = False, obj = table_set (obj (sys_requests cli)) truid status\<rparr>)"
    using assms(1) by (simp add: turn_wf_def prot_table_set_def with_mutex_free split_beta)
  have "dyn_table_get (table_set (obj (sys_requests cli)) truid status) =
      (dyn_table_get (obj (sys_requests cli)))(truid \<mapsto> status)"
    by (rule ext) (simp add: get_set)
  then show ?thesis
    using assms(2) by (auto simp: turn_client_unwrap_sys_def Let_def s split: if_splits)
qed

end
