(* ===== verification/Stating.thy ===== *)
theory Stating
  imports Crypto Lownet Prot_Queue Events
begin

text \<open>
  \<open>stating/src\<close>: the signed requests with which peers announce themselves to a state server,
  and the queue of the answers. A \<open>state_request\<close> is its fields as they are in memory, in
  network order when it is sent and in host order after \<open>state_rreceive\<close>. The random nonce
  and the clock are arguments.

  The lemmas: what one peer signs another one accepts, with the values that were announced,
  and nothing is accepted that its key did not sign.
\<close>

record state_request =
  sr_addr :: naddr_t
  sr_uid :: u32
  sr_pubkey :: bytes
  sr_signature :: bytes
  sr_type :: u32
  sr_nonce :: u32
  sr_timestamp :: u64

record state_system =
  new_state_ans :: "(state_request \<times> naddr_t) prot_queue"
  new_state_fd :: mt_eventsock

definition STATE_REQUEST_SIZE :: nat where
  "STATE_REQUEST_SIZE = 168"

definition REQUEST_PEERS :: u32 where
  "REQUEST_PEERS = 0"

definition htonll :: "u64 \<Rightarrow> u64" where
  "htonll x = ucast (htonl (ucast (drop_bit 32 x))) OR push_bit 32 (ucast (htonl (ucast x)))"

abbreviation "ntohll \<equiv> htonll"

text \<open>The memory image of the packed struct.\<close>

definition state_bytes :: "state_request \<Rightarrow> bytes" where
  "state_bytes r =
     sr_addr r @ le32 (sr_uid r) @ sr_pubkey r @ sr_signature r @ le32 (sr_type r) @
     le32 (sr_nonce r) @ le64 (sr_timestamp r)"

definition state_of_bytes :: "bytes \<Rightarrow> state_request" where
  "state_of_bytes bs =
     \<lparr>sr_addr = take 52 bs, sr_uid = of_le32 (drop 52 bs), sr_pubkey = take 32 (drop 56 bs),
      sr_signature = take 64 (drop 88 bs), sr_type = of_le32 (drop 152 bs),
      sr_nonce = of_le32 (drop 156 bs), sr_timestamp = of_le64 (drop 160 bs)\<rparr>"

text \<open>What is signed.\<close>

definition sign_buff :: "state_request \<Rightarrow> bytes" where
  "sign_buff r =
     le32 (sr_nonce r) @ sr_addr r @ le32 (sr_uid r) @ le32 (sr_type r) @ le64 (sr_timestamp r) @
     sr_pubkey r"

definition state_rcreate ::
  "sodium \<Rightarrow> u32 \<Rightarrow> int \<Rightarrow> naddr_t \<Rightarrow> u32 \<Rightarrow> u32 \<Rightarrow> sign \<Rightarrow> fault + state_request" where
  "state_rcreate so rnd now addr uid type s =
     bind_fault (ln_hton addr) (\<lambda>a.
       let req = \<lparr>sr_addr = a, sr_uid = htonl uid, sr_pubkey = id_pub s, sr_signature = zeros 64,
                  sr_type = ucast (ucast type :: u8), sr_nonce = htonl rnd,
                  sr_timestamp = htonll (word_of_int now)\<rparr> in
       Inr (req\<lparr>sr_signature := sign_data so s (sign_buff req)\<rparr>))"

definition state_rreceive :: "sodium \<Rightarrow> bytes \<Rightarrow> fault + int \<times> state_request option" where
  "state_rreceive so dat =
     (if length dat < STATE_REQUEST_SIZE then Inl OutOfBounds
      else
        let req = state_of_bytes dat in
        if sign_verify so (sign_buff req) (sr_signature req) (sr_pubkey req) < 0 then Inr (-1, None)
        else bind_fault (ln_ntoh (sr_addr req)) (\<lambda>a.
          let req = req\<lparr>sr_addr := a, sr_uid := ntohl (sr_uid req), sr_nonce := ntohl (sr_nonce req),
                        sr_timestamp := ntohll (sr_timestamp req)\<rparr> in
          if \<not> crypto_pubkey_and_uid_check so (sr_pubkey req) (sr_uid req) then Inr (-1, None)
          else Inr (0, Some req)))"

definition state_retranslate :: "state_request \<Rightarrow> fault + state_request" where
  "state_retranslate req =
     bind_fault (ln_hton (sr_addr req)) (\<lambda>a.
     Inr (req\<lparr>sr_addr := a, sr_uid := htonl (sr_uid req), sr_nonce := htonl (sr_nonce req),
              sr_timestamp := htonll (sr_timestamp req)\<rparr>))"

subsection \<open>The queue of answers\<close>

text \<open>\<open>z\<close> fills the memory of the queue that holds no answer.\<close>

definition state_sys_init :: "state_request \<times> naddr_t \<Rightarrow> int \<times> state_system" where
  "state_sys_init z =
     (0, \<lparr>new_state_ans = snd (prot_queue_create True z 220), new_state_fd = snd mt_evsock_new\<rparr>)"

definition state_sys_end :: "state_system \<Rightarrow> state_system" where
  "state_sys_end sys =
     sys\<lparr>new_state_ans := prot_queue_end (new_state_ans sys),
         new_state_fd := mt_evsock_close (new_state_fd sys)\<rparr>"

definition state_sys_new_ans ::
  "state_request \<times> naddr_t \<Rightarrow> state_system \<Rightarrow> state_request \<Rightarrow> naddr_t \<Rightarrow> fault + int \<times> state_system"
  where
  "state_sys_new_ans z sys req server_from =
     bind_fault (prot_queue_upush z (new_state_ans sys) (req, server_from)) (\<lambda>(_, q).
     Inr (0, sys\<lparr>new_state_ans := q, new_state_fd := mt_evsock_notify (new_state_fd sys)\<rparr>))"

text \<open>\<open>junk\<close> is what the uninitialised local variable holds when the queue is empty.\<close>

definition state_sys_wait ::
  "state_request \<times> naddr_t \<Rightarrow> state_system \<Rightarrow>
   fault + (int \<times> (state_request \<times> naddr_t) option) \<times> state_system" where
  "state_sys_wait junk sys =
     (let (r, e) = mt_evsock_wait (new_state_fd sys); sys = sys\<lparr>new_state_fd := e\<rparr> in
      if r \<le> 0 then Inr ((r, None), sys)
      else
        let sys = sys\<lparr>new_state_fd := mt_evsock_drain (new_state_fd sys)\<rparr> in
        bind_fault (prot_queue_pop (new_state_ans sys)) (\<lambda>(p, q).
        Inr ((1, Some (case p of None \<Rightarrow> junk | Some sreq \<Rightarrow> sreq)), sys\<lparr>new_state_ans := q\<rparr>)))"

subsection \<open>Lemmas\<close>

lemma htonll_htonll [simp]: "htonll (htonll x) = x"
proof -
  have lo: "(ucast (ucast a OR push_bit 32 (ucast b :: u64) :: u64) :: u32) = a"
    and hi: "(ucast (drop_bit 32 (ucast a OR push_bit 32 (ucast b :: u64) :: u64)) :: u32) = b"
    for a b :: u32
    by (rule bit_word_eqI, auto simp: bit_simps dest: bit_imp_le_length)+
  show ?thesis by (simp only: htonll_def lo hi htonl_htonl split_u64)
qed

definition state_ok :: "state_request \<Rightarrow> bool" where
  "state_ok r \<longleftrightarrow> length (sr_addr r) = 52 \<and> length (sr_pubkey r) = 32 \<and> length (sr_signature r) = 64"

lemma state_of_state_bytes: "state_ok r \<Longrightarrow> state_of_bytes (state_bytes r @ rest) = r"
  by (simp add: state_ok_def state_bytes_def state_of_bytes_def del: of_le32.simps)

lemma length_state_bytes: "state_ok r \<Longrightarrow> length (state_bytes r) = STATE_REQUEST_SIZE"
  by (simp add: state_ok_def state_bytes_def STATE_REQUEST_SIZE_def)

text \<open>Everything but the signature is signed.\<close>

lemma sign_buff_inject:
  assumes "state_ok r" and "state_ok q" and "sign_buff r = sign_buff q"
  shows "r\<lparr>sr_signature := sr_signature q\<rparr> = q"
proof -
  have "le64 a = le64 b \<longleftrightarrow> a = b" for a b using of_le64_le64(2) by metis
  with assms show ?thesis
    by (cases r; cases q) (simp add: sign_buff_def state_ok_def)
qed

lemma state_ok_of_bytes: "STATE_REQUEST_SIZE \<le> length dat \<Longrightarrow> state_ok (state_of_bytes dat)"
  by (simp add: state_ok_def state_of_bytes_def STATE_REQUEST_SIZE_def)

text \<open>What the receiver makes of an accepted request.\<close>

lemma state_rreceive_accepts:
  assumes "state_rreceive so dat = Inr (rc, Some r)"
  defines "q \<equiv> state_of_bytes dat"
  shows "rc = 0 \<and> state_ok q \<and> so_verify so (sr_signature q) (sign_buff q) (sr_pubkey q) \<and>
    ln_ntoh (sr_addr q) = Inr (sr_addr r) \<and> sr_uid r = ntohl (sr_uid q) \<and> sr_nonce r = ntohl (sr_nonce q) \<and>
    sr_timestamp r = ntohll (sr_timestamp q) \<and> sr_pubkey r = sr_pubkey q \<and> sr_type r = sr_type q \<and>
    sr_uid r = crypto_pubkey_to_uid so (sr_pubkey r)"
  using assms state_ok_of_bytes [of dat]
  by (auto simp: state_rreceive_def sign_verify_def bind_fault_Inr_iff Let_def crypto_pubkey_and_uid_check_def
      split: if_splits)

subsection \<open>Properties\<close>

text \<open>
  A state server accepts the request that a peer created, when the UID is the one of
  its key, and reads the address, UID, key, nonce and time that the peer announced.
\<close>

theorem state_request_roundtrip:
  assumes "sodium_ok so" and "length ip < 16" and "0 \<notin> set ip"
    and "id_pub s = so_sign_pub so (id_sec s)" and "length (id_pub s) = 32"
    and "uid = crypto_pubkey_to_uid so (id_pub s)"
  shows "\<exists>req r. state_rcreate so rnd now (na4 ip port) uid REQUEST_PEERS s = Inr req \<and>
    state_rreceive so (state_bytes req) = Inr (0, Some r) \<and>
    sr_addr r = na4 ip port \<and> sr_uid r = uid \<and> sr_pubkey r = id_pub s \<and> sr_nonce r = rnd \<and>
    sr_timestamp r = word_of_int now \<and> sr_type r = REQUEST_PEERS"
proof -
  let ?q = "\<lparr>sr_addr = na4 ip (htons port), sr_uid = htonl uid, sr_pubkey = id_pub s,
     sr_signature = zeros 64, sr_type = 0, sr_nonce = htonl rnd, sr_timestamp = htonll (word_of_int now)\<rparr>"
  define req where "req = ?q\<lparr>sr_signature := sign_data so s (sign_buff ?q)\<rparr>"
  have mk: "state_rcreate so rnd now (na4 ip port) uid REQUEST_PEERS s = Inr req"
    by (simp add: state_rcreate_def ln_hton_na4 [OF assms(2,3)] req_def REQUEST_PEERS_def Let_def)
  have ok: "state_ok req"
    using assms(1,5) na4_fields(1) [OF assms(2,3)]
    by (simp add: state_ok_def req_def sign_data_def sodium_ok_def)
  have "sign_buff req = sign_buff ?q" by (simp add: req_def sign_buff_def)
  then have "so_verify so (sr_signature req) (sign_buff req) (sr_pubkey req)"
    using assms(1,4) by (simp add: req_def sign_data_def sodium_ok_def)
  moreover have "state_of_bytes (state_bytes req) = req"
    using state_of_state_bytes [OF ok, of "[]"] by simp
  ultimately have "state_rreceive so (state_bytes req) =
      Inr (0, Some (req\<lparr>sr_addr := na4 ip port, sr_uid := uid, sr_nonce := rnd,
        sr_timestamp := word_of_int now\<rparr>))"
    using assms(6) length_state_bytes [OF ok]
    by (simp add: state_rreceive_def sign_verify_def crypto_pubkey_and_uid_check_def Let_def)
      (simp add: req_def ln_hton_na4 [OF assms(2,3)])
  with mk show ?thesis by (simp add: req_def REQUEST_PEERS_def)
qed

definition demo_sign :: sign where
  "demo_sign = \<lparr>id_pub = replicate 32 3, id_sec = replicate 32 3\<rparr>"

theorem state_request_roundtrip_witness:
  "\<exists>req r. state_rcreate demo_sodium 99 1700000000 (na4 [49, 46, 50] 7000)
      (crypto_pubkey_to_uid demo_sodium (id_pub demo_sign)) REQUEST_PEERS demo_sign = Inr req \<and>
    state_rreceive demo_sodium (state_bytes req) = Inr (0, Some r) \<and> sr_addr r = na4 [49, 46, 50] 7000"
proof -
  have "id_pub demo_sign = so_sign_pub demo_sodium (id_sec demo_sign)" "length (id_pub demo_sign) = 32"
    by (simp_all add: demo_sign_def demo_sodium_def)
  from state_request_roundtrip [OF demo_sodium_ok _ _ this refl, of "[49, 46, 50]" 99 1700000000 7000]
  show ?thesis by auto
qed

definition demo_request :: state_request where
  "demo_request = \<lparr>sr_addr = na4 [] (htons 1), sr_uid = htonl 7, sr_pubkey = replicate 32 3,
     sr_signature = zeros 64, sr_type = 0, sr_nonce = 5, sr_timestamp = 9\<rparr>"

text \<open>
  C28: no forged announcement is accepted. The owner of a key signs the announcements \<open>made\<close> that it
  created and the handshake messages of \<open>e2ee\<close>, which have 36 bytes; that the signature carried by this
  datagram was not forged means that it verifies only if what it covers is one of these messages. Then the
  announcement that is accepted is one that the owner created, with its address, nonce, type and time, and
  with the UID of the key.
\<close>

theorem state_no_forgery:
  assumes "state_rreceive so dat = Inr (rc, Some r)" and "sr_pubkey r = id_pub s"
    and "\<And>q. q \<in> made \<Longrightarrow> \<exists>rnd now ip port uid type. length ip < 16 \<and> 0 \<notin> set ip \<and>
       state_rcreate so rnd now (na4 ip port) uid type s = Inr q"
    and "\<And>m. m \<in> handshakes \<Longrightarrow> length m = 36"
    and "so_verify so (sr_signature (state_of_bytes dat)) (sign_buff (state_of_bytes dat)) (id_pub s) \<Longrightarrow>
       sign_buff (state_of_bytes dat) \<in> sign_buff ` made \<union> handshakes"
    and "sodium_ok so" and "length (id_pub s) = 32"
  shows "rc = 0 \<and> sr_uid r = crypto_pubkey_to_uid so (id_pub s) \<and>
    (\<exists>q \<in> made. \<exists>rnd now ip port type. state_rcreate so rnd now (na4 ip port) (sr_uid r) type s = Inr q \<and>
       sr_addr r = na4 ip port \<and> sr_nonce r = rnd \<and> sr_timestamp r = word_of_int now \<and> sr_type r = sr_type q)"
proof -
  let ?p = "state_of_bytes dat"
  note a = state_rreceive_accepts [OF assms(1)]
  have "length (sign_buff ?p) = 104" using a assms(2,7) by (simp add: sign_buff_def state_ok_def)
  then have "sign_buff ?p \<notin> handshakes" using assms(4) by fastforce
  then obtain q where q: "q \<in> made" "sign_buff ?p = sign_buff q" using a assms(2,5) by auto
  obtain rnd now ip port uid type where c: "length ip < 16" "0 \<notin> set ip"
    "state_rcreate so rnd now (na4 ip port) uid type s = Inr q" using assms(3) [OF q(1)] by blast
  then have f: "sr_addr q = na4 ip (htons port)" "sr_uid q = htonl uid" "sr_nonce q = htonl rnd"
    "sr_timestamp q = htonll (word_of_int now)" "state_ok q"
    using assms(6,7) by (auto simp: state_rcreate_def ln_hton_na4 [OF c(1,2)] Let_def state_ok_def na4_fields [OF c(1,2)]
        sign_data_def sodium_ok_def)
  have "?p\<lparr>sr_signature := sr_signature q\<rparr> = q"
    using a f(5) q(2) sign_buff_inject by blast
  then have e: "sr_addr q = sr_addr ?p \<and> sr_uid q = sr_uid ?p \<and> sr_nonce q = sr_nonce ?p \<and>
      sr_timestamp q = sr_timestamp ?p \<and> sr_type q = sr_type ?p"
    by (metis state_request.ext_inject state_request.surjective state_request.update_convs(4))
  have p: "sr_addr ?p = na4 ip (htons port)" "sr_uid ?p = htonl uid" "sr_nonce ?p = htonl rnd"
    "sr_timestamp ?p = htonll (word_of_int now)" "sr_type ?p = sr_type q" using e f by simp_all
  have "ln_ntoh (sr_addr ?p) = Inr (sr_addr r)" "sr_uid r = ntohl (sr_uid ?p)" "sr_nonce r = ntohl (sr_nonce ?p)"
    "sr_timestamp r = ntohll (sr_timestamp ?p)" "sr_type r = sr_type ?p" using a by blast+
  then have "sr_addr r = na4 ip port" "sr_uid r = uid" "sr_nonce r = rnd" "sr_timestamp r = word_of_int now" "sr_type r = sr_type q"
    unfolding p by (simp_all add: ln_hton_na4(2) [OF c(1,2)])
  moreover from this(2) have "state_rcreate so rnd now (na4 ip port) (sr_uid r) type s = Inr q" using c(3) by simp
  ultimately have "\<exists>q \<in> made. \<exists>rnd now ip port type. state_rcreate so rnd now (na4 ip port) (sr_uid r) type s = Inr q \<and>
      sr_addr r = na4 ip port \<and> sr_nonce r = rnd \<and> sr_timestamp r = word_of_int now \<and> sr_type r = sr_type q"
    using q(1) by blast
  moreover have "rc = 0 \<and> sr_uid r = crypto_pubkey_to_uid so (id_pub s)" using a assms(2) by metis
  ultimately show ?thesis by blast
qed

theorem state_no_forgery_witness:
  "\<exists>q r. state_rcreate demo_sodium 99 1700000000 (na4 [49, 46, 50] 7000)
      (crypto_pubkey_to_uid demo_sodium (id_pub demo_sign)) REQUEST_PEERS demo_sign = Inr q \<and>
    state_rreceive demo_sodium (state_bytes q) = Inr (0, Some r) \<and>
    (\<exists>rnd now ip port type. sr_addr r = na4 ip port \<and>
       state_rcreate demo_sodium rnd now (na4 ip port) (sr_uid r) type demo_sign = Inr q)"
proof -
  have s: "id_pub demo_sign = so_sign_pub demo_sodium (id_sec demo_sign)" "length (id_pub demo_sign) = 32"
    by (simp_all add: demo_sign_def demo_sodium_def)
  obtain q r where q: "state_rcreate demo_sodium 99 1700000000 (na4 [49, 46, 50] 7000)
      (crypto_pubkey_to_uid demo_sodium (id_pub demo_sign)) REQUEST_PEERS demo_sign = Inr q"
    "state_rreceive demo_sodium (state_bytes q) = Inr (0, Some r)" "sr_pubkey r = id_pub demo_sign"
    using state_request_roundtrip [OF demo_sodium_ok _ _ s refl, of "[49, 46, 50]" 99 1700000000 7000] by auto
  have "state_ok q" using q(1) s(2) demo_sodium_ok
    by (auto simp: state_rcreate_def ln_hton_na4 Let_def state_ok_def na4_fields sign_data_def sodium_ok_def)
  then have "state_of_bytes (state_bytes q) = q" using state_of_state_bytes [of q "[]"] by simp
  moreover have "length [49, 46, 50 :: u8] < 16" "0 \<notin> set [49, 46, 50 :: u8]" by simp_all
  ultimately have "\<exists>q' \<in> {q}. \<exists>rnd now ip port type. state_rcreate demo_sodium rnd now (na4 ip port) (sr_uid r) type demo_sign = Inr q' \<and>
      sr_addr r = na4 ip port \<and> sr_nonce r = rnd \<and> sr_timestamp r = word_of_int now \<and> sr_type r = sr_type q'"
    using state_no_forgery [OF q(2,3) _ _ _ demo_sodium_ok s(2), of "{q}" "{replicate 36 0}"] q(1)
    by (metis UnI1 empty_iff image_eqI insert_iff length_replicate)
  then show ?thesis using q by blast
qed

end
