(* ===== verification/Handlers.thy ===== *)
theory Handlers
  imports Rudp_Disp Gossip Turn Stating
begin

text \<open>
  \<open>interface/src/handlers.c\<close>: what the node does with each type of packet that is not part of
  the reliable protocol. The handlers share the components through \<open>app_context\<close>. The packet
  sender, which several components point to, is kept in the dispatcher only, and is lent to
  the TURN client for a call (\<open>on_turn\<close>).

  \<open>env\<close> collects what a handler reads from outside: the IPv6 conversions, libsodium, the
  clocks (the one in seconds is read once for each announced peer), the unused memory of the
  queue of answers, and the values of two uninitialised variables.

  The lemmas: every handler keeps the invariant of the peer database, the state of a peer
  moves only along the edges of \<open>peer_edge\<close>, and only signed, fresh announcements of other
  peers are queued.
\<close>

record app_context =
  ac_p_db :: peers_db
  ac_g_syst :: gossip_system
  ac_rudp :: "nnet_fd rudp_dispatcher"
  ac_listener :: "nnet_fd pvd_listener"
  ac_turn :: turn_client
  ac_ssystem :: state_system
  ac_now_ms :: int

record env =
  e_lib :: lib6
  e_so :: sodium
  e_ms :: int
  e_secs :: "nat \<Rightarrow> int"
  e_fill :: "state_request \<times> naddr_t"
  e_status :: u32
  e_truid :: u32

type_synonym handler = "protopack \<Rightarrow> nnet_fd \<Rightarrow> app_context \<Rightarrow> fault + int \<times> app_context"

text \<open>Calls of the components on the context.\<close>

definition on_db :: "(peers_db \<Rightarrow> fault + 'r \<times> peers_db) \<Rightarrow> app_context \<Rightarrow> fault + 'r \<times> app_context" where
  "on_db f c = bind_fault (f (ac_p_db c)) (\<lambda>(r, db). Inr (r, c\<lparr>ac_p_db := db\<rparr>))"

definition on_sender ::
  "(nnet_fd pvd_sender \<Rightarrow> fault + 'r \<times> nnet_fd pvd_sender) \<Rightarrow> app_context \<Rightarrow> fault + 'r \<times> app_context" where
  "on_sender f c =
     bind_fault (f (d_sender (ac_rudp c))) (\<lambda>(r, s).
     Inr (r, c\<lparr>ac_rudp := (ac_rudp c)\<lparr>d_sender := s\<rparr>\<rparr>))"

definition on_turn :: "(turn_client \<Rightarrow> fault + 'r \<times> turn_client) \<Rightarrow> app_context \<Rightarrow> fault + 'r \<times> app_context" where
  "on_turn f c =
     bind_fault (f ((ac_turn c)\<lparr>tc_sender := d_sender (ac_rudp c)\<rparr>)) (\<lambda>(r, t).
     Inr (r, c\<lparr>ac_turn := t, ac_rudp := (ac_rudp c)\<lparr>d_sender := tc_sender t\<rparr>\<rparr>))"

definition send_pack :: "protopack option \<Rightarrow> nnet_fd \<Rightarrow> app_context \<Rightarrow> fault + int \<times> app_context" where
  "send_pack msg to = on_sender (\<lambda>s. pvd_sender_send s msg to)"

abbreviation ctx_uid :: "app_context \<Rightarrow> u32" where
  "ctx_uid c \<equiv> self_uid (ac_rudp c)"

definition LIGHT_PEER_INFO_SIZE :: nat where
  "LIGHT_PEER_INFO_SIZE = 140"

definition li_of_bytes :: "bytes \<Rightarrow> light_peer_info" where
  "li_of_bytes bs =
     \<lparr>li_UID = of_le32 bs, li_server = take 52 (drop 4 bs), li_addr = take 52 (drop 56 bs),
      li_pubkey = take 32 (drop 108 bs)\<rparr>"

text \<open>\<open>memcpy\<close> of a whole \<open>light_peer_info\<close> out of a buffer.\<close>

definition read_linfo :: "bytes \<Rightarrow> fault + light_peer_info" where
  "read_linfo bs =
     (if length bs < LIGHT_PEER_INFO_SIZE then Inl OutOfBounds else Inr (li_of_bytes bs))"

subsection \<open>Handshakes between peers\<close>

definition soter2_hnd_ACK :: handler where
  "soter2_hnd_ACK pck fd c =
     bind_fault (on_db (\<lambda>db. peers_db_get db (h_from pck)) c) (\<lambda>((_, found), c).
     case found of
       None \<Rightarrow> Inr (-1, c)
     | Some info \<Rightarrow>
         bind_fault (if pi_state info = PEER_ST_INITED
             then send_pack (proto_msg_quick (ctx_uid c) (pi_UID info) 0 PACK_ACK) (pi_nfd info) c
             else Inr (0, c)) (\<lambda>(_, c).
         bind_fault (on_db (\<lambda>db. peers_db_schange db (pi_UID info) PEER_ST_ACTIVE) c) (\<lambda>(_, c).
         Inr (0, c))))"

text \<open>The peer that a punch belongs to: a known one, or the one it introduces.\<close>

definition punch_peer ::
  "env \<Rightarrow> protopack \<Rightarrow> app_context \<Rightarrow> fault + peer_info option \<times> app_context" where
  "punch_peer e pck c =
     bind_fault (on_db (\<lambda>db. peers_db_get db (h_from pck)) c) (\<lambda>((_, found), c).
     case found of
       Some info \<Rightarrow> Inr (Some info, c)
     | None \<Rightarrow>
         if unat (d_size pck) \<noteq> LIGHT_PEER_INFO_SIZE then Inr (None, c)
         else
           bind_fault (read_linfo (data pck)) (\<lambda>linfo.
           let info = peers_db_reconstruct (e_lib e) (e_ms e) linfo in
           bind_fault (on_db (\<lambda>db. peers_db_add True True True db info) c) (\<lambda>(_, c).
           Inr (Some info, c))))"

definition soter2_hnd_PUNCH :: "env \<Rightarrow> handler" where
  "soter2_hnd_PUNCH e pck fd c =
     (if h_from pck = ctx_uid c then Inr (-1, c)
      else
        bind_fault (punch_peer e pck c) (\<lambda>(found, c).
        case found of
          None \<Rightarrow> Inr (-1, c)
        | Some info \<Rightarrow>
            bind_fault (on_db (\<lambda>db. peers_db_unfd db (pi_UID info) fd) c) (\<lambda>(_, c).
            if pi_state info \<noteq> PEER_ST_INITED \<and> pi_state info \<noteq> PEER_ST_NATPUNCHING then Inr (-1, c)
            else
              bind_fault (send_pack (proto_msg_quick (ctx_uid c) (pi_UID info) 0 PACK_ACK) fd c) (\<lambda>(_, c).
              if pi_state info = PEER_ST_NATPUNCHING then Inr (0, c)
              else
                bind_fault (on_db (\<lambda>db. peers_db_schange db (pi_UID info) PEER_ST_NATPUNCHING) c)
                  (\<lambda>(_, c). Inr (0, c))))))"

definition soter2_hnd_PING :: "env \<Rightarrow> handler" where
  "soter2_hnd_PING e pck fd c =
     bind_fault (send_pack (proto_msg_quick (ctx_uid c) (h_from pck) (seq pck) PACK_PONG) fd c) (\<lambda>(_, c).
     bind_fault (on_db (\<lambda>db. peers_db_utime (e_ms e) db (h_from pck)) c) (\<lambda>(_, c). Inr (0, c)))"

definition soter2_hnd_PONG :: "env \<Rightarrow> handler" where
  "soter2_hnd_PONG e pck fd c =
     bind_fault (on_db (\<lambda>db. peers_db_utime (e_ms e) db (h_from pck)) c) (\<lambda>(_, c). Inr (0, c))"

definition soter2_hnd_HELLO :: "env \<Rightarrow> handler" where
  "soter2_hnd_HELLO e pck fd c =
     (if unat (d_size pck) \<noteq> LIGHT_PEER_INFO_SIZE then Inr (-1, c)
      else
        bind_fault (read_linfo (data pck)) (\<lambda>linfo.
        let info = (peers_db_reconstruct (e_lib e) (e_ms e) linfo)\<lparr>pi_state := PEER_ST_ACTIVE\<rparr> in
        bind_fault (on_db (\<lambda>db. peers_db_add True True True db info) c) (\<lambda>(_, c).
        bind_fault (send_pack (proto_msg_quick (ctx_uid c) (h_from pck) 0 PACK_HELLO2) fd c) (\<lambda>(_, c).
        Inr (0, c)))))"

definition soter2_hnd_HELLO2 :: handler where
  "soter2_hnd_HELLO2 pck fd c =
     bind_fault (on_db (\<lambda>db. peers_db_get db (h_from pck)) c) (\<lambda>((_, found), c).
     case found of
       None \<Rightarrow> Inr (-1, c)
     | Some info \<Rightarrow>
         bind_fault (on_db (\<lambda>db. peers_db_schange db (h_from pck) PEER_ST_ACTIVE) c) (\<lambda>(_, c).
         Inr (0, c)))"

subsection \<open>Gossip and state answers\<close>

definition soter2_hnd_GOSSIP :: handler where
  "soter2_hnd_GOSSIP pck fd c =
     bind_fault (gossip_from_packet True (ac_g_syst c) pck) (\<lambda>(_, g). Inr (0, c\<lparr>ac_g_syst := g\<rparr>))"

text \<open>
  The peers of an answer from index \<open>i\<close> on. The age of a request is a difference of two
  \<open>int64_t\<close>.
\<close>

fun state_loop :: "env \<Rightarrow> bytes \<Rightarrow> nat \<Rightarrow> nat \<Rightarrow> nnet_fd \<Rightarrow> app_context \<Rightarrow> fault + app_context" where
  "state_loop e dat 0 i fd c = Inr c"
| "state_loop e dat (Suc n) i fd c =
     bind_fault (state_rreceive (e_so e) (drop (i * STATE_REQUEST_SIZE) dat)) (\<lambda>(r, rq).
     case rq of
       None \<Rightarrow> state_loop e dat n (Suc i) fd c
     | Some req \<Rightarrow>
         if sr_uid req = ctx_uid c then state_loop e dat n (Suc i) fd c
         else if 30 \<le> sint (word_of_int (e_secs e i) - sr_timestamp req) then
           state_loop e dat n (Suc i) fd c
         else
           bind_fault (ln_nfd2addr (e_lib e) fd) (\<lambda>a.
           bind_fault (state_sys_new_ans (e_fill e) (ac_ssystem c) req a) (\<lambda>(_, s).
           state_loop e dat n (Suc i) fd (c\<lparr>ac_ssystem := s\<rparr>))))"

definition soter2_hnd_STATE :: "env \<Rightarrow> handler" where
  "soter2_hnd_STATE e pck fd c =
     (if unat (d_size pck) < 4 then Inr (-1, c)
      else if length (data pck) < 4 then Inl OutOfBounds
      else
        let peers_count = unat (ntohl (of_le32 (data pck))) in
        if unat (d_size pck) \<noteq> 4 + peers_count * STATE_REQUEST_SIZE then Inr (-1, c)
        else bind_fault (state_loop e (drop 4 (data pck)) peers_count 0 fd c) (\<lambda>c. Inr (0, c)))"

subsection \<open>TURN\<close>

text \<open>Answering a request with a status.\<close>

definition turn_answer ::
  "env \<Rightarrow> naddr_t \<Rightarrow> u32 \<Rightarrow> u32 \<Rightarrow> u32 \<Rightarrow> app_context \<Rightarrow> fault + int \<times> app_context" where
  "turn_answer e a uid truid status c =
     bind_fault (turn_client_req_sys a uid truid status None) (\<lambda>r.
     on_turn (\<lambda>t. turn_client_qsend (e_lib e) t r) c)"

definition turn_close_hole ::
  "env \<Rightarrow> naddr_t \<Rightarrow> protopack \<Rightarrow> turn_request \<Rightarrow> app_context \<Rightarrow> fault + int \<times> app_context" where
  "turn_close_hole e a pck trn c =
     bind_fault (on_turn (\<lambda>t. turn_client_unbind t (turn_pair_hash (h_from pck) (tr_to_UID trn))) c)
     (\<lambda>(r, c).
       if r < 0 then
         bind_fault (turn_answer e a (h_from pck) (tr_TRUID trn) TURN_SST_FAIL c) (\<lambda>(_, c). Inr (-1, c))
       else
         bind_fault (turn_answer e a (h_from pck) (tr_TRUID trn) TURN_SST_OK c) (\<lambda>(_, c). Inr (0, c)))"

text \<open>The binding is filed under the UID of the sender.\<close>

definition turn_open_hole ::
  "env \<Rightarrow> naddr_t \<Rightarrow> protopack \<Rightarrow> turn_request \<Rightarrow> app_context \<Rightarrow> fault + int \<times> app_context" where
  "turn_open_hole e a pck trn c =
     (let fail = (\<lambda>c. bind_fault (turn_answer e a (h_from pck) (tr_TRUID trn) TURN_SST_FAIL c)
                        (\<lambda>(_, c). Inr (-1, c))) in
      if unat (tr_d_size trn) \<noteq> LIGHT_PEER_INFO_SIZE then fail c
      else
        bind_fault (read_linfo (tr_data trn)) (\<lambda>linfo.
        bind_fault (on_db (\<lambda>db. peers_db_get db (h_from pck)) c) (\<lambda>((_, found), c).
        case found of
          None \<Rightarrow> fail c
        | Some origin \<Rightarrow>
            bind_fault (peers_db_linfo (e_lib e) origin) (\<lambda>origin_linfo.
            let bpeer = \<lparr>linfo_origin = origin_linfo, linfo_connected = linfo\<rparr> in
            bind_fault (on_turn (\<lambda>t. turn_client_bind t (h_from pck) bpeer) c) (\<lambda>(r, c).
            if r < 0 then fail c
            else bind_fault (turn_answer e a (h_from pck) (tr_TRUID trn) TURN_SST_OK c)
                   (\<lambda>(_, c). Inr (0, c)))))))"

definition turn_data_msg :: "protopack \<Rightarrow> nnet_fd \<Rightarrow> app_context \<Rightarrow> fault + int \<times> app_context" where
  "turn_data_msg pck fd c =
     bind_fault (on_turn (\<lambda>t. turn_client_unwrap t pck) c) (\<lambda>((r, outgoing), c).
     if r < 0 then Inr (-1, c)
     else Inr (0, c\<lparr>ac_listener := snd (pvd_listener_pass (ac_listener c) (outgoing, fd))\<rparr>))"

definition turn_system_msg :: "env \<Rightarrow> turn_request \<Rightarrow> app_context \<Rightarrow> fault + int \<times> app_context" where
  "turn_system_msg e trn c =
     bind_fault (on_turn (\<lambda>t. turn_client_unwrap_sys t trn (e_status e) (e_truid e)) c) (\<lambda>((r, _, _), c).
     Inr (if r < 0 then -1 else 0, c))"

definition soter2_hnd_TURN :: "env \<Rightarrow> handler" where
  "soter2_hnd_TURN e pck fd c =
     bind_fault (ln_nfd2addr (e_lib e) fd) (\<lambda>a.
     if unat (d_size pck) < TURN_REQUEST_SIZE then Inr (-1, c)
     else
       bind_fault (turn_req_recv (Some (data pck)) (unat (d_size pck))) (\<lambda>trn.
       case trn of
         None \<Rightarrow> Inr (-1, c)
       | Some trn \<Rightarrow>
           if tr_type trn = rtype_code TURN_CLOSE_HOLE then turn_close_hole e a pck trn c
           else if tr_type trn = rtype_code TURN_OPEN_HOLE then turn_open_hole e a pck trn c
           else if tr_type trn = rtype_code TURN_DATA_MSG then turn_data_msg pck fd c
           else if tr_type trn = rtype_code TURN_SYSTEM_MSG then turn_system_msg e trn c
           else Inr (0, c)))"

subsection \<open>Rules of the components\<close>

text \<open>The states that some handler or the host program gives a peer.\<close>

definition live_states :: "peer_state set" where
  "live_states = {PEER_ST_INITED, PEER_ST_NATPUNCHING, PEER_ST_ACTIVE}"

definition db_ok :: "peers_db \<Rightarrow> bool" where
  "db_ok db \<longleftrightarrow> db_wf db \<and> (\<forall>uid i. peer_lookup db uid = Some i \<longrightarrow> pi_state i \<in> live_states)"

lemma db_okD [dest]: "db_ok db \<Longrightarrow> db_wf db"
  by (simp add: db_ok_def)

lemma db_get_ok: "db_ok db \<Longrightarrow> ok_run db_ok (peers_db_get db uid)"
  by (simp add: peers_db_get_ok db_okD split: option.splits)

lemma db_add_ok:
  assumes "db_ok db" and "pi_state info \<in> live_states"
  shows "ok_run db_ok (peers_db_add True True True db info)"
proof -
  obtain db' where "peers_db_add True True True db info = Inr (0, db')" "db_wf db'"
    "peer_lookup db' = (peer_lookup db)(pi_UID info \<mapsto> info)"
    by (rule peers_db_add_ok [OF db_okD [OF assms(1)]])
  with assms show ?thesis by (simp add: db_ok_def)
qed

lemma db_schange_ok:
  assumes "db_ok db" and "st \<in> live_states"
  shows "ok_run db_ok (peers_db_schange db uid st)"
proof -
  obtain r db' where "peers_db_schange db uid st = Inr (r, db')" "db_wf db'"
    "peer_lookup db' = (peer_lookup db)(uid := map_option (\<lambda>i. i\<lparr>pi_state := st\<rparr>) (peer_lookup db uid))"
    by (rule peers_db_schange_ok [OF db_okD [OF assms(1)]])
  with assms show ?thesis by (auto simp: db_ok_def)
qed

text \<open>A write through the pointer of an entry that keeps its UID and its state.\<close>

lemma db_write_ok:
  assumes "db_ok db" and "\<And>i. pi_UID (f i) = pi_UID i \<and> pi_state (f i) = pi_state i"
  shows "ok_run db_ok (bind_fault (with_mutex (pdb_data db) (\<lambda>t. Inr (peer_modify t uid f)))
    (\<lambda>(r, t). Inr (r, on_data db t)))"
proof -
  have wf: "db_wf db" using assms(1) by blast
  have "db_wf (db_with db (snd (peer_modify (obj (pdb_data db)) uid f)))"
    using db_wf_modify [OF wf] assms(2) by blast
  moreover have "pi_state i \<in> live_states"
    if "dyn_table_get (snd (peer_modify (obj (pdb_data db)) uid f)) u = Some i" for u i
    using that assms by (auto simp: db_ok_def peer_modify_get(1) peer_lookup_def split: if_splits)
  ultimately show ?thesis
    using db_wfD(1) [OF wf]
    by (simp add: with_mutex_free on_data_def db_ok_def split_beta db_with_def [symmetric])
qed

lemma db_unfd_ok: "db_ok db \<Longrightarrow> ok_run db_ok (peers_db_unfd db uid fd)"
  unfolding peers_db_unfd_def by (rule db_write_ok) simp_all

lemma db_utime_ok: "db_ok db \<Longrightarrow> ok_run db_ok (peers_db_utime now db uid)"
  unfolding peers_db_utime_def by (rule db_write_ok) simp_all

lemma ln_hton_oob: "only_oob (ln_hton a)"
  by (auto simp: ln_hton_def ln_ipv4_def ln_ipv6_def only_oob_def split: if_splits)

lemma ln_ntoh_oob: "only_oob (ln_ntoh a)"
  by (auto simp: ln_ntoh_def ln_ipv4_def ln_ipv6_def only_oob_def split: if_splits)

lemma ln_nfd2addr_oob: "only_oob (ln_nfd2addr lib fd)"
  by (auto simp: ln_nfd2addr_def ln_ipv4_def ln_ipv6_def only_oob_def split: if_splits)

lemma linfo_oob: "only_oob (peers_db_linfo lib i)"
  unfolding peers_db_linfo_def by (rule only_oob_bind [OF ln_nfd2addr_oob]) simp

lemma read_linfo_oob: "only_oob (read_linfo bs)"
  by (simp add: read_linfo_def)

lemma turn_req_recv_oob: "only_oob (turn_req_recv b n)"
  by (auto simp: turn_req_recv_def only_oob_def Let_def split: option.splits if_splits)

lemma turn_req_sys_oob: "only_oob (turn_client_req_sys a uid truid st c)"
  unfolding turn_client_req_sys_def turn_req_make_def Let_def
  by (rule only_oob_bind [OF ln_hton_oob]) simp

lemma state_rreceive_oob: "only_oob (state_rreceive so dat)"
  unfolding state_rreceive_def by (auto simp: Let_def intro!: only_oob_bind [OF ln_ntoh_oob])

lemma sender_send_ok: "ok_run (\<lambda>_. True) (pvd_sender_send s m fd)"
  by (auto simp: pvd_sender_send_def udp_copy_pack_def ok_run_def split: option.splits)

lemma gossip_packet_ok:
  assumes "gossip_wf g"
  shows "ok_run gossip_wf (from_packet_loop True n payload sz off g)"
  using assms
proof (induction n arbitrary: off g)
  case (Suc n)
  let ?e = "entry_of_bytes (take GOSSIP_ENTRY_SIZE (drop (4 + off) payload))"
  obtain g' where "gossip_new_entry True g ?e = Inr (0, g')" "gossip_wf g'"
    by (rule gossip_new_entry_merge [OF Suc.prems])
  with Suc show ?case by (simp add: Let_def)
qed simp

lemma gossip_from_packet_ok: "gossip_wf g \<Longrightarrow> ok_run gossip_wf (gossip_from_packet True g p)"
  by (simp add: gossip_from_packet_def gossip_packet_ok)

lemma turn_wf_sender [simp]: "turn_wf (t\<lparr>tc_sender := s\<rparr>) = turn_wf t"
  by (simp add: turn_wf_def)

lemma turn_qsend_ok: "turn_wf t \<Longrightarrow> ok_run turn_wf (turn_client_qsend lib t r)"
  unfolding turn_client_qsend_def Let_def by (rule ok_run_bind [OF sender_send_ok]) simp

lemma turn_bind_ok: "turn_wf t \<Longrightarrow> ok_run turn_wf (turn_client_bind t k b)"
  using turn_client_bind_ok [of t k b] by (metis ok_run_Inr)

lemma turn_unbind_ok: "turn_wf t \<Longrightarrow> ok_run turn_wf (turn_client_unbind t k)"
  using turn_client_unbind_ok [of t k] by (metis ok_run_Inr)

lemma turn_unwrap_ok: "turn_wf t \<Longrightarrow> ok_run turn_wf (turn_client_unwrap t p)"
  by (auto simp: turn_client_unwrap_def bound_get binded_same Let_def turn_req_recv_oob split: option.splits
      intro!: ok_run_bind_oob [OF turn_req_recv_oob])

lemma turn_unwrap_sys_ok:
  assumes "turn_wf t"
  shows "ok_run turn_wf (turn_client_unwrap_sys t r st truid)"
proof -
  have s: "prot_table_set True True True (sys_requests t) k st =
      Inr (fst (dyn_table_set True True True (obj (sys_requests t)) k st),
           \<lparr>mtx = False, obj = table_set (obj (sys_requests t)) k st\<rparr>)" for k
    using assms by (simp add: turn_wf_def prot_table_set_def with_mutex_free split_beta)
  with assms show ?thesis
    by (auto simp: turn_client_unwrap_sys_def Let_def s) (simp_all add: turn_wf_def dt_wf_set)
qed

subsection \<open>Every handler keeps the invariant\<close>

text \<open>
  The invariant of the node: the components are well formed with free mutexes, peers are in the
  states the node uses, and every queued answer is from another peer, with the UID of its key.
\<close>

definition answer_ok :: "sodium \<Rightarrow> u32 \<Rightarrow> state_request \<times> naddr_t \<Rightarrow> bool" where
  "answer_ok so uid p \<longleftrightarrow>
     sr_uid (fst p) = crypto_pubkey_to_uid so (sr_pubkey (fst p)) \<and> sr_uid (fst p) \<noteq> uid"

definition ctx_ok :: "sodium \<Rightarrow> app_context \<Rightarrow> bool" where
  "ctx_ok so c \<longleftrightarrow>
     db_ok (ac_p_db c) \<and> gossip_wf (ac_g_syst c) \<and> turn_wf (ac_turn c) \<and>
     pq_wf (new_state_ans (ac_ssystem c)) \<and> disp_ok (ac_rudp c) \<and>
     l_proxy (ac_listener c) = None \<and> None \<notin> fst ` set (l_packets (ac_listener c)) \<and>
     (\<forall>p \<in> set (ring (new_state_ans (ac_ssystem c))). answer_ok so (ctx_uid c) p)"

lemma on_db_ok [ok_rules]:
  "\<lbrakk>ctx_ok so c; db_ok (ac_p_db c) \<Longrightarrow> ok_run db_ok (f (ac_p_db c))\<rbrakk> \<Longrightarrow> ok_run (ctx_ok so) (on_db f c)"
  unfolding on_db_def by (rule ok_run_bind) (auto simp: ctx_ok_def)

lemma on_sender_ok [ok_rules]:
  "\<lbrakk>ctx_ok so c; ok_run (\<lambda>_. True) (f (d_sender (ac_rudp c)))\<rbrakk> \<Longrightarrow> ok_run (ctx_ok so) (on_sender f c)"
  unfolding on_sender_def by (rule ok_run_bind) (auto simp: ctx_ok_def)

lemma on_turn_ok [ok_rules]:
  "\<lbrakk>ctx_ok so c; \<And>t. turn_wf t \<Longrightarrow> ok_run turn_wf (f t)\<rbrakk> \<Longrightarrow> ok_run (ctx_ok so) (on_turn f c)"
  unfolding on_turn_def by (rule ok_run_bind [of turn_wf]) (auto simp: ctx_ok_def)

lemma send_pack_ok [ok_rules]: "ctx_ok so c \<Longrightarrow> ok_run (ctx_ok so) (send_pack m fd c)"
  unfolding send_pack_def by (rule on_sender_ok) (simp_all add: sender_send_ok)

lemmas db_rules = db_get_ok db_schange_ok db_unfd_ok db_utime_ok

lemmas bind_rules = ok_run_bind [OF on_db_ok] ok_run_bind [OF send_pack_ok] ok_run_bind [OF on_turn_ok]

lemma ok_ACK: "ctx_ok so c \<Longrightarrow> ok_run (ctx_ok so) (soter2_hnd_ACK pck fd c)"
  unfolding soter2_hnd_ACK_def
  by (auto simp: live_states_def split: option.split intro!: bind_rules db_rules on_db_ok)

lemma ok_HELLO2: "ctx_ok so c \<Longrightarrow> ok_run (ctx_ok so) (soter2_hnd_HELLO2 pck fd c)"
  unfolding soter2_hnd_HELLO2_def
  by (auto simp: live_states_def split: option.split intro!: bind_rules db_rules on_db_ok)

lemma ok_PING: "ctx_ok so c \<Longrightarrow> ok_run (ctx_ok so) (soter2_hnd_PING e pck fd c)"
  unfolding soter2_hnd_PING_def by (auto intro!: bind_rules db_rules on_db_ok)

lemma ok_PONG: "ctx_ok so c \<Longrightarrow> ok_run (ctx_ok so) (soter2_hnd_PONG e pck fd c)"
  unfolding soter2_hnd_PONG_def by (auto intro!: bind_rules db_rules on_db_ok)

lemma reconstruct_live: "pi_state (peers_db_reconstruct lib now l) \<in> live_states"
  by (simp add: peers_db_reconstruct_def live_states_def)

lemma punch_peer_ok: "ctx_ok so c \<Longrightarrow> ok_run (ctx_ok so) (punch_peer e pck c)"
  unfolding punch_peer_def
  by (rule ok_run_bind [OF on_db_ok])
    (auto simp: Let_def reconstruct_live split: option.split
      intro!: db_rules ok_run_bind_oob [OF read_linfo_oob] ok_run_bind [OF on_db_ok] db_add_ok)

lemma ok_PUNCH: "ctx_ok so c \<Longrightarrow> ok_run (ctx_ok so) (soter2_hnd_PUNCH e pck fd c)"
  unfolding soter2_hnd_PUNCH_def
  by (auto simp: live_states_def split: option.split
      intro!: ok_run_bind [OF punch_peer_ok] bind_rules db_rules)

lemma ok_HELLO: "ctx_ok so c \<Longrightarrow> ok_run (ctx_ok so) (soter2_hnd_HELLO e pck fd c)"
  unfolding soter2_hnd_HELLO_def
  by (auto simp: Let_def live_states_def
      intro!: ok_run_bind_oob [OF read_linfo_oob] bind_rules db_add_ok)

lemma ok_GOSSIP: "ctx_ok so c \<Longrightarrow> ok_run (ctx_ok so) (soter2_hnd_GOSSIP pck fd c)"
  unfolding soter2_hnd_GOSSIP_def
  by (rule ok_run_bind [OF gossip_from_packet_ok]) (auto simp: ctx_ok_def)

lemma state_loop_ok: "ctx_ok (e_so e) c \<Longrightarrow>
   (case state_loop e dat n i fd c of Inl f \<Rightarrow> f = OutOfBounds | Inr c' \<Rightarrow> ctx_ok (e_so e) c')"
proof (induction n arbitrary: i c)
  case (Suc n)
  show ?case
  proof (cases "state_rreceive (e_so e) (drop (i * STATE_REQUEST_SIZE) dat)")
    case (Inl f)
    then show ?thesis using state_rreceive_oob [of "e_so e" "drop (i * STATE_REQUEST_SIZE) dat"]
      by (simp add: only_oob_def)
  next
    case r: (Inr x)
    obtain rc rq where x: "x = (rc, rq)" by (cases x)
    show ?thesis
    proof (cases "rq = None \<or> sr_uid (the rq) = ctx_uid c \<or>
        30 \<le> sint (word_of_int (e_secs e i) - sr_timestamp (the rq))")
      case True
      then show ?thesis using Suc.IH [OF Suc.prems, of "Suc i"] r x by (auto split: option.split)
    next
      case False
      then obtain req where req: "rq = Some req" "sr_uid req \<noteq> ctx_uid c"
        "\<not> 30 \<le> sint (word_of_int (e_secs e i) - sr_timestamp req)" by auto
      show ?thesis
      proof (cases "ln_nfd2addr (e_lib e) fd")
        case (Inl f)
        with ln_nfd2addr_oob [of "e_lib e" fd] r x req show ?thesis by (simp add: only_oob_def)
      next
        case a: (Inr a)
        have wf: "pq_wf (new_state_ans (ac_ssystem c))" using Suc.prems by (simp add: ctx_ok_def)
        obtain q where q: "prot_queue_upush (e_fill e) (new_state_ans (ac_ssystem c)) (req, a) = Inr (0, q)"
          "pq_wf q" "ring q = (if (req, a) \<in> set (ring (new_state_ans (ac_ssystem c)))
             then ring (new_state_ans (ac_ssystem c)) else ring (new_state_ans (ac_ssystem c)) @ [(req, a)])"
          using prot_queue_upush_ok [OF wf, of "e_fill e" "(req, a)"] by blast
        then have "set (ring q) \<subseteq> insert (req, a) (set (ring (new_state_ans (ac_ssystem c))))"
          by (auto split: if_splits)
        have "answer_ok (e_so e) (ctx_uid c) (req, a)"
          unfolding answer_ok_def fst_conv
          using state_rreceive_accepts [OF r [unfolded x req(1)]] req(2) by blast
        with Suc.prems q(2) \<open>set (ring q) \<subseteq> _\<close> have "ctx_ok (e_so e) (c\<lparr>ac_ssystem := (ac_ssystem c)\<lparr>new_state_ans := q,
            new_state_fd := mt_evsock_notify (new_state_fd (ac_ssystem c))\<rparr>\<rparr>)"
          by (auto simp: ctx_ok_def)
        from Suc.IH [OF this, of "Suc i"] r x req a q(1) show ?thesis
          by (simp add: state_sys_new_ans_def)
      qed
    qed
  qed
qed simp

lemma ok_STATE:
  assumes "ctx_ok (e_so e) c"
  shows "ok_run (ctx_ok (e_so e)) (soter2_hnd_STATE e pck fd c)"
proof -
  have "ok_run (ctx_ok (e_so e)) (bind_fault (state_loop e dat n i fd c) (\<lambda>c. Inr (0, c)))"
    for dat n i
    using state_loop_ok [OF assms, of dat n i fd] by (cases "state_loop e dat n i fd c") simp_all
  note loop = this
  show ?thesis
    unfolding soter2_hnd_STATE_def Let_def
    by (simp add: assms loop del: of_le32.simps)
qed

lemma turn_answer_ok: "ctx_ok so c \<Longrightarrow> ok_run (ctx_ok so) (turn_answer e a uid truid st c)"
  unfolding turn_answer_def
  by (rule ok_run_bind_oob [OF turn_req_sys_oob]) (auto intro!: on_turn_ok turn_qsend_ok)

lemma turn_close_ok: "ctx_ok so c \<Longrightarrow> ok_run (ctx_ok so) (turn_close_hole e a pck trn c)"
  unfolding turn_close_hole_def
  by (auto intro!: ok_run_bind [OF on_turn_ok] ok_run_bind [OF turn_answer_ok] turn_unbind_ok)

lemma turn_open_ok: "ctx_ok so c \<Longrightarrow> ok_run (ctx_ok so) (turn_open_hole e a pck trn c)"
  unfolding turn_open_hole_def Let_def
  by (auto intro!: bind_rules ok_run_bind [OF turn_answer_ok]
      ok_run_bind_oob [OF read_linfo_oob] ok_run_bind_oob [OF linfo_oob] turn_bind_ok db_rules
      split: option.split)

lemma turn_unwrap_some: "turn_client_unwrap t p = Inr ((r, out), t') \<Longrightarrow> \<not> r < 0 \<Longrightarrow> out \<noteq> None"
  by (auto simp: turn_client_unwrap_def bind_fault_Inr_iff Let_def split: prod.splits option.splits) metis

lemma turn_data_ok:
  assumes "ctx_ok so c"
  shows "ok_run (ctx_ok so) (turn_data_msg pck fd c)"
proof -
  have run: "ok_run (ctx_ok so) (on_turn (\<lambda>t. turn_client_unwrap t pck) c)"
    using assms by (auto intro!: on_turn_ok turn_unwrap_ok)
  show ?thesis
  proof (cases "on_turn (\<lambda>t. turn_client_unwrap t pck) c")
    case (Inl f)
    with run show ?thesis by (simp add: turn_data_msg_def)
  next
    case (Inr x)
    obtain r out c' where x: "x = ((r, out), c')" by (metis prod.exhaust)
    have "\<not> r < 0 \<Longrightarrow> out \<noteq> None"
      using Inr turn_unwrap_some by (fastforce simp: x on_turn_def bind_fault_Inr_iff)
    with run Inr show ?thesis
      by (auto simp: turn_data_msg_def x ctx_ok_def pvd_listener_pass_def)
  qed
qed

lemma turn_system_ok: "ctx_ok so c \<Longrightarrow> ok_run (ctx_ok so) (turn_system_msg e trn c)"
  unfolding turn_system_msg_def by (auto intro!: ok_run_bind [OF on_turn_ok] turn_unwrap_sys_ok)

lemma ok_TURN: "ctx_ok so c \<Longrightarrow> ok_run (ctx_ok so) (soter2_hnd_TURN e pck fd c)"
  unfolding soter2_hnd_TURN_def
  by (auto intro!: ok_run_bind_oob [OF ln_nfd2addr_oob] ok_run_bind_oob [OF turn_req_recv_oob]
      turn_close_ok turn_open_ok turn_data_ok turn_system_ok split: option.split)

subsection \<open>What the handshake handlers do\<close>

abbreviation peers :: "app_context \<Rightarrow> u32 \<Rightarrow> peer_info option" where
  "peers c \<equiv> peer_lookup (ac_p_db c)"

text \<open>The packets the node has queued for the wire.\<close>

abbreviation sent :: "app_context \<Rightarrow> (protopack \<times> nnet_fd) list" where
  "sent c \<equiv> s_packets (d_sender (ac_rudp c))"

text \<open>The contexts that agree up to the database and the packet sender.\<close>

definition same_rest :: "app_context \<Rightarrow> app_context \<Rightarrow> bool" where
  "same_rest c c' \<longleftrightarrow> (\<exists>db s. c' = c\<lparr>ac_p_db := db, ac_rudp := (ac_rudp c)\<lparr>d_sender := s\<rparr>\<rparr>)"

lemma same_rest_refl [simp]: "same_rest c c"
  unfolding same_rest_def by (rule exI [of _ "ac_p_db c"], rule exI [of _ "d_sender (ac_rudp c)"]) simp

lemma same_rest_trans: "same_rest a b \<Longrightarrow> same_rest b c \<Longrightarrow> same_rest a c"
  by (clarsimp simp: same_rest_def) (rule exI, rule exI, rule refl)

lemma same_rest_uid: "same_rest c c' \<Longrightarrow> ctx_uid c' = ctx_uid c"
  by (auto simp: same_rest_def)

lemma send_pack_any:
  assumes "length (data p) = unat (d_size p)"
  obtains c' where "send_pack (Some p) fd c = Inr (0, c')" "ac_p_db c' = ac_p_db c"
    "sent c' = sent c @ [(p, fd)]" "same_rest c c'"
proof
  let ?s = "(d_sender (ac_rudp c))\<lparr>s_packets := sent c @ [(p, fd)],
      s_newpack := mt_evsock_notify (s_newpack (d_sender (ac_rudp c)))\<rparr>"
  let ?c = "c\<lparr>ac_rudp := (ac_rudp c)\<lparr>d_sender := ?s\<rparr>\<rparr>"
  show "send_pack (Some p) fd c = Inr (0, ?c)"
    by (simp add: send_pack_def on_sender_def pvd_sender_send_def udp_copy_pack_def flip: assms)
  show "ac_p_db ?c = ac_p_db c" "sent ?c = sent c @ [(p, fd)]" by simp_all
  show "same_rest c ?c"
    unfolding same_rest_def by (intro exI [of _ "ac_p_db c"] exI [of _ ?s]) simp
qed

lemma send_quick:
  obtains c' where "send_pack (Some (quick a b n t)) fd c = Inr (0, c')" "ac_p_db c' = ac_p_db c"
    "sent c' = sent c @ [(quick a b n t, fd)]" "same_rest c c'"
  by (rule send_pack_any [of "quick a b n t"]) (simp_all add: quick_def)

lemma same_rest_db [simp]: "same_rest c (c\<lparr>ac_p_db := db\<rparr>)"
  unfolding same_rest_def
  by (rule exI [of _ db], rule exI [of _ "d_sender (ac_rudp c)"]) simp

lemma on_db_get:
  assumes "db_wf (ac_p_db c)"
  shows "on_db (\<lambda>db. peers_db_get db uid) c =
    Inr (case peers c uid of None \<Rightarrow> (-1, None) | Some i \<Rightarrow> (0, Some i), c)"
  using assms by (simp add: on_db_def peers_db_get_ok)

lemma on_db_schange:
  assumes "db_wf (ac_p_db c)"
  obtains r db where "on_db (\<lambda>db. peers_db_schange db uid st) c = Inr (r, c\<lparr>ac_p_db := db\<rparr>)" "db_wf db"
    "peer_lookup db = (peers c)(uid := map_option (\<lambda>i. i\<lparr>pi_state := st\<rparr>) (peers c uid))"
proof -
  obtain r db where "peers_db_schange (ac_p_db c) uid st = Inr (r, db)" "db_wf db"
    "peer_lookup db = (peers c)(uid := map_option (\<lambda>i. i\<lparr>pi_state := st\<rparr>) (peers c uid))"
    by (rule peers_db_schange_ok [OF assms, of uid st])
  then show ?thesis by (intro that [of r db]) (simp_all add: on_db_def)
qed

lemma peers_db_write_ok:
  assumes "db_wf db" and "\<And>i. pi_UID (f i) = pi_UID i"
  shows "\<exists>r db'. bind_fault (with_mutex (pdb_data db) (\<lambda>t. Inr (peer_modify t uid f)))
      (\<lambda>(r, t). Inr (r, on_data db t)) = Inr (r, db') \<and> db_wf db' \<and>
    peer_lookup db' = (peer_lookup db)(uid := map_option f (peer_lookup db uid))"
proof -
  let ?t = "snd (peer_modify (obj (pdb_data db)) uid f)"
  have "bind_fault (with_mutex (pdb_data db) (\<lambda>t. Inr (peer_modify t uid f)))
      (\<lambda>(r, t). Inr (r, on_data db t)) =
    Inr (fst (peer_modify (obj (pdb_data db)) uid f), db_with db ?t)"
    by (simp add: with_mutex_free db_wfD(1) [OF assms(1)] split_beta on_data_def db_with_def)
  moreover have "peer_lookup (db_with db ?t) = (peer_lookup db)(uid := map_option f (peer_lookup db uid))"
    by (rule ext) (simp add: peer_modify_get(1) peer_lookup_def db_with_def)
  ultimately show ?thesis using db_wf_modify [OF assms] by blast
qed

lemma on_db_unfd:
  assumes "db_wf (ac_p_db c)"
  obtains r db where "on_db (\<lambda>db. peers_db_unfd db uid fd) c = Inr (r, c\<lparr>ac_p_db := db\<rparr>)" "db_wf db"
    "peer_lookup db = (peers c)(uid := map_option (\<lambda>i. i\<lparr>pi_nfd := fd\<rparr>) (peers c uid))"
proof -
  obtain r db where "peers_db_unfd (ac_p_db c) uid fd = Inr (r, db)" "db_wf db"
    "peer_lookup db = (peers c)(uid := map_option (\<lambda>i. i\<lparr>pi_nfd := fd\<rparr>) (peers c uid))"
    using peers_db_write_ok [OF assms, of "\<lambda>i. i\<lparr>pi_nfd := fd\<rparr>" uid]
    unfolding peers_db_unfd_def by auto
  then show ?thesis by (intro that [of r db]) (simp_all add: on_db_def)
qed

lemma on_db_add:
  assumes "db_wf (ac_p_db c)"
  obtains db where "on_db (\<lambda>db. peers_db_add True True True db i) c = Inr (0, c\<lparr>ac_p_db := db\<rparr>)"
    "db_wf db" "peer_lookup db = (peers c)(pi_UID i \<mapsto> i)"
proof -
  obtain db where "peers_db_add True True True (ac_p_db c) i = Inr (0, db)" "db_wf db"
    "peer_lookup db = (peers c)(pi_UID i \<mapsto> i)"
    by (rule peers_db_add_ok [OF assms, of i])
  then show ?thesis by (intro that [of db]) (simp_all add: on_db_def)
qed

text \<open>The acknowledgement of a known peer.\<close>

lemma hnd_ACK_known:
  assumes "db_wf (ac_p_db c)" and i: "peers c (h_from pck) = Some i"
  shows "\<exists>c'. soter2_hnd_ACK pck fd c = Inr (0, c') \<and> db_wf (ac_p_db c') \<and> same_rest c c' \<and>
    peers c' = (peers c)(h_from pck \<mapsto> i\<lparr>pi_state := PEER_ST_ACTIVE\<rparr>) \<and>
    sent c' = sent c @ (if pi_state i = PEER_ST_INITED
      then [(quick (ctx_uid c) (h_from pck) 0 PACK_ACK, pi_nfd i)] else [])"
proof -
  have uid: "pi_UID i = h_from pck" using db_wfD(3) [OF assms(1) i] .
  obtain c1 where c1: "(if pi_state i = PEER_ST_INITED
      then send_pack (proto_msg_quick (ctx_uid c) (pi_UID i) 0 PACK_ACK) (pi_nfd i) c else Inr (0, c)) =
      Inr (0, c1)" "ac_p_db c1 = ac_p_db c" "same_rest c c1"
    "sent c1 = sent c @ (if pi_state i = PEER_ST_INITED
      then [(quick (ctx_uid c) (h_from pck) 0 PACK_ACK, pi_nfd i)] else [])"
    by (cases "pi_state i = PEER_ST_INITED")
      (use send_quick [of "ctx_uid c" "h_from pck" 0 PACK_ACK "pi_nfd i" c] in
        \<open>auto simp: proto_msg_quick_eq uid\<close>)
  obtain r db where db: "on_db (\<lambda>db. peers_db_schange db (h_from pck) PEER_ST_ACTIVE) c1 =
      Inr (r, c1\<lparr>ac_p_db := db\<rparr>)" "db_wf db"
    "peer_lookup db = (peers c1)(h_from pck := map_option (\<lambda>i. i\<lparr>pi_state := PEER_ST_ACTIVE\<rparr>) (peers c1 (h_from pck)))"
    using on_db_schange [of c1 "h_from pck" PEER_ST_ACTIVE] assms(1) c1(2) by auto
  have "soter2_hnd_ACK pck fd c = Inr (0, c1\<lparr>ac_p_db := db\<rparr>)"
    by (simp add: soter2_hnd_ACK_def on_db_get [OF assms(1)] i c1(1) uid db(1))
  then show ?thesis
    using db(2,3) c1(2-4) i same_rest_trans [OF c1(3) same_rest_db, of db]
    by (intro exI [of _ "c1\<lparr>ac_p_db := db\<rparr>"]) simp
qed

lemma db_of_same [simp]: "ac_p_db (c\<lparr>ac_p_db := db\<rparr>) = db"
  by simp

text \<open>The rest of a punch, once its peer \<open>i\<close> is in the database.\<close>

lemma punch_rest:
  assumes "db_wf (ac_p_db c)" and i: "peers c uid = Some i" and uid: "pi_UID i = uid"
    and self: "h_from pck \<noteq> ctx_uid c0" and p: "punch_peer e pck c0 = Inr (Some i, c)"
    and st: "pi_state i \<in> {PEER_ST_INITED, PEER_ST_NATPUNCHING}"
  shows "\<exists>c'. soter2_hnd_PUNCH e pck fd c0 = Inr (0, c') \<and> db_wf (ac_p_db c') \<and> same_rest c c' \<and>
    peers c' = (peers c)(uid \<mapsto> i\<lparr>pi_nfd := fd, pi_state := PEER_ST_NATPUNCHING\<rparr>) \<and>
    sent c' = sent c @ [(quick (ctx_uid c) uid 0 PACK_ACK, fd)]"
proof -
  obtain r db where db: "on_db (\<lambda>db. peers_db_unfd db uid fd) c = Inr (r, c\<lparr>ac_p_db := db\<rparr>)"
    "db_wf db" "peer_lookup db = (peers c)(uid := map_option (\<lambda>i. i\<lparr>pi_nfd := fd\<rparr>) (peers c uid))"
    by (rule on_db_unfd [OF assms(1)])
  obtain c1 where c1: "send_pack (Some (quick (ctx_uid c) uid 0 PACK_ACK)) fd (c\<lparr>ac_p_db := db\<rparr>) = Inr (0, c1)"
    "ac_p_db c1 = db" "sent c1 = sent c @ [(quick (ctx_uid c) uid 0 PACK_ACK, fd)]"
    "same_rest (c\<lparr>ac_p_db := db\<rparr>) c1"
    by (rule send_quick [of "ctx_uid c" uid 0 PACK_ACK fd "c\<lparr>ac_p_db := db\<rparr>"]) simp
  have rest: "same_rest c c1" using same_rest_trans [OF same_rest_db c1(4)] .
  show ?thesis
  proof (cases "pi_state i = PEER_ST_NATPUNCHING")
    case True
    then have eq: "i\<lparr>pi_nfd := fd\<rparr> = i\<lparr>pi_nfd := fd, pi_state := PEER_ST_NATPUNCHING\<rparr>"
      by (metis peer_info.surjective peer_info.update_convs(2,6))
    with True show ?thesis
      using db(3) c1 rest db(2) i
      by (intro exI [of _ c1]) (simp add: soter2_hnd_PUNCH_def self p uid db(1) proto_msg_quick_eq flip: eq)
  next
    case False
    obtain r' db' where db': "on_db (\<lambda>db. peers_db_schange db uid PEER_ST_NATPUNCHING) c1 =
        Inr (r', c1\<lparr>ac_p_db := db'\<rparr>)" "db_wf db'"
      "peer_lookup db' = (peers c1)(uid := map_option (\<lambda>i. i\<lparr>pi_state := PEER_ST_NATPUNCHING\<rparr>) (peers c1 uid))"
      using on_db_schange [of c1 uid PEER_ST_NATPUNCHING] db(2) c1(2) by auto
    have "soter2_hnd_PUNCH e pck fd c0 = Inr (0, c1\<lparr>ac_p_db := db'\<rparr>)"
      using st False by (simp add: soter2_hnd_PUNCH_def self p uid db(1) proto_msg_quick_eq c1(1) db'(1))
    then show ?thesis
      using db(3) db'(2,3) c1(2,3) i same_rest_trans [OF rest same_rest_db, of db']
      by (intro exI [of _ "c1\<lparr>ac_p_db := db'\<rparr>"]) simp
  qed
qed

lemma hnd_PUNCH_known:
  assumes "db_wf (ac_p_db c)" and "h_from pck \<noteq> ctx_uid c" and "peers c (h_from pck) = Some i"
    and "pi_state i \<in> {PEER_ST_INITED, PEER_ST_NATPUNCHING}"
  shows "\<exists>c'. soter2_hnd_PUNCH e pck fd c = Inr (0, c') \<and> db_wf (ac_p_db c') \<and> same_rest c c' \<and>
    peers c' = (peers c)(h_from pck \<mapsto> i\<lparr>pi_nfd := fd, pi_state := PEER_ST_NATPUNCHING\<rparr>) \<and>
    sent c' = sent c @ [(quick (ctx_uid c) (h_from pck) 0 PACK_ACK, fd)]"
  by (rule punch_rest [OF assms(1,3) db_wfD(3) [OF assms(1,3)] assms(2) _ assms(4)])
    (simp add: punch_peer_def on_db_get [OF assms(1)] assms(3))

lemma hnd_PUNCH_unknown:
  assumes "db_wf (ac_p_db c)" and "h_from pck \<noteq> ctx_uid c" and "peers c (h_from pck) = None"
    and "d_size pck = 140" and "length (data pck) = 140"
  shows "let i = peers_db_reconstruct (e_lib e) (e_ms e) (li_of_bytes (data pck)) in
    \<exists>c'. soter2_hnd_PUNCH e pck fd c = Inr (0, c') \<and> db_wf (ac_p_db c') \<and> same_rest c c' \<and>
      peers c' = (peers c)(pi_UID i \<mapsto> i\<lparr>pi_nfd := fd, pi_state := PEER_ST_NATPUNCHING\<rparr>) \<and>
      sent c' = sent c @ [(quick (ctx_uid c) (pi_UID i) 0 PACK_ACK, fd)]"
proof -
  let ?i = "peers_db_reconstruct (e_lib e) (e_ms e) (li_of_bytes (data pck))"
  obtain db where db: "on_db (\<lambda>db. peers_db_add True True True db ?i) c = Inr (0, c\<lparr>ac_p_db := db\<rparr>)"
    "db_wf db" "peer_lookup db = (peers c)(pi_UID ?i \<mapsto> ?i)"
    by (rule on_db_add [OF assms(1)])
  have "punch_peer e pck c = Inr (Some ?i, c\<lparr>ac_p_db := db\<rparr>)"
    by (simp add: punch_peer_def on_db_get [OF assms(1)] assms(3-5) LIGHT_PEER_INFO_SIZE_def
        read_linfo_def db(1))
  from punch_rest [OF _ _ refl assms(2) this, of fd] db(2,3) obtain c' where
    "soter2_hnd_PUNCH e pck fd c = Inr (0, c')" "db_wf (ac_p_db c')" "same_rest (c\<lparr>ac_p_db := db\<rparr>) c'"
    "peers c' = (peers c)(pi_UID ?i \<mapsto> ?i\<lparr>pi_nfd := fd, pi_state := PEER_ST_NATPUNCHING\<rparr>)"
    "sent c' = sent c @ [(quick (ctx_uid c) (pi_UID ?i) 0 PACK_ACK, fd)]"
    by (auto simp: peers_db_reconstruct_def)
  moreover from this(3) have "same_rest c c'" by (rule same_rest_trans [OF same_rest_db])
  ultimately show ?thesis by (simp only: Let_def) blast
qed

text \<open>A greeting replaces whatever was filed under the UID it names.\<close>

lemma hnd_HELLO_any:
  assumes "db_wf (ac_p_db c)" and "d_size pck = 140" and "length (data pck) = 140"
  shows "let i = peers_db_reconstruct (e_lib e) (e_ms e) (li_of_bytes (data pck)) in
    \<exists>c'. soter2_hnd_HELLO e pck fd c = Inr (0, c') \<and> db_wf (ac_p_db c') \<and> same_rest c c' \<and>
      peers c' = (peers c)(pi_UID i \<mapsto> i\<lparr>pi_state := PEER_ST_ACTIVE\<rparr>) \<and>
      sent c' = sent c @ [(quick (ctx_uid c) (h_from pck) 0 PACK_HELLO2, fd)]"
proof -
  let ?i = "(peers_db_reconstruct (e_lib e) (e_ms e) (li_of_bytes (data pck)))\<lparr>pi_state := PEER_ST_ACTIVE\<rparr>"
  obtain db where db: "on_db (\<lambda>db. peers_db_add True True True db ?i) c = Inr (0, c\<lparr>ac_p_db := db\<rparr>)"
    "db_wf db" "peer_lookup db = (peers c)(pi_UID ?i \<mapsto> ?i)"
    by (rule on_db_add [OF assms(1)])
  obtain c1 where c1: "send_pack (Some (quick (ctx_uid c) (h_from pck) 0 PACK_HELLO2)) fd (c\<lparr>ac_p_db := db\<rparr>) = Inr (0, c1)"
    "ac_p_db c1 = db" "sent c1 = sent c @ [(quick (ctx_uid c) (h_from pck) 0 PACK_HELLO2, fd)]"
    "same_rest (c\<lparr>ac_p_db := db\<rparr>) c1"
    by (rule send_quick [of "ctx_uid c" "h_from pck" 0 PACK_HELLO2 fd "c\<lparr>ac_p_db := db\<rparr>"]) simp
  have "soter2_hnd_HELLO e pck fd c = Inr (0, c1)"
    by (simp add: soter2_hnd_HELLO_def assms LIGHT_PEER_INFO_SIZE_def read_linfo_def db(1) c1(1)
        proto_msg_quick_eq Let_def)
  then show ?thesis
    using db(2,3) c1(2,3) same_rest_trans [OF same_rest_db c1(4)] by (simp add: Let_def)
qed

end
