(* ===== verification/Watcher.thy ===== *)
theory Watcher
  imports Providers Prot_Queue
begin

text \<open>
  \<open>watcher/src/system.c\<close>: the thread that hands a passed packet to the handler of its type.
  A handler is a function from the packet, the address \<open>'fd\<close> of its sender and the shared
  state \<open>'c\<close> (what the handlers' contexts point to, the packet sender included) to its result
  and the new state; a cleared slot is \<open>None\<close>. The worker is the function of one iteration,
  and \<open>abort\<close> is the fault \<open>AssertFail\<close>.

  The lemmas: the worker never indexes past its table of handlers, and a packet reaches the
  handler of its type; but the worker takes one packet for each wake-up, and wake-ups merge.
\<close>

type_synonym ('fd, 'c) watcher_handler = "(protopack \<Rightarrow> 'fd \<Rightarrow> 'c \<Rightarrow> fault + int \<times> 'c) option"

record ('fd, 'c) watcher =
  w_handlers :: "('fd, 'c) watcher_handler list"
  passed_packets :: "(protopack option \<times> 'fd) prot_queue"
  w_newpack :: mt_eventsock
  w_running :: bool

text \<open>\<open>z\<close> fills the memory of the queue that holds no packet.\<close>

definition watcher_init :: "protopack option \<times> 'fd \<Rightarrow> int \<times> ('fd, 'c) watcher" where
  "watcher_init z =
     (0, \<lparr>w_handlers = replicate PACKET_TYPE_MAX None,
          passed_packets = snd (prot_queue_create True z 0), w_newpack = snd mt_evsock_new,
          w_running = False\<rparr>)"

definition watcher_start :: "int \<Rightarrow> ('fd, 'c) watcher \<Rightarrow> int \<times> ('fd, 'c) watcher" where
  "watcher_start r w =
     (if r < 0 then (r, w\<lparr>w_running := False\<rparr>) else (0, w\<lparr>w_running := True\<rparr>))"

definition watcher_end :: "('fd, 'c) watcher \<Rightarrow> ('fd, 'c) watcher" where
  "watcher_end w =
     w\<lparr>w_running := False, passed_packets := prot_queue_end (passed_packets w),
       w_newpack := mt_evsock_close (w_newpack w)\<rparr>"

text \<open>
  A handler of the model includes its context: \<open>with_ctx\<close> is the function of the slot on the new one. The type is not
  tested.
\<close>

definition watcher_set_context ::
  "('fd, 'c) watcher \<Rightarrow> nat \<Rightarrow> (('fd, 'c) watcher_handler \<Rightarrow> ('fd, 'c) watcher_handler) \<Rightarrow> fault + int \<times> ('fd, 'c) watcher" where
  "watcher_set_context w type with_ctx =
     (if length (w_handlers w) \<le> type then Inl OutOfBounds
      else Inr (0, w\<lparr>w_handlers := (w_handlers w)[type := with_ctx (w_handlers w ! type)]\<rparr>))"

definition watcher_handler_reg ::
  "('fd, 'c) watcher \<Rightarrow> u8 \<Rightarrow> ('fd, 'c) watcher_handler \<Rightarrow> int \<times> ('fd, 'c) watcher" where
  "watcher_handler_reg w type handler =
     (if PACKET_TYPE_MAX \<le> unat type then (-1, w)
      else (0, w\<lparr>w_handlers := (w_handlers w)[unat type := handler]\<rparr>))"

definition watcher_pass ::
  "protopack option \<times> 'fd \<Rightarrow> ('fd, 'c) watcher \<Rightarrow> protopack \<Rightarrow> 'fd \<Rightarrow> fault + int \<times> ('fd, 'c) watcher"
  where
  "watcher_pass z w pack from_who =
     bind_fault (prot_queue_push z (passed_packets w) (Some pack, from_who)) (\<lambda>(r, q).
     if r < 0 then Inr (-1, w\<lparr>passed_packets := q\<rparr>)
     else Inr (0, w\<lparr>passed_packets := q, w_newpack := mt_evsock_notify (w_newpack w)\<rparr>))"

text \<open>What the worker does with a popped packet: the new shared state.\<close>

definition watcher_dispatch ::
  "('fd, 'c) watcher_handler list \<Rightarrow> protopack \<Rightarrow> 'fd \<Rightarrow> 'c \<Rightarrow> fault + 'c" where
  "watcher_dispatch handlers pkt from_who c =
     (if udp_is_RUDP_req (packtype pkt) then Inr c
      else if PACKET_TYPE_MAX \<le> unat (packtype pkt) then Inr c
      else if length handlers \<le> unat (packtype pkt) then Inl OutOfBounds
      else case handlers ! unat (packtype pkt) of
             None \<Rightarrow> Inr c
           | Some foo \<Rightarrow> bind_fault (foo pkt from_who c) (\<lambda>(_, c). Inr c))"

text \<open>One iteration of \<open>watcher_worker\<close>; \<open>None\<close>: the loop ends.\<close>

definition watcher_iter ::
  "('fd, 'c) watcher \<Rightarrow> 'c \<Rightarrow> fault + (('fd, 'c) watcher \<times> 'c) option" where
  "watcher_iter w c =
     (if \<not> w_running w then Inr None
      else
        let (r, e) = mt_evsock_wait (w_newpack w); w = w\<lparr>w_newpack := e\<rparr> in
        if r = 0 then Inr (Some (w, c))
        else if r < 0 then Inr None
        else
          let w = w\<lparr>w_newpack := mt_evsock_drain (w_newpack w)\<rparr> in
          bind_fault (prot_queue_pop (passed_packets w)) (\<lambda>(p, q).
          let w = w\<lparr>passed_packets := q\<rparr> in
          case p of
            None \<Rightarrow> Inr (Some (w, c))
          | Some (None, _) \<Rightarrow> Inl AssertFail
          | Some (Some pkt, from_who) \<Rightarrow>
              bind_fault (watcher_dispatch (w_handlers w) pkt from_who c) (\<lambda>c. Inr (Some (w, c)))))"

subsection \<open>Lemmas\<close>

definition watcher_wf :: "('fd, 'c) watcher \<Rightarrow> bool" where
  "watcher_wf w \<longleftrightarrow>
     length (w_handlers w) = PACKET_TYPE_MAX \<and> pq_wf (passed_packets w) \<and>
     None \<notin> fst ` set (ring (passed_packets w)) \<and> w_running w \<and> ev_open (w_newpack w)"

lemma watcher_pass_ok:
  assumes "watcher_wf w"
  shows "\<exists>w'. watcher_pass z w pack fd = Inr (0, w') \<and> watcher_wf w' \<and>
    ring (passed_packets w') = ring (passed_packets w) @ [(Some pack, fd)] \<and>
    w_handlers w' = w_handlers w \<and> ev_counter (w_newpack w') = ev_counter (w_newpack w) + 1"
proof -
  from assms have "pq_wf (passed_packets w)" by (simp add: watcher_wf_def)
  then obtain q where "prot_queue_push z (passed_packets w) (Some pack, fd) = Inr (0, q)"
    "pq_wf q" "ring q = ring (passed_packets w) @ [(Some pack, fd)]"
    using prot_queue_push_ok by metis
  with assms show ?thesis
    by (auto simp: watcher_pass_def watcher_wf_def mt_evsock_notify_def)
qed

fun watcher_pass_all ::
  "protopack option \<times> 'fd \<Rightarrow> ('fd, 'c) watcher \<Rightarrow> (protopack \<times> 'fd) list \<Rightarrow> fault + ('fd, 'c) watcher" where
  "watcher_pass_all z w [] = Inr w"
| "watcher_pass_all z w ((p, fd) # ps) =
     bind_fault (watcher_pass z w p fd) (\<lambda>(_, w). watcher_pass_all z w ps)"

lemma watcher_pass_all_ok:
  assumes "watcher_wf w"
  shows "\<exists>w'. watcher_pass_all z w ps = Inr w' \<and> watcher_wf w' \<and> w_handlers w' = w_handlers w \<and>
    ring (passed_packets w') = ring (passed_packets w) @ map (\<lambda>(p, fd). (Some p, fd)) ps \<and>
    ev_counter (w_newpack w') = ev_counter (w_newpack w) + length ps"
  using assms
proof (induction ps arbitrary: w)
  case (Cons x ps)
  obtain p fd where x: "x = (p, fd)" by (cases x)
  obtain w1 where w1: "watcher_pass z w p fd = Inr (0, w1)" "watcher_wf w1"
    "ring (passed_packets w1) = ring (passed_packets w) @ [(Some p, fd)]"
    "w_handlers w1 = w_handlers w" "ev_counter (w_newpack w1) = ev_counter (w_newpack w) + 1"
    using watcher_pass_ok [OF Cons.prems] by metis
  from Cons.IH [OF w1(2)] show ?case by (simp add: x w1)
qed simp

text \<open>A wake-up takes the packet at the front and resets the event.\<close>

lemma watcher_iter_ok:
  assumes "watcher_wf w" and "0 < ev_counter (w_newpack w)"
    and "ring (passed_packets w) = (Some p, fd) # rest"
  shows "\<exists>w'. watcher_iter w c =
      bind_fault (watcher_dispatch (w_handlers w) p fd c) (\<lambda>c. Inr (Some (w', c))) \<and>
    watcher_wf w' \<and> ring (passed_packets w') = rest \<and> ev_counter (w_newpack w') = 0 \<and>
    w_handlers w' = w_handlers w"
proof -
  from assms(1) have wf: "pq_wf (passed_packets w)" "w_running w" "ev_open (w_newpack w)"
    by (simp_all add: watcher_wf_def)
  obtain q where q: "prot_queue_pop (passed_packets w) = Inr (Some (Some p, fd), q)" "pq_wf q" "ring q = rest"
    using prot_queue_pop_ok(2) [OF wf(1) assms(3)] by metis
  let ?w = "w\<lparr>w_newpack := (w_newpack w)\<lparr>ev_counter := 0\<rparr>, passed_packets := q\<rparr>"
  have "watcher_iter w c = bind_fault (watcher_dispatch (w_handlers w) p fd c) (\<lambda>c. Inr (Some (?w, c)))"
    using wf q(1) assms(2) by (simp add: watcher_iter_def mt_evsock_wait_def mt_evsock_drain_def Let_def)
  moreover have "watcher_wf ?w"
    using assms(1,3) q(2,3) by (auto simp: watcher_wf_def)
  ultimately show ?thesis using q(3) by (intro exI [of _ ?w]) simp
qed

lemma watcher_iter_idle:
  "\<lbrakk>watcher_wf w; ev_counter (w_newpack w) = 0\<rbrakk> \<Longrightarrow> watcher_iter w c = Inr (Some (w, c))"
  by (simp add: watcher_iter_def mt_evsock_wait_def watcher_wf_def)

lemma watcher_dispatch_handlers:
  "length handlers = PACKET_TYPE_MAX \<Longrightarrow>
   watcher_dispatch handlers p fd c =
     (if udp_is_RUDP_req (packtype p) \<or> PACKET_TYPE_MAX \<le> unat (packtype p) then Inr c
      else case handlers ! unat (packtype p) of
             None \<Rightarrow> Inr c | Some foo \<Rightarrow> bind_fault (foo p fd c) (\<lambda>(_, c). Inr c))"
  by (simp add: watcher_dispatch_def)

lemma watcher_dispatch_total:
  assumes "length handlers = PACKET_TYPE_MAX"
    and "\<forall>foo. Some foo \<in> set handlers \<longrightarrow> (\<forall>p fd c. \<exists>r. foo p fd c = Inr r)"
  shows "\<exists>c'. watcher_dispatch handlers p fd c = Inr c'"
proof (cases "udp_is_RUDP_req (packtype p) \<or> PACKET_TYPE_MAX \<le> unat (packtype p)")
  case False
  show ?thesis
  proof (cases "handlers ! unat (packtype p)")
    case (Some foo)
    have "handlers ! unat (packtype p) \<in> set handlers" using False assms(1) by simp
    then obtain r where "foo p fd c = Inr r" using Some assms(2) by metis
    with False Some show ?thesis
      by (cases r) (simp add: watcher_dispatch_handlers [OF assms(1)])
  qed (simp add: watcher_dispatch_handlers [OF assms(1)])
qed (simp add: watcher_dispatch_handlers [OF assms(1)])

lemma watcher_init_wf:
  "watcher_wf (snd (watcher_start 0 (snd (watcher_init z))))"
  "ring (passed_packets (snd (watcher_start 0 (snd (watcher_init z))))) = []"
  "w_handlers (snd (watcher_start 0 (snd (watcher_init z)))) = replicate PACKET_TYPE_MAX None"
  using pq_create_ok [of z 0]
  by (simp_all add: watcher_init_def watcher_start_def watcher_wf_def mt_evsock_new_def)

lemma watcher_reg_wf:
  assumes "watcher_wf w" and "unat type < PACKET_TYPE_MAX"
  shows "watcher_wf (snd (watcher_handler_reg w type h))"
    "w_handlers (snd (watcher_handler_reg w type h)) = (w_handlers w)[unat type := h]"
    "ring (passed_packets (snd (watcher_handler_reg w type h))) = ring (passed_packets w)"
  using assms by (simp_all add: watcher_handler_reg_def watcher_wf_def)

subsection \<open>Properties\<close>

text \<open>
  A packet passed to an idle watcher is handled at the next wake-up: the handler
  registered for its type, and no other, is called once with the packet and the address;
  packets of unknown types and of the reliable protocol are dropped.
\<close>

theorem watcher_delivers:
  assumes "watcher_wf w" and "ring (passed_packets w) = []"
    and "\<And>foo. w_handlers w ! unat (packtype p) = Some foo \<Longrightarrow> \<exists>r. foo p fd c = Inr r"
  shows "\<exists>w'. bind_fault (watcher_pass z w p fd) (\<lambda>(_, w). watcher_iter w c) =
      Inr (Some (w', if udp_is_RUDP_req (packtype p) \<or> PACKET_TYPE_MAX \<le> unat (packtype p) then c
        else case w_handlers w ! unat (packtype p) of
               None \<Rightarrow> c
             | Some foo \<Rightarrow> (case foo p fd c of Inr (_, c') \<Rightarrow> c' | Inl _ \<Rightarrow> c))) \<and>
    watcher_wf w' \<and> ring (passed_packets w') = []"
proof -
  obtain w1 where w1: "watcher_pass z w p fd = Inr (0, w1)" "watcher_wf w1"
    "ring (passed_packets w1) = [(Some p, fd)]" "w_handlers w1 = w_handlers w"
    "ev_counter (w_newpack w1) = ev_counter (w_newpack w) + 1"
    using watcher_pass_ok [OF assms(1)] assms(2) by (metis append_Nil)
  obtain w2 where w2: "watcher_iter w1 c =
      bind_fault (watcher_dispatch (w_handlers w1) p fd c) (\<lambda>c. Inr (Some (w2, c)))"
    "watcher_wf w2" "ring (passed_packets w2) = []"
    using watcher_iter_ok [OF w1(2) _ w1(3), of c] w1(5) by auto
  have "length (w_handlers w) = PACKET_TYPE_MAX" using assms(1) by (simp add: watcher_wf_def)
  with w1 w2 assms(3) show ?thesis
    by (intro exI [of _ w2]) (auto simp: watcher_dispatch_handlers split: option.splits sum.splits)
qed

theorem watcher_delivers_witness:
  "\<exists>w'. bind_fault (watcher_pass (None, ()) (snd (watcher_handler_reg
        (snd (watcher_start 0 (snd (watcher_init (None, ()))))) 2 (Some (\<lambda>p fd n. Inr (0, n + unat (seq p))))))
        (demo_pack\<lparr>packtype := 2\<rparr>) ()) (\<lambda>(_, w). watcher_iter w (10 :: nat)) = Inr (Some (w', 15))"
proof -
  let ?w = "snd (watcher_handler_reg (snd (watcher_start 0 (snd (watcher_init (None, ()))))) 2
      (Some (\<lambda>p fd n. Inr (0, n + unat (seq p)))))"
  have m: "unat (2 :: u8) < PACKET_TYPE_MAX" by (simp add: PACKET_TYPE_MAX_def)
  note r = watcher_reg_wf [OF watcher_init_wf(1) m]
  have h: "w_handlers ?w ! 2 = Some (\<lambda>p fd n. Inr (0, n + unat (seq p)))"
    using m by (simp add: r(2) watcher_init_wf(3))
  have "ring (passed_packets ?w) = []" by (simp add: r(3) watcher_init_wf(2))
  from watcher_delivers [OF r(1) this, of "demo_pack\<lparr>packtype := 2\<rparr>" "()" "10 :: nat" "(None, ())"]
  show ?thesis using h m
    by (auto simp: udp_is_RUDP_req_def demo_pack_def)
qed

text \<open>
  The worker takes one packet for each wake-up and wake-ups merge: of several packets
  passed before it runs it handles one, and then idles with the others still queued.
\<close>

theorem watcher_backlog_stalls:
  assumes "watcher_wf w" and "ring (passed_packets w) = []" and "ps \<noteq> []"
    and "\<forall>foo. Some foo \<in> set (w_handlers w) \<longrightarrow> (\<forall>p fd c. \<exists>r. foo p fd c = Inr r)"
  shows "\<exists>w1 w2 c'. watcher_pass_all z w ps = Inr w1 \<and> watcher_iter w1 c = Inr (Some (w2, c')) \<and>
    length (ring (passed_packets w2)) = length ps - 1 \<and>
    (\<forall>c. watcher_iter w2 c = Inr (Some (w2, c)))"
proof -
  obtain w1 where w1: "watcher_pass_all z w ps = Inr w1" "watcher_wf w1" "w_handlers w1 = w_handlers w"
    "ring (passed_packets w1) = map (\<lambda>(p, fd). (Some p, fd)) ps"
    "ev_counter (w_newpack w1) = ev_counter (w_newpack w) + length ps"
    using watcher_pass_all_ok [OF assms(1), of z ps] assms(2) by auto
  obtain p fd rest where ps: "ps = (p, fd) # rest" using assms(3) by (cases ps) auto
  then have "ring (passed_packets w1) = (Some p, fd) # map (\<lambda>(p, fd). (Some p, fd)) rest"
    by (simp add: w1(4))
  then obtain w2 where w2: "watcher_iter w1 c =
      bind_fault (watcher_dispatch (w_handlers w1) p fd c) (\<lambda>c. Inr (Some (w2, c)))"
    "watcher_wf w2" "ring (passed_packets w2) = map (\<lambda>(p, fd). (Some p, fd)) rest"
    "ev_counter (w_newpack w2) = 0"
    using watcher_iter_ok [OF w1(2), of p fd _ c] w1(5) ps by auto
  have "length (w_handlers w) = PACKET_TYPE_MAX" using assms(1) by (simp add: watcher_wf_def)
  then have "\<exists>c'. watcher_dispatch (w_handlers w) p fd c = Inr c'"
    using assms(4) by (rule watcher_dispatch_total)
  then obtain c' where "watcher_dispatch (w_handlers w1) p fd c = Inr c'" unfolding w1(3) ..
  moreover have "length (ring (passed_packets w2)) = length rest" by (simp only: w2(3) length_map)
  ultimately show ?thesis
    using w1(1) w2 ps by (intro exI [of _ w1] exI [of _ w2] exI [of _ c']) (simp add: watcher_iter_idle)
qed

theorem watcher_backlog_stalls_witness:
  "\<exists>w1 w2. watcher_pass_all (None, ()) (snd (watcher_start 0 (snd (watcher_init (None, ())))))
      [(demo_pack, ()), (demo_pack, ()), (demo_pack, ())] = Inr w1 \<and>
    watcher_iter w1 () = Inr (Some (w2, ())) \<and> 2 = length (ring (passed_packets w2))"
  using watcher_backlog_stalls [OF watcher_init_wf(1,2), of "[(demo_pack, ()), (demo_pack, ()), (demo_pack, ())]"
      "(None, ())" "(None, ())" "()"]
  by (auto simp: watcher_init_wf(3) numeral_2_eq_2 simp del: length_ring)

end
