(* ===== verification/Systems.thy ===== *)
theory Systems
  imports Handlers Watcher
begin

text \<open>
  \<open>interface/src/system.c\<close>: the node. \<open>s2_systems\<close> owns the components, and its member
  \<open>ctx\<close> holds pointers to those that the handlers use, so the record has these components once,
  inside \<open>s_ctx\<close>; \<open>turn_cli\<close>, \<open>rudp_disp\<close>, \<open>gossip_sys\<close>, \<open>peers_sys\<close>, \<open>listener\<close>,
  \<open>sender\<close> and \<open>state_mod.sys\<close> are its parts. A registered handler reads the environment of the
  moment at which it runs (\<open>with_env\<close>). The state after a failed construction is not kept.

  The packet rate is a \<open>float\<close> that is only compared with 1: it is kept as the two numbers it
  is computed from, and the comparison is an argument of its user.

  The lemmas: the node that is created keeps the invariant of the handlers whatever packets
  the watcher hands out; two nodes that punch end up active in each other's database; and a
  node that loads its key leaves the TURN client with the UID of the old one.
\<close>

record s2_state_intr =
  si_addr :: naddr_t
  si_req_dt :: int

datatype packet_rate = Zero_Rate | Rate u32 int

record s2_systems =
  s_ctx :: app_context
  s_watcher :: "(nnet_fd, env \<times> app_context) watcher"
  s_usock_addr :: naddr_t
  self_sign :: sign
  s_UID :: u32
  packet_rate :: packet_rate
  packets_timestamp :: int
  packets_translated :: u32
  state_last_called :: int
  servers :: "(u32, s2_state_intr) prot_table"
  reqd_conns :: "light_peer_info prot_queue"
  reqd_conn_ev :: mt_eventsock
  reqd_disconns :: "u32 prot_queue"
  reqd_disc_ev :: mt_eventsock
  active :: "(u32, nat option) prot_table"
  active_ev :: mt_eventsock

abbreviation s_rudp :: "s2_systems \<Rightarrow> nnet_fd rudp_dispatcher" where
  "s_rudp s \<equiv> ac_rudp (s_ctx s)"

definition with_env :: "(env \<Rightarrow> handler) \<Rightarrow> (nnet_fd, env \<times> app_context) watcher_handler" where
  "with_env h = Some (\<lambda>pck fd (e, c). bind_fault (h e pck fd c) (\<lambda>(r, c). Inr (r, (e, c))))"

text \<open>The registrations of \<open>s2_systems_create\<close>.\<close>

definition s2_register ::
  "(nnet_fd, env \<times> app_context) watcher \<Rightarrow> (nnet_fd, env \<times> app_context) watcher" where
  "s2_register w =
     fold (\<lambda>(t, h) w. snd (watcher_handler_reg w (pt_code t) (with_env h)))
       [(PACK_ACK, \<lambda>_. soter2_hnd_ACK), (PACK_PUNCH, soter2_hnd_PUNCH),
        (PACK_PING, soter2_hnd_PING), (PACK_PONG, soter2_hnd_PONG),
        (PACK_GOSSIP, \<lambda>_. soter2_hnd_GOSSIP), (PACK_STATE, soter2_hnd_STATE),
        (PACK_TURN, soter2_hnd_TURN), (PACK_HELLO, soter2_hnd_HELLO),
        (PACK_HELLO2, \<lambda>_. soter2_hnd_HELLO2)] w"

text \<open>
  The results of \<open>crypto_init\<close> and \<open>ln_usock_new\<close>, the generated key, the address field of the new
  socket, the random number for the TURN client, the clock and the memory of the four
  queues are arguments.
\<close>

definition s2_systems_create ::
  "sodium \<Rightarrow> int \<Rightarrow> sign \<Rightarrow> int \<Rightarrow> naddr_t \<Rightarrow> nat \<Rightarrow> int \<Rightarrow>
   protopack option \<times> nnet_fd \<Rightarrow> state_request \<times> naddr_t \<Rightarrow> u32 \<Rightarrow> light_peer_info \<Rightarrow>
   int \<times> s2_systems option" where
  "s2_systems_create so cr keys ur usock_addr rnd now zw zs zd zc =
     (if cr < 0 then (-1, None)
      else
        let uid = crypto_pubkey_to_uid so (id_pub keys) in
        if ur < 0 then (-1, None)
        else
          let (r1, listener) = pvd_listener_new; (r2, sender) = pvd_sender_new;
              (r3, wtch) = watcher_init zw; (r4, srv) = prot_table_create 4 56 DYN_OWN_BOTH;
              (r5, st) = state_sys_init zs; (r6, ev1) = mt_evsock_new; (r7, ev2) = mt_evsock_new;
              (r8, ev3) = mt_evsock_new; (r9, act) = prot_table_create 4 8 DYN_OWN_BOTH;
              (r10, disc) = prot_queue_create True zd 4; (r11, conn) = prot_queue_create True zc 140;
              (r12, db) = peers_db_init; (r13, g) = gossip_system_init uid;
              (r14, rudp) = rudp_dispatcher_new sender uid; (r15, turn) = turn_client_init rnd uid sender
          in if \<exists>r \<in> {r1, r2, r3, r4, r5, r6, r7, r8, r9, r10, r11, r12, r13, r14, r15}. r < 0
             then (-1, None)
             else (0, Some
               \<lparr>s_ctx = \<lparr>ac_p_db = db, ac_g_syst = g, ac_rudp = rudp, ac_listener = listener,
                         ac_turn = turn, ac_ssystem = st, ac_now_ms = now\<rparr>,
                s_watcher = s2_register wtch, s_usock_addr = usock_addr, self_sign = keys, s_UID = uid,
                packet_rate = Zero_Rate, packets_timestamp = 0, packets_translated = 0,
                state_last_called = 0, servers = srv, reqd_conns = conn, reqd_conn_ev = ev1,
                reqd_disconns = disc, reqd_disc_ev = ev2, active = act, active_ev = ev3\<rparr>))"

text \<open>The arguments are the results of the four thread starts.\<close>

definition s2_systems_run :: "int \<Rightarrow> int \<Rightarrow> int \<Rightarrow> int \<Rightarrow> s2_systems \<Rightarrow> int \<times> s2_systems" where
  "s2_systems_run rl rs rw rr s =
     (let c = s_ctx s; (r, l) = pvd_listener_start rl (ac_listener c);
          c = c\<lparr>ac_listener := l\<rparr> in
      if r < 0 then (-1, s\<lparr>s_ctx := c\<rparr>)
      else
        let (r, sd) = pvd_sender_start rs (d_sender (ac_rudp c));
            c = c\<lparr>ac_rudp := (ac_rudp c)\<lparr>d_sender := sd\<rparr>\<rparr> in
        if r < 0 then (-1, s\<lparr>s_ctx := c\<rparr>)
        else
          let (r, w) = watcher_start rw (s_watcher s); s = s\<lparr>s_watcher := w\<rparr> in
          if r < 0 then (-1, s\<lparr>s_ctx := c\<rparr>)
          else
            let (r, d) = rudp_dispatcher_run rr (ac_rudp c) in
            (if r < 0 then -1 else 0, s\<lparr>s_ctx := c\<lparr>ac_rudp := d\<rparr>\<rparr>))"

text \<open>
  The end of the parts in the order of the code, in one piece. The code joins the threads of the dispatcher, the watcher, the
  listener and the sender each with its part; the watcher and the listener may still use the dispatcher, the gossip table, the
  peers and the holes after these have been freed. What they do in between is not part of this definition.
\<close>

definition s2_systems_stop :: "s2_systems \<Rightarrow> fault + int \<times> s2_systems" where
  "s2_systems_stop s =
     (let c = s_ctx s in
      bind_fault (rudp_dispatcher_end (ac_rudp c)) (\<lambda>(_, d).
      let (_, g) = gossip_system_end (ac_g_syst c) in
      bind_fault (peers_db_end (ac_p_db c)) (\<lambda>(_, db).
      bind_fault (turn_client_end (ac_turn c)) (\<lambda>(_, t).
      let w = watcher_end (s_watcher s); l = pvd_listener_end (ac_listener c);
          d = d\<lparr>d_sender := pvd_sender_end (d_sender d)\<rparr> in
      bind_fault (prot_table_end (servers s)) (\<lambda>(_, srv).
      let st = state_sys_end (ac_ssystem c);
          s = s\<lparr>s_watcher := w, servers := srv, reqd_conn_ev := mt_evsock_close (reqd_conn_ev s),
                reqd_disc_ev := mt_evsock_close (reqd_disc_ev s),
                active_ev := mt_evsock_close (active_ev s),
                reqd_conns := prot_queue_end (reqd_conns s),
                reqd_disconns := prot_queue_end (reqd_disconns s)\<rparr> in
      bind_fault (prot_table_end (active s)) (\<lambda>(_, a).
      Inr (0, s\<lparr>active := a, s_ctx := c\<lparr>ac_rudp := d, ac_g_syst := g, ac_p_db := db, ac_turn := t,
                  ac_listener := l, ac_ssystem := st\<rparr>\<rparr>)))))))"

subsection \<open>The identity of the node\<close>

definition s2_fingerprint :: "s2_systems \<Rightarrow> bytes" where
  "s2_fingerprint s = crypto_fingerprint (id_pub (self_sign s))"

definition s2_pubuid :: "sodium \<Rightarrow> bool \<Rightarrow> s2_systems \<Rightarrow> bytes option" where
  "s2_pubuid so ok s = crypto_encode_pubkey_uid so ok (Some (id_pub (self_sign s))) (s_UID s)"

definition s2_sys_save_sign :: "bool \<Rightarrow> nat \<Rightarrow> s2_systems \<Rightarrow> int \<times> bytes option" where
  "s2_sys_save_sign opened w s =
     (let (r, content) = sign_store opened w (self_sign s) in (if r < 0 then -1 else 0, content))"

definition s2_sys_load_sign :: "sodium \<Rightarrow> s2_systems \<Rightarrow> bytes option \<Rightarrow> int \<times> s2_systems" where
  "s2_sys_load_sign so s content =
     (let (r, sg) = sign_load (self_sign s) content; s = s\<lparr>self_sign := sg\<rparr> in
      if r < 0 then (-1, s)
      else
        let uid = crypto_pubkey_to_uid so (id_pub (self_sign s)); c = s_ctx s in
        (0, s\<lparr>s_ctx := c\<lparr>ac_rudp := (ac_rudp c)\<lparr>self_uid := uid\<rparr>,
                         ac_g_syst := (ac_g_syst c)\<lparr>gs_self_uid := uid\<rparr>\<rparr>,
              s_UID := uid\<rparr>))"

text \<open>\<open>stat\<close> succeeds when the file exists; a new file is created by the save.\<close>

definition s2_sys_upd_sign ::
  "sodium \<Rightarrow> bool \<Rightarrow> nat \<Rightarrow> s2_systems \<Rightarrow> bytes option \<Rightarrow> int \<times> s2_systems \<times> bytes option" where
  "s2_sys_upd_sign so opened w s file =
     (if file \<noteq> None then (let (r, s) = s2_sys_load_sign so s file in (r, s, file))
      else (let (r, content) = s2_sys_save_sign opened w s in (r, s, content)))"

subsection \<open>Peers\<close>

definition s2_sys_new_peer ::
  "lib6 \<Rightarrow> int \<Rightarrow> s2_systems \<Rightarrow> naddr_t \<Rightarrow> naddr_t \<Rightarrow> u32 \<Rightarrow> bytes \<Rightarrow> fault + int \<times> s2_systems" where
  "s2_sys_new_peer lib now s addr serv_addr uid pubkey =
     (let info = \<lparr>pi_server = serv_addr, pi_state = PEER_ST_INITED, pi_UID = uid,
                  pi_last_seen = word_of_int now, pi_pubkey = pubkey, pi_nfd = ln_netfdq lib addr,
                  pi_ctx = 0\<rparr> in
      bind_fault (on_db (\<lambda>db. peers_db_add True True True db info) (s_ctx s)) (\<lambda>(r, c).
      Inr (r, s\<lparr>s_ctx := c\<rparr>)))"

text \<open>
  The message to the user reads the text of the peer's address, which does not change the
  state.
\<close>

definition s2_sys_nat_punch :: "lib6 \<Rightarrow> s2_systems \<Rightarrow> u32 \<Rightarrow> fault + int \<times> s2_systems" where
  "s2_sys_nat_punch lib s uid =
     bind_fault (on_db (\<lambda>db. peers_db_get db uid) (s_ctx s)) (\<lambda>((_, found), c).
     case found of
       None \<Rightarrow> Inr (-1, s\<lparr>s_ctx := c\<rparr>)
     | Some info \<Rightarrow>
         let linfo = \<lparr>li_UID = self_uid (s_rudp s), li_server = pi_server info,
                      li_addr = s_usock_addr s, li_pubkey = id_pub (self_sign s)\<rparr> in
         bind_fault (send_pack (proto_punch_msg (self_uid (s_rudp s)) uid (li_bytes linfo)) (pi_nfd info) c)
         (\<lambda>(_, c).
         bind_fault (ln_nfd2addr lib (pi_nfd info)) (\<lambda>_. Inr (0, s\<lparr>s_ctx := c\<rparr>))))"

definition s2_sys_wstate ::
  "(int \<times> peers_db) list \<Rightarrow> u32 \<Rightarrow> peer_state \<Rightarrow> fault + (int \<times> peer_info option) option" where
  "s2_sys_wstate rounds uid st = peers_db_wait rounds uid st"

definition s2_sys_closeconn :: "s2_systems \<Rightarrow> u32 \<Rightarrow> fault + int \<times> s2_systems" where
  "s2_sys_closeconn s uid =
     bind_fault (on_db (\<lambda>db. peers_db_check db uid) (s_ctx s)) (\<lambda>(known, c).
     if \<not> known then Inr (-1, s\<lparr>s_ctx := c\<rparr>)
     else
       bind_fault (on_db (\<lambda>db. peers_db_remove db uid) c) (\<lambda>(_, c).
       bind_fault (rudp_close_conncetion (ac_rudp c) uid) (\<lambda>(_, d).
       Inr (0, s\<lparr>s_ctx := c\<lparr>ac_rudp := d\<rparr>\<rparr>))))"

subsection \<open>The new node\<close>

lemma register_table:
  assumes "length (w_handlers w) = PACKET_TYPE_MAX"
  shows "w_handlers (s2_register w) =
    [w_handlers w ! 0, with_env (\<lambda>_. soter2_hnd_ACK), with_env soter2_hnd_PING, with_env soter2_hnd_PONG,
     with_env soter2_hnd_PUNCH, with_env (\<lambda>_. soter2_hnd_GOSSIP), with_env soter2_hnd_STATE,
     w_handlers w ! 7, w_handlers w ! 8, w_handlers w ! 9, w_handlers w ! 10,
     with_env soter2_hnd_TURN, with_env soter2_hnd_HELLO, with_env (\<lambda>_. soter2_hnd_HELLO2)]"
proof -
  obtain a0 a1 a2 a3 a4 a5 a6 a7 a8 a9 a10 a11 a12 a13 where
    "w_handlers w = [a0, a1, a2, a3, a4, a5, a6, a7, a8, a9, a10, a11, a12, a13]"
    using assms by (auto simp: PACKET_TYPE_MAX_def numeral_eq_Suc length_Suc_conv)
  then show ?thesis
    by (simp add: s2_register_def watcher_handler_reg_def PACKET_TYPE_MAX_def)
qed

text \<open>The handlers of the new node.\<close>

definition node_handlers :: "(nnet_fd, env \<times> app_context) watcher_handler list" where
  "node_handlers =
    [None, with_env (\<lambda>_. soter2_hnd_ACK), with_env soter2_hnd_PING, with_env soter2_hnd_PONG,
     with_env soter2_hnd_PUNCH, with_env (\<lambda>_. soter2_hnd_GOSSIP), with_env soter2_hnd_STATE,
     None, None, None, None,
     with_env soter2_hnd_TURN, with_env soter2_hnd_HELLO, with_env (\<lambda>_. soter2_hnd_HELLO2)]"

lemma create_parts:
  "fst pvd_listener_new = 0" "fst pvd_sender_new = 0" "fst (watcher_init z1) = 0"
  "fst (prot_table_create k v own) = 0" "fst (state_sys_init z2) = 0" "fst mt_evsock_new = 0"
  "fst peers_db_init = 0" "fst (gossip_system_init u) = 0" "fst (rudp_dispatcher_new sd u) = 0"
  "fst (turn_client_init rnd u sd') = 0"
  by (simp_all add: pvd_listener_new_def pvd_sender_new_def watcher_init_def prot_table_create_def
      state_sys_init_def mt_evsock_new_def peers_db_init_def gossip_system_init_def
      rudp_dispatcher_new_def turn_client_init_def)

definition new_node :: "sodium \<Rightarrow> sign \<Rightarrow> naddr_t \<Rightarrow> nat \<Rightarrow> int \<Rightarrow> protopack option \<times> nnet_fd \<Rightarrow>
   state_request \<times> naddr_t \<Rightarrow> u32 \<Rightarrow> light_peer_info \<Rightarrow> s2_systems" where
  "new_node so keys a rnd now zw zs zd zc =
     the (snd (s2_systems_create so 0 keys 0 a rnd now zw zs zd zc))"

lemma create_ok:
  "s2_systems_create so 0 keys 0 a rnd now zw zs zd zc = (0, Some (new_node so keys a rnd now zw zs zd zc))"
  using pq_create_ok [of zd 4] pq_create_ok [of zc 140]
  by (simp add: new_node_def s2_systems_create_def create_parts split_beta Let_def)

lemma create_only:
  assumes "s2_systems_create so cr keys ur a rnd now zw zs zd zc = (r, Some s)"
  shows "s = new_node so keys a rnd now zw zs zd zc"
proof -
  have z: "\<not> cr < 0" "\<not> ur < 0" using assms(1) by (auto simp: s2_systems_create_def Let_def split: if_splits)
  then have "s2_systems_create so cr keys ur a rnd now zw zs zd zc =
      s2_systems_create so 0 keys 0 a rnd now zw zs zd zc" by (simp add: s2_systems_create_def)
  then show ?thesis
    using assms(1) create_ok [of so keys a rnd now zw zs zd zc] by simp
qed

lemma new_node_ok:
  fixes so keys a rnd now zw zs zd zc
  defines "s \<equiv> new_node so keys a rnd now zw zs zd zc"
  shows "ctx_ok so (s_ctx s)" and "peers (s_ctx s) = Map.empty"
    and "ctx_uid (s_ctx s) = crypto_pubkey_to_uid so (id_pub keys)"
    and "turn_sUID (ac_turn (s_ctx s)) = crypto_pubkey_to_uid so (id_pub keys)"
    and "s_usock_addr s = a" and "self_sign s = keys" and "w_handlers (s_watcher s) = node_handlers"
    and "pq_wf (reqd_conns s)" and "ring (reqd_conns s) = []"
    and "ring (new_state_ans (ac_ssystem (s_ctx s))) = []"
proof -
  note q = pq_create_ok [of zd 4] pq_create_ok [of zc 140] pq_create_ok [of zs 220]
  note all = s_def new_node_def s2_systems_create_def create_parts split_beta Let_def
  have db: "ac_p_db (s_ctx s) = snd peers_db_init"
    and "ac_g_syst (s_ctx s) = snd (gossip_system_init (crypto_pubkey_to_uid so (id_pub keys)))"
    and "ac_turn (s_ctx s) = snd (turn_client_init rnd (crypto_pubkey_to_uid so (id_pub keys)) (snd pvd_sender_new))"
    and st: "ac_ssystem (s_ctx s) = snd (state_sys_init zs)"
    and "ac_rudp (s_ctx s) = snd (rudp_dispatcher_new (snd pvd_sender_new) (crypto_pubkey_to_uid so (id_pub keys)))"
    and "ac_listener (s_ctx s) = snd pvd_listener_new"
    using q by (simp_all add: all)
  then show "ctx_ok so (s_ctx s)"
    using db_wf_init gossip_init_wf turn_init_wf(1) disp_ok_new q
    by (simp add: ctx_ok_def db_ok_def state_sys_init_def pvd_listener_new_def)
  show "ring (new_state_ans (ac_ssystem (s_ctx s))) = []"
    using q by (simp add: st state_sys_init_def)
  show "peers (s_ctx s) = Map.empty" by (simp add: db db_wf_init)
  show "w_handlers (s_watcher s) = node_handlers"
    using q register_table [of "snd (watcher_init zw)"]
    by (simp add: all) (simp add: watcher_init_def node_handlers_def PACKET_TYPE_MAX_def)
qed (use pq_create_ok [of zd 4] pq_create_ok [of zc 140] in
  \<open>simp_all add: s_def new_node_def s2_systems_create_def create_parts split_beta Let_def
     rudp_dispatcher_new_def turn_client_init_def\<close>)

text \<open>A concrete node, with a chosen UID and database.\<close>

definition demo_node :: "u32 \<Rightarrow> peers_db \<Rightarrow> s2_systems" where
  "demo_node uid db =
     (let s = new_node demo_sodium demo_sign (zeros 52) 0 0 (None, demo_fd) (demo_request, zeros 52) 0
                (li_of_bytes (zeros 140)); c = s_ctx s in
      s\<lparr>s_ctx := c\<lparr>ac_p_db := db, ac_rudp := (ac_rudp c)\<lparr>self_uid := uid\<rparr>\<rparr>\<rparr>)"

definition demo_env :: env where
  "demo_env = \<lparr>e_lib = demo_lib6, e_so = demo_sodium, e_ms = 1000, e_secs = (\<lambda>_. 1700000000),
     e_fill = (demo_request, zeros 52), e_status = 0, e_truid = 0\<rparr>"

lemma demo_node_sel [simp]:
  "ac_p_db (s_ctx (demo_node uid db)) = db" "ctx_uid (s_ctx (demo_node uid db)) = uid"
  "s_usock_addr (demo_node uid db) = zeros 52" "self_sign (demo_node uid db) = demo_sign"
  by (simp_all add: demo_node_def Let_def new_node_ok)

subsection \<open>Punching\<close>

lemma li_of_li_bytes:
  assumes "length (li_server l) = 52" and "length (li_addr l) = 52" and "length (li_pubkey l) = 32"
  shows "li_of_bytes (li_bytes l) = l" "length (li_bytes l) = 140"
  using assms by (simp_all add: li_of_bytes_def li_bytes_def del: of_le32.simps)

text \<open>What \<open>s2_sys_nat_punch\<close> tells of the node.\<close>

definition punch_linfo :: "s2_systems \<Rightarrow> peer_info \<Rightarrow> light_peer_info" where
  "punch_linfo s info = \<lparr>li_UID = self_uid (s_rudp s), li_server = pi_server info,
     li_addr = s_usock_addr s, li_pubkey = id_pub (self_sign s)\<rparr>"

definition punch_pack :: "u32 \<Rightarrow> u32 \<Rightarrow> bytes \<Rightarrow> protopack" where
  "punch_pack a b bs = \<lparr>seq = 0, chsum = 0, d_size = 140, h_from = a, h_to = b,
     packtype = pt_code PACK_PUNCH, data = bs\<rparr>"

lemma proto_punch_msg_eq: "length bs = 140 \<Longrightarrow> proto_punch_msg a b bs = Some (punch_pack a b bs)"
  by (simp add: proto_punch_msg_def udp_make_pack_def punch_pack_def PROTOCOL_OVERHEAD_def UDP_MTU_def)

lemma nat_punch_sends:
  assumes "db_wf (ac_p_db (s_ctx s))" and "lib6_ok lib" and "peers (s_ctx s) uid = Some i" and "fd_wf (pi_nfd i)"
    and "length (pi_server i) = 52" and "length (s_usock_addr s) = 52" and "length (id_pub (self_sign s)) = 32"
  shows "\<exists>c. s2_sys_nat_punch lib s uid = Inr (0, s\<lparr>s_ctx := c\<rparr>) \<and> ac_p_db c = ac_p_db (s_ctx s) \<and>
    same_rest (s_ctx s) c \<and>
    sent c = sent (s_ctx s) @ [(punch_pack (self_uid (s_rudp s)) uid (li_bytes (punch_linfo s i)), pi_nfd i)]"
proof -
  let ?p = "punch_pack (self_uid (s_rudp s)) uid (li_bytes (punch_linfo s i))"
  have len: "length (li_bytes (punch_linfo s i)) = 140"
    by (rule li_of_li_bytes(2)) (simp_all add: punch_linfo_def assms(5-7))
  obtain c where c: "send_pack (Some ?p) (pi_nfd i) (s_ctx s) = Inr (0, c)" "ac_p_db c = ac_p_db (s_ctx s)"
    "sent c = sent (s_ctx s) @ [(?p, pi_nfd i)]" "same_rest (s_ctx s) c"
    by (rule send_pack_any [of ?p]) (simp_all add: punch_pack_def len)
  obtain a where "ln_nfd2addr lib (pi_nfd i) = Inr a" using nfd2addr_netfdq [OF assms(2,4)] by blast
  with c show ?thesis
    by (intro exI [of _ c]) (simp add: s2_sys_nat_punch_def on_db_get [OF assms(1)] assms(3)
        proto_punch_msg_eq len flip: punch_linfo_def)
qed

lemma quick_sel [simp]: "h_from (quick a b n t) = a" "h_to (quick a b n t) = b" "seq (quick a b n t) = n"
  by (simp_all add: quick_def)

lemma punch_pack_sel [simp]: "h_from (punch_pack a b bs) = a" "d_size (punch_pack a b bs) = 140"
  "data (punch_pack a b bs) = bs"
  by (simp_all add: punch_pack_def)

text \<open>
  C8: hole punching completes in one exchange of messages: node \<open>A\<close> knows \<open>B\<close>, and \<open>B\<close> has
  not heard of \<open>A\<close>. The punch of \<open>A\<close>, handled by \<open>B\<close>, the acknowledgement that \<open>B\<close> queues,
  handled by \<open>A\<close>, and the acknowledgement that \<open>A\<close> queues for it, handled by \<open>B\<close>, leave each node
  active in the database of the other one; \<open>B\<close> has filed \<open>A\<close> with the key \<open>A\<close> sent and the
  address the punch came from.
\<close>

theorem nat_punch_handshake:
  assumes wf: "db_wf (ac_p_db (s_ctx A))" "db_wf (ac_p_db b)" and lib: "lib6_ok lib"
    and uids: "ctx_uid (s_ctx A) \<noteq> ctx_uid b"
    and AB: "peers (s_ctx A) (ctx_uid b) = Some i" "pi_state i = PEER_ST_INITED" "fd_wf (pi_nfd i)"
    and BA: "peers b (ctx_uid (s_ctx A)) = None"
    and sizes: "length (pi_server i) = 52" "length (s_usock_addr A) = 52" "length (id_pub (self_sign A)) = 32"
  shows "\<exists>A1 punch b1 ack1 a2 ack2 b2 j.
    s2_sys_nat_punch lib A (ctx_uid b) = Inr (0, A1) \<and>
    sent (s_ctx A1) = sent (s_ctx A) @ [(punch, pi_nfd i)] \<and>
    soter2_hnd_PUNCH e punch fdA b = Inr (0, b1) \<and> sent b1 = sent b @ [(ack1, fdA)] \<and>
    soter2_hnd_ACK ack1 fdB (s_ctx A1) = Inr (0, a2) \<and> sent a2 = sent (s_ctx A1) @ [(ack2, pi_nfd i)] \<and>
    soter2_hnd_ACK ack2 fdA b1 = Inr (0, b2) \<and> sent b2 = sent b1 \<and>
    peers a2 (ctx_uid b) = Some (i\<lparr>pi_state := PEER_ST_ACTIVE\<rparr>) \<and>
    peers b2 (ctx_uid (s_ctx A)) = Some j \<and> pi_state j = PEER_ST_ACTIVE \<and> pi_nfd j = fdA \<and>
    pi_pubkey j = id_pub (self_sign A)"
proof -
  let ?a = "ctx_uid (s_ctx A)" and ?b = "ctx_uid b" and ?l = "punch_linfo A i"
  let ?p = "punch_pack ?a ?b (li_bytes ?l)"
  let ?j = "peers_db_reconstruct (e_lib e) (e_ms e) ?l"
  have l: "li_of_bytes (li_bytes ?l) = ?l" "length (li_bytes ?l) = 140"
    by (rule li_of_li_bytes; simp add: punch_linfo_def sizes)+
  have j: "pi_UID ?j = ?a" by (simp add: peers_db_reconstruct_def punch_linfo_def)
  obtain c where c: "s2_sys_nat_punch lib A ?b = Inr (0, A\<lparr>s_ctx := c\<rparr>)" "ac_p_db c = ac_p_db (s_ctx A)"
    "same_rest (s_ctx A) c" "sent c = sent (s_ctx A) @ [(?p, pi_nfd i)]"
    using nat_punch_sends [OF wf(1) lib AB(1,3) sizes] by blast
  obtain b1 where b1: "soter2_hnd_PUNCH e ?p fdA b = Inr (0, b1)" "db_wf (ac_p_db b1)" "same_rest b b1"
    "peers b1 = (peers b)(?a \<mapsto> ?j\<lparr>pi_nfd := fdA, pi_state := PEER_ST_NATPUNCHING\<rparr>)"
    "sent b1 = sent b @ [(quick ?b ?a 0 PACK_ACK, fdA)]"
    using hnd_PUNCH_unknown [OF wf(2), of ?p e fdA] uids BA l by (auto simp: Let_def j)
  obtain a2 where a2: "soter2_hnd_ACK (quick ?b ?a 0 PACK_ACK) fdB c = Inr (0, a2)"
    "peers a2 = (peers c)(?b \<mapsto> i\<lparr>pi_state := PEER_ST_ACTIVE\<rparr>)"
    "sent a2 = sent c @ [(quick ?a ?b 0 PACK_ACK, pi_nfd i)]"
    using hnd_ACK_known [of c "quick ?b ?a 0 PACK_ACK" i fdB] wf(1) AB c(2) same_rest_uid [OF c(3)] by auto
  obtain b2 where b2: "soter2_hnd_ACK (quick ?a ?b 0 PACK_ACK) fdA b1 = Inr (0, b2)"
    "peers b2 = (peers b1)(?a \<mapsto> ?j\<lparr>pi_nfd := fdA, pi_state := PEER_ST_ACTIVE\<rparr>)" "sent b2 = sent b1"
    using hnd_ACK_known [OF b1(2), of "quick ?a ?b 0 PACK_ACK" "?j\<lparr>pi_nfd := fdA, pi_state := PEER_ST_NATPUNCHING\<rparr>" fdA]
    by (auto simp: b1(4))
  have "pi_pubkey ?j = id_pub (self_sign A)" by (simp add: peers_db_reconstruct_def punch_linfo_def)
  with c b1(1,5) a2 b2 show ?thesis
    by (intro exI [of _ "A\<lparr>s_ctx := c\<rparr>"] exI [of _ ?p] exI [of _ b1] exI [of _ "quick ?b ?a 0 PACK_ACK"]
        exI [of _ a2] exI [of _ "quick ?a ?b 0 PACK_ACK"] exI [of _ b2]
        exI [of _ "?j\<lparr>pi_nfd := fdA, pi_state := PEER_ST_ACTIVE\<rparr>"] conjI) simp_all
qed

theorem nat_punch_handshake_witness:
  "\<exists>A1 punch. s2_sys_nat_punch demo_lib6 (demo_node 5 demo_db) 77 = Inr (0, A1) \<and>
     sent (s_ctx A1) = sent (s_ctx (demo_node 5 demo_db)) @ [(punch, demo_fd)] \<and>
     (\<exists>b1. soter2_hnd_PUNCH demo_env punch demo_fd (s_ctx (demo_node 77 (snd peers_db_init))) = Inr (0, b1))"
proof -
  let ?A = "demo_node 5 demo_db" and ?b = "s_ctx (demo_node 77 (snd peers_db_init))"
  have "fd_wf demo_fd" by (simp add: fd_wf_def demo_fd_def)
  then show ?thesis
    using nat_punch_handshake [of ?A ?b demo_lib6 demo_peer demo_env demo_fd demo_fd] demo_db_wf db_wf_init
    by (simp add: demo_lib6_ok demo_sign_def) (auto simp: demo_peer_def)
qed

text \<open>
  A node that loads its key takes the UID of that key everywhere but in the TURN client, which
  keeps looking pairs up, and signing its packets, with the UID it was created with.
\<close>

theorem load_sign_leaves_turn:
  assumes "s2_sys_load_sign so s content = (0, s')"
  shows "s_UID s' = crypto_pubkey_to_uid so (id_pub (self_sign s')) \<and>
    ctx_uid (s_ctx s') = s_UID s' \<and> gs_self_uid (ac_g_syst (s_ctx s')) = s_UID s' \<and>
    turn_sUID (ac_turn (s_ctx s')) = turn_sUID (ac_turn (s_ctx s))"
  using assms by (auto simp: s2_sys_load_sign_def Let_def split: prod.splits if_splits)

theorem load_sign_leaves_turn_witness:
  "\<exists>s'. s2_sys_load_sign demo_sodium (demo_node 5 demo_db) (Some (replicate 96 4)) = (0, s') \<and>
     turn_sUID (ac_turn (s_ctx s')) = turn_sUID (ac_turn (s_ctx (demo_node 5 demo_db)))"
proof -
  obtain s' where s': "s2_sys_load_sign demo_sodium (demo_node 5 demo_db) (Some (replicate 96 4)) = (0, s')"
    by (simp add: s2_sys_load_sign_def sign_load_def fread_one_def Let_def)
  with load_sign_leaves_turn [OF s'] show ?thesis by blast
qed

subsection \<open>Packets for the node\<close>

text \<open>
  The packets that the watcher hands out, one after the other, each with the address it came
  from and the environment of that moment.
\<close>

fun dispatch_all ::
  "(nnet_fd, env \<times> app_context) watcher_handler list \<Rightarrow> (protopack \<times> nnet_fd \<times> env) list \<Rightarrow>
   app_context \<Rightarrow> fault + app_context" where
  "dispatch_all hs [] c = Inr c"
| "dispatch_all hs ((p, fd, e) # ps) c =
     bind_fault (watcher_dispatch hs p fd (e, c)) (\<lambda>(_, c). dispatch_all hs ps c)"

definition keeps_ctx :: "(env \<Rightarrow> handler) \<Rightarrow> bool" where
  "keeps_ctx h \<longleftrightarrow> (\<forall>e pck fd c. ctx_ok (e_so e) c \<longrightarrow> ok_run (ctx_ok (e_so e)) (h e pck fd c))"

lemma keeps_ctx_handlers:
  "keeps_ctx (\<lambda>_. soter2_hnd_ACK)" "keeps_ctx soter2_hnd_PING" "keeps_ctx soter2_hnd_PONG"
  "keeps_ctx soter2_hnd_PUNCH" "keeps_ctx (\<lambda>_. soter2_hnd_GOSSIP)" "keeps_ctx soter2_hnd_STATE"
  "keeps_ctx soter2_hnd_TURN" "keeps_ctx soter2_hnd_HELLO" "keeps_ctx (\<lambda>_. soter2_hnd_HELLO2)"
  by (simp_all add: keeps_ctx_def ok_ACK ok_PING ok_PONG ok_PUNCH ok_GOSSIP ok_STATE ok_TURN ok_HELLO ok_HELLO2)

lemma node_handlers_cases:
  "\<forall>x \<in> set node_handlers. x = None \<or> (\<exists>h. x = with_env h \<and> keeps_ctx h)"
proof -
  have "\<exists>h'. with_env h = with_env h' \<and> keeps_ctx h'" if "keeps_ctx h" for h
    using that by blast
  then show ?thesis
    by (simp only: node_handlers_def list.set ball_simps keeps_ctx_handlers simp_thms)
qed

lemma dispatch_ok:
  assumes "ctx_ok (e_so e) c"
  shows "case watcher_dispatch node_handlers p fd (e, c) of
    Inl f \<Rightarrow> f = OutOfBounds | Inr (e', c') \<Rightarrow> e' = e \<and> ctx_ok (e_so e) c'"
proof -
  have len: "length node_handlers = PACKET_TYPE_MAX" by (simp add: node_handlers_def PACKET_TYPE_MAX_def)
  show ?thesis
  proof (cases "udp_is_RUDP_req (packtype p) \<or> PACKET_TYPE_MAX \<le> unat (packtype p) \<or>
      node_handlers ! unat (packtype p) = None")
    case True
    then show ?thesis using assms by (auto simp: watcher_dispatch_def len split: option.split)
  next
    case False
    then have "node_handlers ! unat (packtype p) \<in> set node_handlers" by (simp add: len)
    from bspec [OF node_handlers_cases this] False obtain h where
      h: "node_handlers ! unat (packtype p) = with_env h" "keeps_ctx h" by (elim disjE exE conjE) simp_all
    have "watcher_dispatch node_handlers p fd (e, c) = bind_fault (h e p fd c) (\<lambda>(r, c). Inr (e, c))"
      using False len h(1)
      by (cases "h e p fd c") (auto simp: watcher_dispatch_def with_env_def)
    moreover have "ok_run (ctx_ok (e_so e)) (h e p fd c)" using h(2) assms by (simp add: keeps_ctx_def)
    ultimately show ?thesis by (cases "h e p fd c") (auto simp: ok_run_def)
  qed
qed

text \<open>
  Whatever packets arrive at a new node, from whatever addresses and in whatever order, its
  handlers keep every component well formed with its mutex free, keep peers in the three states
  that are used, and queue only answers of other peers whose UID is the hash of their
  key. The one way a handler can fail is to read past the end of a packet.
\<close>

theorem node_keeps_invariant:
  assumes "s2_systems_create so cr keys ur a rnd now zw zs zd zc = (r, Some s)"
    and "\<forall>(p, fd, e) \<in> set ps. e_so e = so"
  shows "case dispatch_all (w_handlers (s_watcher s)) ps (s_ctx s) of
    Inl f \<Rightarrow> f = OutOfBounds | Inr c \<Rightarrow> ctx_ok so c"
proof -
  have s: "s = new_node so keys a rnd now zw zs zd zc" by (rule create_only [OF assms(1)])
  have "case dispatch_all node_handlers ps c of Inl f \<Rightarrow> f = OutOfBounds | Inr c \<Rightarrow> ctx_ok so c"
    if "ctx_ok so c" for c
    using assms(2) that
  proof (induction ps arbitrary: c)
    case (Cons x ps)
    obtain p fd e where x: "x = (p, fd, e)" by (cases x)
    with Cons.prems have e: "e_so e = so" "ctx_ok (e_so e) c" by auto
    from dispatch_ok [OF e(2), of p fd] Cons e(1) show ?case
      by (cases "watcher_dispatch node_handlers p fd (e, c)") (auto simp: x)
  qed simp
  then show ?thesis by (simp add: s new_node_ok)
qed

theorem node_keeps_invariant_witness:
  "\<exists>s. s2_systems_create demo_sodium 0 demo_sign 0 (zeros 52) 0 0 (None, demo_fd) (demo_request, zeros 52) 0
       (li_of_bytes (zeros 140)) = (0, Some s) \<and>
     (case dispatch_all (w_handlers (s_watcher s))
        [(quick 9 8 1 PACK_PING, demo_fd, demo_env), (punch_pack 9 8 [], demo_fd, demo_env)] (s_ctx s) of
      Inl f \<Rightarrow> f = OutOfBounds | Inr c \<Rightarrow> ctx_ok demo_sodium c)"
  by (intro exI conjI, rule create_ok, rule node_keeps_invariant [OF create_ok])
    (simp add: demo_env_def)

text \<open>
  C31: a greeting from anyone replaces the entry of any peer: the state, address and public key
  filed under the UID that the payload names are those of the payload; nothing relates the UID to
  the sender of the packet or to the key, and nothing is signed.
\<close>

theorem hello_replaces_any_peer:
  assumes "ctx_ok so c" and "d_size pck = 140" and "length (data pck) = 140"
  shows "let l = li_of_bytes (data pck) in
    \<exists>c' i. soter2_hnd_HELLO e pck fd c = Inr (0, c') \<and> ctx_ok so c' \<and>
      peers c' = (peers c)(li_UID l \<mapsto> i) \<and> pi_state i = PEER_ST_ACTIVE \<and>
      pi_pubkey i = li_pubkey l \<and> pi_nfd i = ln_netfdq (e_lib e) (li_addr l)"
proof -
  have "db_wf (ac_p_db c)" using assms(1) by (auto simp: ctx_ok_def)
  from hnd_HELLO_any [OF this assms(2,3), of e fd] obtain c' where
    c': "soter2_hnd_HELLO e pck fd c = Inr (0, c')"
    "peers c' = (peers c)(li_UID (li_of_bytes (data pck)) \<mapsto>
       (peers_db_reconstruct (e_lib e) (e_ms e) (li_of_bytes (data pck)))\<lparr>pi_state := PEER_ST_ACTIVE\<rparr>)"
    by (auto simp: Let_def peers_db_reconstruct_def)
  with ok_HELLO [OF assms(1), of e pck fd] show ?thesis
    unfolding Let_def
    by (intro exI [of _ c'] exI [of _ "(peers_db_reconstruct (e_lib e) (e_ms e)
      (li_of_bytes (data pck)))\<lparr>pi_state := PEER_ST_ACTIVE\<rparr>"]) (simp add: peers_db_reconstruct_def)
qed

lemma demo_ctx_ok: "ctx_ok demo_sodium (s_ctx (demo_node uid demo_db))"
proof -
  let ?c = "s_ctx (new_node demo_sodium demo_sign (zeros 52) 0 0 (None, demo_fd) (demo_request, zeros 52) 0
                (li_of_bytes (zeros 140)))"
  have "ctx_ok demo_sodium ?c" by (rule new_node_ok)
  moreover have "ring (new_state_ans (ac_ssystem ?c)) = []"
    by (rule new_node_ok)
  moreover have "db_ok demo_db" using demo_db_wf by (simp add: db_ok_def live_states_def)
  ultimately show ?thesis by (simp add: ctx_ok_def demo_node_def Let_def)
qed

text \<open>The entry of the peer 77 replaced by a packet of the peer 9.\<close>

theorem hello_replaces_any_peer_witness:
  "\<exists>c' i. soter2_hnd_HELLO demo_env ((punch_pack 9 5 (le32 77 @ zeros 104 @ replicate 32 6))\<lparr>packtype := 12\<rparr>)
       demo_fd (s_ctx (demo_node 5 demo_db)) = Inr (0, c') \<and>
     peers (s_ctx (demo_node 5 demo_db)) 77 = Some demo_peer \<and> peers c' 77 = Some i \<and>
     pi_pubkey i = replicate 32 6 \<and> pi_pubkey demo_peer \<noteq> replicate 32 6"
proof -
  let ?p = "(punch_pack 9 5 (le32 77 @ zeros 104 @ replicate 32 6))\<lparr>packtype := 12\<rparr>"
  have "d_size ?p = 140" "length (data ?p) = 140" by simp_all
  from hello_replaces_any_peer [OF demo_ctx_ok this] show ?thesis
    using demo_db_wf(2) by (fastforce simp: Let_def li_of_bytes_def demo_peer_def zeros_def simp del: of_le32.simps)
qed

subsection \<open>Holes\<close>

abbreviation holes :: "app_context \<Rightarrow> u32 \<Rightarrow> turn_bind_peer option" where
  "holes c \<equiv> bound (ac_turn c)"

lemma turn_answer_total:
  assumes "ln_hton a = Inr a'" and "length a' = 52"
  obtains c' where "turn_answer e a uid truid st c = Inr (0, c')" "holes c' = holes c" "ac_p_db c' = ac_p_db c"
    "turn_wf (ac_turn c') = turn_wf (ac_turn c)"
proof -
  define r where "r = \<lparr>tr_type = rtype_code TURN_SYSTEM_MSG, tr_to_UID = htonl uid, tr_TRUID = htonl truid,
     tr_to_whom = a', tr_d_size = htonl 8, tr_data = le32 (ntohl truid) @ le32 st\<rparr>"
  have r: "turn_client_req_sys a uid truid st None = Inr r"
    by (simp add: turn_client_req_sys_def turn_req_make_def assms(1) r_def)
  have len: "length (req_bytes r) = 76" by (simp add: req_bytes_def r_def assms(2))
  let ?t = "(ac_turn c)\<lparr>tc_sender := d_sender (ac_rudp c)\<rparr>"
  have "\<exists>s. turn_client_qsend (e_lib e) ?t r = Inr (0, ?t\<lparr>tc_sender := s\<rparr>)"
    by (simp add: turn_client_qsend_def udp_make_pack_def PROTOCOL_OVERHEAD_def UDP_MTU_def Let_def
        TURN_REQUEST_SIZE_def pvd_sender_send_def udp_copy_pack_def len) (rule exI, rule refl)
  then obtain s where s: "turn_client_qsend (e_lib e) ?t r = Inr (0, ?t\<lparr>tc_sender := s\<rparr>)" ..
  show ?thesis
  proof (rule that)
    let ?c = "c\<lparr>ac_turn := ?t\<lparr>tc_sender := s\<rparr>, ac_rudp := (ac_rudp c)\<lparr>d_sender := s\<rparr>\<rparr>"
    show "turn_answer e a uid truid st c = Inr (0, ?c)" by (simp add: turn_answer_def r on_turn_def s)
    show "holes ?c = holes c" by (rule ext) (simp add: bound_def)
  qed simp_all
qed

lemma open_hole_files:
  assumes "db_wf (ac_p_db c)" and "turn_wf (ac_turn c)" and "lib6_ok (e_lib e)"
    and "ln_hton a = Inr a'" and "length a' = 52"
    and "tr_d_size trn = 140" and "length (tr_data trn) = 140"
    and "peers c (h_from pck) = Some i" and "fd_wf (pi_nfd i)"
  shows "\<exists>c' b. turn_open_hole e a pck trn c = Inr (0, c') \<and> turn_wf (ac_turn c') \<and>
    holes c' = (holes c)(h_from pck \<mapsto> b) \<and> linfo_connected b = li_of_bytes (tr_data trn)"
proof -
  obtain l where l: "peers_db_linfo (e_lib e) i = Inr l"
    using nfd2addr_netfdq [OF assms(3,9)] by (auto simp: peers_db_linfo_def)
  let ?b = "\<lparr>linfo_origin = l, linfo_connected = li_of_bytes (tr_data trn)\<rparr>"
  let ?t = "(ac_turn c)\<lparr>tc_sender := d_sender (ac_rudp c)\<rparr>"
  obtain t where t: "turn_client_bind ?t (h_from pck) ?b = Inr (0, t)" "turn_wf t"
    "bound t = (bound ?t)(h_from pck \<mapsto> ?b)"
    by (rule turn_client_bind_ok [of ?t "h_from pck" ?b]) (use assms(2) in simp)
  let ?c = "c\<lparr>ac_turn := t, ac_rudp := (ac_rudp c)\<lparr>d_sender := tc_sender t\<rparr>\<rparr>"
  obtain c' where "turn_answer e a (h_from pck) (tr_TRUID trn) TURN_SST_OK ?c = Inr (0, c')"
    "holes c' = holes ?c" "turn_wf (ac_turn c') = turn_wf (ac_turn ?c)"
    by (rule turn_answer_total [OF assms(4,5)])
  then show ?thesis using t
    by (intro exI [of _ c'] exI [of _ ?b])
      (simp add: turn_open_hole_def LIGHT_PEER_INFO_SIZE_def read_linfo_def assms on_db_get l on_turn_def bound_def)
qed

lemma close_hole_removes:
  assumes "turn_wf (ac_turn c)" and "ln_hton a = Inr a'" and "length a' = 52"
  shows "\<exists>c'. turn_close_hole e a pck trn c = Inr (0, c') \<and> turn_wf (ac_turn c') \<and>
    holes c' = (holes c)(turn_pair_hash (h_from pck) (tr_to_UID trn) := None)"
proof -
  let ?t = "(ac_turn c)\<lparr>tc_sender := d_sender (ac_rudp c)\<rparr>" and ?k = "turn_pair_hash (h_from pck) (tr_to_UID trn)"
  obtain t where t: "turn_client_unbind ?t ?k = Inr (0, t)" "turn_wf t" "bound t = (bound ?t)(?k := None)"
    by (rule turn_client_unbind_ok [of ?t ?k]) (use assms(1) in simp)
  let ?c = "c\<lparr>ac_turn := t, ac_rudp := (ac_rudp c)\<lparr>d_sender := tc_sender t\<rparr>\<rparr>"
  obtain c' where "turn_answer e a (h_from pck) (tr_TRUID trn) TURN_SST_OK ?c = Inr (0, c')"
    "holes c' = holes ?c" "turn_wf (ac_turn c') = turn_wf (ac_turn ?c)"
    by (rule turn_answer_total [OF assms(2,3)])
  then show ?thesis using t
    by (intro exI [of _ c']) (simp add: turn_close_hole_def on_turn_def bound_def)
qed

text \<open>
  A hole is filed under the UID of the peer that opened it, but looked up and closed under the
  hash of the pair: after a peer opens a hole to another one, the relay's test for the pair
  answers as before, and closing the hole reports success and leaves its entry in place,
  unless the hash of the pair happens to be the UID.
\<close>

theorem turn_hole_misfiled:
  assumes "ctx_ok so c" and "lib6_ok (e_lib e)" and "ln_hton a = Inr a'" and "length a' = 52"
    and "tr_d_size trn = 140" and "length (tr_data trn) = 140"
    and "peers c (h_from pck) = Some i" and "fd_wf (pi_nfd i)"
    and "turn_pair_hash (h_from pck) uid \<noteq> h_from pck" and "tr_to_UID trn = uid" and "tr_to_UID trn' = uid"
    and "h_from pck' = h_from pck"
  shows "\<exists>c1 c2 b. turn_open_hole e a pck trn c = Inr (0, c1) \<and>
    holes c1 (turn_pair_hash (h_from pck) uid) = holes c (turn_pair_hash (h_from pck) uid) \<and>
    turn_close_hole e a pck' trn' c1 = Inr (0, c2) \<and>
    holes c2 (h_from pck) = Some b \<and> linfo_connected b = li_of_bytes (tr_data trn)"
proof -
  have wf: "db_wf (ac_p_db c)" "turn_wf (ac_turn c)" using assms(1) by (auto simp: ctx_ok_def)
  obtain c1 b where c1: "turn_open_hole e a pck trn c = Inr (0, c1)" "turn_wf (ac_turn c1)"
    "holes c1 = (holes c)(h_from pck \<mapsto> b)" "linfo_connected b = li_of_bytes (tr_data trn)"
    using open_hole_files [OF wf assms(2-8)] by blast
  obtain c2 where "turn_close_hole e a pck' trn' c1 = Inr (0, c2)"
    "holes c2 = (holes c1)(turn_pair_hash (h_from pck') (tr_to_UID trn') := None)"
    using close_hole_removes [OF c1(2) assms(3,4), of e pck' trn'] by blast
  with c1 assms(9-12) show ?thesis by (intro exI [of _ c1] exI [of _ c2] exI [of _ b]) simp
qed

definition demo_hole :: turn_request where
  "demo_hole = \<lparr>tr_type = 0, tr_to_UID = 5, tr_TRUID = 1, tr_to_whom = zeros 52, tr_d_size = 140,
     tr_data = zeros 140\<rparr>"

theorem turn_hole_misfiled_witness:
  "\<exists>c1 c2. turn_open_hole demo_env (na4 [49, 46, 50] 7000) (quick 77 0 0 PACK_TURN) demo_hole
       (s_ctx (demo_node 9 demo_db)) = Inr (0, c1) \<and>
     turn_close_hole demo_env (na4 [49, 46, 50] 7000) (quick 77 0 0 PACK_TURN) demo_hole c1 = Inr (0, c2) \<and>
     holes c2 77 \<noteq> None"
proof -
  have h: "turn_pair_hash 77 5 \<noteq> 77" by code_simp
  have fd: "fd_wf demo_fd" by (simp add: fd_wf_def demo_fd_def)
  have a: "length [49 :: u8, 46, 50] < 16" "0 \<notin> set [49 :: u8, 46, 50]" by simp_all
  show ?thesis
    using turn_hole_misfiled [OF demo_ctx_ok [of 9] _ ln_hton_na4(1) [OF a, of 7000], where e = demo_env
        and trn = demo_hole and trn' = demo_hole and pck = "quick 77 0 0 PACK_TURN"
        and pck' = "quick 77 0 0 PACK_TURN" and uid = 5 and i = demo_peer]
      h fd demo_lib6_ok na4_fields(1) [OF a] demo_db_wf(2)
    by (auto simp: demo_hole_def demo_env_def)
qed

end
