(* ===== verification/Daemons.thy ===== *)
theory Daemons
  imports Systems
begin

text \<open>
  \<open>interface/src/daemons.c\<close> and \<open>base/src/multithr/daemons.c\<close>: the two threads of the node.
  \<open>daemon_io\<close> is one run of \<open>_daemon_io\<close> (statistics, requests to the state servers, pings,
  gossip, and the packets of the listener), \<open>daemon_st\<close> one run of \<open>_daemon_st\<close>; \<open>daemon_env\<close>
  adds to the environment the random numbers they draw and the comparison of the packet
  rate. The loop over the queue of answers is \<open>partial_function\<close>, as it ends only when the
  queue is empty. A run returns whether the thread goes on.

  The lemmas: the runs never leave a dangling connection in the dispatcher, which peers a run
  drops and which it pings, where a packet goes, and the termination of the loop over the
  answers; a packet of an unknown type and gossip of more than one entry read out of bounds.
\<close>

record daemon_env = env +
  de_nonce :: u32
  de_rand :: "nat \<Rightarrow> nat"
  de_pick :: "nat \<Rightarrow> nat \<Rightarrow> nat"
  de_rate_gt1 :: "packet_rate \<Rightarrow> bool"
  de_watcher_fill :: "protopack option \<times> nnet_fd"
  de_conns_fill :: light_peer_info

definition on_ctx :: "(app_context \<Rightarrow> fault + 'r \<times> app_context) \<Rightarrow> s2_systems \<Rightarrow> fault + 'r \<times> s2_systems" where
  "on_ctx f s = bind_fault (f (s_ctx s)) (\<lambda>(r, c). Inr (r, s\<lparr>s_ctx := c\<rparr>))"

subsection \<open>State servers\<close>

fun servers_loop ::
  "lib6 \<Rightarrow> protopack option \<Rightarrow> (u32 \<times> s2_state_intr) list \<Rightarrow> app_context \<Rightarrow> fault + int \<times> app_context" where
  "servers_loop lib pack [] c = Inr (0, c)"
| "servers_loop lib pack ((_, st) # sts) c =
     (if si_req_dt st = 0 then servers_loop lib pack sts c
      else bind_fault (send_pack pack (ln_netfdq lib (si_addr st)) c) (\<lambda>(_, c).
        servers_loop lib pack sts c))"

definition state_iter :: "daemon_env \<Rightarrow> s2_systems \<Rightarrow> fault + int \<times> s2_systems" where
  "state_iter e s =
     (let uid = self_uid (s_rudp s) in
      bind_fault (state_rcreate (e_so e) (de_nonce e) (e_secs e 0) (s_usock_addr s) uid REQUEST_PEERS
        (self_sign s)) (\<lambda>r.
      let pack = udp_make_pack 0 uid 0 PACK_STATE (Some (state_bytes r)) STATE_REQUEST_SIZE in
      bind_fault (mutex_lock (servers s)) (\<lambda>t.
      bind_fault (on_ctx (servers_loop (e_lib e) pack (pairs (obj t))) s) (\<lambda>(_, s).
      Inr (0, s\<lparr>servers := mutex_unlock t\<rparr>)))))"

text \<open>
  \<open>daemon_run\<close> and \<open>daemon_stop\<close> on the flag: \<open>d\<close> and \<open>func\<close> are whether the pointers are there,
  \<open>created\<close> is what \<open>pthread_create\<close> returned.
\<close>

definition daemon_run :: "bool \<Rightarrow> bool \<Rightarrow> int \<Rightarrow> bool \<Rightarrow> int \<times> bool" where
  "daemon_run d func created running = (if \<not> d \<or> \<not> func then (-1, running) else (0, created = 0))"

definition daemon_stop :: "bool \<Rightarrow> bool \<Rightarrow> int \<times> bool" where
  "daemon_stop d running = (if \<not> d then (-1, running) else (0, False))"

definition s2_daemons_create :: "bool \<Rightarrow> int \<times> int \<Rightarrow> bool \<times> bool \<Rightarrow> int \<times> bool \<times> bool" where
  "s2_daemons_create d created running =
     (if \<not> d then (-1, running)
      else (0, snd (daemon_run True True (fst created) (fst running)), snd (daemon_run True True (snd created) (snd running))))"

definition s2_daemons_stop :: "bool \<Rightarrow> bool \<times> bool \<Rightarrow> int \<times> bool \<times> bool" where
  "s2_daemons_stop d running =
     (if \<not> d then (-1, running)
      else (0, snd (daemon_stop True (fst running)), snd (daemon_stop True (snd running))))"

subsection \<open>Pings\<close>

text \<open>The difference of the \<open>int64_t\<close> clock and the \<open>uint32_t\<close> time stamp is an \<open>int64_t\<close>.\<close>

definition silence :: "peer_info \<Rightarrow> app_context \<Rightarrow> int" where
  "silence info c = ac_now_ms c - uint (pi_last_seen info)"

definition ping_iter :: "peer_info \<Rightarrow> app_context \<Rightarrow> fault + int \<times> app_context" where
  "ping_iter info c =
     (if 10 * 1000 \<le> silence info c then
        bind_fault (rudp_close_conncetion (ac_rudp c) (pi_UID info)) (\<lambda>(_, d). Inr (1, c\<lparr>ac_rudp := d\<rparr>))
      else if 3 * 1000 \<le> silence info c then
        bind_fault (send_pack (proto_msg_quick (ctx_uid c) (pi_UID info) 0 PACK_PING) (pi_nfd info) c)
          (\<lambda>(_, c). Inr (0, c))
      else Inr (0, c))"

fun io_pings :: "peer_info list \<Rightarrow> app_context \<Rightarrow> fault + int \<times> app_context" where
  "io_pings [] c = Inr (0, c)"
| "io_pings (info # infos) c =
     bind_fault (ping_iter info c) (\<lambda>(r, c).
     if r = 0 then io_pings infos c
     else bind_fault (on_db (\<lambda>db. peers_db_remove db (pi_UID info)) c) (\<lambda>(_, c). io_pings infos c))"

subsection \<open>Gossip\<close>

text \<open>
  \<open>gossip_to_data\<close> takes an array of pointers to entries, and gets the address of the one pointer
  to the array of entries.
\<close>

definition gossip_iter :: "daemon_env \<Rightarrow> nat \<Rightarrow> peer_info \<Rightarrow> app_context \<Rightarrow> fault + int \<times> app_context" where
  "gossip_iter e i info c =
     (if de_rand e i mod 2 = 0 then Inr (0, c)
      else
        bind_fault (ln_nfd2addr (e_lib e) (pi_nfd info)) (\<lambda>a.
        let md = \<lparr>md_pubkey = pi_pubkey info, md_server = pi_server info\<rparr> in
        bind_fault (gossip_create_entry (e_secs e (i + 2)) (pi_UID info) a md True) (\<lambda>entry.
        bind_fault (gossip_new_entry True (ac_g_syst c) entry) (\<lambda>(_, g).
        bind_fault (gossip_random_entries True (de_pick e i) g 5) (\<lambda>((r, entries, entries_c), g).
        let c = c\<lparr>ac_g_syst := g\<rparr> in
        if r = 1 then Inr (0, c)
        else
          bind_fault (gossip_to_data True (take 1 entries) entries_c) (\<lambda>(_, packet_data).
          let msg = udp_make_pack 0 (ctx_uid c) (pi_UID info) PACK_GOSSIP (Some packet_data)
                (length packet_data) in
          bind_fault (send_pack msg (pi_nfd info) c) (\<lambda>(_, c). Inr (0, c))))))))"

fun io_gossips :: "daemon_env \<Rightarrow> nat \<Rightarrow> peer_info list \<Rightarrow> app_context \<Rightarrow> fault + int \<times> app_context" where
  "io_gossips e i [] c = Inr (0, c)"
| "io_gossips e i (info # infos) c =
     bind_fault (gossip_iter e i info c) (\<lambda>(r, c).
     if r = 0 then io_gossips e (Suc i) infos c
     else bind_fault (on_db (\<lambda>db. peers_db_remove db (pi_UID info)) c) (\<lambda>(_, c).
       io_gossips e (Suc i) infos c))"

subsection \<open>Incoming packets\<close>

text \<open>A packet from a peer behind a hole goes on to the peer that opened it.\<close>

definition io_relay :: "daemon_env \<Rightarrow> protopack \<Rightarrow> app_context \<Rightarrow> fault + int \<times> app_context" where
  "io_relay e p c =
     bind_fault (on_turn (\<lambda>t. turn_client_wrap t p) c) (\<lambda>((_, outpack), c).
     bind_fault (on_turn (\<lambda>t. turn_client_info t (turn_pair_hash (h_to p) (h_from p))) c) (\<lambda>((_, bpeer), c).
     case bpeer of
       None \<Rightarrow> Inr (0, c)
     | Some b \<Rightarrow>
         bind_fault (send_pack outpack (ln_netfdq (e_lib e) (li_addr (linfo_origin b))) c) (\<lambda>(_, c).
         Inr (0, c))))"

definition io_packet :: "daemon_env \<Rightarrow> protopack option \<Rightarrow> nnet_fd \<Rightarrow> s2_systems \<Rightarrow> fault + s2_systems" where
  "io_packet e pack fd s =
     (case pack of
        None \<Rightarrow> Inl NullDeref
      | Some p \<Rightarrow>
          bind_fault (on_ctx (on_turn (\<lambda>t. turn_check_pair t (h_to p) (h_from p))) s) (\<lambda>(pair, s).
          bind_fault
            (if pair then on_ctx (io_relay e p) s
             else if udp_is_RUDP_req (packtype p) then
               let (r, d) = rudp_dispatcher_pass (s_rudp s) (Some p) in
               Inr (r, s\<lparr>s_ctx := (s_ctx s)\<lparr>ac_rudp := d\<rparr>\<rparr>)
             else
               bind_fault (proto_print p) (\<lambda>_.
               bind_fault (watcher_pass (de_watcher_fill e) (s_watcher s) p fd) (\<lambda>(r, w).
               Inr (r, s\<lparr>s_watcher := w\<rparr>))))
            (\<lambda>(_, s).
            let s = s\<lparr>packets_translated := packets_translated s + 1\<rparr> in
            bind_fault (on_ctx (on_db (\<lambda>db. peers_db_utime (e_ms e) db (h_from p))) s) (\<lambda>(_, s). Inr s))))"

text \<open>The packets that \<open>pvd_next_packet\<close> returns until the queue is empty.\<close>

fun io_packets :: "daemon_env \<Rightarrow> (protopack option \<times> nnet_fd) list \<Rightarrow> s2_systems \<Rightarrow> fault + s2_systems" where
  "io_packets e [] s = Inr s"
| "io_packets e ((pack, fd) # ps) s =
     bind_fault (io_packet e pack fd
       (s\<lparr>s_ctx := (s_ctx s)\<lparr>ac_listener := (ac_listener (s_ctx s))\<lparr>l_packets := ps\<rparr>\<rparr>\<rparr>)) (\<lambda>s.
     io_packets e ps s)"

subsection \<open>The packet thread\<close>

definition io_stats :: "s2_systems \<Rightarrow> s2_systems" where
  "io_stats s =
     (let now = ac_now_ms (s_ctx s); delta_ms = now - packets_timestamp s in
      if 1000 \<le> delta_ms then
        s\<lparr>packet_rate := (if 0 < delta_ms then Rate (packets_translated s) delta_ms else Zero_Rate),
          packets_timestamp := now, packets_translated := 0\<rparr>
      else s)"

text \<open>What is left out when packets come too fast.\<close>

definition io_addt :: "daemon_env \<Rightarrow> s2_systems \<Rightarrow> fault + s2_systems" where
  "io_addt e s =
     (let now = ac_now_ms (s_ctx s) in
      bind_fault
        (if 3 * 1000 \<le> now - state_last_called s then
           bind_fault (state_iter e s) (\<lambda>(_, s). Inr (s\<lparr>state_last_called := now\<rparr>))
         else Inr s) (\<lambda>s.
      bind_fault (on_ctx (on_db (peers_db_snapshot True)) s) (\<lambda>(snapshot, s).
      bind_fault (on_ctx (io_pings snapshot) s) (\<lambda>(_, s).
      if 5 * 1000 \<le> now - uint (last_gossiped (ac_g_syst (s_ctx s))) then
        bind_fault (gossip_cleanup (e_secs e 1) (ac_g_syst (s_ctx s))) (\<lambda>(_, g).
        bind_fault (on_ctx (io_gossips e 0 snapshot) (s\<lparr>s_ctx := (s_ctx s)\<lparr>ac_g_syst := g\<rparr>\<rparr>)) (\<lambda>(_, s).
        Inr (s\<lparr>s_ctx := (s_ctx s)\<lparr>ac_g_syst := (ac_g_syst (s_ctx s))\<lparr>last_gossiped := word_of_int now\<rparr>\<rparr>\<rparr>)))
      else Inr s))))"

text \<open>The clock and the wait for packets.\<close>

definition io_wait :: "daemon_env \<Rightarrow> s2_systems \<Rightarrow> int \<times> s2_systems" where
  "io_wait e s =
     (let c = (s_ctx s)\<lparr>ac_now_ms := e_ms e\<rparr>; (r, ev) = mt_evsock_wait (l_newpack (ac_listener c)) in
      (r, s\<lparr>s_ctx := c\<lparr>ac_listener := (ac_listener c)\<lparr>l_newpack := mt_evsock_drain ev\<rparr>\<rparr>\<rparr>))"

definition daemon_io :: "daemon_env \<Rightarrow> s2_systems \<Rightarrow> fault + bool \<times> s2_systems" where
  "daemon_io e s =
     (case io_wait e s of (r, s) \<Rightarrow>
      if r < 0 then Inr (False, s)
      else
        bind_fault
          (let s = io_stats s in if de_rate_gt1 e (packet_rate s) then Inr s else io_addt e s) (\<lambda>s.
        if r = 0 then Inr (True, s)
        else bind_fault (io_packets e (l_packets (ac_listener (s_ctx s))) s) (\<lambda>s. Inr (True, s))))"

subsection \<open>The state thread\<close>

definition answer_linfo :: "state_request \<times> naddr_t \<Rightarrow> light_peer_info" where
  "answer_linfo sreq =
     \<lparr>li_UID = sr_uid (fst sreq), li_server = snd sreq, li_addr = sr_addr (fst sreq),
      li_pubkey = sr_pubkey (fst sreq)\<rparr>"

text \<open>An answer about a peer that is not known becomes a request to connect.\<close>

definition st_answer :: "daemon_env \<Rightarrow> state_request \<times> naddr_t \<Rightarrow> s2_systems \<Rightarrow> fault + s2_systems" where
  "st_answer e sreq s =
     bind_fault (on_ctx (on_db (\<lambda>db. peers_db_check db (sr_uid (fst sreq)))) s) (\<lambda>(known, s).
     if known then Inr s
     else
       bind_fault (prot_queue_push (de_conns_fill e) (reqd_conns s) (answer_linfo sreq)) (\<lambda>(_, q).
       Inr (s\<lparr>reqd_conns := q, reqd_conn_ev := mt_evsock_notify (reqd_conn_ev s)\<rparr>)))"

definition pop_answer :: "s2_systems \<Rightarrow> fault + (state_request \<times> naddr_t) option \<times> s2_systems" where
  "pop_answer s =
     bind_fault (prot_queue_pop (new_state_ans (ac_ssystem (s_ctx s)))) (\<lambda>(sreq, q).
     Inr (sreq, s\<lparr>s_ctx := (s_ctx s)\<lparr>ac_ssystem := (ac_ssystem (s_ctx s))\<lparr>new_state_ans := q\<rparr>\<rparr>\<rparr>))"

partial_function (option) st_answers :: "daemon_env \<Rightarrow> s2_systems \<Rightarrow> (fault + s2_systems) option" where
  "st_answers e s =
     (case pop_answer s of
        Inl f \<Rightarrow> Some (Inl f)
      | Inr (sreq, s) \<Rightarrow>
          (case sreq of
             None \<Rightarrow> Some (Inr s)
           | Some sreq \<Rightarrow>
               (case st_answer e sreq s of
                  Inl f \<Rightarrow> Some (Inl f)
                | Inr s \<Rightarrow> st_answers e s)))"

text \<open>An active peer without a connection gets one.\<close>

definition st_connect :: "daemon_env \<Rightarrow> nat \<Rightarrow> peer_info \<Rightarrow> s2_systems \<Rightarrow> fault + s2_systems" where
  "st_connect e i info s =
     (if pi_state info \<noteq> PEER_ST_ACTIVE then Inr s
      else
        bind_fault (rudp_get_connection (s_rudp s) (pi_UID info) (de_rand e i)) (\<lambda>(r, _, d).
        let s = s\<lparr>s_ctx := (s_ctx s)\<lparr>ac_rudp := d\<rparr>\<rparr> in
        if r = 0 then Inr s
        else
          bind_fault (rudp_est_connection (s_rudp s) (pi_UID info) (pi_nfd info) (e_ms e)) (\<lambda>(r, a, d).
          let s = s\<lparr>s_ctx := (s_ctx s)\<lparr>ac_rudp := d\<rparr>\<rparr> in
          if r < 0 then Inr s
          else
            bind_fault (prot_table_set True True True (active s) (pi_UID info) (Some a)) (\<lambda>(r, t).
            if r < 0 then Inr (s\<lparr>active := t\<rparr>)
            else Inr (s\<lparr>active := t, active_ev := mt_evsock_notify (active_ev s)\<rparr>)))))"

fun st_connects :: "daemon_env \<Rightarrow> nat \<Rightarrow> peer_info list \<Rightarrow> s2_systems \<Rightarrow> fault + s2_systems" where
  "st_connects e i [] s = Inr s"
| "st_connects e i (info # infos) s =
     bind_fault (st_connect e i info s) (\<lambda>s. st_connects e (Suc i) infos s)"

text \<open>\<open>None\<close>: the run does not end.\<close>

definition daemon_st :: "daemon_env \<Rightarrow> s2_systems \<Rightarrow> (fault + bool \<times> s2_systems) option" where
  "daemon_st e s =
     (let st = ac_ssystem (s_ctx s); (r, ev) = mt_evsock_wait (new_state_fd st);
          put = (\<lambda>ev. s\<lparr>s_ctx := (s_ctx s)\<lparr>ac_ssystem := st\<lparr>new_state_fd := ev\<rparr>\<rparr>\<rparr>) in
      if r < 0 then Some (Inr (False, put ev))
      else
        let s = put (mt_evsock_drain ev) in
        (case if 0 < r then st_answers e s else Some (Inr s) of
           None \<Rightarrow> None
         | Some m \<Rightarrow> Some
             (bind_fault m (\<lambda>s.
              bind_fault (on_ctx (on_db (peers_db_snapshot True)) s) (\<lambda>(snapshot, s).
              bind_fault (st_connects e 0 snapshot s) (\<lambda>s. Inr (True, s)))))))"

subsection \<open>Threads\<close>

text \<open>
  \<open>_daemon_wrapper\<close> of an iterating daemon, over the rounds that happen: whether
  \<open>daemon_stop\<close> was called before the test of the flag, and the environment of the run. The
  first component of the result is the flag \<open>is_running\<close>.
\<close>

fun daemon_wrapper ::
  "('e \<Rightarrow> 's \<Rightarrow> fault + bool \<times> 's) \<Rightarrow> (bool \<times> 'e) list \<Rightarrow> bool \<times> 's \<Rightarrow> fault + bool \<times> 's" where
  "daemon_wrapper func [] (running, s) = Inr (running, s)"
| "daemon_wrapper func ((stopped, e) # rounds) (running, s) =
     (if stopped \<or> \<not> running then Inr (False, s)
      else bind_fault (func e s) (\<lambda>(go, s). daemon_wrapper func rounds (go, s)))"

subsection \<open>Pings\<close>

definition dead :: "app_context \<Rightarrow> peer_info \<Rightarrow> bool" where
  "dead c i \<longleftrightarrow> 10000 \<le> silence i c"

definition is_ping :: "protopack \<times> nnet_fd \<Rightarrow> bool" where
  "is_ping q \<longleftrightarrow> packtype (fst q) = pt_code PACK_PING"

definition ping_msgs :: "app_context \<Rightarrow> peer_info list \<Rightarrow> (protopack \<times> nnet_fd) list" where
  "ping_msgs c infos =
     map (\<lambda>i. (quick (ctx_uid c) (pi_UID i) 0 PACK_PING, pi_nfd i))
       (filter (\<lambda>i. \<not> dead c i \<and> 3000 \<le> silence i c) infos)"

lemma fins_no_ping: "filter is_ping (fins d uid) = []"
  by (simp add: fins_def is_ping_def quick_def split: option.split)

lemma on_db_remove:
  assumes "db_wf (ac_p_db c)"
  obtains r db where "on_db (\<lambda>db. peers_db_remove db uid) c = Inr (r, c\<lparr>ac_p_db := db\<rparr>)" "db_wf db"
    "peer_lookup db = (peers c)(uid := None)"
proof -
  obtain r db where "peers_db_remove (ac_p_db c) uid = Inr (r, db)" "db_wf db"
    "peer_lookup db = (peers c)(uid := None)"
    by (rule peers_db_remove_ok [OF assms, of uid])
  then show ?thesis by (intro that [of r db]) (simp_all add: on_db_def)
qed

lemma io_pings_ok:
  assumes "db_wf (ac_p_db c)" and "disp_ok (ac_rudp c)"
  shows "\<exists>c'. io_pings infos c = Inr (0, c') \<and> db_wf (ac_p_db c') \<and> disp_ok (ac_rudp c') \<and>
    ctx_uid c' = ctx_uid c \<and> ac_now_ms c' = ac_now_ms c \<and>
    (\<forall>uid. peers c' uid = (if \<exists>i \<in> set infos. pi_UID i = uid \<and> dead c i then None else peers c uid)) \<and>
    (\<forall>uid. conns (ac_rudp c') uid =
       (if \<exists>i \<in> set infos. pi_UID i = uid \<and> dead c i then None else conns (ac_rudp c) uid)) \<and>
    filter is_ping (sent c') = filter is_ping (sent c) @ ping_msgs c infos"
  using assms
proof (induction infos arbitrary: c)
  case (Cons i infos)
  have step: ?case if m: "(case ping_iter i c of Inr (r, c1) \<Rightarrow>
        if r = 0 then Inr (0, c1) else on_db (\<lambda>db. peers_db_remove db (pi_UID i)) c1 | Inl f \<Rightarrow> Inl f) = Inr (r2, c2)"
    and c2: "db_wf (ac_p_db c2)" "disp_ok (ac_rudp c2)" "ctx_uid c2 = ctx_uid c" "ac_now_ms c2 = ac_now_ms c"
      "\<forall>uid. peers c2 uid = (if pi_UID i = uid \<and> dead c i then None else peers c uid)"
      "\<forall>uid. conns (ac_rudp c2) uid = (if pi_UID i = uid \<and> dead c i then None else conns (ac_rudp c) uid)"
      "filter is_ping (sent c2) = filter is_ping (sent c) @ ping_msgs c [i]" for r2 c2
  proof -
    have eq: "io_pings (i # infos) c = io_pings infos c2"
      using m by (cases "ping_iter i c") (auto split: if_splits prod.splits)
    have d: "dead c2 = dead c" "ping_msgs c2 infos = ping_msgs c infos"
      using c2(3,4) by (auto simp: dead_def silence_def ping_msgs_def fun_eq_iff)
    from Cons.IH [OF c2(1,2)] obtain c' where c': "io_pings infos c2 = Inr (0, c')" "db_wf (ac_p_db c')"
      "disp_ok (ac_rudp c')" "ctx_uid c' = ctx_uid c" "ac_now_ms c' = ac_now_ms c"
      "\<forall>uid. peers c' uid = (if \<exists>i \<in> set infos. pi_UID i = uid \<and> dead c i then None else peers c2 uid)"
      "\<forall>uid. conns (ac_rudp c') uid =
         (if \<exists>i \<in> set infos. pi_UID i = uid \<and> dead c i then None else conns (ac_rudp c2) uid)"
      "filter is_ping (sent c') = filter is_ping (sent c2) @ ping_msgs c infos"
      using c2(3,4) by (auto simp: d)
    have "ping_msgs c (i # infos) = ping_msgs c [i] @ ping_msgs c infos" by (simp add: ping_msgs_def)
    with c' c2(5-7) eq show ?thesis by (intro exI [of _ c']) auto
  qed
  show ?case
  proof (cases "dead c i")
    case True
    obtain r d where d: "rudp_close_conncetion (ac_rudp c) (pi_UID i) = Inr (r, d)" "disp_ok d"
      "conns d = (conns (ac_rudp c))(pi_UID i := None)" "self_uid d = ctx_uid c"
      "s_packets (d_sender d) = sent c @ fins (ac_rudp c) (pi_UID i)"
      by (rule close_ok [OF Cons.prems(2)])
    obtain r' db where db: "on_db (\<lambda>db. peers_db_remove db (pi_UID i)) (c\<lparr>ac_rudp := d\<rparr>) =
        Inr (r', c\<lparr>ac_rudp := d, ac_p_db := db\<rparr>)" "db_wf db" "peer_lookup db = (peers c)(pi_UID i := None)"
      using on_db_remove [of "c\<lparr>ac_rudp := d\<rparr>" "pi_UID i"] Cons.prems(1) by auto
    have ping: "ping_iter i c = Inr (1, c\<lparr>ac_rudp := d\<rparr>)"
      using True by (simp add: ping_iter_def dead_def d(1))
    show ?thesis
      by (rule step [of r' "c\<lparr>ac_rudp := d, ac_p_db := db\<rparr>"])
        (use True in \<open>simp_all add: ping db d fins_no_ping ping_msgs_def\<close>)
  next
    case alive: False
    show ?thesis
    proof (cases "3000 \<le> silence i c")
      case True
      obtain c1 where c1: "send_pack (Some (quick (ctx_uid c) (pi_UID i) 0 PACK_PING)) (pi_nfd i) c = Inr (0, c1)"
        "ac_p_db c1 = ac_p_db c" "sent c1 = sent c @ [(quick (ctx_uid c) (pi_UID i) 0 PACK_PING, pi_nfd i)]"
        "same_rest c c1"
        by (rule send_quick)
      have ping: "ping_iter i c = Inr (0, c1)"
        using alive True by (simp add: ping_iter_def dead_def proto_msg_quick_eq c1(1))
      have rest: "ctx_uid c1 = ctx_uid c" "ac_now_ms c1 = ac_now_ms c" "connections (ac_rudp c1) = connections (ac_rudp c)"
        "heap (ac_rudp c1) = heap (ac_rudp c)" "next_addr (ac_rudp c1) = next_addr (ac_rudp c)"
        using c1(4) by (auto simp: same_rest_def)
      have "is_ping (quick (ctx_uid c) (pi_UID i) 0 PACK_PING, pi_nfd i)" by (simp add: is_ping_def quick_def)
      moreover have "disp_ok (ac_rudp c1)" using Cons.prems(2) rest by (simp add: disp_ok_def conns_def)
      ultimately show ?thesis
        by (intro step [of 0 c1])
          (use alive True Cons.prems in \<open>simp_all add: ping c1(2,3) rest ping_msgs_def conns_def\<close>)
    next
      case False
      then have ping: "ping_iter i c = Inr (0, c)" using alive by (simp add: ping_iter_def dead_def)
      show ?thesis
        by (rule step [of 0 c]) (use alive False Cons.prems in \<open>simp_all add: ping ping_msgs_def\<close>)
    qed
  qed
qed (simp add: ping_msgs_def)

subsection \<open>Properties of a run\<close>

lemma snapshot_ok:
  assumes "db_wf (ac_p_db c)"
  shows "on_db (peers_db_snapshot True) c = Inr (map snd (db_pairs (ac_p_db c)), c)"
proof -
  have "peers_db_snapshot True (ac_p_db c) = Inr (map snd (db_pairs (ac_p_db c)), ac_p_db c)"
    using db_with_same [OF assms]
    by (simp add: peers_db_snapshot_def with_mutex_free db_wfD(1) [OF assms] on_data_def db_with_def db_pairs_def)
  then show ?thesis by (simp add: on_db_def)
qed

lemma in_snapshot:
  assumes "db_wf (ac_p_db c)"
  shows "i \<in> set (map snd (db_pairs (ac_p_db c))) \<longleftrightarrow> peers c (pi_UID i) = Some i"
proof
  assume "i \<in> set (map snd (db_pairs (ac_p_db c)))"
  then obtain uid where "(uid, i) \<in> set (db_pairs (ac_p_db c))" by auto
  then have "peers c uid = Some i" using db_pairs_lookup [OF assms] by blast
  moreover from this have "pi_UID i = uid" by (rule db_wfD(3) [OF assms])
  ultimately show "peers c (pi_UID i) = Some i" by simp
next
  assume "peers c (pi_UID i) = Some i"
  then have "(pi_UID i, i) \<in> set (db_pairs (ac_p_db c))" using db_pairs_lookup [OF assms] by blast
  then have "snd (pi_UID i, i) \<in> snd ` set (db_pairs (ac_p_db c))" by (rule imageI)
  then show "i \<in> set (map snd (db_pairs (ac_p_db c)))" by simp
qed

text \<open>
  C10: a round of pings over a snapshot of the database drops exactly the peers that have been
  silent for ten seconds, and closes exactly their connections; it pings exactly the other
  peers that have been silent for three, once each.
\<close>

theorem io_pings_exact:
  assumes "ctx_ok so c"
  shows "\<exists>infos c'. on_db (peers_db_snapshot True) c = Inr (infos, c) \<and> distinct (map pi_UID infos) \<and>
    (\<forall>i. i \<in> set infos \<longleftrightarrow> peers c (pi_UID i) = Some i) \<and>
    io_pings infos c = Inr (0, c') \<and>
    (\<forall>uid. peers c' uid =
       (case peers c uid of Some i \<Rightarrow> if 10000 \<le> silence i c then None else Some i | None \<Rightarrow> None)) \<and>
    (\<forall>uid. conns (ac_rudp c') uid =
       (case peers c uid of Some i \<Rightarrow> if 10000 \<le> silence i c then None else conns (ac_rudp c) uid
        | None \<Rightarrow> conns (ac_rudp c) uid)) \<and>
    filter is_ping (sent c') = filter is_ping (sent c) @
      map (\<lambda>i. (quick (ctx_uid c) (pi_UID i) 0 PACK_PING, pi_nfd i))
        (filter (\<lambda>i. silence i c < 10000 \<and> 3000 \<le> silence i c) infos)"
proof -
  have wf: "db_wf (ac_p_db c)" "disp_ok (ac_rudp c)" using assms by (auto simp: ctx_ok_def)
  let ?infos = "map snd (db_pairs (ac_p_db c))"
  note snap = in_snapshot [OF wf(1)]
  have dist: "distinct (map pi_UID ?infos)"
  proof -
    have "map pi_UID ?infos = map fst (db_pairs (ac_p_db c))"
      using fstate_uids [OF wf(1), of "\<lambda>_. True"] by simp
    then show ?thesis using db_wfD(2) [OF wf(1)] by (simp only: dt_wf_def db_pairs_def)
  qed
  have dead: "(\<exists>i \<in> set ?infos. pi_UID i = uid \<and> dead c i) \<longleftrightarrow>
      (\<exists>i. peers c uid = Some i \<and> 10000 \<le> silence i c)" for uid
    unfolding dead_def using snap db_wfD(3) [OF wf(1)] by blast
  have filt: "ping_msgs c ?infos = map (\<lambda>i. (quick (ctx_uid c) (pi_UID i) 0 PACK_PING, pi_nfd i))
      (filter (\<lambda>i. silence i c < 10000 \<and> 3000 \<le> silence i c) ?infos)"
    by (simp add: ping_msgs_def dead_def not_le)
  obtain c' where c': "io_pings ?infos c = Inr (0, c')"
    "\<forall>uid. peers c' uid = (if \<exists>i. peers c uid = Some i \<and> 10000 \<le> silence i c then None else peers c uid)"
    "\<forall>uid. conns (ac_rudp c') uid =
       (if \<exists>i. peers c uid = Some i \<and> 10000 \<le> silence i c then None else conns (ac_rudp c) uid)"
    "filter is_ping (sent c') = filter is_ping (sent c) @ ping_msgs c ?infos"
    using io_pings_ok [OF wf, of ?infos] unfolding dead by blast
  show ?thesis
    using c' dist snap snapshot_ok [OF wf(1)]
    by (intro exI [of _ ?infos] exI [of _ c'] conjI) (simp_all add: filt split: option.split)
qed

theorem io_pings_exact_witness:
  "\<exists>infos c'. io_pings infos ((s_ctx (demo_node 5 demo_db))\<lparr>ac_now_ms := 4000\<rparr>) = Inr (0, c') \<and>
     peers c' 77 = Some demo_peer \<and>
     filter is_ping (sent c') = filter is_ping (sent (s_ctx (demo_node 5 demo_db))) @
       [(quick 5 77 0 PACK_PING, demo_fd)]"
proof -
  let ?c = "(s_ctx (demo_node 5 demo_db))\<lparr>ac_now_ms := 4000\<rparr>"
  have "ctx_ok demo_sodium ?c" using demo_ctx_ok [of 5] by (simp add: ctx_ok_def)
  from io_pings_exact [OF this] obtain infos c' where i: "io_pings infos ?c = Inr (0, c')"
    "distinct (map pi_UID infos)" "\<forall>i. i \<in> set infos \<longleftrightarrow> [77 \<mapsto> demo_peer] (pi_UID i) = Some i"
    "peers c' 77 = (if 10000 \<le> silence demo_peer ?c then None else Some demo_peer)"
    "filter is_ping (sent c') = filter is_ping (sent ?c) @
       map (\<lambda>i. (quick 5 (pi_UID i) 0 PACK_PING, pi_nfd i))
        (filter (\<lambda>i. silence i ?c < 10000 \<and> 3000 \<le> silence i ?c) infos)"
    by (auto simp: demo_db_wf(2))
  have "set infos = {demo_peer}" using i(3) by (auto split: if_splits)
  then have "infos = [demo_peer]"
    using i(2) by (cases infos; cases "tl infos") auto
  then show ?thesis using i by (intro exI [of _ infos] exI [of _ c']) (simp add: silence_def demo_peer_def)
qed

text \<open>
  The time stamp of a peer has 32 bits, the clock 64: once the clock has passed 2^32
  milliseconds by ten seconds, a round of pings drops every peer and closes its connection,
  however recently it was heard of.
\<close>

theorem io_pings_clock_wrap:
  assumes "ctx_ok so c" and "2 ^ 32 + 10000 \<le> ac_now_ms c"
  shows "\<exists>infos c'. on_db (peers_db_snapshot True) c = Inr (infos, c) \<and> io_pings infos c = Inr (0, c') \<and>
    peers c' = Map.empty \<and> (\<forall>uid. peers c uid \<noteq> None \<longrightarrow> conns (ac_rudp c') uid = None)"
proof -
  have wf: "db_wf (ac_p_db c)" "disp_ok (ac_rudp c)" using assms(1) by (auto simp: ctx_ok_def)
  let ?infos = "map snd (db_pairs (ac_p_db c))"
  have "uint (pi_last_seen i) < 2 ^ 32" for i using unsigned_less [of "pi_last_seen i", where 'a = int] by simp
  then have dead: "dead c i" for i
    using assms(2) by (smt (verit) dead_def silence_def)
  have some: "(\<exists>i \<in> set ?infos. pi_UID i = uid \<and> dead c i) \<longleftrightarrow> peers c uid \<noteq> None" for uid
    using in_snapshot [OF wf(1)] db_wfD(3) [OF wf(1)] dead by (metis not_None_eq)
  obtain c' where c': "io_pings ?infos c = Inr (0, c')"
    "\<forall>uid. peers c' uid = (if peers c uid \<noteq> None then None else peers c uid)"
    "\<forall>uid. conns (ac_rudp c') uid = (if peers c uid \<noteq> None then None else conns (ac_rudp c) uid)"
    using io_pings_ok [OF wf, of ?infos] unfolding some by blast
  have "peers c' = Map.empty" using c'(2) by (auto simp: fun_eq_iff)
  with c' snapshot_ok [OF wf(1)] show ?thesis by (intro exI [of _ ?infos] exI [of _ c']) simp
qed

theorem io_pings_clock_wrap_witness:
  "\<exists>infos c'. io_pings infos ((s_ctx (demo_node 5 demo_db))\<lparr>ac_now_ms := 2 ^ 32 + 10000\<rparr>) = Inr (0, c') \<and>
     peers (s_ctx (demo_node 5 demo_db)) 77 \<noteq> None \<and> peers c' 77 = None"
proof -
  let ?c = "(s_ctx (demo_node 5 demo_db))\<lparr>ac_now_ms := 2 ^ 32 + 10000\<rparr>"
  have "ctx_ok demo_sodium ?c" using demo_ctx_ok [of 5] by (simp add: ctx_ok_def)
  from io_pings_clock_wrap [OF this] obtain infos c' where
    "io_pings infos ?c = Inr (0, c')" "peers c' = Map.empty" by auto
  then show ?thesis by (intro exI [of _ infos] exI [of _ c']) (simp add: demo_db_wf(2))
qed

lemma copy_entries_overread:
  "\<lbrakk>i \<le> length es; length es < i + n\<rbrakk> \<Longrightarrow> copy_entries es i n out = Inl OutOfBounds"
  by (induction es i n out rule: copy_entries.induct) auto

lemma gossip_to_data_overread:
  assumes "2 \<le> n"
  shows "gossip_to_data True (take 1 es) n = Inl OutOfBounds"
  using assms copy_entries_overread [of 0 "take 1 es" n "le32 (htonl (of_nat n))"]
  by (simp add: gossip_to_data_def)

text \<open>
  Gossip does not survive a second entry: when the coin says that a peer is gossiped to, and
  any other node is already known, the run passes \<open>gossip_to_data\<close> an array with one pointer and
  the number of the chosen entries, and reads past it.
\<close>

theorem gossip_iter_overread:
  assumes "gossip_wf (ac_g_syst c)" and "odd (de_rand e i)"
    and "ss_family (fd_addr (pi_nfd info)) = AF_INET" and "length (ss_addr4 (fd_addr (pi_nfd info))) = 4"
    and "pi_UID info \<noteq> gs_self_uid (ac_g_syst c)"
    and "gossip_lookup (ac_g_syst c) u \<noteq> None" and "u \<noteq> pi_UID info"
  shows "gossip_iter e i info c = Inl OutOfBounds"
proof -
  let ?ip = "inet_ntop4 (ss_addr4 (fd_addr (pi_nfd info)))" and ?port = "ntohs (ss_port (fd_addr (pi_nfd info)))"
  let ?md = "\<lparr>md_pubkey = pi_pubkey info, md_server = pi_server info\<rparr>"
  have ip: "length ?ip < 16" using length_inet_ntop4 [of "ss_addr4 (fd_addr (pi_nfd info))"] by simp
  have a: "ln_nfd2addr (e_lib e) (pi_nfd info) = Inr (na4 ?ip ?port)"
    using assms(3,4) by (simp add: ln_nfd2addr_v4)
  define entry where "entry = \<lparr>ge_uid = pi_UID info, ge_addr = na4 ?ip (htons ?port), ge_version = 0,
    ge_timestamp = word_of_int (e_secs e (i + 2)), ge_md = ?md\<rparr>"
  have entry: "gossip_create_entry (e_secs e (i + 2)) (pi_UID info) (na4 ?ip ?port) ?md True = Inr entry"
    by (simp add: gossip_create_entry_def ln_hton_na4(1) [OF ip inet_ntop4_nonzero] entry_def)
  have uid: "ge_uid entry = pi_UID info" by (simp add: entry_def)
  let ?es = "elements (obj (gossips (ac_g_syst c)))"
  obtain g where g: "gossip_new_entry True (ac_g_syst c) entry = Inr (0, g)" "gossip_wf g"
    "elements (obj (gossips g)) = merge_entry ?es entry"
    using gossip_new_entry_merge [OF assms(1), of entry] assms(5) uid by metis
  have "gossip_wf (ac_g_syst c)" by fact
  then have dist: "distinct (map ge_uid ?es)" by (simp add: gossip_wf_def)
  have "find_entry (merge_entry ?es entry) u \<noteq> None" "find_entry (merge_entry ?es entry) (pi_UID info) \<noteq> None"
    using merge_entry_cases [OF dist, of entry] assms(6,7)
    by (auto simp: gossip_lookup_find uid split: option.splits)
  then have "u \<in> ge_uid ` set (elements (obj (gossips g)))" "pi_UID info \<in> ge_uid ` set (elements (obj (gossips g)))"
    by (simp_all add: find_entry_None g(3))
  then have "card {u, pi_UID info} \<le> card (ge_uid ` set (elements (obj (gossips g))))"
    by (intro card_mono) auto
  then have two: "2 \<le> length (elements (obj (gossips g)))"
    using assms(7) card_image_le [of "set (elements (obj (gossips g)))" ge_uid]
      card_length [of "elements (obj (gossips g))"] by simp
  let ?n = "if len (obj (gossips g)) < 5 then len (obj (gossips g)) else 5"
  have "elements (obj (gossips g)) \<noteq> []" using two by auto
  then have "\<exists>es g'. gossip_random_entries True (de_pick e i) g 5 = Inr ((0, es, ?n), g')"
    using g(2) by (simp add: gossip_random_entries_def on_gossips_def with_mutex_free gossip_wf_def Let_def)
  then obtain es g' where rand: "gossip_random_entries True (de_pick e i) g 5 = Inr ((0, es, ?n), g')" by blast
  have "2 \<le> ?n" using two by simp
  then have over: "gossip_to_data True (take 1 es) ?n = Inl OutOfBounds" by (rule gossip_to_data_overread)
  have odd: "de_rand e i mod 2 \<noteq> 0" using assms(2) by presburger
  show ?thesis
    unfolding gossip_iter_def using odd
    by (simp add: a entry g(1) rand over Let_def del: One_nat_def add_2_eq_Suc')
qed

lemma turn_pair_none:
  assumes "turn_wf (ac_turn (s_ctx s))"
  obtains c where "on_ctx (on_turn (\<lambda>t. turn_check_pair t a b)) s =
      Inr (bound (ac_turn (s_ctx s)) (turn_pair_hash a b) \<noteq> None, s\<lparr>s_ctx := c\<rparr>)"
    "ac_p_db c = ac_p_db (s_ctx s)" "passed_pkts (ac_rudp c) = passed_pkts (s_rudp s)"
    "ac_turn c = (ac_turn (s_ctx s))\<lparr>tc_sender := tc_sender (ac_turn c)\<rparr>"
    "l_packets (ac_listener c) = l_packets (ac_listener (s_ctx s))"
proof -
  let ?t = "(ac_turn (s_ctx s))\<lparr>tc_sender := d_sender (s_rudp s)\<rparr>"
  have "turn_check_pair ?t a b = Inr (bound (ac_turn (s_ctx s)) (turn_pair_hash a b) \<noteq> None, ?t)"
    using turn_check_pair_ok [of ?t a b] assms by (simp add: bound_def)
  then show ?thesis
    by (intro that [of "(s_ctx s)\<lparr>ac_turn := ?t, ac_rudp := s_rudp s\<rparr>"])
      (simp_all add: on_ctx_def on_turn_def)
qed

text \<open>
  A datagram of one packet, whatever its origin, takes the packet thread out of bounds when
  its type byte is none of the fourteen types: the listener accepts it, and the name of its type is
  looked up to print it.
\<close>

theorem io_unknown_type_faults:
  assumes "turn_wf (ac_turn (s_ctx s))" and "pack_ok p" and "PACKET_TYPE_MAX \<le> unat (packtype p)"
    and "holes (s_ctx s) (turn_pair_hash (h_to p) (h_from p)) = None"
    and "l_packets l = []" and "l_proxy l = None"
  shows "\<exists>raw. wire p = Inr (Some raw) \<and>
    io_packets e (l_packets (pvd_listener_iter l raw fd)) s = Inl OutOfBounds"
proof -
  obtain raw where raw: "wire p = Inr (Some raw)" using wire_ok [OF assms(2)] by blast
  obtain ch where recv: "fst (protopack_recv raw) = Some (p\<lparr>chsum := ch\<rparr>)" using recv_wire [OF assms(2) raw] by blast
  have "raw \<noteq> []" using raw wire_ok [OF assms(2)] by (auto simp: pack_bytes_def)
  then have l: "l_packets (pvd_listener_iter l raw fd) = [(Some (p\<lparr>chsum := ch\<rparr>), fd)]"
    using assms(5,6) recv by (simp add: pvd_listener_iter_def pvd_listener_pass_def)
  let ?s = "s\<lparr>s_ctx := (s_ctx s)\<lparr>ac_listener := (ac_listener (s_ctx s))\<lparr>l_packets := []\<rparr>\<rparr>\<rparr>"
  obtain c where c: "on_ctx (on_turn (\<lambda>t. turn_check_pair t (h_to p) (h_from p))) ?s =
      Inr (False, ?s\<lparr>s_ctx := c\<rparr>)"
    using turn_pair_none [of ?s "h_to p" "h_from p"] assms(1,4) by auto
  have t: "packtype p \<noteq> pt_code t" for t
    using assms(3) by (cases t) (auto simp: PACKET_TYPE_MAX_def)
  then have "proto_print (p\<lparr>chsum := ch\<rparr>) = Inl OutOfBounds" "\<not> udp_is_RUDP_req (packtype p)"
    using assms(3) by (simp_all add: proto_print_def udp_is_RUDP_req_def del: pt_code.simps)
  then have "io_packet e (Some (p\<lparr>chsum := ch\<rparr>)) fd ?s = Inl OutOfBounds"
    by (simp add: io_packet_def c)
  then show ?thesis by (intro exI [of _ raw]) (simp add: raw l)
qed


text \<open>A concrete run: the node knows another node, and draws 1.\<close>

definition demo_denv :: daemon_env where
  "demo_denv = \<lparr>e_lib = demo_lib6, e_so = demo_sodium, e_ms = 4000, e_secs = (\<lambda>_. 1700000000),
     e_fill = (demo_request, zeros 52), e_status = 0, e_truid = 0, de_nonce = 7, de_rand = (\<lambda>_. 1),
     de_pick = (\<lambda>_ _. 0), de_rate_gt1 = (\<lambda>_. False), de_watcher_fill = (None, demo_fd),
     de_conns_fill = li_of_bytes (zeros 140)\<rparr>"

definition demo_gctx :: app_context where
  "demo_gctx = (s_ctx (demo_node 5 demo_db))\<lparr>ac_g_syst := demo_gossip [demo_entry 9 0]\<rparr>"

theorem gossip_iter_overread_witness:
  "gossip_iter demo_denv 0 demo_peer demo_gctx = Inl OutOfBounds"
proof -
  have "gossip_wf (ac_g_syst demo_gctx)" by (simp add: demo_gctx_def demo_gossip_wf(1))
  moreover have "gossip_lookup (ac_g_syst demo_gctx) 9 \<noteq> None"
    by (simp add: demo_gctx_def gossip_lookup_find demo_gossip_wf(2))
  moreover have "pi_UID demo_peer \<noteq> gs_self_uid (ac_g_syst demo_gctx)"
    by (simp add: demo_gctx_def demo_gossip_def)
  ultimately show ?thesis
    by (intro gossip_iter_overread [where u = 9]) (simp_all add: demo_denv_def demo_fd_def)
qed

lemma demo_turn: "turn_wf (ac_turn (s_ctx (demo_node uid db)))" "holes (s_ctx (demo_node uid db)) = Map.empty"
proof -
  let ?c = "s_ctx (new_node demo_sodium demo_sign (zeros 52) 0 0 (None, demo_fd) (demo_request, zeros 52) 0
                (li_of_bytes (zeros 140)))"
  have "ctx_ok demo_sodium ?c" by (rule new_node_ok)
  then show "turn_wf (ac_turn (s_ctx (demo_node uid db)))" by (simp add: ctx_ok_def demo_node_def Let_def)
  have "bound (ac_turn ?c) = Map.empty"
    using pq_create_ok [of "0 :: u32" 4] pq_create_ok [of "li_of_bytes (zeros 140)" 140]
      pq_create_ok [of "(demo_request, zeros 52)" 220]
    by (intro ext) (simp add: new_node_def s2_systems_create_def create_parts split_beta Let_def
        bound_def turn_client_init_def prot_table_create_def dyn_table_get_map_of)
  then show "holes (s_ctx (demo_node uid db)) = Map.empty" by (simp add: demo_node_def Let_def)
qed

theorem io_unknown_type_faults_witness:
  "\<exists>raw. wire (demo_pack\<lparr>packtype := 200\<rparr>) = Inr (Some raw) \<and>
     io_packets demo_denv (l_packets (pvd_listener_iter (snd pvd_listener_new) raw demo_fd))
       (demo_node 5 demo_db) = Inl OutOfBounds"
proof (rule io_unknown_type_faults)
  show "pack_ok (demo_pack\<lparr>packtype := 200\<rparr>)" using demo_pack_ok by (simp add: pack_ok_def)
qed (simp_all add: demo_turn PACKET_TYPE_MAX_def pvd_listener_new_def)

lemma on_db_utime:
  assumes "db_wf (ac_p_db c)"
  obtains r db where "on_db (\<lambda>db. peers_db_utime now db uid) c = Inr (r, c\<lparr>ac_p_db := db\<rparr>)" "db_wf db"
    "peer_lookup db = (peers c)(uid := map_option (\<lambda>i. i\<lparr>pi_last_seen := word_of_int now\<rparr>) (peers c uid))"
proof -
  obtain r db where "peers_db_utime now (ac_p_db c) uid = Inr (r, db)" "db_wf db"
    "peer_lookup db = (peers c)(uid := map_option (\<lambda>i. i\<lparr>pi_last_seen := word_of_int now\<rparr>) (peers c uid))"
    using peers_db_write_ok [OF assms, of "\<lambda>i. i\<lparr>pi_last_seen := word_of_int now\<rparr>" uid]
    unfolding peers_db_utime_def by auto
  then show ?thesis by (intro that [of r db]) (simp_all add: on_db_def)
qed

lemma io_packet_end:
  assumes "db_wf (ac_p_db (s_ctx s))"
  obtains s' where "bind_fault (on_ctx (on_db (\<lambda>db. peers_db_utime now db uid)) s) (\<lambda>(_, s). Inr s) = Inr s'"
    "s_watcher s' = s_watcher s" "s_rudp s' = s_rudp s" "packets_translated s' = packets_translated s"
    "peers (s_ctx s') = (peers (s_ctx s))(uid :=
       map_option (\<lambda>i. i\<lparr>pi_last_seen := word_of_int now\<rparr>) (peers (s_ctx s) uid))"
proof -
  obtain r db where db: "on_db (\<lambda>db. peers_db_utime now db uid) (s_ctx s) = Inr (r, (s_ctx s)\<lparr>ac_p_db := db\<rparr>)"
    "peer_lookup db = (peers (s_ctx s))(uid :=
       map_option (\<lambda>i. i\<lparr>pi_last_seen := word_of_int now\<rparr>) (peers (s_ctx s) uid))"
    by (rule on_db_utime [OF assms])
  show ?thesis
    by (rule that [of "s\<lparr>s_ctx := (s_ctx s)\<lparr>ac_p_db := db\<rparr>\<rparr>"]) (simp_all add: on_ctx_def db)
qed

text \<open>
  C25: a packet of a known type that is not from behind a hole is passed on once and unchanged: packets of
  the reliable protocol to the dispatcher, all others, with their source, to the watcher.
  Either way the sender of the packet, if it is a known peer, has been seen now.
\<close>

theorem io_packet_routes:
  assumes "ctx_ok so (s_ctx s)" and "watcher_wf (s_watcher s)" and "unat (packtype p) < PACKET_TYPE_MAX"
    and "holes (s_ctx s) (turn_pair_hash (h_to p) (h_from p)) = None"
  shows "\<exists>s'. io_packet e (Some p) fd s = Inr s' \<and>
    passed_pkts (s_rudp s') = passed_pkts (s_rudp s) @ (if udp_is_RUDP_req (packtype p) then [p] else []) \<and>
    ring (passed_packets (s_watcher s')) = ring (passed_packets (s_watcher s)) @
      (if udp_is_RUDP_req (packtype p) then [] else [(Some p, fd)]) \<and>
    peers (s_ctx s') = (peers (s_ctx s))(h_from p :=
      map_option (\<lambda>i. i\<lparr>pi_last_seen := word_of_int (e_ms e)\<rparr>) (peers (s_ctx s) (h_from p))) \<and>
    packets_translated s' = packets_translated s + 1"
proof -
  have wf: "db_wf (ac_p_db (s_ctx s))" "turn_wf (ac_turn (s_ctx s))" using assms(1) by (auto simp: ctx_ok_def)
  obtain c where c: "on_ctx (on_turn (\<lambda>t. turn_check_pair t (h_to p) (h_from p))) s = Inr (False, s\<lparr>s_ctx := c\<rparr>)"
    "ac_p_db c = ac_p_db (s_ctx s)" "passed_pkts (ac_rudp c) = passed_pkts (s_rudp s)"
    using turn_pair_none [OF wf(2), of "h_to p" "h_from p"] assms(4) by auto
  show ?thesis
  proof (cases "udp_is_RUDP_req (packtype p)")
    case True
    let ?d = "(ac_rudp c)\<lparr>passed_pkts := passed_pkts (ac_rudp c) @ [p],
        ev_passed := mt_evsock_notify (ev_passed (ac_rudp c))\<rparr>"
    let ?s = "s\<lparr>s_ctx := c\<lparr>ac_rudp := ?d\<rparr>, packets_translated := packets_translated s + 1\<rparr>"
    obtain s' where s': "bind_fault (on_ctx (on_db (\<lambda>db. peers_db_utime (e_ms e) db (h_from p))) ?s) (\<lambda>(_, s). Inr s) = Inr s'"
      "s_watcher s' = s_watcher ?s" "s_rudp s' = s_rudp ?s" "packets_translated s' = packets_translated ?s"
      "peers (s_ctx s') = (peers (s_ctx ?s))(h_from p :=
         map_option (\<lambda>i. i\<lparr>pi_last_seen := word_of_int (e_ms e)\<rparr>) (peers (s_ctx ?s) (h_from p)))"
      by (rule io_packet_end [of ?s]) (simp add: c(2) wf(1))
    have "io_packet e (Some p) fd s = Inr s'"
      using s'(1) True by (simp add: io_packet_def c(1) rudp_dispatcher_pass_def Let_def)
    then show ?thesis using s'(2-) c(2,3) True by (intro exI [of _ s']) simp
  next
    case False
    obtain w where w: "watcher_pass (de_watcher_fill e) (s_watcher s) p fd = Inr (0, w)"
      "ring (passed_packets w) = ring (passed_packets (s_watcher s)) @ [(Some p, fd)]"
      using watcher_pass_ok [OF assms(2), of "de_watcher_fill e" p fd] by blast
    let ?s = "s\<lparr>s_ctx := c, s_watcher := w, packets_translated := packets_translated s + 1\<rparr>"
    obtain s' where s': "bind_fault (on_ctx (on_db (\<lambda>db. peers_db_utime (e_ms e) db (h_from p))) ?s) (\<lambda>(_, s). Inr s) = Inr s'"
      "s_watcher s' = s_watcher ?s" "s_rudp s' = s_rudp ?s" "packets_translated s' = packets_translated ?s"
      "peers (s_ctx s') = (peers (s_ctx ?s))(h_from p :=
         map_option (\<lambda>i. i\<lparr>pi_last_seen := word_of_int (e_ms e)\<rparr>) (peers (s_ctx ?s) (h_from p)))"
      by (rule io_packet_end [of ?s]) (simp add: c(2) wf(1))
    have "proto_print p = Inr ()"
      using False assms(3) by (simp add: proto_print_def udp_is_RUDP_req_def)
    then have "io_packet e (Some p) fd s = Inr s'"
      using s'(1) False by (simp add: io_packet_def c(1) w(1) Let_def)
    then show ?thesis using s'(2-) c(2,3) False w(2) by (intro exI [of _ s']) simp
  qed
qed

lemma demo_watcher: "w_handlers (s_watcher (demo_node uid db)) = node_handlers"
  by (simp add: demo_node_def Let_def new_node_ok)

theorem io_packet_routes_witness:
  "\<exists>s'. io_packet demo_denv (Some (quick 77 5 1 PACK_PING)) demo_fd
       ((demo_node 5 demo_db)\<lparr>s_watcher := snd (watcher_start 0 (snd (watcher_init (None, demo_fd))))\<rparr>) = Inr s' \<and>
     ring (passed_packets (s_watcher s')) = [(Some (quick 77 5 1 PACK_PING), demo_fd)] \<and>
     map_option pi_last_seen (peers (s_ctx s') 77) = Some 4000"
proof -
  let ?s = "(demo_node 5 demo_db)\<lparr>s_watcher := snd (watcher_start 0 (snd (watcher_init (None, demo_fd))))\<rparr>"
  have ok: "ctx_ok demo_sodium (s_ctx ?s)" using demo_ctx_ok [of 5] by simp
  have w: "watcher_wf (s_watcher ?s)" "ring (passed_packets (s_watcher ?s)) = []"
    using watcher_init_wf(1,2) by simp_all
  have t: "unat (packtype (quick 77 5 1 PACK_PING)) < PACKET_TYPE_MAX"
    "\<not> udp_is_RUDP_req (packtype (quick 77 5 1 PACK_PING))"
    by (simp_all add: quick_def PACKET_TYPE_MAX_def udp_is_RUDP_req_def)
  have e: "e_ms demo_denv = 4000" by (simp add: demo_denv_def)
  have "holes (s_ctx ?s) k = None" for k by (simp add: demo_turn)
  from io_packet_routes [OF ok w(1) t(1) this, of demo_denv demo_fd] show ?thesis
    using t(2) by (auto simp: w(2) [simplified] demo_db_wf(2) e)
qed

subsection \<open>The answers\<close>

abbreviation answers :: "s2_systems \<Rightarrow> (state_request \<times> naddr_t) list" where
  "answers s \<equiv> ring (new_state_ans (ac_ssystem (s_ctx s)))"

definition st_ok :: "s2_systems \<Rightarrow> bool" where
  "st_ok s \<longleftrightarrow> db_wf (ac_p_db (s_ctx s)) \<and> pq_wf (new_state_ans (ac_ssystem (s_ctx s))) \<and> pq_wf (reqd_conns s)"

lemma st_answer_ok:
  assumes "st_ok s"
  shows "\<exists>s'. st_answer e sreq s = Inr s' \<and> st_ok s' \<and> s_ctx s' = s_ctx s \<and>
    (\<exists>q ev. s' = s\<lparr>reqd_conns := q, reqd_conn_ev := ev\<rparr>) \<and>
    ring (reqd_conns s') = ring (reqd_conns s) @
      (if peers (s_ctx s) (sr_uid (fst sreq)) = None then [answer_linfo sreq] else [])"
proof -
  have wf: "db_wf (ac_p_db (s_ctx s))" "pq_wf (reqd_conns s)" using assms by (simp_all add: st_ok_def)
  have check: "on_ctx (on_db (\<lambda>db. peers_db_check db (sr_uid (fst sreq)))) s =
      Inr (peers (s_ctx s) (sr_uid (fst sreq)) \<noteq> None, s)"
    by (simp add: on_ctx_def on_db_def peers_db_check_ok [OF wf(1)])
  obtain q where q: "prot_queue_push (de_conns_fill e) (reqd_conns s) (answer_linfo sreq) = Inr (0, q)" "pq_wf q"
    "ring q = ring (reqd_conns s) @ [answer_linfo sreq]"
    using prot_queue_push_ok [OF wf(2)] by blast
  show ?thesis
  proof (cases "peers (s_ctx s) (sr_uid (fst sreq)) = None")
    case True
    then show ?thesis using assms q
      by (intro exI [of _ "s\<lparr>reqd_conns := q, reqd_conn_ev := mt_evsock_notify (reqd_conn_ev s)\<rparr>"])
        (auto simp: st_answer_def check st_ok_def)
  next
    case False
    have "\<exists>q ev. s = s\<lparr>reqd_conns := q, reqd_conn_ev := ev\<rparr>"
      by (rule exI [of _ "reqd_conns s"], rule exI [of _ "reqd_conn_ev s"]) simp
    with False show ?thesis using assms by (intro exI [of _ s] conjI) (simp_all add: st_answer_def check)
  qed
qed

lemma pop_answer_ok:
  assumes "st_ok s"
  shows "answers s = [] \<Longrightarrow> \<exists>s'. pop_answer s = Inr (None, s') \<and> st_ok s' \<and> answers s' = [] \<and>
      reqd_conns s' = reqd_conns s \<and> ac_p_db (s_ctx s') = ac_p_db (s_ctx s)"
    and "answers s = x # xs \<Longrightarrow> \<exists>s'. pop_answer s = Inr (Some x, s') \<and> st_ok s' \<and> answers s' = xs \<and>
      reqd_conns s' = reqd_conns s \<and> ac_p_db (s_ctx s') = ac_p_db (s_ctx s)"
proof -
  have wf: "pq_wf (new_state_ans (ac_ssystem (s_ctx s)))" using assms by (simp add: st_ok_def)
  show "answers s = [] \<Longrightarrow> \<exists>s'. pop_answer s = Inr (None, s') \<and> st_ok s' \<and> answers s' = [] \<and>
      reqd_conns s' = reqd_conns s \<and> ac_p_db (s_ctx s') = ac_p_db (s_ctx s)"
    using prot_queue_pop_ok(1) [OF wf] assms by (simp add: pop_answer_def st_ok_def)
  show "\<exists>s'. pop_answer s = Inr (Some x, s') \<and> st_ok s' \<and> answers s' = xs \<and>
      reqd_conns s' = reqd_conns s \<and> ac_p_db (s_ctx s') = ac_p_db (s_ctx s)" if "answers s = x # xs"
    using prot_queue_pop_ok(2) [OF wf that] assms by (auto simp: pop_answer_def st_ok_def)
qed

text \<open>
  C26: the loop over the queued answers ends, and finishes its work: the queue is empty, every
  answer about a UID that is not in the database has become a request to connect, in the order of
  the answers, and the answers about known peers are dropped.
\<close>

theorem st_answers_terminates:
  assumes "db_wf (ac_p_db (s_ctx s))" and "pq_wf (new_state_ans (ac_ssystem (s_ctx s)))"
    and "pq_wf (reqd_conns s)"
  shows "\<exists>s'. st_answers e s = Some (Inr s') \<and> answers s' = [] \<and>
    ac_p_db (s_ctx s') = ac_p_db (s_ctx s) \<and>
    ring (reqd_conns s') = ring (reqd_conns s) @
      map answer_linfo (filter (\<lambda>p. peers (s_ctx s) (sr_uid (fst p)) = None) (answers s))"
proof -
  have "st_ok s" using assms by (simp add: st_ok_def)
  then show ?thesis
  proof (induction "answers s" arbitrary: s)
    case Nil
    then obtain s' where "pop_answer s = Inr (None, s')" "answers s' = []" "reqd_conns s' = reqd_conns s"
      "ac_p_db (s_ctx s') = ac_p_db (s_ctx s)"
      using pop_answer_ok(1) [OF Nil.prems] by metis
    with Nil show ?case by (subst st_answers.simps) simp
  next
    case (Cons x xs)
    obtain s1 where s1: "pop_answer s = Inr (Some x, s1)" "st_ok s1" "answers s1 = xs"
      "reqd_conns s1 = reqd_conns s" "ac_p_db (s_ctx s1) = ac_p_db (s_ctx s)"
      using pop_answer_ok(2) [OF Cons.prems Cons.hyps(2) [symmetric]] by blast
    obtain s2 where s2: "st_answer e x s1 = Inr s2" "st_ok s2" "s_ctx s2 = s_ctx s1"
      "ring (reqd_conns s2) = ring (reqd_conns s1) @
         (if peers (s_ctx s1) (sr_uid (fst x)) = None then [answer_linfo x] else [])"
      using st_answer_ok [OF s1(2)] by blast
    have "xs = answers s2" using s1(3) s2(3) by simp
    from Cons.hyps(1) [OF this s2(2)] obtain s' where s': "st_answers e s2 = Some (Inr s')" "answers s' = []"
      "ac_p_db (s_ctx s') = ac_p_db (s_ctx s2)"
      "ring (reqd_conns s') = ring (reqd_conns s2) @
        map answer_linfo (filter (\<lambda>p. peers (s_ctx s2) (sr_uid (fst p)) = None) (answers s2))"
      by blast
    have "st_answers e s = st_answers e s2"
      by (subst st_answers.simps) (simp add: s1(1) s2(1))
    then show ?case using s' s1(3-5) s2(3,4) Cons.hyps(2) [symmetric]
      by (intro exI [of _ s']) simp
  qed
qed

theorem st_answers_terminates_witness:
  "\<exists>s'. st_answers demo_denv (demo_node 5 demo_db) = Some (Inr s') \<and> answers s' = []"
proof -
  have "ctx_ok demo_sodium (s_ctx (demo_node 5 demo_db))" by (rule demo_ctx_ok)
  moreover have "pq_wf (reqd_conns (demo_node 5 demo_db))"
    by (simp add: demo_node_def Let_def new_node_ok)
  ultimately show ?thesis
    using st_answers_terminates [of "demo_node 5 demo_db" demo_denv] by (auto simp: ctx_ok_def)
qed

subsection \<open>The invariant of the node\<close>

definition sys_ok :: "sodium \<Rightarrow> s2_systems \<Rightarrow> bool" where
  "sys_ok so s \<longleftrightarrow>
     ctx_ok so (s_ctx s) \<and> pq_wf (reqd_conns s) \<and> \<not> mtx (servers s) \<and>
     \<not> mtx (active s) \<and> dt_wf (obj (active s)) \<and>
     w_handlers (s_watcher s) = node_handlers \<and> pq_wf (passed_packets (s_watcher s)) \<and>
     None \<notin> fst ` set (ring (passed_packets (s_watcher s)))"

lemma on_ctx_ok [ok_rules]:
  "\<lbrakk>sys_ok so s; \<And>c. ctx_ok so c \<Longrightarrow> ok_run (ctx_ok so) (f c)\<rbrakk> \<Longrightarrow> ok_run (sys_ok so) (on_ctx f s)"
  unfolding on_ctx_def by (rule ok_run_bind [of "ctx_ok so"]) (auto simp: sys_ok_def)

lemma ctx_ok_rudp:
  "\<lbrakk>ctx_ok so c; disp_ok d; self_uid d = ctx_uid c\<rbrakk> \<Longrightarrow> ctx_ok so (c\<lparr>ac_rudp := d\<rparr>)"
  by (simp add: ctx_ok_def)

lemma servers_loop_ok: "ctx_ok so c \<Longrightarrow> ok_run (ctx_ok so) (servers_loop lib pack sts c)"
proof (induction sts arbitrary: c)
  case (Cons x sts)
  then show ?case
    by (cases x) (auto intro!: ok_run_bind [OF send_pack_ok])
qed simp

lemma state_rcreate_oob: "only_oob (state_rcreate so rnd now a uid t sg)"
  unfolding state_rcreate_def by (rule only_oob_bind [OF ln_hton_oob]) (simp add: Let_def)

lemma state_iter_ok:
  assumes "sys_ok so s"
  shows "ok_run (sys_ok so) (state_iter e s)"
proof -
  have m: "mutex_lock (servers s) = Inr ((servers s)\<lparr>mtx := True\<rparr>)"
    using assms by (simp add: sys_ok_def mutex_lock_def)
  show ?thesis
    unfolding state_iter_def Let_def m bind_fault.simps
    using assms by (auto intro!: ok_run_bind_oob [OF state_rcreate_oob] ok_run_bind [OF on_ctx_ok] servers_loop_ok)
      (simp add: sys_ok_def mutex_unlock_def)
qed

lemma ping_iter_ok: "ctx_ok so c \<Longrightarrow> ok_run (ctx_ok so) (ping_iter info c)"
proof -
  assume ok: "ctx_ok so c"
  then have d: "disp_ok (ac_rudp c)" by (simp add: ctx_ok_def)
  obtain r d' where "rudp_close_conncetion (ac_rudp c) (pi_UID info) = Inr (r, d')" "disp_ok d'"
    "self_uid d' = ctx_uid c"
    by (rule close_ok [OF d])
  with ok show ?thesis
    by (auto simp: ping_iter_def ctx_ok_rudp intro!: ok_run_bind [OF send_pack_ok])
qed

lemma db_remove_ok:
  assumes "db_ok db"
  shows "ok_run db_ok (peers_db_remove db uid)"
proof -
  have wf: "db_wf db" using assms by auto
  obtain r db' where db': "peers_db_remove db uid = Inr (r, db')" "db_wf db'"
    "peer_lookup db' = (peer_lookup db)(uid := None)"
    by (rule peers_db_remove_ok [OF wf])
  with assms show ?thesis by (auto simp: db_ok_def)
qed

lemma io_pings_run: "ctx_ok so c \<Longrightarrow> ok_run (ctx_ok so) (io_pings infos c)"
proof (induction infos arbitrary: c)
  case (Cons i infos)
  then show ?case
    by (auto intro!: ok_run_bind [OF ping_iter_ok] ok_run_bind [OF on_db_ok] db_remove_ok)
qed simp

lemma create_entry_oob: "only_oob (gossip_create_entry now uid a md True)"
  unfolding gossip_create_entry_def by (simp add: only_oob_bind [OF ln_hton_oob])

lemma copy_entries_oob: "only_oob (copy_entries es i n out)"
  by (induction es i n out rule: copy_entries.induct) auto

lemma to_data_oob: "only_oob (gossip_to_data True es n)"
  by (auto simp: gossip_to_data_def intro!: only_oob_bind [OF copy_entries_oob])

lemma random_entries_ok: "gossip_wf g \<Longrightarrow> ok_run gossip_wf (gossip_random_entries True rnd g n)"
  by (auto simp: gossip_random_entries_def on_gossips_def with_mutex_free gossip_wf_def Let_def)

lemma new_entry_ok: "gossip_wf g \<Longrightarrow> ok_run gossip_wf (gossip_new_entry True g x)"
  using gossip_new_entry_merge [of g x] by (metis ok_run_Inr)

lemma gossip_iter_ok:
  assumes "ctx_ok so c"
  shows "ok_run (ctx_ok so) (gossip_iter e i info c)"
proof -
  have g: "gossip_wf (ac_g_syst c)" using assms by (simp add: ctx_ok_def)
  have put: "ctx_ok so (c\<lparr>ac_g_syst := g\<rparr>)" if "gossip_wf g" for g
    using assms that by (simp add: ctx_ok_def)
  have rest: "ok_run (ctx_ok so) (if r = 1 then Inr (0, c\<lparr>ac_g_syst := g\<rparr>)
      else bind_fault (gossip_to_data True (take 1 es) m) (\<lambda>(_, packet_data).
        bind_fault (send_pack (f packet_data) (pi_nfd info) (c\<lparr>ac_g_syst := g\<rparr>)) (\<lambda>(_, c). Inr (0, c))))"
    if "gossip_wf g" for r :: int and g es m f
    using put [OF that] by (auto intro!: ok_run_bind_oob [OF to_data_oob] ok_run_bind [OF send_pack_ok])
  show ?thesis
    unfolding gossip_iter_def Let_def
    using assms g
    by (auto intro!: ok_run_bind_oob [OF ln_nfd2addr_oob] ok_run_bind_oob [OF create_entry_oob]
        ok_run_bind [OF new_entry_ok] ok_run_bind [OF random_entries_ok] rest simp del: One_nat_def)
qed

lemma io_gossips_run: "ctx_ok so c \<Longrightarrow> ok_run (ctx_ok so) (io_gossips e i infos c)"
proof (induction infos arbitrary: c i)
  case (Cons x infos)
  then show ?case
    by (auto intro!: ok_run_bind [OF gossip_iter_ok] ok_run_bind [OF on_db_ok] db_remove_ok)
qed simp

lemma send_oob: "only_oob (protopack_send m)"
  by (auto simp: protopack_send_def Let_def split: option.split)

lemma req_make_oob: "only_oob (turn_req_make t a u i bs n)"
  unfolding turn_req_make_def by (rule only_oob_bind [OF ln_hton_oob]) simp

lemma wrap_ok: "turn_wf t \<Longrightarrow> ok_run turn_wf (turn_client_wrap t p)"
  by (auto simp: turn_client_wrap_def bound_get binded_same Let_def split: option.split
      intro!: ok_run_bind_oob [OF send_oob] ok_run_bind_oob [OF req_make_oob])

lemma io_relay_ok: "ctx_ok so c \<Longrightarrow> ok_run (ctx_ok so) (io_relay e p c)"
  unfolding io_relay_def
  by (auto intro!: ok_run_bind [OF on_turn_ok] ok_run_bind [OF send_pack_ok] wrap_ok
      simp: turn_client_info_ok split: option.split)

lemma print_oob: "only_oob (proto_print p)"
  by (simp add: proto_print_def)

lemma watcher_pass_run:
  assumes "sys_ok so s"
  shows "ok_run (\<lambda>w. sys_ok so (s\<lparr>s_watcher := w\<rparr>)) (watcher_pass z (s_watcher s) p fd)"
proof -
  obtain q where "prot_queue_push z (passed_packets (s_watcher s)) (Some p, fd) = Inr (0, q)" "pq_wf q"
    "ring q = ring (passed_packets (s_watcher s)) @ [(Some p, fd)]"
    using prot_queue_push_ok [of "passed_packets (s_watcher s)" z "(Some p, fd)"] assms
    by (auto simp: sys_ok_def)
  with assms show ?thesis by (auto simp: watcher_pass_def sys_ok_def)
qed

lemma io_packet_ok:
  assumes "sys_ok so s" and "pack \<noteq> None"
  shows "case io_packet e pack fd s of Inl f \<Rightarrow> f = OutOfBounds | Inr s' \<Rightarrow> sys_ok so s'"
proof -
  obtain p where p: "pack = Some p" using assms(2) by blast
  let ?utime = "\<lambda>s. on_ctx (on_db (\<lambda>db. peers_db_utime (e_ms e) db (h_from p))) s"
  have last: "case bind_fault (?utime (s\<lparr>packets_translated := n\<rparr>)) (\<lambda>(_, s). Inr s) of
      Inl f \<Rightarrow> f = OutOfBounds | Inr s' \<Rightarrow> sys_ok so s'" if "sys_ok so s" for s n
  proof -
    have "sys_ok so (s\<lparr>packets_translated := n\<rparr>)" using that by (simp add: sys_ok_def)
    then have "ok_run (sys_ok so) (?utime (s\<lparr>packets_translated := n\<rparr>))"
      by (auto intro!: on_ctx_ok on_db_ok db_utime_ok)
    then show ?thesis
      by (cases "?utime (s\<lparr>packets_translated := n\<rparr>)") (auto simp: ok_run_def)
  qed
  let ?route = "\<lambda>(pair, s). if pair then on_ctx (io_relay e p) s
      else if udp_is_RUDP_req (packtype p) then
        let (r, d) = rudp_dispatcher_pass (s_rudp s) (Some p) in
        Inr (r, s\<lparr>s_ctx := (s_ctx s)\<lparr>ac_rudp := d\<rparr>\<rparr>)
      else bind_fault (proto_print p) (\<lambda>_.
        bind_fault (watcher_pass (de_watcher_fill e) (s_watcher s) p fd) (\<lambda>(r, w).
        Inr (r, s\<lparr>s_watcher := w\<rparr>)))"
  have route: "ok_run (sys_ok so) (?route (pair, s))" if "sys_ok so s" for pair s
    using that watcher_pass_run [OF that, of "de_watcher_fill e" p fd]
    by (auto intro!: on_ctx_ok io_relay_ok ok_run_bind_oob [OF print_oob] elim!: ok_run_bind
        simp: rudp_dispatcher_pass_def) (auto simp: sys_ok_def ctx_ok_def disp_ok_def conns_def)
  have pair: "ok_run (sys_ok so) (on_ctx (on_turn (\<lambda>t. turn_check_pair t (h_to p) (h_from p))) s)"
    using assms(1) by (auto intro!: on_ctx_ok on_turn_ok simp: turn_check_pair_ok)
  let ?m = "bind_fault (on_ctx (on_turn (\<lambda>t. turn_check_pair t (h_to p) (h_from p))) s) ?route"
  have "ok_run (sys_ok so) ?m"
    by (rule ok_run_bind [OF pair]) (rule route)
  moreover have "io_packet e pack fd s = bind_fault ?m (\<lambda>(_, s).
      bind_fault (?utime (s\<lparr>packets_translated := packets_translated s + 1\<rparr>)) (\<lambda>(_, s). Inr s))"
    by (cases "on_ctx (on_turn (\<lambda>t. turn_check_pair t (h_to p) (h_from p))) s")
      (auto simp: io_packet_def p Let_def)
  ultimately show ?thesis
    using last by (cases ?m) (auto simp: ok_run_def)
qed

lemma io_packets_ok:
  "\<lbrakk>sys_ok so s; None \<notin> fst ` set ps\<rbrakk> \<Longrightarrow>
   case io_packets e ps s of Inl f \<Rightarrow> f = OutOfBounds | Inr s' \<Rightarrow> sys_ok so s'"
proof (induction ps arbitrary: s)
  case (Cons x ps)
  obtain pack fd where x: "x = (pack, fd)" by (cases x)
  let ?s = "s\<lparr>s_ctx := (s_ctx s)\<lparr>ac_listener := (ac_listener (s_ctx s))\<lparr>l_packets := ps\<rparr>\<rparr>\<rparr>"
  have "sys_ok so ?s" using Cons.prems by (auto simp: sys_ok_def ctx_ok_def)
  then have "case io_packet e pack fd ?s of Inl f \<Rightarrow> f = OutOfBounds | Inr s' \<Rightarrow> sys_ok so s'"
    by (rule io_packet_ok) (use Cons.prems x in auto)
  with Cons show ?case by (cases "io_packet e pack fd ?s") (auto simp: x)
qed simp

text \<open>The same judgement for a step without a result.\<close>

definition ok_step :: "('s \<Rightarrow> bool) \<Rightarrow> fault + 's \<Rightarrow> bool" where
  "ok_step P m \<longleftrightarrow> (case m of Inl f \<Rightarrow> f = OutOfBounds | Inr s \<Rightarrow> P s)"

lemma ok_step_simps [simp]: "ok_step P (Inr s) = P s" "ok_step P (Inl f) \<longleftrightarrow> f = OutOfBounds"
  by (simp_all add: ok_step_def)

lemma ok_step_bind: "\<lbrakk>ok_step P m; \<And>s. P s \<Longrightarrow> ok_step Q (f s)\<rbrakk> \<Longrightarrow> ok_step Q (bind_fault m f)"
  by (cases m) auto

lemma ok_step_run: "\<lbrakk>ok_run P m; \<And>r s. P s \<Longrightarrow> ok_step Q (f (r, s))\<rbrakk> \<Longrightarrow> ok_step Q (bind_fault m f)"
  by (cases m) (auto simp: ok_run_def)

lemma ok_run_step: "\<lbrakk>ok_step P m; \<And>s. P s \<Longrightarrow> ok_run Q (f s)\<rbrakk> \<Longrightarrow> ok_run Q (bind_fault m f)"
  by (cases m) auto

lemma cleanup_ok:
  assumes "gossip_wf g"
  shows "ok_run gossip_wf (gossip_cleanup now g)"
proof -
  have "elements (cleanup_loop now (obj (gossips g)) 0) =
      filter (\<lambda>x. \<not> gossip_dead now x) (elements (obj (gossips g)))"
    by (simp add: cleanup_loop_filter)
  with assms show ?thesis
    by (auto simp: gossip_cleanup_def on_gossips_def with_mutex_free gossip_wf_def distinct_map_filter)
qed

lemma snapshot_run: "ctx_ok so c \<Longrightarrow> ok_run (ctx_ok so) (on_db (peers_db_snapshot True) c)"
  by (simp add: snapshot_ok ctx_ok_def db_okD)

lemma io_addt_ok:
  assumes "sys_ok so s"
  shows "ok_step (sys_ok so) (io_addt e s)"
proof -
  have last: "sys_ok so (s\<lparr>state_last_called := t\<rparr>)" if "sys_ok so s" for s t
    using that by (simp add: sys_ok_def)
  have put: "sys_ok so (s\<lparr>s_ctx := (s_ctx s)\<lparr>ac_g_syst := g\<rparr>\<rparr>)" if "sys_ok so s" "gossip_wf g" for s g
    using that by (simp add: sys_ok_def ctx_ok_def)
  have wf: "gossip_wf (ac_g_syst (s_ctx s))" "gossip_wf ((ac_g_syst (s_ctx s))\<lparr>last_gossiped := t\<rparr>)"
    if "sys_ok so s" for s t
    using that by (simp_all add: sys_ok_def ctx_ok_def gossip_wf_def)
  show ?thesis
    unfolding io_addt_def Let_def
    by (rule ok_step_bind [of "sys_ok so"])
      (use assms in \<open>auto intro!: ok_step_run [OF state_iter_ok] last ok_step_run [OF on_ctx_ok]
         snapshot_run io_pings_run ok_step_run [OF cleanup_ok] io_gossips_run put wf\<close>)
qed

lemma daemon_io_ok:
  assumes "sys_ok so s"
  shows "ok_run (sys_ok so) (daemon_io e s)"
proof -
  obtain r s1 where s1: "io_wait e s = (r, s1)" by fastforce
  then have ok: "sys_ok so s1" "sys_ok so (io_stats s1)"
    using assms by (auto simp: io_wait_def sys_ok_def ctx_ok_def io_stats_def Let_def split: prod.splits)
  have addt: "ok_step (sys_ok so)
      (let s = io_stats s1 in if de_rate_gt1 e (packet_rate s) then Inr s else io_addt e s)"
    using ok(2) io_addt_ok by (simp add: Let_def)
  have pk: "ok_step (sys_ok so) (io_packets e (l_packets (ac_listener (s_ctx s))) s)" if "sys_ok so s" for s
    using io_packets_ok [OF that] that by (simp add: ok_step_def sys_ok_def ctx_ok_def)
  show ?thesis
    unfolding daemon_io_def s1 prod.case
    using ok(1) by (auto intro!: ok_run_step [OF addt] ok_run_step [OF pk])
qed

lemma sys_ok_events [simp]:
  "sys_ok so (s\<lparr>active_ev := ev\<rparr>) = sys_ok so s" "sys_ok so (s\<lparr>reqd_conn_ev := ev\<rparr>) = sys_ok so s"
  by (simp_all add: sys_ok_def)

lemma sys_ok_rudp: "\<lbrakk>sys_ok so s; disp_ok d; self_uid d = ctx_uid (s_ctx s)\<rbrakk> \<Longrightarrow>
  sys_ok so (s\<lparr>s_ctx := (s_ctx s)\<lparr>ac_rudp := d\<rparr>\<rparr>)"
  by (simp add: sys_ok_def ctx_ok_rudp)

text \<open>
  What a run leaves of the connections: \<open>conns_kept\<close>, those there were are where and as they were;
  \<open>conns_new\<close>, the others are new and open, each to the address of an active peer of the list.
\<close>

definition conns_kept :: "s2_systems \<Rightarrow> s2_systems \<Rightarrow> bool" where
  "conns_kept s s' \<longleftrightarrow> (\<forall>u a. conns (s_rudp s) u = Some (Some a) \<longrightarrow>
     conns (s_rudp s') u = Some (Some a) \<and> heap (s_rudp s') a = heap (s_rudp s) a)"

definition conns_new :: "peer_info list \<Rightarrow> s2_systems \<Rightarrow> s2_systems \<Rightarrow> bool" where
  "conns_new infos s s' \<longleftrightarrow> (\<forall>u a. conns (s_rudp s') u = Some (Some a) \<and> conns (s_rudp s) u \<noteq> Some (Some a) \<longrightarrow>
     (\<exists>i \<in> set infos. pi_UID i = u \<and> pi_state i = PEER_ST_ACTIVE \<and>
       (\<exists>c. heap (s_rudp s') a = Some c \<and> \<not> closed c \<and> c_uid c = u \<and> nfd c = pi_nfd i)))"

lemma conns_refl: "conns_kept s s" "conns_new infos s s"
  by (simp_all add: conns_kept_def conns_new_def)

lemma conns_trans:
  assumes "conns_kept s s1" and "conns_new [i] s s1" and "conns_kept s1 s'" and "conns_new infos s1 s'"
  shows "conns_kept s s'" and "conns_new (i # infos) s s'"
proof -
  show "conns_kept s s'"
    unfolding conns_kept_def
  proof (intro allI impI)
    fix u a
    assume "conns (s_rudp s) u = Some (Some a)"
    then have 1: "conns (s_rudp s1) u = Some (Some a)" "heap (s_rudp s1) a = heap (s_rudp s) a"
      using assms(1) by (simp_all add: conns_kept_def)
    then show "conns (s_rudp s') u = Some (Some a) \<and> heap (s_rudp s') a = heap (s_rudp s) a"
      using assms(3) by (simp add: conns_kept_def)
  qed
  show "conns_new (i # infos) s s'"
    unfolding conns_new_def
  proof (intro allI impI)
    fix u a
    assume a: "conns (s_rudp s') u = Some (Some a) \<and> conns (s_rudp s) u \<noteq> Some (Some a)"
    show "\<exists>i \<in> set (i # infos). pi_UID i = u \<and> pi_state i = PEER_ST_ACTIVE \<and>
       (\<exists>c. heap (s_rudp s') a = Some c \<and> \<not> closed c \<and> c_uid c = u \<and> nfd c = pi_nfd i)"
    proof (cases "conns (s_rudp s1) u = Some (Some a)")
      case True
      then have "heap (s_rudp s') a = heap (s_rudp s1) a" using assms(3) by (simp add: conns_kept_def)
      with assms(2) [unfolded conns_new_def, rule_format, of u a] True a show ?thesis by auto
    next
      case False
      with assms(4) [unfolded conns_new_def, rule_format, of u a] a show ?thesis by auto
    qed
  qed
qed

text \<open>One peer: its connection afterwards, and those there were.\<close>

lemma st_connect_ok:
  assumes ok: "sys_ok so s" and uid: "pi_state i = PEER_ST_ACTIVE \<Longrightarrow> pi_UID i \<noteq> UINT32_MAX"
  shows "\<exists>s'. st_connect e n i s = Inr s' \<and> sys_ok so s' \<and> conns_kept s s' \<and> conns_new [i] s s' \<and>
    (pi_state i = PEER_ST_ACTIVE \<longrightarrow> (\<exists>a. conns (s_rudp s') (pi_UID i) = Some (Some a)))"
proof (cases "pi_state i = PEER_ST_ACTIVE \<and> (\<nexists>a. conns (s_rudp s) (pi_UID i) = Some (Some a))")
  case True
  have d: "disp_ok (s_rudp s)" using ok by (simp add: sys_ok_def ctx_ok_def)
  have a: "pi_state i = PEER_ST_ACTIVE" using True by simp
  have none: "rudp_get_connection (s_rudp s) (pi_UID i) (de_rand e n) = Inr (-1, None, s_rudp s)"
    using True get_connection_ok [OF d, of "pi_UID i" "de_rand e n"] uid
    by (auto split: option.splits)
  obtain a d' where est: "rudp_est_connection (s_rudp s) (pi_UID i) (pi_nfd i) (e_ms e) = Inr (0, a, d')"
    "disp_ok d'" "conns d' = (conns (s_rudp s))(pi_UID i \<mapsto> Some a)" "self_uid d' = ctx_uid (s_ctx s)"
    "heap d' = (heap (s_rudp s))(a \<mapsto> rudp_conn_new (self_uid (s_rudp s)) (pi_UID i) (pi_nfd i) (e_ms e))"
    "a = next_addr (s_rudp s)"
    by (rule est_ok [OF d])
  have act: "\<not> mtx (active s)" "dt_wf (obj (active s))" using ok by (simp_all add: sys_ok_def)
  have set: "prot_table_set True True True (active s) (pi_UID i) (Some a) =
      Inr (fst (dyn_table_set True True True (obj (active s)) (pi_UID i) (Some a)),
        \<lparr>mtx = False, obj = table_set (obj (active s)) (pi_UID i) (Some a)\<rparr>)"
    by (simp add: prot_table_set_def with_mutex_free act(1) split_beta)
  have put: "sys_ok so (s\<lparr>s_ctx := (s_ctx s)\<lparr>ac_rudp := d'\<rparr>,
      active := \<lparr>mtx = False, obj = table_set (obj (active s)) (pi_UID i) (Some a)\<rparr>, active_ev := ev\<rparr>)" for ev
    using sys_ok_rudp [OF ok est(2,4)] act(2) by (simp add: sys_ok_def dt_wf_set)
  have "b < a" if "conns (s_rudp s) u = Some (Some b)" for u b using d that est(6) by (auto simp: disp_ok_def)
  then have kept: "conns_kept s s'" "conns_new [i] s s'" if "s_rudp s' = d'" for s' :: s2_systems
    using True that est(3,5) by (fastforce simp: conns_kept_def, simp add: conns_new_def rudp_conn_new_def a)
  show ?thesis
    using put [of "active_ev s"] put [of "mt_evsock_notify (active_ev s)"] True kept
    by (cases "fst (dyn_table_set True True True (obj (active s)) (pi_UID i) (Some a)) < 0")
      (auto simp: st_connect_def a none est(1) set Let_def est(3))
next
  case False
  show ?thesis
  proof (cases "pi_state i = PEER_ST_ACTIVE")
    case True
    with False obtain a where a: "conns (s_rudp s) (pi_UID i) = Some (Some a)" by blast
    have d: "disp_ok (s_rudp s)" using ok by (simp add: sys_ok_def ctx_ok_def)
    have "rudp_get_connection (s_rudp s) (pi_UID i) (de_rand e n) = Inr (0, Some a, s_rudp s)"
      using get_connection_ok [OF d uid [OF True], of "de_rand e n"] a by simp
    with ok a True show ?thesis by (intro exI [of _ s]) (simp add: st_connect_def conns_refl)
  next
    case False
    with ok show ?thesis by (intro exI [of _ s]) (simp add: st_connect_def conns_refl)
  qed
qed

lemma st_connects_ok:
  "\<lbrakk>sys_ok so s; \<And>i. i \<in> set infos \<Longrightarrow> pi_state i = PEER_ST_ACTIVE \<Longrightarrow> pi_UID i \<noteq> UINT32_MAX\<rbrakk> \<Longrightarrow>
   \<exists>s'. st_connects e n infos s = Inr s' \<and> sys_ok so s' \<and> conns_kept s s' \<and> conns_new infos s s' \<and>
     (\<forall>i \<in> set infos. pi_state i = PEER_ST_ACTIVE \<longrightarrow> (\<exists>a. conns (s_rudp s') (pi_UID i) = Some (Some a)))"
proof (induction infos arbitrary: s n)
  case (Cons i infos)
  obtain s1 where s1: "st_connect e n i s = Inr s1" "sys_ok so s1" "conns_kept s s1" "conns_new [i] s s1"
    "pi_state i = PEER_ST_ACTIVE \<longrightarrow> (\<exists>a. conns (s_rudp s1) (pi_UID i) = Some (Some a))"
    using st_connect_ok [OF Cons.prems(1), of i e n] Cons.prems(2) [of i] by auto
  obtain s' where s': "st_connects e (Suc n) infos s1 = Inr s'" "sys_ok so s'" "conns_kept s1 s'" "conns_new infos s1 s'"
    "\<forall>i \<in> set infos. pi_state i = PEER_ST_ACTIVE \<longrightarrow> (\<exists>a. conns (s_rudp s') (pi_UID i) = Some (Some a))"
    using Cons.IH [OF s1(2), of "Suc n"] Cons.prems(2) by auto
  have "pi_state i = PEER_ST_ACTIVE \<longrightarrow> (\<exists>a. conns (s_rudp s') (pi_UID i) = Some (Some a))"
    using s1(5) s'(3) by (auto simp: conns_kept_def)
  with s1 s' conns_trans [OF s1(3,4) s'(3,4)] show ?case by (intro exI [of _ s']) simp
qed (simp add: conns_refl)

lemma connection_step_keeps:
  assumes "sys_ok so s" and "st_connect e n i s = Inr s'"
  shows "sys_ok so s'"
proof (cases "pi_state i = PEER_ST_ACTIVE")
  case True
  have d: "disp_ok (s_rudp s)" using assms(1) by (simp add: sys_ok_def ctx_ok_def)
  obtain r p d1 where g: "rudp_get_connection (s_rudp s) (pi_UID i) (de_rand e n) = Inr (r, p, d1)"
    using assms(2) True by (cases "rudp_get_connection (s_rudp s) (pi_UID i) (de_rand e n)") (auto simp: st_connect_def)
  have d1: "d1 = s_rudp s" by (rule get_connection_same [OF d g])
  obtain a d2 where est: "rudp_est_connection (s_rudp s) (pi_UID i) (pi_nfd i) (e_ms e) = Inr (0, a, d2)"
    "disp_ok d2" "self_uid d2 = ctx_uid (s_ctx s)"
    by (rule est_ok [OF d])
  have act: "\<not> mtx (active s)" "dt_wf (obj (active s))" using assms(1) by (simp_all add: sys_ok_def)
  have "sys_ok so (s\<lparr>s_ctx := (s_ctx s)\<lparr>ac_rudp := d2\<rparr>, active := \<lparr>mtx = False, obj = t\<rparr>\<rparr>)"
    if "dt_wf t" for t
    using sys_ok_rudp [OF assms(1) est(2,3)] that by (simp add: sys_ok_def)
  note put = this [OF dt_wf_set [OF act(2)]]
  show ?thesis
    using assms True put
    by (auto simp: st_connect_def g d1 est(1) prot_table_set_def with_mutex_free act(1) split_beta Let_def split: if_splits)
next
  case False
  with assms show ?thesis by (simp add: st_connect_def)
qed

lemma connects_keep: "\<lbrakk>sys_ok so s; st_connects e n infos s = Inr s'\<rbrakk> \<Longrightarrow> sys_ok so s'"
  by (induction infos arbitrary: s n) (auto simp: bind_fault_Inr_iff dest: connection_step_keeps)

lemma answers_keep:
  assumes "sys_ok so s"
  shows "\<exists>s'. st_answers e s = Some (Inr s') \<and> sys_ok so s'"
  using assms
proof (induction "answers s" arbitrary: s)
  case Nil
  have "st_ok s" using Nil.prems by (auto simp: st_ok_def sys_ok_def ctx_ok_def)
  have wf: "pq_wf (new_state_ans (ac_ssystem (s_ctx s)))" using Nil.prems by (simp add: sys_ok_def ctx_ok_def)
  then show ?case using Nil prot_queue_pop_ok(1) [OF wf] by (subst st_answers.simps) (simp add: pop_answer_def)
next
  case (Cons x xs)
  have wf: "pq_wf (new_state_ans (ac_ssystem (s_ctx s)))" using Cons.prems by (simp add: sys_ok_def ctx_ok_def)
  obtain q where q: "prot_queue_pop (new_state_ans (ac_ssystem (s_ctx s))) = Inr (Some x, q)" "pq_wf q" "ring q = xs"
    using prot_queue_pop_ok(2) [OF wf Cons.hyps(2) [symmetric]] by blast
  let ?s = "s\<lparr>s_ctx := (s_ctx s)\<lparr>ac_ssystem := (ac_ssystem (s_ctx s))\<lparr>new_state_ans := q\<rparr>\<rparr>\<rparr>"
  have s1: "sys_ok so ?s" "st_ok ?s"
    using Cons.prems q Cons.hyps(2) [symmetric] by (auto simp: sys_ok_def ctx_ok_def st_ok_def)
  obtain s2 where s2: "st_answer e x ?s = Inr s2" "st_ok s2" "s_ctx s2 = s_ctx ?s"
    "\<exists>q ev. s2 = ?s\<lparr>reqd_conns := q, reqd_conn_ev := ev\<rparr>"
    using st_answer_ok [OF s1(2)] by blast
  then have "sys_ok so s2" using s1(1) by (auto simp: sys_ok_def st_ok_def)
  moreover have "xs = answers s2" using q(3) s2(3) by simp
  ultimately obtain s' where "st_answers e s2 = Some (Inr s')" "sys_ok so s'" using Cons.hyps(1) by blast
  moreover have "st_answers e s = st_answers e s2"
    by (subst st_answers.simps) (simp add: pop_answer_def q(1) s2(1))
  ultimately show ?case by metis
qed

lemma daemon_st_keeps:
  assumes "sys_ok so s" and "daemon_st e s = Some (Inr (go, s'))"
  shows "sys_ok so s'"
proof -
  obtain r ev where w: "mt_evsock_wait (new_state_fd (ac_ssystem (s_ctx s))) = (r, ev)" by fastforce
  have put: "sys_ok so (s\<lparr>s_ctx := (s_ctx s)\<lparr>ac_ssystem := (ac_ssystem (s_ctx s))\<lparr>new_state_fd := v\<rparr>\<rparr>\<rparr>)" for v
    using assms(1) by (simp add: sys_ok_def ctx_ok_def)
  show ?thesis
  proof (cases "r < 0")
    case True
    with assms(2) w put show ?thesis by (auto simp: daemon_st_def Let_def)
  next
    case False
    let ?s = "s\<lparr>s_ctx := (s_ctx s)\<lparr>ac_ssystem := (ac_ssystem (s_ctx s))\<lparr>new_state_fd := mt_evsock_drain ev\<rparr>\<rparr>\<rparr>"
    obtain s1 where s1: "(if 0 < r then st_answers e ?s else Some (Inr ?s)) = Some (Inr s1)" "sys_ok so s1"
      using answers_keep [OF put [of "mt_evsock_drain ev"], of e] put by (cases "0 < r") auto
    have snap: "on_ctx (on_db (peers_db_snapshot True)) s1 = Inr (map snd (db_pairs (ac_p_db (s_ctx s1))), s1)"
      using s1(2) by (simp add: on_ctx_def snapshot_ok sys_ok_def ctx_ok_def db_okD)
    have "st_connects e 0 (map snd (db_pairs (ac_p_db (s_ctx s1)))) s1 = Inr s'"
      using assms(2) s1(1) False w by (auto simp: daemon_st_def Let_def snap bind_fault_Inr_iff)
    with s1(2) show ?thesis by (rule connects_keep)
  qed
qed

lemma watcher_iter_keeps:
  assumes "sys_ok so s" and "e_so e = so"
    and "watcher_iter (s_watcher s) (e, s_ctx s) = Inr (Some (w, (e', c)))"
  shows "sys_ok so (s\<lparr>s_watcher := w, s_ctx := c\<rparr>)"
proof -
  have wf: "pq_wf (passed_packets (s_watcher s))" "w_handlers (s_watcher s) = node_handlers"
    "None \<notin> fst ` set (ring (passed_packets (s_watcher s)))" "ctx_ok (e_so e) (s_ctx s)"
    using assms(1,2) by (simp_all add: sys_ok_def)
  obtain r ev where w: "mt_evsock_wait (w_newpack (s_watcher s)) = (r, ev)" by fastforce
  have idle: "sys_ok so (s\<lparr>s_watcher := (s_watcher s)\<lparr>w_newpack := v, passed_packets := q\<rparr>, s_ctx := c\<rparr>)"
    if "pq_wf q" "set (ring q) \<subseteq> set (ring (passed_packets (s_watcher s)))" "ctx_ok so c" for v q c
    using assms(1) that by (auto simp: sys_ok_def)
  show ?thesis
  proof (cases "ring (passed_packets (s_watcher s))")
    case Nil
    with assms(3) w prot_queue_pop_ok(1) [OF wf(1) Nil] wf(4) assms(2) idle [OF wf(1) subset_refl]
    show ?thesis by (auto simp: watcher_iter_def Let_def split: if_splits)
  next
    case (Cons x xs)
    obtain q where q: "prot_queue_pop (passed_packets (s_watcher s)) = Inr (Some x, q)" "pq_wf q" "ring q = xs"
      using prot_queue_pop_ok(2) [OF wf(1) Cons] by blast
    have "fst x \<noteq> None" using wf(3) Cons by force
    then obtain p fd where x: "x = (Some p, fd)" by (metis prod.collapse not_None_eq)
    have d: "e' = e \<and> ctx_ok so c" if "watcher_dispatch node_handlers p fd (e, s_ctx s) = Inr (e', c)"
      using dispatch_ok [OF wf(4), of p fd] that assms(2) by simp
    have "set (ring q) \<subseteq> set (ring (passed_packets (s_watcher s)))" using q(3) Cons by auto
    note idle' = idle [OF q(2) this]
    show ?thesis
      using assms(2,3) w q(1) x d wf(2,4) idle [OF wf(1) subset_refl] idle'
      by (auto simp: watcher_iter_def Let_def bind_fault_Inr_iff split: if_splits)
  qed
qed

subsection \<open>The node as a transition system\<close>

text \<open>
  The steps of the threads of a running node, and the calls of its user: the listener's thread
  with a datagram, the sender's thread, the watcher, the dispatcher's worker, the two
  daemons, and the operations of \<open>system.c\<close>.

  A step is a whole iteration of a thread, so the runs are those in which no thread is interrupted within an iteration. The code
  locks each table and queue but not a whole iteration: the thread of the packets may close and free a connection
  (\<open>daemons.c:40\<close>) while the worker of the dispatcher holds the pointer that it has looked up. Such races are outside. An
  iteration that faults is the end of a run.
\<close>

inductive node_step :: "sodium \<Rightarrow> s2_systems \<Rightarrow> s2_systems \<Rightarrow> bool" for so where
  listener: "node_step so s (s\<lparr>s_ctx := (s_ctx s)\<lparr>ac_listener := pvd_listener_iter (ac_listener (s_ctx s)) raw fd\<rparr>\<rparr>)"
| sender: "pvd_sender_iter (d_sender (s_rudp s)) = Inr (Some (out, sd)) \<Longrightarrow>
    node_step so s (s\<lparr>s_ctx := (s_ctx s)\<lparr>ac_rudp := (s_rudp s)\<lparr>d_sender := sd\<rparr>\<rparr>\<rparr>)"
| handler: "\<lbrakk>e_so e = so; watcher_iter (s_watcher s) (e, s_ctx s) = Inr (Some (w, (e', c)))\<rbrakk> \<Longrightarrow>
    node_step so s (s\<lparr>s_watcher := w, s_ctx := c\<rparr>)"
| worker: "rudp_dispatcher_iter (s_rudp s) lc clock rnd = Inr (Some (d, lc')) \<Longrightarrow>
    node_step so s (s\<lparr>s_ctx := (s_ctx s)\<lparr>ac_rudp := d\<rparr>\<rparr>)"
| io: "\<lbrakk>e_so e = so; daemon_io e s = Inr (go, s')\<rbrakk> \<Longrightarrow> node_step so s s'"
| st: "\<lbrakk>e_so e = so; daemon_st e s = Some (Inr (go, s'))\<rbrakk> \<Longrightarrow> node_step so s s'"
| new_peer: "s2_sys_new_peer lib now s a sa uid pk = Inr (r, s') \<Longrightarrow> node_step so s s'"
| punch: "s2_sys_nat_punch lib s uid = Inr (r, s') \<Longrightarrow> node_step so s s'"
| closeconn: "s2_sys_closeconn s uid = Inr (r, s') \<Longrightarrow> node_step so s s'"

inductive node_reach :: "sodium \<Rightarrow> s2_systems \<Rightarrow> s2_systems \<Rightarrow> bool" for so s0 where
  start: "node_reach so s0 s0"
| step: "\<lbrakk>node_reach so s0 s; node_step so s s'\<rbrakk> \<Longrightarrow> node_reach so s0 s'"

lemma new_peer_keeps: "sys_ok so s \<Longrightarrow> ok_run (sys_ok so) (s2_sys_new_peer lib now s a sa uid pk)"
  unfolding s2_sys_new_peer_def Let_def
  by (rule ok_run_bind [of "ctx_ok so"])
    (auto intro!: on_db_ok db_add_ok simp: live_states_def, auto simp: sys_ok_def)

lemma punch_keeps:
  assumes "sys_ok so s"
  shows "ok_run (sys_ok so) (s2_sys_nat_punch lib s uid)"
proof -
  have c: "ctx_ok so (s_ctx s)" using assms by (simp add: sys_ok_def)
  have put: "sys_ok so (s\<lparr>s_ctx := c\<rparr>)" if "ctx_ok so c" for c using assms that by (simp add: sys_ok_def)
  show ?thesis
    unfolding s2_sys_nat_punch_def Let_def
    by (rule ok_run_bind [OF on_db_ok [OF c]])
      (auto intro!: db_get_ok ok_run_bind [OF send_pack_ok] ok_run_bind_oob [OF ln_nfd2addr_oob] put split: option.split)
qed

lemma close_run:
  assumes "ctx_ok so c"
  shows "ok_run (\<lambda>d. ctx_ok so (c\<lparr>ac_rudp := d\<rparr>)) (rudp_close_conncetion (ac_rudp c) uid)"
proof -
  have d: "disp_ok (ac_rudp c)" using assms by (simp add: ctx_ok_def)
  obtain r d' where "rudp_close_conncetion (ac_rudp c) uid = Inr (r, d')" "disp_ok d'" "self_uid d' = ctx_uid c"
    by (rule close_ok [OF d])
  with assms show ?thesis by (simp add: ctx_ok_rudp)
qed

lemma closeconn_keeps:
  assumes "sys_ok so s"
  shows "ok_run (sys_ok so) (s2_sys_closeconn s uid)"
proof -
  have c: "ctx_ok so (s_ctx s)" using assms by (simp add: sys_ok_def)
  have put: "sys_ok so (s\<lparr>s_ctx := c\<rparr>)" if "ctx_ok so c" for c using assms that by (simp add: sys_ok_def)
  have check: "db_ok db \<Longrightarrow> ok_run db_ok (peers_db_check db uid)" for db
    by (simp add: peers_db_check_ok db_okD)
  show ?thesis
    unfolding s2_sys_closeconn_def
    by (rule ok_run_bind [OF on_db_ok [OF c]])
      (auto intro!: check put ok_run_bind [OF on_db_ok] db_remove_ok ok_run_bind [OF close_run])
qed

lemma ok_run_InrD: "ok_run P m \<Longrightarrow> m = Inr (r, s) \<Longrightarrow> P s"
  by simp

lemma node_step_keeps: "node_step so s s' \<Longrightarrow> sys_ok so s \<Longrightarrow> sys_ok so s'"
proof (induction rule: node_step.induct)
  case (listener s raw fd)
  let ?l = "pvd_listener_iter (ac_listener (s_ctx s)) raw fd"
  have "l_proxy ?l = None" "None \<notin> fst ` set (l_packets ?l)"
    using listener by (auto simp: sys_ok_def ctx_ok_def pvd_listener_iter_def pvd_listener_pass_def
        split: option.splits)
  with listener show ?case by (simp add: sys_ok_def ctx_ok_def)
next
  case (sender s out sd)
  then show ?case by (simp add: sys_ok_def ctx_ok_def)
next
  case (handler e s w e' c)
  then show ?case by (intro watcher_iter_keeps) auto
next
  case (worker s lc clock rnd d lc')
  then have "disp_ok (s_rudp s)" by (simp add: sys_ok_def ctx_ok_def)
  from disp_iter_ok [OF this worker(1)] worker(2) show ?case
    by (intro sys_ok_rudp) (simp_all add: same_disp_def)
next
  case (io e s go s')
  then show ?case by (blast intro: ok_run_InrD daemon_io_ok)
next
  case (st e s go s')
  then show ?case by (blast intro: daemon_st_keeps)
next
  case (new_peer lib now s a sa uid pk r s')
  then show ?case by (blast intro: ok_run_InrD new_peer_keeps)
next
  case (punch lib s uid r s')
  then show ?case by (blast intro: ok_run_InrD punch_keeps)
next
  case (closeconn s uid r s')
  then show ?case by (blast intro: ok_run_InrD closeconn_keeps)
qed

lemma new_node_sys_ok: "sys_ok so (new_node so keys a rnd now zw zs zd zc)"
proof -
  let ?s = "new_node so keys a rnd now zw zs zd zc"
  note q = pq_create_ok [of zd 4] pq_create_ok [of zc 140] pq_create_ok [of zs 220] pq_create_ok [of zw 0]
  note all = new_node_def s2_systems_create_def create_parts split_beta Let_def
  have tables: "servers ?s = snd (prot_table_create 4 56 DYN_OWN_BOTH)" "active ?s = snd (prot_table_create 4 8 DYN_OWN_BOTH)"
    and w: "s_watcher ?s = s2_register (snd (watcher_init zw))"
    using q by (simp_all add: all)
  have "passed_packets (snd (watcher_handler_reg w t h)) = passed_packets w" for w :: "(nnet_fd, env \<times> app_context) watcher" and t h
    by (simp add: watcher_handler_reg_def)
  then have "passed_packets (s2_register w) = passed_packets w" for w by (simp add: s2_register_def)
  then have p: "passed_packets (s_watcher ?s) = snd (prot_queue_create True zw 0)"
    by (simp add: w) (simp add: watcher_init_def)
  show ?thesis
    unfolding sys_ok_def p
  proof (intro conjI)
    show "\<not> mtx (servers ?s)" "\<not> mtx (active ?s)" "dt_wf (obj (active ?s))"
      by (simp_all add: tables prot_table_create_def)
  qed (use new_node_ok [of so keys a rnd now zw zs zd zc] q in simp_all)
qed

text \<open>
  C4: the invariant of the running node: in every state it reaches, whatever datagrams arrive and
  in whatever order whole iterations of its threads and calls of its user follow each other (none of
  them interrupted, and one that faults ends the run), the components are well formed, every mutex is
  free, every connection of the dispatcher is alive, peers are in the states that are used, queued
  answers are authentic and the registered handlers are in place. From there neither the packet
  thread nor the watcher deadlocks, follows a null or dangling pointer or aborts: they fail at most
  by a read out of bounds, past a packet, the table of type names or the pointer that gossip passes
  for an array.
\<close>

theorem node_invariant:
  assumes "s2_systems_create so cr keys ur a rnd now zw zs zd zc = (r, Some s0)"
    and "node_reach so s0 s"
  shows "sys_ok so s \<and> ok_run (sys_ok so) (daemon_io e s) \<and>
    (\<forall>e p fd. e_so e = so \<longrightarrow>
      (case watcher_dispatch (w_handlers (s_watcher s)) p fd (e, s_ctx s) of
         Inl f \<Rightarrow> f = OutOfBounds | Inr (_, c) \<Rightarrow> ctx_ok so c))"
proof -
  have "s0 = new_node so keys a rnd now zw zs zd zc" by (rule create_only [OF assms(1)])
  then have "sys_ok so s0" by (simp add: new_node_sys_ok)
  with assms(2) have ok: "sys_ok so s"
    by (induction rule: node_reach.induct) (auto intro: node_step_keeps)
  have "case watcher_dispatch (w_handlers (s_watcher s)) p fd (e, s_ctx s) of
      Inl f \<Rightarrow> f = OutOfBounds | Inr (_, c) \<Rightarrow> ctx_ok so c" if "e_so e = so" for e p fd
    using dispatch_ok [of e "s_ctx s" p fd] ok that by (auto simp: sys_ok_def split: sum.splits)
  then show ?thesis using ok daemon_io_ok [OF ok] by blast
qed

theorem node_invariant_witness:
  "\<exists>s0. s2_systems_create demo_sodium 0 demo_sign 0 (zeros 52) 0 0 (None, demo_fd) (demo_request, zeros 52) 0
       (li_of_bytes (zeros 140)) = (0, Some s0) \<and>
     sys_ok demo_sodium (s0\<lparr>s_ctx := (s_ctx s0)\<lparr>ac_listener := pvd_listener_iter (ac_listener (s_ctx s0)) [1] demo_fd\<rparr>\<rparr>)"
proof -
  let ?n = "new_node demo_sodium demo_sign (zeros 52) 0 0 (None, demo_fd) (demo_request, zeros 52) 0 (li_of_bytes (zeros 140))"
  have "node_reach demo_sodium ?n
      (?n\<lparr>s_ctx := (s_ctx ?n)\<lparr>ac_listener := pvd_listener_iter (ac_listener (s_ctx ?n)) [1] demo_fd\<rparr>\<rparr>)"
    by (rule node_reach.step [OF node_reach.start node_step.listener])
  from node_invariant [OF create_ok this] show ?thesis by (intro exI [of _ ?n]) (simp add: create_ok)
qed

text \<open>
  C27: every active peer gets a connection, provided that no active peer has the UID 0xFFFFFFFF,
  which \<open>rudp_get_connection\<close> treats as a wildcard: after a run over a snapshot of the database each
  active peer has a connection on file, and it is alive. The connections there were are filed as
  before and unchanged, also a closed one; every other one is new and open, to the address of an active peer.
\<close>

theorem st_connects_active:
  assumes "sys_ok so s" and "\<forall>i. peers (s_ctx s) UINT32_MAX = Some i \<longrightarrow> pi_state i \<noteq> PEER_ST_ACTIVE"
  shows "\<exists>infos s'. on_ctx (on_db (peers_db_snapshot True)) s = Inr (infos, s) \<and>
    st_connects e 0 infos s = Inr s' \<and> sys_ok so s' \<and>
    (\<forall>uid i. peers (s_ctx s) uid = Some i \<and> pi_state i = PEER_ST_ACTIVE \<longrightarrow>
       (\<exists>a. conns (s_rudp s') uid = Some (Some a) \<and> heap (s_rudp s') a \<noteq> None)) \<and>
    (\<forall>uid a. conns (s_rudp s) uid = Some (Some a) \<longrightarrow>
       conns (s_rudp s') uid = Some (Some a) \<and> heap (s_rudp s') a = heap (s_rudp s) a) \<and>
    (\<forall>uid a. conns (s_rudp s') uid = Some (Some a) \<and> conns (s_rudp s) uid \<noteq> Some (Some a) \<longrightarrow>
       (\<exists>i c. peers (s_ctx s) uid = Some i \<and> pi_state i = PEER_ST_ACTIVE \<and>
          heap (s_rudp s') a = Some c \<and> \<not> closed c \<and> c_uid c = uid \<and> nfd c = pi_nfd i))"
proof -
  have wf: "db_wf (ac_p_db (s_ctx s))" using assms(1) by (auto simp: sys_ok_def ctx_ok_def)
  let ?infos = "map snd (db_pairs (ac_p_db (s_ctx s)))"
  have snap: "on_ctx (on_db (peers_db_snapshot True)) s = Inr (?infos, s)"
    by (simp add: on_ctx_def snapshot_ok [OF wf])
  have "pi_UID i \<noteq> UINT32_MAX" if "i \<in> set ?infos" "pi_state i = PEER_ST_ACTIVE" for i
    using that assms(2) in_snapshot [OF wf, of i] by auto
  then obtain s' where s': "st_connects e 0 ?infos s = Inr s'" "sys_ok so s'" "conns_kept s s'" "conns_new ?infos s s'"
    "\<forall>i \<in> set ?infos. pi_state i = PEER_ST_ACTIVE \<longrightarrow> (\<exists>a. conns (s_rudp s') (pi_UID i) = Some (Some a))"
    using st_connects_ok [OF assms(1), of ?infos e 0] by blast
  have "\<exists>a. conns (s_rudp s') uid = Some (Some a) \<and> heap (s_rudp s') a \<noteq> None"
    if "peers (s_ctx s) uid = Some i" "pi_state i = PEER_ST_ACTIVE" for uid i
  proof -
    from that obtain a where a: "conns (s_rudp s') uid = Some (Some a)"
      using s'(5) in_snapshot [OF wf, of i] db_wfD(3) [OF wf] by metis
    moreover have "disp_ok (s_rudp s')" using s'(2) by (simp add: sys_ok_def ctx_ok_def)
    ultimately show ?thesis by (auto simp: disp_ok_def)
  qed
  moreover have "\<exists>i c. peers (s_ctx s) uid = Some i \<and> pi_state i = PEER_ST_ACTIVE \<and>
      heap (s_rudp s') a = Some c \<and> \<not> closed c \<and> c_uid c = uid \<and> nfd c = pi_nfd i"
    if "conns (s_rudp s') uid = Some (Some a) \<and> conns (s_rudp s) uid \<noteq> Some (Some a)" for uid a
    using s'(4) that in_snapshot [OF wf] unfolding conns_new_def by metis
  moreover have "\<forall>uid a. conns (s_rudp s) uid = Some (Some a) \<longrightarrow>
      conns (s_rudp s') uid = Some (Some a) \<and> heap (s_rudp s') a = heap (s_rudp s) a"
    using s'(3) by (simp add: conns_kept_def)
  ultimately show ?thesis using snap s'(1,2) by blast
qed

theorem st_connects_active_witness:
  "\<exists>db infos s'. peer_lookup db 77 = Some (demo_peer\<lparr>pi_state := PEER_ST_ACTIVE\<rparr>) \<and>
     st_connects demo_denv 0 infos ((new_node demo_sodium demo_sign (zeros 52) 0 0 (None, demo_fd)
       (demo_request, zeros 52) 0 (li_of_bytes (zeros 140)))\<lparr>s_ctx := s_ctx (demo_node 5 db)\<rparr>) = Inr s' \<and>
     (\<exists>a. conns (s_rudp s') 77 = Some (Some a) \<and> heap (s_rudp s') a \<noteq> None)"
proof -
  let ?n = "new_node demo_sodium demo_sign (zeros 52) 0 0 (None, demo_fd) (demo_request, zeros 52) 0 (li_of_bytes (zeros 140))"
  let ?p = "demo_peer\<lparr>pi_state := PEER_ST_ACTIVE\<rparr>"
  have "ok_run db_ok (peers_db_add True True True demo_db ?p)"
    by (rule db_add_ok) (simp_all add: db_ok_def demo_db_wf live_states_def)
  moreover obtain db where db: "peers_db_add True True True demo_db ?p = Inr (0, db)" "db_wf db"
    "peer_lookup db = (peer_lookup demo_db)(pi_UID ?p \<mapsto> ?p)"
    by (rule peers_db_add_ok [OF demo_db_wf(1)])
  ultimately have ok: "db_ok db" by simp
  have "sys_ok demo_sodium (?n\<lparr>s_ctx := s_ctx (demo_node 5 db)\<rparr>)"
    using new_node_sys_ok [of demo_sodium demo_sign "zeros 52" 0 0 "(None, demo_fd)" "(demo_request, zeros 52)" 0 "li_of_bytes (zeros 140)"]
      demo_ctx_ok [of 5] ok by (simp add: sys_ok_def ctx_ok_def demo_node_def Let_def)
  moreover have "\<forall>i. peers (s_ctx (demo_node 5 db)) UINT32_MAX = Some i \<longrightarrow> pi_state i \<noteq> PEER_ST_ACTIVE"
    by (simp add: db(3) demo_db_wf(2) UINT32_MAX_def)
  ultimately obtain infos s' where
    "st_connects demo_denv 0 infos (?n\<lparr>s_ctx := s_ctx (demo_node 5 db)\<rparr>) = Inr s'"
    "\<forall>uid i. peer_lookup db uid = Some i \<and> pi_state i = PEER_ST_ACTIVE \<longrightarrow>
       (\<exists>a. conns (s_rudp s') uid = Some (Some a) \<and> heap (s_rudp s') a \<noteq> None)"
    using st_connects_active [of demo_sodium "?n\<lparr>s_ctx := s_ctx (demo_node 5 db)\<rparr>" demo_denv] by auto
  moreover from this(2) have "\<exists>a. conns (s_rudp s') 77 = Some (Some a) \<and> heap (s_rudp s') a \<noteq> None" by (simp add: db(3))
  ultimately show ?thesis by (intro exI [of _ db] exI [of _ infos] exI [of _ s']) (simp add: db(3))
qed

end
