(* ===== verification/Natpunch.thy ===== *)
theory Natpunch
  imports Lownet Prot
begin

text \<open>
  \<open>natpunch/src\<close>: asking STUN servers for the public address (\<open>stun.c\<close>) and telling the type
  of the NAT from two answers (\<open>nat.c\<close>).

  The UDP socket is its address fields and whether it is open and bound: \<open>bind\<close> fails on a
  closed or bound socket, as POSIX documents (\<open>EBADF\<close>, \<open>EINVAL\<close>), and \<open>close\<close> closes it. What
  one query meets is a \<open>stun_io\<close>: the random transaction id, whether the request was sent, the result of the
  wait, and the datagram that \<open>recvfrom\<close> returns. Memory behind the receive buffer is not readable:
  reading it is the fault \<open>OutOfBounds\<close>. The threads that resolve the server names append to
  one protected array; the order in which they run is an argument.

  The lemmas: an answer with an (XOR-)mapped address gives this address, behind any other
  attributes, and the answer of any host counts; the parser ends, but reads past its buffer
  when an attribute promises more than there is; the type of the NAT is found only from the
  first two of at most ten servers.
\<close>

record ln_socket =
  us_fd :: nnet_fd
  us_addr :: naddr_t
  us_open :: bool
  us_bound :: bool

datatype nat_type = NAT_DYNAMIC | NAT_STATIC | NAT_SYMMETRIC | NAT_ERROR

record stun_io =
  io_id :: bytes
  io_sent :: "bytes \<Rightarrow> bool"
  io_wait :: int
  io_recv :: "bytes \<Rightarrow> bytes option"

record stun_addr =
  uniaddr :: bytes
  st_port :: u16

subsection \<open>STUN\<close>

definition STUN_BINDING_REQUEST :: u16 where "STUN_BINDING_REQUEST = 0x0001"

definition STUN_BINDING_RESPONSE :: u16 where "STUN_BINDING_RESPONSE = 0x0101"

definition STUN_MAGIC_COOKIE :: u32 where "STUN_MAGIC_COOKIE = 0x2112A442"

definition ATTR_MAPPED_ADDRESS :: u16 where "ATTR_MAPPED_ADDRESS = 0x0001"

definition ATTR_XOR_MAPPED_ADDRESS :: u16 where "ATTR_XOR_MAPPED_ADDRESS = 0x0020"

definition ATTR_XOR_MAPPED_ADDRESS_RFC5389 :: u16 where "ATTR_XOR_MAPPED_ADDRESS_RFC5389 = 0x8020"

text \<open>The packed header: type, length, magic cookie and transaction id, 20 bytes.\<close>

definition stun_header :: "u16 \<Rightarrow> u16 \<Rightarrow> u32 \<Rightarrow> bytes \<Rightarrow> bytes" where
  "stun_header typ length' magic ident = le16 typ @ le16 length' @ le32 magic @ ident"

definition stun_request :: "bytes \<Rightarrow> bytes" where
  "stun_request ident = stun_header (htons STUN_BINDING_REQUEST) (htons 0) (htonl STUN_MAGIC_COOKIE) ident"

text \<open>Reading \<open>n\<close> bytes of the buffer of 1024 bytes.\<close>

definition buf_get :: "bytes \<Rightarrow> nat \<Rightarrow> nat \<Rightarrow> fault + bytes" where
  "buf_get buf pos n = (if pos + n \<le> length buf then Inr (take n (drop pos buf)) else Inl OutOfBounds)"

definition stun_xor_mapped :: "bytes \<Rightarrow> nat \<Rightarrow> fault + naddr_t" where
  "stun_xor_mapped buf pos =
     bind_fault (buf_get buf (pos + 4 + 2) 2) (\<lambda>x_port.
     bind_fault (buf_get buf (pos + 4 + 4) 4) (\<lambda>x_ip.
       let port = ntohs (of_le16 x_port) XOR ucast (drop_bit 16 STUN_MAGIC_COOKIE);
           ip = ntohl (of_le32 x_ip) XOR STUN_MAGIC_COOKIE;
           s_addr = htonl ip in
       bind_fault (ln_ipv4 (inet_ntop4 (le32 s_addr)) port) (\<lambda>v4. Inr (ln_make4 v4))))"

definition stun_mapped :: "bytes \<Rightarrow> nat \<Rightarrow> fault + naddr_t" where
  "stun_mapped buf pos =
     bind_fault (buf_get buf (pos + 4 + 2) 2) (\<lambda>port.
     bind_fault (buf_get buf (pos + 4 + 4) 4) (\<lambda>ip.
       let real_port = ntohs (of_le16 port);
           real_ip = ntohl (of_le32 ip);
           s_addr = htonl real_ip in
       bind_fault (ln_ipv4 (inet_ntop4 (le32 s_addr)) real_port) (\<lambda>v4. Inr (ln_make4 v4))))"

text \<open>The loop over the attributes; \<open>None\<close> is the result \<open>-1\<close>.\<close>

function stun_attrs :: "bytes \<Rightarrow> nat \<Rightarrow> nat \<Rightarrow> fault + naddr_t option" where
  "stun_attrs buf pos end_pos =
     (if pos + 4 \<le> end_pos then
        bind_fault (buf_get buf pos 2) (\<lambda>t.
        bind_fault (buf_get buf (pos + 2) 2) (\<lambda>l.
          let typ = ntohs (of_le16 t); n = unat (ntohs (of_le16 l)) in
          if typ = ATTR_XOR_MAPPED_ADDRESS \<or> typ = ATTR_XOR_MAPPED_ADDRESS_RFC5389 then
            if n < 8 then Inr None
            else bind_fault (stun_xor_mapped buf pos) (\<lambda>a. Inr (Some a))
          else if typ = ATTR_MAPPED_ADDRESS then
            if n < 8 then Inr None
            else bind_fault (buf_get buf (pos + 4 + 1) 1) (\<lambda>family.
              if family \<noteq> [0x01] then Inr None
              else bind_fault (stun_mapped buf pos) (\<lambda>a. Inr (Some a)))
          else stun_attrs buf (pos + 4 + (n + 3) div 4 * 4) end_pos))
      else Inr None)"
  by auto
termination by (relation "measure (\<lambda>(buf, pos, end_pos). end_pos - pos)") auto

text \<open>
  The answer is judged by its type and magic cookie; neither its sender nor its transaction
  id is compared with the request.
\<close>

definition stun_answer :: "bytes \<Rightarrow> fault + naddr_t option" where
  "stun_answer datagram =
     (let received = take 1024 datagram; r = length received;
          buf = received @ zeros (1024 - r) in
      if r < 20 then Inr None
      else if ntohs (of_le16 buf) \<noteq> STUN_BINDING_RESPONSE then Inr None
      else if ntohl (of_le32 (drop 4 buf)) \<noteq> STUN_MAGIC_COOKIE then Inr None
      else
        let msg_len = unat (ntohs (of_le16 (drop 2 buf)));
            end_pos = (if r < 20 + msg_len then r else 20 + msg_len) in
        stun_attrs buf 20 end_pos)"

definition natp_request_stun :: "stun_io \<Rightarrow> ln_socket \<Rightarrow> fault + int \<times> ln_socket" where
  "natp_request_stun io client =
     (let req = stun_request (io_id io) in
      if \<not> io_sent io req then Inr (-1, client)
      else if io_wait io \<le> 0 then Inr (-1, client)
      else
        case io_recv io req of
          None \<Rightarrow> Inr (-1, client)
        | Some datagram \<Rightarrow>
            bind_fault (stun_answer datagram) (\<lambda>a.
              case a of
                None \<Rightarrow> Inr (-1, client)
              | Some addr \<Rightarrow> Inr (0, client\<lparr>us_addr := addr\<rparr>)))"

subsection \<open>The type of the NAT\<close>

definition us_bind :: "ln_socket \<Rightarrow> int \<times> ln_socket" where
  "us_bind client =
     (if us_open client \<and> \<not> us_bound client then (0, client\<lparr>us_bound := True\<rparr>) else (-1, client))"

text \<open>The results of \<open>socket\<close> and of the two calls of \<open>setsockopt\<close> are arguments.\<close>

definition ln_usock_new :: "int \<Rightarrow> int \<Rightarrow> int \<Rightarrow> ln_socket \<Rightarrow> int \<times> ln_socket" where
  "ln_usock_new rs o1 o2 sck =
     (let sck = sck\<lparr>us_fd := (us_fd sck)\<lparr>rfd := rs\<rparr>, us_open := (0 \<le> rs), us_bound := False\<rparr> in
      if rs < 0 \<or> o1 < 0 \<or> o2 < 0 then (-1, sck) else (0, sck))"

definition ln_usock_bind :: "lib6 \<Rightarrow> ln_socket \<Rightarrow> naddr_t \<Rightarrow> int \<times> ln_socket" where
  "ln_usock_bind lib sck addr =
     (let (r, fd) = ln_netfd lib addr (us_fd sck) in
      if r < 0 then (-1, sck\<lparr>us_fd := fd\<rparr>) else us_bind (sck\<lparr>us_fd := fd, us_addr := addr\<rparr>))"

definition ln_usock_close :: "ln_socket \<Rightarrow> ln_socket" where
  "ln_usock_close client = client\<lparr>us_open := False\<rparr>"

text \<open>
  One datagram. A socket \<open>None\<close> is \<open>NULL\<close>; \<open>recvd\<close> is what \<open>recvfrom\<close> gives: its result, the address and its length.
  The second component of a send is what goes to \<open>sendto\<close>.
\<close>

definition ln_usock_recv ::
  "(int \<times> sockaddr_storage \<times> nat) \<Rightarrow> ln_socket option \<Rightarrow> nnet_fd option \<Rightarrow> int \<times> nnet_fd option" where
  "ln_usock_recv recvd sck from =
     (if sck = None then (-1, from)
      else
        let (r, ss, n) = recvd in
        (r, map_option (\<lambda>fd. if r < 0 then fd\<lparr>fd_addr_len := 128, fd_addr := zero_sockaddr\<rparr>
                              else fd\<lparr>fd_addr_len := n, fd_addr := ss\<rparr>) from))"

definition ln_usock_send ::
  "int \<Rightarrow> ln_socket option \<Rightarrow> bytes \<Rightarrow> nnet_fd option \<Rightarrow> fault + int \<times> (int \<times> bytes \<times> sockaddr_storage \<times> nat) option" where
  "ln_usock_send r sck buf to =
     (case sck of
        None \<Rightarrow> Inr (-1, None)
      | Some s \<Rightarrow>
          (case to of
             None \<Rightarrow> Inl NullDeref
           | Some fd \<Rightarrow> Inr (r, Some (rfd (us_fd s), buf, fd_addr fd, fd_addr_len fd))))"

text \<open>
  The two queries on the bound socket and the verdict; \<open>io\<close> are the conditions of the queries,
  the last component is the type when it is set.
\<close>

definition nat_queries ::
  "stun_io \<times> stun_io \<Rightarrow> ln_socket \<Rightarrow> u16 \<Rightarrow> fault + int \<times> ln_socket \<times> nat_type option" where
  "nat_queries io client port =
     bind_fault (natp_request_stun (fst io) client) (\<lambda>(r, client).
       if r < 0 then Inr (-2, ln_usock_close client, None)
       else
         let addr0 = us_addr client in
         bind_fault (natp_request_stun (snd io) client) (\<lambda>(r, client).
           if r < 0 then Inr (-3, ln_usock_close client, None)
           else
             let addr1 = us_addr client in
             Inr (0, client, Some (if ln_gport addr0 = ln_gport addr1 then
                    if ln_gport addr0 = port then NAT_STATIC else NAT_DYNAMIC
                  else NAT_SYMMETRIC))))"

definition nat_get_type ::
  "lib6 \<Rightarrow> stun_io \<times> stun_io \<Rightarrow> ln_socket \<Rightarrow> u16 \<Rightarrow> fault + int \<times> ln_socket \<times> nat_type option" where
  "nat_get_type lib io client port =
     bind_fault (ln_ipv4 (map of_nat [48, 46, 48, 46, 48, 46, 48]) port) (\<lambda>v4.
       let fd = snd (ln_netfd lib (ln_make4 v4) (us_fd client));
           (b, client) = us_bind (client\<lparr>us_fd := fd\<rparr>) in
       if b < 0 then Inr (-1, client, None) else nat_queries io client port)"

definition strnattype :: "nat_type \<Rightarrow> string" where
  "strnattype t =
     (case t of NAT_SYMMETRIC \<Rightarrow> ''SYMMETRIC'' | NAT_DYNAMIC \<Rightarrow> ''DYNAMIC''
      | NAT_STATIC \<Rightarrow> ''STATIC'' | NAT_ERROR \<Rightarrow> ''ERROR'')"

text \<open>One resolving thread: its share of the names, appended to the common array.\<close>

fun parallel_stun_resolution ::
  "lib6 \<Rightarrow> (bytes \<Rightarrow> bytes list option) \<Rightarrow> naddr_t \<Rightarrow> stun_addr list \<Rightarrow> naddr_t prot_array \<Rightarrow>
   fault + naddr_t prot_array" where
  "parallel_stun_resolution lib dns junk [] q = Inr q"
| "parallel_stun_resolution lib dns junk (a # as) q =
     bind_fault (ln_uni lib dns (uniaddr a) (st_port a) junk) (\<lambda>(r, out).
       if r < 0 then parallel_stun_resolution lib dns junk as q
       else bind_fault (prot_array_push True q out) (\<lambda>(_, q). parallel_stun_resolution lib dns junk as q))"

definition STUN_PARALLEL_RESOLUTION_LIMIT :: nat where
  "STUN_PARALLEL_RESOLUTION_LIMIT = 10"

definition paral_res_n :: "nat \<Rightarrow> nat" where
  "paral_res_n stuns_n =
     (if STUN_PARALLEL_RESOLUTION_LIMIT > stuns_n then stuns_n else STUN_PARALLEL_RESOLUTION_LIMIT)"

text \<open>The names of the thread \<open>i\<close>.\<close>

definition thread_share :: "stun_addr list \<Rightarrow> nat \<Rightarrow> stun_addr list" where
  "thread_share stuns i =
     (let n = length stuns; m = paral_res_n n div n in take m (drop (i * m) stuns))"

fun run_threads ::
  "lib6 \<Rightarrow> (bytes \<Rightarrow> bytes list option) \<Rightarrow> naddr_t \<Rightarrow> stun_addr list \<Rightarrow> nat list \<Rightarrow> naddr_t prot_array \<Rightarrow>
   fault + naddr_t prot_array" where
  "run_threads lib dns junk stuns [] q = Inr q"
| "run_threads lib dns junk stuns (i # is) q =
     bind_fault (parallel_stun_resolution lib dns junk (thread_share stuns i) q)
       (run_threads lib dns junk stuns is)"

text \<open>
  The loop over the pairs of servers; round \<open>k\<close> has the random number \<open>rnd k\<close> and meets \<open>env k\<close>
  of the two addresses. It ends with the type that was found.
\<close>

definition next_index :: "nat \<Rightarrow> nat \<Rightarrow> nat" where
  "next_index i other = (if i + 1 = other then i + 1 + 1 else i + 1)"

function nat_loop ::
  "lib6 \<Rightarrow> (nat \<Rightarrow> nat) \<Rightarrow> (nat \<Rightarrow> naddr_t \<Rightarrow> naddr_t \<Rightarrow> stun_io \<times> stun_io) \<Rightarrow> naddr_t list \<Rightarrow> nat \<Rightarrow>
   nat \<Rightarrow> nat \<Rightarrow> ln_socket \<Rightarrow> fault + nat_type \<times> ln_socket" where
  "nat_loop lib rnd env q k first_i second_i client =
     (let port = of_nat (1024 + rnd k mod 63000) in
      if length q \<le> first_i \<or> length q \<le> second_i then Inl NullDeref
      else
        bind_fault (nat_get_type lib (env k (q ! first_i) (q ! second_i)) client port)
          (\<lambda>(r, client, typ).
             if r = 0 then Inr (the typ, client)
             else if r = -1 then Inr (NAT_ERROR, client)
             else if r = -2 then
               let first_i = next_index first_i second_i in
               if first_i \<ge> length q then Inr (NAT_ERROR, client)
               else nat_loop lib rnd env q (k + 1) first_i second_i client
             else
               let second_i = next_index second_i first_i in
               if second_i \<ge> length q then Inr (NAT_ERROR, client)
               else nat_loop lib rnd env q (k + 1) first_i second_i client))"
  by auto
termination
  by (relation "measure (\<lambda>(lib, rnd, env, q, k, first_i, second_i, client).
        (length q - first_i) + (length q - second_i))")
    (auto simp: next_index_def Let_def split: if_splits)

definition nat_parallel_req ::
  "lib6 \<Rightarrow> (bytes \<Rightarrow> bytes list option) \<Rightarrow> naddr_t \<Rightarrow> nat list \<Rightarrow> (nat \<Rightarrow> nat) \<Rightarrow>
   (nat \<Rightarrow> naddr_t \<Rightarrow> naddr_t \<Rightarrow> stun_io \<times> stun_io) \<Rightarrow> ln_socket \<Rightarrow> stun_addr list \<Rightarrow>
   fault + nat_type \<times> ln_socket" where
  "nat_parallel_req lib dns junk order rnd env client stuns =
     bind_fault (run_threads lib dns junk stuns order (snd (prot_array_create 52))) (\<lambda>q.
     bind_fault (prot_array_len q) (\<lambda>(n, q).
       if n < 2 then Inr (NAT_ERROR, client)
       else nat_loop lib rnd env (elements (obj q)) 0 0 1 client))"

subsection \<open>Answers\<close>

text \<open>What a server sends, as RFC 5389 has it.\<close>

definition stun_attr :: "u16 \<times> bytes \<Rightarrow> bytes" where
  "stun_attr a = (case a of (t, v) \<Rightarrow>
     le16 (htons t) @ le16 (htons (of_nat (length v))) @ v @ zeros ((length v + 3) div 4 * 4 - length v))"

definition stun_reply :: "bytes \<Rightarrow> (u16 \<times> bytes) list \<Rightarrow> bytes" where
  "stun_reply ident as =
     (let body = concat (map stun_attr as) in
      stun_header (htons STUN_BINDING_RESPONSE) (htons (of_nat (length body))) (htonl STUN_MAGIC_COOKIE) ident @ body)"

definition mapped_value :: "bytes \<Rightarrow> u16 \<Rightarrow> bytes" where
  "mapped_value ip port = [0, 1] @ le16 (htons port) @ ip"

definition xor_mapped_value :: "bytes \<Rightarrow> u16 \<Rightarrow> bytes" where
  "xor_mapped_value ip port =
     [0, 1] @ le16 (htons (port XOR 0x2112)) @ le32 (htonl (ntohl (of_le32 ip) XOR STUN_MAGIC_COOKIE))"

definition known_attr :: "u16 \<Rightarrow> bool" where
  "known_attr t \<longleftrightarrow>
     t = ATTR_MAPPED_ADDRESS \<or> t = ATTR_XOR_MAPPED_ADDRESS \<or> t = ATTR_XOR_MAPPED_ADDRESS_RFC5389"

declare stun_attrs.simps [simp del] nat_loop.simps [simp del]

lemma buf_get_at: "length xs = n \<Longrightarrow> length pre = pos \<Longrightarrow> buf_get (pre @ xs @ ys) pos n = Inr xs"
  by (auto simp: buf_get_def)

lemma length_stun_attr: "length (stun_attr (t, v)) = 4 + (length v + 3) div 4 * 4"
  by (simp add: stun_attr_def)

text \<open>The head of an attribute.\<close>

lemma stun_attr_head:
  assumes "buf = pre @ stun_attr (t, v) @ rest" and "length v < 2 ^ 16"
  shows "buf_get buf (length pre) 2 = Inr (le16 (htons t))"
    "buf_get buf (length pre + 2) 2 = Inr (le16 (htons (of_nat (length v))))"
    "unat (htons (of_le16 (le16 (htons (of_nat (length v))))) ) = length v"
proof -
  show "buf_get buf (length pre) 2 = Inr (le16 (htons t))"
    unfolding assms(1) stun_attr_def by (simp add: buf_get_at)
  have "buf = (pre @ le16 (htons t)) @ le16 (htons (of_nat (length v))) @
      (v @ zeros ((length v + 3) div 4 * 4 - length v)) @ rest"
    by (simp add: assms(1) stun_attr_def)
  then show "buf_get buf (length pre + 2) 2 = Inr (le16 (htons (of_nat (length v))))"
    using buf_get_at [of "le16 (htons (of_nat (length v)))" 2 "pre @ le16 (htons t)" "length pre + 2"] by simp
  show "unat (htons (of_le16 (le16 (htons (of_nat (length v))))) ) = length v"
    using assms(2) by (simp add: unsigned_of_nat take_bit_nat_eq_self)
qed

lemma stun_attrs_skip:
  assumes "buf = pre @ stun_attr (t, v) @ rest" and "length v < 2 ^ 16" and "\<not> known_attr t"
    and "length pre + 4 \<le> e"
  shows "stun_attrs buf (length pre) e = stun_attrs buf (length pre + length (stun_attr (t, v))) e"
  using stun_attr_head [OF assms(1,2)] assms(3,4)
  by (simp add: stun_attrs.simps [of buf "length pre"] known_attr_def length_stun_attr Let_def add.assoc)

lemma ln_ipv4_ntop4:
  "bind_fault (ln_ipv4 (inet_ntop4 ip) port) (\<lambda>v4. Inr (ln_make4 v4)) = Inr (na4 (inet_ntop4 ip) port)"
  using length_inet_ntop4 [of ip] by (simp add: ln_ipv4_def na4_def)

lemma buf_get_in_attr:
  assumes "buf = pre @ stun_attr (t, u @ w @ x) @ rest" and "length w = n" and "i = length u"
  shows "buf_get buf (length pre + 4 + i) n = Inr w"
proof -
  have "buf = (pre @ le16 (htons t) @ le16 (htons (of_nat (length (u @ w @ x)))) @ u) @ w @
      (x @ zeros ((length (u @ w @ x) + 3) div 4 * 4 - length (u @ w @ x)) @ rest)"
    by (simp add: assms(1) stun_attr_def)
  then show ?thesis
    using assms(2,3) buf_get_at [of w n "pre @ le16 (htons t) @ le16 (htons (of_nat (length (u @ w @ x)))) @ u"
        "length pre + 4 + i"] by simp
qed

lemma stun_xor_mapped_at:
  assumes "buf = pre @ stun_attr (t, xor_mapped_value ip port) @ rest" and "length ip = 4"
  shows "stun_xor_mapped buf (length pre) = Inr (na4 (inet_ntop4 ip) port)"
proof -
  let ?p = "le16 (htons (port XOR 0x2112))"
  let ?i = "le32 (htonl (ntohl (of_le32 ip) XOR STUN_MAGIC_COOKIE))"
  have p: "buf_get buf (length pre + 4 + 2) 2 = Inr ?p"
    by (rule buf_get_in_attr [where u = "[0, 1]" and x = ?i])
      (use assms in \<open>simp_all add: xor_mapped_value_def\<close>)
  have i: "buf_get buf (length pre + 4 + 4) 4 = Inr ?i"
    by (rule buf_get_in_attr [where u = "[0, 1] @ ?p" and x = "[]"])
      (use assms in \<open>simp_all add: xor_mapped_value_def\<close>)
  have cookie: "ucast (drop_bit 16 STUN_MAGIC_COOKIE) = (0x2112 :: u16)"
    by (simp add: STUN_MAGIC_COOKIE_def drop_bit_eq_div)
  have "(port XOR 0x2112) XOR 0x2112 = port"
    "(ntohl (of_le32 ip) XOR STUN_MAGIC_COOKIE) XOR STUN_MAGIC_COOKIE = ntohl (of_le32 ip)"
    by (simp_all add: xor.assoc)
  then show ?thesis
    using p i cookie assms(2)
    by (simp add: stun_xor_mapped_def ln_ipv4_ntop4 le32_of_le32 Let_def del: of_le32.simps of_le16.simps)
qed

lemma stun_mapped_at:
  assumes "buf = pre @ stun_attr (t, mapped_value ip port) @ rest" and "length ip = 4"
  shows "stun_mapped buf (length pre) = Inr (na4 (inet_ntop4 ip) port)"
    "buf_get buf (length pre + 4 + 1) 1 = Inr [1]"
proof -
  have p: "buf_get buf (length pre + 4 + 2) 2 = Inr (le16 (htons port))"
    by (rule buf_get_in_attr [where u = "[0, 1]" and x = ip])
      (use assms in \<open>simp_all add: mapped_value_def\<close>)
  have i: "buf_get buf (length pre + 4 + 4) 4 = Inr ip"
    by (rule buf_get_in_attr [where u = "[0, 1] @ le16 (htons port)" and x = "[]"])
      (use assms in \<open>simp_all add: mapped_value_def\<close>)
  show "stun_mapped buf (length pre) = Inr (na4 (inet_ntop4 ip) port)"
    using p i assms(2)
    by (simp add: stun_mapped_def ln_ipv4_ntop4 le32_of_le32 Let_def del: of_le32.simps of_le16.simps)
  show "buf_get buf (length pre + 4 + 1) 1 = Inr [1]"
    by (rule buf_get_in_attr [where u = "[0]" and x = "le16 (htons port) @ ip"])
      (use assms in \<open>simp_all add: mapped_value_def\<close>)
qed

text \<open>The two forms an address is sent in.\<close>

definition address_attr :: "bytes \<Rightarrow> u16 \<Rightarrow> u16 \<times> bytes \<Rightarrow> bool" where
  "address_attr ip port a \<longleftrightarrow>
     a = (ATTR_MAPPED_ADDRESS, mapped_value ip port) \<or>
     a = (ATTR_XOR_MAPPED_ADDRESS, xor_mapped_value ip port) \<or>
     a = (ATTR_XOR_MAPPED_ADDRESS_RFC5389, xor_mapped_value ip port)"

lemma stun_attrs_found:
  assumes "buf = pre @ stun_attr a @ rest" and "address_attr ip port a" and "length ip = 4"
    and "length pre + 4 \<le> e"
  shows "stun_attrs buf (length pre) e = Inr (Some (na4 (inet_ntop4 ip) port))"
proof -
  obtain t v where a: "a = (t, v)" by (cases a)
  have v: "length v = 8"
    using assms(2,3) by (auto simp: a address_attr_def mapped_value_def xor_mapped_value_def)
  have buf: "buf = pre @ stun_attr (t, v) @ rest" using assms(1) by (simp add: a)
  have h: "buf_get buf (length pre) 2 = Inr (le16 (htons t))"
    "buf_get buf (length pre + 2) 2 = Inr (le16 (htons (of_nat (length v))))"
    "unat (htons (of_le16 (le16 (htons (of_nat (length v)))))) = 8"
    using stun_attr_head [OF buf] v by simp_all
  note step = stun_attrs.simps [of buf "length pre"]
  from assms(2) consider "t = ATTR_MAPPED_ADDRESS" "v = mapped_value ip port" |
    "t = ATTR_XOR_MAPPED_ADDRESS \<or> t = ATTR_XOR_MAPPED_ADDRESS_RFC5389" "v = xor_mapped_value ip port"
    by (auto simp: a address_attr_def)
  then show ?thesis
  proof cases
    case 1
    then show ?thesis
      using h assms(4) stun_mapped_at [OF buf [unfolded 1] assms(3)]
      by (simp add: step Let_def ATTR_MAPPED_ADDRESS_def ATTR_XOR_MAPPED_ADDRESS_def
          ATTR_XOR_MAPPED_ADDRESS_RFC5389_def)
  next
    case 2
    then show ?thesis
      using h assms(4) stun_xor_mapped_at [OF buf [unfolded 2(2)] assms(3)]
      by (auto simp: step Let_def)
  qed
qed

lemma stun_attrs_reply:
  assumes "buf = pre @ concat (map stun_attr before) @ stun_attr a @ rest"
    and "\<forall>(t, v) \<in> set before. \<not> known_attr t \<and> length v < 2 ^ 16"
    and "address_attr ip port a" and "length ip = 4"
    and "length pre + length (concat (map stun_attr before)) + 4 \<le> e"
  shows "stun_attrs buf (length pre) e = Inr (Some (na4 (inet_ntop4 ip) port))"
  using assms(1,2,5)
proof (induction before arbitrary: pre)
  case Nil
  then show ?case using stun_attrs_found [of buf pre a rest] assms(3,4) by simp
next
  case (Cons b before)
  obtain t v where b: "b = (t, v)" by (cases b)
  have "stun_attrs buf (length pre) e = stun_attrs buf (length pre + length (stun_attr (t, v))) e"
    by (rule stun_attrs_skip) (use Cons.prems b in auto)
  also have "\<dots> = Inr (Some (na4 (inet_ntop4 ip) port))"
    using Cons.IH [of "pre @ stun_attr (t, v)"] Cons.prems b by (simp add: add.assoc)
  finally show ?case .
qed

lemma stun_reply_accepted:
  assumes "length ident = 12" and "length (concat (map stun_attr as)) \<le> 1004"
  shows "stun_answer (stun_reply ident as) =
    stun_attrs (stun_reply ident as @ zeros (1004 - length (concat (map stun_attr as)))) 20
      (20 + length (concat (map stun_attr as)))"
proof -
  let ?b = "concat (map stun_attr as)"
  have l: "length (stun_reply ident as) = 20 + length ?b"
    using assms(1) by (simp add: stun_reply_def stun_header_def Let_def)
  have n: "unat (of_nat (length ?b) :: u16) = length ?b"
    using assms(2) by (simp add: unsigned_of_nat take_bit_nat_eq_self)
  have f: "of_le16 (stun_reply ident as @ x) = htons STUN_BINDING_RESPONSE"
    "of_le16 (drop 2 (stun_reply ident as @ x)) = htons (of_nat (length ?b))"
    "of_le32 (drop 4 (stun_reply ident as @ x)) = htonl STUN_MAGIC_COOKIE" for x
    by (simp_all add: stun_reply_def stun_header_def Let_def del: of_le16.simps of_le32.simps)
  define buf where "buf = stun_reply ident as @ zeros (1004 - length ?b)"
  have t: "take 1024 (stun_reply ident as) = stun_reply ident as"
    "1024 - length (stun_reply ident as) = 1004 - length ?b"
    using assms(2) l by simp_all
  have n': "unat (ntohs (of_le16 (drop 2 buf))) = length ?b"
    "ntohs (of_le16 buf) = STUN_BINDING_RESPONSE" "ntohl (of_le32 (drop 4 buf)) = STUN_MAGIC_COOKIE"
    unfolding buf_def f using n by simp_all
  have "stun_answer (stun_reply ident as) = stun_attrs buf 20 (20 + length ?b)"
    unfolding stun_answer_def Let_def t buf_def [symmetric] n' using l by simp
  then show ?thesis by (simp add: buf_def)
qed

lemma stun_reply_read:
  assumes "length ip = 4" and "address_attr ip port a"
    and "\<forall>(t, v) \<in> set before. \<not> known_attr t \<and> length v < 2 ^ 16"
    and "length ident = 12" and "length (concat (map stun_attr (before @ a # after))) \<le> 1004"
  shows "stun_answer (stun_reply ident (before @ a # after)) = Inr (Some (na4 (inet_ntop4 ip) port))"
proof -
  let ?as = "before @ a # after"
  let ?h = "stun_header (htons STUN_BINDING_RESPONSE) (htons (of_nat (length (concat (map stun_attr ?as)))))
    (htonl STUN_MAGIC_COOKIE) ident"
  have h: "length ?h = 20" using assms(4) by (simp add: stun_header_def)
  have "4 \<le> length (stun_attr a)" by (cases a) (simp add: length_stun_attr)
  then show ?thesis
    unfolding stun_reply_accepted [OF assms(4,5)]
    using stun_attrs_reply [of _ ?h before a _ ip port, OF refl assms(3,2,1)] h
    by (simp add: stun_reply_def Let_def)
qed

text \<open>
  C22: the answer of a server gives the address it was sent for, in all three encodings and
  behind any other attributes, under any transaction id.
\<close>

theorem stun_address_roundtrip:
  assumes "length ip = 4" and "address_attr ip port a"
    and "\<forall>(t, v) \<in> set before. \<not> known_attr t \<and> length v < 2 ^ 16"
    and "length ident = 12" and "length (concat (map stun_attr (before @ a # after))) \<le> 1004"
  shows "stun_answer (stun_reply ident (before @ a # after)) = Inr (Some (na4 (inet_ntop4 ip) port))"
  using assms by (rule stun_reply_read)

theorem stun_address_roundtrip_witness:
  "stun_answer (stun_reply (replicate 12 7) ([(0x8022, [1, 2, 3])] @
       (ATTR_XOR_MAPPED_ADDRESS, xor_mapped_value [203, 0, 113, 9] 4242) # [])) =
     Inr (Some (na4 (inet_ntop4 [203, 0, 113, 9]) 4242))"
  by (rule stun_address_roundtrip)
    (simp_all add: address_attr_def known_attr_def ATTR_MAPPED_ADDRESS_def ATTR_XOR_MAPPED_ADDRESS_def
      ATTR_XOR_MAPPED_ADDRESS_RFC5389_def length_stun_attr xor_mapped_value_def)

subsection \<open>The receive buffer\<close>

lemma buf_get_inside: "pos + n \<le> length buf \<Longrightarrow> \<exists>xs. buf_get buf pos n = Inr xs"
  by (simp add: buf_get_def)

lemma stun_value_inside:
  assumes "pos + 12 \<le> length buf"
  shows "\<exists>a. stun_xor_mapped buf pos = Inr a" "\<exists>a. stun_mapped buf pos = Inr a"
proof -
  obtain x y where "buf_get buf (pos + 4 + 2) 2 = Inr x" "buf_get buf (pos + 4 + 4) 4 = Inr y"
    using buf_get_inside [of "pos + 4 + 2" 2 buf] buf_get_inside [of "pos + 4 + 4" 4 buf] assms by auto
  then show "\<exists>a. stun_xor_mapped buf pos = Inr a" "\<exists>a. stun_mapped buf pos = Inr a"
    by (simp_all add: stun_xor_mapped_def stun_mapped_def ln_ipv4_ntop4 Let_def del: of_le32.simps of_le16.simps)
qed

lemma stun_attrs_inside:
  assumes "e + 8 \<le> length buf"
  shows "\<exists>a. stun_attrs buf pos e = Inr a"
  using assms
proof (induction buf pos e rule: stun_attrs.induct)
  case (1 buf pos e)
  note step = stun_attrs.simps [of buf pos e]
  show ?case
  proof (cases "pos + 4 \<le> e")
    case True
    then obtain t l f where g: "buf_get buf pos 2 = Inr t" "buf_get buf (pos + 2) 2 = Inr l"
      "buf_get buf (pos + 4 + 1) 1 = Inr f"
      using buf_get_inside [of pos 2 buf] buf_get_inside [of "pos + 2" 2 buf]
        buf_get_inside [of "pos + 4 + 1" 1 buf] "1.prems" by auto
    have v: "\<exists>a. stun_xor_mapped buf pos = Inr a" "\<exists>a. stun_mapped buf pos = Inr a"
      using stun_value_inside [of pos buf] True "1.prems" by auto
    show ?thesis
    proof (cases "known_attr (ntohs (of_le16 t))")
      case True
      then show ?thesis using v g \<open>pos + 4 \<le> e\<close>
        by (auto simp: step Let_def known_attr_def)
    next
      case False
      then show ?thesis using "1.IH" [OF True refl refl, of t l] "1.prems" g True
        by (simp add: step Let_def known_attr_def)
    qed
  qed (simp add: step)
qed

text \<open>An attribute header at the very end that promises a value.\<close>

definition overlong_reply :: "bytes \<Rightarrow> u16 \<Rightarrow> bytes \<Rightarrow> bytes" where
  "overlong_reply ident t v =
     stun_header (htons STUN_BINDING_RESPONSE) (htons 1004) (htonl STUN_MAGIC_COOKIE) ident @
     stun_attr (t, v) @ le16 (htons ATTR_XOR_MAPPED_ADDRESS) @ le16 (htons 8)"

lemma stun_attrs_overread:
  assumes "length buf = 1024" and "buf_get buf 1020 2 = Inr (le16 (htons ATTR_XOR_MAPPED_ADDRESS))"
    and "buf_get buf (1020 + 2) 2 = Inr (le16 (htons 8))"
  shows "stun_attrs buf 1020 1024 = Inl OutOfBounds"
  using assms
  by (simp add: stun_attrs.simps [of buf 1020] Let_def stun_xor_mapped_def buf_get_def)

lemma overlong_reply_faults:
  assumes "length ident = 12" and "length v = 996" and "\<not> known_attr t"
  shows "length (overlong_reply ident t v) = 1024" "stun_answer (overlong_reply ident t v) = Inl OutOfBounds"
proof -
  let ?h = "stun_header (htons STUN_BINDING_RESPONSE) (htons 1004) (htonl STUN_MAGIC_COOKIE) ident"
  let ?t = "le16 (htons ATTR_XOR_MAPPED_ADDRESS) @ le16 (htons 8)"
  define buf where "buf = overlong_reply ident t v"
  have h: "length ?h = 20" using assms(1) by (simp add: stun_header_def)
  show len: "length (overlong_reply ident t v) = 1024"
    using h assms(2) by (simp add: overlong_reply_def length_stun_attr)
  have b: "buf = ?h @ stun_attr (t, v) @ ?t" by (simp add: buf_def overlong_reply_def)
  have "take 1024 (overlong_reply ident t v) = buf" "length buf = 1024"
    using len by (simp_all add: buf_def)
  moreover have "ntohs (of_le16 buf) = STUN_BINDING_RESPONSE" "ntohl (of_le32 (drop 4 buf)) = STUN_MAGIC_COOKIE"
    "unat (ntohs (of_le16 (drop 2 buf))) = 1004"
    unfolding b stun_header_def by (simp_all del: of_le16.simps of_le32.simps)
  ultimately have "stun_answer (overlong_reply ident t v) = stun_attrs buf 20 1024"
    by (simp add: stun_answer_def Let_def zeros_def del: of_le16.simps of_le32.simps)
  also have "\<dots> = stun_attrs buf 1020 1024"
    using stun_attrs_skip [OF b, of 1024] assms(2,3) h by (simp add: length_stun_attr)
  also have "\<dots> = Inl OutOfBounds"
  proof (rule stun_attrs_overread)
    have l: "length (?h @ stun_attr (t, v)) = 1020" using h assms(2) by (simp add: length_stun_attr)
    show "buf_get buf 1020 2 = Inr (le16 (htons ATTR_XOR_MAPPED_ADDRESS))"
      using buf_get_at [OF _ l, of "le16 (htons ATTR_XOR_MAPPED_ADDRESS)" 2 "le16 (htons 8)"] b by simp
    show "buf_get buf (1020 + 2) 2 = Inr (le16 (htons 8))"
      using buf_get_at [of "le16 (htons 8)" 2 "?h @ stun_attr (t, v) @ le16 (htons ATTR_XOR_MAPPED_ADDRESS)" 1022 "[]"]
        l b by simp
  qed (use len in \<open>simp add: buf_def\<close>)
  finally show "stun_answer (overlong_reply ident t v) = Inl OutOfBounds" .
qed

text \<open>
  Reading an answer of at most 1016 bytes ends without a fault whatever it contains, but a datagram
  of 1024 bytes whose last attribute promises a value makes the parser read past its buffer.
\<close>

theorem stun_answer_bounds:
  "(\<forall>datagram. length datagram \<le> 1016 \<longrightarrow> (\<exists>a. stun_answer datagram = Inr a)) \<and>
   (\<exists>datagram. length datagram = 1024 \<and> stun_answer datagram = Inl OutOfBounds)"
proof (intro conjI allI impI)
  fix datagram :: bytes assume l: "length datagram \<le> 1016"
  have "\<exists>a. stun_attrs (datagram @ zeros (1024 - length datagram)) 20 e = Inr a"
    if "e \<le> length datagram" for e
    by (rule stun_attrs_inside) (use that l in simp)
  then show "\<exists>a. stun_answer datagram = Inr a"
    using l by (simp add: stun_answer_def Let_def del: of_le16.simps of_le32.simps)
next
  have "\<not> known_attr 0x8022"
    by (simp add: known_attr_def ATTR_MAPPED_ADDRESS_def ATTR_XOR_MAPPED_ADDRESS_def
        ATTR_XOR_MAPPED_ADDRESS_RFC5389_def)
  then show "\<exists>datagram. length datagram = 1024 \<and> stun_answer datagram = Inl OutOfBounds"
    using overlong_reply_faults [of "zeros 12" "zeros 996"] by fastforce
qed

theorem stun_answer_bounds_witness:
  "\<exists>a. stun_answer [1, 1, 0, 8] = Inr a"
  using stun_answer_bounds [THEN conjunct1, THEN spec, of "[1, 1, 0, 8]"] by simp

subsection \<open>The type of the NAT, and the servers that count\<close>

lemma zero_address: "\<exists>v4. ln_ipv4 (map of_nat [48, 46, 48, 46, 48, 46, 48]) port = Inr v4"
  by (simp add: ln_ipv4_def)

lemma nat_get_type_eq:
  "\<exists>fd. nat_get_type lib io client port =
     (if us_open client \<and> \<not> us_bound client then nat_queries io (client\<lparr>us_fd := fd, us_bound := True\<rparr>) port
      else Inr (-1, client\<lparr>us_fd := fd\<rparr>, None))"
  using zero_address [of port] by (auto simp: nat_get_type_def us_bind_def Let_def)

lemma nat_get_type_unusable:
  "\<not> us_open client \<or> us_bound client \<Longrightarrow>
   \<exists>fd. nat_get_type lib io client port = Inr (-1, client\<lparr>us_fd := fd\<rparr>, None)"
  using nat_get_type_eq [of lib io client port] by auto

lemma nat_queries_cases:
  assumes "nat_queries io client port = Inr (r, client', t)"
  shows "r = 0 \<and> t \<noteq> None \<and> t \<noteq> Some NAT_ERROR \<or> (r = -2 \<or> r = -3) \<and> \<not> us_open client'"
proof -
  obtain r0 c0 where r0: "natp_request_stun (fst io) client = Inr (r0, c0)"
    using assms by (auto simp: nat_queries_def bind_fault_Inr_iff)
  show ?thesis
  proof (cases "r0 < 0")
    case True
    then show ?thesis using assms r0 by (auto simp: nat_queries_def ln_usock_close_def Let_def)
  next
    case False
    then obtain r1 c1 where r1: "natp_request_stun (snd io) c0 = Inr (r1, c1)"
      using assms r0 by (auto simp: nat_queries_def bind_fault_Inr_iff Let_def)
    show ?thesis
      using assms r0 r1 False by (cases "r1 < 0") (auto simp: nat_queries_def ln_usock_close_def Let_def split: if_splits)
  qed
qed

lemma nat_get_type_cases:
  assumes "nat_get_type lib io client port = Inr (r, client', t)"
  shows "r = 0 \<and> us_open client \<and> \<not> us_bound client \<and> t \<noteq> None \<and> t \<noteq> Some NAT_ERROR \<or>
    r = -1 \<or> (r = -2 \<or> r = -3) \<and> \<not> us_open client'"
proof -
  obtain fd where fd: "nat_get_type lib io client port =
     (if us_open client \<and> \<not> us_bound client then nat_queries io (client\<lparr>us_fd := fd, us_bound := True\<rparr>) port
      else Inr (-1, client\<lparr>us_fd := fd\<rparr>, None))"
    using nat_get_type_eq by blast
  show ?thesis
  proof (cases "us_open client \<and> \<not> us_bound client")
    case True
    then have "nat_queries io (client\<lparr>us_fd := fd, us_bound := True\<rparr>) port = Inr (r, client', t)"
      using fd assms by simp
    from nat_queries_cases [OF this] True show ?thesis by blast
  next
    case False
    then show ?thesis using fd assms by auto
  qed
qed

lemma nat_loop_closed:
  assumes "\<not> us_open client" and "nat_loop lib rnd env q k i j client = Inr (t, client')"
  shows "t = NAT_ERROR"
  using nat_get_type_unusable [of client lib "env k (q ! i) (q ! j)" "of_nat (1024 + rnd k mod 63000)"]
    assms by (auto simp: nat_loop.simps [of lib rnd env q k i j] Let_def split: if_splits)

lemma nat_loop_first:
  assumes "nat_loop lib rnd env q k i j client = Inr (t, client')" and "t \<noteq> NAT_ERROR"
  shows "i < length q \<and> j < length q \<and> us_open client \<and> \<not> us_bound client \<and>
    nat_get_type lib (env k (q ! i) (q ! j)) client (of_nat (1024 + rnd k mod 63000)) = Inr (0, client', Some t)"
proof -
  note step = assms(1) [unfolded nat_loop.simps [of lib rnd env q k i j]]
  have len: "i < length q" "j < length q"
    using step by (auto simp: Let_def split: if_splits)
  obtain r c ty where g: "nat_get_type lib (env k (q ! i) (q ! j)) client (of_nat (1024 + rnd k mod 63000)) = Inr (r, c, ty)"
    using step len by (auto simp: Let_def bind_fault_Inr_iff)
  from nat_get_type_cases [OF g] show ?thesis
  proof (elim disjE)
    assume "r = 0 \<and> us_open client \<and> \<not> us_bound client \<and> ty \<noteq> None \<and> ty \<noteq> Some NAT_ERROR"
    then show ?thesis using step len g by auto
  next
    assume "r = -1"
    then show ?thesis using step len g assms(2) by simp
  next
    assume "(r = -2 \<or> r = -3) \<and> \<not> us_open c"
    then show ?thesis
      using step len g assms(2) nat_loop_closed [of c] by (auto simp: Let_def split: if_splits)
  qed
qed

lemma resolution_no_share:
  "10 < length stuns \<Longrightarrow> run_threads lib dns junk stuns order q = Inr q"
  by (induction order) (simp_all add: thread_share_def paral_res_n_def STUN_PARALLEL_RESOLUTION_LIMIT_def Let_def)

lemma threads_need_names:
  assumes "run_threads lib dns junk [] order q = Inr q'"
  shows "q' = q"
  using assms by (induction order) (simp_all add: thread_share_def Let_def)

text \<open>
  C23: a NAT type other than \<open>NAT_ERROR\<close> comes from the first two servers that were resolved, both of
  which answered at once, from a list of at most ten servers, and on a socket that was open
  and not bound: no other pair is ever asked with success, and with more than ten servers none is.
\<close>

theorem nat_type_only_from_first_pair:
  assumes "nat_parallel_req lib dns junk order rnd env client stuns = Inr (t, client')"
    and "t \<noteq> NAT_ERROR"
  shows "0 < length stuns \<and> length stuns \<le> 10 \<and> us_open client \<and> \<not> us_bound client \<and>
    (\<exists>q a b. run_threads lib dns junk stuns order (snd (prot_array_create 52)) = Inr q \<and>
       take 2 (elements (obj q)) = [a, b] \<and>
       nat_get_type lib (env 0 a b) client (of_nat (1024 + rnd 0 mod 63000)) = Inr (0, client', Some t))"
proof -
  obtain q0 q n where q0: "run_threads lib dns junk stuns order (snd (prot_array_create 52)) = Inr q0"
    and n: "prot_array_len q0 = Inr (n, q)" "\<not> n < 2"
    and l: "nat_loop lib rnd env (elements (obj q)) 0 0 1 client = Inr (t, client')"
    using assms by (auto simp: nat_parallel_req_def bind_fault_Inr_iff split: if_splits)
  have q: "obj q = obj q0" and len: "n = length (elements (obj q0))"
    using n(1) by (auto simp: prot_array_len_def with_mutex_def mutex_lock_def mutex_unlock_def split: if_splits)
  obtain a b rest where e: "elements (obj q0) = a # b # rest"
    using n(2) len by (cases "elements (obj q0)"; cases "tl (elements (obj q0))") auto
  have first: "us_open client" "\<not> us_bound client"
    "nat_get_type lib (env 0 a b) client (of_nat (1024 + rnd 0 mod 63000)) = Inr (0, client', Some t)"
    using nat_loop_first [OF l assms(2)] by (simp_all add: q e)
  have "length stuns \<le> 10"
  proof (rule ccontr)
    assume "\<not> length stuns \<le> 10"
    then show False using resolution_no_share [of stuns] q0 e
      by (auto simp: prot_array_create_def dyn_array_create_def)
  qed
  moreover have "0 < length stuns"
    using threads_need_names q0 e
    by (cases stuns) (force simp: prot_array_create_def dyn_array_create_def)+
  ultimately show ?thesis using first q0 e by fastforce
qed

lemma nat_get_type_two_answers:
  assumes "us_open client" "\<not> us_bound client"
    and "io_sent io0 (stun_request (io_id io0))" "0 < io_wait io0"
    and "io_recv io0 (stun_request (io_id io0)) = Some d0" "stun_answer d0 = Inr (Some (na4 (inet_ntop4 ip0) p0))"
    and "io_sent io1 (stun_request (io_id io1))" "0 < io_wait io1"
    and "io_recv io1 (stun_request (io_id io1)) = Some d1" "stun_answer d1 = Inr (Some (na4 (inet_ntop4 ip1) p1))"
  shows "\<exists>client'. nat_get_type lib (io0, io1) client port = Inr (0, client', Some
      (if p0 \<noteq> p1 then NAT_SYMMETRIC else if p0 = port then NAT_STATIC else NAT_DYNAMIC)) \<and>
    us_addr client' = na4 (inet_ntop4 ip1) p1"
proof -
  have p: "ln_gport (na4 (inet_ntop4 ip) p) = p" for ip p
    using na4_fields [of "inet_ntop4 ip" p] length_inet_ntop4 [of ip] inet_ntop4_nonzero [of ip]
    by (simp add: ln_gport_def)
  show ?thesis
    using nat_get_type_eq [of lib "(io0, io1)" client port] assms
    by (auto simp: nat_queries_def natp_request_stun_def Let_def p)
qed

text \<open>
  With two servers that answer at once, the type is symmetric when they saw different ports,
  static when both saw the port the socket is bound to, and dynamic otherwise.
\<close>

theorem nat_type_found:
  assumes "us_open client" "\<not> us_bound client"
    and "io_sent io0 (stun_request (io_id io0))" "0 < io_wait io0"
    and "io_recv io0 (stun_request (io_id io0)) = Some d0" "stun_answer d0 = Inr (Some (na4 (inet_ntop4 ip0) p0))"
    and "io_sent io1 (stun_request (io_id io1))" "0 < io_wait io1"
    and "io_recv io1 (stun_request (io_id io1)) = Some d1" "stun_answer d1 = Inr (Some (na4 (inet_ntop4 ip1) p1))"
  shows "\<exists>client'. nat_get_type lib (io0, io1) client port = Inr (0, client', Some
      (if p0 \<noteq> p1 then NAT_SYMMETRIC else if p0 = port then NAT_STATIC else NAT_DYNAMIC)) \<and>
    us_addr client' = na4 (inet_ntop4 ip1) p1"
  using assms by (rule nat_get_type_two_answers)

definition demo_io :: "bytes \<Rightarrow> u16 \<Rightarrow> stun_io" where
  "demo_io ip port = \<lparr>io_id = zeros 12, io_sent = (\<lambda>_. True), io_wait = 1,
     io_recv = (\<lambda>req. Some (stun_reply (drop 8 req) [(ATTR_XOR_MAPPED_ADDRESS, xor_mapped_value ip port)]))\<rparr>"

definition demo_socket :: ln_socket where
  "demo_socket = \<lparr>us_fd = \<lparr>rfd = 3, fd_addr = zero_sockaddr, fd_addr_len = 0\<rparr>, us_addr = zeros 52,
     us_open = True, us_bound = False\<rparr>"

lemma demo_io_answer:
  assumes "length ip = 4"
  shows "\<exists>d. io_recv (demo_io ip port) (stun_request (zeros 12)) = Some d \<and>
    stun_answer d = Inr (Some (na4 (inet_ntop4 ip) port))"
proof -
  have "drop 8 (stun_request (zeros 12)) = zeros 12"
    by (simp add: stun_request_def stun_header_def)
  moreover have "stun_answer (stun_reply (zeros 12) ([] @ (ATTR_XOR_MAPPED_ADDRESS, xor_mapped_value ip port) # [])) =
      Inr (Some (na4 (inet_ntop4 ip) port))"
    by (rule stun_reply_read) (simp_all add: assms address_attr_def length_stun_attr xor_mapped_value_def)
  ultimately show ?thesis by (simp add: demo_io_def)
qed

theorem nat_type_found_witness:
  "\<exists>client'. nat_get_type lib (demo_io [198, 51, 100, 7] 4242, demo_io [198, 51, 100, 7] 4243) demo_socket 4242 =
     Inr (0, client', Some NAT_SYMMETRIC)"
proof -
  obtain d0 d1 where d:
    "io_recv (demo_io [198, 51, 100, 7] 4242) (stun_request (zeros 12)) = Some d0"
    "stun_answer d0 = Inr (Some (na4 (inet_ntop4 [198, 51, 100, 7]) 4242))"
    "io_recv (demo_io [198, 51, 100, 7] 4243) (stun_request (zeros 12)) = Some d1"
    "stun_answer d1 = Inr (Some (na4 (inet_ntop4 [198, 51, 100, 7]) 4243))"
    using demo_io_answer [of "[198, 51, 100, 7]" 4242] demo_io_answer [of "[198, 51, 100, 7]" 4243] by auto
  have f: "io_id (demo_io ip p) = zeros 12" "io_sent (demo_io ip p) x" "0 < io_wait (demo_io ip p)" for ip p x
    by (simp_all add: demo_io_def)
  have s: "us_open demo_socket" "\<not> us_bound demo_socket" by (simp_all add: demo_socket_def)
  show ?thesis
    using nat_type_found [OF s, of "demo_io [198, 51, 100, 7] 4242" d0 "[198, 51, 100, 7]" 4242
        "demo_io [198, 51, 100, 7] 4243" d1 "[198, 51, 100, 7]" 4243 lib 4242] f d by auto
qed

definition demo_stuns :: "stun_addr list" where
  "demo_stuns = [\<lparr>uniaddr = inet_ntop4 [198, 51, 100, 1], st_port = 3478\<rparr>, \<lparr>uniaddr = inet_ntop4 [198, 51, 100, 2], st_port = 3478\<rparr>]"

lemma demo_threads:
  "\<exists>q. run_threads demo_lib6 (\<lambda>_. None) (zeros 52) demo_stuns [1, 0] (snd (prot_array_create 52)) = Inr q \<and>
     \<not> mtx q \<and> elements (obj q) = [na4 (inet_ntop4 [198, 51, 100, 2]) 3478, na4 (inet_ntop4 [198, 51, 100, 1]) 3478]"
proof -
  have u: "ln_uni demo_lib6 (\<lambda>_. None) (inet_ntop4 ip) port junk = Inr (0, na4 (inet_ntop4 ip) port)"
    if "length ip = 4" for ip port junk
    using inet_pton4_ntop4 [OF that] ln_ipv4_ntop4 [of ip port] by (auto simp: ln_uni_def ln_ipv4_def na4_def split: if_splits)
  have t: "thread_share demo_stuns 0 = [demo_stuns ! 0]" "thread_share demo_stuns 1 = [demo_stuns ! 1]"
    by (simp_all add: thread_share_def demo_stuns_def paral_res_n_def STUN_PARALLEL_RESOLUTION_LIMIT_def)
  have f: "uniaddr (demo_stuns ! 0) = inet_ntop4 [198, 51, 100, 1]" "st_port (demo_stuns ! 0) = 3478"
    "uniaddr (demo_stuns ! 1) = inet_ntop4 [198, 51, 100, 2]" "st_port (demo_stuns ! 1) = 3478"
    by (simp_all add: demo_stuns_def)
  show ?thesis
    by (simp add: t f u prot_array_push_def with_mutex_def mutex_lock_def mutex_unlock_def
        prot_array_create_def dyn_array_create_def dyn_array_push_def da_grow_def size_pred_def
        del: inet_ntop4.simps One_nat_def)
qed

theorem nat_type_only_from_first_pair_witness:
  "us_open demo_socket \<and> (\<exists>client'. nat_parallel_req demo_lib6 (\<lambda>_. None) (zeros 52) [1, 0] (\<lambda>_. 0)
     (\<lambda>_ _ _. (demo_io [198, 51, 100, 7] 4242, demo_io [198, 51, 100, 7] 4242)) demo_socket demo_stuns =
       Inr (NAT_DYNAMIC, client'))"
proof -
  let ?env = "\<lambda>(_ :: nat) (_ :: naddr_t) (_ :: naddr_t). (demo_io [198, 51, 100, 7] 4242, demo_io [198, 51, 100, 7] 4242)"
  obtain q where q: "run_threads demo_lib6 (\<lambda>_. None) (zeros 52) demo_stuns [1, 0] (snd (prot_array_create 52)) = Inr q"
    "\<not> mtx q" "length (elements (obj q)) = 2"
    using demo_threads by (metis length_Cons list.size(3) One_nat_def Suc_1)
  obtain d where d: "io_recv (demo_io [198, 51, 100, 7] 4242) (stun_request (zeros 12)) = Some d"
    "stun_answer d = Inr (Some (na4 (inet_ntop4 [198, 51, 100, 7]) 4242))"
    using demo_io_answer [of "[198, 51, 100, 7]" 4242] by auto
  have f: "io_id (demo_io ip p) = zeros 12" "io_sent (demo_io ip p) x" "0 < io_wait (demo_io ip p)" for ip p x
    by (simp_all add: demo_io_def)
  have "us_open demo_socket" "\<not> us_bound demo_socket" by (simp_all add: demo_socket_def)
  then obtain c where "nat_get_type demo_lib6 (?env 0 a b) demo_socket 1024 = Inr (0, c, Some NAT_DYNAMIC)" for a b
    using nat_get_type_two_answers [of demo_socket "demo_io [198, 51, 100, 7] 4242" d "[198, 51, 100, 7]" 4242
        "demo_io [198, 51, 100, 7] 4242" d "[198, 51, 100, 7]" 4242 demo_lib6 1024] f d by auto
  then have "nat_parallel_req demo_lib6 (\<lambda>_. None) (zeros 52) [1, 0] (\<lambda>_. 0) ?env demo_socket demo_stuns = Inr (NAT_DYNAMIC, c)"
    using q by (simp add: nat_parallel_req_def prot_array_len_def with_mutex_def mutex_lock_def mutex_unlock_def
        nat_loop.simps Let_def length_greater_0_conv [symmetric]
        del: run_threads.simps length_greater_0_conv)
  with nat_type_only_from_first_pair [OF this] show ?thesis by auto
qed

end
