(* ===== verification/Uhttp_Parser.thy ===== *)
theory Uhttp_Parser
  imports Lownet
begin

text \<open>
  \<open>uhttp/src/parser.c\<close>: HTTP requests, responses and query strings. A buffer is its bytes, a C
  string the bytes before its \<open>NUL\<close>; a header is the two fields of 256 bytes, the array of
  headers its used entries, \<open>None\<close> for \<open>NULL\<close>. Memory is assumed
  to be available. Where a function returns an error its output object is not read by anyone,
  and the model returns \<open>None\<close> for it.

  The lemmas: where the search for a sequence stops, what the parser makes of a well-formed
  request (every header but the last one), that it rejects a request without headers, and
  that a query string that was encoded is decoded.
\<close>

datatype uhttp_method = HTTP_GET | HTTP_POST | HTTP_METHOD_UNKNOWN

datatype uhttp_content_type =
  HTTP_TEXT_PLAIN | HTTP_OCTET_STREAM | HTTP_APPLICATION_JSON | HTTP_CONTENT_UNKNOWN

record uhttp_header =
  h_key :: bytes
  h_value :: bytes

record uhttp_request =
  rq_method :: uhttp_method
  rq_path :: "bytes option"
  rq_headers :: "uhttp_header list option"
  rq_header_count :: nat
  rq_body :: "bytes option"
  rq_body_len :: nat
  rq_content_length :: nat

record uhttp_response =
  rs_status_code :: int
  rs_status_text :: "bytes option"
  rs_headers :: "uhttp_header list option"
  rs_header_count :: nat
  rs_body :: "bytes option"
  rs_body_len :: nat
  rs_content_type :: uhttp_content_type

definition MAX_HEADERS :: nat where "MAX_HEADERS = 20"

definition MAX_HEADER_SIZE :: nat where "MAX_HEADER_SIZE = 256"

definition MAX_PATH_SIZE :: nat where "MAX_PATH_SIZE = 512"

definition UHTTP_MAX_HEADER_SIZE :: nat where "UHTTP_MAX_HEADER_SIZE = 8192"

definition UHTTP_MAX_BODY_SIZE :: nat where "UHTTP_MAX_BODY_SIZE = 10 * 1024 * 1024"

definition UHTTP_PARSE_OK :: int where "UHTTP_PARSE_OK = 0"

definition UHTTP_PARSE_ERROR :: int where "UHTTP_PARSE_ERROR = -1"

definition UHTTP_PARSE_INCOMPLETE :: int where "UHTTP_PARSE_INCOMPLETE = 1"

definition crlf :: bytes where "crlf = [13, 10]"

subsection \<open>Searching\<close>

text \<open>The loop of \<open>find_sequence\<close> over the suffixes of the buffer; \<open>i\<close> is the offset.\<close>

fun find_loop :: "bytes \<Rightarrow> bytes \<Rightarrow> nat \<Rightarrow> nat option" where
  "find_loop sq [] i = (if sq = [] then Some i else None)"
| "find_loop sq (b # buf) i =
     (if length (b # buf) < length sq then None
      else if take (length sq) (b # buf) = sq then Some i
      else find_loop sq buf (Suc i))"

definition find_sequence :: "bytes \<Rightarrow> bytes \<Rightarrow> nat option" where
  "find_sequence buf sq = (if length buf < length sq then None else find_loop sq buf 0)"

text \<open>The loops that look for one character.\<close>

fun find_char :: "u8 \<Rightarrow> bytes \<Rightarrow> nat option" where
  "find_char c [] = None"
| "find_char c (b # bs) = (if b = c then Some 0 else map_option Suc (find_char c bs))"

subsection \<open>Headers\<close>

definition isspace :: "u8 \<Rightarrow> bool" where
  "isspace b \<longleftrightarrow> 9 \<le> b \<and> b \<le> 13 \<or> b = 32"

definition isdigit :: "u8 \<Rightarrow> bool" where
  "isdigit b \<longleftrightarrow> 48 \<le> b \<and> b \<le> 57"

definition tolower :: "u8 \<Rightarrow> u8" where
  "tolower b = (if 65 \<le> b \<and> b \<le> 90 then b + 32 else b)"

fun content_length_loop :: "bytes \<Rightarrow> nat \<Rightarrow> int \<times> nat" where
  "content_length_loop [] out = (0, out)"
| "content_length_loop (b # bs) out =
     (if \<not> isdigit b then (-1, out)
      else
        let out = out * 10 + (unat b - 48) in
        if UHTTP_MAX_BODY_SIZE < out then (-1, out) else content_length_loop bs out)"

text \<open>\<open>s\<close> are the \<open>len\<close> bytes at \<open>str\<close>.\<close>

definition parse_content_length :: "bytes \<Rightarrow> nat \<Rightarrow> int \<times> nat" where
  "parse_content_length s out =
     (if s = [] then (-1, out) else content_length_loop (dropWhile isspace s) 0)"

definition header_field :: "bytes \<Rightarrow> bytes" where
  "header_field bs = bs @ zeros (MAX_HEADER_SIZE - length bs)"

definition is_content_length :: "bytes \<Rightarrow> bool" where
  "is_content_length key \<longleftrightarrow>
     length key = 14 \<and> map tolower key = map tolower (str ''Content-Length'')"

text \<open>
  One header line, without its line end; the result is the new list of headers and content
  length, or \<open>None\<close> for the error.
\<close>

definition parse_header_line ::
  "bytes \<Rightarrow> uhttp_header list \<Rightarrow> nat \<Rightarrow> (uhttp_header list \<times> nat) option" where
  "parse_header_line line headers content_length =
     (case find_char 58 line of
        None \<Rightarrow> Some (headers, content_length)
      | Some colon \<Rightarrow>
          let key = take colon line;
              val = dropWhile (\<lambda>b. b = 32) (drop (colon + 1) line) in
          if \<not> (length headers < MAX_HEADERS \<and> length key < MAX_HEADER_SIZE \<and> length val < MAX_HEADER_SIZE)
          then Some (headers, content_length)
          else
            let h = \<lparr>h_key = header_field key, h_value = header_field val\<rparr> in
            if is_content_length key then
              (case parse_content_length val content_length of
                 (r, cl) \<Rightarrow> if r \<noteq> 0 then None else Some (headers @ [h], cl))
            else Some (headers @ [h], content_length))"

lemma find_loop_bound: "find_loop sq buf i = Some j \<Longrightarrow> i \<le> j \<and> j + length sq \<le> i + length buf"
  by (induction sq buf i rule: find_loop.induct) (auto split: if_splits)

lemma find_sequence_bound: "find_sequence buf sq = Some j \<Longrightarrow> j + length sq \<le> length buf"
  by (auto simp: find_sequence_def split: if_splits dest: find_loop_bound)

function parse_header_lines ::
  "bytes \<Rightarrow> uhttp_header list \<Rightarrow> nat \<Rightarrow> (uhttp_header list \<times> nat) option" where
  "parse_header_lines rest headers content_length =
     (case find_sequence rest crlf of
        None \<Rightarrow> Some (headers, content_length)
      | Some line_end \<Rightarrow>
          (case parse_header_line (take line_end rest) headers content_length of
             None \<Rightarrow> None
           | Some (headers, content_length) \<Rightarrow>
               parse_header_lines (drop (line_end + 2) rest) headers content_length))"
  by auto
termination
  by (relation "measure (\<lambda>(rest, _, _). length rest)") (auto simp: crlf_def dest: find_sequence_bound)

declare parse_header_lines.simps [simp del]

definition parse_headers :: "bytes \<Rightarrow> (uhttp_header list \<times> nat) option" where
  "parse_headers hs = parse_header_lines hs [] 0"

subsection \<open>Requests\<close>

definition parse_method :: "bytes \<Rightarrow> uhttp_method" where
  "parse_method m =
     (if length m = 3 \<and> m = str ''GET'' then HTTP_GET
      else if length m = 4 \<and> m = str ''POST'' then HTTP_POST
      else HTTP_METHOD_UNKNOWN)"

text \<open>The method and the path of the request line.\<close>

definition parse_request_line :: "bytes \<Rightarrow> (uhttp_method \<times> bytes) option" where
  "parse_request_line line =
     (case find_char 32 line of
        None \<Rightarrow> None
      | Some space1 \<Rightarrow>
          let method = parse_method (take space1 line); rest = drop (space1 + 1) line in
          (case find_char 32 rest of
             None \<Rightarrow> None
           | Some space2 \<Rightarrow>
               if MAX_PATH_SIZE \<le> space2 then None else Some (method, take space2 rest)))"

text \<open>The body, from the bytes behind the headers.\<close>

definition parse_request_body ::
  "uhttp_method \<Rightarrow> bytes \<Rightarrow> uhttp_header list \<Rightarrow> nat \<Rightarrow> bytes \<Rightarrow> int \<times> uhttp_request option" where
  "parse_request_body method path headers content_length body_start =
     (let rq = \<lparr>rq_method = method, rq_path = Some path, rq_headers = Some headers,
                rq_header_count = length headers,
                rq_body = None, rq_body_len = 0, rq_content_length = content_length\<rparr> in
      if method = HTTP_POST \<and> 0 < content_length then
        if length body_start < content_length then (UHTTP_PARSE_INCOMPLETE, None)
        else if UHTTP_MAX_BODY_SIZE < content_length then (UHTTP_PARSE_ERROR, None)
        else (UHTTP_PARSE_OK, Some (rq\<lparr>rq_body := Some (take content_length body_start),
                                     rq_body_len := content_length\<rparr>))
      else (UHTTP_PARSE_OK, Some rq))"

definition uhttp_parse_request :: "bytes option \<Rightarrow> bool \<Rightarrow> int \<times> uhttp_request option" where
  "uhttp_parse_request data_in parsed =
     (case data_in of
        None \<Rightarrow> (UHTTP_PARSE_ERROR, None)
      | Some buf \<Rightarrow>
          if \<not> parsed \<or> length buf = 0 then (UHTTP_PARSE_ERROR, None)
          else
            (case find_sequence buf (crlf @ crlf) of
               None \<Rightarrow> (if UHTTP_MAX_HEADER_SIZE \<le> length buf then UHTTP_PARSE_ERROR
                        else UHTTP_PARSE_INCOMPLETE, None)
             | Some header_len \<Rightarrow>
                 (case find_sequence (take header_len buf) crlf of
                    None \<Rightarrow> (UHTTP_PARSE_ERROR, None)
                  | Some line_end \<Rightarrow>
                      (case parse_request_line (take line_end buf) of
                         None \<Rightarrow> (UHTTP_PARSE_ERROR, None)
                       | Some (method, path) \<Rightarrow>
                           (case parse_headers (drop (line_end + 2) (take header_len buf)) of
                              None \<Rightarrow> (UHTTP_PARSE_ERROR, None)
                            | Some (headers, content_length) \<Rightarrow>
                                parse_request_body method path headers content_length
                                  (drop (header_len + 4) buf))))))"

subsection \<open>Responses\<close>

fun atoi_digits :: "bytes \<Rightarrow> int \<Rightarrow> int" where
  "atoi_digits [] n = n"
| "atoi_digits (b # bs) n = (if isdigit b then atoi_digits bs (n * 10 + (int (unat b) - 48)) else n)"

definition atoi :: "bytes \<Rightarrow> int" where
  "atoi s =
     (case dropWhile isspace s of
        [] \<Rightarrow> 0
      | b # bs \<Rightarrow>
          if b = 45 then - atoi_digits bs 0
          else if b = 43 then atoi_digits bs 0
          else atoi_digits (b # bs) 0)"

text \<open>The status code and the status text of the first line.\<close>

definition parse_status_line :: "bytes \<Rightarrow> (int \<times> bytes option) option" where
  "parse_status_line line =
     (case find_char 32 line of
        None \<Rightarrow> None
      | Some sp \<Rightarrow>
          let rest = drop (sp + 1) line in
          (case find_char 32 rest of
             None \<Rightarrow> None
           | Some code_len \<Rightarrow>
               if 8 \<le> code_len then None
               else
                 let text_start = drop (code_len + 1) rest in
                 Some (atoi (cstr (take code_len rest)), if text_start = [] then None else Some text_start)))"

definition parse_response_body ::
  "int \<Rightarrow> bytes option \<Rightarrow> uhttp_header list \<Rightarrow> nat \<Rightarrow> bytes \<Rightarrow> int \<times> uhttp_response option" where
  "parse_response_body code text headers content_length body_start =
     (let rs = \<lparr>rs_status_code = code, rs_status_text = text, rs_headers = Some headers,
                rs_header_count = length headers,
                rs_body = None, rs_body_len = 0, rs_content_type = HTTP_OCTET_STREAM\<rparr> in
      if 0 < content_length then
        if length body_start < content_length then (UHTTP_PARSE_INCOMPLETE, None)
        else if UHTTP_MAX_BODY_SIZE < content_length then (UHTTP_PARSE_ERROR, None)
        else (UHTTP_PARSE_OK, Some (rs\<lparr>rs_body := Some (take content_length body_start),
                                     rs_body_len := content_length\<rparr>))
      else (UHTTP_PARSE_OK, Some rs))"

definition uhttp_parse_response :: "bytes option \<Rightarrow> bool \<Rightarrow> int \<times> uhttp_response option" where
  "uhttp_parse_response data_in parsed =
     (case data_in of
        None \<Rightarrow> (UHTTP_PARSE_ERROR, None)
      | Some buf \<Rightarrow>
          if \<not> parsed \<or> length buf = 0 then (UHTTP_PARSE_ERROR, None)
          else
            (case find_sequence buf (crlf @ crlf) of
               None \<Rightarrow> (if UHTTP_MAX_HEADER_SIZE \<le> length buf then UHTTP_PARSE_ERROR
                        else UHTTP_PARSE_INCOMPLETE, None)
             | Some header_len \<Rightarrow>
                 (case find_sequence (take header_len buf) crlf of
                    None \<Rightarrow> (UHTTP_PARSE_ERROR, None)
                  | Some line_end \<Rightarrow>
                      (case parse_status_line (take line_end buf) of
                         None \<Rightarrow> (UHTTP_PARSE_ERROR, None)
                       | Some (code, text) \<Rightarrow>
                           (case parse_headers (drop (line_end + 2) (take header_len buf)) of
                              None \<Rightarrow> (UHTTP_PARSE_ERROR, None)
                            | Some (headers, content_length) \<Rightarrow>
                                parse_response_body code text headers content_length
                                  (drop (header_len + 4) buf))))))"

subsection \<open>Query strings\<close>

definition isxdigit :: "u8 \<Rightarrow> bool" where
  "isxdigit b \<longleftrightarrow> isdigit b \<or> 65 \<le> b \<and> b \<le> 70 \<or> 97 \<le> b \<and> b \<le> 102"

definition hex_value :: "u8 \<Rightarrow> u8" where
  "hex_value c = (let h = tolower c in if 97 \<le> h then h - 97 + 10 else h - 48)"

text \<open>Decoding \<open>src\<close> into at most \<open>room\<close> bytes.\<close>

fun decode_value :: "bytes \<Rightarrow> nat \<Rightarrow> bytes" where
  "decode_value src 0 = []"
| "decode_value [] room = []"
| "decode_value (c # src) (Suc room) =
     (if c = 37 \<and> 2 \<le> length src \<and> isxdigit (src ! 0) \<and> isxdigit (src ! 1)
      then (push_bit 4 (hex_value (src ! 0)) OR hex_value (src ! 1)) # decode_value (drop 2 src) room
      else (if c = 43 then 32 else c) # decode_value src room)"

text \<open>The loop over the positions of the query; \<open>None\<close> is the result \<open>-1\<close>.\<close>

function query_loop :: "bytes \<Rightarrow> bytes \<Rightarrow> nat \<Rightarrow> nat \<Rightarrow> bytes option" where
  "query_loop query name max_out_size p =
     (if length query \<le> p then None
      else if 0 < p \<and> query ! (p - 1) \<noteq> 38 then query_loop query name max_out_size (p + 1)
      else
        let rest = drop p query; name_len = length name in
        if take name_len rest = name \<and> name_len < length rest \<and> rest ! name_len = 61 then
          let val_start = drop (name_len + 1) rest;
              encoded = takeWhile (\<lambda>b. b \<noteq> 38) val_start in
          Some (decode_value encoded (max_out_size - 1))
        else
          (case find_char 38 rest of
             None \<Rightarrow> None
           | Some next_amp \<Rightarrow> query_loop query name max_out_size (p + next_amp + 1)))"
  by auto
termination by (relation "measure (\<lambda>(query, _, _, p). length query - p)") auto

declare query_loop.simps [simp del]

text \<open>\<open>out\<close> tells whether the output pointer is given.\<close>

definition uhttp_get_query_param ::
  "bytes option \<Rightarrow> bytes option \<Rightarrow> bool \<Rightarrow> nat \<Rightarrow> int \<times> bytes option" where
  "uhttp_get_query_param query name out max_out_size =
     (case (query, name) of
        (Some q, Some n) \<Rightarrow>
          if \<not> out \<or> max_out_size = 0 \<or> n = [] then (-3, None)
          else
            let q = (if q \<noteq> [] \<and> hd q = 63 then tl q else q) in
            (case query_loop q n max_out_size 0 of
               None \<Rightarrow> (-1, None)
             | Some v \<Rightarrow> (0, Some v))
      | _ \<Rightarrow> (-3, None))"

subsection \<open>Where a search stops\<close>

lemma find_loop_shift: "find_loop sq buf i = map_option (\<lambda>j. i + j) (find_loop sq buf 0)"
proof (induction buf arbitrary: i)
  case (Cons b buf)
  show ?case using Cons.IH [of "Suc i"] Cons.IH [of "Suc 0"]
    by (auto simp: option.map_comp o_def)
qed simp

lemma find_loop_short: "length buf < length sq \<Longrightarrow> find_loop sq buf i = None"
  by (cases buf) auto

lemma find_sequence_Cons:
  "sq \<noteq> [] \<Longrightarrow> find_sequence (b # buf) sq =
     (if take (length sq) (b # buf) = sq then Some 0 else map_option Suc (find_sequence buf sq))"
  using find_loop_shift [of sq buf "Suc 0"] find_loop_short [of buf sq]
  by (auto simp: find_sequence_def option.map_comp o_def)

lemma find_sequence_Nil: "sq \<noteq> [] \<Longrightarrow> find_sequence [] sq = None"
  by (simp add: find_sequence_def)

lemma find_sequence_append:
  "\<lbrakk>sq \<noteq> []; find_sequence buf sq = Some i\<rbrakk> \<Longrightarrow> find_sequence (buf @ ys) sq = Some i"
proof (induction buf arbitrary: i)
  case (Cons b buf)
  show ?case
  proof (cases "take (length sq) (b # buf) = sq")
    case True
    then have "length sq \<le> length (b # buf)" by (metis nat_le_linear take_all length_take min_def)
    then have "take (length sq) (b # (buf @ ys)) = take (length sq) (b # buf)"
      by (metis append_Cons append_take_drop_id diff_is_0_eq' take0 take_append append_Nil2)
    then show ?thesis using True Cons.prems by (simp add: find_sequence_Cons)
  next
    case False
    then obtain j where j: "find_sequence buf sq = Some j" "i = Suc j"
      using Cons.prems by (auto simp: find_sequence_Cons)
    have "take (length sq) (b # (buf @ ys)) \<noteq> sq"
    proof
      assume a: "take (length sq) (b # (buf @ ys)) = sq"
      have "length sq \<le> length buf" using find_sequence_bound [OF j(1)] by simp
      then have "take (length sq) (b # (buf @ ys)) = take (length sq) (b # buf)"
        by (cases sq) simp_all
      then show False using a False by simp
    qed
    then show ?thesis using Cons.IH [OF Cons.prems(1) j(1)] j(2) Cons.prems(1) by (simp add: find_sequence_Cons)
  qed
qed (simp add: find_sequence_Nil)

lemma crlf_simps [simp]: "length crlf = 2" "crlf \<noteq> []"
  by (simp_all add: crlf_def)

text \<open>A line has no carriage return.\<close>

lemma find_crlf_skip: "13 \<notin> set l \<Longrightarrow> find_sequence (l @ rest) (13 # sq) = map_option (\<lambda>j. length l + j) (find_sequence rest (13 # sq))"
proof (induction l)
  case (Cons b l)
  then show ?case by (simp add: find_sequence_Cons option.map_comp o_def)
qed (cases "find_sequence rest (13 # sq)"; simp)

lemma find_crlf_line: "13 \<notin> set l \<Longrightarrow> find_sequence (l @ crlf @ rest) crlf = Some (length l)"
  by (simp add: crlf_def find_crlf_skip find_sequence_Cons)

lemma find_crlf_none: "13 \<notin> set l \<Longrightarrow> find_sequence l crlf = None"
  using find_crlf_skip [of l "[]" "[10]"] by (simp add: crlf_def find_sequence_Nil)

definition http_lines :: "bytes list \<Rightarrow> bytes" where
  "http_lines ls = concat (map (\<lambda>l. l @ crlf) ls)"

definition http_message :: "bytes list \<Rightarrow> bytes \<Rightarrow> bytes" where
  "http_message ls body = http_lines ls @ crlf @ body"

definition http_line :: "bytes \<Rightarrow> bool" where
  "http_line l \<longleftrightarrow> l \<noteq> [] \<and> 13 \<notin> set l"

lemma http_lines_simps [simp]: "http_lines [] = []" "http_lines (l # ls) = l @ crlf @ http_lines ls"
  "http_lines (ls @ ms) = http_lines ls @ http_lines ms"
  by (simp_all add: http_lines_def)

lemma http_lines_head:
  assumes "http_line l" and "\<forall>m \<in> set ls. http_line m"
  shows "find_sequence (l @ crlf @ http_lines ls @ crlf @ body) (crlf @ crlf) = Some (length (l @ crlf @ http_lines ls) - 2)"
  using assms
proof (induction ls arbitrary: l)
  case Nil
  then show ?case by (simp add: crlf_def http_line_def find_crlf_skip find_sequence_Cons)
next
  case (Cons m ls)
  obtain c ms where m: "m = c # ms" "c \<noteq> 13"
    using Cons.prems(2) by (cases m) (auto simp: http_line_def)
  have l: "13 \<notin> set l" using Cons.prems(1) by (simp add: http_line_def)
  have "find_sequence (l @ crlf @ http_lines (m # ls) @ crlf @ body) (crlf @ crlf) =
      map_option (\<lambda>j. length l + 2 + j) (find_sequence (m @ crlf @ http_lines ls @ crlf @ body) (crlf @ crlf))"
    using l m by (simp add: crlf_def find_crlf_skip find_sequence_Cons option.map_comp o_def add.assoc)
  also have "\<dots> = Some (length l + 2 + (length (m @ crlf @ http_lines ls) - 2))"
    using Cons.IH [of m] Cons.prems(2) by simp
  finally show ?case by simp
qed

subsection \<open>What the parsers make of a message\<close>

text \<open>The header lines one after the other.\<close>

fun parse_all :: "bytes list \<Rightarrow> uhttp_header list \<Rightarrow> nat \<Rightarrow> (uhttp_header list \<times> nat) option" where
  "parse_all [] headers content_length = Some (headers, content_length)"
| "parse_all (l # ls) headers content_length =
     (case parse_header_line l headers content_length of
        None \<Rightarrow> None
      | Some (headers, content_length) \<Rightarrow> parse_all ls headers content_length)"

lemma parse_header_lines_all:
  assumes "\<forall>l \<in> set ls. http_line l" and "13 \<notin> set l'"
  shows "parse_header_lines (http_lines ls @ l') headers cl = parse_all ls headers cl"
  using assms(1)
proof (induction ls arbitrary: headers cl)
  case Nil
  then show ?case using find_crlf_none [OF assms(2)] by (simp add: parse_header_lines.simps)
next
  case (Cons l ls)
  have "find_sequence (l @ crlf @ http_lines ls @ l') crlf = Some (length l)"
    using Cons.prems by (intro find_crlf_line) (simp add: http_line_def)
  moreover have "drop (length l + 2) (l @ crlf @ http_lines ls @ l') = http_lines ls @ l'"
    by (simp add: crlf_def)
  ultimately show ?case
    using Cons.IH Cons.prems
    by (simp add: parse_header_lines.simps [of "l @ crlf @ http_lines ls @ l'"] split: option.splits)
qed

text \<open>The pieces of a message with the first line \<open>f\<close>, the lines \<open>hs\<close> and a last line \<open>l\<close>.\<close>

lemma http_message_pieces:
  fixes f l body :: bytes and hs :: "bytes list"
  assumes "http_line f" and "\<forall>m \<in> set (hs @ [l]). http_line m"
  defines "buf \<equiv> http_message (f # hs @ [l]) body"
  defines "n \<equiv> length (f @ crlf @ http_lines hs @ l)"
  shows "find_sequence buf (crlf @ crlf) = Some n"
    and "find_sequence (take n buf) crlf = Some (length f)"
    and "take (length f) buf = f"
    and "drop (length f + 2) (take n buf) = http_lines hs @ l"
    and "drop (n + 4) buf = body"
proof -
  have buf: "buf = f @ crlf @ http_lines (hs @ [l]) @ crlf @ body"
    by (simp add: buf_def http_message_def)
  then have buf': "buf = (f @ crlf @ http_lines hs @ l) @ crlf @ crlf @ body" by simp
  show "find_sequence buf (crlf @ crlf) = Some n"
    using http_lines_head [OF assms(1,2), of body] buf by (simp add: n_def)
  have t: "take n buf = f @ crlf @ http_lines hs @ l"
    unfolding buf' n_def by (rule append_eq_conv_conj [THEN iffD1, THEN conjunct1, symmetric]) simp
  show "find_sequence (take n buf) crlf = Some (length f)"
    using find_crlf_line [of f] assms(1) by (simp add: t http_line_def)
  show "take (length f) buf = f" by (simp add: buf)
  show "drop (length f + 2) (take n buf) = http_lines hs @ l" by (simp add: t crlf_def)
  have "length (f @ crlf @ http_lines hs @ l @ crlf @ crlf) = n + 4" by (simp add: n_def)
  then show "drop (n + 4) buf = body" unfolding buf'
    by (metis append.assoc append_eq_conv_conj)
qed

lemma http_message_nonempty: "http_message ls body \<noteq> []"
  by (simp add: http_message_def)

text \<open>The meaning of a request: all header lines but the last one.\<close>

definition request_of :: "bytes \<Rightarrow> bytes list \<Rightarrow> bytes \<Rightarrow> int \<times> uhttp_request option" where
  "request_of f hs body =
     (case parse_request_line f of
        None \<Rightarrow> (UHTTP_PARSE_ERROR, None)
      | Some (method, path) \<Rightarrow>
          (case parse_all hs [] 0 of
             None \<Rightarrow> (UHTTP_PARSE_ERROR, None)
           | Some (headers, cl) \<Rightarrow> parse_request_body method path headers cl body))"

lemma http_message_split:
  assumes "http_line f" and "\<forall>m \<in> set (hs @ [l]). http_line m"
  obtains n where "find_sequence (http_message (f # hs @ [l]) body) (crlf @ crlf) = Some n"
    and "find_sequence (take n (http_message (f # hs @ [l]) body)) crlf = Some (length f)"
    and "take (length f) (http_message (f # hs @ [l]) body) = f"
    and "drop (length f + 2) (take n (http_message (f # hs @ [l]) body)) = http_lines hs @ l"
    and "drop (n + 4) (http_message (f # hs @ [l]) body) = body"
    and "parse_headers (http_lines hs @ l) = parse_all hs [] 0"
  using http_message_pieces [OF assms] parse_header_lines_all [of hs l] assms(2)
  by (auto simp: parse_headers_def http_line_def)

lemma parse_request_message:
  assumes "http_line f" and "\<forall>m \<in> set (hs @ [l]). http_line m"
  shows "uhttp_parse_request (Some (http_message (f # hs @ [l]) body)) True = request_of f hs body"
proof -
  define buf where "buf = http_message (f # hs @ [l]) body"
  obtain n where "find_sequence buf (crlf @ crlf) = Some n" "find_sequence (take n buf) crlf = Some (length f)"
    "take (length f) buf = f" "drop (length f + 2) (take n buf) = http_lines hs @ l"
    "drop (n + 4) buf = body" "parse_headers (http_lines hs @ l) = parse_all hs [] 0"
    unfolding buf_def by (rule http_message_split [OF assms])
  moreover have "buf \<noteq> []" by (simp add: buf_def http_message_nonempty)
  ultimately have "uhttp_parse_request (Some buf) True = request_of f hs body"
    by (simp add: uhttp_parse_request_def request_of_def split: option.split del: add_2_eq_Suc')
  then show ?thesis by (simp add: buf_def)
qed

definition response_of :: "bytes \<Rightarrow> bytes list \<Rightarrow> bytes \<Rightarrow> int \<times> uhttp_response option" where
  "response_of f hs body =
     (case parse_status_line f of
        None \<Rightarrow> (UHTTP_PARSE_ERROR, None)
      | Some (code, text) \<Rightarrow>
          (case parse_all hs [] 0 of
             None \<Rightarrow> (UHTTP_PARSE_ERROR, None)
           | Some (headers, cl) \<Rightarrow> parse_response_body code text headers cl body))"

lemma parse_response_message:
  assumes "http_line f" and "\<forall>m \<in> set (hs @ [l]). http_line m"
  shows "uhttp_parse_response (Some (http_message (f # hs @ [l]) body)) True = response_of f hs body"
proof -
  define buf where "buf = http_message (f # hs @ [l]) body"
  obtain n where "find_sequence buf (crlf @ crlf) = Some n" "find_sequence (take n buf) crlf = Some (length f)"
    "take (length f) buf = f" "drop (length f + 2) (take n buf) = http_lines hs @ l"
    "drop (n + 4) buf = body" "parse_headers (http_lines hs @ l) = parse_all hs [] 0"
    unfolding buf_def by (rule http_message_split [OF assms])
  moreover have "buf \<noteq> []" by (simp add: buf_def http_message_nonempty)
  ultimately have "uhttp_parse_response (Some buf) True = response_of f hs body"
    by (simp add: uhttp_parse_response_def response_of_def split: option.split del: add_2_eq_Suc')
  then show ?thesis by (simp add: buf_def)
qed

lemma parse_request_no_headers:
  assumes "http_line f"
  shows "uhttp_parse_request (Some (http_message [f] body)) True = (UHTTP_PARSE_ERROR, None)"
proof -
  have "find_sequence (http_message [f] body) (crlf @ crlf) = Some (length f)"
    using http_lines_head [OF assms, of "[]" body] by (simp add: http_message_def)
  moreover have "take (length f) (http_message [f] body) = f" by (simp add: http_message_def)
  ultimately show ?thesis
    using find_crlf_none [of f] assms http_message_nonempty [of "[f]" body]
    by (simp add: uhttp_parse_request_def http_line_def)
qed


text \<open>
  The last header line of a request and of a response is never read: messages that differ
  in it only are parsed alike, and a request without headers is an error.
\<close>

theorem parse_last_header_ignored:
  assumes "http_line f" and "\<forall>m \<in> set (hs @ [l, l']). http_line m"
  shows "uhttp_parse_request (Some (http_message (f # hs @ [l]) body)) True =
      uhttp_parse_request (Some (http_message (f # hs @ [l']) body)) True \<and>
    uhttp_parse_response (Some (http_message (f # hs @ [l]) body)) True =
      uhttp_parse_response (Some (http_message (f # hs @ [l']) body)) True \<and>
    uhttp_parse_request (Some (http_message [f] body)) True = (UHTTP_PARSE_ERROR, None)"
  using assms
  by (simp add: parse_request_message parse_response_message parse_request_no_headers)

theorem parse_last_header_ignored_witness:
  "uhttp_parse_request (Some (http_message [str ''POST /x HTTP/1.1'', str ''Host: a'', str ''Content-Length: 2''] [1, 2])) True =
   uhttp_parse_request (Some (http_message [str ''POST /x HTTP/1.1'', str ''Host: a'', str ''X: y''] [1, 2])) True"
  using parse_last_header_ignored [of "str ''POST /x HTTP/1.1''" "[str ''Host: a'']" "str ''Content-Length: 2''" "str ''X: y''" "[1, 2]"]
  by (simp add: http_line_def str_def)

subsection \<open>More bytes behind a complete request\<close>

text \<open>
  A request that is complete is read the same when more bytes have arrived behind it.
\<close>

theorem parse_request_stable:
  assumes "uhttp_parse_request (Some buf) True = (UHTTP_PARSE_OK, Some rq)"
  shows "uhttp_parse_request (Some (buf @ ys)) True = (UHTTP_PARSE_OK, Some rq)"
proof -
  have codes: "UHTTP_PARSE_OK \<noteq> UHTTP_PARSE_ERROR" "UHTTP_PARSE_OK \<noteq> UHTTP_PARSE_INCOMPLETE"
    by (simp_all add: UHTTP_PARSE_OK_def UHTTP_PARSE_ERROR_def UHTTP_PARSE_INCOMPLETE_def)
  note p = assms [unfolded uhttp_parse_request_def]
  obtain n where n: "find_sequence buf (crlf @ crlf) = Some n"
    using p by (auto split: if_splits option.splits)
  then have n': "find_sequence (buf @ ys) (crlf @ crlf) = Some n" by (intro find_sequence_append) simp_all
  have le: "n + 4 \<le> length buf" using find_sequence_bound [OF n] by simp
  then have t: "take n (buf @ ys) = take n buf" "drop (n + 4) (buf @ ys) = drop (n + 4) buf @ ys" by simp_all
  obtain e where e: "find_sequence (take n buf) crlf = Some e"
    using p n by (auto split: if_splits option.splits)
  have "e \<le> n" using find_sequence_bound [OF e] by simp
  then have t': "take e (buf @ ys) = take e buf" using le by simp
  have body: "parse_request_body m q h c (drop (n + 4) buf @ ys) = (UHTTP_PARSE_OK, Some rq)"
    if "parse_request_body m q h c (drop (n + 4) buf) = (UHTTP_PARSE_OK, Some rq)" for m q h c
    using that codes le by (auto simp: parse_request_body_def Let_def split: if_splits)
  show ?thesis
    using p n n' e le by (auto simp: uhttp_parse_request_def t t' body simp del: take_append drop_append
        split: if_splits option.splits)
qed

definition demo_get :: bytes where
  "demo_get = http_message [str ''GET /x HTTP/1.1'', str ''Host: a''] []"

theorem parse_request_stable_witness:
  "uhttp_parse_request (Some (demo_get @ [71, 69])) True = (UHTTP_PARSE_OK,
     Some \<lparr>rq_method = HTTP_GET, rq_path = Some (str ''/x''), rq_headers = Some [], rq_header_count = 0, rq_body = None,
       rq_body_len = 0, rq_content_length = 0\<rparr>)"
  by (rule parse_request_stable) code_simp

subsection \<open>Query strings\<close>

text \<open>
  The percent encoding of a value: letters and digits stand for themselves, every other byte
  is written in hexadecimal.
\<close>

definition plain :: "u8 \<Rightarrow> bool" where
  "plain b \<longleftrightarrow> isdigit b \<or> 65 \<le> b \<and> b \<le> 90 \<or> 97 \<le> b \<and> b \<le> 122"

definition hex_digit :: "u8 \<Rightarrow> u8" where
  "hex_digit n = (if n < 10 then 48 + n else 55 + n)"

definition encode_byte :: "u8 \<Rightarrow> bytes" where
  "encode_byte b = (if plain b then [b] else [37, hex_digit (drop_bit 4 b), hex_digit (b AND 15)])"

definition encode_value :: "bytes \<Rightarrow> bytes" where
  "encode_value v = concat (map encode_byte v)"

fun encode_query :: "(bytes \<times> bytes) list \<Rightarrow> bytes" where
  "encode_query [] = []"
| "encode_query [(n, v)] = n @ [61] @ encode_value v"
| "encode_query ((n, v) # ps) = n @ [61] @ encode_value v @ [38] @ encode_query ps"

lemma hex_digit_all:
  "\<forall>n \<in> set (map of_nat [0..<16] :: u8 list). isxdigit (hex_digit n) \<and> hex_value (hex_digit n) = n \<and>
     hex_digit n \<noteq> 38 \<and> hex_digit n \<noteq> 0 \<and> hex_digit n \<noteq> 61"
  by code_simp

lemma hex_digit:
  assumes "n < (16 :: u8)"
  shows "isxdigit (hex_digit n)" "hex_value (hex_digit n) = n" "hex_digit n \<noteq> 38" "hex_digit n \<noteq> 0" "hex_digit n \<noteq> 61"
proof -
  have "unat n < 16" using assms by (simp add: word_less_nat_alt)
  moreover have "n = of_nat (unat n)" by simp
  ultimately have "n \<in> set (map of_nat [0..<16])" by (metis (no_types) atLeastLessThan_iff image_eqI le0 set_map set_upt)
  then show "isxdigit (hex_digit n)" "hex_value (hex_digit n) = n" "hex_digit n \<noteq> 38" "hex_digit n \<noteq> 0" "hex_digit n \<noteq> 61"
    using hex_digit_all by blast+
qed

lemma nibbles: "drop_bit 4 b < (16 :: u8)" "b AND 15 < (16 :: u8)" "push_bit 4 (drop_bit 4 b) OR (b AND 15) = b"
proof -
  have "unat b < 256" using unsigned_less [of b, where 'a = nat] by simp
  then show "drop_bit 4 b < (16 :: u8)"
    by (simp add: word_less_nat_alt unsigned_drop_bit_eq take_bit_nat_eq_self) (simp add: drop_bit_eq_div)
  have "b AND 15 \<le> 15" by (simp add: word_and_le1)
  then show "b AND 15 < (16 :: u8)" by (rule le_less_trans) simp
  have m: "15 = (mask 4 :: u8)" by (simp add: mask_eq_exp_minus_1)
  show "push_bit 4 (drop_bit 4 b) OR (b AND 15) = b"
    unfolding m by (rule bit_word_eqI) (auto simp: bit_simps)
qed

lemma plain_bytes: "plain b \<Longrightarrow> b \<noteq> 37 \<and> b \<noteq> 38 \<and> b \<noteq> 43 \<and> b \<noteq> 0 \<and> b \<noteq> 61"
  by (auto simp: plain_def isdigit_def)

lemma decode_encode_byte:
  "decode_value (encode_byte b @ src) (Suc room) = b # decode_value src room"
  using hex_digit [OF nibbles(1) [of b]] hex_digit [OF nibbles(2) [of b]] nibbles(3) [of b] plain_bytes [of b]
  by (auto simp: encode_byte_def)

lemma decode_encode_value: "decode_value (encode_value v) room = take room v"
proof (induction v arbitrary: room)
  case Nil
  then show ?case by (cases room) (simp_all add: encode_value_def)
next
  case (Cons b v)
  then show ?case
    by (cases room) (simp_all add: encode_value_def decode_encode_byte)
qed

lemma encode_value_clean: "38 \<notin> set (encode_value v)" "0 \<notin> set (encode_value v)"
proof -
  have "38 \<notin> set (encode_byte b) \<and> 0 \<notin> set (encode_byte b)" for b
    using hex_digit(3,4) [OF nibbles(1) [of b]] hex_digit(3,4) [OF nibbles(2) [of b]] plain_bytes [of b]
    by (auto simp: encode_byte_def)
  then show "38 \<notin> set (encode_value v)" "0 \<notin> set (encode_value v)" by (auto simp: encode_value_def)
qed

lemma find_char_none: "c \<notin> set bs \<Longrightarrow> find_char c bs = None"
  by (induction bs) auto

lemma find_char_at: "c \<notin> set bs \<Longrightarrow> find_char c (bs @ c # rest) = Some (length bs)"
  by (induction bs) auto

lemma name_matches:
  assumes "61 \<notin> set n" and "61 \<notin> set n'"
  shows "take (length n) (n' @ 61 # r) = n \<and> length n < length (n' @ 61 # r) \<and> (n' @ 61 # r) ! length n = 61 \<longleftrightarrow> n = n'"
proof
  assume m: "take (length n) (n' @ 61 # r) = n \<and> length n < length (n' @ 61 # r) \<and> (n' @ 61 # r) ! length n = 61"
  consider "length n < length n'" | "length n' < length n" | "length n = length n'" by linarith
  then show "n = n'"
  proof cases
    case 1
    then show ?thesis using m assms(2) by (auto simp: nth_append dest: nth_mem)
  next
    case 2
    then have "n ! length n' = 61" using m by (metis nth_append_length nth_take)
    then show ?thesis using 2 assms(1) nth_mem by metis
  qed (use m in simp)
qed simp

definition query_name :: "bytes \<Rightarrow> bool" where
  "query_name n \<longleftrightarrow> 0 \<notin> set n \<and> 38 \<notin> set n \<and> 61 \<notin> set n"

text \<open>A step of the loop where a parameter begins.\<close>

lemma query_loop_start:
  assumes "pre = [] \<or> last pre = 38" and "rest \<noteq> []"
  shows "query_loop (pre @ rest) n m (length pre) =
    (if take (length n) rest = n \<and> length n < length rest \<and> rest ! length n = 61
     then Some (decode_value (takeWhile (\<lambda>b. b \<noteq> 38) (drop (length n + 1) rest)) (m - 1))
     else case find_char 38 rest of None \<Rightarrow> None
       | Some k \<Rightarrow> query_loop (pre @ rest) n m (length pre + k + 1))"
proof -
  have "\<not> (0 < length pre \<and> (pre @ rest) ! (length pre - 1) \<noteq> 38)"
    using assms(1) by (cases pre rule: rev_cases) (auto simp: nth_append)
  then show ?thesis
    using assms(2) by (subst query_loop.simps) (auto simp: Let_def)
qed

lemma query_loop_encoded:
  assumes "\<forall>(k, v) \<in> set ps. query_name k" and "query_name n" and "n \<noteq> []"
    and "pre = [] \<or> last pre = 38"
  shows "query_loop (pre @ encode_query ps) n m (length pre) = map_option (take (m - 1)) (map_of ps n)"
  using assms(1,4)
proof (induction ps arbitrary: pre rule: encode_query.induct)
  case 1
  then show ?case by (simp add: query_loop.simps)
next
  case (2 k v)
  have k: "query_name k" using "2.prems"(1) by simp
  have t: "takeWhile (\<lambda>b. b \<noteq> 38) (encode_value v) = encode_value v"
    using encode_value_clean(1) [of v] by (auto simp: takeWhile_eq_all_conv)
  have f: "find_char 38 (k @ 61 # encode_value v) = None"
    using k encode_value_clean(1) [of v] by (intro find_char_none) (simp add: query_name_def)
  show ?case
    using name_matches [of n k "encode_value v"] k assms(2) f
    by (simp add: query_loop_start [OF "2.prems"(2)] query_name_def t decode_encode_value)
next
  case (3 k v p ps)
  let ?rest = "k @ 61 # encode_value v @ 38 # encode_query (p # ps)"
  have k: "query_name k" using "3.prems"(1) by simp
  have t: "takeWhile (\<lambda>b. b \<noteq> 38) (encode_value v @ 38 # encode_query (p # ps)) = encode_value v"
    using encode_value_clean(1) [of v] by (auto simp: takeWhile_tail takeWhile_append2)
  have f: "find_char 38 ?rest = Some (length (k @ 61 # encode_value v))"
    using find_char_at [of 38 "k @ 61 # encode_value v"] k encode_value_clean(1) [of v]
    by (simp add: query_name_def)
  have IH: "query_loop (pre @ ?rest) n m (length pre + length (k @ 61 # encode_value v) + 1) =
      map_option (take (m - 1)) (map_of (p # ps) n)"
    using "3.IH" [of "pre @ k @ 61 # encode_value v @ [38]"] "3.prems"(1) by (simp add: add.assoc)
  show ?case
    using name_matches [of n k "encode_value v @ 38 # encode_query (p # ps)"] k assms(2) f IH
    by (simp add: query_loop_start [OF "3.prems"(2)] query_name_def t decode_encode_value)
qed

text \<open>
  C40: looking a parameter up by a nonempty name in a query whose values were escaped byte by byte gives the value of the first
  parameter of that name, cut to one byte less than the size of the output, whatever bytes it has; and -1 when there is none of
  that name. Names hold no zero, \<open>&\<close> or \<open>=\<close>.
\<close>

theorem query_param_roundtrip:
  assumes "\<forall>(k, v) \<in> set ps. query_name k" and "query_name n" and "n \<noteq> []" and "0 < size_max"
  shows "uhttp_get_query_param (Some (63 # encode_query ps)) (Some n) True size_max =
    (case map_of ps n of None \<Rightarrow> (-1, None) | Some v \<Rightarrow> (0, Some (take (size_max - 1) v)))"
  using query_loop_encoded [OF assms(1-3), of "[]" size_max] assms(3,4)
  by (simp add: uhttp_get_query_param_def split: option.split)

theorem query_param_roundtrip_witness:
  "uhttp_get_query_param (Some (63 # encode_query [(str ''port'', str ''80''), (str ''uni'', str ''a b&c'')])) (Some (str ''uni'')) True 1024 =
    (0, Some (str ''a b&c''))"
  using query_param_roundtrip [of "[(str ''port'', str ''80''), (str ''uni'', str ''a b&c'')]" "str ''uni''" 1024]
  by (simp add: query_name_def str_def)

end
