(* ===== verification/Uhttp_Api.thy ===== *)
theory Uhttp_Api
  imports Uhttp_Parser
begin

text \<open>
  \<open>uhttp/src/api.c\<close>: making requests and responses, their fields, and their bytes. A block of
  memory is its bytes; writing past its end, or reading past the end of a block that a caller
  gave, is the fault \<open>OutOfBounds\<close>. \<open>size_t\<close> sums are taken modulo \<open>2 ^ 64\<close>. Memory is
  available; what \<open>malloc\<close> returns holds arbitrary bytes, the argument \<open>junk\<close>.

  The lemmas: building writes exactly the bytes of the message it announces, and what the
  parser of the other side makes of them: everything of a response; of a request everything
  but the last header, and so not even its body when it has no header of its own.
\<close>

subsection \<open>Names\<close>

definition uhttp_str_content_type :: "uhttp_content_type \<Rightarrow> bytes" where
  "uhttp_str_content_type ct =
     (case ct of
        HTTP_TEXT_PLAIN \<Rightarrow> str ''text/plain''
      | HTTP_APPLICATION_JSON \<Rightarrow> str ''application/json''
      | _ \<Rightarrow> str ''application/octet-stream'')"

definition uhttp_content_type_from_str :: "bytes \<Rightarrow> uhttp_content_type" where
  "uhttp_content_type_from_str s =
     (if s = str ''application/octet-stream'' then HTTP_OCTET_STREAM
      else if s = str ''application/json'' then HTTP_APPLICATION_JSON
      else if s = str ''text/plain'' then HTTP_TEXT_PLAIN
      else HTTP_OCTET_STREAM)"

definition uhttp_str_method :: "uhttp_method \<Rightarrow> bytes" where
  "uhttp_str_method m =
     (case m of HTTP_GET \<Rightarrow> str ''GET'' | HTTP_POST \<Rightarrow> str ''POST'' | _ \<Rightarrow> str ''UNKNOWN'')"

subsection \<open>Parameters\<close>

record uhttp_param =
  up_name :: bytes
  up_value :: "bytes option"

definition uhttp_new_param :: "bytes \<Rightarrow> uhttp_param" where
  "uhttp_new_param name = \<lparr>up_name = name, up_value = None\<rparr>"

text \<open>The query of a path, from its question mark on.\<close>

definition query_of :: "bytes \<Rightarrow> bytes option" where
  "query_of path = (case find_char 63 path of None \<Rightarrow> None | Some i \<Rightarrow> Some (drop i path))"

text \<open>The output pointer is cleared once the arguments are valid, and so only the result \<open>-3\<close> keeps the value.\<close>

definition parse_param :: "bytes option \<Rightarrow> uhttp_param \<Rightarrow> bool \<times> uhttp_param" where
  "parse_param query pm =
     (let (r, v) = uhttp_get_query_param query (Some (up_name pm)) True 1024 in
      (0 \<le> r, if r = -3 then pm else pm\<lparr>up_value := v\<rparr>))"

definition uhttp_parse_params ::
  "uhttp_request option \<Rightarrow> uhttp_param list option \<Rightarrow> fault + int \<times> uhttp_param list option" where
  "uhttp_parse_params req params =
     (case (req, params) of
        (Some rq, Some ps) \<Rightarrow>
          (case rq_path rq of
             None \<Rightarrow> Inl NullDeref
           | Some path \<Rightarrow>
               let rs = map (parse_param (query_of (cstr path))) ps in
               Inr (if list_all fst rs then 0 else 1, Some (map snd rs)))
      | _ \<Rightarrow> Inr (-1, params))"

definition uhttp_any_params :: "uhttp_request \<Rightarrow> fault + bool" where
  "uhttp_any_params req =
     (case rq_path req of None \<Rightarrow> Inl NullDeref | Some path \<Rightarrow> Inr (query_of (cstr path) \<noteq> None))"

definition uhttp_get_clear_route :: "uhttp_request \<Rightarrow> fault + bytes" where
  "uhttp_get_clear_route req =
     (case rq_path req of
        None \<Rightarrow> Inl NullDeref
      | Some path \<Rightarrow>
          (case find_char 63 (cstr path) of
             None \<Rightarrow> Inr (cstr path)
           | Some sz \<Rightarrow> Inr (take sz (cstr path))))"

fun uhttp_get_param :: "uhttp_param list \<Rightarrow> bytes \<Rightarrow> bytes option" where
  "uhttp_get_param [] name = None"
| "uhttp_get_param (p # ps) name = (if up_name p = name then up_value p else uhttp_get_param ps name)"

subsection \<open>Requests and responses\<close>

text \<open>The first \<open>n\<close> elements of an array.\<close>

definition read_block :: "nat \<Rightarrow> 'a list \<Rightarrow> fault + 'a list" where
  "read_block n xs = (if n \<le> length xs then Inr (take n xs) else Inl OutOfBounds)"

definition strlen :: "bytes \<Rightarrow> fault + nat" where
  "strlen block = (if 0 \<in> set block then Inr (length (cstr block)) else Inl OutOfBounds)"

text \<open>\<open>body\<close> is the block it points to, with the \<open>NUL\<close> of a string.\<close>

definition uhttp_create_response ::
  "bool \<Rightarrow> int \<Rightarrow> bytes option \<Rightarrow> bytes option \<Rightarrow> nat \<Rightarrow> uhttp_content_type \<Rightarrow> fault + int \<times> uhttp_response option" where
  "uhttp_create_response out status_code status_text body body_len content_type =
     (if \<not> out then Inr (-1, None)
      else
        let rs = \<lparr>rs_status_code = status_code, rs_status_text = status_text, rs_headers = None,
                  rs_header_count = 0, rs_body = None, rs_body_len = body_len, rs_content_type = content_type\<rparr> in
        (case body of
           None \<Rightarrow> Inr (0, Some rs)
         | Some block \<Rightarrow>
             if body_len = 0 then Inr (0, Some rs)
             else
               bind_fault (if body_len = SIZE_MAX then strlen block else Inr body_len) (\<lambda>n.
               bind_fault (read_block n block) (\<lambda>b.
               Inr (0, Some (rs\<lparr>rs_body_len := n, rs_body := Some b\<rparr>))))))"

definition uhttp_create_responseq ::
  "int \<Rightarrow> bytes option \<Rightarrow> bytes option \<Rightarrow> nat \<Rightarrow> uhttp_content_type \<Rightarrow> fault + uhttp_response" where
  "uhttp_create_responseq status_code status_text body body_len content_type =
     bind_fault (uhttp_create_response True status_code status_text body body_len content_type)
       (\<lambda>(_, rs). Inr (the rs))"

text \<open>\<open>old\<close> is the object before the call: its \<open>content_length\<close> is never set.\<close>

definition uhttp_create_request ::
  "uhttp_request option \<Rightarrow> uhttp_method \<Rightarrow> bytes option \<Rightarrow> bytes option \<Rightarrow> nat \<Rightarrow> fault + int \<times> uhttp_request option" where
  "uhttp_create_request old method path body body_len =
     (case old of
        None \<Rightarrow> Inr (-1, None)
      | Some rq \<Rightarrow>
          if path = None then Inr (-1, Some (rq\<lparr>rq_path := None\<rparr>))
          else
            let rq = rq\<lparr>rq_path := path, rq_method := method, rq_body_len := body_len, rq_header_count := 0,
                        rq_headers := None, rq_body := None\<rparr> in
            (case body of
               None \<Rightarrow> Inr (0, Some rq)
             | Some block \<Rightarrow>
                 if body_len = 0 then Inr (0, Some rq)
                 else bind_fault (read_block body_len block) (\<lambda>b. Inr (0, Some (rq\<lparr>rq_body := Some b\<rparr>)))))"

text \<open>Setting the headers; the count is set before anything is looked at.\<close>

definition set_headers ::
  "uhttp_header list option \<Rightarrow> uhttp_header list option \<Rightarrow> nat \<Rightarrow> fault + uhttp_header list option" where
  "set_headers old headers headers_n =
     (case headers of
        None \<Rightarrow> Inr None
      | Some hs \<Rightarrow> bind_fault (read_block headers_n hs) (\<lambda>hs. Inr (Some hs)))"

definition uhttp_request_sheaders ::
  "uhttp_request option \<Rightarrow> uhttp_header list option \<Rightarrow> nat \<Rightarrow> fault + int \<times> uhttp_request option" where
  "uhttp_request_sheaders md headers headers_n =
     (case md of
        None \<Rightarrow> Inr (-1, None)
      | Some rq \<Rightarrow>
          bind_fault (set_headers (rq_headers rq) headers headers_n) (\<lambda>hs.
          Inr (0, Some (rq\<lparr>rq_header_count := headers_n, rq_headers := hs\<rparr>))))"

definition uhttp_response_sheaders ::
  "uhttp_response option \<Rightarrow> uhttp_header list option \<Rightarrow> nat \<Rightarrow> fault + int \<times> uhttp_response option" where
  "uhttp_response_sheaders md headers headers_n =
     (case md of
        None \<Rightarrow> Inr (-1, None)
      | Some rs \<Rightarrow>
          bind_fault (set_headers (rs_headers rs) headers headers_n) (\<lambda>hs.
          Inr (0, Some (rs\<lparr>rs_header_count := headers_n, rs_headers := hs\<rparr>))))"

definition uhttp_free_request :: "uhttp_request \<Rightarrow> uhttp_request" where
  "uhttp_free_request rq =
     rq\<lparr>rq_path := None, rq_body := None, rq_headers := None, rq_content_length := 0,
        rq_header_count := 0, rq_body_len := 0, rq_method := HTTP_METHOD_UNKNOWN\<rparr>"

definition uhttp_free_response :: "uhttp_response \<Rightarrow> uhttp_response" where
  "uhttp_free_response rs =
     rs\<lparr>rs_status_text := None, rs_body := None, rs_headers := None, rs_header_count := 0,
        rs_status_code := -1, rs_body_len := 0, rs_content_type := HTTP_CONTENT_UNKNOWN\<rparr>"

subsection \<open>Bytes\<close>

text \<open>Decimal numbers as \<open>%zu\<close> and \<open>%d\<close> print them.\<close>

fun dec_nat :: "nat \<Rightarrow> bytes" where
  "dec_nat n = (if n < 10 then [digit n] else dec_nat (n div 10) @ [digit (n mod 10)])"

declare dec_nat.simps [simp del]

definition dec_int :: "int \<Rightarrow> bytes" where
  "dec_int i = (if i < 0 then 45 # dec_nat (nat (- i)) else dec_nat (nat i))"

definition size_add :: "nat \<Rightarrow> nat \<Rightarrow> nat" where
  "size_add a b = (a + b) mod 2 ^ 64"

definition write_at :: "bytes \<Rightarrow> nat \<Rightarrow> bytes \<Rightarrow> fault + bytes" where
  "write_at buf off xs =
     (if off + length xs \<le> length buf then Inr (take off buf @ xs @ drop (off + length xs) buf)
      else Inl OutOfBounds)"

text \<open>\<open>snprintf\<close> into \<open>n\<close> bytes at \<open>off\<close>, of a text without \<open>NUL\<close>.\<close>

definition snprintf_at :: "bytes \<Rightarrow> nat \<Rightarrow> nat \<Rightarrow> bytes \<Rightarrow> fault + bytes" where
  "snprintf_at buf off n text =
     (if n = 0 then Inr buf else write_at buf off (take (n - 1) text @ [0]))"

definition header_text :: "uhttp_header \<Rightarrow> bytes" where
  "header_text h = cstr (h_key h) @ [58, 32] @ cstr (h_value h)"

definition header_size :: "uhttp_header \<Rightarrow> nat" where
  "header_size h = length (cstr (h_key h)) + 2 + length (cstr (h_value h)) + 2"

text \<open>The headers that the count announces.\<close>

definition headers_used :: "uhttp_header list option \<Rightarrow> nat \<Rightarrow> fault + uhttp_header list" where
  "headers_used headers n =
     (if n = 0 then Inr []
      else case headers of None \<Rightarrow> Inl NullDeref | Some hs \<Rightarrow> read_block n hs)"

text \<open>The loop that prints them; the result is the buffer and the offset behind them.\<close>

fun put_headers :: "nat \<Rightarrow> bytes \<Rightarrow> nat \<Rightarrow> uhttp_header list \<Rightarrow> fault + bytes \<times> nat" where
  "put_headers total_sz buf off [] = Inr (buf, off)"
| "put_headers total_sz buf off (h # hs) =
     (let text = header_text h @ crlf in
      bind_fault (snprintf_at buf off (size_add (total_sz + 1) (2 ^ 64 - off)) text) (\<lambda>buf.
      put_headers total_sz buf (off + length text) hs))"

text \<open>The empty line and the body.\<close>

definition put_tail :: "bytes \<Rightarrow> nat \<Rightarrow> bytes option \<Rightarrow> nat \<Rightarrow> fault + bytes" where
  "put_tail buf off body body_len =
     bind_fault (write_at buf off crlf) (\<lambda>buf.
       case body of
         None \<Rightarrow> Inr buf
       | Some b \<Rightarrow>
           if body_len = 0 then Inr buf
           else bind_fault (read_block body_len b) (\<lambda>b. write_at buf (off + 2) b))"

definition status_text_of :: "uhttp_response \<Rightarrow> bytes" where
  "status_text_of rs = (case rs_status_text rs of None \<Rightarrow> str ''OK'' | Some t \<Rightarrow> cstr t)"

definition response_head :: "uhttp_response \<Rightarrow> bytes list" where
  "response_head rs =
     [str ''HTTP/1.1 '' @ dec_int (rs_status_code rs) @ [32] @ status_text_of rs,
      str ''Content-Type: '' @ uhttp_str_content_type (rs_content_type rs),
      str ''Content-Length: '' @ dec_nat (rs_body_len rs),
      str ''Connection: close'']"

definition response_headers_sz :: "uhttp_response \<Rightarrow> uhttp_header list \<Rightarrow> nat" where
  "response_headers_sz rs hs =
     9 + 3 + 1 + length (status_text_of rs) + 2 +
     (14 + length (uhttp_str_content_type (rs_content_type rs)) + 2) +
     (16 + length (dec_nat (rs_body_len rs)) + 2) + 19 + sum_list (map header_size hs) + 2"

text \<open>\<open>resp\<close> is \<open>None\<close> for \<open>NULL\<close>; the result has the block and \<open>*osz\<close>.\<close>

definition uhttp_build_response ::
  "(nat \<Rightarrow> u8) \<Rightarrow> uhttp_response option \<Rightarrow> bool \<Rightarrow> fault + int \<times> (bytes \<times> nat) option" where
  "uhttp_build_response junk resp out =
     (case resp of
        None \<Rightarrow> Inr (-1, None)
      | Some rs \<Rightarrow>
          if \<not> out then Inr (-1, None)
          else
            bind_fault (headers_used (rs_headers rs) (rs_header_count rs)) (\<lambda>hs.
              let headers_sz = response_headers_sz rs hs;
                  total_sz = size_add headers_sz (rs_body_len rs);
                  buf = map junk [0..<size_add total_sz 1];
                  text = http_lines (response_head rs);
                  written = length text in
              bind_fault (snprintf_at buf 0 (size_add total_sz 1) text) (\<lambda>buf.
              if headers_sz < written then Inr (-1, None)
              else
                bind_fault (put_headers total_sz buf written hs) (\<lambda>(buf, off).
                bind_fault (put_tail buf off (rs_body rs) (rs_body_len rs)) (\<lambda>buf.
                Inr (0, Some (buf, total_sz)))))))"

definition request_head :: "uhttp_request \<Rightarrow> bytes \<Rightarrow> bytes list" where
  "request_head rq path =
     [uhttp_str_method (rq_method rq) @ [32] @ path @ str '' HTTP/1.1'',
      str ''Content-Length: '' @ dec_nat (rq_body_len rq)]"

definition request_headers_sz :: "uhttp_request \<Rightarrow> bytes \<Rightarrow> uhttp_header list \<Rightarrow> nat" where
  "request_headers_sz rq path hs =
     length (uhttp_str_method (rq_method rq)) + 1 + length path + 11 +
     (16 + length (dec_nat (rq_body_len rq)) + 2) + sum_list (map header_size hs) + 2"

definition uhttp_build_request ::
  "(nat \<Rightarrow> u8) \<Rightarrow> uhttp_request option \<Rightarrow> bool \<Rightarrow> fault + int \<times> (bytes \<times> nat) option" where
  "uhttp_build_request junk req out =
     (case req of
        None \<Rightarrow> Inr (-1, None)
      | Some rq \<Rightarrow>
          if \<not> out then Inr (-1, None)
          else
            (case rq_path rq of
               None \<Rightarrow> Inl NullDeref
             | Some p \<Rightarrow>
                 bind_fault (headers_used (rq_headers rq) (rq_header_count rq)) (\<lambda>hs.
                   let path = cstr p;
                       headers_sz = request_headers_sz rq path hs;
                       total_sz = size_add headers_sz (rq_body_len rq);
                       buf = map junk [0..<size_add total_sz 1];
                       text = http_lines (request_head rq path) in
                   bind_fault (snprintf_at buf 0 (size_add total_sz 1) text) (\<lambda>buf.
                   bind_fault (put_headers total_sz buf (length text) hs) (\<lambda>(buf, off).
                   bind_fault (put_tail buf off (rq_body rq) (rq_body_len rq)) (\<lambda>buf.
                   Inr (0, Some (buf, total_sz))))))))"

subsection \<open>The bytes that are built\<close>

lemma write_at_append:
  "length xs \<le> length r \<Longrightarrow> write_at (w @ r) (length w) xs = Inr (w @ xs @ drop (length xs) r)"
  by (simp add: write_at_def)

lemma snprintf_fits:
  assumes "length text < length r"
  shows "snprintf_at (w @ r) (length w) (length r) text = Inr (w @ text @ 0 # drop (length text + 1) r)"
proof -
  have t: "take (length r - 1) text = text" and r: "r \<noteq> []" using assms by auto
  have "snprintf_at (w @ r) (length w) (length r) text = write_at (w @ r) (length w) (text @ [0])"
    using r unfolding snprintf_at_def t by simp
  also have "\<dots> = Inr (w @ (text @ [0]) @ drop (length (text @ [0])) r)"
    by (rule write_at_append) (use assms in simp)
  finally show ?thesis by simp
qed

lemma size_left:
  assumes "off \<le> n" and "n < 2 ^ 64"
  shows "size_add n (2 ^ 64 - off) = n - off"
proof -
  have "n + (2 ^ 64 - off) = (n - off) + 2 ^ 64" using assms by simp
  then show ?thesis using assms unfolding size_add_def by (metis less_imp_diff_less mod_add_self2 mod_less)
qed

lemma header_size_text: "header_size h = length (header_text h @ crlf)"
  by (simp add: header_size_def header_text_def)

lemma header_sizes: "sum_list (map header_size hs) = length (http_lines (map header_text hs))"
  by (induction hs) (simp_all add: header_size_text)

lemma put_headers_fits:
  assumes "length (w @ r) = tot + 1" and "tot + 1 < 2 ^ 64"
    and "length (http_lines (map header_text hs)) < length r"
  shows "\<exists>r'. put_headers tot (w @ r) (length w) hs =
      Inr (w @ http_lines (map header_text hs) @ r', length w + length (http_lines (map header_text hs))) \<and>
    length r' = length r - length (http_lines (map header_text hs))"
  using assms(1,3)
proof (induction hs arbitrary: w r)
  case (Cons h hs)
  let ?t = "header_text h @ crlf"
  have left: "size_add (tot + 1) (2 ^ 64 - length w) = length r"
    using size_left [of "length w" "tot + 1"] Cons.prems(1) assms(2) by simp
  have p: "snprintf_at (w @ r) (length w) (length r) ?t = Inr (w @ ?t @ 0 # drop (length ?t + 1) r)"
    using Cons.prems(2) by (intro snprintf_fits) simp
  obtain r' where "put_headers tot ((w @ ?t) @ 0 # drop (length ?t + 1) r) (length (w @ ?t)) hs =
      Inr ((w @ ?t) @ http_lines (map header_text hs) @ r', length (w @ ?t) + length (http_lines (map header_text hs)))"
    "length r' = length (0 # drop (length ?t + 1) r) - length (http_lines (map header_text hs))"
  proof -
    have "length ((w @ ?t) @ 0 # drop (length ?t + 1) r) = tot + 1"
      "length (http_lines (map header_text hs)) < length (0 # drop (length ?t + 1) r)"
      using Cons.prems by simp_all
    then show ?thesis using Cons.IH [of "w @ ?t" "0 # drop (length ?t + 1) r"] that by blast
  qed
  then show ?case
    using left p Cons.prems by (auto simp: Let_def add.assoc)
qed simp

text \<open>The body a message has: nothing, or as many bytes as announced.\<close>

definition body_ok :: "bytes option \<Rightarrow> nat \<Rightarrow> bytes \<Rightarrow> bool" where
  "body_ok body n b \<longleftrightarrow> length b = n \<and> body = (if b = [] then None else Some b)"

lemma put_tail_fits:
  assumes "body_ok body n b" and "n + 2 \<le> length r"
  shows "put_tail (w @ r) (length w) body n = Inr (w @ crlf @ b @ drop (n + 2) r)"
proof -
  have a: "write_at (w @ r) (length w) crlf = Inr ((w @ crlf) @ drop 2 r)"
    using write_at_append [of crlf r w] assms(2) by simp
  show ?thesis
  proof (cases "b = []")
    case True
    then show ?thesis using a assms by (simp add: put_tail_def body_ok_def numeral_2_eq_2)
  next
    case False
    have "write_at ((w @ crlf) @ drop 2 r) (length (w @ crlf)) b = Inr ((w @ crlf) @ b @ drop (length b) (drop 2 r))"
      by (rule write_at_append) (use assms in \<open>simp add: body_ok_def\<close>)
    then show ?thesis
      using a assms False by (auto simp: put_tail_def body_ok_def read_block_def)
  qed
qed

lemma length_map_junk [simp]: "length (map junk [0..<n]) = n" by simp

text \<open>All the writes of a message, into a block of just its size and one byte.\<close>

lemma build_fits:
  assumes "body_ok body n b" and "tot = length (http_message (ls @ map header_text hs) b)"
    and "tot + 1 < 2 ^ 64" and "length buf = tot + 1"
  shows "\<exists>buf1 block. snprintf_at buf 0 (tot + 1) (http_lines ls) = Inr buf1 \<and>
    bind_fault (put_headers tot buf1 (length (http_lines ls)) hs) (\<lambda>(buf, off). put_tail buf off body n) =
      Inr block \<and> take tot block = http_message (ls @ map header_text hs) b"
proof -
  let ?l = "http_lines ls" and ?h = "http_lines (map header_text hs)"
  have tot: "tot = length ?l + length ?h + 2 + length b" using assms(2) by (simp add: http_message_def)
  have s: "snprintf_at buf 0 (tot + 1) ?l = Inr (?l @ 0 # drop (length ?l + 1) buf)"
    using snprintf_fits [of ?l buf "[]"] assms(4) tot by simp
  obtain r' where r': "put_headers tot (?l @ 0 # drop (length ?l + 1) buf) (length ?l) hs =
      Inr (?l @ ?h @ r', length ?l + length ?h)" "length r' = tot + 1 - length ?l - length ?h"
    using put_headers_fits [of ?l "0 # drop (length ?l + 1) buf" tot hs] assms(3,4) tot by auto
  have b: "length b = n" using assms(1) by (simp add: body_ok_def)
  have "put_tail ((?l @ ?h) @ r') (length (?l @ ?h)) body n = Inr ((?l @ ?h) @ crlf @ b @ drop (n + 2) r')"
    by (rule put_tail_fits [OF assms(1)]) (use r'(2) tot b in simp)
  then have "bind_fault (put_headers tot (?l @ 0 # drop (length ?l + 1) buf) (length ?l) hs)
      (\<lambda>(buf, off). put_tail buf off body n) = Inr (http_message (ls @ map header_text hs) b @ drop (n + 2) r')"
    using r'(1) by (simp add: http_message_def)
  moreover have "take tot (http_message (ls @ map header_text hs) b @ drop (n + 2) r') =
      http_message (ls @ map header_text hs) b"
    by (simp add: assms(2))
  ultimately show ?thesis using s by blast
qed

subsection \<open>Decimal numbers read back\<close>

lemma isdigit_digit: "n < 10 \<Longrightarrow> isdigit (digit n)" "n < 10 \<Longrightarrow> unat (digit n) = 48 + n"
proof -
  assume n: "n < 10"
  then show u: "unat (digit n) = 48 + n"
    unfolding digit_def by (simp add: unsigned_of_nat take_bit_nat_eq_self del: of_nat_add)
  show "isdigit (digit n)" using u n by (simp add: isdigit_def word_le_nat_alt)
qed

lemma dec_nat_digits: "\<forall>b \<in> set (dec_nat n). isdigit b"
proof (induction n rule: dec_nat.induct)
  case (1 n)
  then show ?case by (subst dec_nat.simps) (auto simp: isdigit_digit)
qed

lemma dec_nat_nonempty: "dec_nat n \<noteq> []"
  by (subst dec_nat.simps) simp

lemma content_length_loop_append:
  "content_length_loop xs a = (0, v) \<Longrightarrow> content_length_loop (xs @ ys) a = content_length_loop ys v"
  by (induction xs arbitrary: a) (auto simp: Let_def split: if_splits)

lemma content_length_dec: "n \<le> UHTTP_MAX_BODY_SIZE \<Longrightarrow> content_length_loop (dec_nat n) 0 = (0, n)"
proof (induction n rule: dec_nat.induct)
  case (1 n)
  show ?case
  proof (cases "n < 10")
    case True
    then show ?thesis using 1 by (simp add: dec_nat.simps [of n] isdigit_digit)
  next
    case False
    then have "content_length_loop (dec_nat (n div 10)) 0 = (0, n div 10)"
      using 1 by (metis div_le_dividend le_trans)
    then show ?thesis
      using False 1 content_length_loop_append [of "dec_nat (n div 10)" 0 "n div 10" "[digit (n mod 10)]"]
      by (simp add: dec_nat.simps [of n] isdigit_digit Let_def)
  qed
qed

lemma atoi_digits_append:
  "\<forall>b \<in> set xs. isdigit b \<Longrightarrow> atoi_digits (xs @ ys) a = atoi_digits ys (atoi_digits xs a)"
  by (induction xs arbitrary: a) auto

lemma atoi_digits_dec: "atoi_digits (dec_nat n) 0 = int n"
proof (induction n rule: dec_nat.induct)
  case (1 n)
  show ?case
  proof (cases "n < 10")
    case True
    then show ?thesis by (simp add: dec_nat.simps [of n] isdigit_digit)
  next
    case False
    then show ?thesis
      using 1 atoi_digits_append [OF dec_nat_digits [of "n div 10"], of "[digit (n mod 10)]" 0]
      by (simp add: dec_nat.simps [of n] isdigit_digit zmod_int zdiv_int)
  qed
qed

lemma digit_not_space: "isdigit b \<Longrightarrow> \<not> isspace b \<and> b \<noteq> 45 \<and> b \<noteq> 43 \<and> b \<noteq> 32 \<and> b \<noteq> 13 \<and> b \<noteq> 10 \<and> b \<noteq> 0"
  by (auto simp: isdigit_def isspace_def word_le_nat_alt)

lemma dec_nat_clean: "c \<in> {0, 10, 13, 32, 43, 45} \<Longrightarrow> c \<notin> set (dec_nat n)"
  using dec_nat_digits [of n] digit_not_space by blast

lemma dec_nat_head: "\<exists>b bs. dec_nat n = b # bs \<and> isdigit b"
  using dec_nat_nonempty [of n] dec_nat_digits [of n] by (cases "dec_nat n") auto

lemma atoi_dec: "atoi (dec_nat n) = int n"
proof -
  obtain b bs where "dec_nat n = b # bs" "isdigit b" using dec_nat_head by blast
  then show ?thesis using atoi_digits_dec [of n] digit_not_space [of b] by (simp add: atoi_def)
qed

lemma parse_content_length_dec: "n \<le> UHTTP_MAX_BODY_SIZE \<Longrightarrow> parse_content_length (dec_nat n) c = (0, n)"
proof -
  assume n: "n \<le> UHTTP_MAX_BODY_SIZE"
  obtain b bs where b: "dec_nat n = b # bs" "isdigit b" using dec_nat_head by blast
  then have "dropWhile isspace (dec_nat n) = dec_nat n" using digit_not_space by simp
  then show ?thesis using content_length_dec [OF n] dec_nat_nonempty by (simp add: parse_content_length_def)
qed

lemma length_dec_nat3: "100 \<le> n \<Longrightarrow> n \<le> 999 \<Longrightarrow> length (dec_nat n) = 3"
proof -
  assume n: "100 \<le> n" "n \<le> 999"
  then have "\<not> n < 10" "\<not> n div 10 < 10" "n div 10 div 10 < 10" by simp_all
  then show ?thesis
    by (simp add: dec_nat.simps [of n] dec_nat.simps [of "n div 10"] dec_nat.simps [of "n div 10 div 10"])
qed

subsection \<open>Headers read back\<close>

definition hdr :: "bytes \<Rightarrow> bytes \<Rightarrow> uhttp_header" where
  "hdr k v = \<lparr>h_key = header_field k, h_value = header_field v\<rparr>"

definition field_ok :: "bytes \<Rightarrow> bytes \<Rightarrow> bool" where
  "field_ok k v \<longleftrightarrow>
     0 \<notin> set k \<and> 13 \<notin> set k \<and> 58 \<notin> set k \<and> length k < MAX_HEADER_SIZE \<and>
     0 \<notin> set v \<and> 13 \<notin> set v \<and> (v \<noteq> [] \<longrightarrow> hd v \<noteq> 32) \<and> length v < MAX_HEADER_SIZE"

text \<open>A header of a program: fields that can be written on a line, and not the length of the body.\<close>

definition header_ok :: "uhttp_header \<Rightarrow> bool" where
  "header_ok h \<longleftrightarrow> (\<exists>k v. h = hdr k v \<and> field_ok k v \<and> \<not> is_content_length k)"

lemma header_text_hdr: "field_ok k v \<Longrightarrow> header_text (hdr k v) = k @ 58 # 32 # v"
  using cstr_append_zero [of k "MAX_HEADER_SIZE - length k" "[]"]
    cstr_append_zero [of v "MAX_HEADER_SIZE - length v" "[]"]
  by (simp add: header_text_def hdr_def header_field_def field_ok_def)

lemma header_text_line: "field_ok k v \<Longrightarrow> http_line (header_text (hdr k v))"
  by (simp add: header_text_hdr http_line_def field_ok_def)

lemma header_ok_line: "header_ok h \<Longrightarrow> http_line (header_text h)"
  by (auto simp: header_ok_def header_text_line)

lemma parse_header_line_hdr:
  assumes "field_ok k v" and "length H < MAX_HEADERS"
  shows "parse_header_line (header_text (hdr k v)) H c =
    (if is_content_length k then
       (case parse_content_length v c of (r, cl) \<Rightarrow> if r \<noteq> 0 then None else Some (H @ [hdr k v], cl))
     else Some (H @ [hdr k v], c))"
proof -
  have f: "find_char 58 (header_text (hdr k v)) = Some (length k)"
    using find_char_at [of 58 k "32 # v"] assms(1) by (simp add: header_text_hdr field_ok_def)
  have v: "dropWhile (\<lambda>b. b = 32) (drop (length k + 1) (header_text (hdr k v))) = v"
    using assms(1) by (cases v) (simp_all add: header_text_hdr field_ok_def)
  have k: "take (length k) (header_text (hdr k v)) = k"
    using assms(1) by (simp add: header_text_hdr)
  show ?thesis
    using assms by (simp add: parse_header_line_def f v k Let_def hdr_def [symmetric] field_ok_def del: One_nat_def)
qed

lemma parse_all_append:
  "parse_all (xs @ ys) H c = (case parse_all xs H c of None \<Rightarrow> None | Some (H, c) \<Rightarrow> parse_all ys H c)"
  by (induction xs arbitrary: H c) (auto split: option.splits)

lemma parse_all_plain:
  assumes "\<forall>h \<in> set hs. header_ok h" and "length H + length hs \<le> MAX_HEADERS"
  shows "parse_all (map header_text hs) H c = Some (H @ hs, c)"
  using assms
proof (induction hs arbitrary: H)
  case (Cons h hs)
  obtain k v where h: "h = hdr k v" "field_ok k v" "\<not> is_content_length k"
    using Cons.prems(1) by (auto simp: header_ok_def)
  then have "parse_header_line (header_text h) H c = Some (H @ [h], c)"
    using parse_header_line_hdr [OF h(2), of H c] Cons.prems(2) by simp
  then show ?case using Cons by simp
qed simp

definition cl_header :: "nat \<Rightarrow> uhttp_header" where
  "cl_header n = hdr (str ''Content-Length'') (dec_nat n)"

lemma length_dec_nat: "n < 10 ^ m \<Longrightarrow> 0 < m \<Longrightarrow> length (dec_nat n) \<le> m"
proof (induction m arbitrary: n)
  case (Suc m)
  show ?case
  proof (cases "n < 10")
    case False
    then have "0 < m" using Suc.prems by (cases m) simp_all
    moreover have "n div 10 < 10 ^ m" using Suc.prems(1) by (simp add: less_mult_imp_div_less mult.commute)
    ultimately show ?thesis using Suc.IH [of "n div 10"] False by (simp add: dec_nat.simps [of n])
  qed (simp add: dec_nat.simps [of n])
qed simp

lemma cl_header_ok:
  assumes "n < 2 ^ 64"
  shows "field_ok (str ''Content-Length'') (dec_nat n)" "is_content_length (str ''Content-Length'')"
proof -
  have "n < 10 ^ 20" using assms by (rule less_le_trans) simp
  then have "length (dec_nat n) \<le> 20" by (rule length_dec_nat) simp
  then show "field_ok (str ''Content-Length'') (dec_nat n)"
    using dec_nat_clean [of 0 n] dec_nat_clean [of 13 n] dec_nat_head [of n] digit_not_space
    by (auto simp: field_ok_def str_def MAX_HEADER_SIZE_def)
  show "is_content_length (str ''Content-Length'')" by (simp add: is_content_length_def str_def)
qed

lemma parse_cl_header:
  assumes "n \<le> UHTTP_MAX_BODY_SIZE" and "length H < MAX_HEADERS"
  shows "parse_header_line (header_text (cl_header n)) H c = Some (H @ [cl_header n], n)"
proof -
  have "n < 2 ^ 64" using assms(1) by (simp add: UHTTP_MAX_BODY_SIZE_def)
  then show ?thesis
    using parse_header_line_hdr [OF cl_header_ok(1) assms(2), of n c] cl_header_ok(2) [of n]
      parse_content_length_dec [OF assms(1), of c] by (simp add: cl_header_def)
qed

lemma str_text: "field_ok k v \<Longrightarrow> k @ str '': '' @ v = header_text (hdr k v)"
  by (simp add: header_text_hdr str_def)

subsection \<open>Messages through the library and back\<close>

text \<open>The headers of an object, and what it takes to print it on lines.\<close>

definition headers_ok :: "uhttp_header list option \<Rightarrow> nat \<Rightarrow> uhttp_header list \<Rightarrow> bool" where
  "headers_ok headers n hs \<longleftrightarrow>
     n = length hs \<and> headers = (if hs = [] then None else Some hs) \<and> (\<forall>h \<in> set hs. header_ok h) \<and> n \<le> 16"

lemma headers_ok_used: "headers_ok headers n hs \<Longrightarrow> headers_used headers n = Inr hs"
  by (auto simp: headers_ok_def headers_used_def read_block_def)

definition path_ok :: "bytes \<Rightarrow> bool" where
  "path_ok p \<longleftrightarrow> 0 \<notin> set p \<and> 13 \<notin> set p \<and> 32 \<notin> set p \<and> length p < MAX_PATH_SIZE"

definition request_ok :: "uhttp_request \<Rightarrow> bytes \<Rightarrow> uhttp_header list \<Rightarrow> bytes \<Rightarrow> bool" where
  "request_ok rq path hs b \<longleftrightarrow>
     rq_method rq \<noteq> HTTP_METHOD_UNKNOWN \<and> rq_path rq = Some path \<and> path_ok path \<and>
     headers_ok (rq_headers rq) (rq_header_count rq) hs \<and>
     body_ok (rq_body rq) (rq_body_len rq) b \<and> length b \<le> UHTTP_MAX_BODY_SIZE"

lemma cstr_plain: "0 \<notin> set p \<Longrightarrow> cstr p = p"
  by (auto simp: cstr_def takeWhile_eq_all_conv)

lemma request_head_lines:
  assumes "rq_body_len rq < 2 ^ 64"
  shows "request_head rq path =
    [uhttp_str_method (rq_method rq) @ [32] @ path @ str '' HTTP/1.1'', header_text (cl_header (rq_body_len rq))]"
  using str_text [OF cl_header_ok(1) [OF assms]] by (simp add: request_head_def cl_header_def str_def)

lemma field_ok_size: "field_ok k v \<Longrightarrow> length (header_text (hdr k v)) \<le> 512"
  by (simp add: header_text_hdr field_ok_def MAX_HEADER_SIZE_def)

lemma headers_size: "\<forall>h \<in> set hs. header_ok h \<Longrightarrow> length (http_lines (map header_text hs)) \<le> 514 * length hs"
proof (induction hs)
  case (Cons h hs)
  obtain k v where "h = hdr k v" "field_ok k v" using Cons.prems by (auto simp: header_ok_def)
  then show ?case using Cons field_ok_size [of k v] by simp
qed simp

lemma build_request_bytes:
  assumes "request_ok rq path hs b"
  shows "\<exists>block n. uhttp_build_request junk (Some rq) True = Inr (0, Some (block, n)) \<and>
    take n block = http_message (request_head rq path @ map header_text hs) b"
proof -
  let ?m = "http_message (request_head rq path @ map header_text hs) b"
  have ok: "rq_path rq = Some path" "path_ok path" "headers_ok (rq_headers rq) (rq_header_count rq) hs"
    "body_ok (rq_body rq) (rq_body_len rq) b" "length b \<le> UHTTP_MAX_BODY_SIZE"
    using assms by (simp_all add: request_ok_def)
  have n: "rq_body_len rq = length b" using ok(4) by (simp add: body_ok_def)
  have small: "rq_body_len rq < 10 ^ 8" using ok(5) n by (simp add: UHTTP_MAX_BODY_SIZE_def)
  have d: "length (dec_nat (rq_body_len rq)) \<le> 8" by (rule length_dec_nat [OF small]) simp
  have h: "length (http_lines (map header_text hs)) \<le> 514 * 16"
  proof -
    have "length hs \<le> 16" "\<forall>h \<in> set hs. header_ok h" using ok(3) by (simp_all add: headers_ok_def)
    with headers_size [of hs] show ?thesis by linarith
  qed
  have p: "cstr path = path" "length path < 512"
    using ok(2) by (simp_all add: path_ok_def cstr_plain MAX_PATH_SIZE_def)
  have meth: "length (uhttp_str_method (rq_method rq)) \<le> 7"
    by (simp add: uhttp_str_method_def str_def split: uhttp_method.splits)
  define sz where "sz = request_headers_sz rq path hs"
  have total: "sz + rq_body_len rq = length ?m"
    by (simp add: sz_def request_headers_sz_def header_sizes http_message_def request_head_def str_def n)
  have bound: "sz + rq_body_len rq + 1 < 2 ^ 64"
    using d h p(2) meth small by (simp add: sz_def request_headers_sz_def header_sizes)
  then have add: "size_add sz (rq_body_len rq) = sz + rq_body_len rq"
    "size_add (sz + rq_body_len rq) 1 = sz + rq_body_len rq + 1"
    by (simp_all add: size_add_def)
  obtain buf1 block where b1: "snprintf_at (map junk [0..<sz + rq_body_len rq + 1]) 0 (sz + rq_body_len rq + 1)
      (http_lines (request_head rq path)) = Inr buf1"
    and b2: "bind_fault (put_headers (sz + rq_body_len rq) buf1 (length (http_lines (request_head rq path))) hs)
      (\<lambda>(buf, off). put_tail buf off (rq_body rq) (rq_body_len rq)) = Inr block"
    and b3: "take (sz + rq_body_len rq) block = ?m"
    using build_fits [OF ok(4) total bound, of "map junk [0..<sz + rq_body_len rq + 1]"] by auto
  obtain buf2 off where b4: "put_headers (sz + rq_body_len rq) buf1 (length (http_lines (request_head rq path))) hs = Inr (buf2, off)"
    "put_tail buf2 off (rq_body rq) (rq_body_len rq) = Inr block"
    using b2 by (auto simp: bind_fault_Inr_iff)
  have "uhttp_build_request junk (Some rq) True = Inr (0, Some (block, sz + rq_body_len rq))"
    using b1 b4 by (simp add: uhttp_build_request_def ok(1) p headers_ok_used [OF ok(3)] sz_def [symmetric] add Let_def
        del: upt_Suc http_lines_simps One_nat_def)
  then show ?thesis using b3 by blast
qed

lemma parse_built_request_line:
  assumes "path_ok path" and "m \<noteq> HTTP_METHOD_UNKNOWN"
  shows "parse_request_line (uhttp_str_method m @ [32] @ path @ str '' HTTP/1.1'') = Some (m, path)"
    "http_line (uhttp_str_method m @ [32] @ path @ str '' HTTP/1.1'')"
proof -
  have m: "32 \<notin> set (uhttp_str_method m)" "13 \<notin> set (uhttp_str_method m)" "parse_method (uhttp_str_method m) = m"
    using assms(2) by (cases m; simp add: uhttp_str_method_def str_def parse_method_def)+
  have f: "find_char 32 (uhttp_str_method m @ 32 # path @ 32 # r) = Some (length (uhttp_str_method m))"
    "find_char 32 (path @ 32 # r) = Some (length path)" for r
    using m(1) assms(1) by (simp_all add: find_char_at path_ok_def)
  show "parse_request_line (uhttp_str_method m @ [32] @ path @ str '' HTTP/1.1'') = Some (m, path)"
    using f m(3) assms(1) by (simp add: parse_request_line_def str_def path_ok_def)
  show "http_line (uhttp_str_method m @ [32] @ path @ str '' HTTP/1.1'')"
    using m(2) assms(1) by (auto simp: http_line_def path_ok_def str_def)
qed

text \<open>What arrives of a request: all headers but the last one, and so a body only if there is another header.\<close>

definition received_request :: "uhttp_request \<Rightarrow> bytes \<Rightarrow> uhttp_header list \<Rightarrow> bytes \<Rightarrow> uhttp_request" where
  "received_request rq path hs b =
     (let n = (if hs = [] then 0 else length b);
          hs' = (if hs = [] then [] else cl_header (length b) # butlast hs);
          has_body = (rq_method rq = HTTP_POST \<and> 0 < n) in
      \<lparr>rq_method = rq_method rq, rq_path = Some path, rq_headers = Some hs', rq_header_count = length hs',
       rq_body = if has_body then Some b else None, rq_body_len = if has_body then n else 0,
       rq_content_length = n\<rparr>)"

lemma request_received:
  assumes "request_ok rq path hs b"
  shows "uhttp_parse_request (Some (http_message (request_head rq path @ map header_text hs) b)) True =
    (UHTTP_PARSE_OK, Some (received_request rq path hs b))"
proof -
  let ?f = "uhttp_str_method (rq_method rq) @ [32] @ path @ str '' HTTP/1.1''"
  have ok: "path_ok path" "rq_method rq \<noteq> HTTP_METHOD_UNKNOWN" "headers_ok (rq_headers rq) (rq_header_count rq) hs"
    "rq_body_len rq = length b" "length b \<le> UHTTP_MAX_BODY_SIZE"
    using assms by (simp_all add: request_ok_def body_ok_def)
  then have "rq_body_len rq < 2 ^ 64" by (simp add: UHTTP_MAX_BODY_SIZE_def)
  then have head: "request_head rq path = [?f, header_text (cl_header (length b))]"
    and cl: "http_line (header_text (cl_header (length b)))"
    using request_head_lines [of rq path] cl_header_ok(1) [of "length b"] ok(4)
    by (simp_all add: header_text_line cl_header_def)
  have f: "parse_request_line ?f = Some (rq_method rq, path)" "http_line ?f"
    using parse_built_request_line [OF ok(1,2)] by blast+
  have hs: "\<forall>h \<in> set hs. header_ok h" "length hs \<le> 16" using ok(3) by (simp_all add: headers_ok_def)
  show ?thesis
  proof (cases hs rule: rev_cases)
    case Nil
    have "uhttp_parse_request (Some (http_message (?f # [] @ [header_text (cl_header (length b))]) b)) True = request_of ?f [] b"
      by (rule parse_request_message) (use f cl in simp_all)
    then show ?thesis
      using f(1) by (simp add: head Nil request_of_def parse_request_body_def received_request_def)
  next
    case (snoc hs' h)
    have "uhttp_parse_request (Some (http_message (?f # (header_text (cl_header (length b)) # map header_text hs') @ [header_text h]) b)) True =
        request_of ?f (header_text (cl_header (length b)) # map header_text hs') b"
      by (rule parse_request_message) (use f cl hs(1) snoc in \<open>auto intro: header_ok_line\<close>)
    moreover have "parse_all (header_text (cl_header (length b)) # map header_text hs') [] 0 =
        Some (cl_header (length b) # hs', length b)"
      using parse_cl_header [OF ok(5), of "[]" 0] parse_all_plain [of hs' "[cl_header (length b)]" "length b"] hs snoc
      by (simp add: MAX_HEADERS_def)
    ultimately show ?thesis
      using f(1) ok(5)
      by (simp add: head snoc request_of_def parse_request_body_def received_request_def Let_def)
  qed
qed

text \<open>
  A request that the library builds is written without a fault into its block, and parsed it is
  the same request but for its last header; without a header of its own it arrives without its body.
\<close>

theorem request_built_and_parsed:
  assumes "request_ok rq path hs b"
  shows "\<exists>block n. uhttp_build_request junk (Some rq) True = Inr (0, Some (block, n)) \<and>
    uhttp_parse_request (Some (take n block)) True = (UHTTP_PARSE_OK, Some (received_request rq path hs b))"
  using build_request_bytes [OF assms, of junk] request_received [OF assms] by auto

definition demo_request :: uhttp_request where
  "demo_request = \<lparr>rq_method = HTTP_POST, rq_path = Some (str ''/api''), rq_headers = None, rq_header_count = 0,
     rq_body = Some [1, 2, 3], rq_body_len = 3, rq_content_length = 0\<rparr>"

theorem request_built_and_parsed_witness:
  "\<exists>block n rq. uhttp_build_request (\<lambda>_. 170) (Some demo_request) True = Inr (0, Some (block, n)) \<and>
     uhttp_parse_request (Some (take n block)) True = (UHTTP_PARSE_OK, Some rq) \<and> rq_body rq = None"
proof -
  have "request_ok demo_request (str ''/api'') [] [1, 2, 3]"
    by (simp add: request_ok_def demo_request_def path_ok_def headers_ok_def body_ok_def str_def
        MAX_PATH_SIZE_def UHTTP_MAX_BODY_SIZE_def)
  from request_built_and_parsed [OF this, of "\<lambda>_. 170"] show ?thesis
    by (auto simp: received_request_def)
qed

subsection \<open>Responses\<close>

definition response_ok :: "uhttp_response \<Rightarrow> nat \<Rightarrow> bytes \<Rightarrow> uhttp_header list \<Rightarrow> bytes \<Rightarrow> bool" where
  "response_ok rs code text hs b \<longleftrightarrow>
     rs_status_code rs = int code \<and> 100 \<le> code \<and> code \<le> 999 \<and>
     rs_status_text rs = Some text \<and> text \<noteq> [] \<and> 0 \<notin> set text \<and> 13 \<notin> set text \<and> length text < 2 ^ 32 \<and>
     headers_ok (rs_headers rs) (rs_header_count rs) hs \<and>
     body_ok (rs_body rs) (rs_body_len rs) b \<and> length b \<le> UHTTP_MAX_BODY_SIZE"

definition ct_header :: "uhttp_content_type \<Rightarrow> uhttp_header" where
  "ct_header ct = hdr (str ''Content-Type'') (uhttp_str_content_type ct)"

definition close_header :: uhttp_header where
  "close_header = hdr (str ''Connection'') (str ''close'')"

lemma fixed_headers_ok:
  "field_ok (str ''Content-Type'') (uhttp_str_content_type ct)" "header_ok (ct_header ct)" "header_ok close_header"
proof -
  show f: "field_ok (str ''Content-Type'') (uhttp_str_content_type ct)"
    by (cases ct; simp add: field_ok_def uhttp_str_content_type_def str_def MAX_HEADER_SIZE_def)
  show "header_ok (ct_header ct)"
    using f unfolding header_ok_def ct_header_def
    by (intro exI conjI) (auto simp: is_content_length_def str_def)
  have "field_ok (str ''Connection'') (str ''close'')"
    by (simp add: field_ok_def str_def MAX_HEADER_SIZE_def)
  then show "header_ok close_header"
    unfolding header_ok_def close_header_def
    by (intro exI conjI) (auto simp: is_content_length_def str_def)
qed

definition status_line :: "nat \<Rightarrow> bytes \<Rightarrow> bytes" where
  "status_line code text = str ''HTTP/1.1'' @ [32] @ dec_nat code @ [32] @ text"

lemma response_head_lines:
  assumes "response_ok rs code text hs b"
  shows "response_head rs = status_line code text #
    map header_text [ct_header (rs_content_type rs), cl_header (length b), close_header]"
proof -
  have n: "rs_body_len rs = length b" "length b < 2 ^ 64"
    using assms by (simp_all add: response_ok_def body_ok_def UHTTP_MAX_BODY_SIZE_def)
  have c: "dec_int (rs_status_code rs) = dec_nat code" "status_text_of rs = text"
    using assms by (simp_all add: response_ok_def dec_int_def status_text_of_def cstr_plain)
  have "header_text close_header = str ''Connection: close''"
    by (simp add: close_header_def str_text [symmetric] field_ok_def str_def MAX_HEADER_SIZE_def)
  then show ?thesis
    using str_text [OF fixed_headers_ok(1) [of "rs_content_type rs"]] str_text [OF cl_header_ok(1) [OF n(2)]] n(1) c
    by (simp add: response_head_def ct_header_def cl_header_def status_line_def str_def)
qed

lemma parse_built_status_line:
  assumes "100 \<le> code" "code \<le> 999" "text \<noteq> []" "13 \<notin> set text"
  shows "parse_status_line (status_line code text) = Some (int code, Some text)" "http_line (status_line code text)"
proof -
  have v: "32 \<notin> set (str ''HTTP/1.1'')" "13 \<notin> set (str ''HTTP/1.1'')" by (simp_all add: str_def)
  have f: "find_char 32 (status_line code text) = Some (length (str ''HTTP/1.1''))"
    "find_char 32 (dec_nat code @ 32 # text) = Some (length (dec_nat code))"
    using v(1) dec_nat_clean [of 32 code] by (simp_all add: status_line_def find_char_at)
  have "cstr (dec_nat code) = dec_nat code" using dec_nat_clean [of 0 code] by (simp add: cstr_plain)
  then show "parse_status_line (status_line code text) = Some (int code, Some text)"
    using f length_dec_nat3 [OF assms(1,2)] assms(3)
    by (simp add: parse_status_line_def atoi_dec Let_def) (simp add: status_line_def atoi_dec)
  show "http_line (status_line code text)"
    using v(2) assms(4) dec_nat_clean [of 13 code] by (simp add: http_line_def status_line_def)
qed

lemma build_response_bytes:
  assumes "response_ok rs code text hs b"
  shows "\<exists>block n. uhttp_build_response junk (Some rs) True = Inr (0, Some (block, n)) \<and>
    take n block = http_message (response_head rs @ map header_text hs) b"
proof -
  let ?m = "http_message (response_head rs @ map header_text hs) b"
  have ok: "headers_ok (rs_headers rs) (rs_header_count rs) hs" "body_ok (rs_body rs) (rs_body_len rs) b"
    "length b \<le> UHTTP_MAX_BODY_SIZE" "length text < 2 ^ 32" "status_text_of rs = text"
    using assms by (simp_all add: response_ok_def status_text_of_def cstr_plain)
  have n: "rs_body_len rs = length b" using ok(2) by (simp add: body_ok_def)
  have small: "rs_body_len rs < 10 ^ 8" using ok(3) n by (simp add: UHTTP_MAX_BODY_SIZE_def)
  have d: "length (dec_nat (rs_body_len rs)) \<le> 8" by (rule length_dec_nat [OF small]) simp
  have h: "length (http_lines (map header_text hs)) \<le> 514 * 16"
  proof -
    have "length hs \<le> 16" "\<forall>h \<in> set hs. header_ok h" using ok(1) by (simp_all add: headers_ok_def)
    with headers_size [of hs] show ?thesis by linarith
  qed
  have code: "length (dec_int (rs_status_code rs)) = 3"
    using assms length_dec_nat3 [of code] by (simp add: response_ok_def dec_int_def)
  have ct: "length (uhttp_str_content_type (rs_content_type rs)) \<le> 24"
    by (simp add: uhttp_str_content_type_def str_def split: uhttp_content_type.splits)
  define sz where "sz = response_headers_sz rs hs"
  have total: "sz + rs_body_len rs = length ?m"
    using code by (simp add: sz_def response_headers_sz_def header_sizes http_message_def response_head_def str_def n)
  have bound: "sz + rs_body_len rs + 1 < 2 ^ 64"
    using d h ct small ok(4,5) by (simp add: sz_def response_headers_sz_def header_sizes)
  then have add: "size_add sz (rs_body_len rs) = sz + rs_body_len rs"
    "size_add (sz + rs_body_len rs) 1 = sz + rs_body_len rs + 1"
    by (simp_all add: size_add_def)
  have written: "\<not> sz < length (http_lines (response_head rs))"
    using total n by (simp add: http_message_def)
  obtain buf1 block where b1: "snprintf_at (map junk [0..<sz + rs_body_len rs + 1]) 0 (sz + rs_body_len rs + 1)
      (http_lines (response_head rs)) = Inr buf1"
    and b2: "bind_fault (put_headers (sz + rs_body_len rs) buf1 (length (http_lines (response_head rs))) hs)
      (\<lambda>(buf, off). put_tail buf off (rs_body rs) (rs_body_len rs)) = Inr block"
    and b3: "take (sz + rs_body_len rs) block = ?m"
    using build_fits [OF ok(2) total bound, of "map junk [0..<sz + rs_body_len rs + 1]"] by auto
  obtain buf2 off where b4: "put_headers (sz + rs_body_len rs) buf1 (length (http_lines (response_head rs))) hs = Inr (buf2, off)"
    "put_tail buf2 off (rs_body rs) (rs_body_len rs) = Inr block"
    using b2 by (auto simp: bind_fault_Inr_iff)
  have "uhttp_build_response junk (Some rs) True = Inr (0, Some (block, sz + rs_body_len rs))"
    using b1 b4 written by (simp add: uhttp_build_response_def headers_ok_used [OF ok(1)] sz_def [symmetric] add Let_def
        del: upt_Suc http_lines_simps One_nat_def)
  then show ?thesis using b3 by blast
qed

text \<open>The headers of a response on the wire.\<close>

definition response_headers :: "uhttp_response \<Rightarrow> uhttp_header list \<Rightarrow> bytes \<Rightarrow> uhttp_header list" where
  "response_headers rs hs b = [ct_header (rs_content_type rs), cl_header (length b), close_header] @ hs"

lemma response_through:
  assumes "response_ok rs code text hs b"
  shows "\<exists>block n. uhttp_build_response junk (Some rs) True = Inr (0, Some (block, n)) \<and>
    uhttp_parse_response (Some (take n block)) True =
      (UHTTP_PARSE_OK, Some \<lparr>rs_status_code = int code, rs_status_text = Some text,
         rs_headers = Some (butlast (response_headers rs hs b)), rs_header_count = length hs + 2,
         rs_body = (if b = [] then None else Some b), rs_body_len = length b, rs_content_type = HTTP_OCTET_STREAM\<rparr>)"
proof -
  let ?ct = "ct_header (rs_content_type rs)" and ?cl = "cl_header (length b)"
  have ok: "100 \<le> code" "code \<le> 999" "text \<noteq> []" "13 \<notin> set text" "length b \<le> UHTTP_MAX_BODY_SIZE"
    "headers_ok (rs_headers rs) (rs_header_count rs) hs"
    using assms by (simp_all add: response_ok_def)
  then have hs: "\<forall>h \<in> set (close_header # hs). header_ok h" "length hs \<le> 16"
    using fixed_headers_ok(3) by (simp_all add: headers_ok_def)
  define rest where "rest = butlast (close_header # hs)"
  define l where "l = last (close_header # hs)"
  have r: "close_header # hs = rest @ [l]" by (simp add: rest_def l_def)
  then have rok: "\<forall>h \<in> set rest. header_ok h" "header_ok l" "length rest \<le> 16"
    using hs by (auto dest: arg_cong [of _ _ length])
  have n64: "length b < 2 ^ 64" using ok(5) by (simp add: UHTTP_MAX_BODY_SIZE_def)
  have bytes: "http_message (response_head rs @ map header_text hs) b =
      http_message (status_line code text # map header_text (?ct # ?cl # rest) @ [header_text l]) b"
  proof -
    have "response_head rs @ map header_text hs =
        status_line code text # map header_text (?ct # ?cl # (close_header # hs))"
      using response_head_lines [OF assms] by simp
    also have "\<dots> = status_line code text # map header_text (?ct # ?cl # rest) @ [header_text l]"
      unfolding r by simp
    finally show ?thesis by (rule arg_cong)
  qed
  have "uhttp_parse_response (Some (http_message (status_line code text # map header_text (?ct # ?cl # rest) @ [header_text l]) b)) True =
      response_of (status_line code text) (map header_text (?ct # ?cl # rest)) b"
    by (rule parse_response_message)
      (use parse_built_status_line(2) [OF ok(1-4)] rok fixed_headers_ok(2) cl_header_ok(1) [OF n64] in
        \<open>auto intro: header_ok_line simp: cl_header_def header_text_line\<close>)
  moreover have "parse_all (map header_text (?ct # ?cl # rest)) [] 0 = Some (?ct # ?cl # rest, length b)"
    using parse_all_plain [of "[?ct]" "[]" 0] fixed_headers_ok(2) [of "rs_content_type rs"]
      parse_cl_header [OF ok(5), of "[?ct]" 0] parse_all_plain [of rest "[?ct, ?cl]" "length b"] rok
      parse_all_append [of "[header_text ?ct]" "map header_text (?cl # rest)" "[]" 0]
    by (simp add: MAX_HEADERS_def)
  moreover have "butlast (response_headers rs hs b) = ?ct # ?cl # rest" "length (?ct # ?cl # rest) = length hs + 2"
    by (simp_all add: response_headers_def rest_def)
  ultimately have "uhttp_parse_response (Some (http_message (response_head rs @ map header_text hs) b)) True =
      (UHTTP_PARSE_OK, Some \<lparr>rs_status_code = int code, rs_status_text = Some text,
         rs_headers = Some (butlast (response_headers rs hs b)), rs_header_count = length hs + 2,
         rs_body = (if b = [] then None else Some b), rs_body_len = length b, rs_content_type = HTTP_OCTET_STREAM\<rparr>)"
    using parse_built_status_line(1) [OF ok(1-4)] ok(5)
    by (simp add: bytes response_of_def parse_response_body_def Let_def del: list.map)
  then show ?thesis using build_response_bytes [OF assms, of junk] by auto
qed

text \<open>
  A response that the library builds is written without a fault into its block, and parsed it has
  the same status, text and body, and all headers but the last one.
\<close>

theorem response_built_and_parsed:
  assumes "response_ok rs code text hs b"
  shows "\<exists>block n. uhttp_build_response junk (Some rs) True = Inr (0, Some (block, n)) \<and>
    uhttp_parse_response (Some (take n block)) True =
      (UHTTP_PARSE_OK, Some \<lparr>rs_status_code = int code, rs_status_text = Some text,
         rs_headers = Some (butlast (response_headers rs hs b)), rs_header_count = length hs + 2,
         rs_body = (if b = [] then None else Some b), rs_body_len = length b, rs_content_type = HTTP_OCTET_STREAM\<rparr>)"
  using assms by (rule response_through)

definition demo_response :: "int \<Rightarrow> uhttp_response" where
  "demo_response code = \<lparr>rs_status_code = code, rs_status_text = Some (str ''OK''), rs_headers = None,
     rs_header_count = 0, rs_body = Some [1, 2, 3], rs_body_len = 3, rs_content_type = HTTP_APPLICATION_JSON\<rparr>"

theorem response_built_and_parsed_witness:
  "\<exists>block n rs. uhttp_build_response (\<lambda>_. 170) (Some (demo_response 200)) True = Inr (0, Some (block, n)) \<and>
     uhttp_parse_response (Some (take n block)) True = (UHTTP_PARSE_OK, Some rs) \<and> rs_body rs = Some [1, 2, 3]"
proof -
  have "response_ok (demo_response 200) 200 (str ''OK'') [] [1, 2, 3]"
    by (simp add: response_ok_def demo_response_def headers_ok_def body_ok_def str_def UHTTP_MAX_BODY_SIZE_def)
  from response_built_and_parsed [OF this, of "\<lambda>_. 170"] show ?thesis by auto
qed

text \<open>
  The block has room for a status code of three digits and one byte: a code of five digits is
  written past its end.
\<close>

lemma build_response_overflow:
  assumes "length (dec_int (rs_status_code rs)) = 5" and "rs_header_count rs = 0"
    and "rs_body_len rs = 0" and "length (status_text_of rs) < 2 ^ 32"
  shows "uhttp_build_response junk (Some rs) True = Inl OutOfBounds"
proof -
  define sz where "sz = response_headers_sz rs []"
  have len: "length (http_lines (response_head rs)) = sz"
    using assms(1) by (simp add: sz_def response_headers_sz_def response_head_def str_def)
  have "length (uhttp_str_content_type (rs_content_type rs)) \<le> 24"
    by (simp add: uhttp_str_content_type_def str_def split: uhttp_content_type.splits)
  then have "sz + 1 < 2 ^ 64"
    using assms(3,4) by (simp add: sz_def response_headers_sz_def dec_nat.simps)
  then have add: "size_add sz 0 = sz" "size_add sz 1 = sz + 1" by (simp_all add: size_add_def)
  have p: "snprintf_at (map junk [0..<sz + 1]) 0 (sz + 1) (http_lines (response_head rs)) =
      Inr (http_lines (response_head rs) @ [0])"
    using snprintf_fits [of "http_lines (response_head rs)" "map junk [0..<sz + 1]" "[]"] len
    by (simp del: upt_Suc)
  have "put_tail (http_lines (response_head rs) @ [0]) sz (rs_body rs) 0 = Inl OutOfBounds"
    using len by (simp add: put_tail_def write_at_def)
  then show ?thesis
    using p len assms(2,3)
    by (simp add: uhttp_build_response_def headers_used_def sz_def [symmetric] add Let_def
        del: upt_Suc http_lines_simps One_nat_def)
qed

end
