(* ===== verification/Uhttp_Server.thy ===== *)
theory Uhttp_Server
  imports Uhttp_Api Prot_Queue Events
begin

text \<open>
  \<open>uhttp/src/server.c\<close>: the HTTP server. An accepting thread queues the sockets of new clients,
  a running thread reads requests and writes responses, and the thread that polls the routes
  answers the queued requests. A client is its socket descriptor and what has been read from
  it; the routes call functions on a shared context. What a wait and a read give is the
  argument \<open>tape\<close>; the queues are those of \<open>Prot_Queue\<close>, whose fresh slots hold \<open>z\<close>.

  The lemmas: every queued request is answered once, in order, by the first route of its path
  or with 404; a request of one read gets its response through the whole server; a request
  that arrives in two pieces is never read to its end, and one silent client stops the server.
\<close>

record uhttp_high_response =
  hp_nfd :: int
  hp_resp :: uhttp_response

record uhttp_high_request =
  hq_nfd :: int
  hq_req :: uhttp_request

record 'c uhttp_route =
  ur_path :: bytes
  ur_handler :: "uhttp_high_request \<Rightarrow> 'c \<Rightarrow> uhttp_response \<times> 'c"

record 'c uhttp_serv =
  sv_running :: bool
  sv_sock_open :: bool
  sv_clis :: "int prot_queue"
  sv_ev :: mt_eventsock
  sv_request_ev :: mt_eventsock
  sv_requests :: "uhttp_high_request prot_queue"
  sv_responses :: "uhttp_high_response prot_queue"
  sv_response_ev :: mt_eventsock
  sv_routes :: "'c uhttp_route list"
  sv_ctx :: 'c

record uhttp_cli_state =
  cl_sock :: int
  cl_read :: "bytes option"
  cl_done :: bool

text \<open>A read gives bytes (none at the end of the stream), would block, or fails.\<close>

datatype read_result = Read bytes | Read_Again | Read_Failed

subsection \<open>Clients\<close>

definition read_size :: "uhttp_cli_state \<Rightarrow> nat" where
  "read_size st = (case cl_read st of None \<Rightarrow> 0 | Some bs \<Rightarrow> length bs)"

text \<open>The part of \<open>handler\<close> behind the label \<open>read_processor\<close>, once reading is done.\<close>

definition read_processor ::
  "uhttp_high_request \<Rightarrow> uhttp_cli_state \<Rightarrow> 'c uhttp_serv \<Rightarrow> fault + bool \<times> uhttp_cli_state \<times> 'c uhttp_serv" where
  "read_processor z st sv =
     (case uhttp_parse_request (cl_read st) True of
        (r, rq) \<Rightarrow>
          if r \<noteq> UHTTP_PARSE_OK then Inr (False, st, sv)
          else
            bind_fault (prot_queue_push z (sv_requests sv) \<lparr>hq_nfd = cl_sock st, hq_req = the rq\<rparr>) (\<lambda>(_, q).
            Inr (False, st\<lparr>cl_done := False, cl_read := None\<rparr>,
                 sv\<lparr>sv_requests := q, sv_request_ev := mt_evsock_notify (sv_request_ev sv)\<rparr>)))"

text \<open>
  \<open>handler\<close>: the result tells whether the client is to be removed. A failed read of \<open>-1\<close> bytes
  asks for a block one byte smaller and copies \<open>SIZE_MAX\<close> bytes into it.
\<close>

definition uhttp_handler ::
  "uhttp_high_request \<Rightarrow> read_result \<Rightarrow> uhttp_cli_state \<Rightarrow> 'c uhttp_serv \<Rightarrow>
   fault + bool \<times> uhttp_cli_state \<times> 'c uhttp_serv" where
  "uhttp_handler z rd st sv =
     (if cl_done st then read_processor z st sv
      else
        case rd of
          Read_Again \<Rightarrow> Inr (False, st, sv)
        | Read_Failed \<Rightarrow> (if read_size st \<le> 1 then Inr (True, st, sv) else Inl OutOfBounds)
        | Read bs \<Rightarrow>
            if bs = [] then Inr (True, st, sv)
            else
              let st = st\<lparr>cl_read := Some ((case cl_read st of None \<Rightarrow> [] | Some old \<Rightarrow> old) @ bs)\<rparr> in
              if length bs < 2048 then read_processor z (st\<lparr>cl_done := True\<rparr>) sv
              else Inr (False, st, sv))"

text \<open>
  The loop of \<open>runner\<close> over the clients. Each pass asks for input of the client at \<open>i\<close>; the
  tape holds the answers, \<open>None\<close> for no input. At the end of the tape the loop is still
  running, the result \<open>None\<close>.
\<close>

fun clients_loop ::
  "uhttp_high_request \<Rightarrow> 'c uhttp_serv \<Rightarrow> uhttp_cli_state list \<Rightarrow> nat \<Rightarrow> read_result option list \<Rightarrow>
   (fault + 'c uhttp_serv \<times> uhttp_cli_state list) option" where
  "clients_loop z sv clients i [] =
     (if length clients \<le> i then Some (Inr (sv, clients)) else None)"
| "clients_loop z sv clients i (ready # tape) =
     (if length clients \<le> i then Some (Inr (sv, clients))
      else
        case ready of
          None \<Rightarrow> clients_loop z sv clients i tape
        | Some rd \<Rightarrow>
            (case uhttp_handler z rd (clients ! i) sv of
               Inl f \<Rightarrow> Some (Inl f)
             | Inr (gone, st, sv) \<Rightarrow>
                 if gone then clients_loop z sv (take i clients @ drop (Suc i) clients) i tape
                 else clients_loop z sv (clients[i := st]) (Suc i) tape))"

text \<open>New clients.\<close>

partial_function (option) accept_loop ::
  "int prot_queue \<Rightarrow> uhttp_cli_state list \<Rightarrow> (fault + int prot_queue \<times> uhttp_cli_state list) option" where
  "accept_loop q clients =
     (case prot_queue_pop q of
        Inl f \<Rightarrow> Some (Inl f)
      | Inr (None, q) \<Rightarrow> Some (Inr (q, clients))
      | Inr (Some sock, q) \<Rightarrow>
          accept_loop q (clients @ [\<lparr>cl_sock = sock, cl_read = None, cl_done = False\<rparr>]))"

text \<open>
  The queued responses, to what is handed to \<open>ln_tsock_writex\<close>. A response that cannot be
  built leaves a null pointer, for which nothing is written.
\<close>

definition send_one :: "(nat \<Rightarrow> u8) \<Rightarrow> uhttp_high_response \<Rightarrow> fault + (int \<times> bytes) list" where
  "send_one junk resp =
     bind_fault (uhttp_build_response junk (Some (hp_resp resp)) True) (\<lambda>(_, out).
       case out of None \<Rightarrow> Inr [] | Some (block, sz) \<Rightarrow> Inr [(hp_nfd resp, take sz block)])"

partial_function (option) send_loop ::
  "(nat \<Rightarrow> u8) \<Rightarrow> uhttp_high_response prot_queue \<Rightarrow> (int \<times> bytes) list \<Rightarrow>
   (fault + uhttp_high_response prot_queue \<times> (int \<times> bytes) list) option" where
  "send_loop junk q out =
     (case prot_queue_pop q of
        Inl f \<Rightarrow> Some (Inl f)
      | Inr (None, q) \<Rightarrow> Some (Inr (q, out))
      | Inr (Some resp, q) \<Rightarrow>
          (case send_one junk resp of
             Inl f \<Rightarrow> Some (Inl f)
           | Inr o1 \<Rightarrow> send_loop junk q (out @ o1)))"

text \<open>
  One iteration of \<open>runner\<close>; the first component of the result is false when the loop is left,
  the last are the bytes written.
\<close>

definition runner_iter ::
  "(nat \<Rightarrow> u8) \<Rightarrow> uhttp_high_request \<Rightarrow> read_result option list \<Rightarrow> 'c uhttp_serv \<Rightarrow> uhttp_cli_state list \<Rightarrow>
   (fault + bool \<times> 'c uhttp_serv \<times> uhttp_cli_state list \<times> (int \<times> bytes) list) option" where
  "runner_iter junk z tape sv clients =
     (let (r, ev) = mt_evsock_wait (sv_ev sv) in
      case (if 0 < r then accept_loop (sv_clis sv) clients else Some (Inr (sv_clis sv, clients))) of
        None \<Rightarrow> None
      | Some (Inl f) \<Rightarrow> Some (Inl f)
      | Some (Inr (q, clients)) \<Rightarrow>
          let sv = sv\<lparr>sv_clis := q, sv_ev := (if 0 < r then mt_evsock_drain ev else ev)\<rparr> in
          if r < 0 then Some (Inr (False, sv\<lparr>sv_running := False\<rparr>, clients, []))
          else
            let (r, ev) = mt_evsock_wait (sv_response_ev sv) in
            (case (if 0 < r then send_loop junk (sv_responses sv) [] else Some (Inr (sv_responses sv, []))) of
               None \<Rightarrow> None
             | Some (Inl f) \<Rightarrow> Some (Inl f)
             | Some (Inr (q, out)) \<Rightarrow>
                 let sv = sv\<lparr>sv_responses := q, sv_response_ev := ev\<rparr> in
                 (case clients_loop z sv clients 0 tape of
                    None \<Rightarrow> None
                  | Some (Inl f) \<Rightarrow> Some (Inl f)
                  | Some (Inr (sv, clients)) \<Rightarrow> Some (Inr (True, sv, clients, out)))))"

text \<open>One iteration of \<open>accepter\<close>: the accepted socket, or \<open>None\<close> when there was none.\<close>

definition accepter_iter :: "int \<Rightarrow> int option \<Rightarrow> 'c uhttp_serv \<Rightarrow> fault + 'c uhttp_serv" where
  "accepter_iter z cli sv =
     (case cli of
        None \<Rightarrow> Inr sv
      | Some fd \<Rightarrow>
          bind_fault (prot_queue_push z (sv_clis sv) fd) (\<lambda>(_, q).
          Inr (sv\<lparr>sv_clis := q, sv_ev := mt_evsock_notify (sv_ev sv)\<rparr>)))"

subsection \<open>The server\<close>

definition uhttp_server_create ::
  "int \<Rightarrow> uhttp_high_request \<Rightarrow> uhttp_high_response \<Rightarrow> 'c \<Rightarrow> int \<times> 'c uhttp_serv" where
  "uhttp_server_create zc zq zp ctx =
     (let (_, clis) = prot_queue_create True zc 208; (_, reqs) = prot_queue_create True zq 200;
          (_, resps) = prot_queue_create True zp 200; (_, ev) = mt_evsock_new;
          (_, pev) = mt_evsock_new; (_, qev) = mt_evsock_new in
      (0, \<lparr>sv_running = False, sv_sock_open = True, sv_clis = clis, sv_ev = ev, sv_request_ev = qev,
           sv_requests = reqs, sv_responses = resps, sv_response_ev = pev, sv_routes = [], sv_ctx = ctx\<rparr>))"

text \<open>\<open>r1\<close> and \<open>r2\<close> are the results of the two thread starts.\<close>

definition uhttp_server_run :: "int \<Rightarrow> int \<Rightarrow> 'c uhttp_serv \<Rightarrow> int \<times> 'c uhttp_serv" where
  "uhttp_server_run r1 r2 sv =
     (if r1 < 0 then (-1, sv\<lparr>sv_running := False\<rparr>)
      else if r2 < 0 then (-1, sv\<lparr>sv_running := False\<rparr>)
      else (0, sv\<lparr>sv_running := True\<rparr>))"

text \<open>
  After the threads have ended. Both loops empty the queue of requests: the responses that
  are left are not freed.
\<close>

partial_function (option) drop_loop :: "'a prot_queue \<Rightarrow> (fault + 'a prot_queue) option" where
  "drop_loop q =
     (case prot_queue_pop q of
        Inl f \<Rightarrow> Some (Inl f)
      | Inr (None, q) \<Rightarrow> Some (Inr q)
      | Inr (Some _, q) \<Rightarrow> drop_loop q)"

definition uhttp_server_end :: "'c uhttp_serv \<Rightarrow> (fault + int \<times> 'c uhttp_serv) option" where
  "uhttp_server_end sv =
     (case drop_loop (sv_requests sv) of
        None \<Rightarrow> None
      | Some (Inl f) \<Rightarrow> Some (Inl f)
      | Some (Inr q) \<Rightarrow>
          (case drop_loop q of
             None \<Rightarrow> None
           | Some (Inl f) \<Rightarrow> Some (Inl f)
           | Some (Inr q) \<Rightarrow>
               Some (Inr (0, sv\<lparr>sv_requests := prot_queue_end q, sv_responses := prot_queue_end (sv_responses sv),
                              sv_clis := prot_queue_end (sv_clis sv), sv_sock_open := False,
                              sv_ev := mt_evsock_close (sv_ev sv), sv_routes := []\<rparr>))))"

definition uhttp_server_stop :: "'c uhttp_serv \<Rightarrow> int \<times> 'c uhttp_serv" where
  "uhttp_server_stop sv = (0, sv\<lparr>sv_running := False\<rparr>)"

definition uhttp_server_isrunning :: "'c uhttp_serv \<Rightarrow> bool" where
  "uhttp_server_isrunning sv = sv_running sv"

definition uhttp_wait_requests :: "'c uhttp_serv \<Rightarrow> int \<times> 'c uhttp_serv" where
  "uhttp_wait_requests sv =
     (let (r, ev) = mt_evsock_wait (sv_request_ev sv) in
      (r, sv\<lparr>sv_request_ev := (if r < 0 then mt_evsock_drain ev else ev)\<rparr>))"

definition uhttp_request_iterate :: "'c uhttp_serv \<Rightarrow> fault + uhttp_high_request option \<times> 'c uhttp_serv" where
  "uhttp_request_iterate sv =
     bind_fault (prot_queue_pop (sv_requests sv)) (\<lambda>(rq, q). Inr (rq, sv\<lparr>sv_requests := q\<rparr>))"

definition uhttp_send_response ::
  "uhttp_high_response \<Rightarrow> 'c uhttp_serv \<Rightarrow> uhttp_response \<Rightarrow> uhttp_high_request \<Rightarrow>
   fault + int \<times> 'c uhttp_serv \<times> uhttp_high_request" where
  "uhttp_send_response z sv resp answer_to =
     bind_fault (prot_queue_push z (sv_responses sv) \<lparr>hp_nfd = hq_nfd answer_to, hp_resp = resp\<rparr>) (\<lambda>(_, q).
     Inr (0, sv\<lparr>sv_responses := q, sv_response_ev := mt_evsock_notify (sv_response_ev sv)\<rparr>,
          answer_to\<lparr>hq_req := uhttp_free_request (hq_req answer_to)\<rparr>))"

text \<open>The path is copied into an array of 512 bytes.\<close>

definition uhttp_set_route ::
  "'c uhttp_serv \<Rightarrow> bytes \<Rightarrow> (uhttp_high_request \<Rightarrow> 'c \<Rightarrow> uhttp_response \<times> 'c) option \<Rightarrow> fault + int \<times> 'c uhttp_serv" where
  "uhttp_set_route sv path hnd =
     (case hnd of
        None \<Rightarrow> Inr (-1, sv)
      | Some h \<Rightarrow>
          if length path = 0 then Inr (-1, sv)
          else if 512 \<le> length path then Inl OutOfBounds
          else Inr (0, sv\<lparr>sv_routes := sv_routes sv @ [\<lparr>ur_path = path, ur_handler = h\<rparr>]\<rparr>))"

text \<open>The first route of a path.\<close>

fun find_route :: "'c uhttp_route list \<Rightarrow> bytes \<Rightarrow> 'c uhttp_route option" where
  "find_route [] path = None"
| "find_route (r # rs) path = (if path = ur_path r then Some r else find_route rs path)"

text \<open>What is done with one request: the response, and the context after it.\<close>

definition route_request :: "'c uhttp_serv \<Rightarrow> uhttp_high_request \<Rightarrow> fault + uhttp_response \<times> 'c uhttp_serv" where
  "route_request sv req =
     bind_fault (uhttp_get_clear_route (hq_req req)) (\<lambda>path.
       case find_route (sv_routes sv) path of
         None \<Rightarrow>
           bind_fault (uhttp_create_responseq 404 (Some (str ''Path is not found'')) None 0 HTTP_TEXT_PLAIN)
             (\<lambda>resp. Inr (resp, sv))
       | Some r \<Rightarrow> (case ur_handler r req (sv_ctx sv) of (resp, c) \<Rightarrow> Inr (resp, sv\<lparr>sv_ctx := c\<rparr>)))"

partial_function (option) poll_loop ::
  "uhttp_high_response \<Rightarrow> 'c uhttp_serv \<Rightarrow> (fault + 'c uhttp_serv) option" where
  "poll_loop z sv =
     (case uhttp_request_iterate sv of
        Inl f \<Rightarrow> Some (Inl f)
      | Inr (None, sv) \<Rightarrow> Some (Inr sv)
      | Inr (Some req, sv) \<Rightarrow>
          (case route_request sv req of
             Inl f \<Rightarrow> Some (Inl f)
           | Inr (resp, sv) \<Rightarrow>
               (case uhttp_send_response z sv resp req of
                  Inl f \<Rightarrow> Some (Inl f)
                | Inr (_, sv, _) \<Rightarrow> poll_loop z sv)))"

text \<open>One iteration of \<open>uhttp_server_poll_routes\<close>; the flag is false when the loop is left.\<close>

definition poll_iter ::
  "uhttp_high_response \<Rightarrow> 'c uhttp_serv \<Rightarrow> (fault + bool \<times> 'c uhttp_serv) option" where
  "poll_iter z sv =
     (let (r, sv) = uhttp_wait_requests sv in
      if r = 0 then Some (Inr (True, sv))
      else if r < 0 then Some (Inr (False, snd (uhttp_server_stop sv)))
      else
        case poll_loop z sv of
          None \<Rightarrow> None
        | Some (Inl f) \<Rightarrow> Some (Inl f)
        | Some (Inr sv) \<Rightarrow> Some (Inr (True, sv)))"

subsection \<open>Answering requests\<close>

definition route_of :: "uhttp_high_request \<Rightarrow> bytes" where
  "route_of req = takeWhile (\<lambda>b. b \<noteq> 63) (cstr (the (rq_path (hq_req req))))"

definition answer :: "'c uhttp_route list \<Rightarrow> uhttp_high_request \<Rightarrow> 'c \<Rightarrow> uhttp_response \<times> 'c" where
  "answer routes req c =
     (case find_route routes (route_of req) of
        None \<Rightarrow> (\<lparr>rs_status_code = 404, rs_status_text = Some (str ''Path is not found''), rs_headers = None,
                 rs_header_count = 0, rs_body = None, rs_body_len = 0, rs_content_type = HTTP_TEXT_PLAIN\<rparr>, c)
      | Some r \<Rightarrow> ur_handler r req c)"

fun answers :: "'c uhttp_route list \<Rightarrow> uhttp_high_request list \<Rightarrow> 'c \<Rightarrow> uhttp_high_response list \<times> 'c" where
  "answers routes [] c = ([], c)"
| "answers routes (req # reqs) c =
     (let (resp, c) = answer routes req c; (rs, c) = answers routes reqs c in
      (\<lparr>hp_nfd = hq_nfd req, hp_resp = resp\<rparr> # rs, c))"

lemma find_char_takeWhile:
  "(case find_char c bs of None \<Rightarrow> bs | Some i \<Rightarrow> take i bs) = takeWhile (\<lambda>b. b \<noteq> c) bs"
  by (induction bs) (auto split: option.splits)

lemma clear_route_of:
  "rq_path (hq_req req) \<noteq> None \<Longrightarrow> uhttp_get_clear_route (hq_req req) = Inr (route_of req)"
  using find_char_takeWhile [of "cstr (the (rq_path (hq_req req)))" 63]
  by (auto simp: uhttp_get_clear_route_def route_of_def split: option.splits)

lemma route_request_answer:
  assumes "rq_path (hq_req req) \<noteq> None"
  shows "route_request sv req =
    Inr (fst (answer (sv_routes sv) req (sv_ctx sv)), sv\<lparr>sv_ctx := snd (answer (sv_routes sv) req (sv_ctx sv))\<rparr>)"
  by (simp add: route_request_def clear_route_of [OF assms] answer_def uhttp_create_responseq_def
      uhttp_create_response_def split: option.split prod.split)

definition queues_ok :: "'c uhttp_serv \<Rightarrow> bool" where
  "queues_ok sv \<longleftrightarrow> pq_wf (sv_clis sv) \<and> pq_wf (sv_requests sv) \<and> pq_wf (sv_responses sv)"

text \<open>What the polling thread leaves alone.\<close>

definition poll_rest :: "'c uhttp_serv \<Rightarrow> 'c uhttp_serv \<Rightarrow> bool" where
  "poll_rest sv sv' \<longleftrightarrow> sv_running sv' = sv_running sv \<and> sv_clis sv' = sv_clis sv \<and> sv_ev sv' = sv_ev sv \<and> sv_routes sv' = sv_routes sv \<and>
     ev_open (sv_request_ev sv') = ev_open (sv_request_ev sv) \<and> ev_open (sv_response_ev sv') = ev_open (sv_response_ev sv)"

lemma poll_step:
  assumes "queues_ok sv" and "ring (sv_requests sv) = req # reqs" and "rq_path (hq_req req) \<noteq> None"
  shows "\<exists>sv'. poll_loop z sv = poll_loop z sv' \<and> queues_ok sv' \<and> ring (sv_requests sv') = reqs \<and>
    ring (sv_responses sv') = ring (sv_responses sv) @
      [\<lparr>hp_nfd = hq_nfd req, hp_resp = fst (answer (sv_routes sv) req (sv_ctx sv))\<rparr>] \<and>
    sv_ctx sv' = snd (answer (sv_routes sv) req (sv_ctx sv)) \<and> sv_routes sv' = sv_routes sv \<and> poll_rest sv sv'"
proof -
  obtain q where q: "prot_queue_pop (sv_requests sv) = Inr (Some req, q)" "pq_wf q" "ring q = reqs"
    using prot_queue_pop_ok(2) [of "sv_requests sv"] assms(1,2) by (auto simp: queues_ok_def)
  let ?a = "answer (sv_routes sv) req (sv_ctx sv)"
  obtain p where p: "prot_queue_push z (sv_responses sv) \<lparr>hp_nfd = hq_nfd req, hp_resp = fst ?a\<rparr> = Inr (0, p)"
    "pq_wf p" "ring p = ring (sv_responses sv) @ [\<lparr>hp_nfd = hq_nfd req, hp_resp = fst ?a\<rparr>]"
    using prot_queue_push_ok [of "sv_responses sv"] assms(1) by (auto simp: queues_ok_def)
  let ?sv = "sv\<lparr>sv_requests := q, sv_ctx := snd ?a, sv_responses := p,
    sv_response_ev := mt_evsock_notify (sv_response_ev sv)\<rparr>"
  have "poll_loop z sv = poll_loop z ?sv"
    by (subst poll_loop.simps)
      (simp add: uhttp_request_iterate_def q(1) route_request_answer [OF assms(3)] uhttp_send_response_def p(1))
  then show ?thesis
    using q p assms(1) by (intro exI [of _ ?sv]) (simp add: queues_ok_def poll_rest_def mt_evsock_notify_def)
qed

lemma poll_loop_answers:
  assumes "queues_ok sv" and "\<forall>req \<in> set (ring (sv_requests sv)). rq_path (hq_req req) \<noteq> None"
  shows "\<exists>sv'. poll_loop z sv = Some (Inr sv') \<and> queues_ok sv' \<and> ring (sv_requests sv') = [] \<and>
    ring (sv_responses sv') = ring (sv_responses sv) @
      fst (answers (sv_routes sv) (ring (sv_requests sv)) (sv_ctx sv)) \<and>
    sv_ctx sv' = snd (answers (sv_routes sv) (ring (sv_requests sv)) (sv_ctx sv))"
  using assms
proof (induction "ring (sv_requests sv)" arbitrary: sv)
  case Nil
  then have "prot_queue_pop (sv_requests sv) = Inr (None, sv_requests sv)"
    using prot_queue_pop_ok(1) [of "sv_requests sv"] by (simp add: queues_ok_def)
  then have "poll_loop z sv = Some (Inr sv)"
    by (subst poll_loop.simps) (simp add: uhttp_request_iterate_def)
  then show ?case using Nil by auto
next
  case (Cons req reqs)
  have path: "rq_path (hq_req req) \<noteq> None" using Cons.prems(2) Cons.hyps(2) [symmetric] by simp
  obtain s1 where s1: "poll_loop z sv = poll_loop z s1" "queues_ok s1" "ring (sv_requests s1) = reqs"
    "ring (sv_responses s1) = ring (sv_responses sv) @
      [\<lparr>hp_nfd = hq_nfd req, hp_resp = fst (answer (sv_routes sv) req (sv_ctx sv))\<rparr>]"
    "sv_ctx s1 = snd (answer (sv_routes sv) req (sv_ctx sv))" "sv_routes s1 = sv_routes sv"
    using poll_step [OF Cons.prems(1) Cons.hyps(2) [symmetric] path] by blast
  have "\<forall>req \<in> set (ring (sv_requests s1)). rq_path (hq_req req) \<noteq> None"
    using Cons.prems(2) Cons.hyps(2) [symmetric] s1(3) by simp
  from Cons.hyps(1) [OF s1(3) [symmetric] s1(2) this] show ?case
    using s1 Cons.hyps(2) [symmetric] by (auto simp: case_prod_beta Let_def)
qed

text \<open>Its event tells the running thread of the response.\<close>

lemma poll_loop_rest:
  assumes "queues_ok sv" and "\<exists>req. ring (sv_requests sv) = [req] \<and> rq_path (hq_req req) \<noteq> None" and "ev_open (sv_response_ev sv)"
    and "poll_loop z sv = Some (Inr sv')"
  shows "poll_rest sv sv' \<and> 0 < ev_counter (sv_response_ev sv')"
proof -
  obtain req where req: "ring (sv_requests sv) = [req]" "rq_path (hq_req req) \<noteq> None" using assms(2) by blast
  obtain q where q: "prot_queue_pop (sv_requests sv) = Inr (Some req, q)" "pq_wf q" "ring q = []"
    using prot_queue_pop_ok(2) [of "sv_requests sv"] assms(1) req(1) by (auto simp: queues_ok_def)
  let ?a = "answer (sv_routes sv) req (sv_ctx sv)"
  obtain p where p: "prot_queue_push z (sv_responses sv) \<lparr>hp_nfd = hq_nfd req, hp_resp = fst ?a\<rparr> = Inr (0, p)" "pq_wf p"
    using prot_queue_push_ok [of "sv_responses sv"] assms(1) by (auto simp: queues_ok_def)
  let ?sv = "sv\<lparr>sv_requests := q, sv_ctx := snd ?a, sv_responses := p,
    sv_response_ev := mt_evsock_notify (sv_response_ev sv)\<rparr>"
  have "poll_loop z sv = poll_loop z ?sv"
    by (subst poll_loop.simps)
      (simp add: uhttp_request_iterate_def q(1) route_request_answer [OF req(2)] uhttp_send_response_def p(1))
  also have "\<dots> = Some (Inr ?sv)"
    using prot_queue_pop_ok(1) [OF q(2,3)] by (subst poll_loop.simps) (simp add: uhttp_request_iterate_def)
  finally show ?thesis using assms(3,4) by (auto simp: poll_rest_def mt_evsock_notify_def)
qed

text \<open>
  C17: an iteration of the polling thread that has been woken up ends, and it has answered every queued
  request once and in order, by the first route of its path or with 404.
\<close>

theorem poll_answers_all:
  assumes "queues_ok sv" and "ev_open (sv_request_ev sv)" and "0 < ev_counter (sv_request_ev sv)"
    and "\<forall>req \<in> set (ring (sv_requests sv)). rq_path (hq_req req) \<noteq> None"
  shows "\<exists>sv'. poll_iter z sv = Some (Inr (True, sv')) \<and> ring (sv_requests sv') = [] \<and>
    ring (sv_responses sv') = ring (sv_responses sv) @
      fst (answers (sv_routes sv) (ring (sv_requests sv)) (sv_ctx sv)) \<and>
    sv_ctx sv' = snd (answers (sv_routes sv) (ring (sv_requests sv)) (sv_ctx sv))"
proof -
  obtain s where w: "uhttp_wait_requests sv = (1, s)" "queues_ok s" "sv_requests s = sv_requests sv"
    "sv_responses s = sv_responses sv" "sv_routes s = sv_routes sv" "sv_ctx s = sv_ctx sv"
    using assms(1-3) by (simp add: uhttp_wait_requests_def mt_evsock_wait_def queues_ok_def)
  have "\<forall>req \<in> set (ring (sv_requests s)). rq_path (hq_req req) \<noteq> None" using assms(4) w(3) by simp
  from poll_loop_answers [OF w(2) this, of z] w show ?thesis
    by (auto simp: poll_iter_def)
qed

subsection \<open>A request through the whole server\<close>

text \<open>
  One client and the threads of the server in turn, each for an iteration of its loop: the accepting
  thread gets the client, the running thread takes it over and reads what it has sent, the polling thread answers,
  and the running thread writes the answer and then finds that the client has closed its end.
\<close>

fun then_run :: "(fault + 'a) option \<Rightarrow> ('a \<Rightarrow> (fault + 'b) option) \<Rightarrow> (fault + 'b) option" where
  "then_run None f = None"
| "then_run (Some (Inl e)) f = Some (Inl e)"
| "then_run (Some (Inr x)) f = f x"

definition http_exchange ::
  "(nat \<Rightarrow> u8) \<Rightarrow> int \<Rightarrow> uhttp_high_request \<Rightarrow> uhttp_high_response \<Rightarrow> 'c uhttp_serv \<Rightarrow> int \<Rightarrow> bytes \<Rightarrow>
   (fault + (int \<times> bytes) list \<times> 'c uhttp_serv \<times> uhttp_cli_state list) option" where
  "http_exchange junk zc zq zp sv fd sent =
     then_run (Some (accepter_iter zc (Some fd) sv)) (\<lambda>sv.
     then_run (runner_iter junk zq [Some (Read sent)] sv []) (\<lambda>(_, sv, clients, out1).
     then_run (poll_iter zp sv) (\<lambda>(_, sv).
     then_run (runner_iter junk zq [Some (Read [])] sv clients) (\<lambda>(_, sv, clients, out2).
     Some (Inr (out1 @ out2, sv, clients))))))"

text \<open>A server that runs and has nothing to do.\<close>

definition idle_server :: "'c uhttp_serv \<Rightarrow> bool" where
  "idle_server sv \<longleftrightarrow> queues_ok sv \<and> ring (sv_clis sv) = [] \<and> ring (sv_requests sv) = [] \<and> ring (sv_responses sv) = [] \<and>
     ev_open (sv_ev sv) \<and> ev_open (sv_request_ev sv) \<and> ev_open (sv_response_ev sv)"

lemma client_request_queued:
  assumes "queues_ok sv" and "ev_open (sv_request_ev sv)" and "sent \<noteq> []" and "length sent < 2048"
    and "uhttp_parse_request (Some sent) True = (UHTTP_PARSE_OK, Some rq)"
  shows "\<exists>q ev. clients_loop z sv [\<lparr>cl_sock = fd, cl_read = None, cl_done = False\<rparr>] 0 [Some (Read sent)] =
      Some (Inr (sv\<lparr>sv_requests := q, sv_request_ev := ev\<rparr>, [\<lparr>cl_sock = fd, cl_read = None, cl_done = False\<rparr>])) \<and> pq_wf q \<and>
    ring q = ring (sv_requests sv) @ [\<lparr>hq_nfd = fd, hq_req = rq\<rparr>] \<and> ev_open ev \<and> 0 < ev_counter ev"
proof -
  obtain q where q: "prot_queue_push z (sv_requests sv) \<lparr>hq_nfd = fd, hq_req = rq\<rparr> = Inr (0, q)"
    "pq_wf q" "ring q = ring (sv_requests sv) @ [\<lparr>hq_nfd = fd, hq_req = rq\<rparr>]"
    using prot_queue_push_ok [of "sv_requests sv"] assms(1) by (auto simp: queues_ok_def)
  have "uhttp_handler z (Read sent) \<lparr>cl_sock = fd, cl_read = None, cl_done = False\<rparr> sv =
      Inr (False, \<lparr>cl_sock = fd, cl_read = None, cl_done = False\<rparr>,
        sv\<lparr>sv_requests := q, sv_request_ev := mt_evsock_notify (sv_request_ev sv)\<rparr>)"
    using assms(3-5) q(1) by (simp add: uhttp_handler_def read_processor_def)
  then show ?thesis
    using q assms(2) by (intro exI [of _ q] exI [of _ "mt_evsock_notify (sv_request_ev sv)"]) (simp add: mt_evsock_notify_def)
qed

lemma send_loop_one:
  assumes "pq_wf q" and "ring q = [resp]" and "send_one junk resp = Inr out"
  shows "\<exists>q'. send_loop junk q [] = Some (Inr (q', out)) \<and> pq_wf q' \<and> ring q' = []"
proof -
  obtain q1 where q1: "prot_queue_pop q = Inr (Some resp, q1)" "pq_wf q1" "ring q1 = []"
    using prot_queue_pop_ok(2) [OF assms(1,2)] by blast
  have "send_loop junk q1 out = Some (Inr (q1, out))"
    using prot_queue_pop_ok(1) [OF q1(2,3)] by (subst send_loop.simps) simp
  then have "send_loop junk q [] = Some (Inr (q1, out))"
    using q1(1) assms(3) by (subst send_loop.simps) simp
  with q1 show ?thesis by blast
qed

lemma accept_loop_one:
  assumes "pq_wf q" and "ring q = [fd]"
  shows "\<exists>q'. accept_loop q cs = Some (Inr (q', cs @ [\<lparr>cl_sock = fd, cl_read = None, cl_done = False\<rparr>])) \<and> pq_wf q' \<and> ring q' = []"
proof -
  let ?c = "\<lparr>cl_sock = fd, cl_read = None, cl_done = False\<rparr>"
  obtain q1 where q1: "prot_queue_pop q = Inr (Some fd, q1)" "pq_wf q1" "ring q1 = []"
    using prot_queue_pop_ok(2) [OF assms] by blast
  have "accept_loop q1 (cs @ [?c]) = Some (Inr (q1, cs @ [?c]))"
    using prot_queue_pop_ok(1) [OF q1(2,3)] by (subst accept_loop.simps) simp
  then have "accept_loop q cs = Some (Inr (q1, cs @ [?c]))" using q1(1) by (subst accept_loop.simps) simp
  with q1 show ?thesis by blast
qed

lemma nothing_to_send:
  assumes "pq_wf q" and "ring q = []"
  shows "send_loop junk q out = Some (Inr (q, out))"
  using prot_queue_pop_ok(1) [OF assms] by (subst send_loop.simps) simp

lemma nothing_to_accept:
  assumes "pq_wf q" and "ring q = []"
  shows "accept_loop q cs = Some (Inr (q, cs))"
  using prot_queue_pop_ok(1) [OF assms] by (subst accept_loop.simps) simp

lemma wait_open: "ev_open e \<Longrightarrow> mt_evsock_wait e = (if 0 < ev_counter e then 1 else 0, e\<lparr>ev_counter := 0\<rparr>)"
  by (cases e) (simp add: mt_evsock_wait_def)

text \<open>The two iterations of the running thread.\<close>

lemma runner_reads:
  assumes "queues_ok sv" "ring (sv_clis sv) = [fd]" "ring (sv_responses sv) = []"
    and "ev_open (sv_ev sv)" "0 < ev_counter (sv_ev sv)" "ev_open (sv_request_ev sv)" "ev_open (sv_response_ev sv)"
    and "sent \<noteq> []" "length sent < 2048" and "uhttp_parse_request (Some sent) True = (UHTTP_PARSE_OK, Some rq)"
  shows "\<exists>sv'. runner_iter junk z [Some (Read sent)] sv [] =
      Some (Inr (True, sv', [\<lparr>cl_sock = fd, cl_read = None, cl_done = False\<rparr>], [])) \<and> queues_ok sv' \<and>
    ring (sv_clis sv') = [] \<and> ring (sv_requests sv') = ring (sv_requests sv) @ [\<lparr>hq_nfd = fd, hq_req = rq\<rparr>] \<and>
    ring (sv_responses sv') = [] \<and> sv_routes sv' = sv_routes sv \<and> sv_ctx sv' = sv_ctx sv \<and>
    ev_open (sv_ev sv') \<and> ev_open (sv_request_ev sv') \<and> 0 < ev_counter (sv_request_ev sv') \<and> ev_open (sv_response_ev sv')"
proof -
  have wf: "pq_wf (sv_clis sv)" "pq_wf (sv_requests sv)" "pq_wf (sv_responses sv)" using assms(1) by (simp_all add: queues_ok_def)
  let ?c = "\<lparr>cl_sock = fd, cl_read = None, cl_done = False\<rparr>"
  obtain q1 where q1: "accept_loop (sv_clis sv) [] = Some (Inr (q1, [?c]))" "pq_wf q1" "ring q1 = []"
    using accept_loop_one [OF wf(1) assms(2), of "[]"] by auto
  let ?s = "sv\<lparr>sv_clis := q1, sv_ev := (sv_ev sv)\<lparr>ev_counter := 0\<rparr>, sv_responses := sv_responses sv,
      sv_response_ev := (sv_response_ev sv)\<lparr>ev_counter := 0\<rparr>\<rparr>"
  have "queues_ok ?s" using wf q1(2) by (simp add: queues_ok_def)
  from client_request_queued [OF this _ assms(8-10), of z fd] assms(6) obtain q ev where q:
    "clients_loop z ?s [?c] 0 [Some (Read sent)] = Some (Inr (?s\<lparr>sv_requests := q, sv_request_ev := ev\<rparr>, [?c]))"
    "pq_wf q" "ring q = ring (sv_requests sv) @ [\<lparr>hq_nfd = fd, hq_req = rq\<rparr>]" "ev_open ev" "0 < ev_counter ev"
    by auto
  have "runner_iter junk z [Some (Read sent)] sv [] = Some (Inr (True, ?s\<lparr>sv_requests := q, sv_request_ev := ev\<rparr>, [?c], []))"
    using q(1) assms(4,5,7)
    by (simp add: runner_iter_def wait_open q1(1) nothing_to_send [OF wf(3) assms(3)] mt_evsock_drain_def del: clients_loop.simps cong: if_cong)
  then show ?thesis using q(2-5) q1(2,3) wf(3) assms(3,4,7) by (simp add: queues_ok_def)
qed

lemma runner_writes:
  assumes "queues_ok sv" "ring (sv_clis sv) = []" "ring (sv_responses sv) = [resp]" "ev_open (sv_ev sv)"
    and "ev_open (sv_response_ev sv)" "0 < ev_counter (sv_response_ev sv)" and "send_one junk resp = Inr out"
  shows "\<exists>sv'. runner_iter junk z [Some (Read [])] sv [\<lparr>cl_sock = fd, cl_read = None, cl_done = False\<rparr>] = Some (Inr (True, sv', [], out)) \<and>
    queues_ok sv' \<and> ring (sv_clis sv') = [] \<and> ring (sv_requests sv') = ring (sv_requests sv) \<and> ring (sv_responses sv') = [] \<and>
    sv_routes sv' = sv_routes sv \<and> sv_ctx sv' = sv_ctx sv \<and>
    ev_open (sv_ev sv') \<and> ev_open (sv_response_ev sv') \<and> sv_request_ev sv' = sv_request_ev sv"
proof -
  have wf: "pq_wf (sv_clis sv)" "pq_wf (sv_requests sv)" "pq_wf (sv_responses sv)" using assms(1) by (simp_all add: queues_ok_def)
  obtain q where q: "send_loop junk (sv_responses sv) [] = Some (Inr (q, out))" "pq_wf q" "ring q = []"
    using send_loop_one [OF wf(3) assms(3,7)] by blast
  let ?s = "sv\<lparr>sv_clis := sv_clis sv, sv_ev := (sv_ev sv)\<lparr>ev_counter := 0\<rparr>, sv_responses := q,
      sv_response_ev := (sv_response_ev sv)\<lparr>ev_counter := 0\<rparr>\<rparr>"
  have "runner_iter junk z [Some (Read [])] sv [\<lparr>cl_sock = fd, cl_read = None, cl_done = False\<rparr>] = Some (Inr (True, ?s, [], out))"
    using assms(4-6)
    by (auto simp: runner_iter_def wait_open q(1) nothing_to_accept [OF wf(1) assms(2)] mt_evsock_drain_def uhttp_handler_def cong: if_cong)
  then show ?thesis using q(2,3) wf assms(2,4,5) by (simp add: queues_ok_def)
qed

text \<open>A request of the library that arrives in one read, through all threads.\<close>

lemma exchange_answered:
  assumes "idle_server sv"
    and "request_ok rq path hs b" and "uhttp_build_request junk (Some rq) True = Inr (0, Some (block, n))"
    and "length (take n block) < 2048"
    and "find_route (sv_routes sv) (takeWhile (\<lambda>b. b \<noteq> 63) path) = Some r"
    and "ur_handler r \<lparr>hq_nfd = fd, hq_req = received_request rq path hs b\<rparr> (sv_ctx sv) = (resp, c)"
    and "response_ok resp code text hs' b'"
  shows "\<exists>out resp' sv'. http_exchange junk zc z zp sv fd (take n block) = Some (Inr ([(fd, out)], sv', [])) \<and>
    idle_server sv' \<and> sv_routes sv' = sv_routes sv \<and> sv_ctx sv' = c \<and>
    uhttp_parse_response (Some out) True = (UHTTP_PARSE_OK, Some resp') \<and>
    rs_status_code resp' = int code \<and> rs_status_text resp' = Some text \<and>
    rs_body resp' = (if b' = [] then None else Some b') \<and>
    rs_headers resp' = Some (butlast (response_headers resp hs' b'))"
proof -
  let ?req = "\<lparr>hq_nfd = fd, hq_req = received_request rq path hs b\<rparr>" and ?cl = "\<lparr>cl_sock = fd, cl_read = None, cl_done = False\<rparr>"
  have idle: "queues_ok sv" "ring (sv_clis sv) = []" "ring (sv_requests sv) = []" "ring (sv_responses sv) = []"
    "ev_open (sv_ev sv)" "ev_open (sv_request_ev sv)" "ev_open (sv_response_ev sv)" using assms(1) by (simp_all add: idle_server_def)
  have sent: "take n block = http_message (request_head rq path @ map header_text hs) b"
    using build_request_bytes [OF assms(2), of junk] assms(3) by auto
  then have parsed: "uhttp_parse_request (Some (take n block)) True = (UHTTP_PARSE_OK, Some (received_request rq path hs b))"
    using request_received [OF assms(2)] by simp
  have ne: "take n block \<noteq> []" by (simp add: sent http_message_nonempty)
  obtain qc where qc: "prot_queue_push zc (sv_clis sv) fd = Inr (0, qc)" "pq_wf qc" "ring qc = [fd]"
    using prot_queue_push_ok [of "sv_clis sv"] idle(1,2) by (auto simp: queues_ok_def)
  let ?s0 = "sv\<lparr>sv_clis := qc, sv_ev := mt_evsock_notify (sv_ev sv)\<rparr>"
  have s0: "accepter_iter zc (Some fd) sv = Inr ?s0" by (simp add: accepter_iter_def qc(1))
  have s0': "queues_ok ?s0" using idle(1) qc(2) by (simp add: queues_ok_def)
  obtain s1 where s1: "runner_iter junk z [Some (Read (take n block))] ?s0 [] = Some (Inr (True, s1, [?cl], []))"
    "queues_ok s1" "ring (sv_clis s1) = []" "ring (sv_requests s1) = [?req]" "ring (sv_responses s1) = []"
    "sv_routes s1 = sv_routes sv" "sv_ctx s1 = sv_ctx sv" "ev_open (sv_ev s1)" "ev_open (sv_request_ev s1)"
    "0 < ev_counter (sv_request_ev s1)" "ev_open (sv_response_ev s1)"
    using runner_reads [OF s0' _ _ _ _ _ _ ne assms(4) parsed, of fd junk z] qc(3) idle
    by (auto simp: mt_evsock_notify_def)
  have path: "rq_path (hq_req ?req) = Some path" "cstr path = path"
    using assms(2) by (simp_all add: received_request_def Let_def request_ok_def path_ok_def cstr_plain)
  then have "answer (sv_routes s1) ?req (sv_ctx s1) = (resp, c)"
    using assms(5,6) s1(6,7) by (simp add: answer_def route_of_def)
  then have ans: "answers (sv_routes s1) [?req] (sv_ctx s1) = ([\<lparr>hp_nfd = fd, hp_resp = resp\<rparr>], c)"
    by simp
  obtain s2 where s2: "poll_iter zp s1 = Some (Inr (True, s2))" "queues_ok s2" "ring (sv_requests s2) = []"
    "ring (sv_responses s2) = [\<lparr>hp_nfd = fd, hp_resp = resp\<rparr>]" "sv_ctx s2 = c" "poll_rest s1 s2"
    "0 < ev_counter (sv_response_ev s2)"
  proof -
    obtain w where w: "uhttp_wait_requests s1 = (1, w)" "queues_ok w" "sv_requests w = sv_requests s1"
      "sv_responses w = sv_responses s1" "sv_routes w = sv_routes s1" "sv_ctx w = sv_ctx s1" "poll_rest s1 w"
      "ev_open (sv_response_ev w)"
      using s1(2,9-11) by (simp add: uhttp_wait_requests_def mt_evsock_wait_def queues_ok_def poll_rest_def)
    have "\<forall>req \<in> set (ring (sv_requests w)). rq_path (hq_req req) \<noteq> None" using w(3) s1(4) path(1) by simp
    from poll_loop_answers [OF w(2) this, of zp] obtain s2 where s2: "poll_loop zp w = Some (Inr s2)" "queues_ok s2"
      "ring (sv_requests s2) = []" "ring (sv_responses s2) = [\<lparr>hp_nfd = fd, hp_resp = resp\<rparr>]" "sv_ctx s2 = c"
      using w(3-6) s1(4,5) ans by (auto simp del: answers.simps)
    from poll_loop_rest [OF w(2) _ w(8) s2(1)] w(3) s1(4) path(1)
    have "poll_rest w s2" "0 < ev_counter (sv_response_ev s2)" by simp_all
    with s2 w(1,7) that [of s2] show ?thesis by (simp add: poll_iter_def poll_rest_def)
  qed
  obtain out resp' where b: "uhttp_build_response junk (Some resp) True = Inr (0, out)"
    "out \<noteq> None" "uhttp_parse_response (Some (take (snd (the out)) (fst (the out)))) True = (UHTTP_PARSE_OK, Some resp')"
    "rs_status_code resp' = int code" "rs_status_text resp' = Some text"
    "rs_body resp' = (if b' = [] then None else Some b')"
    "rs_headers resp' = Some (butlast (response_headers resp hs' b'))"
    using response_through [OF assms(7), of junk] by fastforce
  let ?out = "take (snd (the out)) (fst (the out))"
  from b(1,2) have one: "send_one junk \<lparr>hp_nfd = fd, hp_resp = resp\<rparr> = Inr [(fd, ?out)]"
    by (auto simp: send_one_def)
  obtain s3 where s3: "runner_iter junk z [Some (Read [])] s2 [?cl] = Some (Inr (True, s3, [], [(fd, ?out)]))"
    "queues_ok s3" "ring (sv_clis s3) = []" "ring (sv_requests s3) = []" "ring (sv_responses s3) = []"
    "sv_routes s3 = sv_routes s2" "sv_ctx s3 = sv_ctx s2" "ev_open (sv_ev s3)" "ev_open (sv_response_ev s3)"
    "sv_request_ev s3 = sv_request_ev s2"
    using runner_writes [OF s2(2) _ s2(4) _ _ s2(7) one, of z fd] s2(3,6) s1(3,8,11) by (auto simp: poll_rest_def)
  have "http_exchange junk zc z zp sv fd (take n block) = Some (Inr ([(fd, ?out)], s3, []))"
    by (simp add: http_exchange_def s0 s1(1) s2(1) s3(1))
  moreover have "idle_server s3" "sv_routes s3 = sv_routes sv" "sv_ctx s3 = c"
    using s3(2-10) s2(5,6) s1(6,9) by (simp_all add: idle_server_def poll_rest_def)
  ultimately show ?thesis using b by blast
qed

text \<open>
  C16: a request that a program built with the library, through the threads of an idle server: when one client sends
  it, it arrives in one read of less than 2048 bytes, and the threads take turns (accepting, running, polling, running), the first route of its
  path gets it as it is received (without its last header, and without its body when it has no header of its
  own), what is written to the client is parsed as the status, text and body of the response of the route and its
  headers without the last one, and the server is idle again, with the client gone.
\<close>

theorem http_request_answered:
  assumes "idle_server sv"
    and "request_ok rq path hs b" and "uhttp_build_request junk (Some rq) True = Inr (0, Some (block, n))"
    and "length (take n block) < 2048"
    and "find_route (sv_routes sv) (takeWhile (\<lambda>b. b \<noteq> 63) path) = Some r"
    and "ur_handler r \<lparr>hq_nfd = fd, hq_req = received_request rq path hs b\<rparr> (sv_ctx sv) = (resp, c)"
    and "response_ok resp code text hs' b'"
  shows "\<exists>out resp' sv'. http_exchange junk zc z zp sv fd (take n block) = Some (Inr ([(fd, out)], sv', [])) \<and>
    idle_server sv' \<and> sv_routes sv' = sv_routes sv \<and> sv_ctx sv' = c \<and>
    uhttp_parse_response (Some out) True = (UHTTP_PARSE_OK, Some resp') \<and>
    rs_status_code resp' = int code \<and> rs_status_text resp' = Some text \<and>
    rs_body resp' = (if b' = [] then None else Some b') \<and>
    rs_headers resp' = Some (butlast (response_headers resp hs' b'))"
  using assms by (rule exchange_answered)

definition demo_handler :: "uhttp_high_request \<Rightarrow> nat \<Rightarrow> uhttp_response \<times> nat" where
  "demo_handler req c = (demo_response 200, c + 1)"

definition demo_serv :: "uhttp_high_request list \<Rightarrow> nat uhttp_serv" where
  "demo_serv reqs = (let q = (\<lambda>xs. \<lparr>pq_arr = \<lparr>mtx = False, obj = \<lparr>elements = xs @ [undefined], da_cap = length xs + 1,
       da_head = length xs + 1, element_size = 1\<rparr>\<rparr>, pq_head = 0, pq_tail = length xs, pq_count = length xs\<rparr>) in
     \<lparr>sv_running = True, sv_sock_open = True, sv_clis = snd (prot_queue_create True 0 208),
      sv_ev = \<lparr>ev_counter = 0, ev_open = True\<rparr>, sv_request_ev = \<lparr>ev_counter = length reqs, ev_open = True\<rparr>,
      sv_requests = q reqs, sv_responses = snd (prot_queue_create True undefined 200),
      sv_response_ev = \<lparr>ev_counter = 0, ev_open = True\<rparr>,
      sv_routes = [\<lparr>ur_path = str ''/api'', ur_handler = demo_handler\<rparr>], sv_ctx = 0\<rparr>)"

lemma demo_serv_fields:
  "queues_ok (demo_serv reqs)" "ring (sv_requests (demo_serv reqs)) = reqs" "ring (sv_responses (demo_serv reqs)) = []"
  "ev_open (sv_request_ev (demo_serv reqs))" "ev_counter (sv_request_ev (demo_serv reqs)) = length reqs"
  "sv_routes (demo_serv reqs) = [\<lparr>ur_path = str ''/api'', ur_handler = demo_handler\<rparr>]" "sv_ctx (demo_serv reqs) = 0"
  using pq_create_ok [of 0 208] pq_create_ok [of undefined 200]
  by (auto simp: demo_serv_def queues_ok_def pq_wf_def ring_def Let_def nth_append intro: nth_equalityI)

definition demo_high :: "int \<Rightarrow> string \<Rightarrow> uhttp_high_request" where
  "demo_high fd path = \<lparr>hq_nfd = fd, hq_req = demo_request\<lparr>rq_path := Some (str path)\<rparr>\<rparr>"

theorem poll_answers_all_witness:
  "\<forall>z. \<exists>sv'. poll_iter z (demo_serv [demo_high 7 ''/api?x=1'', demo_high 8 ''/none'']) = Some (Inr (True, sv')) \<and>
     map hp_nfd (ring (sv_responses sv')) = [7, 8] \<and>
     map (rs_status_code \<circ> hp_resp) (ring (sv_responses sv')) = [200, 404] \<and> sv_ctx sv' = 1" (is "\<forall>z. ?P z")
proof (intro allI)
  fix z :: uhttp_high_response
  let ?rs = "[demo_high 7 ''/api?x=1'', demo_high 8 ''/none'']"
  have r: "route_of (demo_high 7 ''/api?x=1'') = str ''/api''" "route_of (demo_high 8 ''/none'') = str ''/none''"
    by (simp_all add: route_of_def demo_high_def demo_request_def str_def cstr_def)
  have "str ''/none'' \<noteq> str ''/api''" by (simp add: str_def)
  then have "fst (answers (sv_routes (demo_serv ?rs)) ?rs 0) =
      [\<lparr>hp_nfd = 7, hp_resp = demo_response 200\<rparr>, \<lparr>hp_nfd = 8, hp_resp = \<lparr>rs_status_code = 404,
        rs_status_text = Some (str ''Path is not found''), rs_headers = None, rs_header_count = 0, rs_body = None,
        rs_body_len = 0, rs_content_type = HTTP_TEXT_PLAIN\<rparr>\<rparr>]" "snd (answers (sv_routes (demo_serv ?rs)) ?rs 0) = 1"
    by (simp_all add: answer_def r demo_serv_fields(6) demo_handler_def) (simp_all add: demo_high_def)
  moreover have "\<forall>req \<in> set (ring (sv_requests (demo_serv ?rs))). rq_path (hq_req req) \<noteq> None"
    by (simp add: demo_serv_fields(2) demo_high_def)
  ultimately show "?P z"
    using poll_answers_all [of "demo_serv ?rs" z] demo_serv_fields [of ?rs]
    by (auto simp: demo_response_def simp del: answers.simps)
qed

text \<open>A route that sends back the body it gets, and a request with a header of its own.\<close>

definition echo_handler :: "uhttp_high_request \<Rightarrow> nat \<Rightarrow> uhttp_response \<times> nat" where
  "echo_handler req c = ((demo_response 200)\<lparr>rs_body := rq_body (hq_req req), rs_body_len := rq_body_len (hq_req req)\<rparr>, c + 1)"

definition echo_serv :: "nat uhttp_serv" where
  "echo_serv = (demo_serv [])\<lparr>sv_routes := [\<lparr>ur_path = str ''/api'', ur_handler = echo_handler\<rparr>]\<rparr>"

definition demo_accept :: uhttp_header where
  "demo_accept = hdr (str ''Accept'') (str ''any'')"

definition echo_request :: uhttp_request where
  "echo_request = demo_request\<lparr>rq_headers := Some [demo_accept], rq_header_count := 1\<rparr>"

lemma echo_serv_idle: "idle_server echo_serv" "sv_ctx echo_serv = 0"
  using demo_serv_fields [of "[]"] pq_create_ok [of "0 :: int" 208]
  by (simp_all add: echo_serv_def idle_server_def queues_ok_def) (simp_all add: demo_serv_def Let_def)

theorem http_request_answered_witness:
  "\<forall>zc z zp. \<exists>block n out resp' sv'. uhttp_build_request (\<lambda>_. 0) (Some echo_request) True = Inr (0, Some (block, n)) \<and>
     http_exchange (\<lambda>_. 0) zc z zp echo_serv 7 (take n block) = Some (Inr ([(7, out)], sv', [])) \<and> sv_ctx sv' = 1 \<and>
     uhttp_parse_response (Some out) True = (UHTTP_PARSE_OK, Some resp') \<and> rs_body resp' = Some [1, 2, 3]" (is "\<forall>zc z zp. ?P zc z zp")
proof (intro allI)
  fix zc :: int and z :: uhttp_high_request and zp :: uhttp_high_response
  have acc: "header_ok demo_accept" by (simp add: header_ok_def demo_accept_def) (intro exI conjI, rule refl, simp_all add: field_ok_def is_content_length_def str_def MAX_HEADER_SIZE_def)
  have rq: "request_ok echo_request (str ''/api'') [demo_accept] [1, 2, 3]"
    using acc by (simp add: request_ok_def echo_request_def demo_request_def path_ok_def headers_ok_def body_ok_def str_def
        MAX_PATH_SIZE_def UHTTP_MAX_BODY_SIZE_def)
  have h: "echo_handler \<lparr>hq_nfd = 7, hq_req = received_request echo_request (str ''/api'') [demo_accept] [1, 2, 3]\<rparr> 0 =
      ((demo_response 200)\<lparr>rs_body := Some [1, 2, 3], rs_body_len := 3\<rparr>, 1)"
    by (simp add: echo_handler_def received_request_def echo_request_def demo_request_def)
  have rs: "response_ok ((demo_response 200)\<lparr>rs_body := Some [1, 2, 3], rs_body_len := 3\<rparr>) 200 (str ''OK'') [] [1, 2, 3]"
    by (simp add: response_ok_def demo_response_def headers_ok_def body_ok_def str_def UHTTP_MAX_BODY_SIZE_def)
  obtain block n where b: "uhttp_build_request (\<lambda>_. 0) (Some echo_request) True = Inr (0, Some (block, n))"
    "take n block = http_message (request_head echo_request (str ''/api'') @ map header_text [demo_accept]) [1, 2, 3]"
    using build_request_bytes [OF rq, of "\<lambda>_. 0"] by blast
  have "field_ok (str ''Accept'') (str ''any'')" by (simp add: field_ok_def str_def MAX_HEADER_SIZE_def)
  then have len: "length (take n block) < 2048"
    by (simp add: b(2) http_message_def request_head_def echo_request_def demo_request_def uhttp_str_method_def dec_nat.simps
        demo_accept_def header_text_hdr) (simp add: str_def)
  have "takeWhile (\<lambda>b. b \<noteq> 63) (str ''/api'') = str ''/api''" by (simp add: str_def)
  then have route: "find_route (sv_routes echo_serv) (takeWhile (\<lambda>b. b \<noteq> 63) (str ''/api'')) =
      Some \<lparr>ur_path = str ''/api'', ur_handler = echo_handler\<rparr>"
    by (simp add: echo_serv_def)
  have h': "ur_handler \<lparr>ur_path = str ''/api'', ur_handler = echo_handler\<rparr>
      \<lparr>hq_nfd = 7, hq_req = received_request echo_request (str ''/api'') [demo_accept] [1, 2, 3]\<rparr> (sv_ctx echo_serv) =
      ((demo_response 200)\<lparr>rs_body := Some [1, 2, 3], rs_body_len := 3\<rparr>, 1)"
    by (simp add: h echo_serv_idle)
  from http_request_answered [OF echo_serv_idle(1) rq b(1) len route h' rs, of zc z zp] b(1) show "?P zc z zp" by auto
qed

subsection \<open>What stops the server\<close>

lemma clients_loop_silent:
  "i < length clients \<Longrightarrow> clients_loop z sv clients i (replicate n None) = None"
  by (induction n) simp_all

text \<open>
  As long as the first client sends nothing, the running thread stays in its loop: it accepts no new client,
  reads no other one and sends no response that becomes ready, for however long.
\<close>

theorem silent_client_stops_server:
  fixes sv :: "'c uhttp_serv"
  assumes "queues_ok sv" and "clients \<noteq> []" and "ring (sv_clis sv) = []" and "ring (sv_responses sv) = []"
    and "ev_open (sv_ev sv)" and "ev_open (sv_response_ev sv)"
  shows "runner_iter junk z (replicate n None) sv clients = None"
proof -
  have a: "accept_loop (sv_clis sv) clients = Some (Inr (sv_clis sv, clients))"
    using prot_queue_pop_ok(1) [of "sv_clis sv"] assms(1,3) by (subst accept_loop.simps) (simp add: queues_ok_def)
  have s: "send_loop junk (sv_responses sv) [] = Some (Inr (sv_responses sv, []))"
    using prot_queue_pop_ok(1) [of "sv_responses sv"] assms(1,4) by (subst send_loop.simps) (simp add: queues_ok_def)
  have l: "clients_loop z s clients 0 (replicate n None) = None" for s :: "'c uhttp_serv"
    using assms(2) by (intro clients_loop_silent) simp
  show ?thesis
    using a s l assms(5,6) by (simp add: runner_iter_def mt_evsock_wait_def)
qed

theorem silent_client_stops_server_witness:
  "\<forall>z. runner_iter (\<lambda>_. 0) z (replicate 1000 None) (demo_serv []) [\<lparr>cl_sock = 4, cl_read = None, cl_done = False\<rparr>] = None" (is "\<forall>z. ?P z")
proof (intro allI)
  fix z :: uhttp_high_request
  have "ring (sv_clis (demo_serv [])) = []" "ev_open (sv_ev (demo_serv []))" "ev_open (sv_response_ev (demo_serv []))"
    using pq_create_ok [of "0 :: int" 208] by (simp_all add: demo_serv_def Let_def)
  then show "?P z"
    using demo_serv_fields(1,3) [of "[]"] by (intro silent_client_stops_server) simp_all
qed

text \<open>The calls of \<open>handler\<close> for one client, over what its reads would give.\<close>

fun handle_all ::
  "uhttp_high_request \<Rightarrow> read_result list \<Rightarrow> uhttp_cli_state \<Rightarrow> 'c uhttp_serv \<Rightarrow> fault + bool \<times> uhttp_cli_state \<times> 'c uhttp_serv" where
  "handle_all z [] st sv = Inr (False, st, sv)"
| "handle_all z (rd # rds) st sv =
     bind_fault (uhttp_handler z rd st sv) (\<lambda>(gone, st, sv).
       if gone then Inr (True, st, sv) else handle_all z rds st sv)"

text \<open>
  A request whose first piece is incomplete is never completed: whatever the client sends afterwards is not read,
  nothing is queued, and even its end of stream does not remove the client.
\<close>

theorem split_request_never_read:
  assumes "uhttp_parse_request (Some piece) True = (UHTTP_PARSE_INCOMPLETE, rq)" and "length piece < 2048"
  shows "handle_all z (Read piece # rds) \<lparr>cl_sock = fd, cl_read = None, cl_done = False\<rparr> sv =
    Inr (False, \<lparr>cl_sock = fd, cl_read = Some piece, cl_done = True\<rparr>, sv)"
proof -
  have c: "UHTTP_PARSE_INCOMPLETE \<noteq> UHTTP_PARSE_OK" "UHTTP_PARSE_INCOMPLETE \<noteq> UHTTP_PARSE_ERROR"
    by (simp_all add: UHTTP_PARSE_INCOMPLETE_def UHTTP_PARSE_OK_def UHTTP_PARSE_ERROR_def)
  have n: "piece \<noteq> []" using assms(1) c(2) by (auto simp: uhttp_parse_request_def)
  let ?st = "\<lparr>cl_sock = fd, cl_read = Some piece, cl_done = True\<rparr>"
  have stuck: "handle_all z rds ?st sv = Inr (False, ?st, sv)"
    by (induction rds) (simp_all add: uhttp_handler_def read_processor_def assms(1) c)
  show ?thesis
    using assms n stuck c by (simp add: uhttp_handler_def read_processor_def)
qed

theorem split_request_never_read_witness:
  "handle_all z [Read (str ''GET /api HT''), Read (str ''TP/1.1''), Read []] \<lparr>cl_sock = 4, cl_read = None, cl_done = False\<rparr> sv =
    Inr (False, \<lparr>cl_sock = 4, cl_read = Some (str ''GET /api HT''), cl_done = True\<rparr>, sv)"
proof -
  have "uhttp_parse_request (Some (str ''GET /api HT'')) True = (UHTTP_PARSE_INCOMPLETE, None)" by code_simp
  then show ?thesis by (rule split_request_never_read) (simp add: str_def)
qed

end
