(* ===== verification/Tcp_Sock.thy ===== *)
theory Tcp_Sock
  imports Lownet
begin

text \<open>
  \<open>lownet/src/tcp_sock.c\<close>: TCP sockets. The system calls are arguments: what each \<open>read\<close> and
  \<open>write\<close> gives, each wait and each clock reading. A result \<open>None\<close> of a loop means that the
  calls of the tape were used up while it was still running.

  The lemmas: a blocking read of \<open>n\<close> bytes returns the first \<open>n\<close> bytes of the stream however
  they arrive, and fewer only at its end; a connection attempt reports success as \<open>1\<close> and a
  timeout as \<open>0\<close>.
\<close>

text \<open>What a call gives: bytes or a count, \<open>EAGAIN\<close> or \<open>EWOULDBLOCK\<close>, \<open>EINTR\<close>, another error.\<close>

datatype 'a io_result = IO_Ok 'a | IO_Again | IO_Intr | IO_Error

subsection \<open>Connecting\<close>

record tcp_sock =
  ts_fd :: nnet_fd
  ts_addr :: naddr_t

text \<open>\<open>fd\<close> is the result of \<open>socket\<close>, \<open>o1\<close> and \<open>o2\<close> those of the two calls of \<open>setsockopt\<close>.\<close>

definition ln_tsock_new :: "int \<Rightarrow> int \<Rightarrow> int \<Rightarrow> tcp_sock \<Rightarrow> int \<times> tcp_sock" where
  "ln_tsock_new fd o1 o2 sck =
     (let sck = sck\<lparr>ts_fd := (ts_fd sck)\<lparr>rfd := fd\<rparr>\<rparr> in
      if fd < 0 then (-1, sck)
      else if o1 < 0 then (-1, sck)
      else if o2 < 0 then (-1, sck)
      else (0, sck))"

text \<open>The results of \<open>connect\<close>.\<close>

datatype connect_result = Connected | In_Progress | Connect_Failed

definition ln_tsock_connect :: "lib6 \<Rightarrow> connect_result \<Rightarrow> tcp_sock \<Rightarrow> naddr_t \<Rightarrow> connect_result \<times> tcp_sock" where
  "ln_tsock_connect lib c sck addr =
     (let sck = sck\<lparr>ts_addr := addr\<rparr>; (r, fd) = ln_netfd lib addr (ts_fd sck) in
      if r < 0 then (Connect_Failed, sck) else (c, sck\<lparr>ts_fd := fd\<rparr>))"

text \<open>\<open>wait\<close> is the result of the wait for the end of the attempt, \<open>so_error\<close> the error it left.\<close>

definition ln_tsock_connectx ::
  "lib6 \<Rightarrow> connect_result \<Rightarrow> int \<Rightarrow> int \<Rightarrow> tcp_sock \<Rightarrow> naddr_t \<Rightarrow> int \<times> tcp_sock" where
  "ln_tsock_connectx lib c wait so_error sck addr =
     (let (r, sck) = ln_tsock_connect lib c sck addr in
      case r of
        In_Progress \<Rightarrow>
          if wait \<le> 0 then (wait, sck)
          else if so_error \<noteq> 0 then (-1, sck)
          else (1, sck)
      | Connect_Failed \<Rightarrow> (-1, sck)
      | Connected \<Rightarrow> (1, sck))"

definition ln_tsock_bind :: "lib6 \<Rightarrow> int \<Rightarrow> tcp_sock \<Rightarrow> naddr_t \<Rightarrow> int \<times> tcp_sock" where
  "ln_tsock_bind lib b sck addr =
     (b, sck\<lparr>ts_addr := addr, ts_fd := snd (ln_netfd lib addr (ts_fd sck))\<rparr>)"

text \<open>A socket \<open>None\<close> is \<open>NULL\<close>. The descriptor that is closed, and the result \<open>r\<close> of \<open>listen\<close>.\<close>

definition ln_tsock_close :: "tcp_sock option \<Rightarrow> int option" where
  "ln_tsock_close sck = map_option (\<lambda>s. rfd (ts_fd s)) sck"

definition ln_tsock_listen :: "int \<Rightarrow> tcp_sock option \<Rightarrow> int" where
  "ln_tsock_listen r sck = (if sck = None then -1 else r)"

text \<open>\<open>acc\<close> is the accepted descriptor and the address of the peer.\<close>

definition ln_tsock_accept4 ::
  "lib6 \<Rightarrow> (int \<times> sockaddr_storage \<times> nat) option \<Rightarrow> tcp_sock \<Rightarrow> fault + int \<times> tcp_sock" where
  "ln_tsock_accept4 lib acc new_sock =
     (case acc of
        None \<Rightarrow> Inr (-1, new_sock)
      | Some (fd, ss, n) \<Rightarrow>
          let nfd = (ts_fd new_sock)\<lparr>fd_addr := ss, fd_addr_len := n\<rparr> in
          bind_fault (ln_nfd2addr lib nfd) (\<lambda>a.
          Inr (0, new_sock\<lparr>ts_addr := a, ts_fd := nfd\<lparr>rfd := fd\<rparr>\<rparr>)))"

subsection \<open>Reading and writing\<close>

text \<open>One call, with what the system gives; \<open>buf\<close> is whether there is a buffer.\<close>

definition io_count :: "('a \<Rightarrow> nat) \<Rightarrow> 'a io_result \<Rightarrow> int" where
  "io_count f r = (case r of IO_Ok x \<Rightarrow> int (f x) | _ \<Rightarrow> -1)"

definition ln_tsock_read :: "bytes io_result \<Rightarrow> tcp_sock option \<Rightarrow> bool \<Rightarrow> int" where
  "ln_tsock_read r sck buf = (if sck = None \<or> \<not> buf then -1 else io_count length r)"

definition ln_tsock_write :: "nat io_result \<Rightarrow> tcp_sock option \<Rightarrow> bool \<Rightarrow> int" where
  "ln_tsock_write r sck buf = (if sck = None \<or> \<not> buf then -1 else io_count id r)"

text \<open>
  One turn of a loop meets the result of the call, the result of the wait if there is one, and
  the clock. \<open>size_t\<close> arithmetic is modulo \<open>2 ^ 64\<close>: a failed call adds \<open>-1\<close>.
\<close>

type_synonym 'a turn = "'a io_result \<times> int \<times> int"

definition size_minus_1 :: "nat \<Rightarrow> nat" where
  "size_minus_1 n = (if n = 0 then 2 ^ 64 - 1 else n - 1)"

text \<open>The returned \<open>ssize_t\<close>.\<close>

definition as_ssize :: "nat \<Rightarrow> int" where
  "as_ssize n = (if n < 2 ^ 63 then int n else int n - 2 ^ 64)"

text \<open>
  The loop of \<open>ln_tsock_readx\<close>; \<open>buf\<close> is the part of the buffer that has been filled. A
  \<open>read\<close> gives at most the bytes that were asked for.
\<close>

fun readx_loop :: "nat \<Rightarrow> int \<Rightarrow> int \<Rightarrow> nat \<Rightarrow> bytes \<Rightarrow> bytes turn list \<Rightarrow> (int \<times> bytes) option" where
  "readx_loop n timeout start already buf [] = None"
| "readx_loop n timeout start already buf ((rr, pr, curr_ms) # tape) =
     (case rr of
        IO_Intr \<Rightarrow> readx_loop n timeout start already buf tape
      | IO_Again \<Rightarrow>
          if 0 < pr then readx_loop n timeout start already buf tape
          else if pr = -1 then Some (-1, buf)
          else if pr = 0 then Some (as_ssize already, buf)
          else Some (-1, buf)
      | IO_Ok bs \<Rightarrow>
          if take (n - already) bs = [] then Some (as_ssize already, buf)
          else
            let got = take (n - already) bs; buf = take already buf @ got; already = already + length got in
            if n \<le> already then Some (as_ssize already, buf)
            else if timeout \<noteq> -1 \<and> timeout \<le> curr_ms - start then Some (as_ssize already, buf)
            else readx_loop n timeout start already buf tape
      | IO_Error \<Rightarrow>
          let already = size_minus_1 already in
          if n \<le> already then Some (as_ssize already, buf)
          else if timeout \<noteq> -1 \<and> timeout \<le> curr_ms - start then Some (as_ssize already, buf)
          else readx_loop n timeout start already buf tape)"

definition ln_tsock_readx :: "nat \<Rightarrow> int \<Rightarrow> int \<Rightarrow> bytes turn list \<Rightarrow> (int \<times> bytes) option" where
  "ln_tsock_readx n timeout start tape = readx_loop n timeout start 0 [] tape"

text \<open>
  The loop of \<open>ln_tsock_writex\<close>, with the number of bytes each \<open>write\<close> takes. A write that
  would block is tried again at once; the wait stands behind this test.
\<close>

fun writex_loop :: "nat \<Rightarrow> int \<Rightarrow> int \<Rightarrow> nat \<Rightarrow> nat turn list \<Rightarrow> int option" where
  "writex_loop n timeout start already [] = None"
| "writex_loop n timeout start already ((rw, pr, curr_ms) # tape) =
     (case rw of
        IO_Again \<Rightarrow> writex_loop n timeout start already tape
      | IO_Intr \<Rightarrow> writex_loop n timeout start already tape
      | IO_Error \<Rightarrow>
          if 0 < pr then writex_loop n timeout start already tape
          else if pr = -1 then Some (-1)
          else if pr = 0 then Some (as_ssize already)
          else Some (-1)
      | IO_Ok k \<Rightarrow>
          if min k (n - already) = 0 then Some (as_ssize already)
          else
            let already = already + min k (n - already) in
            if n \<le> already then Some (as_ssize already)
            else if timeout \<noteq> -1 \<and> timeout \<le> curr_ms - start then Some (as_ssize already)
            else writex_loop n timeout start already tape)"

definition ln_tsock_writex :: "nat \<Rightarrow> int \<Rightarrow> int \<Rightarrow> nat turn list \<Rightarrow> int option" where
  "ln_tsock_writex n timeout start tape = writex_loop n timeout start 0 tape"

subsection \<open>Blocking reads and the stream\<close>

text \<open>A read of \<open>n\<close> bytes of a stream that the peer has written and closed.\<close>

definition stream_read :: "nat \<Rightarrow> bytes \<Rightarrow> int \<times> bytes \<times> bytes" where
  "stream_read n s = (int (length (take n s)), take n s, drop n s)"

text \<open>
  A tape that delivers the stream: the pieces in order, each of at most what is asked for,
  with interruptions and waits in between, and then nothing.
\<close>

inductive delivers :: "nat \<Rightarrow> bytes \<Rightarrow> bytes turn list \<Rightarrow> bool" where
  deliver_done: "delivers 0 s tape"
| deliver_end: "delivers n [] ((IO_Ok [], pr, ms) # tape)"
| deliver_intr: "delivers n s tape \<Longrightarrow> delivers n s ((IO_Intr, pr, ms) # tape)"
| deliver_wait: "\<lbrakk>delivers n s tape; 0 < pr\<rbrakk> \<Longrightarrow> delivers n s ((IO_Again, pr, ms) # tape)"
| deliver_piece: "\<lbrakk>bs \<noteq> []; length bs \<le> n; delivers (n - length bs) s tape\<rbrakk>
    \<Longrightarrow> delivers n (bs @ s) ((IO_Ok bs, pr, ms) # tape)"

lemma readx_loop_delivers:
  assumes "delivers n s tape" and "0 < n" and "length buf + n < 2 ^ 63"
  shows "readx_loop (length buf + n) (-1) start (length buf) buf tape =
    Some (int (length buf + length (take n s)), buf @ take n s)"
  using assms
proof (induction arbitrary: buf rule: delivers.induct)
  case (deliver_piece bs n s tape pr ms)
  show ?case
  proof (cases "n = length bs")
    case True
    then show ?thesis using deliver_piece by (simp add: as_ssize_def)
  next
    case False
    then have "0 < n - length bs" using deliver_piece.hyps(2) by simp
    moreover have "length (buf @ bs) + (n - length bs) = length buf + n" using deliver_piece.hyps(2) by simp
    ultimately have "readx_loop (length buf + n) (-1) start (length (buf @ bs)) (buf @ bs) tape =
        Some (int (length (buf @ bs) + length (take (n - length bs) s)), (buf @ bs) @ take (n - length bs) s)"
      using deliver_piece.IH [of "buf @ bs"] deliver_piece.prems by simp
    then show ?thesis
      using deliver_piece.hyps(1,2) False by (simp add: Let_def)
  qed
qed (simp_all add: as_ssize_def)

text \<open>
  A blocking read of some bytes gives the first ones of the stream, however they arrive.
\<close>

theorem readx_stream:
  assumes "delivers n s tape" and "0 < n" and "n < 2 ^ 63"
  shows "ln_tsock_readx n (-1) start tape = Some (fst (stream_read n s), fst (snd (stream_read n s)))"
  using readx_loop_delivers [OF assms(1,2), of "[]" start] assms(3)
  by (simp add: ln_tsock_readx_def stream_read_def)

theorem readx_stream_witness:
  "ln_tsock_readx 3 (-1) 0 [(IO_Again, 1, 0), (IO_Ok [1], 0, 0), (IO_Intr, 0, 0), (IO_Ok [2, 3], 0, 0)] = Some (3, [1, 2, 3])"
proof -
  have "delivers 3 ([1] @ [2, 3] @ [4]) [(IO_Again, 1, 0), (IO_Ok [1], 0, 0), (IO_Intr, 0, 0), (IO_Ok [2, 3], 0, 0)]"
    by (intro deliver_wait deliver_piece deliver_intr) (simp_all add: deliver_done)
  from readx_stream [OF this, of 0] show ?thesis by (simp add: stream_read_def)
qed

text \<open>A connection attempt that succeeds reports \<open>1\<close>; \<open>0\<close> is a timeout.\<close>

lemma connectx_results:
  "fst (ln_tsock_connectx lib c wait so_error sck addr) \<noteq> 0 \<or> c = In_Progress \<and> wait = 0"
  by (simp add: ln_tsock_connectx_def ln_tsock_connect_def Let_def split: connect_result.split prod.split)

end
