(* ===== verification/Socks5.thy ===== *)
theory Socks5
  imports Tcp_Sock
begin

text \<open>
  \<open>proxy/src/socks5.c\<close>: the SOCKS5 proxy. The client is the stream of bytes it sends before it
  closes, read with blocking reads (\<open>stream_read\<close>, what \<open>ln_tsock_readx\<close> gives of a stream), and
  the list of the messages written to it. A read that ends early leaves the rest of its
  target as it was, the argument \<open>junk\<close>; a local that is never set is an argument too. What
  the program behind the proxy does, connecting and moving data, is an argument.

  The lemmas: a client that asks for an address gets through to exactly this address and its
  reply carries it; a domain name of more than 251 bytes is written past the end of the
  reply; resolving a domain name reports success only if a connection attempt timed out; and
  a request that is refused closes a descriptor that was never opened.
\<close>

definition SOCKS5_VERSION :: u8 where "SOCKS5_VERSION = 0x05"

definition SOCKS5_AUTH_NO_AUTH :: u8 where "SOCKS5_AUTH_NO_AUTH = 0x00"

definition SOCKS5_AUTH_NOT_ACCEPT :: u8 where "SOCKS5_AUTH_NOT_ACCEPT = 0xff"

definition SOCKS5_CMD_CONNECT :: u8 where "SOCKS5_CMD_CONNECT = 0x01"

definition SOCKS5_ATYP_IPV4 :: u8 where "SOCKS5_ATYP_IPV4 = 0x01"

definition SOCKS5_ATYP_DOMAIN_NAME :: u8 where "SOCKS5_ATYP_DOMAIN_NAME = 0x03"

definition SOCKS5_REP_SUCCESS :: u8 where "SOCKS5_REP_SUCCESS = 0x00"

definition SOCKS5_REP_GENERAL_FAILURE :: u8 where "SOCKS5_REP_GENERAL_FAILURE = 0x01"

text \<open>
  The bytes of an IP address that are never set count as zero. A domain name is its string, its port and the length that was announced.
\<close>

datatype s5_uni_addr =
    S5_Domain_Addr (s5_domain: bytes) (s5_port: u16) (s5_domain_len: nat)
  | S5_Ip_Addr naddr_t

subsection \<open>The greeting\<close>

text \<open>Reading an object of \<open>n\<close> bytes: the result of the read, the object, and the stream behind it.\<close>

definition read_obj :: "bytes \<Rightarrow> nat \<Rightarrow> bytes \<Rightarrow> int \<times> bytes \<times> bytes" where
  "read_obj junk n s =
     (let (r, got, s) = stream_read n s in (r, got @ take (n - length got) (drop (length got) (junk @ zeros n)), s))"

definition stas5_send_server_hello :: "u8 \<Rightarrow> bytes" where
  "stas5_send_server_hello method = [SOCKS5_VERSION, method]"

text \<open>The result, what is written, and the stream.\<close>

definition stas5_handle_greeting :: "bytes \<Rightarrow> bytes \<Rightarrow> int \<times> bytes list \<times> bytes" where
  "stas5_handle_greeting junk s =
     (let (r, client_hello, s) = read_obj junk 2 s in
      if r \<le> 0 then (-1, [], s)
      else if client_hello ! 0 \<noteq> SOCKS5_VERSION then (-1, [], s)
      else
        let num_methods = unat (client_hello ! 1); (r, methods, s) = read_obj junk num_methods s in
        if r \<le> 0 then (-1, [], s)
        else if SOCKS5_AUTH_NO_AUTH \<notin> set methods
        then (-1, [stas5_send_server_hello SOCKS5_AUTH_NOT_ACCEPT], s)
        else (0, [stas5_send_server_hello SOCKS5_AUTH_NO_AUTH], s))"

subsection \<open>Requests\<close>

text \<open>A string with its length in front; the string is what stands before the first \<open>NUL\<close>.\<close>

definition stas5_recv_string :: "bytes \<Rightarrow> bytes \<Rightarrow> int \<times> bytes \<times> bytes" where
  "stas5_recv_string junk s =
     (let (r, l, s) = read_obj junk 1 s in
      if r \<le> 0 then (-1, [], s)
      else
        let n = unat (l ! 0); (r, str, s) = read_obj junk n s in
        if r \<le> 0 then (-1, [], s) else (int n, cstr str, s))"

definition prx_socks5_handle_request :: "bytes \<Rightarrow> bytes \<Rightarrow> int \<times> s5_uni_addr option \<times> bytes" where
  "prx_socks5_handle_request junk s =
     (let (r, req, s) = read_obj junk 4 s in
      if r \<le> 0 then (-1, None, s)
      else if req ! 0 \<noteq> SOCKS5_VERSION then (-1, None, s)
      else if req ! 1 \<noteq> SOCKS5_CMD_CONNECT then (-1, None, s)
      else if req ! 3 = SOCKS5_ATYP_IPV4 then
        let (r, ip, s) = read_obj junk 4 s in
        if r \<le> 0 then (-1, None, s)
        else
          let (r, port, s) = read_obj junk 2 s in
          if r \<le> 0 then (-1, None, s)
          else (0, Some (S5_Ip_Addr (na4 (inet_ntop4 ip) (ntohs (of_le16 port)))), s)
      else if req ! 3 = SOCKS5_ATYP_DOMAIN_NAME then
        let (domain_len, domain, s) = stas5_recv_string junk s in
        if domain_len \<le> 0 then (-1, None, s)
        else
          let (r, port, s) = read_obj junk 2 s in
          if r \<le> 0 then (-1, None, s)
          else (0, Some (S5_Domain_Addr domain (ntohs (of_le16 port)) (nat domain_len)), s)
      else (-1, None, s))"

subsection \<open>Replies\<close>

definition socks5_reply :: "u8 \<Rightarrow> u8 \<Rightarrow> bytes" where
  "socks5_reply reply addr_type = [SOCKS5_VERSION, reply, 0, addr_type]"

text \<open>
  The buffer of a domain reply has 1 + 255 + 2 bytes. \<open>domain\<close> are the bytes of the array
  \<open>domain\<close>, of which \<open>domain_len\<close> are copied; \<open>port\<close> is in the byte order of the network.
\<close>

definition stas5_send_domain_reply :: "u8 \<Rightarrow> bytes \<Rightarrow> u8 \<Rightarrow> u16 \<Rightarrow> fault + bytes" where
  "stas5_send_domain_reply reply_type domain domain_len port =
     (let out = socks5_reply reply_type SOCKS5_ATYP_DOMAIN_NAME @ [domain_len] @
        take (unat domain_len) domain @ le16 port in
      if 1 + 255 + 2 < length out then Inl OutOfBounds else Inr out)"

definition stas5_send_ip_reply :: "u8 \<Rightarrow> bytes \<Rightarrow> u16 \<Rightarrow> bytes" where
  "stas5_send_ip_reply reply_type ip port = socks5_reply reply_type SOCKS5_ATYP_IPV4 @ ip @ le16 port"

subsection \<open>Resolving\<close>

text \<open>One connection attempt: the results that \<open>ln_tsock_connectx\<close> depends on.\<close>

record attempt =
  at_connect :: connect_result
  at_wait :: int
  at_error :: int

definition connect_to :: "lib6 \<Rightarrow> tcp_sock \<Rightarrow> attempt \<Rightarrow> naddr_t \<Rightarrow> int \<times> tcp_sock" where
  "connect_to lib sock at addr = ln_tsock_connectx lib (at_connect at) (at_wait at) (at_error at) sock addr"

text \<open>
  The loop over the answers of \<open>getaddrinfo\<close>, IPv4 addresses and ports in the byte order of the
  network, each with its attempt. A new socket is made for each answer; the last component are the
  descriptors that are closed on the way.
\<close>

fun resolve_loop :: "lib6 \<Rightarrow> tcp_sock \<Rightarrow> ((bytes \<times> u16) \<times> int \<times> attempt) list \<Rightarrow> bool \<times> tcp_sock \<times> int list" where
  "resolve_loop lib sock [] = (False, sock, [])"
| "resolve_loop lib sock (((ip, port), fd, at) # ais) =
     (let (_, sock) = ln_tsock_new fd 0 0 sock;
          (r, sock) = connect_to lib sock at (ln_from_uint32 ip (ntohs port)) in
      if r = 0 then (True, sock, [])
      else
        let closing = ln_tsock_close (Some sock); (connected, sock, closings) = resolve_loop lib sock ais in
        (connected, sock, the closing # closings))"

text \<open>\<open>ais\<close> are the answers of \<open>getaddrinfo\<close>, \<open>None\<close> when it fails; \<open>fd\<close> and \<open>at\<close> belong to an IP address.\<close>

definition prx_resolve_address ::
  "lib6 \<Rightarrow> int \<Rightarrow> attempt \<Rightarrow> ((bytes \<times> u16) \<times> int \<times> attempt) list option \<Rightarrow> s5_uni_addr \<Rightarrow> tcp_sock option \<Rightarrow>
   int \<times> tcp_sock option \<times> int list" where
  "prx_resolve_address lib fd at ais address sock =
     (case sock of
        None \<Rightarrow> (-1, None, [])
      | Some sock \<Rightarrow>
          (case address of
             S5_Ip_Addr ip \<Rightarrow>
               let (_, sock) = ln_tsock_new fd 0 0 (sock\<lparr>ts_addr := ip\<rparr>);
                   (r, sock) = connect_to lib sock at ip in
               (if r \<le> 0 then -1 else 0, Some sock, [])
           | S5_Domain_Addr domain port n \<Rightarrow>
               (case ais of
                  None \<Rightarrow> (-1, Some sock, [])
                | Some ais \<Rightarrow>
                    let (connected, sock, closings) = resolve_loop lib sock ais in
                    (if connected then 0 else -1, Some sock, closings))))"

subsection \<open>A client of the proxy\<close>

text \<open>
  One return of \<open>poll\<close>: its result, and for the client and the remote side whether there is
  input, with the result of the tunnel function for it, or an error or hang-up.
\<close>

datatype poll_event = Input int | Hangup | Silent

text \<open>The events of the two sockets in one return; the result tells whether the tunnel goes on.\<close>

fun tunnel_events :: "nat \<Rightarrow> poll_event list \<Rightarrow> nat list \<times> bool" where
  "tunnel_events i [] = ([], True)"
| "tunnel_events i (e # es) =
     (case e of
        Input r \<Rightarrow>
          if r < 0 then ([i], False)
          else (let (calls, go) = tunnel_events (i + 1) es in (i # calls, go))
      | Hangup \<Rightarrow> ([], False)
      | Silent \<Rightarrow> tunnel_events (i + 1) es)"

text \<open>The loop of the tunnel: the calls of the tunnel function, by who had input.\<close>

fun tunnel_loop :: "(bool \<times> int \<times> poll_event list) list \<Rightarrow> nat list option" where
  "tunnel_loop [] = None"
| "tunnel_loop ((active, ret, events) # tape) =
     (if \<not> active then Some []
      else if ret = -1 then Some []
      else if ret = 0 then tunnel_loop tape
      else
        (case tunnel_events 0 events of
           (calls, go) \<Rightarrow> if go then map_option (\<lambda>cs. calls @ cs) (tunnel_loop tape) else Some calls))"

text \<open>
  The thread of a client: what is written to it, the descriptors that are closed and the calls
  of the tunnel function. \<open>connect\<close> is the handler of the program, which gives the descriptor
  of the remote socket; \<open>stale\<close> is this descriptor before anything has set it.
\<close>

record tunnel_result =
  tr_written :: "bytes list"
  tr_closed :: "int list"
  tr_calls :: "nat list"

definition reply_for :: "s5_uni_addr \<Rightarrow> int \<Rightarrow> bytes \<Rightarrow> fault + bytes" where
  "reply_for raddr remote junk =
     (let rep = (if 0 \<le> remote then SOCKS5_REP_SUCCESS else SOCKS5_REP_GENERAL_FAILURE) in
      case raddr of
        S5_Ip_Addr a \<Rightarrow>
          Inr (stas5_send_ip_reply rep (case inet_pton4 (cstr a) of None \<Rightarrow> [255, 255, 255, 255] | Some ip \<Rightarrow> ip)
                 (htons (of_le16 (drop 16 a))))
      | S5_Domain_Addr d p n \<Rightarrow> stas5_send_domain_reply rep (d @ [0] @ junk @ zeros 256) (of_nat n) (htons p))"

definition prx_socks5_tunnel_wrapper ::
  "bytes \<Rightarrow> int \<Rightarrow> int \<Rightarrow> (s5_uni_addr \<Rightarrow> int) \<Rightarrow> (bool \<times> int \<times> poll_event list) list \<Rightarrow> bytes \<Rightarrow>
   (fault + tunnel_result) option" where
  "prx_socks5_tunnel_wrapper junk client stale connect tape s =
     (let (r, hello, s) = stas5_handle_greeting junk s in
      if r \<noteq> 0 then Some (Inr \<lparr>tr_written = hello, tr_closed = [client], tr_calls = []\<rparr>)
      else
        let (r, raddr, s) = prx_socks5_handle_request junk s in
        if r < 0 then Some (Inr \<lparr>tr_written = hello, tr_closed = [stale, client], tr_calls = []\<rparr>)
        else
          let remote = connect (the raddr) in
          (case reply_for (the raddr) remote junk of
             Inl f \<Rightarrow> Some (Inl f)
           | Inr reply \<Rightarrow>
               if remote \<le> 0 then
                 Some (Inr \<lparr>tr_written = hello @ [reply], tr_closed = [remote, client], tr_calls = []\<rparr>)
               else
                 map_option (\<lambda>calls. Inr \<lparr>tr_written = hello @ [reply], tr_closed = [remote, client], tr_calls = calls\<rparr>)
                   (tunnel_loop tape)))"

text \<open>
  The loop that accepts clients: the state of the flag, the wait, the accepted descriptor if
  there is one, and whether the options, the memory and the thread could be had. The result
  are the clients with a thread of their own and those that are closed again.
\<close>

record accept_turn =
  ac_active :: bool
  ac_wait :: int
  ac_client :: "int option"
  ac_setopt :: int
  ac_memory :: bool
  ac_thread :: int

fun prx_socks5_accept_loop :: "accept_turn list \<Rightarrow> (int list \<times> int list) option" where
  "prx_socks5_accept_loop [] = None"
| "prx_socks5_accept_loop (t # ts) =
     (if \<not> ac_active t then Some ([], [])
      else if ac_wait t = 0 then prx_socks5_accept_loop ts
      else if ac_wait t < 0 then Some ([], [])
      else
        case ac_client t of
          None \<Rightarrow> prx_socks5_accept_loop ts
        | Some fd \<Rightarrow>
            if ac_setopt t < 0 then prx_socks5_accept_loop ts
            else if \<not> ac_memory t then prx_socks5_accept_loop ts
            else if ac_thread t \<noteq> 0 then map_option (\<lambda>(ok, cl). (ok, fd # cl)) (prx_socks5_accept_loop ts)
            else map_option (\<lambda>(ok, cl). (fd # ok, cl)) (prx_socks5_accept_loop ts))"

subsection \<open>A request that is granted\<close>

text \<open>What a client sends: its methods, and a request for an address.\<close>

definition client_greeting :: "u8 list \<Rightarrow> bytes" where
  "client_greeting methods = [SOCKS5_VERSION, of_nat (length methods)] @ methods"

definition ip_request :: "bytes \<Rightarrow> u16 \<Rightarrow> bytes" where
  "ip_request ip port = [SOCKS5_VERSION, SOCKS5_CMD_CONNECT, 0, SOCKS5_ATYP_IPV4] @ ip @ le16 (htons port)"

definition domain_request :: "bytes \<Rightarrow> u16 \<Rightarrow> bytes" where
  "domain_request d port =
     [SOCKS5_VERSION, SOCKS5_CMD_CONNECT, 0, SOCKS5_ATYP_DOMAIN_NAME, of_nat (length d)] @ d @ le16 (htons port)"

lemma read_obj_full: "length xs = n \<Longrightarrow> read_obj junk n (xs @ s) = (int n, xs, s)"
  by (simp add: read_obj_def stream_read_def)

lemma unat_length8: "length xs < 256 \<Longrightarrow> unat (of_nat (length xs) :: u8) = length xs"
  by (simp add: unsigned_of_nat take_bit_nat_eq_self)

lemma greeting_accepted:
  assumes "SOCKS5_AUTH_NO_AUTH \<in> set methods" and "length methods < 256"
  shows "stas5_handle_greeting junk (client_greeting methods @ s) =
    (0, [[SOCKS5_VERSION, SOCKS5_AUTH_NO_AUTH]], s)"
proof -
  have "read_obj junk 2 (client_greeting methods @ s) = (2, [SOCKS5_VERSION, of_nat (length methods)], methods @ s)"
    using read_obj_full [of "[SOCKS5_VERSION, of_nat (length methods)]" 2 junk "methods @ s"]
    by (simp add: client_greeting_def)
  moreover have "read_obj junk (length methods) (methods @ s) = (int (length methods), methods, s)"
    by (simp add: read_obj_full)
  moreover have "0 < length methods" using assms(1) by (cases methods) simp_all
  ultimately show ?thesis
    using assms unat_length8 [of methods]
    by (simp add: stas5_handle_greeting_def stas5_send_server_hello_def)
qed

lemma ip_request_read:
  assumes "length ip = 4"
  shows "prx_socks5_handle_request junk (ip_request ip port @ s) =
    (0, Some (S5_Ip_Addr (na4 (inet_ntop4 ip) port)), s)"
proof -
  have "read_obj junk 4 (ip_request ip port @ s) =
      (4, [SOCKS5_VERSION, SOCKS5_CMD_CONNECT, 0, SOCKS5_ATYP_IPV4], ip @ le16 (htons port) @ s)"
    using read_obj_full [of "[SOCKS5_VERSION, SOCKS5_CMD_CONNECT, 0, SOCKS5_ATYP_IPV4]" 4 junk "ip @ le16 (htons port) @ s"]
    by (simp add: ip_request_def)
  moreover have "read_obj junk 4 (ip @ le16 (htons port) @ s) = (4, ip, le16 (htons port) @ s)"
    "read_obj junk 2 (le16 (htons port) @ s) = (2, le16 (htons port), s)"
    using read_obj_full [of ip 4] read_obj_full [of "le16 (htons port)" 2] assms by simp_all
  ultimately show ?thesis
    by (simp add: prx_socks5_handle_request_def numeral_3_eq_3)
qed

lemma domain_request_read:
  assumes "d \<noteq> []" and "length d < 256" and "0 \<notin> set d"
  shows "prx_socks5_handle_request junk (domain_request d port @ s) = (0, Some (S5_Domain_Addr d port (length d)), s)"
proof -
  have "read_obj junk 4 (domain_request d port @ s) =
      (4, [SOCKS5_VERSION, SOCKS5_CMD_CONNECT, 0, SOCKS5_ATYP_DOMAIN_NAME], [of_nat (length d)] @ d @ le16 (htons port) @ s)"
    using read_obj_full [of "[SOCKS5_VERSION, SOCKS5_CMD_CONNECT, 0, SOCKS5_ATYP_DOMAIN_NAME]" 4 junk
        "[of_nat (length d)] @ d @ le16 (htons port) @ s"]
    by (simp add: domain_request_def)
  moreover have "stas5_recv_string junk ([of_nat (length d)] @ d @ le16 (htons port) @ s) = (int (length d), d, le16 (htons port) @ s)"
  proof -
    have "read_obj junk 1 ([of_nat (length d)] @ d @ le16 (htons port) @ s) = (1, [of_nat (length d)], d @ le16 (htons port) @ s)"
      "read_obj junk (length d) (d @ le16 (htons port) @ s) = (int (length d), d, le16 (htons port) @ s)"
      using read_obj_full [of "[of_nat (length d)]" 1 junk] read_obj_full [of d "length d" junk] by simp_all
    moreover have "cstr d = d" using assms(3) by (auto simp: cstr_def takeWhile_eq_all_conv)
    ultimately show ?thesis
      using assms(1) unat_length8 [OF assms(2)] by (simp add: stas5_recv_string_def del: One_nat_def)
  qed
  moreover have "read_obj junk 2 (le16 (htons port) @ s) = (2, le16 (htons port), s)"
    using read_obj_full [of "le16 (htons port)" 2] by simp
  ultimately show ?thesis
    using assms(1) by (simp add: prx_socks5_handle_request_def numeral_3_eq_3 SOCKS5_ATYP_IPV4_def SOCKS5_ATYP_DOMAIN_NAME_def)
qed

lemma reply_for_ip:
  assumes "length ip = 4" and "0 \<le> fd"
  shows "reply_for (S5_Ip_Addr (na4 (inet_ntop4 ip) port)) fd junk =
    Inr ([SOCKS5_VERSION, SOCKS5_REP_SUCCESS, 0, SOCKS5_ATYP_IPV4] @ ip @ le16 (htons port))"
  using na4_fields [of "inet_ntop4 ip" port] length_inet_ntop4 [of ip] inet_ntop4_nonzero [of ip]
    inet_pton4_ntop4 [OF assms(1)] assms(2)
  by (simp add: reply_for_def stas5_send_ip_reply_def socks5_reply_def)

lemma reply_for_domain:
  assumes "length d < 256" and "0 \<le> fd"
  shows "reply_for (S5_Domain_Addr d port (length d)) fd junk =
    (if 251 < length d then Inl OutOfBounds
     else Inr ([SOCKS5_VERSION, SOCKS5_REP_SUCCESS, 0, SOCKS5_ATYP_DOMAIN_NAME, of_nat (length d)] @ d @ le16 (htons port)))"
  using assms unat_length8 [OF assms(1)]
  by (simp add: reply_for_def stas5_send_domain_reply_def socks5_reply_def Let_def)

text \<open>The same for a domain name that fits the reply.\<close>

lemma socks5_connects_domain:
  assumes "SOCKS5_AUTH_NO_AUTH \<in> set methods" and "length methods < 256" and "tunnel_loop tape = Some calls"
    and "d \<noteq> []" and "length d \<le> 251" and "0 \<notin> set d" and "0 < connect (S5_Domain_Addr d port (length d))"
  shows "prx_socks5_tunnel_wrapper junk client stale connect tape (client_greeting methods @ domain_request d port @ s) =
      Some (Inr \<lparr>tr_written = [[5, 0], [5, 0, 0, 3, of_nat (length d)] @ d @ le16 (htons port)],
        tr_closed = [connect (S5_Domain_Addr d port (length d)), client], tr_calls = calls\<rparr>)"
  using assms(3-)
  by (simp add: prx_socks5_tunnel_wrapper_def greeting_accepted [OF assms(1,2)] domain_request_read reply_for_domain
      SOCKS5_VERSION_def SOCKS5_AUTH_NO_AUTH_def SOCKS5_REP_SUCCESS_def SOCKS5_ATYP_DOMAIN_NAME_def)

text \<open>
  A client that offers to go without authentication and asks for an address gets the remote socket of
  exactly this address and a reply that repeats it, and its data is moved from there on.
\<close>

theorem socks5_connects:
  assumes "SOCKS5_AUTH_NO_AUTH \<in> set methods" and "length methods < 256" and "tunnel_loop tape = Some calls"
    and "length ip = 4" and "0 < connect (S5_Ip_Addr (na4 (inet_ntop4 ip) port))"
  shows "prx_socks5_tunnel_wrapper junk client stale connect tape (client_greeting methods @ ip_request ip port @ s) =
      Some (Inr \<lparr>tr_written = [[5, 0], [5, 0, 0, 1] @ ip @ le16 (htons port)],
        tr_closed = [connect (S5_Ip_Addr (na4 (inet_ntop4 ip) port)), client], tr_calls = calls\<rparr>)"
  using assms(3-)
  by (simp add: prx_socks5_tunnel_wrapper_def greeting_accepted [OF assms(1,2)] ip_request_read reply_for_ip
      SOCKS5_VERSION_def SOCKS5_AUTH_NO_AUTH_def SOCKS5_REP_SUCCESS_def SOCKS5_ATYP_IPV4_def)

theorem socks5_connects_witness:
  "prx_socks5_tunnel_wrapper [] 4 (-1) (\<lambda>_. 9) [(True, 1, [Input 1, Silent]), (False, 0, [])]
     (client_greeting [0] @ ip_request [10, 0, 0, 1] 80 @ []) =
     Some (Inr \<lparr>tr_written = [[5, 0], [5, 0, 0, 1] @ [10, 0, 0, 1] @ le16 (htons 80)], tr_closed = [9, 4], tr_calls = [0]\<rparr>)"
  by (rule socks5_connects) (simp_all add: SOCKS5_AUTH_NO_AUTH_def)

text \<open>
  A client that asks for a domain name of 252 to 255 bytes makes the proxy write past the end of its reply.
\<close>

theorem socks5_long_domain_overflow:
  assumes "SOCKS5_AUTH_NO_AUTH \<in> set methods" and "length methods < 256"
    and "251 < length d" and "length d < 256" and "0 \<notin> set d" and "0 \<le> connect (S5_Domain_Addr d port (length d))"
  shows "prx_socks5_tunnel_wrapper junk client stale connect tape (client_greeting methods @ domain_request d port @ s) =
    Some (Inl OutOfBounds)"
proof -
  have "d \<noteq> []" using assms(3) by auto
  then show ?thesis
    using assms(3-6) by (simp add: prx_socks5_tunnel_wrapper_def greeting_accepted [OF assms(1,2)] domain_request_read
        reply_for_domain)
qed

theorem socks5_long_domain_overflow_witness:
  "prx_socks5_tunnel_wrapper [] 4 (-1) (\<lambda>_. 9) [] (client_greeting [0] @ domain_request (replicate 252 97) 80 @ []) =
    Some (Inl OutOfBounds)"
  by (rule socks5_long_domain_overflow) (simp_all add: SOCKS5_AUTH_NO_AUTH_def)

subsection \<open>Failures\<close>

text \<open>An attempt that has timed out: the wait for its end gave nothing.\<close>

definition timed_out :: "attempt \<Rightarrow> bool" where
  "timed_out at \<longleftrightarrow> at_connect at = In_Progress \<and> at_wait at = 0"

lemma connect_to_v4:
  assumes "length ip = 4"
  shows "fst (connect_to lib sock at (ln_from_uint32 ip port)) = 0 \<longleftrightarrow> timed_out at"
    and "rfd (ts_fd (snd (connect_to lib sock at (ln_from_uint32 ip port)))) = rfd (ts_fd sock)"
proof -
  have "ln_from_uint32 ip port = na4 (inet_ntop4 ip) port"
    using length_inet_ntop4 [of ip] by (simp add: ln_from_uint32_def na_store4_def na4_def ln_make4_def zeros_def take_replicate)
  then show "fst (connect_to lib sock at (ln_from_uint32 ip port)) = 0 \<longleftrightarrow> timed_out at"
    and "rfd (ts_fd (snd (connect_to lib sock at (ln_from_uint32 ip port)))) = rfd (ts_fd sock)"
    using na4_fields [of "inet_ntop4 ip" port] length_inet_ntop4 [of ip] inet_ntop4_nonzero [of ip]
    by (auto simp: connect_to_def ln_tsock_connectx_def ln_tsock_connect_def ln_netfd_def inet_pton4_ntop4 [OF assms] timed_out_def
        Let_def split: connect_result.split)
qed

lemma resolve_loop_v4:
  assumes "\<forall>a \<in> set ais. length (fst (fst a)) = 4"
  defines "tried \<equiv> takeWhile (\<lambda>a. \<not> timed_out (snd (snd a))) ais"
  shows "\<exists>sock'. resolve_loop lib sock ais = (\<exists>a \<in> set ais. timed_out (snd (snd a)), sock', map (\<lambda>a. fst (snd a)) tried) \<and>
    (length tried < length ais \<longrightarrow> rfd (ts_fd sock') = fst (snd (ais ! length tried)))"
  using assms(1) unfolding tried_def
proof (induction ais arbitrary: sock)
  case (Cons x ais)
  obtain ip port fd at where x: "x = ((ip, port), fd, at)" by (cases x) auto
  have ip: "length ip = 4" using Cons.prems by (simp add: x)
  let ?s = "snd (ln_tsock_new fd 0 0 sock)"
  obtain r s1 where c: "connect_to lib ?s at (ln_from_uint32 ip (ntohs port)) = (r, s1)" by fastforce
  have s1: "r = 0 \<longleftrightarrow> timed_out at" "rfd (ts_fd s1) = fd"
    using connect_to_v4 [OF ip, of lib ?s at "ntohs port"] c by (simp_all add: ln_tsock_new_def Let_def)
  show ?case
  proof (cases "timed_out at")
    case True
    with c s1 show ?thesis by (simp add: x case_prod_beta)
  next
    case False
    with Cons.IH [of s1] Cons.prems c s1 show ?thesis by (auto simp: x case_prod_beta ln_tsock_close_def) force+
  qed
qed simp

text \<open>
  C32: the address of a domain name is reported as connected exactly if an attempt has timed out, and then the
  socket of the first such attempt is handed out; the descriptors of all the attempts before it, or of all when
  there is none, are closed, also those that were connected.
\<close>

theorem socks5_domain_never_connects:
  assumes "prx_resolve_address lib fd at (Some ais) (S5_Domain_Addr d port n) (Some sock) = (r, sock', closings)"
    and "\<forall>a \<in> set ais. length (fst (fst a)) = 4"
  defines "tried \<equiv> takeWhile (\<lambda>a. \<not> timed_out (snd (snd a))) ais"
  shows "closings = map (\<lambda>a. fst (snd a)) tried \<and>
    r = (if \<exists>a \<in> set ais. timed_out (snd (snd a)) then 0 else -1) \<and>
    (r = 0 \<longrightarrow> map_option (\<lambda>s. rfd (ts_fd s)) sock' = Some (fst (snd (ais ! length tried))))"
proof -
  obtain s' where s: "resolve_loop lib sock ais = (\<exists>a \<in> set ais. timed_out (snd (snd a)), s', map (\<lambda>a. fst (snd a)) tried)"
    "length tried < length ais \<longrightarrow> rfd (ts_fd s') = fst (snd (ais ! length tried))"
    using resolve_loop_v4 [OF assms(2), of lib sock] unfolding tried_def by blast
  have t: "length tried < length ais" if "\<exists>a \<in> set ais. timed_out (snd (snd a))"
    using that unfolding tried_def by (induction ais) auto
  show ?thesis
  proof (cases "\<exists>a \<in> set ais. timed_out (snd (snd a))")
    case True
    with assms(1) s t show ?thesis by (auto simp: prx_resolve_address_def)
  next
    case False
    with assms(1) s show ?thesis by (auto simp: prx_resolve_address_def)
  qed
qed

definition demo_attempt :: attempt where
  "demo_attempt = \<lparr>at_connect = Connected, at_wait = 0, at_error = 0\<rparr>"

text \<open>The socket before anything is resolved.\<close>

definition demo_tsock :: tcp_sock where
  "demo_tsock = \<lparr>ts_fd = \<lparr>rfd = -1, fd_addr = zero_sockaddr, fd_addr_len = 0\<rparr>, ts_addr = zeros 52\<rparr>"

text \<open>The first address is connected at once, the second one does not answer.\<close>

theorem socks5_domain_never_connects_witness:
  "\<exists>sock. prx_resolve_address demo_lib6 0 demo_attempt
     (Some [(([10, 0, 0, 1], 80), 5, demo_attempt), (([10, 0, 0, 2], 80), 6, demo_attempt\<lparr>at_connect := In_Progress\<rparr>)])
     (S5_Domain_Addr [97] 80 1) (Some demo_tsock) = (0, sock, [5]) \<and>
     map_option (\<lambda>s. rfd (ts_fd s)) sock = Some 6"
proof -
  let ?ais = "[(([10, 0, 0, 1], 80), 5, demo_attempt), (([10, 0, 0, 2], 80), 6, demo_attempt\<lparr>at_connect := In_Progress\<rparr>)]
    :: ((bytes \<times> u16) \<times> int \<times> attempt) list"
  obtain r sock closings where r: "prx_resolve_address demo_lib6 0 demo_attempt (Some ?ais)
     (S5_Domain_Addr [97] 80 1) (Some demo_tsock) = (r, sock, closings)"
    by (rule prod_cases3)
  from socks5_domain_never_connects [OF this] have "closings = [5] \<and> r = 0 \<and> map_option (\<lambda>s. rfd (ts_fd s)) sock = Some 6"
    by (simp add: demo_attempt_def timed_out_def)
  with r show ?thesis by blast
qed

text \<open>A refused request closes the descriptor of a socket that was never made.\<close>

lemma socks5_refusal_closes_stale:
  assumes "SOCKS5_AUTH_NO_AUTH \<in> set methods" and "length methods < 256"
  shows "prx_socks5_tunnel_wrapper junk client stale connect tape (client_greeting methods @ [5, 2, 0, 1] @ s) =
    Some (Inr \<lparr>tr_written = [[SOCKS5_VERSION, SOCKS5_AUTH_NO_AUTH]], tr_closed = [stale, client], tr_calls = []\<rparr>)"
proof -
  have "read_obj junk 4 ([5, 2, 0, 1] @ s) = (4, [5, 2, 0, 1], s)" using read_obj_full [of "[5, 2, 0, 1]" 4] by simp
  then have "prx_socks5_handle_request junk ([5, 2, 0, 1] @ s) = (-1, None, s)"
    by (simp add: prx_socks5_handle_request_def SOCKS5_VERSION_def SOCKS5_CMD_CONNECT_def)
  then show ?thesis
    by (simp add: prx_socks5_tunnel_wrapper_def greeting_accepted [OF assms])
qed

end
