(* ===== verification/State_Server.thy ===== *)
theory State_Server
  imports Systems
begin

text \<open>
  \<open>code/stating/src/server.c\<close>: the state server, by which peers find each other. Its handler
  answers an announcement with those of the others and keeps it. Whether \<open>malloc\<close> gives a buffer is
  an argument; \<open>Server_Main\<close> has \<open>main\<close>, which runs this handler on the earlier interface.

  The lemmas: an answer is in the format that a node reads, and gives it exactly the announcements of
  the others; but the handler takes every slot of the ring for an announcement, so that the first
  thousand announcements are not answered at all.
\<close>

record state_server =
  ss_sender :: "nnet_fd pvd_sender"
  pending_peers :: "(state_request \<times> nnet_fd) prot_queue"
  ss_new_request :: mt_eventsock

text \<open>The requests in the slots of the ring that are not of this UID, read under the lock.\<close>

definition other_requests :: "u32 \<Rightarrow> (state_request \<times> nnet_fd) prot_queue \<Rightarrow> state_request list" where
  "other_requests uid q = filter (\<lambda>r. sr_uid r \<noteq> uid) (map fst (slots q))"

definition peer_list ::
  "u32 \<Rightarrow> (state_request \<times> nnet_fd) prot_queue \<Rightarrow>
   fault + state_request list \<times> (state_request \<times> nnet_fd) prot_queue" where
  "peer_list uid q =
     bind_fault (prot_array_lock (pq_arr q)) (\<lambda>a.
     let q = q\<lparr>pq_arr := a\<rparr> in
     Inr (other_requests uid q, q\<lparr>pq_arr := prot_array_unlock (pq_arr q)\<rparr>))"

fun translated_bytes :: "state_request list \<Rightarrow> fault + bytes" where
  "translated_bytes [] = Inr []"
| "translated_bytes (r # rs) =
     bind_fault (state_retranslate r) (\<lambda>t.
     bind_fault (translated_bytes rs) (\<lambda>bs. Inr (state_bytes t @ bs)))"

definition state_handler ::
  "sodium \<Rightarrow> state_request \<times> nnet_fd \<Rightarrow> bool \<Rightarrow> protopack \<Rightarrow> nnet_fd \<Rightarrow> state_server \<Rightarrow>
   fault + int \<times> state_server" where
  "state_handler so z mem pck fd serv =
     (if unat (d_size pck) \<noteq> STATE_REQUEST_SIZE then Inr (-1, serv)
      else
        bind_fault (state_rreceive so (data pck)) (\<lambda>(_, out).
        case out of
          None \<Rightarrow> Inr (-1, serv)
        | Some r \<Rightarrow>
            bind_fault (peer_list (sr_uid r) (pending_peers serv)) (\<lambda>(counted, q).
            let peers_count = length counted; serv = serv\<lparr>pending_peers := q\<rparr>;
                data_size = 4 + peers_count * STATE_REQUEST_SIZE in
            if \<not> mem then Inr (-1, serv)
            else
              bind_fault (peer_list (sr_uid r) (pending_peers serv)) (\<lambda>(written, q).
              bind_fault (translated_bytes written) (\<lambda>bs.
              let response_buffer = le32 (htonl (of_nat peers_count)) @ bs;
                  pack_response = udp_make_pack 0 0 (sr_uid r) PACK_STATE (Some response_buffer) data_size in
              bind_fault (pvd_sender_send (ss_sender serv) pack_response fd) (\<lambda>(_, s).
              bind_fault (prot_queue_upush z q (r, fd)) (\<lambda>(_, q).
              Inr (0, serv\<lparr>ss_sender := s, pending_peers := q\<rparr>))))))))"

definition uid_filter :: "state_request \<times> nnet_fd \<Rightarrow> u32 \<Rightarrow> bool" where
  "uid_filter elem ctx \<longleftrightarrow> sr_uid (fst elem) = ctx"

text \<open>The packets that arrive, with the result of the allocation for each.\<close>

fun state_server_run ::
  "sodium \<Rightarrow> state_request \<times> nnet_fd \<Rightarrow> (protopack \<times> nnet_fd \<times> bool) list \<Rightarrow> state_server \<Rightarrow>
   fault + int list \<times> state_server" where
  "state_server_run so z [] serv = Inr ([], serv)"
| "state_server_run so z ((pck, fd, mem) # ps) serv =
     bind_fault (state_handler so z mem pck fd serv) (\<lambda>(r, serv).
     bind_fault (state_server_run so z ps serv) (\<lambda>(rs, serv). Inr (r # rs, serv)))"

text \<open>The queue as \<open>main\<close> creates it; \<open>z\<close> is a request of zero bytes.\<close>

definition state_server_init :: "nnet_fd pvd_sender \<Rightarrow> state_request \<times> nnet_fd \<Rightarrow> state_server" where
  "state_server_init s z =
     \<lparr>ss_sender = s, pending_peers = snd (prot_queue_create True z 308), ss_new_request = snd mt_evsock_new\<rparr>"

subsection \<open>Lemmas\<close>

lemma peer_list_ok: "pq_wf q \<Longrightarrow> peer_list u q = Inr (other_requests u q, q)"
  by (cases q; cases "pq_arr q") (simp add: peer_list_def pq_wf_def prot_array_lock_def prot_array_unlock_def
      mutex_lock_def mutex_unlock_def other_requests_def)

lemma retranslate_oob: "only_oob (state_retranslate r)"
  unfolding state_retranslate_def by (rule only_oob_bind [OF ln_hton_oob]) simp

lemma translated_bytes_oob: "only_oob (translated_bytes rs)"
  by (induction rs) (auto intro!: only_oob_bind retranslate_oob)

text \<open>The slots behind a new element.\<close>

lemma upush_slots:
  assumes "prot_queue_upush z q x = Inr (r, q')" and "pq_count q < pq_cap q"
  shows "pq_count q' \<le> pq_count q + 1 \<and> (slots q' = slots q \<or> slots q' = (slots q)[pq_tail q := x])"
  using assms
  by (auto simp: prot_queue_upush_def pq_locked_def prot_queue_push_unsafe_def bind_fault_Inr_iff Let_def
      prot_array_lock_def prot_array_unlock_def mutex_lock_def mutex_unlock_def split: if_splits)

text \<open>What the handler does with an accepted request.\<close>

lemma state_handler_accepted:
  assumes "unat (d_size pck) = STATE_REQUEST_SIZE" and "state_rreceive so (data pck) = Inr (rc, Some r)"
    and "pq_wf (pending_peers serv)"
  defines "others \<equiv> other_requests (sr_uid r) (pending_peers serv)"
  shows "state_handler so z True pck fd serv =
    bind_fault (translated_bytes others) (\<lambda>bs.
    bind_fault (pvd_sender_send (ss_sender serv) (udp_make_pack 0 0 (sr_uid r) PACK_STATE
        (Some (le32 (htonl (of_nat (length others))) @ bs)) (4 + length others * STATE_REQUEST_SIZE)) fd) (\<lambda>(_, s).
    bind_fault (prot_queue_upush z (pending_peers serv) (r, fd)) (\<lambda>(_, q).
    Inr (0, serv\<lparr>ss_sender := s, pending_peers := q\<rparr>))))"
  using assms(1-3) by (simp add: state_handler_def peer_list_ok others_def Let_def)

subsection \<open>The first thousand announcements\<close>

definition mostly_empty :: "nat \<Rightarrow> state_server \<Rightarrow> bool" where
  "mostly_empty n serv \<longleftrightarrow>
     (let q = pending_peers serv in
      pq_wf q \<and> pq_cap q = 1024 \<and> pq_count q \<le> n \<and>
      1024 \<le> n + length (filter (\<lambda>r. sr_uid r = 0) (map fst (slots q))))"

lemma filter_update: "length (filter P xs) \<le> length (filter P (xs[i := x])) + 1"
proof (induction xs arbitrary: i)
  case (Cons a xs)
  show ?case
  proof (cases i)
    case (Suc j)
    then show ?thesis using Cons.IH [of j] by simp
  qed simp
qed simp

lemma many_others:
  assumes "mostly_empty n serv" and "u \<noteq> 0"
  shows "1024 \<le> n + length (other_requests u (pending_peers serv))"
proof -
  have "length (filter (\<lambda>r. sr_uid r = 0) rs) \<le> length (filter (\<lambda>r. sr_uid r \<noteq> u) rs)" for rs :: "state_request list"
    using assms(2) by (induction rs) auto
  from this [of "map fst (slots (pending_peers serv))"] show ?thesis
    using assms(1) by (simp add: mostly_empty_def other_requests_def Let_def)
qed

lemma mostly_empty_upush:
  assumes "mostly_empty n serv" and "n < 1024"
  shows "\<exists>q. prot_queue_upush z (pending_peers serv) x = Inr (0, q) \<and> mostly_empty (Suc n) (serv\<lparr>ss_sender := s, pending_peers := q\<rparr>)"
proof -
  let ?q = "pending_peers serv"
  have wf: "pq_wf ?q" and c: "pq_count ?q < pq_cap ?q" using assms by (simp_all add: mostly_empty_def Let_def)
  obtain q where q: "prot_queue_upush z ?q x = Inr (0, q)" "pq_wf q" using prot_queue_upush_ok [OF wf, of z x] by blast
  note u = upush_slots [OF q(1) c]
  then have "length (filter (\<lambda>r. sr_uid r = 0) (map fst (slots ?q))) \<le> length (filter (\<lambda>r. sr_uid r = 0) (map fst (slots q))) + 1"
    using filter_update [of "\<lambda>r. sr_uid r = 0" "map fst (slots ?q)" "pq_tail ?q" "fst x"]
    by (auto simp: map_update simp del: length_filter_map)
  then show ?thesis using assms(1) q u by (auto simp: mostly_empty_def Let_def simp del: length_filter_map)
qed

lemma state_handler_silent:
  assumes "mostly_empty n serv" and "n < 1016" and "\<And>rc r. state_rreceive so (data pck) = Inr (rc, Some r) \<Longrightarrow> sr_uid r \<noteq> 0"
  shows "ok_run (\<lambda>serv'. mostly_empty (Suc n) serv' \<and> ss_sender serv' = ss_sender serv) (state_handler so z mem pck fd serv)"
proof -
  have wf: "pq_wf (pending_peers serv)" using assms(1) by (simp add: mostly_empty_def Let_def)
  have keep: "mostly_empty (Suc n) serv" using assms(1) by (auto simp: mostly_empty_def Let_def)
  show ?thesis
  proof (cases "unat (d_size pck) = STATE_REQUEST_SIZE \<and> mem \<and> (\<exists>rc r. state_rreceive so (data pck) = Inr (rc, Some r))")
    case True
    then obtain rc r where r: "state_rreceive so (data pck) = Inr (rc, Some r)" by blast
    let ?o = "other_requests (sr_uid r) (pending_peers serv)"
    have "9 \<le> length ?o" using many_others [OF assms(1), of "sr_uid r"] assms(2) assms(3) [OF r] by simp
    then have "udp_make_pack a b c ty pl (4 + length ?o * STATE_REQUEST_SIZE) = None" for a b c ty pl
      by (simp add: udp_make_pack_def PROTOCOL_OVERHEAD_def UDP_MTU_def STATE_REQUEST_SIZE_def)
    moreover obtain q where "prot_queue_upush z (pending_peers serv) (r, fd) = Inr (0, q)"
        "mostly_empty (Suc n) (serv\<lparr>ss_sender := ss_sender serv, pending_peers := q\<rparr>)"
      using mostly_empty_upush [OF assms(1), of z "(r, fd)" "ss_sender serv"] assms(2) by auto
    ultimately show ?thesis
      using True translated_bytes_oob [of ?o] state_handler_accepted [OF _ r wf, of z fd]
      by (cases "translated_bytes ?o") (auto simp: pvd_sender_send_def ok_run_def)
  next
    case False
    then show ?thesis
      using keep wf state_rreceive_oob [of so "data pck"]
      by (cases "state_rreceive so (data pck)") (auto simp: state_handler_def peer_list_ok ok_run_def split: option.splits)
  qed
qed

lemma state_server_run_silent:
  assumes "mostly_empty n serv" and "n + length ps \<le> 1016"
    and "\<forall>(pck, _) \<in> set ps. \<forall>rc r. state_rreceive so (data pck) = Inr (rc, Some r) \<longrightarrow> sr_uid r \<noteq> 0"
  shows "ok_run (\<lambda>serv'. ss_sender serv' = ss_sender serv) (state_server_run so z ps serv)"
  using assms
proof (induction ps arbitrary: n serv)
  case (Cons p ps)
  obtain pck fd mem where p: "p = (pck, fd, mem)" by (cases p)
  have h: "ok_run (\<lambda>serv'. mostly_empty (Suc n) serv' \<and> ss_sender serv' = ss_sender serv) (state_handler so z mem pck fd serv)"
    using Cons.prems by (intro state_handler_silent) (auto simp: p)
  show ?case
  proof (cases "state_handler so z mem pck fd serv")
    case (Inl f)
    with h show ?thesis by (simp add: p ok_run_def)
  next
    case (Inr x)
    then obtain rc s1 where x: "state_handler so z mem pck fd serv = Inr (rc, s1)" "mostly_empty (Suc n) s1" "ss_sender s1 = ss_sender serv"
      using h by (cases x) auto
    have "ok_run (\<lambda>serv'. ss_sender serv' = ss_sender s1) (state_server_run so z ps s1)"
      using Cons.prems x(2) by (intro Cons.IH) auto
    then show ?thesis using x(1,3) by (cases "state_server_run so z ps s1") (auto simp: p ok_run_def)
  qed
qed simp

text \<open>
  The state server does not answer any of the first 1016 packets that it gets, whatever they announce: every
  empty slot of its ring counts as an announcement, and a list of a thousand does not fit a packet.
\<close>

theorem state_server_silent:
  assumes "length ps \<le> 1016" and "sr_uid (fst z) = 0"
    and "\<forall>(pck, _) \<in> set ps. \<forall>rc r. state_rreceive so (data pck) = Inr (rc, Some r) \<longrightarrow> sr_uid r \<noteq> 0"
  shows "ok_run (\<lambda>serv. ss_sender serv = s) (state_server_run so z ps (state_server_init s z))"
proof -
  have "mostly_empty 0 (state_server_init s z)"
    using pq_create_ok [of z 308] assms(2)
    by (simp add: mostly_empty_def state_server_init_def prot_queue_create_def pq_set_array_def Let_def pq_wf_def
        prot_array_create_def)
  from state_server_run_silent [OF this _ assms(3)] assms(1) show ?thesis by (simp add: state_server_init_def)
qed

definition demo_packet :: protopack where
  "demo_packet = \<lparr>seq = 0, chsum = 0, d_size = 168, h_from = 3, h_to = 0, packtype = 0,
     data = state_bytes \<lparr>sr_addr = na4 [49, 46, 50] 7000, sr_uid = htonl (crypto_pubkey_to_uid demo_sodium (replicate 32 3)),
       sr_pubkey = replicate 32 3, sr_signature = zeros 64, sr_type = 0, sr_nonce = 5, sr_timestamp = 9\<rparr>\<rparr>"

theorem state_server_silent_witness:
  "\<forall>s fd. ok_run (\<lambda>serv. ss_sender serv = s) (state_server_run demo_sodium
     (\<lparr>sr_addr = zeros 52, sr_uid = 0, sr_pubkey = zeros 32, sr_signature = zeros 64, sr_type = 0, sr_nonce = 0,
       sr_timestamp = 0\<rparr>, fd) (replicate 1000 (demo_packet, fd, True))
     (state_server_init s (\<lparr>sr_addr = zeros 52, sr_uid = 0, sr_pubkey = zeros 32, sr_signature = zeros 64, sr_type = 0,
       sr_nonce = 0, sr_timestamp = 0\<rparr>, fd)))"
proof (intro allI state_server_silent)
  have k: "sr_pubkey (state_of_bytes (data demo_packet)) = replicate 32 3"
    using state_of_state_bytes [of "\<lparr>sr_addr = na4 [49, 46, 50] 7000, sr_uid = htonl (crypto_pubkey_to_uid demo_sodium (replicate 32 3)),
       sr_pubkey = replicate 32 3, sr_signature = zeros 64, sr_type = 0, sr_nonce = 5, sr_timestamp = 9\<rparr>" "[]"]
    by (simp add: demo_packet_def state_ok_def na4_fields)
  have "crypto_pubkey_to_uid demo_sodium (replicate 32 3) \<noteq> 0"
    by code_simp
  then show "\<forall>(pck, _) \<in> set (replicate 1000 (demo_packet, fd, True)).
      \<forall>rc r. state_rreceive demo_sodium (data pck) = Inr (rc, Some r) \<longrightarrow> sr_uid r \<noteq> 0" for fd
    using state_rreceive_accepts [of demo_sodium "data demo_packet"] k by auto
qed simp_all

subsection \<open>An answer\<close>

text \<open>A request that a peer with an IPv4 address made and the server accepted.\<close>

definition announced :: "sodium \<Rightarrow> state_request \<Rightarrow> bool" where
  "announced so r \<longleftrightarrow>
     (\<exists>ip port s rnd now req. length ip < 16 \<and> 0 \<notin> set ip \<and> id_pub s = so_sign_pub so (id_sec s) \<and> length (id_pub s) = 32 \<and>
        state_rcreate so rnd now (na4 ip port) (crypto_pubkey_to_uid so (id_pub s)) REQUEST_PEERS s = Inr req \<and>
        state_rreceive so (state_bytes req) = Inr (0, Some r))"

text \<open>The server sends such a request on as it was signed.\<close>

lemma announced_translated:
  assumes "sodium_ok so" and "announced so r"
  shows "\<exists>t. state_ok t \<and> state_retranslate r = Inr t \<and> (\<forall>rest. state_rreceive so (state_bytes t @ rest) = Inr (0, Some r))"
proof -
  from assms(2) obtain ip port s rnd now t where ip: "length ip < 16" "0 \<notin> set ip"
    and s: "id_pub s = so_sign_pub so (id_sec s)" "length (id_pub s) = 32"
    and t: "state_rcreate so rnd now (na4 ip port) (crypto_pubkey_to_uid so (id_pub s)) REQUEST_PEERS s = Inr t"
    and r: "state_rreceive so (state_bytes t) = Inr (0, Some r)"
    unfolding announced_def by blast
  from t have f: "sr_addr t = na4 ip (htons port)" "length (sr_signature t) = 64" "sr_pubkey t = id_pub s"
    using assms(1) by (auto simp: state_rcreate_def ln_hton_na4 [OF ip] sign_data_def sodium_ok_def Let_def)
  then have ok: "state_ok t" using s(2) na4_fields(1) [OF ip] by (simp add: state_ok_def)
  have eq: "state_of_bytes (state_bytes t @ rest) = t" for rest by (rule state_of_state_bytes [OF ok])
  have more: "state_rreceive so (state_bytes t @ rest) = state_rreceive so (state_bytes t)" for rest
    using length_state_bytes [OF ok] eq [of "[]"] by (simp add: state_rreceive_def eq)
  have "r = t\<lparr>sr_addr := na4 ip port, sr_uid := ntohl (sr_uid t), sr_nonce := ntohl (sr_nonce t), sr_timestamp := ntohll (sr_timestamp t)\<rparr>"
    using r eq [of "[]"] by (auto simp: state_rreceive_def f ln_hton_na4 [OF ip] Let_def split: if_splits)
  then have "state_retranslate r = Inr t" using f(1) by (simp add: state_retranslate_def ln_hton_na4 [OF ip])
  then show ?thesis using ok more r by auto
qed

lemma translated_bytes_announced:
  assumes "sodium_ok so" and "\<forall>r \<in> set rs. announced so r"
  shows "\<exists>bs. translated_bytes rs = Inr bs \<and> length bs = length rs * STATE_REQUEST_SIZE \<and>
    (\<forall>i < length rs. state_rreceive so (drop (i * STATE_REQUEST_SIZE) bs) = Inr (0, Some (rs ! i)))"
  using assms(2)
proof (induction rs)
  case (Cons r rs)
  then obtain bs where bs: "translated_bytes rs = Inr bs" "length bs = length rs * STATE_REQUEST_SIZE"
    "\<forall>i < length rs. state_rreceive so (drop (i * STATE_REQUEST_SIZE) bs) = Inr (0, Some (rs ! i))" by auto
  from announced_translated [OF assms(1), of r] Cons.prems obtain t where t: "state_ok t" "state_retranslate r = Inr t"
    "\<forall>rest. state_rreceive so (state_bytes t @ rest) = Inr (0, Some r)" by auto
  have "state_rreceive so (drop (i * STATE_REQUEST_SIZE) (state_bytes t @ bs)) = Inr (0, Some ((r # rs) ! i))"
    if "i < length (r # rs)" for i
    using that bs(3) t(3) length_state_bytes [OF t(1)] by (cases i) simp_all
  then show ?case using bs(1,2) t(2) length_state_bytes [OF t(1)] by simp
qed simp

text \<open>What a node with the UID \<open>own\<close> takes from the \<open>j\<close>-th entry of an answer.\<close>

definition taken :: "env \<Rightarrow> u32 \<Rightarrow> state_request list \<Rightarrow> nat \<Rightarrow> bool" where
  "taken e own rs j \<longleftrightarrow> sr_uid (rs ! j) \<noteq> own \<and> \<not> 30 \<le> sint (word_of_int (e_secs e j) - sr_timestamp (rs ! j))"

lemma taken_Suc:
  "(\<lambda>j. (rs ! j, a)) ` {j \<in> {i..<i + Suc n}. P j} =
   (if P i then insert (rs ! i, a) else id) ((\<lambda>j. (rs ! j, a)) ` {j \<in> {Suc i..<Suc i + n}. P j})"
proof -
  have "{i..<i + Suc n} = insert i {Suc i..<Suc i + n}" by auto
  then show ?thesis by (auto simp: image_iff)
qed

lemma upush_set:
  assumes "pq_wf q"
  shows "\<exists>q'. prot_queue_upush z q x = Inr (0, q') \<and> pq_wf q' \<and> set (ring q') = insert x (set (ring q))"
  using prot_queue_upush_ok [OF assms, of z x] by (auto split: if_splits)

lemma unat_small: "n < 2 ^ 32 \<Longrightarrow> unat (of_nat n :: u32) = n"
  by (simp add: unsigned_of_nat take_bit_nat_eq_self)

lemma state_loop_heard:
  assumes "\<forall>j \<in> {i..<i + n}. state_rreceive (e_so e) (drop (j * STATE_REQUEST_SIZE) dat) = Inr (0, Some (rs ! j))"
    and "pq_wf (new_state_ans (ac_ssystem c))" and "ln_nfd2addr (e_lib e) fd = Inr a"
  shows "\<exists>c'. state_loop e dat n i fd c = Inr c' \<and> set (ring (new_state_ans (ac_ssystem c'))) =
    set (ring (new_state_ans (ac_ssystem c))) \<union> (\<lambda>j. (rs ! j, a)) ` {j \<in> {i..<i + n}. taken e (ctx_uid c) rs j}"
  using assms(1,2)
proof (induction n arbitrary: i c)
  case (Suc n)
  let ?q = "new_state_ans (ac_ssystem c)" and ?r = "rs ! i"
  have r: "state_rreceive (e_so e) (drop (i * STATE_REQUEST_SIZE) dat) = Inr (0, Some ?r)" using Suc.prems(1) by simp
  have rest: "\<forall>j \<in> {Suc i..<Suc i + n}.
      state_rreceive (e_so e) (drop (j * STATE_REQUEST_SIZE) dat) = Inr (0, Some (rs ! j))" using Suc.prems(1) by simp
  show ?case
  proof (cases "taken e (ctx_uid c) rs i")
    case False
    then show ?thesis
      using Suc.IH [OF rest Suc.prems(2)] r unfolding taken_Suc by (auto simp: taken_def)
  next
    case True
    obtain q where q: "prot_queue_upush (e_fill e) ?q (?r, a) = Inr (0, q)" "pq_wf q"
      "set (ring q) = insert (?r, a) (set (ring ?q))"
      using upush_set [OF Suc.prems(2), of "e_fill e" "(?r, a)"] by blast
    let ?c = "c\<lparr>ac_ssystem := (ac_ssystem c)\<lparr>new_state_ans := q, new_state_fd := mt_evsock_notify (new_state_fd (ac_ssystem c))\<rparr>\<rparr>"
    from Suc.IH [OF rest, of ?c] q(2,3) obtain c' where c': "state_loop e dat n (Suc i) fd ?c = Inr c'"
      "set (ring (new_state_ans (ac_ssystem c'))) =
       insert (?r, a) (set (ring ?q)) \<union> (\<lambda>j. (rs ! j, a)) ` {j \<in> {Suc i..<Suc i + n}. taken e (ctx_uid c) rs j}" by auto
    then have "state_loop e dat (Suc n) i fd c = Inr c'"
      using r True q(1) assms(3) by (simp add: state_sys_new_ans_def taken_def)
    then show ?thesis using c'(2) True unfolding taken_Suc by auto
  qed
qed simp

text \<open>
  The two formats fit: when the list of the others fits a packet, that is when at most eight slots of the whole ring hold a
  request of another UID, the answer gives a node that gets it exactly these announcements, unaltered, save those that are
  older than half a minute. A server as it runs seldom gets that far: see \<open>state_server_silent\<close> and \<open>Server_Main\<close>.
\<close>

lemma state_server_introduces:
  assumes "sodium_ok (e_so e)" and "pq_wf (pending_peers serv)"
    and "unat (d_size pck) = STATE_REQUEST_SIZE" and "state_rreceive (e_so e) (data pck) = Inr (rc, Some r)"
    and "length (other_requests (sr_uid r) (pending_peers serv)) \<le> 8"
    and "\<forall>x \<in> set (other_requests (sr_uid r) (pending_peers serv)). announced (e_so e) x"
    and "pq_wf (new_state_ans (ac_ssystem c))" and "ln_nfd2addr (e_lib e) srv = Inr a"
  defines "rs \<equiv> other_requests (sr_uid r) (pending_peers serv)"
  shows "\<exists>serv' p c'. state_handler (e_so e) z True pck fd serv = Inr (0, serv') \<and>
    s_packets (ss_sender serv') = s_packets (ss_sender serv) @ [(p, fd)] \<and> h_to p = sr_uid r \<and>
    set (ring (pending_peers serv')) = insert (r, fd) (set (ring (pending_peers serv))) \<and>
    soter2_hnd_STATE e p srv c = Inr (0, c') \<and>
    set (ring (new_state_ans (ac_ssystem c'))) =
      set (ring (new_state_ans (ac_ssystem c))) \<union> (\<lambda>j. (rs ! j, a)) ` {j \<in> {0..<length rs}. taken e (ctx_uid c) rs j}"
proof -
  let ?n = "length rs"
  have n: "?n \<le> 8" using assms(5) by (simp add: rs_def)
  obtain bs where bs: "translated_bytes rs = Inr bs" "length bs = ?n * STATE_REQUEST_SIZE"
    "\<forall>i < ?n. state_rreceive (e_so e) (drop (i * STATE_REQUEST_SIZE) bs) = Inr (0, Some (rs ! i))"
    using translated_bytes_announced [OF assms(1), of rs] assms(6) unfolding rs_def by blast
  let ?buf = "le32 (htonl (of_nat ?n)) @ bs" and ?size = "4 + ?n * STATE_REQUEST_SIZE"
  have small: "?n * STATE_REQUEST_SIZE \<le> 1344" using n by (simp add: STATE_REQUEST_SIZE_def)
  let ?p = "\<lparr>seq = 0, chsum = 0, d_size = of_nat ?size, h_from = 0, h_to = sr_uid r, packtype = pt_code PACK_STATE,
    data = ?buf\<rparr>"
  have mk: "udp_make_pack 0 0 (sr_uid r) PACK_STATE (Some ?buf) ?size = Some ?p"
    using small bs(2) by (simp add: udp_make_pack_def PROTOCOL_OVERHEAD_def UDP_MTU_def)
  have size: "unat (d_size ?p) = ?size" using small unat_small [of ?size] by simp
  have cnt: "unat (ntohl (of_le32 (data ?p))) = ?n" using n unat_small [of ?n] by simp
  have ok: "pack_ok ?p" using size small bs(2) by (simp add: pack_ok_def PROTOCOL_OVERHEAD_def UDP_MTU_def)
  obtain q where q: "prot_queue_upush z (pending_peers serv) (r, fd) = Inr (0, q)"
    "set (ring q) = insert (r, fd) (set (ring (pending_peers serv)))"
    using upush_set [OF assms(2), of z "(r, fd)"] by blast
  have h: "state_handler (e_so e) z True pck fd serv = Inr (0, serv\<lparr>ss_sender := (ss_sender serv)
      \<lparr>s_packets := s_packets (ss_sender serv) @ [(?p, fd)], s_newpack := mt_evsock_notify (s_newpack (ss_sender serv))\<rparr>,
      pending_peers := q\<rparr>)"
    using state_handler_accepted [OF assms(3,4,2), of z fd, folded rs_def] bs(1) mk q(1) pvd_sender_send_ok [OF ok, of "ss_sender serv" fd]
    by simp
  obtain c' where c': "state_loop e bs ?n 0 srv c = Inr c'" "set (ring (new_state_ans (ac_ssystem c'))) =
      set (ring (new_state_ans (ac_ssystem c))) \<union> (\<lambda>j. (rs ! j, a)) ` {j \<in> {0..<?n}. taken e (ctx_uid c) rs j}"
    using state_loop_heard [of 0 ?n e bs rs, OF _ assms(7,8)] bs(3) by auto
  have "drop 4 (data ?p) = bs" "\<not> unat (d_size ?p) < 4" "\<not> length (data ?p) < 4" using size by simp_all
  then have "soter2_hnd_STATE e ?p srv c = Inr (0, c')"
    using c'(1) size cnt by (simp add: soter2_hnd_STATE_def Let_def del: of_le32.simps)
  with h c'(2) q(2) show ?thesis by auto
qed

end
