(* ===== verification/Logging.thy ===== *)
theory Logging
  imports Lownet
begin

text \<open>
  \<open>logging/src/logging.c\<close>: log lines. A line is put together in a buffer of 4096 bytes by calls of
  \<open>snprintf\<close>; \<open>text\<close> arguments are what a format and its arguments give. The local time as \<open>strftime\<close>
  prints it, what the buffer holds before and whether the descriptor is a terminal are arguments.

  The lemmas: a line that fits is written as a whole, and a line that is longer than the buffer is
  written past its end.
\<close>

datatype logger_type = LOG_DEBUG | LOG_INFO | LOG_WARNING | LOG_ERROR | LOG_FATAL

fun level_no :: "logger_type \<Rightarrow> nat" where
  "level_no LOG_DEBUG = 0"
| "level_no LOG_INFO = 1"
| "level_no LOG_WARNING = 2"
| "level_no LOG_ERROR = 3"
| "level_no LOG_FATAL = 4"

record slogger =
  lg_ofd :: int
  lg_min_level :: logger_type
  lg_use_colors :: bool
  lg_use_timestamp :: bool

definition level_names :: "bytes list" where
  "level_names = map str [''DEBUG'', ''INFO'', ''WARNING'', ''ERROR'', ''FATAL'']"

definition level_colors :: "bytes list" where
  "level_colors = map (\<lambda>n. 27 # str n) [''[36m'', ''[32m'', ''[33m'', ''[31m'', ''[35m'']"

definition color_reset :: bytes where
  "color_reset = 27 # str ''[0m''"

definition logger_init :: "bool \<Rightarrow> int \<Rightarrow> slogger" where
  "logger_init tty fd = \<lparr>lg_ofd = fd, lg_min_level = LOG_DEBUG, lg_use_colors = tty, lg_use_timestamp = True\<rparr>"

definition logger_set_level :: "slogger option \<Rightarrow> logger_type \<Rightarrow> slogger option" where
  "logger_set_level l level = map_option (\<lambda>l. l\<lparr>lg_min_level := level\<rparr>) l"

definition logger_set_colors :: "slogger option \<Rightarrow> bool \<Rightarrow> slogger option" where
  "logger_set_colors l enable = map_option (\<lambda>l. l\<lparr>lg_use_colors := enable\<rparr>) l"

definition logger_set_timestamp :: "slogger option \<Rightarrow> bool \<Rightarrow> slogger option" where
  "logger_set_timestamp l enable = map_option (\<lambda>l. l\<lparr>lg_use_timestamp := enable\<rparr>) l"

text \<open>The descriptor that is closed, if any.\<close>

definition logger_stop :: "slogger option \<Rightarrow> int option" where
  "logger_stop l =
     (case l of None \<Rightarrow> None | Some l \<Rightarrow> if lg_ofd l \<noteq> 1 \<and> lg_ofd l \<noteq> 2 then Some (lg_ofd l) else None)"

text \<open>
  \<open>offset += snprintf(buffer + offset, sizeof(buffer) - offset, \<dots>)\<close>: the offset grows by the length of
  the whole text. An offset beyond the size wraps the difference around to a size without bound, and the
  text goes where the offset points.
\<close>

definition append_text :: "bytes \<Rightarrow> bytes \<times> nat \<Rightarrow> fault + bytes \<times> nat" where
  "append_text text b =
     (let (buffer, offset) = b; size = 4096 - offset in
      if 4096 < offset then Inl OutOfBounds
      else if size = 0 then Inr (buffer, offset + length text)
      else
        let out = take (size - 1) text @ [0] in
        Inr (take offset buffer @ out @ drop (offset + length out) buffer, offset + length text))"

text \<open>A level, in seven columns.\<close>

definition level_text :: "slogger \<Rightarrow> logger_type \<Rightarrow> bytes" where
  "level_text l t =
     (let name = level_names ! level_no t; padded = name @ replicate (7 - length name) 32 in
      if lg_use_colors l then level_colors ! level_no t @ padded @ color_reset else padded)"

text \<open>The bytes that are written, if any, and whether the process ends.\<close>

definition slog :: "bytes \<Rightarrow> bytes \<Rightarrow> slogger option \<Rightarrow> logger_type \<Rightarrow> bytes \<Rightarrow> fault + bytes option \<times> bool" where
  "slog junk time_buffer l t text =
     (case l of
        None \<Rightarrow> Inr (None, False)
      | Some l \<Rightarrow>
          if level_no t < level_no (lg_min_level l) then Inr (None, False)
          else
            bind_fault
              (if lg_use_timestamp l then append_text ([91] @ time_buffer @ [93, 32]) (junk, 0) else Inr (junk, 0)) (\<lambda>b.
            bind_fault (append_text (level_text l t) b) (\<lambda>b.
            bind_fault (append_text [58, 32] b) (\<lambda>b.
            bind_fault (append_text text b) (\<lambda>b.
            bind_fault (append_text [10] b) (\<lambda>(buffer, _).
            Inr (Some (cstr buffer), t = LOG_FATAL)))))))"

subsection \<open>Lemmas\<close>

text \<open>What stands before the message.\<close>

definition line_head :: "bytes \<Rightarrow> slogger \<Rightarrow> logger_type \<Rightarrow> bytes" where
  "line_head time_buffer l t =
     (if lg_use_timestamp l then [91] @ time_buffer @ [93, 32] else []) @ level_text l t @ [58, 32]"

text \<open>A buffer that holds a text as far as it fits, and the offset behind the text.\<close>

definition holds :: "bytes \<Rightarrow> bytes \<times> nat \<Rightarrow> bool" where
  "holds xs b \<longleftrightarrow> length (fst b) = 4096 \<and> snd b = length xs \<and>
     take (min (length xs) 4095) (fst b) = take 4095 xs \<and> (xs \<noteq> [] \<longrightarrow> fst b ! min (length xs) 4095 = 0)"

lemma append_text_holds:
  assumes "holds xs b" and "length xs \<le> 4096" and "xs \<noteq> [] \<or> text \<noteq> []"
  shows "\<exists>b'. append_text text b = Inr b' \<and> holds (xs @ text) b'"
proof (cases "length xs = 4096")
  case True
  then have "min (length xs) 4095 = 4095" "min (length (xs @ text)) 4095 = 4095" "xs \<noteq> []" by auto
  moreover obtain buf where b: "b = (buf, 4096)" using assms(1) True by (cases b) (simp add: holds_def)
  moreover have "append_text text b = Inr (buf, 4096 + length text)" by (simp add: b append_text_def)
  ultimately show ?thesis using assms(1) True by (simp add: holds_def)
next
  case False
  then have lt: "length xs < 4096" using assms(2) by simp
  obtain buf where b: "b = (buf, length xs)" using assms(1) by (cases b) (simp add: holds_def)
  have buf: "length buf = 4096" "take (length xs) buf = xs" using assms(1) lt by (auto simp: b holds_def min_def)
  let ?out = "take (4095 - length xs) text @ [0]"
  let ?new = "take (length xs) buf @ ?out @ drop (length xs + length ?out) buf"
  have a: "append_text text b = Inr (?new, length (xs @ text))" using lt by (simp add: b append_text_def Let_def)
  have m: "min (length xs + length text) 4095 = length xs + min (length text) (4095 - length xs)" using lt
    by (cases "length text \<le> 4095 - length xs") (simp_all add: min_absorb1 min_absorb2)
  let ?T = "take (4095 - length xs) text"
  have new: "?new = (xs @ ?T) @ 0 # drop (length xs + length ?out) buf" using buf(2) by simp
  have n: "length (xs @ ?T) = min (length (xs @ text)) 4095" by (simp add: m)
  have xT: "take 4095 (xs @ text) = xs @ ?T" using lt by simp
  have "take (min (length (xs @ text)) 4095) ?new = take 4095 (xs @ text)"
    unfolding new xT n [symmetric] by (rule append_eq_conv_conj [THEN iffD1, THEN conjunct1, symmetric]) (rule refl)
  moreover have "?new ! min (length (xs @ text)) 4095 = 0"
    unfolding new n [symmetric] by (rule nth_append_length)
  moreover have "length ?T + length xs < 4096" using lt by simp
  then have "length ?new = 4096" unfolding length_append list.size length_drop buf(1,2) by linarith
  ultimately have "holds (xs @ text) (?new, length (xs @ text))" unfolding holds_def fst_conv snd_conv by blast
  with a show ?thesis by blast
qed

lemma append_text_overflow: "holds xs b \<Longrightarrow> 4096 < length xs \<Longrightarrow> append_text text b = Inl OutOfBounds"
  by (cases b) (simp add: append_text_def holds_def)

lemma holds_cstr:
  assumes "holds xs b" and "xs \<noteq> []" and "0 \<notin> set xs"
  shows "cstr (fst b) = take 4095 xs"
proof -
  let ?m = "min (length xs) 4095"
  have "fst b = take ?m (fst b) @ fst b ! ?m # drop (Suc ?m) (fst b)"
    using assms(1) by (intro id_take_nth_drop) (simp add: holds_def)
  then have "fst b = take 4095 xs @ 0 # drop (Suc ?m) (fst b)" using assms(1,2) by (simp add: holds_def)
  moreover have "cstr (take 4095 xs @ 0 # rest) = take 4095 xs" for rest
    unfolding cstr_def using assms(3) by (subst takeWhile_append2) (auto dest: in_set_takeD)
  ultimately show ?thesis by metis
qed

lemma level_text_short:
  "length (level_text l t) \<le> 16 \<and> 0 \<notin> set (level_text l t) \<and> level_text l t \<noteq> []"
  by (cases t; cases "lg_use_colors l") (simp_all add: level_text_def level_names_def level_colors_def color_reset_def str_def)

lemma line_head_short:
  assumes "length time_buffer < 32" and "0 \<notin> set time_buffer"
  shows "length (line_head time_buffer l t) \<le> 52 \<and> 0 \<notin> set (line_head time_buffer l t)"
  using assms level_text_short [of l t] by (auto simp: line_head_def)

text \<open>
  A message of an enabled level is written as one line behind its time and level; a line that is one or two bytes
  too long for the buffer is cut, and from then on the line is written past the end of the buffer.
\<close>

theorem slog_line:
  assumes "level_no (lg_min_level l) \<le> level_no t" and "length junk = 4096"
    and "length time_buffer < 32" and "0 \<notin> set time_buffer" and "0 \<notin> set text"
  shows "slog junk time_buffer (Some l) t text =
    (if length (line_head time_buffer l t) + length text \<le> 4096
     then Inr (Some (take 4095 (line_head time_buffer l t @ text @ [10])), t = LOG_FATAL) else Inl OutOfBounds)"
proof -
  have h: "length (line_head time_buffer l t) \<le> 52" "0 \<notin> set (line_head time_buffer l t)"
    using line_head_short [OF assms(3,4), of l t] by simp_all
  let ?ts = "if lg_use_timestamp l then [91] @ time_buffer @ [93, 32] else []" and ?lv = "level_text l t"
  have head: "line_head time_buffer l t = (?ts @ ?lv) @ [58, 32]" by (simp add: line_head_def)
  then have len: "length (?ts @ ?lv) \<le> 50" using h(1) by simp
  have start: "holds [] (junk, 0)" using assms(2) by (simp add: holds_def)
  have "\<exists>b1. (if lg_use_timestamp l then append_text ([91] @ time_buffer @ [93, 32]) (junk, 0) else Inr (junk, 0)) = Inr b1 \<and>
      holds ?ts b1"
    using append_text_holds [OF start, of "[91] @ time_buffer @ [93, 32]"] start by auto
  then obtain b1 where b1: "(if lg_use_timestamp l then append_text ([91] @ time_buffer @ [93, 32]) (junk, 0) else Inr (junk, 0)) = Inr b1"
    "holds ?ts b1" by blast
  from append_text_holds [OF b1(2), of ?lv] len level_text_short [of l t] obtain b2 where b2: "append_text ?lv b1 = Inr b2" "holds (?ts @ ?lv) b2" by auto
  from append_text_holds [OF b2(2), of "[58, 32]"] len obtain b3 where
    b3: "append_text [58, 32] b2 = Inr b3" "holds (line_head time_buffer l t) b3" unfolding head by auto
  from append_text_holds [OF b3(2), of "text"] h(1) obtain b4 where
    b4: "append_text text b3 = Inr b4" "holds (line_head time_buffer l t @ text) b4" unfolding head by auto
  have start: "slog junk time_buffer (Some l) t text =
      bind_fault (append_text [10] b4) (\<lambda>(buffer, _). Inr (Some (cstr buffer), t = LOG_FATAL))"
    using assms(1) b1(1) b2(1) b3(1) b4(1) by (simp add: slog_def)
  show ?thesis
  proof (cases "length (line_head time_buffer l t) + length text \<le> 4096")
    case True
    with append_text_holds [OF b4(2), of "[10]"] obtain b5 where
      b5: "append_text [10] b4 = Inr b5" "holds ((line_head time_buffer l t @ text) @ [10]) b5" by auto
    have "cstr (fst b5) = take 4095 ((line_head time_buffer l t @ text) @ [10])"
      using h(2) assms(5) by (intro holds_cstr [OF b5(2)]) auto
    then show ?thesis using True b5(1) start by (simp add: split_beta)
  next
    case False
    then show ?thesis using append_text_overflow [OF b4(2)] start by simp
  qed
qed

theorem slog_line_witness:
  "slog (zeros 4096) [] (Some (logger_init False 1)) LOG_ERROR (str ''no route'') = Inr (Some (str ''[] ERROR  : no route'' @ [10]), False)"
proof -
  let ?l = "logger_init False 1"
  have "0 \<notin> set (str ''no route'')" "length (str ''no route'') = 8" by (simp_all add: str_def)
  moreover have "replicate 2 (32 :: u8) = [32, 32]" by (simp add: numeral_2_eq_2)
  then have "line_head [] ?l LOG_ERROR = str ''[] ERROR  : ''"
    by (simp add: logger_init_def line_head_def level_text_def level_names_def str_def)
  moreover have "str ''[] ERROR  : '' @ str ''no route'' = str ''[] ERROR  : no route''" "length (str ''[] ERROR  : '') = 12"
    by (simp_all add: str_def)
  ultimately show ?thesis
    using slog_line [of ?l LOG_ERROR "zeros 4096" "[]" "str ''no route''"] by (simp add: logger_init_def)
qed

end
