(* ===== verification/Quic.thy ===== *)
theory Quic
  imports Prot_Queue Events Lownet
begin

text \<open>
  \<open>quic/src/quic.c\<close>: sessions and packets over the QUIC library picoquic, which is not in the
  repository. A connection of the library is a number, its callbacks are the events \<open>cb_event\<close>, its
  results are arguments, and so are the results of \<open>poll\<close> and \<open>recvfrom\<close>. The sessions are elements of an
  array that other parts of the program point into: a pointer is the number of the block, which
  changes when the array grows, and an index; following a pointer into an old block, or to a slot
  behind the last session, is the fault \<open>UseAfterFree\<close>.

  The lemmas: with one session its stream data arrives in order; a second session makes the pointer to
  the first one dangle; and the end of a connection stops the whole core, but removes its session only if
  it is the first one. \<open>quic/src/enclose.c\<close> is a set of stubs that return 0.
\<close>

record quic_pkt =
  qp_stream_id :: u64
  qp_msg :: "bytes option"
  qp_msg_len :: nat
  qp_fin :: bool

record quic_session =
  qs_cnx :: nat
  inc_pkts :: "quic_pkt prot_queue"

type_synonym session_ptr = "(nat \<times> nat) option"

record quic_core =
  qc_is_running :: bool
  qc_mtu :: nat
  qc_incoming_ev :: mt_eventsock
  qc_outgoing_ev :: mt_eventsock
  qc_outgoing_done_ev :: mt_eventsock
  qc_delay_us :: u64
  qc_cnx :: "nat option"
  qc_sessions :: "quic_session prot_array"
  qc_block :: nat
  qc_new_session_ev :: mt_eventsock
  qc_new_sessions :: "session_ptr prot_queue"

datatype cb_event = CB_Ready | CB_Stream_Data | CB_Stream_Fin | CB_Close | CB_Stateless_Reset | CB_Other

definition QUIC_MTU :: nat where "QUIC_MTU = 1500"

definition fresh_queue :: "'a \<Rightarrow> nat \<Rightarrow> 'a prot_queue" where
  "fresh_queue z es = snd (prot_queue_create True z es)"

subsection \<open>Set-up\<close>

text \<open>\<open>args\<close>: no argument is \<open>NULL\<close>; \<open>ctx\<close>: the library gives a context.\<close>

definition quic_serv_init :: "bool \<Rightarrow> bool \<Rightarrow> quic_core \<Rightarrow> int \<times> quic_core" where
  "quic_serv_init args ctx core =
     (if \<not> args then (-1, core)
      else
        let ev = snd mt_evsock_new;
            core = core\<lparr>qc_incoming_ev := ev, qc_new_session_ev := ev, qc_outgoing_ev := ev, qc_outgoing_done_ev := ev\<rparr> in
        if \<not> ctx then (-1, core)
        else (0, core\<lparr>qc_mtu := QUIC_MTU, qc_delay_us := 1000000, qc_is_running := True,
                      qc_sessions := snd (prot_array_create 104), qc_new_sessions := fresh_queue None 8\<rparr>))"

text \<open>The client does not make the event socket \<open>outgoing_done_ev\<close>.\<close>

definition quic_cli_init :: "bool \<Rightarrow> bool \<Rightarrow> quic_core \<Rightarrow> int \<times> quic_core" where
  "quic_cli_init args ctx core =
     (if \<not> args then (-1, core)
      else
        let ev = snd mt_evsock_new;
            core = core\<lparr>qc_incoming_ev := ev, qc_new_session_ev := ev, qc_outgoing_ev := ev\<rparr> in
        if \<not> ctx then (-1, core)
        else (0, core\<lparr>qc_mtu := QUIC_MTU, qc_delay_us := 1000000, qc_is_running := True,
                      qc_sessions := snd (prot_array_create 104), qc_new_sessions := fresh_queue None 8\<rparr>))"

definition quic_cli_start :: "nat option \<Rightarrow> int \<Rightarrow> quic_core \<Rightarrow> int \<times> quic_core" where
  "quic_cli_start cnx started core =
     (let core = core\<lparr>qc_cnx := cnx\<rparr> in if cnx = None then (-1, core) else (started, core))"

definition quic_core_stop :: "quic_core \<Rightarrow> int \<times> quic_core" where
  "quic_core_stop core = (0, core\<lparr>qc_is_running := False\<rparr>)"

definition quic_core_running :: "quic_core \<Rightarrow> bool" where
  "quic_core_running core = qc_is_running core"

subsection \<open>Packets\<close>

text \<open>A packet made from the memory \<open>msg\<close> on; the length \<open>SIZE_MAX\<close> stands for that of a C string.\<close>

definition quic_packet :: "u64 \<Rightarrow> bytes \<Rightarrow> nat \<Rightarrow> bool \<Rightarrow> fault + quic_pkt" where
  "quic_packet stream_id msg msg_len fin =
     (if msg_len = SIZE_MAX \<and> 0 \<notin> set msg then Inl OutOfBounds
      else
        let msg_len = (if msg_len = SIZE_MAX then length (cstr msg) else msg_len) in
        if length msg < msg_len then Inl OutOfBounds
        else Inr \<lparr>qp_stream_id = stream_id, qp_msg = Some (take msg_len msg), qp_msg_len = msg_len, qp_fin = fin\<rparr>)"

definition quic_packet_free :: "quic_pkt option \<Rightarrow> quic_pkt option" where
  "quic_packet_free pkt = map_option (\<lambda>p. p\<lparr>qp_msg := None\<rparr>) pkt"

subsection \<open>Sessions\<close>

text \<open>The session behind a pointer, and its update.\<close>

definition deref :: "quic_core \<Rightarrow> session_ptr \<Rightarrow> fault + nat \<times> quic_session" where
  "deref core p =
     (case p of
        None \<Rightarrow> Inl NullDeref
      | Some (block, i) \<Rightarrow>
          if block \<noteq> qc_block core \<or> len (obj (qc_sessions core)) \<le> i then Inl UseAfterFree
          else Inr (i, elements (obj (qc_sessions core)) ! i))"

definition put_session :: "nat \<Rightarrow> quic_session \<Rightarrow> quic_core \<Rightarrow> quic_core" where
  "put_session i s core =
     core\<lparr>qc_sessions := (qc_sessions core)\<lparr>obj := (obj (qc_sessions core))
       \<lparr>elements := (elements (obj (qc_sessions core)))[i := s]\<rparr>\<rparr>\<rparr>"

fun find_cnx :: "nat \<Rightarrow> quic_session list \<Rightarrow> nat \<Rightarrow> nat option" where
  "find_cnx cnx [] i = None"
| "find_cnx cnx (s # ss) i = (if qs_cnx s = cnx then Some i else find_cnx cnx ss (Suc i))"

definition find_session_by_cnx :: "quic_core \<Rightarrow> nat \<Rightarrow> fault + session_ptr \<times> quic_core" where
  "find_session_by_cnx core cnx =
     bind_fault (prot_array_lock (qc_sessions core)) (\<lambda>a.
     let found = find_cnx cnx (elements (obj a)) 0 in
     Inr (map_option (\<lambda>i. (qc_block core, i)) found, core\<lparr>qc_sessions := prot_array_unlock a\<rparr>))"

text \<open>\<open>ok\<close>: the array finds memory if it has to grow. The block changes when it does.\<close>

definition quic_register_session :: "bool \<Rightarrow> quic_pkt \<Rightarrow> session_ptr \<Rightarrow> quic_core \<Rightarrow> nat \<Rightarrow> fault + quic_core" where
  "quic_register_session ok zp zs core cnx =
     bind_fault (prot_array_lock (qc_sessions core)) (\<lambda>a.
     let (_, arr) = dyn_array_push ok (obj a) \<lparr>qs_cnx = cnx, inc_pkts = fresh_queue zp 32\<rparr>;
         block = (if da_head arr = da_head (obj a) then qc_block core else Suc (qc_block core));
         stored_session = (if len arr = 0 then None else Some (block, len arr - 1)) in
     bind_fault (prot_queue_push zs (qc_new_sessions core) stored_session) (\<lambda>(_, q).
     Inr (core\<lparr>qc_sessions := prot_array_unlock (a\<lparr>obj := arr\<rparr>), qc_block := block, qc_new_sessions := q,
               qc_new_session_ev := mt_evsock_notify (qc_new_session_ev core)\<rparr>)))"

text \<open>Only the first session is looked at: the loop ends after one turn.\<close>

definition quic_unregister_session :: "quic_core \<Rightarrow> nat \<Rightarrow> fault + quic_core" where
  "quic_unregister_session core cnx =
     bind_fault (prot_array_lock (qc_sessions core)) (\<lambda>a.
     let a = (case elements (obj a) of
                [] \<Rightarrow> a
              | ses # _ \<Rightarrow> if qs_cnx ses = cnx then a\<lparr>obj := snd (dyn_array_remove (obj a) 0)\<rparr> else a) in
     Inr (core\<lparr>qc_sessions := prot_array_unlock a\<rparr>))"

subsection \<open>The callback of the library\<close>

text \<open>An event: its kind, connection, stream, data, and whether there is memory for a new session.\<close>

record quic_event =
  qe_kind :: cb_event
  qe_cnx :: nat
  qe_stream :: u64
  qe_bytes :: bytes
  qe_memory :: bool

definition quic_core_cb :: "quic_pkt \<Rightarrow> session_ptr \<Rightarrow> quic_event \<Rightarrow> quic_core \<Rightarrow> fault + quic_core" where
  "quic_core_cb zp zs e core =
     (case qe_kind e of
        CB_Ready \<Rightarrow> quic_register_session (qe_memory e) zp zs core (qe_cnx e)
      | CB_Other \<Rightarrow> Inr core
      | k \<Rightarrow>
          if k = CB_Stream_Data \<or> k = CB_Stream_Fin then
            bind_fault (find_session_by_cnx core (qe_cnx e)) (\<lambda>(ses, core).
            if ses = None then Inr core
            else
              bind_fault (deref core ses) (\<lambda>(i, s).
              bind_fault (prot_queue_push zp (inc_pkts s) \<lparr>qp_stream_id = qe_stream e, qp_msg = Some (qe_bytes e),
                  qp_msg_len = length (qe_bytes e), qp_fin = (k = CB_Stream_Fin)\<rparr>) (\<lambda>(_, q).
              Inr ((put_session i (s\<lparr>inc_pkts := q\<rparr>) core)\<lparr>qc_incoming_ev := mt_evsock_notify (qc_incoming_ev core)\<rparr>))))
          else
            bind_fault (quic_unregister_session core (qe_cnx e)) (\<lambda>core. Inr (snd (quic_core_stop core))))"

fun quic_events :: "quic_pkt \<Rightarrow> session_ptr \<Rightarrow> quic_event list \<Rightarrow> quic_core \<Rightarrow> fault + quic_core" where
  "quic_events zp zs [] core = Inr core"
| "quic_events zp zs (e # es) core = bind_fault (quic_core_cb zp zs e core) (quic_events zp zs es)"

subsection \<open>The loop of the core\<close>

text \<open>The time out of \<open>poll\<close>.\<close>

definition wait_timeout :: "quic_core \<Rightarrow> int" where
  "wait_timeout core =
     (let t = sint (ucast (qc_delay_us core div 1000) :: u32) in
      if 0 < qc_delay_us core \<and> t = 0 then 1 else t)"

text \<open>\<open>ret\<close> is what \<open>poll\<close> returns, \<open>sock\<close> and \<open>out\<close> whether the socket and \<open>outgoing_ev\<close> are ready.\<close>

definition quic_wait_recviter :: "int \<Rightarrow> bool \<Rightarrow> bool \<Rightarrow> quic_core \<Rightarrow> int \<times> quic_core" where
  "quic_wait_recviter ret sock out core =
     (if ret \<le> 0 then (ret, core)
      else
        let core = (if out then core\<lparr>qc_outgoing_ev := mt_evsock_drain (qc_outgoing_ev core)\<rparr> else core) in
        (if sock then 1 else 0, core))"

text \<open>
  The packets of the library as long as it has one: its result, the packet, and whether its address is an IPv6
  one. A packet is sent with the length of its address.
\<close>

fun prepared :: "(int \<times> bytes \<times> bool) list \<Rightarrow> (bytes \<times> nat) list option" where
  "prepared [] = None"
| "prepared ((r, packet, ip6) # tape) =
     (if r = 0 \<and> packet \<noteq> [] then map_option (\<lambda>ps. (packet, if ip6 then 28 else 16) # ps) (prepared tape) else Some [])"

definition quic_core_senditer ::
  "u64 \<Rightarrow> u64 \<Rightarrow> (int \<times> bytes \<times> bool) list \<Rightarrow> quic_core \<Rightarrow> ((bytes \<times> nat) list \<times> quic_core) option" where
  "quic_core_senditer now next_wake tape core =
     (let core = core\<lparr>qc_outgoing_done_ev := mt_evsock_drain (qc_outgoing_done_ev core)\<rparr> in
      map_option (\<lambda>sent.
        let delay = (if now < next_wake then next_wake - now else 0) in
        (sent, core\<lparr>qc_outgoing_done_ev := mt_evsock_notify (qc_outgoing_done_ev core),
                    qc_delay_us := (if 1000000 < delay then 1000000 else delay)\<rparr>))
        (prepared tape))"

text \<open>What \<open>recvfrom\<close> gives: a datagram, with the events the library makes of it, no more of them, or an error.\<close>

datatype recv_result = Datagram "quic_event list" | Recv_Again | Recv_Error

fun quic_core_recviter ::
  "quic_pkt \<Rightarrow> session_ptr \<Rightarrow> recv_result list \<Rightarrow> quic_core \<Rightarrow> (fault + int \<times> quic_core) option" where
  "quic_core_recviter zp zs [] core = None"
| "quic_core_recviter zp zs (r # tape) core =
     (case r of
        Recv_Again \<Rightarrow> Some (Inr (0, core))
      | Recv_Error \<Rightarrow> Some (Inr (-1, core))
      | Datagram es \<Rightarrow>
          (case quic_events zp zs es core of
             Inl f \<Rightarrow> Some (Inl f)
           | Inr core \<Rightarrow> quic_core_recviter zp zs tape core))"

subsection \<open>The interface of the program\<close>

definition quic_wait_incpkt :: "quic_core \<Rightarrow> int \<times> quic_core" where
  "quic_wait_incpkt core =
     (let (r, e) = mt_evsock_wait (qc_incoming_ev core); core = core\<lparr>qc_incoming_ev := e\<rparr> in
      if r \<le> 0 then (r, core) else (r, core\<lparr>qc_incoming_ev := mt_evsock_drain e\<rparr>))"

text \<open>\<open>ret\<close> is the result of the library.\<close>

definition quic_send :: "int \<Rightarrow> quic_core \<Rightarrow> int \<times> quic_core" where
  "quic_send ret core =
     (ret, if ret = 0 then core\<lparr>qc_outgoing_ev := mt_evsock_notify (qc_outgoing_ev core)\<rparr> else core)"

text \<open>\<open>None\<close> when there is no session or no packet.\<close>

definition quic_recv :: "session_ptr \<Rightarrow> quic_core \<Rightarrow> fault + quic_pkt option \<times> quic_core" where
  "quic_recv p core =
     (if p = None then Inr (None, core)
      else
        bind_fault (deref core p) (\<lambda>(i, s).
        bind_fault (prot_queue_pop (inc_pkts s)) (\<lambda>(pkt, q). Inr (pkt, put_session i (s\<lparr>inc_pkts := q\<rparr>) core))))"

text \<open>The result, and the session that is taken; \<open>None\<close> when the variable of the caller stays as it was.\<close>

definition quic_wait_session :: "quic_core \<Rightarrow> fault + int \<times> session_ptr option \<times> quic_core" where
  "quic_wait_session core =
     bind_fault (prot_queue_len (qc_new_sessions core)) (\<lambda>(n, q).
     let core = core\<lparr>qc_new_sessions := q\<rparr>;
         (r, e) = (if n = 0 then mt_evsock_wait (qc_new_session_ev core) else (1, qc_new_session_ev core));
         core = core\<lparr>qc_new_session_ev := e\<rparr> in
     if r \<le> 0 then Inr (r, None, core)
     else
       bind_fault (prot_queue_pop (qc_new_sessions core)) (\<lambda>(p, q). Inr (1, p, core\<lparr>qc_new_sessions := q\<rparr>)))"

definition quic_core_wait_done :: "int \<Rightarrow> quic_core \<Rightarrow> int \<times> quic_core" where
  "quic_core_wait_done timeout core =
     (if timeout = 0 then (0, core)
      else
        let (r, e) = mt_evsock_wait (qc_outgoing_done_ev core) in (r, core\<lparr>qc_outgoing_done_ev := e\<rparr>))"

text \<open>The packets of one session that are freed, and then those of all sessions.\<close>

partial_function (option) free_packets :: "quic_pkt prot_queue \<Rightarrow> (fault + quic_pkt list \<times> quic_pkt prot_queue) option" where
  "free_packets q =
     (case prot_queue_pop q of
        Inl f \<Rightarrow> Some (Inl f)
      | Inr (None, q) \<Rightarrow> Some (Inr ([], q))
      | Inr (Some p, q) \<Rightarrow>
          Option.bind (free_packets q) (\<lambda>r. case r of
             Inl f \<Rightarrow> Some (Inl f)
           | Inr (ps, q) \<Rightarrow> Some (Inr (p # ps, q))))"

fun free_sessions :: "quic_session list \<Rightarrow> (fault + quic_pkt list) option" where
  "free_sessions [] = Some (Inr [])"
| "free_sessions (s # ss) =
     (case free_packets (inc_pkts s) of
        None \<Rightarrow> None
      | Some (Inl f) \<Rightarrow> Some (Inl f)
      | Some (Inr (ps, q)) \<Rightarrow>
          (case free_sessions ss of
             None \<Rightarrow> None
           | Some (Inl f) \<Rightarrow> Some (Inl f)
           | Some (Inr ps') \<Rightarrow> Some (Inr (ps @ ps'))))"

definition quic_core_clear :: "quic_core \<Rightarrow> (fault + quic_pkt list \<times> quic_core) option" where
  "quic_core_clear core =
     (case prot_array_len (qc_sessions core) of
        Inl f \<Rightarrow> Some (Inl f)
      | Inr _ \<Rightarrow>
          (case free_sessions (elements (obj (qc_sessions core))) of
             None \<Rightarrow> None
           | Some (Inl f) \<Rightarrow> Some (Inl f)
           | Some (Inr ps) \<Rightarrow>
               Some (Inr (ps, core\<lparr>qc_new_sessions := prot_queue_end (qc_new_sessions core),
                 qc_sessions := prot_array_end (qc_sessions core),
                 qc_outgoing_ev := mt_evsock_close (qc_outgoing_ev core),
                 qc_incoming_ev := mt_evsock_close (qc_incoming_ev core),
                 qc_new_session_ev := mt_evsock_close (qc_new_session_ev core),
                 qc_outgoing_done_ev := mt_evsock_close (qc_outgoing_done_ev core)\<rparr>))))"

subsection \<open>Lemmas\<close>

definition core_ok :: "quic_core \<Rightarrow> bool" where
  "core_ok core \<longleftrightarrow> \<not> mtx (qc_sessions core) \<and> pq_wf (qc_new_sessions core) \<and>
     (\<forall>s \<in> set (elements (obj (qc_sessions core))). pq_wf (inc_pkts s))"

abbreviation session_list :: "quic_core \<Rightarrow> quic_session list" where
  "session_list core \<equiv> elements (obj (qc_sessions core))"

definition packet_of :: "quic_event \<Rightarrow> quic_pkt" where
  "packet_of e = \<lparr>qp_stream_id = qe_stream e, qp_msg = Some (qe_bytes e), qp_msg_len = length (qe_bytes e),
     qp_fin = (qe_kind e = CB_Stream_Fin)\<rparr>"

definition is_data :: "quic_event \<Rightarrow> bool" where
  "is_data e \<longleftrightarrow> qe_kind e = CB_Stream_Data \<or> qe_kind e = CB_Stream_Fin"

lemma fresh_queue_ok: "pq_wf (fresh_queue z es)" "ring (fresh_queue z es) = []"
  using pq_create_ok [of z es] by (simp_all add: fresh_queue_def)

lemma find_cnx_None: "find_cnx c ss i = None \<longleftrightarrow> c \<notin> qs_cnx ` set ss"
  by (induction ss arbitrary: i) auto

lemma find_cnx_Some:
  "find_cnx c ss i = Some j \<Longrightarrow> i \<le> j \<and> j - i < length ss \<and> qs_cnx (ss ! (j - i)) = c \<and> (\<forall>k < j - i. qs_cnx (ss ! k) \<noteq> c)"
proof (induction ss arbitrary: i)
  case (Cons s ss)
  show ?case
  proof (cases "qs_cnx s = c")
    case False
    then have "find_cnx c ss (Suc i) = Some j" using Cons.prems by simp
    from Cons.IH [OF this] False show ?thesis by (auto simp: nth_Cons' Suc_diff_le split: nat.splits)
  qed (use Cons.prems in simp)
qed simp

lemma find_session_ok:
  "\<not> mtx (qc_sessions core) \<Longrightarrow>
   find_session_by_cnx core c = Inr (map_option (\<lambda>i. (qc_block core, i)) (find_cnx c (session_list core) 0), core)"
  by (cases core; cases "qc_sessions core")
    (simp add: find_session_by_cnx_def prot_array_lock_def prot_array_unlock_def mutex_lock_def mutex_unlock_def Let_def)

text \<open>An event with data: it is queued at the first session of its connection and changes nothing else.\<close>

lemma cb_data_ok:
  assumes "core_ok core" and "is_data e"
  shows "\<exists>core'. quic_core_cb zp zs e core = Inr core' \<and> core_ok core' \<and> qc_block core' = qc_block core \<and>
    qc_new_sessions core' = qc_new_sessions core \<and> qc_new_session_ev core' = qc_new_session_ev core \<and>
    qc_is_running core' = qc_is_running core \<and> da_head (obj (qc_sessions core')) = da_head (obj (qc_sessions core)) \<and>
    map qs_cnx (session_list core') = map qs_cnx (session_list core) \<and>
    (\<forall>i < length (session_list core). ring (inc_pkts (session_list core' ! i)) = ring (inc_pkts (session_list core ! i)) @
      (if find_cnx (qe_cnx e) (session_list core) 0 = Some i then [packet_of e] else []))"
proof -
  have free: "\<not> mtx (qc_sessions core)" using assms(1) by (simp add: core_ok_def)
  have cb: "quic_core_cb zp zs e core = bind_fault (find_session_by_cnx core (qe_cnx e)) (\<lambda>(ses, core).
            if ses = None then Inr core
            else
              bind_fault (deref core ses) (\<lambda>(i, s).
              bind_fault (prot_queue_push zp (inc_pkts s) (packet_of e)) (\<lambda>(_, q).
              Inr ((put_session i (s\<lparr>inc_pkts := q\<rparr>) core)\<lparr>qc_incoming_ev := mt_evsock_notify (qc_incoming_ev core)\<rparr>))))"
    using assms(2) by (auto simp: quic_core_cb_def is_data_def packet_of_def cong: if_cong)
  show ?thesis
  proof (cases "find_cnx (qe_cnx e) (session_list core) 0")
    case None
    then show ?thesis using assms(1) by (simp add: cb find_session_ok [OF free])
  next
    case (Some j)
    let ?s = "session_list core ! j"
    have j: "j < length (session_list core)" using find_cnx_Some [OF Some] by simp
    then have "pq_wf (inc_pkts ?s)" using assms(1) by (simp add: core_ok_def)
    from prot_queue_push_ok [OF this] obtain q where q: "prot_queue_push zp (inc_pkts ?s) (packet_of e) = Inr (0, q)" "pq_wf q"
      "ring q = ring (inc_pkts ?s) @ [packet_of e]" by blast
    let ?c = "(put_session j (?s\<lparr>inc_pkts := q\<rparr>) core)\<lparr>qc_incoming_ev := mt_evsock_notify (qc_incoming_ev core)\<rparr>"
    have "quic_core_cb zp zs e core = Inr ?c"
      using q(1) j by (simp add: cb find_session_ok [OF free] Some deref_def)
    moreover have "core_ok ?c"
      using assms(1) q(2) by (auto simp: core_ok_def put_session_def dest: set_update_subset_insert [THEN subsetD])
    moreover have "map qs_cnx (session_list ?c) = map qs_cnx (session_list core)"
      using j by (simp add: put_session_def map_update) (metis list_update_id map_update nth_map)
    ultimately show ?thesis using q(3) j by (intro exI [of _ ?c]) (auto simp: put_session_def Some nth_list_update)
  qed
qed

lemma events_data_ok:
  assumes "core_ok core" and "\<forall>e \<in> set es. is_data e"
  shows "\<exists>core'. quic_events zp zs es core = Inr core' \<and> core_ok core' \<and> qc_block core' = qc_block core \<and>
    qc_new_sessions core' = qc_new_sessions core \<and> qc_new_session_ev core' = qc_new_session_ev core \<and>
    qc_is_running core' = qc_is_running core \<and> da_head (obj (qc_sessions core')) = da_head (obj (qc_sessions core)) \<and>
    map qs_cnx (session_list core') = map qs_cnx (session_list core) \<and>
    (\<forall>i < length (session_list core). ring (inc_pkts (session_list core' ! i)) = ring (inc_pkts (session_list core ! i)) @
      map packet_of (filter (\<lambda>e. find_cnx (qe_cnx e) (session_list core) 0 = Some i) es))"
  using assms
proof (induction es arbitrary: core)
  case (Cons e es)
  obtain c1 where c1: "quic_core_cb zp zs e core = Inr c1" "core_ok c1" "qc_block c1 = qc_block core"
    "qc_new_sessions c1 = qc_new_sessions core" "qc_new_session_ev c1 = qc_new_session_ev core"
    "qc_is_running c1 = qc_is_running core" "da_head (obj (qc_sessions c1)) = da_head (obj (qc_sessions core))"
    "map qs_cnx (session_list c1) = map qs_cnx (session_list core)"
    "\<forall>i < length (session_list core). ring (inc_pkts (session_list c1 ! i)) = ring (inc_pkts (session_list core ! i)) @
      (if find_cnx (qe_cnx e) (session_list core) 0 = Some i then [packet_of e] else [])"
    using cb_data_ok [OF Cons.prems(1), of e zp zs] Cons.prems(2) by auto
  have find: "find_cnx c (session_list c1) 0 = find_cnx c (session_list core) 0" for c
  proof -
    have "map qs_cnx xs = map qs_cnx ys \<Longrightarrow> find_cnx c xs i = find_cnx c ys i" for xs ys :: "quic_session list" and i
      by (induction xs ys arbitrary: i rule: list_induct2') auto
    then show ?thesis using c1(8) .
  qed
  have n: "length (session_list c1) = length (session_list core)" using c1(8) by (metis length_map)
  obtain c2 where c2: "quic_events zp zs es c1 = Inr c2" "core_ok c2" "qc_block c2 = qc_block c1"
    "qc_new_sessions c2 = qc_new_sessions c1" "qc_new_session_ev c2 = qc_new_session_ev c1"
    "qc_is_running c2 = qc_is_running c1" "da_head (obj (qc_sessions c2)) = da_head (obj (qc_sessions c1))"
    "map qs_cnx (session_list c2) = map qs_cnx (session_list c1)"
    "\<forall>i < length (session_list c1). ring (inc_pkts (session_list c2 ! i)) = ring (inc_pkts (session_list c1 ! i)) @
      map packet_of (filter (\<lambda>e. find_cnx (qe_cnx e) (session_list c1) 0 = Some i) es)"
    using Cons.IH [OF c1(2)] Cons.prems(2) by auto
  show ?case
  proof (intro exI conjI)
    show "quic_events zp zs (e # es) core = Inr c2" using c1(1) c2(1) by simp
    show "\<forall>i < length (session_list core). ring (inc_pkts (session_list c2 ! i)) = ring (inc_pkts (session_list core ! i)) @
      map packet_of (filter (\<lambda>e. find_cnx (qe_cnx e) (session_list core) 0 = Some i) (e # es))"
      using c1(9) c2(9) by (simp add: find n)
  qed (use c1 c2 in simp_all)
qed simp

text \<open>A new session stands last, its pointer in the queue; where the array has grown the block is another one.\<close>

lemma register_ok:
  assumes "core_ok core"
  shows "\<exists>core'. quic_register_session True zp zs core cnx = Inr core' \<and> core_ok core' \<and>
    session_list core' = session_list core @ [\<lparr>qs_cnx = cnx, inc_pkts = fresh_queue zp 32\<rparr>] \<and>
    qc_block core' = (if size_pred (da_head (obj (qc_sessions core))) \<le> len (obj (qc_sessions core)) \<and>
        da_head (obj (qc_sessions core)) \<noteq> 0 then Suc (qc_block core) else qc_block core) \<and>
    ring (qc_new_sessions core') = ring (qc_new_sessions core) @ [Some (qc_block core', length (session_list core))] \<and>
    qc_new_session_ev core' = mt_evsock_notify (qc_new_session_ev core) \<and> qc_is_running core' = qc_is_running core \<and>
    da_head (obj (qc_sessions core')) = (if size_pred (da_head (obj (qc_sessions core))) \<le> len (obj (qc_sessions core))
      then da_head (obj (qc_sessions core)) * 2 else da_head (obj (qc_sessions core)))"
proof -
  let ?a = "obj (qc_sessions core)" and ?new = "\<lparr>qs_cnx = cnx, inc_pkts = fresh_queue zp 32\<rparr>"
  define arr where "arr = snd (dyn_array_push True ?a ?new)"
  have arr: "dyn_array_push True ?a ?new = (0, arr)" "elements arr = elements ?a @ [?new]"
    "da_head arr = (if size_pred (da_head ?a) \<le> len ?a then da_head ?a * 2 else da_head ?a)"
    by (simp_all add: arr_def dyn_array_push_def da_grow_def)
  let ?b = "if da_head arr = da_head ?a then qc_block core else Suc (qc_block core)"
  obtain q where q: "prot_queue_push zs (qc_new_sessions core) (Some (?b, len ?a)) = Inr (0, q)" "pq_wf q"
    "ring q = ring (qc_new_sessions core) @ [Some (?b, len ?a)]"
    using prot_queue_push_ok [of "qc_new_sessions core"] assms unfolding core_ok_def by blast
  have "\<not> mtx (qc_sessions core)" using assms by (simp add: core_ok_def)
  then have "quic_register_session True zp zs core cnx = Inr (core\<lparr>qc_sessions := (qc_sessions core)\<lparr>mtx := False, obj := arr\<rparr>,
      qc_block := ?b, qc_new_sessions := q, qc_new_session_ev := mt_evsock_notify (qc_new_session_ev core)\<rparr>)"
    using arr(1,2) q(1)
    by (simp add: quic_register_session_def prot_array_lock_def prot_array_unlock_def mutex_lock_def mutex_unlock_def Let_def)
  then show ?thesis using assms arr(2,3) q(2,3) fresh_queue_ok [of zp 32] by (auto simp: core_ok_def)
qed

fun quic_recvs :: "session_ptr \<Rightarrow> nat \<Rightarrow> quic_core \<Rightarrow> fault + quic_pkt option list \<times> quic_core" where
  "quic_recvs p 0 core = Inr ([], core)"
| "quic_recvs p (Suc n) core =
     bind_fault (quic_recv p core) (\<lambda>(pkt, core).
     bind_fault (quic_recvs p n core) (\<lambda>(pkts, core). Inr (pkt # pkts, core)))"

lemma quic_recvs_ring:
  assumes "core_ok core" and "i < length (session_list core)" and "ring (inc_pkts (session_list core ! i)) = pkts"
  shows "\<exists>core'. quic_recvs (Some (qc_block core, i)) (length pkts) core = Inr (map Some pkts, core')"
  using assms
proof (induction pkts arbitrary: core)
  case (Cons pkt pkts)
  let ?s = "session_list core ! i"
  have "pq_wf (inc_pkts ?s)" using Cons.prems by (simp add: core_ok_def)
  from prot_queue_pop_ok(2) [OF this Cons.prems(3)] obtain q where q: "prot_queue_pop (inc_pkts ?s) = Inr (Some pkt, q)"
    "pq_wf q" "ring q = pkts" by blast
  let ?c = "put_session i (?s\<lparr>inc_pkts := q\<rparr>) core"
  have r: "quic_recv (Some (qc_block core, i)) core = Inr (Some pkt, ?c)"
    using q(1) Cons.prems(2) by (simp add: quic_recv_def deref_def)
  have "core_ok ?c" using Cons.prems(1) q(2)
    by (auto simp: core_ok_def put_session_def dest: set_update_subset_insert [THEN subsetD])
  from Cons.IH [OF this] Cons.prems(2) q(3) obtain c2 where
    "quic_recvs (Some (qc_block core, i)) (length pkts) ?c = Inr (map Some pkts, c2)" by (auto simp: put_session_def)
  then show ?case using r by simp
qed simp

lemma server_ready:
  assumes "quic_serv_init True True core0 = (0, core)"
  shows "core_ok core \<and> session_list core = [] \<and> da_head (obj (qc_sessions core)) = 1 \<and> ring (qc_new_sessions core) = [] \<and>
    qc_is_running core"
  using assms fresh_queue_ok [of "None :: session_ptr" 8]
  by (auto simp: quic_serv_init_def core_ok_def prot_array_create_def dyn_array_create_def Let_def)

text \<open>The first connection of a server, data on its streams, and the session that the program waits for.\<close>

lemma first_session_from:
  assumes "core_ok core" and "session_list core = []" and "da_head (obj (qc_sessions core)) = 1"
    and "ring (qc_new_sessions core) = []" and "\<forall>e \<in> set es. is_data e"
  shows "\<exists>core1 core2. quic_events zp zs (\<lparr>qe_kind = CB_Ready, qe_cnx = c, qe_stream = 0, qe_bytes = [], qe_memory = True\<rparr> # es) core = Inr core1 \<and>
    quic_wait_session core1 = Inr (1, Some (Some (Suc (qc_block core), 0)), core2) \<and> core_ok core2 \<and>
    qc_block core2 = Suc (qc_block core) \<and> map qs_cnx (session_list core2) = [c] \<and> da_head (obj (qc_sessions core2)) = 2 \<and>
    ring (inc_pkts (session_list core2 ! 0)) = map packet_of (filter (\<lambda>e. qe_cnx e = c) es)"
proof -
  obtain r where r: "quic_register_session True zp zs core c = Inr r" "core_ok r"
    "session_list r = [\<lparr>qs_cnx = c, inc_pkts = fresh_queue zp 32\<rparr>]" "qc_block r = Suc (qc_block core)"
    "ring (qc_new_sessions r) = [Some (Suc (qc_block core), 0)]" "da_head (obj (qc_sessions r)) = 2"
    using register_ok [of core zp zs c] assms(1-4) by (auto simp: size_pred_def)
  obtain d where d: "quic_events zp zs es r = Inr d" "core_ok d" "qc_block d = qc_block r" "qc_new_sessions d = qc_new_sessions r"
    "da_head (obj (qc_sessions d)) = 2" "map qs_cnx (session_list d) = [c]"
    "ring (inc_pkts (session_list d ! 0)) = map packet_of (filter (\<lambda>e. qe_cnx e = c) es)"
    using events_data_ok [OF r(2) assms(5), of zp zs] r(3,6) fresh_queue_ok [of zp 32] by (auto simp: eq_commute [of c])
  have wf: "pq_wf (qc_new_sessions d)" using d(2) by (simp add: core_ok_def)
  obtain q where q: "prot_queue_pop (qc_new_sessions d) = Inr (Some (Some (Suc (qc_block core), 0)), q)" "pq_wf q"
    using prot_queue_pop_ok(2) [OF wf] r(5) d(4) by metis
  have w: "quic_wait_session d = Inr (1, Some (Some (Suc (qc_block core), 0)), d\<lparr>qc_new_sessions := q\<rparr>)"
    using q(1) prot_queue_len_ok [OF wf] r(5) d(4) by (simp add: quic_wait_session_def Let_def)
  show ?thesis
    using r(1,4) d w q(2) by (intro exI [of _ d] exI [of _ "d\<lparr>qc_new_sessions := q\<rparr>"]) (simp add: quic_core_cb_def core_ok_def)
qed

lemma first_session:
  assumes "quic_serv_init True True core0 = (0, core)" and "\<forall>e \<in> set es. is_data e"
  shows "\<exists>core1 core2. quic_events zp zs (\<lparr>qe_kind = CB_Ready, qe_cnx = c, qe_stream = 0, qe_bytes = [], qe_memory = True\<rparr> # es) core = Inr core1 \<and>
    quic_wait_session core1 = Inr (1, Some (Some (Suc (qc_block core), 0)), core2) \<and> core_ok core2 \<and>
    qc_block core2 = Suc (qc_block core) \<and> map qs_cnx (session_list core2) = [c] \<and> da_head (obj (qc_sessions core2)) = 2 \<and>
    ring (inc_pkts (session_list core2 ! 0)) = map packet_of (filter (\<lambda>e. qe_cnx e = c) es)"
  using server_ready [OF assms(1)] assms(2) by (intro first_session_from) simp_all

text \<open>
  C24: a server that accepts a single connection, which is not closed: what arrives on the streams of the connection, whatever
  data comes for others in between, is received through the session that the server waits for: every piece once, in order,
  with its stream, and nothing else. (A second session, \<open>quic_second_session_dangles\<close>, and the end of a connection,
  \<open>quic_close_misdirects\<close>, break this.)
\<close>

theorem quic_stream_delivered:
  fixes c :: nat
  assumes "quic_serv_init True True core0 = (0, core)" and "\<forall>e \<in> set es. is_data e"
  defines "pkts \<equiv> map packet_of (filter (\<lambda>e. qe_cnx e = c) es)"
  shows "\<exists>core1 p core2 core3.
    quic_events zp zs (\<lparr>qe_kind = CB_Ready, qe_cnx = c, qe_stream = 0, qe_bytes = [], qe_memory = True\<rparr> # es) core = Inr core1 \<and>
    quic_wait_session core1 = Inr (1, Some p, core2) \<and> quic_recvs p (length pkts) core2 = Inr (map Some pkts, core3)"
proof -
  from first_session [OF assms(1,2), of zp zs c] obtain core1 core2 where
    c: "quic_events zp zs (\<lparr>qe_kind = CB_Ready, qe_cnx = c, qe_stream = 0, qe_bytes = [], qe_memory = True\<rparr> # es) core = Inr core1"
    "quic_wait_session core1 = Inr (1, Some (Some (Suc (qc_block core), 0)), core2)" "core_ok core2"
    "qc_block core2 = Suc (qc_block core)" "map qs_cnx (session_list core2) = [c]"
    "ring (inc_pkts (session_list core2 ! 0)) = pkts" unfolding pkts_def by auto
  from quic_recvs_ring [OF c(3) _ c(6)] c(4,5) show ?thesis using c(1,2) by fastforce
qed

definition demo_quic_core :: quic_core where
  "demo_quic_core = \<lparr>qc_is_running = False, qc_mtu = 0, qc_incoming_ev = snd mt_evsock_new, qc_outgoing_ev = snd mt_evsock_new,
     qc_outgoing_done_ev = snd mt_evsock_new, qc_delay_us = 0, qc_cnx = None, qc_sessions = snd (prot_array_create 104), qc_block = 0,
     qc_new_session_ev = snd mt_evsock_new, qc_new_sessions = fresh_queue None 8\<rparr>"

definition demo_data :: "nat \<Rightarrow> bytes \<Rightarrow> bool \<Rightarrow> quic_event" where
  "demo_data c bs fin = \<lparr>qe_kind = (if fin then CB_Stream_Fin else CB_Stream_Data), qe_cnx = c, qe_stream = 4, qe_bytes = bs, qe_memory = True\<rparr>"

definition demo_ready :: "nat \<Rightarrow> quic_event" where
  "demo_ready c = \<lparr>qe_kind = CB_Ready, qe_cnx = c, qe_stream = 0, qe_bytes = [], qe_memory = True\<rparr>"

definition demo_pkt :: quic_pkt where
  "demo_pkt = \<lparr>qp_stream_id = 0, qp_msg = None, qp_msg_len = 0, qp_fin = False\<rparr>"

theorem quic_stream_delivered_witness:
  "\<exists>core core1 p core2 core3. quic_serv_init True True demo_quic_core = (0, core) \<and>
    quic_events demo_pkt None (demo_ready 7 # [demo_data 7 [1, 2] False, demo_data 9 [3] False, demo_data 7 [4] True]) core = Inr core1 \<and>
    quic_wait_session core1 = Inr (1, Some p, core2) \<and>
    quic_recvs p 2 core2 = Inr ([Some (packet_of (demo_data 7 [1, 2] False)), Some (packet_of (demo_data 7 [4] True))], core3)"
proof -
  obtain core where init: "quic_serv_init True True demo_quic_core = (0, core)" by (simp add: quic_serv_init_def Let_def)
  have "\<forall>e \<in> set [demo_data 7 [1, 2] False, demo_data 9 [3] False, demo_data 7 [4] True]. is_data e"
    by (simp add: is_data_def demo_data_def)
  from quic_stream_delivered [OF init this, of demo_pkt None 7] init show ?thesis
    by (auto simp: demo_ready_def demo_data_def numeral_2_eq_2 simp del: quic_events.simps quic_recvs.simps)
qed

text \<open>
  The second connection of a server moves the array of sessions: the session that the program has been given
  for the first connection is a dangling pointer from then on.
\<close>

theorem quic_second_session_dangles:
  fixes c :: nat
  assumes "quic_serv_init True True core0 = (0, core)" and "\<forall>e \<in> set es. is_data e"
  shows "\<exists>core1 p core2 core3.
    quic_events zp zs (\<lparr>qe_kind = CB_Ready, qe_cnx = c, qe_stream = 0, qe_bytes = [], qe_memory = True\<rparr> # es) core = Inr core1 \<and>
    quic_wait_session core1 = Inr (1, Some p, core2) \<and>
    quic_core_cb zp zs \<lparr>qe_kind = CB_Ready, qe_cnx = d, qe_stream = 0, qe_bytes = [], qe_memory = True\<rparr> core2 = Inr core3 \<and>
    quic_recv p core3 = Inl UseAfterFree"
proof -
  from first_session [OF assms, of zp zs c] obtain core1 core2 where
    c: "quic_events zp zs (\<lparr>qe_kind = CB_Ready, qe_cnx = c, qe_stream = 0, qe_bytes = [], qe_memory = True\<rparr> # es) core = Inr core1"
    "quic_wait_session core1 = Inr (1, Some (Some (Suc (qc_block core), 0)), core2)" "core_ok core2"
    "qc_block core2 = Suc (qc_block core)" "map qs_cnx (session_list core2) = [c]" "da_head (obj (qc_sessions core2)) = 2" by auto
  have n: "length (session_list core2) = 1" using c(5) by (metis length_map list.size(3,4) One_nat_def add.right_neutral add_Suc_right)
  obtain core3 where r: "quic_register_session True zp zs core2 d = Inr core3" "qc_block core3 = Suc (qc_block core2)"
    using register_ok [OF c(3), of zp zs d] c(6) n by (auto simp: size_pred_def)
  then have "quic_recv (Some (Suc (qc_block core), 0)) core3 = Inl UseAfterFree"
    using c(4) by (simp add: quic_recv_def deref_def)
  then show ?thesis using c(1,2) r(1) by (auto simp: quic_core_cb_def simp del: quic_events.simps)
qed

theorem quic_second_session_dangles_witness:
  "\<exists>core core1 p core2 core3. quic_serv_init True True demo_quic_core = (0, core) \<and>
    quic_events demo_pkt None [demo_ready 7] core = Inr core1 \<and> quic_wait_session core1 = Inr (1, Some p, core2) \<and>
    quic_core_cb demo_pkt None (demo_ready 8) core2 = Inr core3 \<and> quic_recv p core3 = Inl UseAfterFree"
proof -
  obtain core where init: "quic_serv_init True True demo_quic_core = (0, core)" by (simp add: quic_serv_init_def Let_def)
  from quic_second_session_dangles [OF init, of "[]" demo_pkt None 7 8] init show ?thesis
    unfolding demo_ready_def by auto
qed

text \<open>
  The end of any connection stops the whole core. Its session is removed if it is the first one, and then the pointer
  to it leads to the packets of the second one; any other session stays and goes on collecting packets.
\<close>

theorem quic_close_misdirects:
  assumes "core_ok core" and "session_list core = s0 # s1 # ss" and "ring (inc_pkts s1) = pkt # pkts"
    and "qe_kind e = CB_Close \<or> qe_kind e = CB_Stateless_Reset"
  shows "\<exists>core'. quic_core_cb zp zs e core = Inr core' \<and> \<not> quic_core_running core' \<and>
    session_list core' = (if qe_cnx e = qs_cnx s0 then s1 # ss else s0 # s1 # ss) \<and>
    (qe_cnx e = qs_cnx s0 \<longrightarrow> (\<exists>core''. quic_recv (Some (qc_block core, 0)) core' = Inr (Some pkt, core'')))"
proof -
  have free: "\<not> mtx (qc_sessions core)" and wf: "pq_wf (inc_pkts s1)" using assms(1,2) by (simp_all add: core_ok_def)
  let ?a = "(qc_sessions core)\<lparr>mtx := False, obj := (if qe_cnx e = qs_cnx s0 then snd (dyn_array_remove (obj (qc_sessions core)) 0)
    else obj (qc_sessions core))\<rparr>"
  let ?c = "core\<lparr>qc_sessions := ?a, qc_is_running := False\<rparr>"
  have "quic_core_cb zp zs e core = bind_fault (quic_unregister_session core (qe_cnx e)) (\<lambda>core. Inr (snd (quic_core_stop core)))"
    using assms(4) by (auto simp: quic_core_cb_def)
  also have "\<dots> = Inr ?c"
    using free assms(2) by (auto simp: quic_unregister_session_def prot_array_lock_def prot_array_unlock_def mutex_lock_def
        mutex_unlock_def quic_core_stop_def Let_def)
  finally have cb: "quic_core_cb zp zs e core = Inr ?c" .
  have sl: "session_list ?c = (if qe_cnx e = qs_cnx s0 then s1 # ss else s0 # s1 # ss)"
    using assms(2) by (simp add: dyn_array_remove_def)
  moreover have "\<exists>core''. quic_recv (Some (qc_block core, 0)) ?c = Inr (Some pkt, core'')" if "qe_cnx e = qs_cnx s0"
    using prot_queue_pop_ok(2) [OF wf assms(3)] sl that by (auto simp: quic_recv_def deref_def)
  ultimately show ?thesis using cb by (intro exI [of _ ?c]) (simp add: quic_core_running_def)
qed

theorem quic_close_misdirects_witness:
  "\<exists>core core' core''. length (session_list core) = 2 \<and>
     quic_core_cb demo_pkt None \<lparr>qe_kind = CB_Close, qe_cnx = 7, qe_stream = 0, qe_bytes = [], qe_memory = True\<rparr> core = Inr core' \<and>
     \<not> quic_core_running core' \<and> quic_recv (Some (qc_block core, 0)) core' = Inr (Some (packet_of (demo_data 8 [1] False)), core'')"
proof -
  let ?p = "packet_of (demo_data 8 [1] False)" and ?e = "\<lparr>qe_kind = CB_Close, qe_cnx = 7, qe_stream = 0, qe_bytes = [], qe_memory = True\<rparr>"
  obtain q where q: "pq_wf q" "ring q = [?p]"
    using prot_queue_push_ok [OF fresh_queue_ok(1) [of demo_pkt 32], of demo_pkt ?p] fresh_queue_ok(2) [of demo_pkt 32] by auto
  let ?s0 = "\<lparr>qs_cnx = 7, inc_pkts = fresh_queue demo_pkt 32\<rparr>" and ?s1 = "\<lparr>qs_cnx = 8, inc_pkts = q\<rparr>"
  define core where "core = demo_quic_core\<lparr>qc_sessions := (snd (prot_array_create 104))
    \<lparr>obj := \<lparr>elements = [?s0, ?s1], da_cap = 4, da_head = 4, element_size = 104\<rparr>\<rparr>\<rparr>"
  have l: "session_list core = ?s0 # ?s1 # []" by (simp add: core_def)
  have ok: "core_ok core"
    using q by (simp add: fresh_queue_ok core_ok_def core_def demo_quic_core_def prot_array_create_def)
  from quic_close_misdirects [OF ok l, of ?p "[]" ?e demo_pkt None] q(2) obtain core' core'' where
    "quic_core_cb demo_pkt None ?e core = Inr core'" "\<not> quic_core_running core'"
    "quic_recv (Some (qc_block core, 0)) core' = Inr (Some ?p, core'')" by auto
  with l show ?thesis by (intro exI [of _ core] exI [of _ core'] exI [of _ core'']) simp
qed

subsection \<open>Clean-up\<close>

lemma free_packets_ring:
  assumes "pq_wf q" and "ring q = ps"
  shows "\<exists>q'. free_packets q = Some (Inr (ps, q'))"
  using assms
proof (induction ps arbitrary: q)
  case Nil
  then show ?case using prot_queue_pop_ok(1) [OF Nil.prems(1)] by (subst free_packets.simps) simp
next
  case (Cons p ps)
  obtain q1 where q1: "prot_queue_pop q = Inr (Some p, q1)" "pq_wf q1" "ring q1 = ps"
    using prot_queue_pop_ok(2) [OF Cons.prems] by blast
  from Cons.IH [OF q1(2,3)] q1(1) show ?case by (subst free_packets.simps) auto
qed

lemma free_sessions_all:
  "\<forall>s \<in> set ss. pq_wf (inc_pkts s) \<Longrightarrow> free_sessions ss = Some (Inr (concat (map (\<lambda>s. ring (inc_pkts s)) ss)))"
proof (induction ss)
  case (Cons s ss)
  obtain q where "free_packets (inc_pkts s) = Some (Inr (ring (inc_pkts s), q))"
    using free_packets_ring [of "inc_pkts s"] Cons.prems by auto
  then show ?case using Cons by simp
qed simp

text \<open>
  Clearing a core ends, frees every packet that nobody has received once, and closes the event sockets.
\<close>

theorem quic_clear_frees_all:
  assumes "core_ok core"
  shows "\<exists>core'. quic_core_clear core = Some (Inr (concat (map (\<lambda>s. ring (inc_pkts s)) (session_list core)), core')) \<and>
    session_list core' = [] \<and> \<not> ev_open (qc_incoming_ev core') \<and> \<not> ev_open (qc_outgoing_ev core') \<and>
    \<not> ev_open (qc_new_session_ev core') \<and> \<not> ev_open (qc_outgoing_done_ev core')"
proof -
  have "\<not> mtx (qc_sessions core)" using assms by (simp add: core_ok_def)
  then obtain x where "prot_array_len (qc_sessions core) = Inr x"
    by (auto simp: prot_array_len_def with_mutex_def mutex_lock_def)
  moreover have "free_sessions (session_list core) = Some (Inr (concat (map (\<lambda>s. ring (inc_pkts s)) (session_list core))))"
    using assms by (intro free_sessions_all) (simp add: core_ok_def)
  ultimately show ?thesis
    by (simp add: quic_core_clear_def prot_array_end_def dyn_array_end_def mt_evsock_close_def)
qed

theorem quic_clear_frees_all_witness:
  "\<exists>core'. quic_core_clear demo_quic_core = Some (Inr ([], core'))"
proof -
  have "core_ok demo_quic_core" by (simp add: fresh_queue_ok core_ok_def demo_quic_core_def prot_array_create_def)
  from quic_clear_frees_all [OF this] show ?thesis by (auto simp: demo_quic_core_def prot_array_create_def dyn_array_create_def)
qed

end
