(* ===== verification/Cli.thy ===== *)
theory Cli
  imports Daemons Uhttp_Server Natpunch
begin

text \<open>
  \<open>code/cli/src\<close>: the program that runs a node with an HTTP interface, and \<open>ujson/src/ujson.c\<close>, the
  layer over the JSON library yyjson that its answers are made with. A document that is written is the list of
  its members; the text the library makes of it is an argument, as are the DNS answers, the clock
  and an address that is not set. \<open>handle_peer_info\<close>, \<open>handle_wait\<close> and the handlers of
  \<open>turn\<close> and \<open>stating\<close> have no body: \<open>handle_empty\<close>.

  The lemmas: a request to connect files the peer as it was asked for and punches a hole to it, also when it comes in
  through the HTTP server, and a request that fails leaves the peers as they were.
\<close>

subsection \<open>JSON\<close>

datatype json_val = JSON_Str bytes | JSON_Int int

type_synonym ujson_wo = "(bytes \<times> json_val) list"

definition UJSON_OK :: int where "UJSON_OK = 0"
definition UJSON_ERR_NULL :: int where "UJSON_ERR_NULL = -1"
definition UJSON_ERR_PARSE :: int where "UJSON_ERR_PARSE = -2"
definition UJSON_ERR_TYPE :: int where "UJSON_ERR_TYPE = -4"
definition UJSON_ERR_ALLOC :: int where "UJSON_ERR_ALLOC = -5"
definition UJSON_ERR_WRITE :: int where "UJSON_ERR_WRITE = -6"

text \<open>What is used of the library: reading a text, members of a value, strings, and writing.\<close>

record 'v yyjson =
  yy_read :: "bytes \<Rightarrow> 'v option"
  yy_obj_get :: "'v \<Rightarrow> bytes \<Rightarrow> 'v option"
  yy_str :: "'v \<Rightarrow> bytes option"
  yy_write :: "ujson_wo \<Rightarrow> bytes option"

definition ujson_ro_parse :: "'v yyjson \<Rightarrow> bool \<Rightarrow> bytes option \<Rightarrow> int \<times> 'v option" where
  "ujson_ro_parse yy mem json_str =
     (case json_str of
        None \<Rightarrow> (UJSON_ERR_NULL, None)
      | Some s \<Rightarrow>
          if \<not> mem then (UJSON_ERR_ALLOC, None)
          else (case yy_read yy s of None \<Rightarrow> (UJSON_ERR_PARSE, None) | Some v \<Rightarrow> (UJSON_OK, Some v)))"

definition ujson_ro_get_str :: "'v yyjson \<Rightarrow> 'v option \<Rightarrow> bytes option \<Rightarrow> int \<times> bytes option" where
  "ujson_ro_get_str yy doc key =
     (case (doc, key) of
        (Some root, Some k) \<Rightarrow>
          (case yy_obj_get yy root k of
             None \<Rightarrow> (UJSON_ERR_TYPE, None)
           | Some v \<Rightarrow> (case yy_str yy v of None \<Rightarrow> (UJSON_ERR_TYPE, None) | Some s \<Rightarrow> (UJSON_OK, Some s)))
      | _ \<Rightarrow> (UJSON_ERR_NULL, None))"

definition ujson_wo_create :: "bool \<Rightarrow> ujson_wo option" where
  "ujson_wo_create mem = (if mem then Some [] else None)"

definition ujson_wo_add_str :: "ujson_wo option \<Rightarrow> bytes option \<Rightarrow> bytes option \<Rightarrow> int \<times> ujson_wo option" where
  "ujson_wo_add_str doc key val =
     (case (doc, key, val) of
        (Some d, Some k, Some v) \<Rightarrow> (UJSON_OK, Some (d @ [(k, JSON_Str v)]))
      | _ \<Rightarrow> (UJSON_ERR_NULL, doc))"

definition ujson_wo_add_int :: "ujson_wo option \<Rightarrow> bytes option \<Rightarrow> int \<Rightarrow> int \<times> ujson_wo option" where
  "ujson_wo_add_int doc key val =
     (case (doc, key) of
        (Some d, Some k) \<Rightarrow> (UJSON_OK, Some (d @ [(k, JSON_Int val)]))
      | _ \<Rightarrow> (UJSON_ERR_NULL, doc))"

definition ujson_wo_serialize :: "(ujson_wo \<Rightarrow> bytes option) \<Rightarrow> ujson_wo option \<Rightarrow> int \<times> bytes option" where
  "ujson_wo_serialize write doc =
     (case doc of
        None \<Rightarrow> (UJSON_ERR_NULL, None)
      | Some d \<Rightarrow> (case write d of None \<Rightarrow> (UJSON_ERR_WRITE, None) | Some j \<Rightarrow> (UJSON_OK, Some j)))"

subsection \<open>Responses\<close>

record cli_env =
  ce_lib :: lib6
  ce_so :: sodium
  ce_dns :: "bytes \<Rightarrow> bytes list option"
  ce_addr :: naddr_t
  ce_now :: int
  ce_write :: "ujson_wo \<Rightarrow> bytes option"

text \<open>A response with a text, as C strings; one without a body; and one with the text of a document, or another one if there is none.\<close>

definition text_response :: "int \<Rightarrow> string \<Rightarrow> string \<Rightarrow> fault + uhttp_response" where
  "text_response code status body =
     uhttp_create_responseq code (Some (str status)) (Some (str body @ [0])) SIZE_MAX HTTP_TEXT_PLAIN"

definition empty_response :: "int \<Rightarrow> string \<Rightarrow> fault + uhttp_response" where
  "empty_response code status = uhttp_create_responseq code (Some (str status)) None 0 HTTP_TEXT_PLAIN"

definition json_response :: "cli_env \<Rightarrow> ujson_wo option \<Rightarrow> (fault + uhttp_response) \<Rightarrow> fault + uhttp_response" where
  "json_response e doc failed =
     (let (r, j) = ujson_wo_serialize (ce_write e) doc in
      if r \<noteq> UJSON_OK then failed
      else uhttp_create_responseq 200 (Some (str ''OK'')) (map_option (\<lambda>j. j @ [0]) j) SIZE_MAX HTTP_APPLICATION_JSON)"

definition add_str :: "string \<Rightarrow> bytes option \<Rightarrow> ujson_wo option \<Rightarrow> ujson_wo option" where
  "add_str key val doc = snd (ujson_wo_add_str doc (Some (str key)) val)"

definition add_int :: "string \<Rightarrow> int \<Rightarrow> ujson_wo option \<Rightarrow> ujson_wo option" where
  "add_int key val doc = snd (ujson_wo_add_int doc (Some (str key)) val)"

text \<open>\<open>atoi\<close>, by way of a number of 64 bits; \<open>snprintf\<close> into 512 bytes.\<close>

definition atoi_long :: "bytes \<Rightarrow> int" where
  "atoi_long s = sint (word_of_int (max (- (2 ^ 63)) (min (2 ^ 63 - 1) (atoi s))) :: u32)"

definition fmt512 :: "bytes \<Rightarrow> bytes" where
  "fmt512 s = take 511 s"

subsection \<open>Connecting\<close>

text \<open>\<open>_actual_handler\<close> of \<open>handler_connect.c\<close>; the UID is set once the parameter has been decoded.\<close>

definition connect_handler ::
  "cli_env \<Rightarrow> s2_systems \<Rightarrow> bytes \<Rightarrow> bytes \<Rightarrow> bytes \<Rightarrow> fault + (int \<times> u32 option) \<times> s2_systems" where
  "connect_handler e s uni_pm port_pm pubuid_pm =
     (let port = (word_of_int (atoi_long port_pm) :: u16); (r, key) = crypto_decode_pubkey_uid (ce_so e) (Some pubuid_pm) in
      case key of
        None \<Rightarrow> Inr ((-1, None), s)
      | Some (pubkey, uid) \<Rightarrow>
          if r < 0 then Inr ((-1, Some uid), s)
          else
            bind_fault (ln_uni (ce_lib e) (ce_dns e) uni_pm port (ce_addr e)) (\<lambda>(r, addr).
            if r < 0 then Inr ((-2, Some uid), s)
            else
              bind_fault (s2_sys_new_peer (ce_lib e) (ce_now e) s addr (zeros 52) uid pubkey) (\<lambda>(r, s).
              if r < 0 then Inr ((-3, Some uid), s)
              else
                bind_fault (s2_sys_nat_punch (ce_lib e) s uid) (\<lambda>(r, s).
                if r < 0 then
                  bind_fault (on_db (\<lambda>db. peers_db_remove db uid) (s_ctx s)) (\<lambda>(_, c).
                  Inr ((-4, Some uid), s\<lparr>s_ctx := c\<rparr>))
                else Inr ((0, Some uid), s)))))"

definition handle_peer_connect :: "cli_env \<Rightarrow> uhttp_high_request \<Rightarrow> s2_systems \<Rightarrow> fault + uhttp_response \<times> s2_systems" where
  "handle_peer_connect e req s =
     (let rq = hq_req req; answer = (\<lambda>resp s. bind_fault resp (\<lambda>rs. Inr (rs, s))) in
      if rq_method rq \<noteq> HTTP_POST then answer (empty_response 405 ''Method not allowed'') s
      else
        bind_fault (uhttp_any_params rq) (\<lambda>any.
        if \<not> any then answer (text_response 400 ''Bad request'' ''No query params'') s
        else
          bind_fault (uhttp_parse_params (Some rq)
              (Some [uhttp_new_param (str ''uni''), uhttp_new_param (str ''port''), uhttp_new_param (str ''pubuid'')]))
            (\<lambda>(r, params).
          if r \<noteq> 0 then answer (text_response 400 ''Bad Request'' ''Missing required parameters: uni, port, pubuid'') s
          else
            let value = (\<lambda>n. map_option cstr (uhttp_get_param (the params) (str n))) in
            (case (value ''uni'', value ''port'', value ''pubuid'') of
               (Some uni_pm, Some port_pm, Some pubuid_pm) \<Rightarrow>
                 bind_fault (connect_handler e s uni_pm port_pm pubuid_pm) (\<lambda>((r, uid), s).
                 if r = -1 then answer (text_response 400 ''Bad Request'' ''Failed to decode pubuid to pubkey and uid'') s
                 else if r = -2 then answer (text_response 400 ''Bad Request'' ''Invalid IP address/Domain'') s
                 else if r = -3 then answer (text_response 500 ''Internal Server Error'' ''Failed to add peer'') s
                 else if r = -4 then answer (text_response 500 ''Internal Server Error'' ''Failed to NAT punch'') s
                 else
                   let fmted = fmt512 (str ''Connecting to peer at '' @ uni_pm @ str '':'' @ port_pm);
                       jwo = ujson_wo_create True;
                       jwo = add_str ''status'' (Some (str ''ok'')) jwo;
                       jwo = add_str ''message'' (Some fmted) jwo;
                       jwo = add_int ''uid'' (uint (the uid)) jwo in
                   answer (json_response e jwo (empty_response 500 ''Failed to serialize JSON response'')) s)
             | _ \<Rightarrow> Inl NullDeref))))"

subsection \<open>Disconnecting and the status\<close>

definition handle_peer_disconnect :: "cli_env \<Rightarrow> uhttp_high_request \<Rightarrow> s2_systems \<Rightarrow> fault + uhttp_response \<times> s2_systems" where
  "handle_peer_disconnect e req s =
     (let rq = hq_req req; answer = (\<lambda>resp s. bind_fault resp (\<lambda>rs. Inr (rs, s))) in
      if rq_method rq \<noteq> HTTP_POST then answer (empty_response 405 ''Method Not Allowed'') s
      else
        bind_fault (uhttp_any_params rq) (\<lambda>any.
        if \<not> any then answer (text_response 400 ''Bad request'' ''No query params'') s
        else
          bind_fault (uhttp_parse_params (Some rq) (Some [uhttp_new_param (str ''uid'')])) (\<lambda>(r, params).
          if r \<noteq> 0 then answer (text_response 400 ''Bad Request'' ''Missing required parameters: uid'') s
          else
            (case map_option cstr (uhttp_get_param (the params) (str ''uid'')) of
               None \<Rightarrow> Inl NullDeref
             | Some uid_pm \<Rightarrow>
                 let uid = (word_of_int (atoi_long uid_pm) :: u32) in
                 bind_fault (s2_sys_closeconn s uid) (\<lambda>(r, s).
                 if r < 0 then answer (text_response 404 ''Not Found'' ''Peer not found'') s
                 else
                   let fmted = fmt512 (str ''Disconnected from peer '' @ dec_nat (unat uid));
                       jwo = ujson_wo_create True;
                       jwo = add_str ''status'' (Some (str ''ok'')) jwo;
                       jwo = add_str ''message'' (Some fmted) jwo in
                   answer (json_response e jwo (empty_response 500 ''Failed to serialize JSON response'')) s)))))"

definition handle_status :: "cli_env \<Rightarrow> uhttp_high_request \<Rightarrow> s2_systems \<Rightarrow> fault + uhttp_response \<times> s2_systems" where
  "handle_status e req s =
     (let rq = hq_req req; answer = (\<lambda>resp s. bind_fault resp (\<lambda>rs. Inr (rs, s))) in
      if rq_method rq \<noteq> HTTP_GET then answer (empty_response 405 ''Method Not Allowed'') s
      else
        let jwo = ujson_wo_create True;
            jwo = add_str ''status'' (Some (str ''active'')) jwo;
            jwo = add_str ''ip'' (Some (ln_gip (s_usock_addr s))) jwo;
            jwo = add_int ''port'' (uint (ln_gport (s_usock_addr s))) jwo;
            jwo = add_str ''fingerprint'' (Some (s2_fingerprint s)) jwo;
            jwo = add_str ''pubuid'' (s2_pubuid (ce_so e) True s) jwo in
        answer (json_response e jwo (text_response 500 ''Internal Server Error'' ''Failed to serialize JSON answer'')) s)"

subsection \<open>The routes\<close>

text \<open>
  The routes that \<open>main\<close> sets. The context of the server is the systems of the node, or the fault a
  handler ended in. \<open>junk\<close> is what is found where a function without a body should have put its response.
\<close>

type_synonym cli_handler = "uhttp_high_request \<Rightarrow> s2_systems \<Rightarrow> fault + uhttp_response \<times> s2_systems"

definition as_route ::
  "uhttp_response \<Rightarrow> cli_handler \<Rightarrow> uhttp_high_request \<Rightarrow> fault + s2_systems \<Rightarrow> uhttp_response \<times> (fault + s2_systems)" where
  "as_route junk h req c =
     (case c of
        Inl f \<Rightarrow> (junk, Inl f)
      | Inr s \<Rightarrow> (case h req s of Inl f \<Rightarrow> (junk, Inl f) | Inr (resp, s) \<Rightarrow> (resp, Inr s)))"

definition handle_empty :: "uhttp_response \<Rightarrow> cli_handler" where
  "handle_empty junk req s = Inr (junk, s)"

definition main_handlers :: "cli_env \<Rightarrow> uhttp_response \<Rightarrow> (string \<times> cli_handler) list" where
  "main_handlers e junk =
     [(''/api/peer/connect'', handle_peer_connect e),
      (''/api/peer/disconnect'', handle_peer_disconnect e),
      (''/api/peer/info'', handle_empty junk),
      (''/api/turn/connect'', handle_empty junk),
      (''/api/turn/disconnect'', handle_empty junk),
      (''/api/turn/specs'', handle_empty junk),
      (''/api/stating/connect'', handle_empty junk),
      (''/api/stating/disconnect'', handle_empty junk),
      (''/api/status'', handle_status e),
      (''/api/wait'', handle_empty junk)]"

fun set_routes ::
  "uhttp_response \<Rightarrow> (string \<times> cli_handler) list \<Rightarrow> (fault + s2_systems) uhttp_serv \<Rightarrow>
   fault + (fault + s2_systems) uhttp_serv" where
  "set_routes junk [] sv = Inr sv"
| "set_routes junk ((path, h) # hs) sv =
     bind_fault (uhttp_set_route sv (str path) (Some (as_route junk h))) (\<lambda>(_, sv). set_routes junk hs sv)"

definition main_routes ::
  "cli_env \<Rightarrow> uhttp_response \<Rightarrow> (fault + s2_systems) uhttp_serv \<Rightarrow> fault + (fault + s2_systems) uhttp_serv" where
  "main_routes e junk sv = set_routes junk (main_handlers e junk) sv"

subsection \<open>Responses that are made\<close>

lemma create_response_text:
  assumes "0 \<notin> set b"
  shows "uhttp_create_responseq code st (Some (b @ [0])) SIZE_MAX ct =
    Inr \<lparr>rs_status_code = code, rs_status_text = st, rs_headers = None, rs_header_count = 0, rs_body = Some b,
         rs_body_len = length b, rs_content_type = ct\<rparr>"
proof -
  have "cstr (b @ [0]) = b" using assms by (auto simp: cstr_def takeWhile_tail takeWhile_eq_all_conv)
  then show ?thesis
    by (simp add: uhttp_create_responseq_def uhttp_create_response_def strlen_def read_block_def SIZE_MAX_def)
qed

lemma create_response_code:
  "uhttp_create_responseq code st b n ct = Inr resp \<Longrightarrow> rs_status_code resp = code"
  by (auto simp: uhttp_create_responseq_def uhttp_create_response_def bind_fault_Inr_iff Let_def split: option.splits if_splits)

lemma response_codes:
  "text_response code st b = Inr resp \<Longrightarrow> rs_status_code resp = code"
  "empty_response code st = Inr resp \<Longrightarrow> rs_status_code resp = code"
  by (auto simp: text_response_def empty_response_def dest: create_response_code)

lemma json_response_code:
  assumes "json_response e doc failed = Inr resp" and "\<forall>r. failed = Inr r \<longrightarrow> rs_status_code r = 500"
  shows "rs_status_code resp = 200 \<or> rs_status_code resp = 500"
  using assms by (auto simp: json_response_def Let_def split: prod.splits if_splits dest: create_response_code)

lemma json_response_ok:
  assumes "ce_write e d = Some j" and "0 \<notin> set j"
  shows "json_response e (Some d) failed =
    Inr \<lparr>rs_status_code = 200, rs_status_text = Some (str ''OK''), rs_headers = None, rs_header_count = 0,
         rs_body = Some j, rs_body_len = length j, rs_content_type = HTTP_APPLICATION_JSON\<rparr>"
  using assms by (simp add: json_response_def ujson_wo_serialize_def create_response_text)

subsection \<open>Parameters\<close>

lemma atoi_long_dec: "n < 2 ^ 31 \<Longrightarrow> atoi_long (dec_nat n) = int n"
  by (simp add: atoi_long_def atoi_dec min_def max_def signed_of_nat signed_take_bit_int_eq_self)

lemma query_at:
  assumes "63 \<notin> set route"
  shows "query_of (route @ 63 # q) = Some (63 # q)"
proof -
  have "find_char 63 (route @ 63 # q) = Some (length route)" by (rule find_char_at) (simp_all add: assms)
  then show ?thesis by (simp add: query_of_def)
qed

lemma parse_param_encoded:
  assumes "\<forall>(k, v) \<in> set ps. query_name k" and "query_name n" and "n \<noteq> []"
    and "map_of ps n = Some v" and "length v < 1024"
  shows "parse_param (Some (63 # encode_query ps)) (uhttp_new_param n) = (True, \<lparr>up_name = n, up_value = Some v\<rparr>)"
  using query_loop_encoded [OF assms(1-3), of "[]" 1024] assms(3-5)
  by (simp add: parse_param_def uhttp_get_query_param_def uhttp_new_param_def)

subsection \<open>Connecting to a peer\<close>

text \<open>What is filed of a peer that was asked for, and what \<open>handle_peer_connect\<close> answers.\<close>

definition asked_peer :: "cli_env \<Rightarrow> bytes \<Rightarrow> u16 \<Rightarrow> u32 \<Rightarrow> bytes \<Rightarrow> peer_info" where
  "asked_peer e ip port uid pk =
     \<lparr>pi_server = zeros 52, pi_state = PEER_ST_INITED, pi_UID = uid, pi_last_seen = word_of_int (ce_now e),
      pi_pubkey = pk, pi_nfd = ln_netfdq (ce_lib e) (na4 (inet_ntop4 ip) port), pi_ctx = 0\<rparr>"

definition connect_answer :: "bytes \<Rightarrow> u16 \<Rightarrow> u32 \<Rightarrow> ujson_wo" where
  "connect_answer ip port uid =
     [(str ''status'', JSON_Str (str ''ok'')),
      (str ''message'', JSON_Str (fmt512 (str ''Connecting to peer at '' @ inet_ntop4 ip @ str '':'' @ dec_nat (unat port)))),
      (str ''uid'', JSON_Int (uint uid))]"

lemma ln_uni_ntop4:
  "length ip = 4 \<Longrightarrow> ln_uni lib dns (inet_ntop4 ip) port out = Inr (0, na4 (inet_ntop4 ip) port)"
  using length_inet_ntop4 [of ip] by (simp add: ln_uni_def inet_pton4_ntop4 ln_ipv4_def na4_def)

lemma asked_fd_wf: "length ip = 4 \<Longrightarrow> fd_wf (ln_netfdq lib (na4 (inet_ntop4 ip) port))"
  using na4_fields [of "inet_ntop4 ip" port] length_inet_ntop4 [of ip] inet_ntop4_nonzero [of ip]
  by (simp add: ln_netfdq_def ln_netfd_def inet_pton4_ntop4 fd_wf_def)

lemma connect_handler_ok:
  assumes "sodium_ok (ce_so e)" and "lib6_ok (ce_lib e)" and "db_wf (ac_p_db (s_ctx s))" and "length ip = 4"
    and "length pk = 32" and "crypto_encode_pubkey_uid (ce_so e) True (Some pk) uid = Some tok"
    and "length (s_usock_addr s) = 52" and "length (id_pub (self_sign s)) = 32"
  shows "\<exists>c. connect_handler e s (inet_ntop4 ip) (dec_nat (unat port)) tok = Inr ((0, Some uid), s\<lparr>s_ctx := c\<rparr>) \<and>
    peers c = (peers (s_ctx s))(uid \<mapsto> asked_peer e ip port uid pk) \<and> db_wf (ac_p_db c) \<and> same_rest (s_ctx s) c \<and>
    sent c = sent (s_ctx s) @
      [(punch_pack (self_uid (s_rudp s)) uid (li_bytes (punch_linfo s (asked_peer e ip port uid pk))),
        pi_nfd (asked_peer e ip port uid pk))]"
proof -
  let ?i = "asked_peer e ip port uid pk"
  have key: "crypto_decode_pubkey_uid (ce_so e) (Some tok) = (0, Some (pk, uid))"
    using crypto_pubkey_uid_roundtrip [OF assms(1,5), of uid] assms(6) by auto
  have port: "word_of_int (atoi_long (dec_nat (unat port))) = port"
    using unsigned_less [of port, where 'a = nat] by (simp add: atoi_long_dec)
  obtain db where db: "on_db (\<lambda>db. peers_db_add True True True db ?i) (s_ctx s) = Inr (0, (s_ctx s)\<lparr>ac_p_db := db\<rparr>)"
    "db_wf db" "peer_lookup db = (peers (s_ctx s))(uid \<mapsto> ?i)"
    using on_db_add [OF assms(3)] by (metis asked_peer_def peer_info.select_convs(3))
  let ?s = "s\<lparr>s_ctx := (s_ctx s)\<lparr>ac_p_db := db\<rparr>\<rparr>"
  have new: "s2_sys_new_peer (ce_lib e) (ce_now e) s (na4 (inet_ntop4 ip) port) (zeros 52) uid pk = Inr (0, ?s)"
    using db(1) by (simp add: s2_sys_new_peer_def asked_peer_def)
  obtain c where c: "s2_sys_nat_punch (ce_lib e) ?s uid = Inr (0, ?s\<lparr>s_ctx := c\<rparr>)" "ac_p_db c = db"
    "same_rest (s_ctx ?s) c"
    "sent c = sent (s_ctx ?s) @ [(punch_pack (self_uid (s_rudp ?s)) uid (li_bytes (punch_linfo ?s ?i)), pi_nfd ?i)]"
    using nat_punch_sends [of ?s "ce_lib e" uid ?i] assms(2,4,7,8) db(2,3)
    by (auto simp: asked_peer_def asked_fd_wf)
  have rest: "same_rest (s_ctx s) c"
    using same_rest_trans [OF same_rest_db c(3)[simplified]] .
  show ?thesis
    using c rest db(2,3) assms(4)
    by (intro exI [of _ c]) (simp add: connect_handler_def key port ln_uni_ntop4 new punch_linfo_def)
qed

text \<open>A request to connect: its parameters stand in any order, and there may be others.\<close>

definition connect_request :: "uhttp_request \<Rightarrow> bytes \<Rightarrow> (bytes \<times> bytes) list \<Rightarrow> bytes \<Rightarrow> u16 \<Rightarrow> bytes \<Rightarrow> bool" where
  "connect_request rq route ps ip port tok \<longleftrightarrow>
     rq_method rq = HTTP_POST \<and> rq_path rq = Some (route @ 63 # encode_query ps) \<and>
     0 \<notin> set (route @ 63 # encode_query ps) \<and> 63 \<notin> set route \<and> (\<forall>(k, v) \<in> set ps. query_name k) \<and>
     map_of ps (str ''uni'') = Some (inet_ntop4 ip) \<and> map_of ps (str ''port'') = Some (dec_nat (unat port)) \<and>
     map_of ps (str ''pubuid'') = Some tok \<and> 0 \<notin> set tok \<and> length tok < 1024"

lemma connect_params:
  assumes "connect_request rq route ps ip port tok"
  shows "uhttp_any_params rq = Inr True"
    and "uhttp_parse_params (Some rq)
      (Some [uhttp_new_param (str ''uni''), uhttp_new_param (str ''port''), uhttp_new_param (str ''pubuid'')]) =
      Inr (0, Some [\<lparr>up_name = str ''uni'', up_value = Some (inet_ntop4 ip)\<rparr>,
        \<lparr>up_name = str ''port'', up_value = Some (dec_nat (unat port))\<rparr>, \<lparr>up_name = str ''pubuid'', up_value = Some tok\<rparr>])"
proof -
  note r = assms [unfolded connect_request_def]
  have q: "rq_path rq = Some (route @ 63 # encode_query ps)" "cstr (route @ 63 # encode_query ps) = route @ 63 # encode_query ps"
    "query_of (route @ 63 # encode_query ps) = Some (63 # encode_query ps)"
    using r by (simp_all add: cstr_plain query_at)
  then show "uhttp_any_params rq = Inr True" by (simp add: uhttp_any_params_def)
  have n: "query_name (str ''uni'')" "query_name (str ''port'')" "query_name (str ''pubuid'')"
    "str ''uni'' \<noteq> []" "str ''port'' \<noteq> []" "str ''pubuid'' \<noteq> []"
    by (simp_all add: query_name_def str_def)
  have l: "length (inet_ntop4 ip) < 1024" "length (dec_nat (unat port)) < 1024"
    using length_inet_ntop4 [of ip] length_dec_nat [of "unat port" 5] unsigned_less [of port, where 'a = nat] by simp_all
  show "uhttp_parse_params (Some rq)
      (Some [uhttp_new_param (str ''uni''), uhttp_new_param (str ''port''), uhttp_new_param (str ''pubuid'')]) =
      Inr (0, Some [\<lparr>up_name = str ''uni'', up_value = Some (inet_ntop4 ip)\<rparr>,
        \<lparr>up_name = str ''port'', up_value = Some (dec_nat (unat port))\<rparr>, \<lparr>up_name = str ''pubuid'', up_value = Some tok\<rparr>])"
    using r q n l by (simp add: uhttp_parse_params_def parse_param_encoded Let_def)
qed

lemma peer_connect_ok:
  assumes "sodium_ok (ce_so e)" and "lib6_ok (ce_lib e)" and "db_wf (ac_p_db (s_ctx s))" and "length ip = 4"
    and "length pk = 32" and "crypto_encode_pubkey_uid (ce_so e) True (Some pk) uid = Some tok"
    and "length (s_usock_addr s) = 52" and "length (id_pub (self_sign s)) = 32"
    and "connect_request (hq_req req) route ps ip port tok"
    and "ce_write e (connect_answer ip port uid) = Some j" and "0 \<notin> set j"
  shows "\<exists>c. handle_peer_connect e req s =
      Inr (\<lparr>rs_status_code = 200, rs_status_text = Some (str ''OK''), rs_headers = None, rs_header_count = 0,
            rs_body = Some j, rs_body_len = length j, rs_content_type = HTTP_APPLICATION_JSON\<rparr>, s\<lparr>s_ctx := c\<rparr>) \<and>
    peers c = (peers (s_ctx s))(uid \<mapsto> asked_peer e ip port uid pk) \<and> db_wf (ac_p_db c) \<and> same_rest (s_ctx s) c \<and>
    sent c = sent (s_ctx s) @
      [(punch_pack (self_uid (s_rudp s)) uid (li_bytes (punch_linfo s (asked_peer e ip port uid pk))),
        pi_nfd (asked_peer e ip port uid pk))]"
proof -
  obtain c where c: "connect_handler e s (inet_ntop4 ip) (dec_nat (unat port)) tok = Inr ((0, Some uid), s\<lparr>s_ctx := c\<rparr>)"
    "peers c = (peers (s_ctx s))(uid \<mapsto> asked_peer e ip port uid pk)" "db_wf (ac_p_db c)" "same_rest (s_ctx s) c"
    "sent c = sent (s_ctx s) @
      [(punch_pack (self_uid (s_rudp s)) uid (li_bytes (punch_linfo s (asked_peer e ip port uid pk))),
        pi_nfd (asked_peer e ip port uid pk))]"
    using connect_handler_ok [OF assms(1-8)] by blast
  have n: "str ''uni'' \<noteq> str ''port''" "str ''uni'' \<noteq> str ''pubuid''" "str ''port'' \<noteq> str ''pubuid''"
    by (simp_all add: str_def)
  have z: "cstr (inet_ntop4 ip) = inet_ntop4 ip" "cstr (dec_nat (unat port)) = dec_nat (unat port)" "cstr tok = tok"
    using inet_ntop4_nonzero [of ip] dec_nat_clean [of 0 "unat port"] assms(9) by (simp_all add: cstr_plain connect_request_def)
  have m: "rq_method (hq_req req) = HTTP_POST" using assms(9) by (simp add: connect_request_def)
  have w: "add_int ''uid'' (uint uid) (add_str ''message''
      (Some (fmt512 (str ''Connecting to peer at '' @ inet_ntop4 ip @ str '':'' @ dec_nat (unat port))))
      (add_str ''status'' (Some (str ''ok'')) (ujson_wo_create True))) = Some (connect_answer ip port uid)"
    by (simp add: add_int_def add_str_def ujson_wo_create_def ujson_wo_add_str_def ujson_wo_add_int_def connect_answer_def)
  show ?thesis
    using c(2-5)
    by (intro exI [of _ c]) (simp add: handle_peer_connect_def m connect_params [OF assms(9)] n n [symmetric] z c(1) w
        json_response_ok [OF assms(10,11)] Let_def)
qed

subsection \<open>A request that fails\<close>

lemma connect_handler_keeps:
  "connect_handler e s a b c = Inr ((r, u), s') \<Longrightarrow> s' = s \<or> r \<noteq> -1 \<and> r \<noteq> -2"
  unfolding connect_handler_def Let_def by (auto simp: bind_fault_Inr_iff split: prod.splits option.splits if_splits)

lemma connect_answer_code:
  "json_response e d (empty_response 500 st) = Inr resp \<Longrightarrow> rs_status_code resp = 200 \<or> rs_status_code resp = 500"
  by (erule json_response_code) (simp add: response_codes)

lemma peer_connect_cases:
  assumes "handle_peer_connect e req s = Inr (resp, s')"
  shows "s' = s \<or> (\<exists>a b c k u. connect_handler e s a b c = Inr ((k, u), s') \<and>
    (rs_status_code resp \<notin> {200, 500} \<longrightarrow> k = -1 \<or> k = -2))"
proof (cases "rq_method (hq_req req) = HTTP_POST")
  case False
  then show ?thesis using assms by (auto simp: handle_peer_connect_def bind_fault_Inr_iff)
next
  case True
  let ?v = "\<lambda>ps n. map_option cstr (uhttp_get_param (the ps) (str n))"
  obtain any where any: "uhttp_any_params (hq_req req) = Inr any"
    using assms True by (cases "uhttp_any_params (hq_req req)") (simp_all add: handle_peer_connect_def)
  show ?thesis
  proof (cases any)
    case False
    then show ?thesis using assms True any by (auto simp: handle_peer_connect_def bind_fault_Inr_iff)
  next
    case t: True
    let ?ps = "uhttp_parse_params (Some (hq_req req))
        (Some [uhttp_new_param (str ''uni''), uhttp_new_param (str ''port''), uhttp_new_param (str ''pubuid'')])"
    obtain r ps where ps: "?ps = Inr (r, ps)"
      using assms True any t by (cases ?ps) (auto simp: handle_peer_connect_def Let_def)
    note run = assms [unfolded handle_peer_connect_def Let_def, simplified True any t ps]
    show ?thesis
    proof (cases "r = 0")
      case False
      then show ?thesis using run by (auto simp: bind_fault_Inr_iff)
    next
      case r: True
      from run r obtain a b c where v: "?v ps ''uni'' = Some a" "?v ps ''port'' = Some b" "?v ps ''pubuid'' = Some c"
        by (auto split: option.splits)
      from run r v obtain k u s1 where k: "connect_handler e s a b c = Inr ((k, u), s1)"
        by (auto simp: bind_fault_Inr_iff)
      then have "s1 = s' \<and> (rs_status_code resp \<notin> {200, 500} \<longrightarrow> k = -1 \<or> k = -2)"
        using run r v by (auto simp: bind_fault_Inr_iff split: if_splits dest!: response_codes connect_answer_code)
      with k show ?thesis by blast
    qed
  qed
qed

subsection \<open>Closing a connection\<close>

lemma atoi_long_uid: "n < 2 ^ 32 \<Longrightarrow> (word_of_int (atoi_long (dec_nat n)) :: u32) = of_nat n"
  by (simp add: atoi_long_def atoi_dec min_def max_def)

lemma closeconn_known:
  assumes "db_wf (ac_p_db (s_ctx s))" and "disp_ok (s_rudp s)" and "peers (s_ctx s) uid \<noteq> None"
  shows "\<exists>c. s2_sys_closeconn s uid = Inr (0, s\<lparr>s_ctx := c\<rparr>) \<and> peers c = (peers (s_ctx s))(uid := None) \<and>
    conns (ac_rudp c) = (conns (s_rudp s))(uid := None) \<and> sent c = sent (s_ctx s) @ fins (s_rudp s) uid"
proof -
  have check: "on_db (\<lambda>db. peers_db_check db uid) (s_ctx s) = Inr (True, s_ctx s)"
    using assms(3) by (simp add: on_db_def peers_db_check_ok [OF assms(1)])
  obtain r db where db: "on_db (\<lambda>db. peers_db_remove db uid) (s_ctx s) = Inr (r, (s_ctx s)\<lparr>ac_p_db := db\<rparr>)"
    "peer_lookup db = (peers (s_ctx s))(uid := None)"
    using on_db_remove [OF assms(1)] by metis
  obtain r' d where "rudp_close_conncetion (s_rudp s) uid = Inr (r', d)" "conns d = (conns (s_rudp s))(uid := None)"
    "s_packets (d_sender d) = s_packets (d_sender (s_rudp s)) @ fins (s_rudp s) uid"
    by (rule close_ok [OF assms(2)])
  with db show ?thesis by (simp add: s2_sys_closeconn_def check) (rule exI, intro conjI, rule refl, simp_all)
qed

lemma closeconn_unknown:
  assumes "db_wf (ac_p_db (s_ctx s))" and "peers (s_ctx s) uid = None"
  shows "s2_sys_closeconn s uid = Inr (-1, s)"
  using assms(2) by (simp add: s2_sys_closeconn_def on_db_def peers_db_check_ok [OF assms(1)])

subsection \<open>Properties\<close>

text \<open>
  A request to connect to a peer at an IPv4 address, with a token that names a key and a UID, is
  answered with the document; the peer is filed under the UID with this key and address, and the one packet that
  is sent is a punch to it.
\<close>

theorem connect_request_files_peer:
  assumes "sodium_ok (ce_so e)" and "lib6_ok (ce_lib e)" and "db_wf (ac_p_db (s_ctx s))" and "length ip = 4"
    and "length pk = 32" and "crypto_encode_pubkey_uid (ce_so e) True (Some pk) uid = Some tok"
    and "length (s_usock_addr s) = 52" and "length (id_pub (self_sign s)) = 32"
    and "connect_request (hq_req req) route ps ip port tok"
    and "ce_write e (connect_answer ip port uid) = Some j" and "0 \<notin> set j"
  shows "\<exists>resp c. handle_peer_connect e req s = Inr (resp, s\<lparr>s_ctx := c\<rparr>) \<and> rs_status_code resp = 200 \<and>
    rs_body resp = Some j \<and> peers c = (peers (s_ctx s))(uid \<mapsto> asked_peer e ip port uid pk) \<and>
    sent c = sent (s_ctx s) @
      [(punch_pack (self_uid (s_rudp s)) uid (li_bytes (punch_linfo s (asked_peer e ip port uid pk))),
        pi_nfd (asked_peer e ip port uid pk))]"
  using peer_connect_ok [OF assms] by auto

lemma server_create_ok:
  assumes "uhttp_server_create zc zq zp ctx = (r, sv)"
  shows "idle_server sv" "sv_routes sv = []" "sv_ctx sv = ctx"
  using assms pq_create_ok [of zc 208] pq_create_ok [of zq 200] pq_create_ok [of zp 200]
  by (auto simp: uhttp_server_create_def idle_server_def queues_ok_def mt_evsock_new_def split_beta Let_def)

lemma set_routes_all:
  assumes "\<forall>(p, h) \<in> set hs. p \<noteq> [] \<and> length p < 512"
  shows "set_routes junk hs sv =
    Inr (sv\<lparr>sv_routes := sv_routes sv @ map (\<lambda>(p, h). \<lparr>ur_path = str p, ur_handler = as_route junk h\<rparr>) hs\<rparr>)"
  using assms by (induction junk hs sv rule: set_routes.induct) (auto simp: uhttp_set_route_def str_def)

lemma main_paths: "\<forall>(p, h) \<in> set (main_handlers e junk). p \<noteq> [] \<and> length p < 512"
  by (simp add: main_handlers_def)

text \<open>
  C18: the request \<open>POST /api/peer/connect\<close> with the parameters of a peer (an IPv4 address, a port and a valid token of its
  key and UID), which a program builds with the library and sends as the one client of a fresh server with the routes
  of \<open>main\<close>, in one read of less than 2048 bytes and with the threads taking turns as in \<open>http_exchange\<close>: the response that is
  read back is 200 with the document, and the peer is on file.
\<close>

theorem connect_over_http:
  assumes "sodium_ok (ce_so e)" and "lib6_ok (ce_lib e)" and "db_wf (ac_p_db (s_ctx s))" and "length ip = 4"
    and "length pk = 32" and "crypto_encode_pubkey_uid (ce_so e) True (Some pk) uid = Some tok"
    and "length (s_usock_addr s) = 52" and "length (id_pub (self_sign s)) = 32"
    and "connect_request rq (str ''/api/peer/connect'') ps ip port tok"
    and "ce_write e (connect_answer ip port uid) = Some j" and "0 \<notin> set j" and "j \<noteq> []" and "length j \<le> UHTTP_MAX_BODY_SIZE"
    and sv: "uhttp_server_create zc zq zp (Inr s) = (r, sv)"
    and "request_ok rq (str ''/api/peer/connect'' @ 63 # encode_query ps) hs b"
    and "uhttp_build_request junk (Some rq) True = Inr (0, Some (block, n))" and "length (take n block) < 2048"
  shows "\<exists>sv' out resp sv'' c. main_routes e blank sv = Inr sv' \<and>
    http_exchange junk zc zq zp sv' fd (take n block) = Some (Inr ([(fd, out)], sv'', [])) \<and>
    uhttp_parse_response (Some out) True = (UHTTP_PARSE_OK, Some resp) \<and>
    rs_status_code resp = 200 \<and> rs_body resp = Some j \<and>
    sv_ctx sv'' = Inr (s\<lparr>s_ctx := c\<rparr>) \<and> peers c = (peers (s_ctx s))(uid \<mapsto> asked_peer e ip port uid pk)"
proof -
  note sv' = server_create_ok [OF sv]
  let ?r = "\<lambda>(p, h). \<lparr>ur_path = str p, ur_handler = as_route blank h\<rparr>"
  let ?c = "(''/api/peer/connect'', handle_peer_connect e)"
  let ?sv = "sv\<lparr>sv_routes := map ?r (main_handlers e blank)\<rparr>" and ?path = "str ''/api/peer/connect'' @ 63 # encode_query ps"
  have m: "main_routes e blank sv = Inr ?sv"
    by (simp add: main_routes_def set_routes_all sv'(2) main_paths)
  have w: "takeWhile (\<lambda>b. b \<noteq> 63) ?path = str ''/api/peer/connect''" by (simp add: str_def)
  have req: "connect_request (hq_req \<lparr>hq_nfd = fd, hq_req = received_request rq ?path hs b\<rparr>) (str ''/api/peer/connect'') ps ip port tok"
    using assms(9) by (simp add: connect_request_def received_request_def Let_def)
  obtain resp c where a: "handle_peer_connect e \<lparr>hq_nfd = fd, hq_req = received_request rq ?path hs b\<rparr> s = Inr (resp, s\<lparr>s_ctx := c\<rparr>)"
    "peers c = (peers (s_ctx s))(uid \<mapsto> asked_peer e ip port uid pk)" "resp = \<lparr>rs_status_code = 200, rs_status_text = Some (str ''OK''), rs_headers = None, rs_header_count = 0,
            rs_body = Some j, rs_body_len = length j, rs_content_type = HTTP_APPLICATION_JSON\<rparr>"
    using peer_connect_ok [OF assms(1-8) req assms(10,11)] by blast
  have ok: "response_ok resp 200 (str ''OK'') [] j"
    using assms(12,13) by (simp add: a(3) response_ok_def headers_ok_def body_ok_def) (simp add: str_def)
  have route: "find_route (sv_routes ?sv) (takeWhile (\<lambda>b. b \<noteq> 63) ?path) = Some (?r ?c)"
    by (simp add: w main_handlers_def)
  have h: "ur_handler (?r ?c)
      \<lparr>hq_nfd = fd, hq_req = received_request rq ?path hs b\<rparr> (sv_ctx ?sv) = (resp, Inr (s\<lparr>s_ctx := c\<rparr>))"
    by (simp add: as_route_def sv'(3) a(1))
  have q: "idle_server ?sv" using sv'(1) by (simp add: idle_server_def queues_ok_def)
  obtain out resp' sv'' where "http_exchange junk zc zq zp ?sv fd (take n block) = Some (Inr ([(fd, out)], sv'', []))"
    "sv_ctx sv'' = Inr (s\<lparr>s_ctx := c\<rparr>)" "uhttp_parse_response (Some out) True = (UHTTP_PARSE_OK, Some resp')"
    "rs_status_code resp' = 200" "rs_body resp' = Some j"
    using exchange_answered [OF q assms(15-17) route h ok, of zc zq zp] assms(12) by auto
  with m a(2) show ?thesis by blast
qed

text \<open>
  An answer to a request to connect other than 200 and 500 leaves the node as it was.
\<close>

theorem connect_refused_keeps_node:
  assumes "handle_peer_connect e req s = Inr (resp, s')" and "rs_status_code resp \<notin> {200, 500}"
  shows "s' = s"
  using peer_connect_cases [OF assms(1)] assms(2) connect_handler_keeps by blast

text \<open>
  C21: a request to disconnect from a known peer drops its entry and its connection and queues the two closing packets; for an
  unknown one nothing changes and the answer is 404.
\<close>

theorem disconnect_request_effect:
  assumes "db_wf (ac_p_db (s_ctx s))" and "disp_ok (s_rudp s)" and "rq_method (hq_req req) = HTTP_POST"
    and "rq_path (hq_req req) = Some (route @ 63 # encode_query ps)" and "0 \<notin> set (route @ 63 # encode_query ps)"
    and "63 \<notin> set route" and "\<forall>(k, v) \<in> set ps. query_name k" and "map_of ps (str ''uid'') = Some (dec_nat (unat uid))"
    and "\<forall>d. \<exists>j. ce_write e d = Some j \<and> 0 \<notin> set j"
  shows "\<exists>resp c. handle_peer_disconnect e req s = Inr (resp, s\<lparr>s_ctx := c\<rparr>) \<and>
    (if peers (s_ctx s) uid = None then rs_status_code resp = 404 \<and> c = s_ctx s
     else rs_status_code resp = 200 \<and> peers c = (peers (s_ctx s))(uid := None) \<and>
       conns (ac_rudp c) = (conns (s_rudp s))(uid := None) \<and> sent c = sent (s_ctx s) @ fins (s_rudp s) uid)"
proof -
  have q: "cstr (route @ 63 # encode_query ps) = route @ 63 # encode_query ps"
    "query_of (route @ 63 # encode_query ps) = Some (63 # encode_query ps)"
    using assms(5,6) by (simp_all add: cstr_plain query_at)
  have l: "length (dec_nat (unat uid)) < 1024" "cstr (dec_nat (unat uid)) = dec_nat (unat uid)"
    using length_dec_nat [of "unat uid" 10] unsigned_less [of uid, where 'a = nat] dec_nat_clean [of 0 "unat uid"]
    by (simp_all add: cstr_plain)
  have "query_name (str ''uid'')" "str ''uid'' \<noteq> []" by (simp_all add: query_name_def str_def)
  with assms l(1) have p: "parse_param (Some (63 # encode_query ps)) (uhttp_new_param (str ''uid'')) =
      (True, \<lparr>up_name = str ''uid'', up_value = Some (dec_nat (unat uid))\<rparr>)"
    by (intro parse_param_encoded) simp_all
  have u: "(word_of_int (atoi_long (dec_nat (unat uid))) :: u32) = uid"
    using unsigned_less [of uid, where 'a = nat] by (simp add: atoi_long_uid)
  define d where "d = add_str ''message'' (Some (fmt512 (str ''Disconnected from peer '' @ dec_nat (unat uid))))
    (add_str ''status'' (Some (str ''ok'')) (ujson_wo_create True))"
  then obtain d' where d': "d = Some d'" by (simp add: add_str_def ujson_wo_create_def ujson_wo_add_str_def)
  obtain j where j: "ce_write e d' = Some j" "0 \<notin> set j" using assms(9) by blast
  let ?body = "\<lambda>(r, s). if r < 0 then bind_fault (text_response 404 ''Not Found'' ''Peer not found'') (\<lambda>rs. Inr (rs, s))
    else bind_fault (json_response e d (empty_response 500 ''Failed to serialize JSON response'')) (\<lambda>rs. Inr (rs, s))"
  have run: "handle_peer_disconnect e req s = bind_fault (s2_sys_closeconn s uid) ?body"
    using assms(3,4) by (simp add: handle_peer_disconnect_def uhttp_any_params_def uhttp_parse_params_def q p l(2) u d_def Let_def cong: if_cong)
  have t: "\<exists>resp. text_response 404 ''Not Found'' ''Peer not found'' = Inr resp \<and> rs_status_code resp = 404"
    using create_response_text [of "str ''Peer not found''" 404 "Some (str ''Not Found'')" HTTP_TEXT_PLAIN]
    by (simp add: text_response_def) (simp add: str_def)
  show ?thesis
  proof (cases "peers (s_ctx s) uid = None")
    case True
    with t show ?thesis
      by (auto simp: run closeconn_unknown [OF assms(1)] intro!: exI [of _ "s_ctx s"])
  next
    case False
    then show ?thesis
      using closeconn_known [OF assms(1,2) False] by (auto simp: run d' json_response_ok [OF j])
  qed
qed


subsection \<open>A node that is asked to connect\<close>

definition demo_cli :: cli_env where
  "demo_cli = \<lparr>ce_lib = demo_lib6, ce_so = demo_sodium, ce_dns = (\<lambda>_. None), ce_addr = zeros 52, ce_now = 1000,
     ce_write = (\<lambda>_. Some [123, 125])\<rparr>"

definition demo_token :: bytes where
  "demo_token = replicate 32 7 @ [58, 1, 2, 3, 4]"

definition demo_query :: "(bytes \<times> bytes) list" where
  "demo_query = [(str ''port'', dec_nat 4000), (str ''uni'', inet_ntop4 [10, 0, 0, 7]), (str ''pubuid'', demo_token)]"

definition demo_post :: uhttp_request where
  "demo_post = \<lparr>rq_method = HTTP_POST, rq_path = Some (str ''/api/peer/connect'' @ 63 # encode_query demo_query),
     rq_headers = None, rq_header_count = 0, rq_body = None, rq_body_len = 0, rq_content_length = 0\<rparr>"

lemma hex_digit_printable: "n < (16 :: u8) \<Longrightarrow> hex_digit n \<noteq> 0 \<and> hex_digit n \<noteq> 13 \<and> hex_digit n \<noteq> 32"
proof -
  assume "n < 16"
  then have "isxdigit (hex_digit n)" by (rule hex_digit(1))
  then show ?thesis by (auto simp: isxdigit_def isdigit_def)
qed

lemma encode_value_printable: "b \<in> set (encode_value v) \<Longrightarrow> b \<noteq> 0 \<and> b \<noteq> 13 \<and> b \<noteq> 32"
proof -
  have "c \<noteq> 0 \<and> c \<noteq> 13 \<and> c \<noteq> 32" if "c \<in> set (encode_byte b)" for b c
    using that hex_digit_printable [OF nibbles(1) [of b]] hex_digit_printable [OF nibbles(2) [of b]]
    by (auto simp: encode_byte_def plain_def isdigit_def split: if_splits)
  then show "b \<in> set (encode_value v) \<Longrightarrow> b \<noteq> 0 \<and> b \<noteq> 13 \<and> b \<noteq> 32" by (auto simp: encode_value_def)
qed

lemma length_encode_value: "length (encode_value v) \<le> 3 * length v"
  by (induction v) (simp_all add: encode_value_def encode_byte_def)

lemma demo_query_bytes:
  "\<forall>b \<in> set (encode_query demo_query). b \<noteq> 0 \<and> b \<noteq> 13 \<and> b \<noteq> 32" "length (encode_query demo_query) < 220"
proof -
  have "\<forall>b \<in> set (str ''port'') \<union> set (str ''uni'') \<union> set (str ''pubuid''). b \<noteq> 0 \<and> b \<noteq> 13 \<and> b \<noteq> 32"
    by (simp add: str_def)
  then show "\<forall>b \<in> set (encode_query demo_query). b \<noteq> 0 \<and> b \<noteq> 13 \<and> b \<noteq> 32"
    by (auto simp: demo_query_def dest: encode_value_printable)
  have "length (encode_value (dec_nat 4000)) \<le> 15" "length (encode_value (inet_ntop4 [10, 0, 0, 7])) \<le> 45"
    "length (encode_value demo_token) \<le> 111"
    using length_encode_value [of "dec_nat 4000"] length_dec_nat [of 4000 5] length_encode_value [of "inet_ntop4 [10, 0, 0, 7]"]
      length_inet_ntop4 [of "[10, 0, 0, 7]"] length_encode_value [of demo_token] by (simp_all add: demo_token_def)
  then show "length (encode_query demo_query) < 220" by (simp add: demo_query_def str_def)
qed

lemma demo_token_encodes: "crypto_encode_pubkey_uid demo_sodium True (Some (replicate 32 7)) 0x01020304 = Some demo_token"
  by code_simp

lemma demo_post_connects: "connect_request demo_post (str ''/api/peer/connect'') demo_query [10, 0, 0, 7] 4000 demo_token"
proof -
  have n: "str ''port'' \<noteq> str ''uni''" "str ''port'' \<noteq> str ''pubuid''" "str ''uni'' \<noteq> str ''pubuid''" by (simp_all add: str_def)
  have "0 \<notin> set (encode_query demo_query)" using demo_query_bytes(1) by blast
  moreover have "0 \<notin> set (str ''/api/peer/connect'')" "63 \<notin> set (str ''/api/peer/connect'')" by (simp_all add: str_def)
  moreover have "\<forall>(k, v) \<in> set demo_query. query_name k" by (simp add: demo_query_def query_name_def str_def)
  moreover have "0 \<notin> set demo_token" "length demo_token < 1024" by (simp_all add: demo_token_def)
  ultimately show ?thesis
    by (simp add: connect_request_def demo_post_def) (simp add: demo_query_def n n [symmetric])
qed

lemma demo_post_ok: "request_ok demo_post (str ''/api/peer/connect'' @ 63 # encode_query demo_query) [] []"
proof -
  have "\<forall>b \<in> set (str ''/api/peer/connect''). b \<noteq> 0 \<and> b \<noteq> 13 \<and> b \<noteq> 32" "length (str ''/api/peer/connect'') = 17"
    by (simp_all add: str_def)
  with demo_query_bytes show ?thesis
    by (auto simp: request_ok_def demo_post_def path_ok_def MAX_PATH_SIZE_def headers_ok_def body_ok_def)
qed

definition demo_asked :: "uhttp_method \<Rightarrow> string \<Rightarrow> uhttp_high_request" where
  "demo_asked m path = \<lparr>hq_nfd = 7, hq_req = demo_post\<lparr>rq_method := m, rq_path := Some (str path)\<rparr>\<rparr>"

lemma demo_cli_sel [simp]: "ce_lib demo_cli = demo_lib6" "ce_so demo_cli = demo_sodium" "ce_write demo_cli d = Some [123, 125]"
  by (simp_all add: demo_cli_def)

lemma demo_sizes: "length (s_usock_addr (demo_node 5 demo_db)) = 52" "length (id_pub (self_sign (demo_node 5 demo_db))) = 32"
  by (simp_all add: demo_sign_def)

theorem connect_request_files_peer_witness:
  "\<exists>resp c. handle_peer_connect demo_cli \<lparr>hq_nfd = 7, hq_req = demo_post\<rparr> (demo_node 5 demo_db) =
       Inr (resp, (demo_node 5 demo_db)\<lparr>s_ctx := c\<rparr>) \<and>
     rs_status_code resp = 200 \<and> peers c 0x01020304 = Some (asked_peer demo_cli [10, 0, 0, 7] 4000 0x01020304 (replicate 32 7)) \<and>
     peers c 77 = Some demo_peer"
proof -
  let ?i = "asked_peer demo_cli [10, 0, 0, 7] 4000 0x01020304 (replicate 32 7)"
  obtain resp c where "handle_peer_connect demo_cli \<lparr>hq_nfd = 7, hq_req = demo_post\<rparr> (demo_node 5 demo_db) =
      Inr (resp, (demo_node 5 demo_db)\<lparr>s_ctx := c\<rparr>)" "rs_status_code resp = 200" "peers c 0x01020304 = Some ?i"
    "peers c 77 = Some demo_peer"
    using connect_request_files_peer [where e = demo_cli and s = "demo_node 5 demo_db" and ip = "[10, 0, 0, 7]" and
      pk = "replicate 32 7" and uid = "0x01020304" and tok = demo_token and req = "\<lparr>hq_nfd = 7, hq_req = demo_post\<rparr>" and
      route = "str ''/api/peer/connect''" and ps = demo_query and port = 4000 and j = "[123, 125]"]
    demo_sodium_ok demo_lib6_ok demo_db_wf demo_token_encodes demo_post_connects demo_sizes
    by auto
  then show ?thesis by blast
qed

lemma demo_refused:
  "\<exists>resp s'. handle_peer_connect demo_cli (demo_asked HTTP_POST ''/api/peer/connect?uni=10.0.0.7'') (demo_node 5 demo_db) = Inr (resp, s') \<and>
     rs_status_code resp = 400"
proof -
  have q: "str ''/api/peer/connect?uni=10.0.0.7'' = str ''/api/peer/connect'' @ 63 # str ''uni=10.0.0.7''" by (simp add: str_def)
  have "0 \<notin> set (str ''/api/peer/connect?uni=10.0.0.7'')" "63 \<notin> set (str ''/api/peer/connect'')" by (simp_all add: str_def)
  then have c: "cstr (str ''/api/peer/connect?uni=10.0.0.7'') = str ''/api/peer/connect?uni=10.0.0.7''"
    "query_of (str ''/api/peer/connect?uni=10.0.0.7'') = Some (63 # str ''uni=10.0.0.7'')"
    by (simp_all add: cstr_plain q query_at)
  have p: "\<not> fst (parse_param (Some (63 # str ''uni=10.0.0.7'')) (uhttp_new_param (str ''port'')))" by code_simp
  have t: "\<exists>resp. text_response 400 st body = Inr resp \<and> rs_status_code resp = 400" if "0 \<notin> set (str body)" for st body
    using create_response_text [OF that, of 400 "Some (str st)" HTTP_TEXT_PLAIN] by (simp add: text_response_def)
  obtain resp where "text_response 400 ''Bad Request'' ''Missing required parameters: uni, port, pubuid'' = Inr resp" "rs_status_code resp = 400"
    using t [of "''Missing required parameters: uni, port, pubuid''" "''Bad Request''"] by (auto simp: str_def)
  with p show ?thesis
    by (simp add: handle_peer_connect_def demo_asked_def uhttp_any_params_def uhttp_parse_params_def c Let_def)
qed

theorem connect_refused_keeps_node_witness:
  "\<exists>resp s. handle_peer_connect demo_cli (demo_asked HTTP_POST ''/api/peer/connect?uni=10.0.0.7'') (demo_node 5 demo_db) = Inr (resp, s) \<and>
     rs_status_code resp = 400 \<and> s = demo_node 5 demo_db"
proof -
  let ?run = "\<lambda>s. handle_peer_connect demo_cli (demo_asked HTTP_POST ''/api/peer/connect?uni=10.0.0.7'') s"
  have "\<exists>resp s. ?run (demo_node 5 demo_db) = Inr (resp, s) \<and> rs_status_code resp = 400"
    by (rule demo_refused)
  then show ?thesis using connect_refused_keeps_node by fastforce
qed

theorem disconnect_request_effect_witness:
  "\<exists>resp c. handle_peer_disconnect demo_cli (demo_asked HTTP_POST ''/api/peer/disconnect?uid=77'') (demo_node 5 demo_db) =
       Inr (resp, (demo_node 5 demo_db)\<lparr>s_ctx := c\<rparr>) \<and> rs_status_code resp = 200 \<and> peers c 77 = None"
proof -
  have q: "str ''/api/peer/disconnect?uid=77'' = str ''/api/peer/disconnect'' @ 63 # encode_query [(str ''uid'', dec_nat 77)]"
    by (simp add: str_def encode_value_def encode_byte_def plain_def isdigit_def dec_nat.simps digit_def)
  have r: "0 \<notin> set (str ''/api/peer/disconnect'' @ 63 # encode_query [(str ''uid'', dec_nat 77)])"
    "63 \<notin> set (str ''/api/peer/disconnect'')" "query_name (str ''uid'')"
    by (simp_all add: str_def query_name_def encode_value_clean)
  have "disp_ok (s_rudp (demo_node 5 demo_db))" using demo_ctx_ok [of 5] by (simp add: ctx_ok_def)
  then obtain resp c where "handle_peer_disconnect demo_cli (demo_asked HTTP_POST ''/api/peer/disconnect?uid=77'') (demo_node 5 demo_db) =
      Inr (resp, (demo_node 5 demo_db)\<lparr>s_ctx := c\<rparr>)" "rs_status_code resp = 200" "peers c 77 = None"
    using disconnect_request_effect [of "demo_node 5 demo_db" "demo_asked HTTP_POST ''/api/peer/disconnect?uid=77''"
        "str ''/api/peer/disconnect''" "[(str ''uid'', dec_nat 77)]" 77 demo_cli] demo_db_wf q r
    by (auto simp: demo_asked_def demo_post_def simp del: encode_query.simps)
  then show ?thesis by blast
qed

theorem connect_over_http_witness:
  "\<forall>zc zq zp blank. \<exists>block n sv' out resp sv'' c. uhttp_build_request (\<lambda>_. 0) (Some demo_post) True = Inr (0, Some (block, n)) \<and>
     main_routes demo_cli blank (snd (uhttp_server_create zc zq zp (Inr (demo_node 5 demo_db)))) = Inr sv' \<and>
     http_exchange (\<lambda>_. 0) zc zq zp sv' 7 (take n block) = Some (Inr ([(7, out)], sv'', [])) \<and>
     uhttp_parse_response (Some out) True = (UHTTP_PARSE_OK, Some resp) \<and> rs_status_code resp = 200 \<and>
     rs_body resp = Some [123, 125] \<and> sv_ctx sv'' = Inr ((demo_node 5 demo_db)\<lparr>s_ctx := c\<rparr>) \<and> peers c 0x01020304 \<noteq> None" (is "\<forall>zc zq zp blank. ?P zc zq zp blank")
proof (intro allI)
  fix zc :: int and zq :: uhttp_high_request and zp :: uhttp_high_response and blank :: uhttp_response
  obtain r sv where sv: "uhttp_server_create zc zq zp (Inr (demo_node 5 demo_db) :: fault + s2_systems) = (r, sv)" by fastforce
  obtain block n where b: "uhttp_build_request (\<lambda>_. 0) (Some demo_post) True = Inr (0, Some (block, n))"
    "take n block = http_message (request_head demo_post (str ''/api/peer/connect'' @ 63 # encode_query demo_query) @ map header_text []) []"
    using build_request_bytes [OF demo_post_ok, of "\<lambda>_. 0"] by blast
  have "length (str ''/api/peer/connect'') = 17" by (simp add: str_def)
  then have len: "length (take n block) < 2048"
    using demo_query_bytes(2)
    by (simp add: b(2) http_message_def request_head_def demo_post_def uhttp_str_method_def dec_nat.simps) (simp add: str_def)
  have w: "ce_write demo_cli (connect_answer [10, 0, 0, 7] 4000 0x01020304) = Some [123, 125]" by simp
  note go = connect_over_http [where e = demo_cli and s = "demo_node 5 demo_db" and ip = "[10, 0, 0, 7]" and
      pk = "replicate 32 7" and uid = "0x01020304" and tok = demo_token and rq = demo_post and ps = demo_query and port = 4000 and
      j = "[123, 125]" and zc = zc and zq = zq and zp = zp and r = r and sv = sv and hs = "[]" and b = "[]" and
      junk = "\<lambda>_. 0" and block = block and n = n and blank = blank and fd = 7]
  show "?P zc zq zp blank"
    using go demo_sodium_ok demo_lib6_ok demo_db_wf demo_token_encodes demo_post_connects demo_sizes w sv demo_post_ok b(1) len
    by (fastforce simp: UHTTP_MAX_BODY_SIZE_def)
qed

end
