(* ===== verification/Cli_Main.thy ===== *)
theory Cli_Main
  imports Cli
begin

text \<open>
  \<open>main\<close> of \<open>code/cli/src/main.c\<close>: from the arguments of the program to the HTTP server that waits for requests,
  with every early return, and the node behind this server as its threads and the requests change it.

  The lemmas: a node that has been started is well formed, goes by the UID of its key, and has all routes of the
  program; and neither its threads nor any request ever break the invariant of the node.
\<close>

subsection \<open>The start of the program\<close>

text \<open>
  What the calls of \<open>main\<close> meet: the arguments of the program, those of \<open>s2_systems_create\<close>, the file of the key, the socket
  of the node and the rounds of STUN, the thread starts, and uninitialised memory.
\<close>

record main_input =
  mi_argv :: "bytes list"
  mi_crypto :: int
  mi_keys :: sign
  mi_socket :: int
  mi_rand :: nat
  mi_now :: int
  mi_zw :: "protopack option \<times> nnet_fd"
  mi_zs :: "state_request \<times> naddr_t"
  mi_zd :: u32
  mi_zc :: light_peer_info
  mi_file :: "bytes option"
  mi_opened :: bool
  mi_written :: nat
  mi_sock :: ln_socket
  mi_order :: "nat \<Rightarrow> nat list"
  mi_ports :: "nat \<Rightarrow> nat \<Rightarrow> nat"
  mi_stun :: "nat \<Rightarrow> nat \<Rightarrow> naddr_t \<Rightarrow> naddr_t \<Rightarrow> stun_io \<times> stun_io"
  mi_threads :: "int \<times> int \<times> int \<times> int"
  mi_daemons :: "int \<times> int"
  mi_zcli :: int
  mi_zreq :: uhttp_high_request
  mi_zresp :: uhttp_high_response
  mi_blank :: uhttp_response

text \<open>What becomes of it: an exit code, with the systems if they had been created, or a server that waits for requests.\<close>

datatype main_result =
    Main_Exit int "s2_systems option"
  | Main_Serves s2_systems "bool \<times> bool" "(fault + s2_systems) uhttp_serv"

definition stop_exit :: "s2_systems \<Rightarrow> fault + main_result" where
  "stop_exit s = bind_fault (s2_systems_stop s) (\<lambda>(_, s). Inr (Main_Exit (-1) (Some s)))"

definition s2_sys_stun_perf ::
  "cli_env \<Rightarrow> main_input \<Rightarrow> nat \<Rightarrow> stun_addr list \<Rightarrow> s2_systems \<times> ln_socket \<Rightarrow> fault + nat_type \<times> s2_systems \<times> ln_socket" where
  "s2_sys_stun_perf e i k stuns = (\<lambda>(s, sock).
     bind_fault (nat_parallel_req (ce_lib e) (ce_dns e) (ce_addr e) (mi_order i k) (mi_ports i k) (mi_stun i k)
                  (sock\<lparr>us_addr := s_usock_addr s\<rparr>) stuns) (\<lambda>(nt, sock).
     Inr (nt, s\<lparr>s_usock_addr := us_addr sock\<rparr>, sock)))"

definition main_stuns :: "stun_addr list" where
  "main_stuns = [\<lparr>uniaddr = str ''stun.sipnet.ru'', st_port = 3478\<rparr>, \<lparr>uniaddr = str ''stun.ekiga.net'', st_port = 3478\<rparr>]"

text \<open>The loop of \<open>main\<close> with \<open>n\<close> rounds left of five.\<close>

fun stun_rounds ::
  "cli_env \<Rightarrow> main_input \<Rightarrow> nat \<Rightarrow> nat_type \<Rightarrow> s2_systems \<times> ln_socket \<Rightarrow> fault + nat_type \<times> s2_systems \<times> ln_socket" where
  "stun_rounds e i 0 nt s = Inr (nt, s)"
| "stun_rounds e i (Suc n) nt s =
     (if nt \<noteq> NAT_ERROR then Inr (nt, s)
      else bind_fault (s2_sys_stun_perf e i (4 - n) main_stuns s) (\<lambda>(nt, s). stun_rounds e i n nt s))"

definition main_start :: "cli_env \<Rightarrow> main_input \<Rightarrow> fault + main_result" where
  "main_start e i =
     (if length (mi_argv i) < 2 then Inr (Main_Exit 1 None)
      else
        let http_port = (if 3 \<le> length (mi_argv i) then word_of_int (atoi_long (mi_argv i ! 2)) else 8080) in
        (case s2_systems_create (ce_so e) (mi_crypto i) (mi_keys i) (mi_socket i) (us_addr (mi_sock i)) (mi_rand i) (mi_now i)
                (mi_zw i) (mi_zs i) (mi_zd i) (mi_zc i) of
           (r, None) \<Rightarrow> Inr (Main_Exit (-1) None)
         | (r, Some s) \<Rightarrow>
             let (r, s, file) = s2_sys_upd_sign (ce_so e) (mi_opened i) (mi_written i) s (mi_file i) in
             if r < 0 then stop_exit s
             else
               bind_fault (stun_rounds e i 5 NAT_ERROR (s, mi_sock i)) (\<lambda>(nt, s, sock).
               if nt = NAT_ERROR then stop_exit s
               else
                 let (rl, rs, rw, rr) = mi_threads i; (r, s) = s2_systems_run rl rs rw rr s in
                 if r < 0 then stop_exit s
                 else
                   let (r, d) = s2_daemons_create True (mi_daemons i) (False, False) in
                   if r < 0 then stop_exit s
                   else
                     bind_fault (ln_uni (ce_lib e) (ce_dns e) (str ''0.0.0.0'') http_port (ce_addr e)) (\<lambda>_.
                     let (r, sv) = uhttp_server_create (mi_zcli i) (mi_zreq i) (mi_zresp i) (Inr s) in
                     if r < 0 then stop_exit s
                     else bind_fault (main_routes e (mi_blank i) sv) (\<lambda>sv. Inr (Main_Serves s d sv))))))"

subsection \<open>The node behind the server\<close>

text \<open>The threads and the user of the node, and the requests that the server answers.\<close>

inductive serve_reach :: "sodium \<Rightarrow> (fault + s2_systems) uhttp_route list \<Rightarrow> s2_systems \<Rightarrow> s2_systems \<Rightarrow> bool"
  for so routes s0 where
  serve_start: "serve_reach so routes s0 s0"
| serve_node: "serve_reach so routes s0 s \<Longrightarrow> node_step so s s' \<Longrightarrow> serve_reach so routes s0 s'"
| serve_request: "serve_reach so routes s0 s \<Longrightarrow> answer routes req (Inr s) = (resp, Inr s') \<Longrightarrow> serve_reach so routes s0 s'"

lemma remove_keeps:
  assumes "sys_ok so s" and "on_db (\<lambda>db. peers_db_remove db uid) (s_ctx s) = Inr (r, c)"
  shows "sys_ok so (s\<lparr>s_ctx := c\<rparr>)"
proof -
  have "ok_run (ctx_ok so) (on_db (\<lambda>db. peers_db_remove db uid) (s_ctx s))"
    using assms(1) by (intro on_db_ok db_remove_ok) (auto simp: sys_ok_def)
  then show ?thesis using assms by (simp add: sys_ok_def)
qed

lemma new_peer_sys_ok: "s2_sys_new_peer l now s ad sa uid pk = Inr (r, s') \<Longrightarrow> sys_ok so s \<Longrightarrow> sys_ok so s'"
  by (blast intro: ok_run_InrD new_peer_keeps)

lemma punch_sys_ok: "s2_sys_nat_punch l s uid = Inr (r, s') \<Longrightarrow> sys_ok so s \<Longrightarrow> sys_ok so s'"
  by (blast intro: ok_run_InrD punch_keeps)

lemma connect_handler_keeps_ok:
  assumes "sys_ok so s" and "connect_handler e s a b c = Inr (q, s')"
  shows "sys_ok so s'"
  using assms unfolding connect_handler_def Let_def
  by (auto simp: bind_fault_Inr_iff split: prod.splits option.splits if_splits
      dest!: new_peer_sys_ok [where so = so] punch_sys_ok [where so = so] intro: remove_keeps)

lemma handlers_keep:
  assumes "sys_ok so s" and "(p, h) \<in> set (main_handlers e junk)" and "h req s = Inr (resp, s')"
  shows "sys_ok so s'"
proof -
  have "sys_ok so s'" if "handle_peer_connect e req s = Inr (resp, s')"
    using peer_connect_cases [OF that] connect_handler_keeps_ok [OF assms(1)] assms(1) by blast
  moreover have "sys_ok so s'" if "handle_peer_disconnect e req s = Inr (resp, s')"
    using that assms(1) ok_run_InrD [OF closeconn_keeps] unfolding handle_peer_disconnect_def Let_def
    by (auto simp: bind_fault_Inr_iff split: if_splits option.splits)
  moreover have "sys_ok so s'" if "handle_status e req s = Inr (resp, s')"
    using that assms(1) unfolding handle_status_def Let_def by (auto simp: bind_fault_Inr_iff split: if_splits)
  moreover have "sys_ok so s'" if "handle_empty junk req s = Inr (resp, s')"
    using that assms(1) by (simp add: handle_empty_def)
  ultimately show ?thesis using assms(2,3) by (auto simp: main_handlers_def)
qed

subsection \<open>The started node\<close>

text \<open>The node goes by the UID of its key.\<close>

definition identity_ok :: "sodium \<Rightarrow> s2_systems \<Rightarrow> bool" where
  "identity_ok so s \<longleftrightarrow>
     s_UID s = crypto_pubkey_to_uid so (id_pub (self_sign s)) \<and> ctx_uid (s_ctx s) = s_UID s \<and>
     gs_self_uid (ac_g_syst (s_ctx s)) = s_UID s"

lemma new_node_identity:
  "identity_ok so (new_node so keys a rnd now zw zs zd zc)"
  "elements (obj (gossips (ac_g_syst (s_ctx (new_node so keys a rnd now zw zs zd zc))))) = []"
  "\<not> mtx (gossips (ac_g_syst (s_ctx (new_node so keys a rnd now zw zs zd zc))))"
  using pq_create_ok [of zd 4] pq_create_ok [of zc 140]
  by (simp_all add: identity_ok_def new_node_def s2_systems_create_def create_parts split_beta Let_def gossip_system_init_def
      rudp_dispatcher_new_def prot_array_create_def dyn_array_create_def)

lemma upd_sign_ok:
  assumes "sys_ok so s" and "identity_ok so s" and "elements (obj (gossips (ac_g_syst (s_ctx s)))) = []"
    and "ring (new_state_ans (ac_ssystem (s_ctx s))) = []"
    and "s2_sys_upd_sign so opened w s content = (r, s', f)" and "\<not> r < 0"
  shows "sys_ok so s' \<and> identity_ok so s'"
proof (cases content)
  case None
  then show ?thesis using assms by (auto simp: s2_sys_upd_sign_def s2_sys_save_sign_def split: prod.splits)
next
  case (Some c)
  then have l: "s2_sys_load_sign so s content = (r, s')" using assms(5) by (auto simp: s2_sys_upd_sign_def split: prod.splits)
  then show ?thesis
    using assms(1,3,4,6)
    by (auto simp: s2_sys_load_sign_def identity_ok_def sys_ok_def ctx_ok_def gossip_wf_def disp_ok_def conns_def Let_def
        split: prod.splits if_splits)
qed

lemma stun_rounds_addr:
  "stun_rounds e i n nt (s, sock) = Inr (nt', s', sock') \<Longrightarrow> \<exists>a. s' = s\<lparr>s_usock_addr := a\<rparr>"
proof (induction n arbitrary: nt s sock)
  case 0
  then show ?case by (auto intro: exI [of _ "s_usock_addr s"])
next
  case (Suc n)
  show ?case
  proof (cases "nt = NAT_ERROR")
    case True
    then obtain nt1 sock1 where "stun_rounds e i n nt1 (s\<lparr>s_usock_addr := us_addr sock1\<rparr>, sock1) = Inr (nt', s', sock')"
      using Suc.prems by (auto simp: s2_sys_stun_perf_def bind_fault_Inr_iff)
    from Suc.IH [OF this] show ?thesis by simp
  next
    case False
    then show ?thesis using Suc.prems by (auto intro: exI [of _ "s_usock_addr s"])
  qed
qed

lemma usock_addr_ok:
  "sys_ok so (s\<lparr>s_usock_addr := a\<rparr>) = sys_ok so s" "identity_ok so (s\<lparr>s_usock_addr := a\<rparr>) = identity_ok so s"
  by (simp_all add: sys_ok_def identity_ok_def)

lemma systems_run_parts:
  assumes "s2_systems_run rl rs rw rr s = (r, s')"
  shows "s' = s\<lparr>s_watcher := (s_watcher s)\<lparr>w_running := True\<rparr>,
      s_ctx := (s_ctx s)\<lparr>ac_listener := (ac_listener (s_ctx s))\<lparr>l_running := True\<rparr>,
        ac_rudp := (s_rudp s)\<lparr>d_sender := (d_sender (s_rudp s))\<lparr>s_running := rs = 0\<rparr>, is_running := True\<rparr>\<rparr>\<rparr> \<or> r < 0"
  using assms
  by (auto simp: s2_systems_run_def pvd_listener_start_def pvd_sender_start_def watcher_start_def rudp_dispatcher_run_def
      Let_def split: prod.splits if_splits)

lemma systems_run_ok:
  assumes "sys_ok so s" and "identity_ok so s" and "s2_systems_run rl rs rw rr s = (r, s')" and "\<not> r < 0"
  shows "sys_ok so s' \<and> identity_ok so s'"
  using systems_run_parts [OF assms(3)] assms(1,2,4)
  by (auto simp: sys_ok_def ctx_ok_def disp_ok_def conns_def identity_ok_def)

lemma main_start_serves:
  assumes "main_start e i = Inr (Main_Serves s d sv)"
  shows "sys_ok (ce_so e) s \<and> identity_ok (ce_so e) s \<and> sv_ctx sv = Inr s \<and>
    sv_routes sv = map (\<lambda>(p, h). \<lparr>ur_path = str p, ur_handler = as_route (mi_blank i) h\<rparr>) (main_handlers e (mi_blank i)) \<and>
    idle_server sv"
proof -
  have stop: "stop_exit x \<noteq> Inr (Main_Serves s d sv)" for x by (simp add: stop_exit_def bind_fault_Inr_iff split_beta)
  have args: "\<not> length (mi_argv i) < 2" using assms by (auto simp: main_start_def)
  note run = assms [unfolded main_start_def Let_def, simplified args if_False]
  obtain r s0 where c: "s2_systems_create (ce_so e) (mi_crypto i) (mi_keys i) (mi_socket i) (us_addr (mi_sock i)) (mi_rand i)
      (mi_now i) (mi_zw i) (mi_zs i) (mi_zd i) (mi_zc i) = (r, Some s0)"
    using run by (auto split: prod.splits option.splits)
  let ?n = "new_node (ce_so e) (mi_keys i) (us_addr (mi_sock i)) (mi_rand i) (mi_now i) (mi_zw i) (mi_zs i) (mi_zd i) (mi_zc i)"
  have new: "s0 = ?n" by (rule create_only [OF c])
  obtain r1 s1 f where u: "s2_sys_upd_sign (ce_so e) (mi_opened i) (mi_written i) s0 (mi_file i) = (r1, s1, f)"
    by (cases "s2_sys_upd_sign (ce_so e) (mi_opened i) (mi_written i) s0 (mi_file i)")
  have r1: "\<not> r1 < 0" using run stop by (auto simp: c u)
  have ok1: "sys_ok (ce_so e) s1 \<and> identity_ok (ce_so e) s1"
    using upd_sign_ok [OF _ _ _ _ u r1] new new_node_sys_ok new_node_identity(1,2) new_node_ok(10) by metis
  obtain nt s2 sock where t: "stun_rounds e i 5 NAT_ERROR (s1, mi_sock i) = Inr (nt, s2, sock)" and nt: "nt \<noteq> NAT_ERROR"
    using run stop r1 by (auto simp: c u bind_fault_Inr_iff split: if_splits)
  have ok2: "sys_ok (ce_so e) s2" "identity_ok (ce_so e) s2"
    using stun_rounds_addr [OF t] ok1 by (auto simp: usock_addr_ok)
  obtain rl rs rw rr where th: "mi_threads i = (rl, rs, rw, rr)" by (metis prod_cases4)
  obtain r3 s3 where r: "s2_systems_run rl rs rw rr s2 = (r3, s3)" by fastforce
  have r3: "\<not> r3 < 0" using run stop r1 nt by (auto simp: c u t th r)
  have ok3: "sys_ok (ce_so e) s3 \<and> identity_ok (ce_so e) s3" using systems_run_ok [OF ok2 r r3] .
  obtain r4 sv0 where v: "uhttp_server_create (mi_zcli i) (mi_zreq i) (mi_zresp i) (Inr s3 :: fault + s2_systems) = (r4, sv0)" by fastforce
  have "main_routes e (mi_blank i) sv0 = Inr sv \<and> s = s3"
    using run stop r1 nt r3 by (auto simp: c u t th r v s2_daemons_create_def bind_fault_Inr_iff split: if_splits)
  with ok3 server_create_ok [OF v] show ?thesis
    by (auto simp: main_routes_def set_routes_all main_paths idle_server_def queues_ok_def)
qed

lemma find_route_in: "find_route rs p = Some r \<Longrightarrow> r \<in> set rs"
  by (induction rs) (auto split: if_splits)

lemma request_keeps:
  assumes "sys_ok so s"
    and "answer (map (\<lambda>(p, h). \<lparr>ur_path = str p, ur_handler = as_route blank h\<rparr>) (main_handlers e blank)) req (Inr s) = (resp, Inr s')"
  shows "sys_ok so s'"
proof (cases "find_route (map (\<lambda>(p, h). \<lparr>ur_path = str p, ur_handler = as_route blank h\<rparr>) (main_handlers e blank)) (route_of req)")
  case None
  then show ?thesis using assms by (simp add: answer_def)
next
  case (Some r)
  then obtain p h where h: "(p, h) \<in> set (main_handlers e blank)" "r = \<lparr>ur_path = str p, ur_handler = as_route blank h\<rparr>"
    using find_route_in [OF Some] by auto
  then have "h req s = Inr (resp, s')"
    using assms(2) Some by (auto simp: answer_def as_route_def split: sum.splits)
  then show ?thesis by (rule handlers_keep [OF assms(1) h(1)])
qed

subsection \<open>Properties\<close>

text \<open>
  C19: when \<open>main\<close> gets as far as its HTTP server, the node goes by the UID of its key and the server has the routes of the program
  in their order; and in every state that the threads of the node, its user and any requests lead to, the node is well formed.
\<close>

theorem node_behind_http:
  assumes "main_start e i = Inr (Main_Serves s0 d sv)" and "serve_reach (ce_so e) (sv_routes sv) s0 s"
  shows "sys_ok (ce_so e) s \<and> identity_ok (ce_so e) s0 \<and> sv_ctx sv = Inr s0 \<and>
    map ur_path (sv_routes sv) = map (\<lambda>(p, h). str p) (main_handlers e (mi_blank i))"
proof -
  note start = main_start_serves [OF assms(1)]
  from assms(2) have "sys_ok (ce_so e) s"
  proof (induction rule: serve_reach.induct)
    case serve_start
    then show ?case using start by blast
  next
    case (serve_node s s')
    then show ?case using node_step_keeps by blast
  next
    case (serve_request s req resp s')
    then show ?case using start request_keeps by metis
  qed
  with start show ?thesis by (auto simp: comp_def split_beta)
qed

subsection \<open>A program that starts\<close>

definition demo_net :: cli_env where
  "demo_net = demo_cli\<lparr>ce_dns := (\<lambda>_. Some [[198, 51, 100, 1]])\<rparr>"

definition demo_main :: main_input where
  "demo_main = \<lparr>mi_argv = [str ''cli'', str ''key''], mi_crypto = 0, mi_keys = demo_sign, mi_socket = 0, mi_rand = 0, mi_now = 0,
     mi_zw = (None, demo_fd), mi_zs = (Stating.demo_request, zeros 52), mi_zd = 0, mi_zc = li_of_bytes (zeros 140),
     mi_file = Some (replicate 96 4), mi_opened = True, mi_written = 1, mi_sock = demo_socket, mi_order = (\<lambda>_. [0, 1]),
     mi_ports = (\<lambda>_ _. 0), mi_stun = (\<lambda>_ _ _ _. (demo_io [198, 51, 100, 7] 4242, demo_io [198, 51, 100, 7] 4242)),
     mi_threads = (0, 0, 0, 0), mi_daemons = (0, 0), mi_zcli = 0, mi_zreq = demo_asked HTTP_GET ''/'',
     mi_zresp = \<lparr>hp_nfd = 0, hp_resp = demo_response 200\<rparr>, mi_blank = demo_response 200\<rparr>"

lemma demo_main_stuns:
  "\<exists>q. run_threads demo_lib6 (ce_dns demo_net) (zeros 52) main_stuns [0, 1] (snd (prot_array_create 52)) = Inr q \<and>
     \<not> mtx q \<and> length (elements (obj q)) = 2"
proof -
  have n: "inet_pton4 (str ''stun.sipnet.ru'') = None" "inet_pton4 (str ''stun.ekiga.net'') = None"
    "length (str ''stun.sipnet.ru'') = 14" "length (str ''stun.ekiga.net'') = 14"
    by code_simp+
  have "\<exists>x. ln_uni demo_lib6 (ce_dns demo_net) name port junk = Inr (0, x)"
    if "inet_pton4 name = None" "length name = 14" for name port junk
  proof -
    have "inet_ntop4 [198, 51, 100, 1] \<noteq> []" by code_simp
    then show ?thesis using that by (simp add: ln_uni_def demo_lib6_def ln_resolve_def demo_net_def Let_def)
  qed
  then obtain x1 x2 where u: "ln_uni demo_lib6 (ce_dns demo_net) (str ''stun.sipnet.ru'') 3478 (zeros 52) = Inr (0, x1)"
    "ln_uni demo_lib6 (ce_dns demo_net) (str ''stun.ekiga.net'') 3478 (zeros 52) = Inr (0, x2)" using n by metis
  have t: "thread_share main_stuns 0 = [main_stuns ! 0]" "thread_share main_stuns 1 = [main_stuns ! 1]"
    by (simp_all add: thread_share_def main_stuns_def paral_res_n_def STUN_PARALLEL_RESOLUTION_LIMIT_def)
  have f: "uniaddr (main_stuns ! 0) = str ''stun.sipnet.ru''" "st_port (main_stuns ! 0) = 3478"
    "uniaddr (main_stuns ! 1) = str ''stun.ekiga.net''" "st_port (main_stuns ! 1) = 3478"
    by (simp_all add: main_stuns_def)
  show ?thesis
    by (simp add: t f u prot_array_push_def with_mutex_def mutex_lock_def mutex_unlock_def
        prot_array_create_def dyn_array_create_def dyn_array_push_def da_grow_def size_pred_def del: One_nat_def)
qed

lemma demo_net_sel [simp]: "ce_lib demo_net = demo_lib6" "ce_so demo_net = demo_sodium" "ce_addr demo_net = zeros 52"
  by (simp_all add: demo_net_def demo_cli_def)

lemma demo_stun_round:
  "\<exists>sock. nat_parallel_req demo_lib6 (ce_dns demo_net) (zeros 52) (mi_order demo_main 0) (mi_ports demo_main 0) (mi_stun demo_main 0)
     (demo_socket\<lparr>us_addr := a\<rparr>) main_stuns = Inr (NAT_DYNAMIC, sock)"
proof -
  let ?sock = "demo_socket\<lparr>us_addr := a\<rparr>" and ?io = "demo_io [198, 51, 100, 7] 4242"
  obtain q where q: "run_threads demo_lib6 (ce_dns demo_net) (zeros 52) main_stuns [0, 1] (snd (prot_array_create 52)) = Inr q"
    "\<not> mtx q" "length (elements (obj q)) = 2"
    using demo_main_stuns by blast
  obtain d where d: "io_recv ?io (stun_request (zeros 12)) = Some d" "stun_answer d = Inr (Some (na4 (inet_ntop4 [198, 51, 100, 7]) 4242))"
    using demo_io_answer [of "[198, 51, 100, 7]" 4242] by auto
  have f: "io_id ?io = zeros 12" "io_sent ?io x" "0 < io_wait ?io" for x by (simp_all add: demo_io_def)
  have "us_open ?sock" "\<not> us_bound ?sock" by (simp_all add: demo_socket_def)
  then obtain c where "nat_get_type demo_lib6 (?io, ?io) ?sock 1024 = Inr (0, c, Some NAT_DYNAMIC)"
    using nat_get_type_two_answers [of ?sock ?io d "[198, 51, 100, 7]" 4242 ?io d "[198, 51, 100, 7]" 4242 demo_lib6 1024] f d by auto
  then show ?thesis
    using q by (simp add: demo_main_def nat_parallel_req_def prot_array_len_def with_mutex_def mutex_lock_def mutex_unlock_def
        nat_loop.simps Let_def length_greater_0_conv [symmetric] del: run_threads.simps length_greater_0_conv)
qed

lemma demo_main_serves: "\<exists>s d sv. main_start demo_net demo_main = Inr (Main_Serves s d sv)"
proof -
  let ?i = demo_main
  obtain s0 where c: "s2_systems_create demo_sodium (mi_crypto ?i) (mi_keys ?i) (mi_socket ?i) (us_addr (mi_sock ?i)) (mi_rand ?i)
      (mi_now ?i) (mi_zw ?i) (mi_zs ?i) (mi_zd ?i) (mi_zc ?i) = (0, Some s0)"
    using create_ok by (simp add: demo_main_def)
  obtain s1 where u: "s2_sys_upd_sign demo_sodium (mi_opened ?i) (mi_written ?i) s0 (mi_file ?i) = (0, s1, mi_file ?i)"
    by (simp add: demo_main_def s2_sys_upd_sign_def s2_sys_load_sign_def sign_load_def fread_one_def Let_def)
  obtain sock where t: "s2_sys_stun_perf demo_net ?i 0 main_stuns (s1, mi_sock ?i) = Inr (NAT_DYNAMIC, s1\<lparr>s_usock_addr := us_addr sock\<rparr>, sock)"
    using demo_stun_round [of "s_usock_addr s1"] by (auto simp: s2_sys_stun_perf_def) (simp add: demo_main_def)
  have "stun_rounds demo_net ?i 5 NAT_ERROR (s1, mi_sock ?i) = Inr (NAT_DYNAMIC, s1\<lparr>s_usock_addr := us_addr sock\<rparr>, sock)"
    using t by (simp add: eval_nat_numeral)
  moreover obtain s3 where "s2_systems_run 0 0 0 0 (s1\<lparr>s_usock_addr := us_addr sock\<rparr>) = (0, s3)"
    by (simp add: s2_systems_run_def pvd_listener_start_def pvd_sender_start_def watcher_start_def rudp_dispatcher_run_def Let_def)
  moreover have "mi_threads ?i = (0, 0, 0, 0)" "\<not> length (mi_argv ?i) < 2" "\<not> 3 \<le> length (mi_argv ?i)" by (simp_all add: demo_main_def)
  moreover have "\<exists>a. ln_uni demo_lib6 (ce_dns demo_net) (str ''0.0.0.0'') 8080 (zeros 52) = Inr a"
  proof -
    have "inet_pton4 (str ''0.0.0.0'') = Some [0, 0, 0, 0]" "length (str ''0.0.0.0'') = 7" by code_simp+
    then show ?thesis by (simp add: ln_uni_def ln_ipv4_def)
  qed
  moreover obtain sv where "uhttp_server_create (mi_zcli ?i) (mi_zreq ?i) (mi_zresp ?i) (Inr s3 :: fault + s2_systems) = (0, sv)"
    by (simp add: uhttp_server_create_def split_beta Let_def)
  ultimately show ?thesis
    using c u by (auto simp: main_start_def s2_daemons_create_def main_routes_def set_routes_all main_paths Let_def)
qed

theorem node_behind_http_witness:
  "\<exists>s d sv. main_start demo_net demo_main = Inr (Main_Serves s d sv) \<and> length (sv_routes sv) = 10 \<and>
     sys_ok demo_sodium (s\<lparr>s_ctx := (s_ctx s)\<lparr>ac_listener := pvd_listener_iter (ac_listener (s_ctx s)) [1] demo_fd\<rparr>\<rparr>)"
proof -
  obtain s d sv where m: "main_start demo_net demo_main = Inr (Main_Serves s d sv)" using demo_main_serves by blast
  have "serve_reach (ce_so demo_net) (sv_routes sv) s
      (s\<lparr>s_ctx := (s_ctx s)\<lparr>ac_listener := pvd_listener_iter (ac_listener (s_ctx s)) [1] demo_fd\<rparr>\<rparr>)"
    by (rule serve_node [OF serve_start node_step.listener])
  from node_behind_http [OF m this] have r:
    "sys_ok demo_sodium (s\<lparr>s_ctx := (s_ctx s)\<lparr>ac_listener := pvd_listener_iter (ac_listener (s_ctx s)) [1] demo_fd\<rparr>\<rparr>)"
    "map ur_path (sv_routes sv) = map (\<lambda>(p, h). str p) (main_handlers demo_net (mi_blank demo_main))"
    by simp_all
  from arg_cong [OF r(2), of length] have "length (sv_routes sv) = 10" by (simp add: main_handlers_def)
  with m r(1) show ?thesis by blast
qed

end
