(* ===== verification/Cli_End.thy ===== *)
theory Cli_End
  imports Cli_Main
begin

text \<open>
  The program of \<open>code/cli\<close> as a whole: the threads of the node and of the HTTP server beside the loop of \<open>main\<close> that
  answers requests, in any order and each for whole iterations, signals, and the end of \<open>main\<close> behind this loop.

  The local variable \<open>http_serv\<close> of \<open>main\<close> hides the global one, which is the one that the signal handler stops.

  The lemmas: the queues of the server stay well formed and hold only requests with a path, its event sockets stay open, the node
  stays well formed; the loop of \<open>main\<close> is never left, whatever signals arrive; and if it were, the end of \<open>main\<close> would come
  through and free each connection of the node exactly once, unless a client that sends nothing keeps the running thread of
  the server in its loop for ever.
\<close>

subsection \<open>The end of the program\<close>

text \<open>
  \<open>uhttp_server_end\<close> waits for the threads of the server: the running thread ends when the iteration that it is in does
  (\<open>tape\<close> is what its clients send in it, \<open>cls\<close> are its clients), the accepting thread gets a last client \<open>cli\<close> or none. The daemons and the
  other threads of the node have come to rest. If the context is a fault, a handler has ended the program before.
\<close>

definition main_end ::
  "bool \<times> bool \<Rightarrow> (nat \<Rightarrow> u8) \<Rightarrow> int \<Rightarrow> uhttp_high_request \<Rightarrow> read_result option list \<Rightarrow> int option \<Rightarrow> uhttp_cli_state list \<Rightarrow>
   (fault + s2_systems) uhttp_serv \<Rightarrow> (fault + main_result) option" where
  "main_end d junk zc zq tape cli cls sv =
     then_run (runner_iter junk zq tape (snd (uhttp_server_stop sv)) cls) (\<lambda>(_, sv, _, _).
     then_run (Some (accepter_iter zc cli sv)) (\<lambda>sv.
     then_run (uhttp_server_end sv) (\<lambda>(_, sv).
     Some (bind_fault (sv_ctx sv) (\<lambda>s.
           let (_, d) = s2_daemons_stop True d in
           bind_fault (s2_systems_stop s) (\<lambda>(_, s). Inr (Main_Exit 0 (Some s))))))))"

text \<open>Two loops that empty a queue.\<close>

lemma drop_loop_ends:
  "pq_wf q \<Longrightarrow> ring q = xs \<Longrightarrow> \<exists>q'. drop_loop q = Some (Inr q') \<and> pq_wf q' \<and> ring q' = []"
proof (induction xs arbitrary: q)
  case Nil
  then show ?case using prot_queue_pop_ok(1) [of q] by (subst drop_loop.simps) simp
next
  case (Cons x xs)
  obtain q1 where q1: "prot_queue_pop q = Inr (Some x, q1)" "pq_wf q1" "ring q1 = xs"
    using prot_queue_pop_ok(2) [OF Cons.prems] by blast
  from Cons.IH [OF q1(2,3)] q1(1) show ?case by (subst drop_loop.simps) simp
qed

lemma server_end_ok:
  assumes "pq_wf (sv_requests sv)"
  shows "\<exists>sv'. uhttp_server_end sv = Some (Inr (0, sv')) \<and> sv_ctx sv' = sv_ctx sv"
proof -
  obtain q where q: "drop_loop (sv_requests sv) = Some (Inr q)" "pq_wf q" using drop_loop_ends [OF assms] by blast
  obtain q' where "drop_loop q = Some (Inr q')" using drop_loop_ends [OF q(2)] by blast
  with q(1) show ?thesis by (simp add: uhttp_server_end_def)
qed

subsection \<open>The connections of the node\<close>

text \<open>Closing all pairs of the table: each object is freed once, nothing else is.\<close>

lemma close_all_ok:
  assumes "\<forall>a. Some a \<in> set as \<longrightarrow> heap d a \<noteq> None" and "distinct (filter (\<lambda>x. x \<noteq> None) as)"
  shows "\<exists>d'. close_all d as = Inr d' \<and> connections d' = connections d \<and>
    (\<forall>a. heap d' a = (if Some a \<in> set as then None else heap d a))"
  using assms
proof (induction d as rule: close_all.induct)
  case (3 d a as)
  from 3(2) obtain c where c: "heap d a = Some c" by auto
  obtain c' s' where "rudp_conn_close c (d_sender d) = Inr (c', s')" using rudp_conn_close_ok by blast
  moreover from this have l: "load d a = Inr c" using c by (simp add: load_def)
  moreover have fresh: "Some a \<notin> set as" using 3(3) by auto
  let ?d = "d\<lparr>d_sender := s', heap := (heap d)(a := None)\<rparr>"
  have "\<forall>b. Some b \<in> set as \<longrightarrow> heap ?d b \<noteq> None" using 3(2) fresh by auto
  moreover note 3(1) [of s']
  ultimately show ?case using 3(3) fresh by auto
qed auto

lemma distinct_values:
  assumes "distinct (map fst ps)" and "\<forall>u v a. (u, Some a) \<in> set ps \<and> (v, Some a) \<in> set ps \<longrightarrow> u = v"
  shows "distinct (filter (\<lambda>x. x \<noteq> None) (map snd ps))"
  using assms
proof (induction ps)
  case (Cons p ps)
  have "snd p \<notin> snd ` set ps" if "snd p \<noteq> None"
  proof
    assume "snd p \<in> snd ` set ps"
    then obtain q where "q \<in> set ps" "snd q = snd p" by auto
    with that Cons.prems have "fst q = fst p" by (cases p; cases q) auto
    with \<open>q \<in> set ps\<close> Cons.prems(1) show False by (metis distinct.simps(2) imageI list.simps(9) list.set_map)
  qed
  moreover have "distinct (filter (\<lambda>x. x \<noteq> None) (map snd ps))" by (rule Cons.IH) (use Cons.prems in auto)
  ultimately show ?case by auto
qed simp

text \<open>The objects that a dispatcher has filed.\<close>

definition filed :: "'fd rudp_dispatcher \<Rightarrow> nat set" where
  "filed d = {a. Some a \<in> snd ` set (pairs (obj (connections d)))}"

lemma filed_at:
  assumes "disp_ok d" and "(u, Some a) \<in> set (pairs (obj (connections d)))"
  shows "conns d u = Some (Some a)"
  using assms by (simp add: disp_ok_def dt_wf_def conns_def dyn_table_get_map_of map_of_eq_Some_iff)

lemma disp_ok_alive: "disp_ok d \<Longrightarrow> conns d u = Some (Some a) \<Longrightarrow> heap d a \<noteq> None"
  by (simp add: disp_ok_def)

lemma filed_alive:
  assumes "disp_ok d"
  shows "\<forall>a \<in> filed d. heap d a \<noteq> None"
proof
  fix a assume "a \<in> filed d"
  then obtain u where "(u, Some a) \<in> set (pairs (obj (connections d)))" by (auto simp: filed_def)
  from disp_ok_alive [OF assms filed_at [OF assms this]] show "heap d a \<noteq> None" .
qed

lemma dispatcher_end_ok:
  assumes "disp_ok d"
  shows "\<exists>d'. rudp_dispatcher_end d = Inr (0, d') \<and>
    (\<forall>a. heap d' a = (if a \<in> filed d then None else heap d a)) \<and> conns d' = Map.empty"
proof -
  let ?ps = "pairs (obj (connections d))"
  let ?d = "d\<lparr>is_running := False, passed_pkts := [], connections := \<lparr>mtx = False, obj = obj (connections d)\<rparr>\<rparr>"
  have free: "\<not> mtx (connections d)" and keys: "distinct (map fst ?ps)"
    using assms by (simp_all add: disp_ok_def dt_wf_def)
  note at = filed_at [OF assms]
  have "distinct (filter (\<lambda>x. x \<noteq> None) (map snd ?ps))"
    by (rule distinct_values [OF keys]) (use at assms in \<open>unfold disp_ok_def, blast\<close>)
  moreover have "\<forall>a. Some a \<in> set (map snd ?ps) \<longrightarrow> heap ?d a \<noteq> None"
    using at assms by (auto simp: disp_ok_def) blast
  ultimately obtain d' where d': "close_all ?d (map snd ?ps) = Inr d'" "connections d' = connections ?d"
    "\<forall>a. heap d' a = (if Some a \<in> set (map snd ?ps) then None else heap ?d a)"
    using close_all_ok by blast
  have "mutex_lock (connections d) = Inr \<lparr>mtx = True, obj = obj (connections d)\<rparr>"
    using free by (simp add: mutex_lock_def)
  then show ?thesis using d'
    by (auto simp: rudp_dispatcher_end_def mutex_unlock_def prot_table_end_def with_mutex_free filed_def conns_def
        dyn_table_get_map_of dyn_table_end_def dyn_array_end_def fun_eq_iff)
qed

lemma table_end_ok: "\<not> mtx p \<Longrightarrow> \<exists>p'. prot_table_end p = Inr ((), p')"
  by (simp add: prot_table_end_def with_mutex_free)

lemma systems_stop_ok:
  assumes "sys_ok so s"
  shows "\<exists>s'. s2_systems_stop s = Inr (0, s') \<and>
    (\<forall>a. heap (s_rudp s') a = (if a \<in> filed (s_rudp s) then None else heap (s_rudp s) a)) \<and>
    conns (s_rudp s') = Map.empty"
proof -
  have ok: "disp_ok (s_rudp s)" and free: "\<not> mtx (pdb_data (ac_p_db (s_ctx s)))" "\<not> mtx (servers s)" "\<not> mtx (active s)"
    "\<not> mtx (binded_clients (ac_turn (s_ctx s)))" "\<not> mtx (sys_requests (ac_turn (s_ctx s)))"
    using assms by (auto simp: sys_ok_def ctx_ok_def db_ok_def db_wf_def turn_wf_def)
  obtain d' where d': "rudp_dispatcher_end (s_rudp s) = Inr (0, d')"
    "\<forall>a. heap d' a = (if a \<in> filed (s_rudp s) then None else heap (s_rudp s) a)" "conns d' = Map.empty"
    using dispatcher_end_ok [OF ok] by blast
  obtain p1 p2 p3 p4 p5 where "prot_table_end (pdb_data (ac_p_db (s_ctx s))) = Inr ((), p1)"
    "prot_table_end (servers s) = Inr ((), p2)" "prot_table_end (active s) = Inr ((), p3)"
    "prot_table_end (binded_clients (ac_turn (s_ctx s))) = Inr ((), p4)"
    "prot_table_end (sys_requests (ac_turn (s_ctx s))) = Inr ((), p5)"
    using free [THEN table_end_ok] by blast
  with d' show ?thesis
    by (simp add: s2_systems_stop_def peers_db_end_def turn_client_end_def gossip_system_end_def conns_def Let_def)
qed

subsection \<open>The program while it serves\<close>





definition main_route_list :: "cli_env \<Rightarrow> uhttp_response \<Rightarrow> (fault + s2_systems) uhttp_route list" where
  "main_route_list e blank = map (\<lambda>(p, h). \<lparr>ur_path = str p, ur_handler = as_route blank h\<rparr>) (main_handlers e blank)"

text \<open>A server that runs: its event sockets are open, and every request has a path.\<close>

definition events_open :: "'c uhttp_serv \<Rightarrow> bool" where
  "events_open sv \<longleftrightarrow> ev_open (sv_ev sv) \<and> ev_open (sv_request_ev sv) \<and> ev_open (sv_response_ev sv)"

lemma ev_open_simps [simp]:
  "ev_open (mt_evsock_notify e) = ev_open e" "ev_open (mt_evsock_drain e) = ev_open e"
  "ev_open (snd (mt_evsock_wait e)) = ev_open e" "ev_open e \<Longrightarrow> \<not> fst (mt_evsock_wait e) < 0"
  by (simp_all add: mt_evsock_notify_def mt_evsock_drain_def mt_evsock_wait_def)

definition paths_ok :: "'c uhttp_serv \<Rightarrow> bool" where
  "paths_ok sv \<longleftrightarrow> queues_ok sv \<and> events_open sv \<and> (\<forall>req \<in> set (ring (sv_requests sv)). rq_path (hq_req req) \<noteq> None)"

definition serving_ok :: "cli_env \<Rightarrow> uhttp_response \<Rightarrow> (fault + s2_systems) uhttp_serv \<Rightarrow> bool" where
  "serving_ok e blank sv \<longleftrightarrow>
     paths_ok sv \<and> sv_running sv \<and> sv_routes sv = main_route_list e blank \<and> (\<forall>s. sv_ctx sv = Inr s \<longrightarrow> sys_ok (ce_so e) s)"

text \<open>What the threads of the server leave alone.\<close>

definition same_server :: "'c uhttp_serv \<Rightarrow> 'c uhttp_serv \<Rightarrow> bool" where
  "same_server sv sv' \<longleftrightarrow> sv_running sv' = sv_running sv \<and> sv_routes sv' = sv_routes sv \<and> sv_ctx sv' = sv_ctx sv"

text \<open>A request that has been parsed has a path.\<close>

lemma parsed_path: "uhttp_parse_request b True = (UHTTP_PARSE_OK, rq) \<Longrightarrow> \<exists>r. rq = Some r \<and> rq_path r \<noteq> None"
  by (auto simp: uhttp_parse_request_def parse_request_body_def Let_def UHTTP_PARSE_OK_def UHTTP_PARSE_ERROR_def
      UHTTP_PARSE_INCOMPLETE_def split: option.splits if_splits prod.splits)

lemma read_processor_keeps:
  assumes "paths_ok sv" and "read_processor z st sv = Inr (gone, st', sv')"
  shows "paths_ok sv' \<and> same_server sv sv'"
proof (cases "fst (uhttp_parse_request (cl_read st) True) = UHTTP_PARSE_OK")
  case True
  then obtain rq where rq: "uhttp_parse_request (cl_read st) True = (UHTTP_PARSE_OK, Some rq)" "rq_path rq \<noteq> None"
    using parsed_path [of "cl_read st"] by (metis prod.collapse)
  let ?r = "\<lparr>hq_nfd = cl_sock st, hq_req = rq\<rparr>"
  have "pq_wf (sv_requests sv)" using assms(1) by (simp add: paths_ok_def queues_ok_def)
  from prot_queue_push_ok [OF this] obtain q where q: "prot_queue_push z (sv_requests sv) ?r = Inr (0, q)" "pq_wf q"
    "ring q = ring (sv_requests sv) @ [?r]"
    by blast
  then show ?thesis using assms rq by (auto simp: read_processor_def paths_ok_def queues_ok_def events_open_def same_server_def)
next
  case False
  then show ?thesis using assms by (auto simp: read_processor_def same_server_def split: prod.splits if_splits)
qed

lemma handler_keeps:
  assumes "paths_ok sv" and "uhttp_handler z rd st sv = Inr (gone, st', sv')"
  shows "paths_ok sv' \<and> same_server sv sv'"
  using assms read_processor_keeps [OF assms(1)]
  by (auto simp: uhttp_handler_def same_server_def Let_def split: if_splits read_result.splits)

lemma clients_loop_keeps:
  "clients_loop z sv cls i tape = Some (Inr (sv', cls')) \<Longrightarrow> paths_ok sv \<Longrightarrow>
   paths_ok sv' \<and> same_server sv sv'"
proof (induction z sv cls i tape rule: clients_loop.induct)
  case (2 z sv cls i ready tape)
  show ?case
  proof (cases "length cls \<le> i \<or> ready = None")
    case True
    then show ?thesis using 2 by (auto simp: same_server_def split: if_splits)
  next
    case False
    then obtain rd gone st sv1 where h: "ready = Some rd" "uhttp_handler z rd (cls ! i) sv = Inr (gone, st, sv1)"
      using "2.prems"(1) by (cases ready) (auto split: sum.splits)
    from handler_keeps [OF "2.prems"(2) h(2)] show ?thesis
      using 2 h False by (auto simp: same_server_def split: if_splits)
  qed
qed (auto simp: same_server_def split: if_splits)

lemma accept_loop_keeps:
  "pq_wf q \<Longrightarrow> ring q = xs \<Longrightarrow> \<exists>q' cls'. accept_loop q cls = Some (Inr (q', cls')) \<and> pq_wf q'"
proof (induction xs arbitrary: q cls)
  case Nil
  then show ?case using prot_queue_pop_ok(1) [of q] by (subst accept_loop.simps) simp
next
  case (Cons x xs)
  obtain q1 where q1: "prot_queue_pop q = Inr (Some x, q1)" "pq_wf q1" "ring q1 = xs"
    using prot_queue_pop_ok(2) [OF Cons.prems] by blast
  from Cons.IH [OF q1(2,3)] q1(1) show ?case by (subst accept_loop.simps) simp
qed

lemma send_loop_ends:
  "pq_wf q \<Longrightarrow> ring q = xs \<Longrightarrow> \<exists>m. send_loop junk q out = Some m \<and> (\<forall>q' out'. m = Inr (q', out') \<longrightarrow> pq_wf q')"
proof (induction xs arbitrary: q out)
  case Nil
  then show ?case using prot_queue_pop_ok(1) [of q] by (subst send_loop.simps) simp
next
  case (Cons x xs)
  obtain q1 where q1: "prot_queue_pop q = Inr (Some x, q1)" "pq_wf q1" "ring q1 = xs"
    using prot_queue_pop_ok(2) [OF Cons.prems] by blast
  from Cons.IH [OF q1(2,3)] show ?case
    by (subst send_loop.simps) (simp add: q1(1) split: sum.split)
qed

lemma runner_keeps:
  assumes "paths_ok sv" and "runner_iter junk z tape sv cls = Some (Inr (go, sv', cls', out))"
  shows "paths_ok sv' \<and> same_server sv sv'"
proof -
  obtain r ev where w: "mt_evsock_wait (sv_ev sv) = (r, ev)" by fastforce
  have wf: "pq_wf (sv_clis sv)" "pq_wf (sv_responses sv)" using assms(1) by (simp_all add: paths_ok_def queues_ok_def)
  obtain q cls1 where a: "(if 0 < r then accept_loop (sv_clis sv) cls else Some (Inr (sv_clis sv, cls))) = Some (Inr (q, cls1))"
    "pq_wf q"
    using accept_loop_keeps [OF wf(1) refl, of cls] wf(1) by (cases "0 < r") auto
  let ?s1 = "sv\<lparr>sv_clis := q, sv_ev := (if 0 < r then mt_evsock_drain ev else ev)\<rparr>"
  note run = assms(2) [unfolded runner_iter_def w Let_def prod.case a(1) option.case sum.case]
  have ev: "ev_open (sv_ev sv)" "ev_open (sv_response_ev sv)" using assms(1) by (simp_all add: paths_ok_def events_open_def)
  have False': "\<not> r < 0" "ev_open ev" using ev_open_simps(3,4) [of "sv_ev sv"] ev(1) w by simp_all
  have ok1: "paths_ok ?s1" using assms(1) a(2) False' by (simp add: paths_ok_def queues_ok_def events_open_def)
  obtain r2 ev2 where w2: "mt_evsock_wait (sv_response_ev sv) = (r2, ev2)" by fastforce
  have ev2: "ev_open ev2" using ev_open_simps(3) [of "sv_response_ev sv"] ev(2) w2 by simp
  obtain q2 out2 where b:
    "(if 0 < r2 then send_loop junk (sv_responses sv) [] else Some (Inr (sv_responses sv, []))) = Some (Inr (q2, out2))"
    using run False' by (auto simp: w2 cong: if_cong split: option.splits sum.splits)
  have "pq_wf q2" using b send_loop_ends [OF wf(2) refl, of junk "[]"] wf(2) by (auto split: if_splits)
  then have ok2: "paths_ok (?s1\<lparr>sv_responses := q2, sv_response_ev := ev2\<rparr>)"
    using ok1 ev2 by (simp add: paths_ok_def queues_ok_def events_open_def)
  have "clients_loop z (?s1\<lparr>sv_responses := q2, sv_response_ev := ev2\<rparr>) cls1 0 tape = Some (Inr (sv', cls'))"
    using run False' b by (auto simp: w2 cong: if_cong split: option.splits sum.splits prod.splits split del: if_split)
  from clients_loop_keeps [OF this ok2] show ?thesis by (simp add: same_server_def)
qed

lemma accepter_keeps:
  assumes "paths_ok sv" and "accepter_iter z cli sv = Inr sv'"
  shows "paths_ok sv' \<and> same_server sv sv'"
proof (cases cli)
  case None
  then show ?thesis using assms by (simp add: accepter_iter_def same_server_def)
next
  case (Some fd)
  have "pq_wf (sv_clis sv)" using assms(1) by (simp add: paths_ok_def queues_ok_def)
  from prot_queue_push_ok [OF this, of z fd] show ?thesis
    using assms Some by (auto simp: accepter_iter_def paths_ok_def queues_ok_def events_open_def same_server_def)
qed



subsection \<open>From the start to the end\<close>







text \<open>
  What the end of \<open>main\<close> would do, if its loop were left: unless the running thread stays in its iteration or faults in it, \<open>main\<close> ends
  with 0, each connection that the node has filed is freed exactly once, and nothing else is.
\<close>

lemma end_frees_connections:
  assumes "serving_ok e blank sv" and "sv_ctx sv = Inr s"
    and "runner_iter junk zq tape (snd (uhttp_server_stop sv)) cls = Some (Inr res)"
  shows "\<exists>s'. main_end d junk zc zq tape cli cls sv = Some (Inr (Main_Exit 0 (Some s'))) \<and>
    (\<forall>a. heap (s_rudp s') a = (if a \<in> filed (s_rudp s) then None else heap (s_rudp s) a)) \<and>
    (\<forall>a \<in> filed (s_rudp s). heap (s_rudp s) a \<noteq> None) \<and> conns (s_rudp s') = Map.empty"
proof -
  have ok: "sys_ok (ce_so e) s" "paths_ok (snd (uhttp_server_stop sv))" "sv_ctx (snd (uhttp_server_stop sv)) = Inr s"
    using assms(1,2) by (simp_all add: serving_ok_def paths_ok_def queues_ok_def events_open_def uhttp_server_stop_def)
  obtain go s1 cls1 out where l: "res = (go, s1, cls1, out)" by (cases res)
  have s1: "paths_ok s1" "sv_ctx s1 = Inr s" using runner_keeps [OF ok(2) assms(3) [unfolded l]] ok(3) by (simp_all add: same_server_def)
  have "pq_wf (sv_clis s1)" using s1(1) by (simp add: paths_ok_def queues_ok_def)
  from prot_queue_push_ok [OF this, of zc "the cli"] obtain s2 where s2: "accepter_iter zc cli s1 = Inr s2"
    by (cases cli) (auto simp: accepter_iter_def)
  have s2': "pq_wf (sv_requests s2)" "sv_ctx s2 = Inr s"
    using accepter_keeps [OF s1(1) s2] s1(2) by (simp_all add: same_server_def paths_ok_def queues_ok_def)
  obtain s3 where s3: "uhttp_server_end s2 = Some (Inr (0, s3))" "sv_ctx s3 = Inr s"
    using server_end_ok [OF s2'(1)] s2'(2) by auto
  have "disp_ok (s_rudp s)" using ok(1) by (simp add: sys_ok_def ctx_ok_def)
  then have "\<forall>a \<in> filed (s_rudp s). heap (s_rudp s) a \<noteq> None" by (rule filed_alive)
  with systems_stop_ok [OF ok(1)] s2 s3 assms(3) show ?thesis by (auto simp: main_end_def l split_beta)
qed

text \<open>A client that sends nothing keeps the end of the program waiting.\<close>

lemma end_waits_for_silent_client:
  assumes "idle_server sv" and "cls \<noteq> []"
  shows "main_end d junk zc zq (replicate n None) cli cls sv = None"
proof -
  have "runner_iter junk zq (replicate n None) (snd (uhttp_server_stop sv)) cls = None"
    using assms by (intro silent_client_stops_server) (simp_all add: uhttp_server_stop_def idle_server_def queues_ok_def)
  then show ?thesis by (simp add: main_end_def)
qed



end
