(* ===== verification/Old_Handlers.thy ===== *)
theory Old_Handlers
  imports Handlers
begin

text \<open>
  \<open>.old/old_interface/src/handlers.c\<close>: the packet handlers of the earlier interface, against which the state
  server and the earlier command line tool are written. Their context has no TURN client, and an answer of a
  state server is queued without the address that it came from. The function that queues it, with two
  arguments, belongs to an earlier library of state requests and is an argument here, as are the init
  and the end of this library. A field of \<open>peer_info\<close> or \<open>light_peer_info\<close> that the earlier code calls \<open>sserv_addr\<close> is
  the one that is called \<open>server\<close> now.

  The lemmas: the earlier handlers and those of \<open>Handlers\<close> do the same with every packet but an answer of a
  state server.
\<close>

record old_state_system =
  os_state_ans :: "state_request prot_queue"
  os_state_fd :: mt_eventsock

record old_context =
  oc_p_db :: peers_db
  oc_g_syst :: gossip_system
  oc_rudp :: "nnet_fd rudp_dispatcher"
  oc_listener :: "nnet_fd pvd_listener"
  oc_ssystem :: old_state_system
  oc_now_ms :: int

type_synonym old_handler = "protopack \<Rightarrow> nnet_fd \<Rightarrow> old_context \<Rightarrow> fault + int \<times> old_context"

type_synonym old_new_ans = "old_state_system \<Rightarrow> state_request \<Rightarrow> fault + int \<times> old_state_system"

definition old_db :: "(peers_db \<Rightarrow> fault + 'r \<times> peers_db) \<Rightarrow> old_context \<Rightarrow> fault + 'r \<times> old_context" where
  "old_db f c = bind_fault (f (oc_p_db c)) (\<lambda>(r, db). Inr (r, c\<lparr>oc_p_db := db\<rparr>))"

definition old_send :: "protopack option \<Rightarrow> nnet_fd \<Rightarrow> old_context \<Rightarrow> fault + int \<times> old_context" where
  "old_send msg to c =
     bind_fault (pvd_sender_send (d_sender (oc_rudp c)) msg to) (\<lambda>(r, s).
     Inr (r, c\<lparr>oc_rudp := (oc_rudp c)\<lparr>d_sender := s\<rparr>\<rparr>))"

abbreviation old_uid :: "old_context \<Rightarrow> u32" where
  "old_uid c \<equiv> self_uid (oc_rudp c)"

subsection \<open>The handlers\<close>

definition old_hnd_ACK :: old_handler where
  "old_hnd_ACK pck fd c =
     bind_fault (old_db (\<lambda>db. peers_db_get db (h_from pck)) c) (\<lambda>((_, found), c).
     case found of
       None \<Rightarrow> Inr (-1, c)
     | Some info \<Rightarrow>
         bind_fault (if pi_state info = PEER_ST_INITED
             then old_send (proto_msg_quick (old_uid c) (pi_UID info) 0 PACK_ACK) (pi_nfd info) c
             else Inr (0, c)) (\<lambda>(_, c).
         bind_fault (old_db (\<lambda>db. peers_db_schange db (pi_UID info) PEER_ST_ACTIVE) c) (\<lambda>(_, c).
         Inr (0, c))))"

definition old_punch_peer ::
  "env \<Rightarrow> protopack \<Rightarrow> old_context \<Rightarrow> fault + peer_info option \<times> old_context" where
  "old_punch_peer e pck c =
     bind_fault (old_db (\<lambda>db. peers_db_get db (h_from pck)) c) (\<lambda>((_, found), c).
     case found of
       Some info \<Rightarrow> Inr (Some info, c)
     | None \<Rightarrow>
         if unat (d_size pck) \<noteq> LIGHT_PEER_INFO_SIZE then Inr (None, c)
         else
           bind_fault (read_linfo (data pck)) (\<lambda>linfo.
           let info = peers_db_reconstruct (e_lib e) (e_ms e) linfo in
           bind_fault (old_db (\<lambda>db. peers_db_add True True True db info) c) (\<lambda>(_, c).
           Inr (Some info, c))))"

definition old_hnd_PUNCH :: "env \<Rightarrow> old_handler" where
  "old_hnd_PUNCH e pck fd c =
     (if h_from pck = old_uid c then Inr (-1, c)
      else
        bind_fault (old_punch_peer e pck c) (\<lambda>(found, c).
        case found of
          None \<Rightarrow> Inr (-1, c)
        | Some info \<Rightarrow>
            bind_fault (old_db (\<lambda>db. peers_db_unfd db (pi_UID info) fd) c) (\<lambda>(_, c).
            if pi_state info \<noteq> PEER_ST_INITED \<and> pi_state info \<noteq> PEER_ST_NATPUNCHING then Inr (-1, c)
            else
              bind_fault (old_send (proto_msg_quick (old_uid c) (pi_UID info) 0 PACK_ACK) fd c) (\<lambda>(_, c).
              if pi_state info = PEER_ST_NATPUNCHING then Inr (0, c)
              else
                bind_fault (old_db (\<lambda>db. peers_db_schange db (pi_UID info) PEER_ST_NATPUNCHING) c)
                  (\<lambda>(_, c). Inr (0, c))))))"

definition old_hnd_PING :: "env \<Rightarrow> old_handler" where
  "old_hnd_PING e pck fd c =
     bind_fault (old_send (proto_msg_quick (old_uid c) (h_from pck) (seq pck) PACK_PONG) fd c) (\<lambda>(_, c).
     bind_fault (old_db (\<lambda>db. peers_db_utime (e_ms e) db (h_from pck)) c) (\<lambda>(_, c). Inr (0, c)))"

definition old_hnd_PONG :: "env \<Rightarrow> old_handler" where
  "old_hnd_PONG e pck fd c =
     bind_fault (old_db (\<lambda>db. peers_db_utime (e_ms e) db (h_from pck)) c) (\<lambda>(_, c). Inr (0, c))"

definition old_hnd_GOSSIP :: old_handler where
  "old_hnd_GOSSIP pck fd c =
     bind_fault (gossip_from_packet True (oc_g_syst c) pck) (\<lambda>(_, g). Inr (0, c\<lparr>oc_g_syst := g\<rparr>))"

text \<open>The answer of a state server is one announcement.\<close>

definition old_hnd_STATE :: "old_new_ans \<Rightarrow> env \<Rightarrow> old_handler" where
  "old_hnd_STATE new_ans e pck fd c =
     (if unat (d_size pck) \<noteq> STATE_REQUEST_SIZE then Inr (-1, c)
      else
        bind_fault (state_rreceive (e_so e) (data pck)) (\<lambda>(_, rq).
        case rq of
          None \<Rightarrow> Inr (-1, c)
        | Some req \<Rightarrow>
            if sr_uid req = old_uid c then Inr (-1, c)
            else if 30 \<le> sint (word_of_int (e_secs e 0) - sr_timestamp req) then Inr (-1, c)
            else bind_fault (new_ans (oc_ssystem c) req) (\<lambda>(_, s). Inr (0, c\<lparr>oc_ssystem := s\<rparr>))))"

subsection \<open>The same handlers\<close>

text \<open>The earlier context of a context, with a state system \<open>st\<close>, and a step on it.\<close>

definition old_of :: "old_state_system \<Rightarrow> app_context \<Rightarrow> old_context" where
  "old_of st c =
     \<lparr>oc_p_db = ac_p_db c, oc_g_syst = ac_g_syst c, oc_rudp = ac_rudp c, oc_listener = ac_listener c,
      oc_ssystem = st, oc_now_ms = ac_now_ms c\<rparr>"

definition old_run :: "old_state_system \<Rightarrow> fault + 'r \<times> app_context \<Rightarrow> fault + 'r \<times> old_context" where
  "old_run st m = bind_fault m (\<lambda>(r, c). Inr (r, old_of st c))"

lemma old_of_sel [simp]:
  "oc_p_db (old_of st c) = ac_p_db c" "oc_g_syst (old_of st c) = ac_g_syst c" "oc_rudp (old_of st c) = ac_rudp c"
  "oc_ssystem (old_of st c) = st"
  by (simp_all add: old_of_def)

lemma old_run_Inr [simp]: "old_run st (Inr (r, c)) = Inr (r, old_of st c)"
  by (simp add: old_run_def)

lemma old_run_Inl [simp]: "old_run st (Inl f) = Inl f"
  by (simp add: old_run_def)

lemma old_db_run: "old_db f (old_of st c) = old_run st (on_db f c)"
  by (cases "f (ac_p_db c)") (auto simp: old_db_def on_db_def old_of_def)

lemma old_send_run: "old_send m fd (old_of st c) = old_run st (send_pack m fd c)"
  by (cases "pvd_sender_send (d_sender (ac_rudp c)) m fd")
    (auto simp: old_send_def send_pack_def on_sender_def old_of_def)

lemma old_run_bind:
  assumes "\<And>r c. g (r, old_of st c) = old_run st (f (r, c))"
  shows "bind_fault (old_run st m) g = old_run st (bind_fault m f)"
  using assms by (cases m) auto

lemma old_ACK_run: "old_hnd_ACK p fd (old_of st c) = old_run st (soter2_hnd_ACK p fd c)"
  unfolding old_hnd_ACK_def soter2_hnd_ACK_def
  by (auto simp: old_db_run old_send_run split: option.split intro!: old_run_bind)

lemma old_PING_run: "old_hnd_PING e p fd (old_of st c) = old_run st (soter2_hnd_PING e p fd c)"
  unfolding old_hnd_PING_def soter2_hnd_PING_def
  by (auto simp: old_db_run old_send_run intro!: old_run_bind)

lemma old_PONG_run: "old_hnd_PONG e p fd (old_of st c) = old_run st (soter2_hnd_PONG e p fd c)"
  unfolding old_hnd_PONG_def soter2_hnd_PONG_def by (auto simp: old_db_run intro!: old_run_bind)

lemma old_GOSSIP_run: "old_hnd_GOSSIP p fd (old_of st c) = old_run st (soter2_hnd_GOSSIP p fd c)"
  by (cases "gossip_from_packet True (ac_g_syst c) p")
    (auto simp: old_hnd_GOSSIP_def soter2_hnd_GOSSIP_def old_of_def)

lemma old_punch_peer_run: "old_punch_peer e p (old_of st c) = old_run st (punch_peer e p c)"
  unfolding old_punch_peer_def punch_peer_def
  by (cases "read_linfo (data p)") (auto simp: old_db_run Let_def split: option.split intro!: old_run_bind)

lemma old_PUNCH_run: "old_hnd_PUNCH e p fd (old_of st c) = old_run st (soter2_hnd_PUNCH e p fd c)"
  unfolding old_hnd_PUNCH_def soter2_hnd_PUNCH_def
  by (auto simp: old_db_run old_send_run old_punch_peer_run split: option.split intro!: old_run_bind)

text \<open>
  The earlier handlers of handshakes, pings and gossip are those of the node now: on the same components they return
  the same result, fault in the same way, and leave the same components.
\<close>

theorem old_handlers_agree:
  "old_hnd_ACK p fd (old_of st c) = old_run st (soter2_hnd_ACK p fd c) \<and>
   old_hnd_PUNCH e p fd (old_of st c) = old_run st (soter2_hnd_PUNCH e p fd c) \<and>
   old_hnd_PING e p fd (old_of st c) = old_run st (soter2_hnd_PING e p fd c) \<and>
   old_hnd_PONG e p fd (old_of st c) = old_run st (soter2_hnd_PONG e p fd c) \<and>
   old_hnd_GOSSIP p fd (old_of st c) = old_run st (soter2_hnd_GOSSIP p fd c)"
  by (simp add: old_ACK_run old_PUNCH_run old_PING_run old_PONG_run old_GOSSIP_run)

end
