(* ===== verification/Old_Interface.thy ===== *)
theory Old_Interface
  imports Old_Handlers Watcher Natpunch E2ee Systems
begin

text \<open>
  \<open>.old/old_interface/src/interface.c\<close>: the earlier interface of the node, which the state server still uses.
  \<open>soter2_interface\<close> owns the components; its member \<open>ctx\<close> points to those that the handlers use, so they are kept
  once, inside \<open>oi_ctx\<close>. \<open>'x\<close> is what the contexts of handlers that a program registers itself point to. A pointer
  to the interface is an option where the code tests it for \<open>NULL\<close>. The queue of state answers, its event and its
  two-argument functions are those of an earlier library of state requests: its functions are arguments.
  The results of thread starts and system calls, random numbers, clocks and uninitialised memory are arguments too.

  The lemmas: closing a connection through this interface frees it twice, so that the first dead peer ends the
  program; a wait for a certain connection does not return it; a wait for any connection can leave the table locked;
  and STUN is performed as the node performs it now.
\<close>

record soter2_state_intr =
  sti_addr :: naddr_t
  sti_req_dt :: int

record 'x soter2_interface =
  oi_ctx :: old_context
  oi_wtch :: "(nnet_fd, env \<times> old_context \<times> 'x) watcher"
  oi_self_sign :: sign
  oi_state_servs :: "(int, soter2_state_intr) prot_table"
  oi_state_last_called :: int
  oi_sock :: ln_socket
  oi_NAT :: nat_type
  oi_active_conns :: "(u32, nat option) prot_table"
  oi_new_active_conn :: mt_eventsock
  oi_is_running :: bool
  oi_packets_timestamp :: int
  oi_packets_translated :: u32
  oi_packet_rate :: packet_rate

record 'x soter2_ivtable =
  vt_ACK :: "(nnet_fd, env \<times> old_context \<times> 'x) watcher_handler"
  vt_PUNCH :: "(nnet_fd, env \<times> old_context \<times> 'x) watcher_handler"
  vt_PING :: "(nnet_fd, env \<times> old_context \<times> 'x) watcher_handler"
  vt_PONG :: "(nnet_fd, env \<times> old_context \<times> 'x) watcher_handler"
  vt_GOSSIP :: "(nnet_fd, env \<times> old_context \<times> 'x) watcher_handler"
  vt_STATE :: "(nnet_fd, env \<times> old_context \<times> 'x) watcher_handler"
  vt_RAW_UDP :: "(nnet_fd, env \<times> old_context \<times> 'x) watcher_handler"

abbreviation oi_disp :: "'x soter2_interface \<Rightarrow> nnet_fd rudp_dispatcher" where
  "oi_disp s \<equiv> oc_rudp (oi_ctx s)"

definition set_disp :: "'x soter2_interface \<Rightarrow> nnet_fd rudp_dispatcher \<Rightarrow> 'x soter2_interface" where
  "set_disp s d = s\<lparr>oi_ctx := (oi_ctx s)\<lparr>oc_rudp := d\<rparr>\<rparr>"

definition old_ctx :: "(old_context \<Rightarrow> fault + 'r \<times> old_context) \<Rightarrow> 'x soter2_interface \<Rightarrow> fault + 'r \<times> 'x soter2_interface" where
  "old_ctx f s = bind_fault (f (oi_ctx s)) (\<lambda>(r, c). Inr (r, s\<lparr>oi_ctx := c\<rparr>))"

text \<open>A function that returns \<open>r\<close> when the pointer to the interface is \<open>NULL\<close>.\<close>

definition on_intr ::
  "'r \<Rightarrow> ('x soter2_interface \<Rightarrow> fault + 'r \<times> 'x soter2_interface) \<Rightarrow> 'x soter2_interface option \<Rightarrow>
   fault + 'r \<times> 'x soter2_interface option" where
  "on_intr r f intr =
     (case intr of
        None \<Rightarrow> Inr (r, None)
      | Some s \<Rightarrow> bind_fault (f s) (\<lambda>(r, s). Inr (r, Some s)))"

subsection \<open>Set-up\<close>

definition with_old :: "(env \<Rightarrow> old_handler) \<Rightarrow> (nnet_fd, env \<times> old_context \<times> 'x) watcher_handler" where
  "with_old h = Some (\<lambda>pck fd (e, c, x). bind_fault (h e pck fd c) (\<lambda>(r, c). Inr (r, (e, c, x))))"

definition old_register ::
  "old_new_ans \<Rightarrow> (nnet_fd, env \<times> old_context \<times> 'x) watcher \<Rightarrow> (nnet_fd, env \<times> old_context \<times> 'x) watcher" where
  "old_register na w =
     fold (\<lambda>(t, h) w. snd (watcher_handler_reg w (pt_code t) (with_old h)))
       [(PACK_ACK, \<lambda>_. old_hnd_ACK), (PACK_PUNCH, old_hnd_PUNCH), (PACK_PING, old_hnd_PING),
        (PACK_PONG, old_hnd_PONG), (PACK_GOSSIP, \<lambda>_. old_hnd_GOSSIP), (PACK_STATE, old_hnd_STATE na)] w"

text \<open>
  \<open>junk\<close> is the memory of the interface before: the fields of the socket and the type of the NAT are not set. The
  arguments are the result of \<open>crypto_init\<close>, the generated key, the results of the calls of \<open>ln_usock_new\<close>, the
  state system and the result of its init, the clock and the memory of the queue of packets. What is left after a
  failed init is not kept.
\<close>

definition soter2_intr_init ::
  "old_new_ans \<Rightarrow> sodium \<Rightarrow> int \<Rightarrow> sign \<Rightarrow> int \<times> int \<times> int \<Rightarrow> int \<times> old_state_system \<Rightarrow> int \<Rightarrow>
   protopack option \<times> nnet_fd \<Rightarrow> ln_socket \<times> nat_type \<Rightarrow> int \<times> 'x soter2_interface option" where
  "soter2_intr_init na so cr keys sk st now zw junk =
     (if cr < 0 then (-1, None)
      else
        let uid = crypto_pubkey_to_uid so (id_pub keys);
            (r0, sock) = ln_usock_new (fst sk) (fst (snd sk)) (snd (snd sk)) (fst junk) in
        if r0 < 0 then (-1, None)
        else
          let (r1, listener) = pvd_listener_new; (r2, sender) = pvd_sender_new; (r3, wtch) = watcher_init zw;
              (r4, rudp) = rudp_dispatcher_new sender uid; (r5, db) = peers_db_init; (r6, g) = gossip_system_init uid;
              (r7, ev) = mt_evsock_new; (r8, srv) = prot_table_create 4 56 DYN_OWN_BOTH;
              (r9, act) = prot_table_create 4 8 DYN_OWN_BOTH
          in if \<exists>r \<in> {r1, r2, r3, r4, r5, r6, fst st, r7, r8, r9}. r < 0 then (-1, None)
             else (0, Some
               \<lparr>oi_ctx = \<lparr>oc_p_db = db, oc_g_syst = g, oc_rudp = rudp, oc_listener = listener,
                          oc_ssystem = snd st, oc_now_ms = now\<rparr>,
                oi_wtch = old_register na wtch, oi_self_sign = keys, oi_state_servs = srv, oi_state_last_called = 0,
                oi_sock = sock, oi_NAT = snd junk, oi_active_conns = act, oi_new_active_conn = ev,
                oi_is_running = False, oi_packets_timestamp = 0, oi_packets_translated = 0,
                oi_packet_rate = Zero_Rate\<rparr>))"

definition soter2_fingerprint :: "'x soter2_interface \<Rightarrow> bytes" where
  "soter2_fingerprint s = crypto_fingerprint (id_pub (oi_self_sign s))"

definition soter2_intr_save_sign :: "bool \<Rightarrow> nat \<Rightarrow> 'x soter2_interface \<Rightarrow> int \<times> bytes option" where
  "soter2_intr_save_sign opened w s =
     (let (r, content) = sign_store opened w (oi_self_sign s) in (if r < 0 then -1 else 0, content))"

definition soter2_intr_load_sign :: "sodium \<Rightarrow> 'x soter2_interface \<Rightarrow> bytes option \<Rightarrow> int \<times> 'x soter2_interface" where
  "soter2_intr_load_sign so s content =
     (let (r, sg) = sign_load (oi_self_sign s) content; s = s\<lparr>oi_self_sign := sg\<rparr> in
      if r < 0 then (-1, s)
      else
        let uid = crypto_pubkey_to_uid so (id_pub (oi_self_sign s)); c = oi_ctx s in
        (0, s\<lparr>oi_ctx := c\<lparr>oc_rudp := (oc_rudp c)\<lparr>self_uid := uid\<rparr>,
                          oc_g_syst := (oc_g_syst c)\<lparr>gs_self_uid := uid\<rparr>\<rparr>\<rparr>))"

text \<open>\<open>stat\<close> succeeds when the file exists; a new file is created by the save.\<close>

definition soter2_intr_upd_sign ::
  "sodium \<Rightarrow> bool \<Rightarrow> nat \<Rightarrow> 'x soter2_interface \<Rightarrow> bytes option \<Rightarrow> int \<times> 'x soter2_interface \<times> bytes option" where
  "soter2_intr_upd_sign so opened w s stored =
     (if stored \<noteq> None then (let (r, s) = soter2_intr_load_sign so s stored in (r, s, stored))
      else (let (r, content) = soter2_intr_save_sign opened w s in (r, s, content)))"

definition soter2_intr_reset_handlers :: "'x soter2_interface \<Rightarrow> 'x soter2_ivtable \<Rightarrow> 'x soter2_interface" where
  "soter2_intr_reset_handlers s vt =
     s\<lparr>oi_wtch := fold (\<lambda>(t, h) w. if h = None then w else snd (watcher_handler_reg w (pt_code t) h))
       [(PACK_ACK, vt_ACK vt), (PACK_PUNCH, vt_PUNCH vt), (PACK_PING, vt_PING vt), (PACK_PONG, vt_PONG vt),
        (PACK_GOSSIP, vt_GOSSIP vt), (PACK_STATE, vt_STATE vt), (PACK_RAW_UDP, vt_RAW_UDP vt)] (oi_wtch s)\<rparr>"

text \<open>The threads have been joined when the components end.\<close>

definition soter2_intr_end ::
  "(old_state_system \<Rightarrow> old_state_system) \<Rightarrow> 'x soter2_interface option \<Rightarrow> fault + unit \<times> 'x soter2_interface option" where
  "soter2_intr_end st_end = on_intr () (\<lambda>s.
     let s = s\<lparr>oi_is_running := False, oi_wtch := watcher_end (oi_wtch s)\<rparr>; c = oi_ctx s in
     bind_fault (rudp_dispatcher_end (oc_rudp c)) (\<lambda>(_, d).
     let (_, g) = gossip_system_end (oc_g_syst c) in
     bind_fault (peers_db_end (oc_p_db c)) (\<lambda>(_, db).
     let d = d\<lparr>d_sender := pvd_sender_end (d_sender d)\<rparr>; l = pvd_listener_end (oc_listener c);
         st = st_end (oc_ssystem c) in
     bind_fault (prot_table_end (oi_state_servs s)) (\<lambda>(_, srv).
     bind_fault (prot_table_end (oi_active_conns s)) (\<lambda>(_, act).
     Inr ((), s\<lparr>oi_ctx := c\<lparr>oc_rudp := d, oc_g_syst := g, oc_p_db := db, oc_listener := l, oc_ssystem := st\<rparr>,
                oi_state_servs := srv, oi_sock := ln_usock_close (oi_sock s), oi_active_conns := act,
                oi_new_active_conn := mt_evsock_close (oi_new_active_conn s)\<rparr>))))))"

text \<open>The arguments are the results of the four thread starts.\<close>

definition soter2_intr_run ::
  "int \<Rightarrow> int \<Rightarrow> int \<Rightarrow> int \<Rightarrow> 'x soter2_interface option \<Rightarrow> fault + int \<times> 'x soter2_interface option" where
  "soter2_intr_run rl rs rw rr = on_intr (-1) (\<lambda>s.
     let c = oi_ctx s; (r, l) = pvd_listener_start rl (oc_listener c); c = c\<lparr>oc_listener := l\<rparr> in
     if r < 0 then Inr (-1, s\<lparr>oi_ctx := c\<rparr>)
     else
       let (r, sd) = pvd_sender_start rs (d_sender (oc_rudp c)); c = c\<lparr>oc_rudp := (oc_rudp c)\<lparr>d_sender := sd\<rparr>\<rparr> in
       if r < 0 then Inr (-1, s\<lparr>oi_ctx := c\<rparr>)
       else
         let (r, w) = watcher_start rw (oi_wtch s); s = s\<lparr>oi_wtch := w\<rparr> in
         if r < 0 then Inr (-1, s\<lparr>oi_ctx := c\<rparr>)
         else
           let (r, d) = rudp_dispatcher_run rr (oc_rudp c); s = s\<lparr>oi_ctx := c\<lparr>oc_rudp := d\<rparr>\<rparr> in
           if r < 0 then Inr (-1, s) else Inr (0, s\<lparr>oi_is_running := True\<rparr>))"

subsection \<open>State servers\<close>

text \<open>The random number is the argument \<open>rnd\<close>; the result is the name of the server.\<close>

definition soter2_intr_stateconn ::
  "int \<Rightarrow> naddr_t \<Rightarrow> int \<Rightarrow> 'x soter2_interface option \<Rightarrow> fault + int \<times> 'x soter2_interface option" where
  "soter2_intr_stateconn rnd addr dt = on_intr (-1) (\<lambda>s.
     let uid = abs rnd in
     bind_fault (prot_table_set True True True (oi_state_servs s) uid \<lparr>sti_addr = addr, sti_req_dt = dt\<rparr>) (\<lambda>(_, t).
     Inr (uid, s\<lparr>oi_state_servs := t\<rparr>)))"

text \<open>The write through the pointer that the lookup returned.\<close>

definition soter2_intr_statestop :: "int \<Rightarrow> 'x soter2_interface option \<Rightarrow> fault + int \<times> 'x soter2_interface option" where
  "soter2_intr_statestop uid = on_intr (-1) (\<lambda>s.
     bind_fault (prot_table_get (oi_state_servs s) uid) (\<lambda>(st, t).
     case st of
       None \<Rightarrow> Inr (-1, s\<lparr>oi_state_servs := t\<rparr>)
     | Some st \<Rightarrow> Inr (0, s\<lparr>oi_state_servs := t\<lparr>obj := snd (dyn_table_set True True True (obj t) uid (st\<lparr>sti_req_dt := 0\<rparr>))\<rparr>\<rparr>)))"

text \<open>\<open>wait\<close> is \<open>state_sys_wait\<close> of the earlier library, \<open>out\<close> whether there is a place for the answer.\<close>

definition soter2_intr_wait_state ::
  "(int \<Rightarrow> old_state_system \<Rightarrow> fault + (int \<times> state_request option) \<times> old_state_system) \<Rightarrow> int \<Rightarrow> bool \<Rightarrow>
   'x soter2_interface option \<Rightarrow> fault + (int \<times> state_request option) \<times> 'x soter2_interface option" where
  "soter2_intr_wait_state wait timeout out = on_intr (-1, None) (\<lambda>s.
     if \<not> out then Inr ((-1, None), s)
     else bind_fault (wait timeout (oc_ssystem (oi_ctx s))) (\<lambda>(r, st).
       Inr (r, s\<lparr>oi_ctx := (oi_ctx s)\<lparr>oc_ssystem := st\<rparr>\<rparr>)))"

subsection \<open>Encryption\<close>

text \<open>\<open>wrapped\<close> is the memory of the new connection, or \<open>None\<close>; \<open>made\<close> the fresh exchange keys.\<close>

definition soter2_e2ee_wrap ::
  "sodium \<Rightarrow> crypto_keypair \<Rightarrow> 'x soter2_interface option \<Rightarrow> e2ee_connection option \<Rightarrow> bytes \<Rightarrow>
   int \<times> e2ee_connection option" where
  "soter2_e2ee_wrap so made intr wrapped other_pubkey =
     (case (intr, wrapped) of
        (Some s, Some conn) \<Rightarrow>
          (let (r, conn) = e2ee_conn_init so made conn (oi_self_sign s) (Some other_pubkey) in (r, Some conn))
      | _ \<Rightarrow> (-1, wrapped))"

definition E2EE_HANDSHAKE_SIZE :: nat where
  "E2EE_HANDSHAKE_SIZE = 100"

definition soter2_e2ee_end_handshake ::
  "sodium \<Rightarrow> 'fd rudp_connection \<Rightarrow> e2ee_connection \<Rightarrow> fault + int \<times> 'fd rudp_connection \<times> e2ee_connection" where
  "soter2_e2ee_end_handshake so conn econn =
     (let (r, conn) = rudp_conn_wait conn in
      if r \<le> 0 then Inr (-1, conn, econn)
      else
        let (r, pkt, conn) = rudp_conn_recv conn in
        if r < 0 then Inr (-1, conn, econn)
        else
          case pkt of
            None \<Rightarrow> Inl NullDeref
          | Some p \<Rightarrow>
              if unat (d_size p) \<noteq> E2EE_HANDSHAKE_SIZE then Inr (-1, conn, econn)
              else if length (data p) < E2EE_HANDSHAKE_SIZE then Inl OutOfBounds
              else
                let (r, econn) = e2ee_conn_handshake_resp so econn (take E2EE_HANDSHAKE_SIZE (data p)) in
                Inr (if r < 0 then -1 else 0, conn, econn))"

text \<open>\<open>t1\<close> and \<open>t2\<close> are the clock readings of the send.\<close>

definition soter2_e2ee_handshake ::
  "sodium \<Rightarrow> u32 \<Rightarrow> int \<Rightarrow> int \<Rightarrow> ('fd rudp_connection \<times> 'fd pvd_sender) option \<Rightarrow> e2ee_connection option \<Rightarrow>
   fault + int \<times> ('fd rudp_connection \<times> 'fd pvd_sender) option \<times> e2ee_connection option" where
  "soter2_e2ee_handshake so nonce t1 t2 conn econn =
     (case (conn, econn) of
        (Some (c, snder), Some ec) \<Rightarrow>
          (let (r, buf, ec) = e2ee_conn_handshake_init so nonce ec in
           if r < 0 then Inr (-1, conn, Some ec)
           else
             case udp_make_pack 0 (s_uid c) (c_uid c) PACK_DATA (Some buf) E2EE_HANDSHAKE_SIZE of
               None \<Rightarrow> Inr (-1, conn, Some ec)
             | Some hs \<Rightarrow>
                 bind_fault (rudp_conn_send c snder hs t1 t2) (\<lambda>(r, c, snder).
                 Inr (if r < 0 then -1 else 0, Some (c, snder), Some ec)))
      | _ \<Rightarrow> Inr (-1, conn, econn))"

subsection \<open>Peers\<close>

definition soter2_iconnect ::
  "lib6 \<Rightarrow> int \<Rightarrow> 'x soter2_interface \<Rightarrow> naddr_t \<Rightarrow> naddr_t \<Rightarrow> u32 \<Rightarrow> bytes \<Rightarrow> fault + unit \<times> 'x soter2_interface" where
  "soter2_iconnect lib now s address sserv_addr uid pubkey =
     (let inf = \<lparr>pi_server = sserv_addr, pi_state = PEER_ST_INITED, pi_UID = uid,
                 pi_last_seen = word_of_int now, pi_pubkey = take 32 pubkey, pi_nfd = ln_netfdq lib address,
                 pi_ctx = 0\<rparr>;
          own = old_uid (oi_ctx s);
          linfo = \<lparr>li_UID = own, li_server = sserv_addr, li_addr = us_addr (oi_sock s),
                   li_pubkey = id_pub (oi_self_sign s)\<rparr> in
      bind_fault (old_ctx (old_db (\<lambda>db. peers_db_add True True True db inf)) s) (\<lambda>(_, s).
      bind_fault (old_ctx (old_send (proto_punch_msg own uid (li_bytes linfo)) (ln_netfdq lib address)) s) (\<lambda>(_, s).
      Inr ((), s))))"

definition soter2_istatewait ::
  "(int \<times> peers_db) list \<Rightarrow> u32 \<Rightarrow> peer_state \<Rightarrow> fault + (int \<times> peer_info option) option" where
  "soter2_istatewait rounds uid st = peers_db_wait rounds uid st"

definition soter2_irunning :: "'x soter2_interface option \<Rightarrow> bool" where
  "soter2_irunning intr = (case intr of None \<Rightarrow> False | Some s \<Rightarrow> oi_is_running s)"

subsection \<open>STUN\<close>

fun old_stun_resolution ::
  "lib6 \<Rightarrow> (bytes \<Rightarrow> bytes list option) \<Rightarrow> naddr_t \<Rightarrow> stun_addr list \<Rightarrow> naddr_t prot_array \<Rightarrow>
   fault + naddr_t prot_array" where
  "old_stun_resolution lib dns junk [] q = Inr q"
| "old_stun_resolution lib dns junk (sa # rest) q =
     bind_fault (ln_uni lib dns (uniaddr sa) (st_port sa) junk) (\<lambda>(r, out).
       if r < 0 then old_stun_resolution lib dns junk rest q
       else bind_fault (prot_array_push True q out) (\<lambda>(_, q). old_stun_resolution lib dns junk rest q))"

text \<open>The threads run one after the other, in the order \<open>order\<close>.\<close>

fun old_stun_threads ::
  "lib6 \<Rightarrow> (bytes \<Rightarrow> bytes list option) \<Rightarrow> naddr_t \<Rightarrow> stun_addr list \<Rightarrow> nat list \<Rightarrow> naddr_t prot_array \<Rightarrow>
   fault + naddr_t prot_array" where
  "old_stun_threads lib dns junk stuns [] q = Inr q"
| "old_stun_threads lib dns junk stuns (i # order) q =
     (let n = length stuns; paral = (if STUN_PARALLEL_RESOLUTION_LIMIT > n then n else STUN_PARALLEL_RESOLUTION_LIMIT) in
      bind_fault (old_stun_resolution lib dns junk (take (paral div n) (drop (i * (paral div n)) stuns)) q)
        (old_stun_threads lib dns junk stuns order))"

function old_stun_loop ::
  "lib6 \<Rightarrow> (nat \<Rightarrow> nat) \<Rightarrow> (nat \<Rightarrow> naddr_t \<Rightarrow> naddr_t \<Rightarrow> stun_io \<times> stun_io) \<Rightarrow> naddr_t list \<Rightarrow> nat \<Rightarrow>
   nat \<Rightarrow> nat \<Rightarrow> ln_socket \<Rightarrow> fault + nat_type \<times> ln_socket" where
  "old_stun_loop lib rnd env q k first_i second_i sock =
     (let port = of_nat (1024 + rnd k mod 63000) in
      if length q \<le> first_i \<or> length q \<le> second_i then Inl NullDeref
      else
        bind_fault (nat_get_type lib (env k (q ! first_i) (q ! second_i)) sock port) (\<lambda>(r, sock, typ).
        if r = 0 then Inr (the typ, sock)
        else if r = -1 then Inr (NAT_ERROR, sock)
        else if r = -2 then
          let first_i = (if first_i + 1 = second_i then first_i + 2 else first_i + 1) in
          if length q \<le> first_i then Inr (NAT_ERROR, sock)
          else old_stun_loop lib rnd env q (k + 1) first_i second_i sock
        else
          let second_i = (if second_i + 1 = first_i then second_i + 2 else second_i + 1) in
          if length q \<le> second_i then Inr (NAT_ERROR, sock)
          else old_stun_loop lib rnd env q (k + 1) first_i second_i sock))"
  by pat_completeness auto
termination
  by (relation "measure (\<lambda>(lib, rnd, env, q, k, first_i, second_i, sock).
        (length q - first_i) + (length q - second_i))")
    (auto simp: Let_def split: if_splits)

declare old_stun_loop.simps [simp del]

definition soter2_intr_STUN ::
  "lib6 \<Rightarrow> (bytes \<Rightarrow> bytes list option) \<Rightarrow> naddr_t \<Rightarrow> nat list \<Rightarrow> (nat \<Rightarrow> nat) \<Rightarrow>
   (nat \<Rightarrow> naddr_t \<Rightarrow> naddr_t \<Rightarrow> stun_io \<times> stun_io) \<Rightarrow> 'x soter2_interface \<Rightarrow> stun_addr list \<Rightarrow>
   fault + nat_type \<times> 'x soter2_interface" where
  "soter2_intr_STUN lib dns junk order rnd env s stuns =
     bind_fault (old_stun_threads lib dns junk stuns order (snd (prot_array_create 52))) (\<lambda>q.
     bind_fault (prot_array_len q) (\<lambda>(n, q).
     bind_fault (if n < 2 then Inr (NAT_ERROR, oi_sock s)
                 else old_stun_loop lib rnd env (elements (obj q)) 0 0 1 (oi_sock s)) (\<lambda>(nt, sock).
     Inr (nt, s\<lparr>oi_NAT := nt, oi_sock := sock\<rparr>))))"

subsection \<open>Connections\<close>

text \<open>\<open>out\<close> is whether there is a place for the pointer, \<open>rnd\<close> the random number of the dispatcher.\<close>

definition soter2_iget_conn ::
  "nat \<Rightarrow> bool \<Rightarrow> u32 \<Rightarrow> 'x soter2_interface option \<Rightarrow> fault + (int \<times> nat option) \<times> 'x soter2_interface option" where
  "soter2_iget_conn rnd out uid = on_intr (-1, None) (\<lambda>s.
     if \<not> out then Inr ((-1, None), s)
     else bind_fault (rudp_get_connection (oi_disp s) uid rnd) (\<lambda>(r, a, d). Inr ((r, a), set_disp s d)))"

definition soter2_intr_wait_conn ::
  "bool \<Rightarrow> 'x soter2_interface option \<Rightarrow> fault + (int \<times> nat option) \<times> 'x soter2_interface option" where
  "soter2_intr_wait_conn out = on_intr (-1, None) (\<lambda>s.
     if \<not> out then Inr ((-1, None), s)
     else
       let (r, ev) = mt_evsock_wait (oi_new_active_conn s); s = s\<lparr>oi_new_active_conn := ev\<rparr> in
       if r \<le> 0 then Inr ((r, None), s)
       else
         let disp = oi_disp s in
         bind_fault (mutex_lock (connections disp)) (\<lambda>t.
         case dyn_array_at (dt_array (obj t)) (size_pred (len (dt_array (obj t)))) of
           None \<Rightarrow> Inr ((-1, None), set_disp s (disp\<lparr>connections := t\<rparr>))
         | Some (_, conn) \<Rightarrow>
             Inr ((if conn = None then -1 else 1, conn), set_disp s (disp\<lparr>connections := mutex_unlock t\<rparr>))))"

text \<open>
  The loop over its rounds: whether the interface still runs, what the wait for the event returned, and the table as the
  threads have left it. \<open>None\<close>: the loop still waits after them. \<open>conn\<close> is \<open>*conn\<close>.
\<close>

fun soter2_intr_wait_connspec ::
  "u32 \<Rightarrow> nat option \<Rightarrow> (bool \<times> int \<times> (u32, nat option) prot_table) list \<Rightarrow> fault + (int \<times> nat option) option" where
  "soter2_intr_wait_connspec uid conn [] = Inr None"
| "soter2_intr_wait_connspec uid conn ((running, r, t) # rounds) =
     (if \<not> running then Inr (Some (1, conn))
      else if r \<le> 0 then Inr (Some (r, conn))
      else
        bind_fault (prot_table_get t uid) (\<lambda>(ptr, _).
        case ptr of
          Some (Some a) \<Rightarrow> soter2_intr_wait_connspec uid (Some a) rounds
        | _ \<Rightarrow> soter2_intr_wait_connspec uid conn rounds))"

definition soter2_irecv :: "'fd rudp_connection \<Rightarrow> protopack option \<times> 'fd rudp_connection" where
  "soter2_irecv conn = (let (_, r, conn) = rudp_conn_recv conn in (r, conn))"

text \<open>A packet \<open>None\<close> is \<open>NULL\<close>, which \<open>rudp_conn_send\<close> refuses.\<close>

definition soter2_isend_r ::
  "int \<Rightarrow> int \<Rightarrow> 'fd rudp_connection \<Rightarrow> 'fd pvd_sender \<Rightarrow> protopack option \<Rightarrow>
   fault + int \<times> 'fd rudp_connection \<times> 'fd pvd_sender" where
  "soter2_isend_r t1 t2 conn snder p =
     (case p of None \<Rightarrow> Inr (-1, conn, snder) | Some p \<Rightarrow> rudp_conn_send conn snder p t1 t2)"

definition soter2_isend ::
  "int \<Rightarrow> int \<Rightarrow> 'fd rudp_connection \<Rightarrow> 'fd pvd_sender \<Rightarrow> bytes \<Rightarrow> nat \<Rightarrow>
   fault + int \<times> 'fd rudp_connection \<times> 'fd pvd_sender" where
  "soter2_isend t1 t2 conn snder dat dsize =
     (if closed conn then Inr (-1, conn, snder)
      else
        case udp_make_pack (current_seq conn) (s_uid conn) (c_uid conn) PACK_DATA (Some dat) dsize of
          None \<Rightarrow> Inr (-1, conn, snder)
        | Some p \<Rightarrow> rudp_conn_send conn snder p t1 t2)"

definition soter2_get_DPS :: "'x soter2_interface option \<Rightarrow> packet_rate" where
  "soter2_get_DPS intr = (case intr of None \<Rightarrow> Zero_Rate | Some s \<Rightarrow> oi_packet_rate s)"

text \<open>\<open>free\<close> of a connection; a second \<open>free\<close> of the same one is a use after free.\<close>

definition free_conn :: "nat \<Rightarrow> nnet_fd rudp_dispatcher \<Rightarrow> fault + nnet_fd rudp_dispatcher" where
  "free_conn a d = (if heap d a = None then Inl UseAfterFree else Inr (d\<lparr>heap := (heap d)(a := None)\<rparr>))"

definition close_conn :: "u32 \<Rightarrow> 'x soter2_interface \<Rightarrow> fault + int \<times> 'x soter2_interface" where
  "close_conn uid s =
     bind_fault (prot_table_get (oi_active_conns s) uid) (\<lambda>(ptr, act).
     bind_fault (case ptr of
         Some (Some a) \<Rightarrow>
           bind_fault (rudp_close_conncetion (oi_disp s) uid) (\<lambda>(_, d).
           bind_fault (free_conn a d) (\<lambda>d. Inr (set_disp s d)))
       | _ \<Rightarrow> Inr s) (\<lambda>s.
     bind_fault (prot_table_remove act uid) (\<lambda>(_, act). Inr (-1, s\<lparr>oi_active_conns := act\<rparr>))))"

definition soter2_close_conn :: "u32 \<Rightarrow> 'x soter2_interface option \<Rightarrow> fault + int \<times> 'x soter2_interface option" where
  "soter2_close_conn uid = on_intr (-1) (close_conn uid)"

subsection \<open>The state thread\<close>

text \<open>
  What the threads meet: the number of \<open>REQUEST_CONNECTION\<close>, random numbers, the comparison of the packet rate with
  \<open>SOTER_LOW_PACKET_RATE\<close>, the memory of the queue of packets, and the address of the state server, which
  \<open>soter2_iconnect\<close> takes but the state thread does not pass.
\<close>

record old_env = env +
  oe_request :: u32
  oe_nonce :: u32
  oe_rand :: "nat \<Rightarrow> nat"
  oe_pick :: "nat \<Rightarrow> nat \<Rightarrow> nat"
  oe_rate_high :: "packet_rate \<Rightarrow> bool"
  oe_watcher_fill :: "protopack option \<times> nnet_fd"
  oe_sserv :: naddr_t

definition old_pop_answer :: "'x soter2_interface \<Rightarrow> fault + state_request option \<times> 'x soter2_interface" where
  "old_pop_answer s =
     bind_fault (prot_queue_pop (os_state_ans (oc_ssystem (oi_ctx s)))) (\<lambda>(req, q).
     Inr (req, s\<lparr>oi_ctx := (oi_ctx s)\<lparr>oc_ssystem := (oc_ssystem (oi_ctx s))\<lparr>os_state_ans := q\<rparr>\<rparr>\<rparr>))"

definition old_answer :: "old_env \<Rightarrow> state_request \<Rightarrow> 'x soter2_interface \<Rightarrow> fault + 'x soter2_interface" where
  "old_answer e req s =
     bind_fault (old_ctx (old_db (\<lambda>db. peers_db_check db (sr_uid req))) s) (\<lambda>(known, s).
     if known then Inr s
     else
       bind_fault (soter2_iconnect (e_lib e) (e_ms e) s (sr_addr req) (oe_sserv e) (sr_uid req) (sr_pubkey req))
         (\<lambda>(_, s). Inr s))"

partial_function (option) old_answers :: "old_env \<Rightarrow> 'x soter2_interface \<Rightarrow> (fault + 'x soter2_interface) option" where
  "old_answers e s =
     (case old_pop_answer s of
        Inl f \<Rightarrow> Some (Inl f)
      | Inr (req, s) \<Rightarrow>
          (case req of
             None \<Rightarrow> Some (Inr s)
           | Some req \<Rightarrow>
               (case old_answer e req s of
                  Inl f \<Rightarrow> Some (Inl f)
                | Inr s \<Rightarrow> old_answers e s)))"

definition old_connect :: "old_env \<Rightarrow> nat \<Rightarrow> peer_info \<Rightarrow> 'x soter2_interface \<Rightarrow> fault + 'x soter2_interface" where
  "old_connect e i info s =
     (if pi_state info \<noteq> PEER_ST_ACTIVE then Inr s
      else
        bind_fault (rudp_get_connection (oi_disp s) (pi_UID info) (oe_rand e i)) (\<lambda>(r, _, d).
        let s = set_disp s d in
        if r = 0 then Inr s
        else
          bind_fault (rudp_est_connection (oi_disp s) (pi_UID info) (pi_nfd info) (e_ms e)) (\<lambda>(r, a, d).
          let s = set_disp s d in
          if r < 0 then Inr s
          else
            bind_fault (prot_table_set True True True (oi_active_conns s) (pi_UID info) (Some a)) (\<lambda>(r, t).
            let s = s\<lparr>oi_active_conns := t\<rparr> in
            if r < 0 then Inr s
            else Inr (s\<lparr>oi_new_active_conn := mt_evsock_notify (oi_new_active_conn s)\<rparr>)))))"

fun old_connects :: "old_env \<Rightarrow> nat \<Rightarrow> peer_info list \<Rightarrow> 'x soter2_interface \<Rightarrow> fault + 'x soter2_interface" where
  "old_connects e i [] s = Inr s"
| "old_connects e i (info # infos) s =
     bind_fault (old_connect e i info s) (\<lambda>s. old_connects e (Suc i) infos s)"

text \<open>One turn of the loop of \<open>_state_worker\<close>; it returns whether the loop goes on. \<open>None\<close>: the turn does not end.\<close>

definition state_worker :: "old_env \<Rightarrow> 'x soter2_interface \<Rightarrow> (fault + bool \<times> 'x soter2_interface) option" where
  "state_worker e s =
     (if \<not> oi_is_running s then Some (Inr (False, s))
      else
        let st = oc_ssystem (oi_ctx s); (r, ev) = mt_evsock_wait (os_state_fd st);
            s = s\<lparr>oi_ctx := (oi_ctx s)\<lparr>oc_ssystem := st\<lparr>os_state_fd := mt_evsock_drain ev\<rparr>\<rparr>\<rparr> in
        (case if 0 < r then old_answers e s else Some (Inr s) of
           None \<Rightarrow> None
         | Some m \<Rightarrow> Some
             (bind_fault m (\<lambda>s.
              bind_fault (old_ctx (old_db (peers_db_snapshot True)) s) (\<lambda>(snapshot, s).
              bind_fault (old_connects e 0 snapshot s) (\<lambda>s. Inr (True, s)))))))"

subsection \<open>The packet thread\<close>

fun old_servers_loop ::
  "lib6 \<Rightarrow> protopack option \<Rightarrow> (int \<times> soter2_state_intr) list \<Rightarrow> old_context \<Rightarrow> fault + int \<times> old_context" where
  "old_servers_loop lib pack [] c = Inr (0, c)"
| "old_servers_loop lib pack ((_, st) # sts) c =
     (if sti_req_dt st = 0 then old_servers_loop lib pack sts c
      else bind_fault (old_send pack (ln_netfdq lib (sti_addr st)) c) (\<lambda>(_, c). old_servers_loop lib pack sts c))"

definition old_state_iter :: "old_env \<Rightarrow> 'x soter2_interface \<Rightarrow> fault + int \<times> 'x soter2_interface" where
  "old_state_iter e s =
     (let uid = old_uid (oi_ctx s) in
      bind_fault (state_rcreate (e_so e) (oe_nonce e) (e_secs e 0) (us_addr (oi_sock s)) uid (oe_request e)
        (oi_self_sign s)) (\<lambda>r.
      let pack = udp_make_pack 0 uid 0 PACK_STATE (Some (state_bytes r)) STATE_REQUEST_SIZE in
      bind_fault (mutex_lock (oi_state_servs s)) (\<lambda>t.
      bind_fault (old_ctx (old_servers_loop (e_lib e) pack (pairs (obj t))) s) (\<lambda>(_, s).
      Inr (0, s\<lparr>oi_state_servs := mutex_unlock t\<rparr>)))))"

definition SOTER_DEAD_DT :: int where "SOTER_DEAD_DT = 6"

definition SOTER_REPING_DT :: int where "SOTER_REPING_DT = 3"

definition SOTER_GOSSIP_DT :: int where "SOTER_GOSSIP_DT = 10"

definition old_ping_iter :: "peer_info \<Rightarrow> 'x soter2_interface \<Rightarrow> fault + int \<times> 'x soter2_interface" where
  "old_ping_iter info s =
     (let quiet = oc_now_ms (oi_ctx s) - uint (pi_last_seen info) in
      if SOTER_DEAD_DT * 1000 \<le> quiet then
        bind_fault (close_conn (pi_UID info) s) (\<lambda>(_, s). Inr (1, s))
      else if SOTER_REPING_DT * 1000 \<le> quiet then
        bind_fault (old_ctx (old_send (proto_msg_quick (old_uid (oi_ctx s)) (pi_UID info) 0 PACK_PING) (pi_nfd info)) s)
          (\<lambda>(_, s). Inr (0, s))
      else Inr (0, s))"

fun old_pings :: "peer_info list \<Rightarrow> 'x soter2_interface \<Rightarrow> fault + int \<times> 'x soter2_interface" where
  "old_pings [] s = Inr (0, s)"
| "old_pings (info # infos) s =
     bind_fault (old_ping_iter info s) (\<lambda>(r, s).
     if r = 0 then old_pings infos s
     else bind_fault (old_ctx (old_db (\<lambda>db. peers_db_remove db (pi_UID info))) s) (\<lambda>(_, s). old_pings infos s))"

text \<open>
  \<open>gossip_to_data\<close> takes an array of pointers to entries, and gets the address of the one pointer to the array of
  entries.
\<close>

definition old_gossip_iter :: "old_env \<Rightarrow> nat \<Rightarrow> peer_info \<Rightarrow> old_context \<Rightarrow> fault + int \<times> old_context" where
  "old_gossip_iter e i info c =
     (if oe_rand e i mod 2 = 0 then Inr (0, c)
      else
        bind_fault (ln_nfd2addr (e_lib e) (pi_nfd info)) (\<lambda>a.
        let md = \<lparr>md_pubkey = pi_pubkey info, md_server = pi_server info\<rparr> in
        bind_fault (gossip_create_entry (e_secs e (i + 2)) (pi_UID info) a md True) (\<lambda>entry.
        bind_fault (gossip_new_entry True (oc_g_syst c) entry) (\<lambda>(_, g).
        bind_fault (gossip_random_entries True (oe_pick e i) g 5) (\<lambda>((r, entries, entries_c), g).
        let c = c\<lparr>oc_g_syst := g\<rparr> in
        if r = 1 then Inr (0, c)
        else
          bind_fault (gossip_to_data True (take 1 entries) entries_c) (\<lambda>(_, packet_data).
          let msg = udp_make_pack 0 (old_uid c) (pi_UID info) PACK_GOSSIP (Some packet_data) (length packet_data) in
          bind_fault (old_send msg (pi_nfd info) c) (\<lambda>(_, c). Inr (0, c))))))))"

fun old_gossips :: "old_env \<Rightarrow> nat \<Rightarrow> peer_info list \<Rightarrow> old_context \<Rightarrow> fault + int \<times> old_context" where
  "old_gossips e i [] c = Inr (0, c)"
| "old_gossips e i (info # infos) c =
     bind_fault (old_gossip_iter e i info c) (\<lambda>(r, c).
     if r = 0 then old_gossips e (Suc i) infos c
     else bind_fault (old_db (\<lambda>db. peers_db_remove db (pi_UID info)) c) (\<lambda>(_, c). old_gossips e (Suc i) infos c))"

definition old_packet :: "old_env \<Rightarrow> protopack option \<Rightarrow> nnet_fd \<Rightarrow> 'x soter2_interface \<Rightarrow> fault + 'x soter2_interface" where
  "old_packet e pack fd s =
     (case pack of
        None \<Rightarrow> Inl NullDeref
      | Some p \<Rightarrow>
          bind_fault
            (if udp_is_RUDP_req (packtype p) then Inr (set_disp s (snd (rudp_dispatcher_pass (oi_disp s) (Some p))))
             else
               bind_fault (proto_print p) (\<lambda>_.
               bind_fault (watcher_pass (oe_watcher_fill e) (oi_wtch s) p fd) (\<lambda>(_, w).
               Inr (s\<lparr>oi_wtch := w\<rparr>))))
            (\<lambda>s.
            bind_fault (old_ctx (old_db (\<lambda>db. peers_db_utime (e_ms e) db (h_from p)))
              (s\<lparr>oi_packets_translated := oi_packets_translated s + 1\<rparr>)) (\<lambda>(_, s). Inr s)))"

text \<open>The packets that \<open>pvd_next_packet\<close> returns until the queue is empty.\<close>

fun old_packets :: "old_env \<Rightarrow> (protopack option \<times> nnet_fd) list \<Rightarrow> 'x soter2_interface \<Rightarrow> fault + 'x soter2_interface" where
  "old_packets e [] s = Inr s"
| "old_packets e ((pack, fd) # ps) s =
     bind_fault (old_packet e pack fd
       (s\<lparr>oi_ctx := (oi_ctx s)\<lparr>oc_listener := (oc_listener (oi_ctx s))\<lparr>l_packets := ps\<rparr>\<rparr>\<rparr>)) (\<lambda>s.
     old_packets e ps s)"

definition old_stats :: "'x soter2_interface \<Rightarrow> 'x soter2_interface" where
  "old_stats s =
     (let now = oc_now_ms (oi_ctx s); delta_ms = now - oi_packets_timestamp s in
      if 1000 \<le> delta_ms then
        s\<lparr>oi_packet_rate := (if 0 < delta_ms then Rate (oi_packets_translated s) delta_ms else Zero_Rate),
          oi_packets_timestamp := now, oi_packets_translated := 0\<rparr>
      else s)"

text \<open>What is left out when packets come too fast.\<close>

definition old_addt :: "old_env \<Rightarrow> 'x soter2_interface \<Rightarrow> fault + 'x soter2_interface" where
  "old_addt e s =
     (let now = oc_now_ms (oi_ctx s) in
      bind_fault
        (if 3 * 1000 \<le> now - oi_state_last_called s then
           bind_fault (old_state_iter e s) (\<lambda>(_, s). Inr (s\<lparr>oi_state_last_called := now\<rparr>))
         else Inr s) (\<lambda>s.
      bind_fault (old_ctx (old_db (peers_db_snapshot True)) s) (\<lambda>(snapshot, s).
      bind_fault (old_pings snapshot s) (\<lambda>(_, s).
      if SOTER_GOSSIP_DT * 1000 \<le> now - uint (last_gossiped (oc_g_syst (oi_ctx s))) then
        bind_fault (gossip_cleanup (e_secs e 1) (oc_g_syst (oi_ctx s))) (\<lambda>(_, g).
        bind_fault (old_ctx (old_gossips e 0 snapshot) (s\<lparr>oi_ctx := (oi_ctx s)\<lparr>oc_g_syst := g\<rparr>\<rparr>)) (\<lambda>(_, s).
        Inr (s\<lparr>oi_ctx := (oi_ctx s)\<lparr>oc_g_syst := (oc_g_syst (oi_ctx s))\<lparr>last_gossiped := word_of_int now\<rparr>\<rparr>\<rparr>)))
      else Inr s))))"

text \<open>One turn of the loop of \<open>iter_daemon\<close>; it returns whether the loop goes on.\<close>

definition old_iter_daemon :: "old_env \<Rightarrow> 'x soter2_interface \<Rightarrow> fault + bool \<times> 'x soter2_interface" where
  "old_iter_daemon e s =
     (if \<not> oi_is_running s then Inr (False, s)
      else
        let c = (oi_ctx s)\<lparr>oc_now_ms := e_ms e\<rparr>; (r, ev) = mt_evsock_wait (l_newpack (oc_listener c));
            s = s\<lparr>oi_ctx := c\<lparr>oc_listener := (oc_listener c)\<lparr>l_newpack := mt_evsock_drain ev\<rparr>\<rparr>\<rparr>;
            s = old_stats s in
        bind_fault (if oe_rate_high e (oi_packet_rate s) then Inr s else old_addt e s) (\<lambda>s.
        if r \<le> 0 then Inr (True, s)
        else bind_fault (old_packets e (l_packets (oc_listener (oi_ctx s))) s) (\<lambda>s. Inr (True, s))))"

subsection \<open>Lemmas\<close>

lemma set_disp_sel [simp]:
  "oi_disp (set_disp s d) = d" "oi_active_conns (set_disp s d) = oi_active_conns s"
  "oc_now_ms (oi_ctx (set_disp s d)) = oc_now_ms (oi_ctx s)"
  by (simp_all add: set_disp_def)

lemma close_frees:
  assumes "disp_ok d" and "conns d uid = Some (Some a)" and "rudp_close_conncetion d uid = Inr (r, d')"
  shows "heap d' a = None"
  using assms by (auto simp: rudp_close_conncetion_def conns_get bind_fault_Inr_iff)

lemma close_conn_twice:
  assumes "disp_ok (oi_disp s)" and "\<not> mtx (oi_active_conns s)"
    and "conns (oi_disp s) uid = Some (Some a)" and "dyn_table_get (obj (oi_active_conns s)) uid = Some (Some a)"
  shows "close_conn uid s = Inl UseAfterFree"
proof -
  obtain r d where d: "rudp_close_conncetion (oi_disp s) uid = Inr (r, d)" by (rule close_ok [OF assms(1), of uid])
  then have "heap d a = None" using close_frees assms(1,3) by blast
  with d show ?thesis
    using assms(2,4) by (simp add: close_conn_def prot_table_get_def with_mutex_free free_conn_def)
qed

text \<open>What the state thread does with an active peer that has no connection.\<close>

lemma old_connect_new:
  assumes "pi_state info = PEER_ST_ACTIVE" and "disp_ok (oi_disp s)" and "pi_UID info \<noteq> UINT32_MAX"
    and "conns (oi_disp s) (pi_UID info) = None" and "\<not> mtx (oi_active_conns s)"
  obtains a s' where "old_connect e i info s = Inr s'" "disp_ok (oi_disp s')" "\<not> mtx (oi_active_conns s')"
    "conns (oi_disp s') = (conns (oi_disp s))(pi_UID info \<mapsto> Some a)"
    "dyn_table_get (obj (oi_active_conns s')) (pi_UID info) = Some (Some a)"
    "oc_now_ms (oi_ctx s') = oc_now_ms (oi_ctx s)"
proof -
  have g: "rudp_get_connection (oi_disp s) (pi_UID info) (oe_rand e i) = Inr (-1, None, oi_disp s)"
    using get_connection_ok [OF assms(2,3)] assms(4) by simp
  obtain a d where d: "rudp_est_connection (oi_disp s) (pi_UID info) (pi_nfd info) (e_ms e) = Inr (0, a, d)"
    "disp_ok d" "conns d = (conns (oi_disp s))(pi_UID info \<mapsto> Some a)" by (rule est_ok [OF assms(2)])
  have t: "\<exists>r. prot_table_set True True True (oi_active_conns s) (pi_UID info) (Some a) =
      Inr (r, \<lparr>mtx = False, obj = table_set (obj (oi_active_conns s)) (pi_UID info) (Some a)\<rparr>)"
    using assms(5) by (simp add: prot_table_set_def with_mutex_free split_beta)
  then obtain r where t: "prot_table_set True True True (oi_active_conns s) (pi_UID info) (Some a) =
      Inr (r, \<lparr>mtx = False, obj = table_set (obj (oi_active_conns s)) (pi_UID info) (Some a)\<rparr>)" ..
  define s1 where "s1 = (set_disp s d)\<lparr>oi_active_conns := \<lparr>mtx = False,
      obj = table_set (obj (oi_active_conns s)) (pi_UID info) (Some a)\<rparr>\<rparr>"
  have keep: "set_disp s (oi_disp s) = s" by (simp add: set_disp_def)
  have "old_connect e i info s =
      Inr (if r < 0 then s1 else s1\<lparr>oi_new_active_conn := mt_evsock_notify (oi_new_active_conn s1)\<rparr>)"
    using assms(1) by (simp add: old_connect_def g keep d(1) t s1_def Let_def set_disp_def)
  moreover have "oi_disp s1 = d" "oc_now_ms (oi_ctx s1) = oc_now_ms (oi_ctx s)" by (simp_all add: s1_def set_disp_def)
  ultimately show thesis
    using that [of "if r < 0 then s1 else s1\<lparr>oi_new_active_conn := mt_evsock_notify (oi_new_active_conn s1)\<rparr>" a] d
    by (simp add: s1_def get_set)
qed

text \<open>The new interface.\<close>

definition old_handlers :: "old_new_ans \<Rightarrow> (nnet_fd, env \<times> old_context \<times> 'x) watcher_handler list" where
  "old_handlers na =
    [None, with_old (\<lambda>_. old_hnd_ACK), with_old old_hnd_PING, with_old old_hnd_PONG, with_old old_hnd_PUNCH,
     with_old (\<lambda>_. old_hnd_GOSSIP), with_old (old_hnd_STATE na), None, None, None, None, None, None, None]"

lemma old_register_table:
  assumes "length (w_handlers w) = PACKET_TYPE_MAX"
  shows "w_handlers (old_register na w) =
    [w_handlers w ! 0, with_old (\<lambda>_. old_hnd_ACK), with_old old_hnd_PING, with_old old_hnd_PONG, with_old old_hnd_PUNCH,
     with_old (\<lambda>_. old_hnd_GOSSIP), with_old (old_hnd_STATE na), w_handlers w ! 7, w_handlers w ! 8, w_handlers w ! 9,
     w_handlers w ! 10, w_handlers w ! 11, w_handlers w ! 12, w_handlers w ! 13]"
proof -
  obtain a0 a1 a2 a3 a4 a5 a6 a7 a8 a9 a10 a11 a12 a13 where
    "w_handlers w = [a0, a1, a2, a3, a4, a5, a6, a7, a8, a9, a10, a11, a12, a13]"
    using assms by (auto simp: PACKET_TYPE_MAX_def numeral_eq_Suc length_Suc_conv)
  then show ?thesis by (simp add: old_register_def watcher_handler_reg_def PACKET_TYPE_MAX_def)
qed

lemma old_init_ok:
  assumes "soter2_intr_init na so cr keys sk st now zw junk = (r, Some s)"
  shows "r = 0" and "disp_ok (oi_disp s)" and "conns (oi_disp s) = Map.empty" and "\<not> mtx (oi_active_conns s)"
    and "w_handlers (oi_wtch s) = old_handlers na" and "oc_ssystem (oi_ctx s) = snd st"
    and "us_open (oi_sock s)" and "\<not> us_bound (oi_sock s)"
proof -
  let ?uid = "crypto_pubkey_to_uid so (id_pub keys)"
  have "r = 0 \<and> oi_disp s = snd (rudp_dispatcher_new (snd pvd_sender_new) ?uid) \<and>
      oi_active_conns s = snd (prot_table_create 4 8 DYN_OWN_BOTH) \<and> oi_wtch s = old_register na (snd (watcher_init zw)) \<and>
      oc_ssystem (oi_ctx s) = snd st \<and> us_open (oi_sock s) \<and> \<not> us_bound (oi_sock s)"
    using assms
    by (auto simp: soter2_intr_init_def create_parts split_beta Let_def ln_usock_new_def split: if_splits)
  then show "r = 0" "disp_ok (oi_disp s)" "conns (oi_disp s) = Map.empty" "\<not> mtx (oi_active_conns s)"
    "w_handlers (oi_wtch s) = old_handlers na" "oc_ssystem (oi_ctx s) = snd st" "us_open (oi_sock s)" "\<not> us_bound (oi_sock s)"
    using old_register_table [of "snd (watcher_init zw)" na] disp_ok_new [of "snd pvd_sender_new" ?uid]
    by (simp_all add: prot_table_create_def) (simp add: watcher_init_def old_handlers_def PACKET_TYPE_MAX_def)
qed

lemma old_init_0:
  assumes "0 \<le> cr" and "0 \<le> fst sk" and "0 \<le> fst (snd sk)" and "0 \<le> snd (snd sk)" and "0 \<le> fst st"
  shows "\<exists>s. soter2_intr_init na so cr keys sk st now zw junk = (0, Some s)"
  using assms by (simp add: soter2_intr_init_def create_parts split_beta Let_def ln_usock_new_def)

text \<open>
  C35: the first dead peer ends a program that uses the earlier interface: when the state thread has connected an active
  peer, and nothing has been heard of it for six seconds, the next pings of the packet thread free its connection in
  the dispatcher and then once more.
\<close>

theorem old_dead_peer_frees_twice:
  assumes "disp_ok (oi_disp s)" and "\<not> mtx (oi_active_conns s)" and "pi_state info = PEER_ST_ACTIVE"
    and "pi_UID info \<noteq> UINT32_MAX" and "conns (oi_disp s) (pi_UID info) = None"
    and "6000 \<le> now - uint (pi_last_seen info)"
  shows "\<exists>s'. old_connect e i info s = Inr s' \<and>
    old_pings (info # infos) (s'\<lparr>oi_ctx := (oi_ctx s')\<lparr>oc_now_ms := now\<rparr>\<rparr>) = Inl UseAfterFree"
proof -
  obtain a s' where s': "old_connect e i info s = Inr s'" "disp_ok (oi_disp s')" "\<not> mtx (oi_active_conns s')"
    "conns (oi_disp s') = (conns (oi_disp s))(pi_UID info \<mapsto> Some a)"
    "dyn_table_get (obj (oi_active_conns s')) (pi_UID info) = Some (Some a)"
    by (rule old_connect_new [OF assms(3,1,4,5,2)])
  then have "close_conn (pi_UID info) (s'\<lparr>oi_ctx := (oi_ctx s')\<lparr>oc_now_ms := now\<rparr>\<rparr>) = Inl UseAfterFree"
    by (intro close_conn_twice [of _ _ a]) simp_all
  with s'(1) assms(6) show ?thesis
    by (simp add: old_ping_iter_def SOTER_DEAD_DT_def Let_def)
qed

definition demo_old :: "int \<times> 'x soter2_interface option" where
  "demo_old = soter2_intr_init (\<lambda>st _. Inr (0, st)) demo_sodium 0 Stating.demo_sign (3, 0, 0)
     (0, \<lparr>os_state_ans = snd (prot_queue_create True demo_request 168), os_state_fd = snd mt_evsock_new\<rparr>) 0
     (None, demo_fd) (\<lparr>us_fd = demo_fd, us_addr = zeros 52, us_open = False, us_bound = False\<rparr>, NAT_ERROR)"

lemma demo_old_ok:
  obtains s where "demo_old = (0, Some s)" "disp_ok (oi_disp s)" "conns (oi_disp s) = Map.empty"
    "\<not> mtx (oi_active_conns s)"
proof -
  have "\<exists>s. demo_old = (0, Some s)"
    unfolding demo_old_def by (rule old_init_0) simp_all
  with that old_init_ok(2-4) show thesis unfolding demo_old_def by metis
qed

theorem old_dead_peer_frees_twice_witness:
  "\<forall>e. \<exists>s s'. (demo_old :: int \<times> unit soter2_interface option) = (0, Some s) \<and>
     old_connect e 0 (demo_peer\<lparr>pi_state := PEER_ST_ACTIVE\<rparr>) s = Inr s' \<and>
     old_pings [demo_peer\<lparr>pi_state := PEER_ST_ACTIVE\<rparr>] (s'\<lparr>oi_ctx := (oi_ctx s')\<lparr>oc_now_ms := 20000\<rparr>\<rparr>) = Inl UseAfterFree"
proof
  fix e
  obtain s :: "unit soter2_interface" where s: "demo_old = (0, Some s)" "disp_ok (oi_disp s)"
    "conns (oi_disp s) = Map.empty" "\<not> mtx (oi_active_conns s)" by (rule demo_old_ok)
  show "\<exists>s s'. (demo_old :: int \<times> unit soter2_interface option) = (0, Some s) \<and>
     old_connect e 0 (demo_peer\<lparr>pi_state := PEER_ST_ACTIVE\<rparr>) s = Inr s' \<and>
     old_pings [demo_peer\<lparr>pi_state := PEER_ST_ACTIVE\<rparr>] (s'\<lparr>oi_ctx := (oi_ctx s')\<lparr>oc_now_ms := 20000\<rparr>\<rparr>) = Inl UseAfterFree"
    using old_dead_peer_frees_twice [OF s(2,4), of "demo_peer\<lparr>pi_state := PEER_ST_ACTIVE\<rparr>" 20000 e 0 "[]"] s(1,3)
    by (fastforce simp: demo_peer_def UINT32_MAX_def simp del: old_pings.simps)
qed

text \<open>
  A wait for the connection to a certain peer never returns \<open>1\<close> while the interface runs, whatever the table holds:
  after it has found the connection it waits on, until the wait for an event gives nothing.
\<close>

theorem wait_connspec_no_success:
  assumes "soter2_intr_wait_connspec uid conn rounds = Inr (Some (r, a))" and "\<forall>(running, _) \<in> set rounds. running"
  shows "r \<le> 0"
  using assms
proof (induction rounds arbitrary: conn)
  case (Cons x rounds)
  obtain running r' t where x: "x = (running, r', t)" by (cases x)
  show ?case
  proof (cases "r' \<le> 0")
    case False
    with Cons.prems obtain ptr t' where g: "prot_table_get t uid = Inr (ptr, t')"
      by (cases "prot_table_get t uid") (auto simp: x)
    with False Cons.prems have "\<exists>conn. soter2_intr_wait_connspec uid conn rounds = Inr (Some (r, a))"
      by (auto simp: x split: option.splits)
    with Cons.IH Cons.prems(2) show ?thesis by auto
  qed (use Cons.prems in \<open>auto simp: x\<close>)
qed simp

text \<open>
  When the event of a new connection comes while the table of connections is empty, the wait for any connection leaves
  the table locked: every later lookup blocks for ever.
\<close>

theorem wait_conn_keeps_lock:
  assumes "\<not> mtx (connections (oi_disp s))" and "pairs (obj (connections (oi_disp s))) = []"
    and "0 < fst (mt_evsock_wait (oi_new_active_conn s))"
  shows "\<exists>s'. soter2_intr_wait_conn True (Some s) = Inr ((-1, None), Some s') \<and>
    (\<forall>uid. prot_table_get (connections (oi_disp s')) uid = Inl Deadlock) \<and>
    (\<forall>uid rnd. soter2_iget_conn rnd True uid (Some s') = Inl Deadlock)"
proof -
  obtain r ev where r: "mt_evsock_wait (oi_new_active_conn s) = (r, ev)" "0 < r" using assms(3) by (cases "mt_evsock_wait (oi_new_active_conn s)") auto
  let ?t = "(connections (oi_disp s))\<lparr>mtx := True\<rparr>"
  let ?s = "set_disp (s\<lparr>oi_new_active_conn := ev\<rparr>) ((oi_disp s)\<lparr>connections := ?t\<rparr>)"
  have "soter2_intr_wait_conn True (Some s) = Inr ((-1, None), Some ?s)"
    using assms(1,2) r by (simp add: soter2_intr_wait_conn_def on_intr_def mutex_lock_def dyn_array_at_def Let_def)
  moreover have "prot_table_get ?t uid = Inl Deadlock" for uid by (simp add: prot_table_get_def with_mutex_held)
  moreover have "rudp_get_connection ((oi_disp s)\<lparr>connections := ?t\<rparr>) uid rnd = Inl Deadlock" for uid rnd
    by (simp add: rudp_get_connection_def prot_table_get_def with_mutex_held mutex_lock_def)
  ultimately show ?thesis
    by (intro exI [of _ ?s]) (simp add: soter2_iget_conn_def on_intr_def)
qed

text \<open>
  A handshake is reported as sent although nothing was sent, when the connection is closed or its window is full: the
  failure of \<open>rudp_conn_send\<close> is a positive number.
\<close>

theorem old_handshake_not_sent:
  assumes "closed c \<or> RUDP_SEND_WINDOW \<le> len (pkts_fhost c)"
  shows "\<exists>ec'. soter2_e2ee_handshake so nonce t1 t2 (Some (c, snder)) (Some ec) = Inr (0, Some (c, snder), Some ec') \<and>
    hstate ec' = E2EE_HANDSHAKE_SENT"
  using assms
  by (auto simp: soter2_e2ee_handshake_def e2ee_conn_handshake_init_def udp_make_pack_def E2EE_HANDSHAKE_SIZE_def
      UDP_MTU_def PROTOCOL_OVERHEAD_def rudp_conn_send_def ENOTCONN_def EAGAIN_def Let_def)

subsection \<open>The answers of state servers\<close>

lemma old_answer_system: "old_answer e req s = Inr s' \<Longrightarrow> oc_ssystem (oi_ctx s') = oc_ssystem (oi_ctx s)"
  by (auto simp: old_answer_def soter2_iconnect_def old_ctx_def old_db_def old_send_def Let_def bind_fault_Inr_iff
      split: if_splits)

text \<open>The loop of the state thread over the queued answers ends.\<close>

theorem old_answers_terminates:
  assumes "pq_wf (os_state_ans (oc_ssystem (oi_ctx s)))"
  shows "\<exists>m. old_answers e s = Some m \<and>
    (\<forall>s'. m = Inr s' \<longrightarrow> ring (os_state_ans (oc_ssystem (oi_ctx s'))) = [])"
  using assms
proof (induction "ring (os_state_ans (oc_ssystem (oi_ctx s)))" arbitrary: s)
  case Nil
  then show ?case
    using prot_queue_pop_ok(1) [OF Nil.prems] by (subst old_answers.simps) (simp add: old_pop_answer_def)
next
  case (Cons req reqs)
  obtain q where q: "prot_queue_pop (os_state_ans (oc_ssystem (oi_ctx s))) = Inr (Some req, q)" "pq_wf q" "ring q = reqs"
    using prot_queue_pop_ok(2) [OF Cons.prems Cons.hyps(2) [symmetric]] by blast
  let ?s = "s\<lparr>oi_ctx := (oi_ctx s)\<lparr>oc_ssystem := (oc_ssystem (oi_ctx s))\<lparr>os_state_ans := q\<rparr>\<rparr>\<rparr>"
  have step: "old_answers e s =
      (case old_answer e req ?s of Inl f \<Rightarrow> Some (Inl f) | Inr s \<Rightarrow> old_answers e s)"
    by (subst old_answers.simps) (simp add: old_pop_answer_def q(1))
  show ?case
  proof (cases "old_answer e req ?s")
    case (Inr s1)
    then have "oc_ssystem (oi_ctx s1) = oc_ssystem (oi_ctx ?s)" by (rule old_answer_system)
    then have "reqs = ring (os_state_ans (oc_ssystem (oi_ctx s1)))" "pq_wf (os_state_ans (oc_ssystem (oi_ctx s1)))"
      using q(2,3) by simp_all
    from Cons.hyps(1) [OF this] show ?thesis by (simp add: step Inr)
  qed (simp add: step)
qed

subsection \<open>STUN\<close>

lemma old_stun_resolution_eq: "old_stun_resolution lib dns junk sas = parallel_stun_resolution lib dns junk sas"
proof (induction sas)
  case (Cons sa sas)
  show ?case by (rule ext) (simp add: Cons.IH cong: if_cong)
qed (rule ext, simp)

lemma old_stun_threads_eq: "old_stun_threads lib dns junk stuns order = run_threads lib dns junk stuns order"
proof (induction order)
  case (Cons i order)
  show ?case by (rule ext) (simp add: Cons.IH old_stun_resolution_eq thread_share_def paral_res_n_def Let_def)
qed (rule ext, simp)

lemma old_stun_loop_eq:
  "old_stun_loop lib rnd env q k first_i second_i sock = nat_loop lib rnd env q k first_i second_i sock"
proof (induction "(length q - first_i) + (length q - second_i)" arbitrary: k first_i second_i sock rule: less_induct)
  case less
  have n: "(if i + 1 = j then i + 2 else i + 1) = next_index i j" for i j by (simp add: next_index_def)
  have up: "length q - next_index i j < length q - i" if "\<not> length q \<le> i" for i j
    using that by (auto simp: next_index_def)
  show ?case
  proof (cases "length q \<le> first_i \<or> length q \<le> second_i")
    case False
    then have IH: "old_stun_loop lib rnd env q (k + 1) (next_index first_i second_i) second_i sk =
        nat_loop lib rnd env q (k + 1) (next_index first_i second_i) second_i sk"
      "old_stun_loop lib rnd env q (k + 1) first_i (next_index second_i first_i) sk =
        nat_loop lib rnd env q (k + 1) first_i (next_index second_i first_i) sk" for sk
      using up [of first_i second_i] up [of second_i first_i] by (auto intro!: less)
    show ?thesis
      using False
      by (subst old_stun_loop.simps, subst nat_loop.simps) (simp only: n Let_def IH if_False simp_thms)
  qed (simp add: old_stun_loop.simps [of _ _ _ _ _ first_i] nat_loop.simps [of _ _ _ _ _ first_i])
qed

text \<open>STUN through the earlier interface is that of the node, and its result is kept.\<close>

theorem old_stun_same:
  "soter2_intr_STUN lib dns junk order rnd env s stuns =
     bind_fault (nat_parallel_req lib dns junk order rnd env (oi_sock s) stuns)
       (\<lambda>(nt, sock). Inr (nt, s\<lparr>oi_NAT := nt, oi_sock := sock\<rparr>))"
proof (cases "run_threads lib dns junk stuns order (snd (prot_array_create 52))")
  case (Inr q)
  then show ?thesis
    by (cases "prot_array_len q")
      (auto simp: soter2_intr_STUN_def nat_parallel_req_def old_stun_threads_eq old_stun_loop_eq)
qed (simp add: soter2_intr_STUN_def nat_parallel_req_def old_stun_threads_eq)

end
