(* ===== verification/Server_Main.thy ===== *)
theory Server_Main
  imports Old_Interface State_Server Cli
begin

text \<open>
  \<open>main\<close> of \<open>code/stating/src/server.c\<close>: the state server on top of the earlier interface. Its handler replaces that of
  the interface for state packets; its context points to the interface, whose sender is lent to \<open>state_handler\<close> for a
  call. The loop of \<open>main\<close> only waits for the interface to stop.

  The lemmas: which handlers the running server has; that it answers none of the first thousand announcements; and
  that a node with the earlier interface takes nothing of what it sends.
\<close>

text \<open>\<open>z\<close> and \<open>mem\<close> are those of \<open>state_handler\<close>, the latter for each packet.\<close>

definition server_handler ::
  "state_request \<times> nnet_fd \<Rightarrow> (protopack \<Rightarrow> bool) \<Rightarrow> (nnet_fd, env \<times> old_context \<times> state_server) watcher_handler" where
  "server_handler z mem = Some (\<lambda>pck fd (e, c, serv).
     bind_fault (state_handler (e_so e) z (mem pck) pck fd (serv\<lparr>ss_sender := d_sender (oc_rudp c)\<rparr>)) (\<lambda>(r, serv).
     Inr (r, (e, c\<lparr>oc_rudp := (oc_rudp c)\<lparr>d_sender := ss_sender serv\<rparr>\<rparr>, serv))))"

definition server_ivtable :: "state_request \<times> nnet_fd \<Rightarrow> (protopack \<Rightarrow> bool) \<Rightarrow> state_server soter2_ivtable" where
  "server_ivtable z mem =
     \<lparr>vt_ACK = None, vt_PUNCH = None, vt_PING = None, vt_PONG = None, vt_GOSSIP = None,
      vt_STATE = server_handler z mem, vt_RAW_UDP = None\<rparr>"

datatype server_main = Server_Exit int | Server_Runs "state_server soter2_interface" state_server

text \<open>\<open>init\<close> is the result of \<open>soter2_intr_init\<close>, \<open>threads\<close> are the results of the thread starts.\<close>

definition state_server_main ::
  "lib6 \<Rightarrow> bytes list \<Rightarrow> int \<times> state_server soter2_interface option \<Rightarrow> state_request \<times> nnet_fd \<Rightarrow> (protopack \<Rightarrow> bool) \<Rightarrow>
   int \<times> int \<times> int \<times> int \<Rightarrow> fault + server_main" where
  "state_server_main lib argv init z mem threads =
     (if length argv \<noteq> 3 then Inr (Server_Exit 0)
      else
        case init of
          (r, None) \<Rightarrow> Inr (Server_Exit (-1))
        | (r, Some intr) \<Rightarrow>
            if r < 0 then Inr (Server_Exit (-1))
            else
              let serv = state_server_init (d_sender (oi_disp intr)) z;
                  intr = soter2_intr_reset_handlers intr (server_ivtable z mem) in
              bind_fault (ln_ipv4 (argv ! 1) (word_of_int (atoi_long (argv ! 2)))) (\<lambda>v4.
              let (r, sock) = ln_usock_bind lib (oi_sock intr) (ln_make4 v4); intr = intr\<lparr>oi_sock := sock\<rparr>;
                  (rl, rs, rw, rr) = threads in
              if r < 0 then Inr (Server_Exit (-1))
              else
                bind_fault (soter2_intr_run rl rs rw rr (Some intr)) (\<lambda>(r, intr).
                case intr of
                  None \<Rightarrow> Inr (Server_Exit (-1))
                | Some intr \<Rightarrow> if r < 0 then Inr (Server_Exit (-1)) else Inr (Server_Runs intr serv))))"

text \<open>The packets that the watcher of an interface hands out, with the address and environment of each.\<close>

fun old_dispatch_all ::
  "(nnet_fd, env \<times> old_context \<times> 'x) watcher_handler list \<Rightarrow> (protopack \<times> nnet_fd \<times> env) list \<Rightarrow>
   old_context \<times> 'x \<Rightarrow> fault + old_context \<times> 'x" where
  "old_dispatch_all hs [] s = Inr s"
| "old_dispatch_all hs ((p, fd, e) # ps) (c, x) =
     bind_fault (watcher_dispatch hs p fd (e, c, x)) (\<lambda>(_, s). old_dispatch_all hs ps s)"

subsection \<open>The running server\<close>

lemma reset_handlers_server:
  "w_handlers (oi_wtch (soter2_intr_reset_handlers s (server_ivtable z mem))) =
     (if 6 < PACKET_TYPE_MAX then (w_handlers (oi_wtch s))[6 := server_handler z mem] else w_handlers (oi_wtch s)) \<and>
   oi_ctx (soter2_intr_reset_handlers s (server_ivtable z mem)) = oi_ctx s \<and>
   oi_sock (soter2_intr_reset_handlers s (server_ivtable z mem)) = oi_sock s"
  by (simp add: soter2_intr_reset_handlers_def server_ivtable_def server_handler_def watcher_handler_reg_def
      PACKET_TYPE_MAX_def)

text \<open>The part of the invariant of a node that concerns the earlier context.\<close>

definition node_parts :: "old_context \<Rightarrow> bool" where
  "node_parts c \<longleftrightarrow>
     db_ok (oc_p_db c) \<and> gossip_wf (oc_g_syst c) \<and> disp_ok (oc_rudp c) \<and> l_proxy (oc_listener c) = None \<and>
     None \<notin> fst ` set (l_packets (oc_listener c))"

lemma init_parts:
  assumes "soter2_intr_init na so cr keys sk st now zw junk = (r, Some s)"
  shows "node_parts (oi_ctx s)" and "s_packets (d_sender (oi_disp s)) = []"
proof -
  let ?uid = "crypto_pubkey_to_uid so (id_pub keys)"
  have "oi_disp s = snd (rudp_dispatcher_new (snd pvd_sender_new) ?uid) \<and> oc_p_db (oi_ctx s) = snd peers_db_init \<and>
      oc_g_syst (oi_ctx s) = snd (gossip_system_init ?uid) \<and> oc_listener (oi_ctx s) = snd pvd_listener_new"
    using assms
    by (auto simp: soter2_intr_init_def create_parts split_beta Let_def ln_usock_new_def split: if_splits)
  then show "node_parts (oi_ctx s)" "s_packets (d_sender (oi_disp s)) = []"
    using db_wf_init gossip_init_wf disp_ok_new [of "snd pvd_sender_new" ?uid]
    by (simp_all add: node_parts_def db_ok_def) (simp_all add: pvd_listener_new_def rudp_dispatcher_new_def pvd_sender_new_def)
qed

lemma intr_run_ok:
  assumes "soter2_intr_run rl rs rw rr (Some s) = Inr (r, x)"
  shows "\<exists>s'. x = Some s' \<and> (\<not> r < 0 \<longrightarrow> oi_is_running s') \<and> w_handlers (oi_wtch s') = w_handlers (oi_wtch s) \<and>
    s_packets (d_sender (oi_disp s')) = s_packets (d_sender (oi_disp s)) \<and>
    (node_parts (oi_ctx s) \<longrightarrow> node_parts (oi_ctx s'))"
  using assms
  by (auto simp: soter2_intr_run_def on_intr_def Let_def watcher_start_def pvd_listener_start_def
      pvd_sender_start_def rudp_dispatcher_run_def node_parts_def disp_ok_def conns_def split: if_splits)

lemma server_runs:
  assumes "state_server_main lib argv (soter2_intr_init na so cr keys sk st now zw junk) z mem threads =
      Inr (Server_Runs intr serv)"
  shows "oi_is_running intr" and "w_handlers (oi_wtch intr) = (old_handlers na)[6 := server_handler z mem]"
    and "\<exists>s. serv = state_server_init s z" and "s_packets (d_sender (oi_disp intr)) = []" and "node_parts (oi_ctx intr)"
proof -
  obtain r and s :: "state_server soter2_interface" where i: "soter2_intr_init na so cr keys sk st now zw junk = (r, Some s)"
    using assms by (auto simp: state_server_main_def split: if_splits prod.splits option.splits)
  note ok = old_init_ok [OF i] and parts = init_parts [OF i]
  let ?s = "soter2_intr_reset_handlers s (server_ivtable z mem)"
  obtain sock rl rs rw rr q where run: "soter2_intr_run rl rs rw rr (Some (?s\<lparr>oi_sock := sock\<rparr>)) = Inr (q, Some intr)"
    and q: "\<not> q < 0" and serv: "serv = state_server_init (d_sender (oi_disp s)) z"
    using assms
    by (cases threads) (auto simp: state_server_main_def i Let_def bind_fault_Inr_iff split_beta split: if_splits option.splits)
  from intr_run_ok [OF run] q have "oi_is_running intr" "w_handlers (oi_wtch intr) = w_handlers (oi_wtch ?s)"
    "s_packets (d_sender (oi_disp intr)) = s_packets (d_sender (oi_disp ?s))"
    "node_parts (oi_ctx ?s) \<longrightarrow> node_parts (oi_ctx intr)" by auto
  then show "oi_is_running intr" "w_handlers (oi_wtch intr) = (old_handlers na)[6 := server_handler z mem]"
    "\<exists>s. serv = state_server_init s z" "s_packets (d_sender (oi_disp intr)) = []" "node_parts (oi_ctx intr)"
    using reset_handlers_server [of s z mem] serv ok(5) parts by (auto simp: PACKET_TYPE_MAX_def)
qed

subsection \<open>What the server sends\<close>

text \<open>The state packets that wait to be sent.\<close>

definition state_sent :: "old_context \<Rightarrow> (protopack \<times> nnet_fd) list" where
  "state_sent c = filter (\<lambda>q. packtype (fst q) = pt_code PACK_STATE) (s_packets (d_sender (oc_rudp c)))"

definition keeps_sent :: "old_context \<Rightarrow> fault + 'r \<times> old_context \<Rightarrow> bool" where
  "keeps_sent c m \<longleftrightarrow> (\<forall>r c'. m = Inr (r, c') \<longrightarrow> state_sent c' = state_sent c)"

named_theorems sent_rules

lemma keeps_sent_simps [simp]: "keeps_sent c (Inl f)" "keeps_sent c (Inr (r, c')) \<longleftrightarrow> state_sent c' = state_sent c"
  by (simp_all add: keeps_sent_def)

lemma keeps_sent_bind:
  "keeps_sent c m \<Longrightarrow> (\<And>r c'. keeps_sent c' (f (r, c'))) \<Longrightarrow> keeps_sent c (bind_fault m f)"
  by (cases m) (auto simp: keeps_sent_def)

lemma keeps_sent_read: "(\<And>x. keeps_sent c (f x)) \<Longrightarrow> keeps_sent c (bind_fault m f)"
  by (cases m) auto

lemma old_db_sent [sent_rules]: "keeps_sent c (old_db f c)"
  by (auto simp: old_db_def state_sent_def keeps_sent_def bind_fault_Inr_iff)

lemma old_send_sent [sent_rules]:
  assumes "t \<noteq> PACK_STATE"
  shows "keeps_sent c (old_send (proto_msg_quick a b k t) fd c)"
proof -
  have "pt_code t \<noteq> pt_code PACK_STATE" using assms by (cases t) simp_all
  then show ?thesis
    by (auto simp: old_send_def state_sent_def bind_fault_Inr_iff pvd_sender_send_def udp_copy_pack_def
        proto_msg_quick_eq quick_def keeps_sent_def)
qed

lemma punch_peer_sent: "keeps_sent c (old_punch_peer e p c)"
  unfolding old_punch_peer_def Let_def
  by (rule keeps_sent_bind [OF old_db_sent])
    (auto split: option.split intro!: keeps_sent_read keeps_sent_bind [OF old_db_sent])

lemma quiet_handlers:
  "keeps_sent c (old_hnd_ACK p fd c)" "keeps_sent c (old_hnd_PING e p fd c)" "keeps_sent c (old_hnd_PONG e p fd c)"
  "keeps_sent c (old_hnd_PUNCH e p fd c)" "keeps_sent c (old_hnd_GOSSIP p fd c)"
  "keeps_sent c (old_hnd_STATE na e p fd c)"
proof -
  show "keeps_sent c (old_hnd_ACK p fd c)" "keeps_sent c (old_hnd_PING e p fd c)" "keeps_sent c (old_hnd_PONG e p fd c)"
    unfolding old_hnd_ACK_def old_hnd_PING_def old_hnd_PONG_def
    by (auto split: option.split intro!: keeps_sent_bind sent_rules)
  show "keeps_sent c (old_hnd_PUNCH e p fd c)"
    unfolding old_hnd_PUNCH_def
    by (auto split: option.split intro!: keeps_sent_bind sent_rules punch_peer_sent)
  show "keeps_sent c (old_hnd_GOSSIP p fd c)" "keeps_sent c (old_hnd_STATE na e p fd c)"
    unfolding old_hnd_GOSSIP_def old_hnd_STATE_def
    by (auto split: option.split intro!: keeps_sent_read) (auto simp: state_sent_def)
qed

definition quiet_slot :: "(nnet_fd, env \<times> old_context \<times> 'x) watcher_handler \<Rightarrow> bool" where
  "quiet_slot x \<longleftrightarrow> x = None \<or> (\<exists>h. x = with_old h \<and> (\<forall>e p fd c. keeps_sent c (h e p fd c)))"

lemma quiet_slots: "\<forall>x \<in> set (old_handlers na). quiet_slot x"
proof -
  have n: "quiet_slot None" by (simp add: quiet_slot_def)
  have h: "quiet_slot (with_old h)" if "\<And>e p fd c. keeps_sent c (h e p fd c)" for h
    using that by (auto simp: quiet_slot_def)
  show ?thesis unfolding old_handlers_def by (simp add: n h quiet_handlers)
qed

text \<open>One packet: the state packets go to \<open>state_handler\<close>, and the others leave what it keeps and send no state packet.\<close>

lemma server_dispatch:
  assumes "watcher_dispatch ((old_handlers na)[6 := server_handler z mem]) p fd (e, c, serv) = Inr (e', c', serv')"
  shows "if packtype p = pt_code PACK_STATE
    then \<exists>r. state_handler (e_so e) z (mem p) p fd (serv\<lparr>ss_sender := d_sender (oc_rudp c)\<rparr>) = Inr (r, serv') \<and>
      c' = c\<lparr>oc_rudp := (oc_rudp c)\<lparr>d_sender := ss_sender serv'\<rparr>\<rparr>
    else serv' = serv \<and> state_sent c' = state_sent c"
proof (cases "packtype p = pt_code PACK_STATE")
  case True
  then show ?thesis
    using assms
    by (auto simp: watcher_dispatch_def udp_is_RUDP_req_def PACKET_TYPE_MAX_def old_handlers_def server_handler_def
        bind_fault_Inr_iff)
next
  case other: False
  let ?hs = "(old_handlers na)[6 := server_handler z mem]" and ?i = "unat (packtype p)"
  have len: "length ?hs = PACKET_TYPE_MAX" by (simp add: old_handlers_def PACKET_TYPE_MAX_def)
  have i: "?i \<noteq> 6"
  proof
    assume "?i = 6"
    then have "packtype p = 6" by (simp add: word_unat_eq_iff)
    with other show False by simp
  qed
  show ?thesis
  proof (cases "udp_is_RUDP_req (packtype p) \<or> PACKET_TYPE_MAX \<le> ?i \<or> ?hs ! ?i = None")
    case True
    then show ?thesis using assms other len by (elim disjE) (simp_all add: watcher_dispatch_def split: if_splits)
  next
    case False
    then have "?hs ! ?i \<in> set (old_handlers na)"
      using i len by (simp add: nth_list_update)
    then have "quiet_slot (?hs ! ?i)" using quiet_slots [of na] by (rule bspec [rotated])
    with False obtain h where h: "?hs ! ?i = with_old h" "\<And>e p fd c. keeps_sent c (h e p fd c)"
      by (auto simp only: quiet_slot_def)
    from h(2) [of c e p fd] show ?thesis
      using assms other False len h(1)
      by (auto simp: watcher_dispatch_def with_old_def bind_fault_Inr_iff keeps_sent_def)
  qed
qed

subsection \<open>The first thousand state packets\<close>

lemma mostly_empty_sender [simp]: "mostly_empty n (serv\<lparr>ss_sender := s\<rparr>) = mostly_empty n serv"
  by (simp add: mostly_empty_def)

definition is_state :: "protopack \<times> nnet_fd \<times> env \<Rightarrow> bool" where
  "is_state x \<longleftrightarrow> packtype (fst x) = pt_code PACK_STATE"

lemma server_silent_from:
  assumes "mostly_empty n serv" and "n + length (filter is_state ps) \<le> 1016"
    and "\<forall>(p, fd, e) \<in> set ps. \<forall>rc r. state_rreceive (e_so e) (data p) = Inr (rc, Some r) \<longrightarrow> sr_uid r \<noteq> 0"
    and "old_dispatch_all ((old_handlers na)[6 := server_handler z mem]) ps (c, serv) = Inr (c', serv')"
  shows "state_sent c' = state_sent c"
  using assms
proof (induction ps arbitrary: n c serv)
  case (Cons x ps)
  obtain p fd e where x: "x = (p, fd, e)" by (cases x)
  obtain e1 c1 serv1 where d: "watcher_dispatch ((old_handlers na)[6 := server_handler z mem]) p fd (e, c, serv) = Inr (e1, c1, serv1)"
    and rest: "old_dispatch_all ((old_handlers na)[6 := server_handler z mem]) ps (c1, serv1) = Inr (c', serv')"
    using Cons.prems(4) by (auto simp: x bind_fault_Inr_iff)
  show ?case
  proof (cases "packtype p = pt_code PACK_STATE")
    case True
    with server_dispatch [OF d] obtain r where
      h: "state_handler (e_so e) z (mem p) p fd (serv\<lparr>ss_sender := d_sender (oc_rudp c)\<rparr>) = Inr (r, serv1)"
      "c1 = c\<lparr>oc_rudp := (oc_rudp c)\<lparr>d_sender := ss_sender serv1\<rparr>\<rparr>" by auto
    have "ok_run (\<lambda>s. mostly_empty (Suc n) s \<and> ss_sender s = d_sender (oc_rudp c))
        (state_handler (e_so e) z (mem p) p fd (serv\<lparr>ss_sender := d_sender (oc_rudp c)\<rparr>))"
      using state_handler_silent [of n "serv\<lparr>ss_sender := d_sender (oc_rudp c)\<rparr>" "e_so e" p z "mem p" fd] Cons.prems(1-3) True
      by (auto simp: x is_state_def)
    then have "mostly_empty (Suc n) serv1" "state_sent c1 = state_sent c" by (simp_all add: h state_sent_def)
    with Cons.IH [of "Suc n" serv1 c1] Cons.prems(2,3) rest True show ?thesis by (simp add: x is_state_def)
  next
    case False
    with server_dispatch [OF d] have "serv1 = serv" "state_sent c1 = state_sent c" by simp_all
    with Cons.IH [of n serv1 c1] Cons.prems(1-3) rest False show ?thesis by (simp add: x is_state_def)
  qed
qed simp

subsection \<open>The invariant of the server\<close>

text \<open>
  The components of the server are those of a node (\<open>ctx_ok\<close>), and its ring is well formed. The handlers that it
  shares with a node keep this because they do the same.
\<close>

definition old_ok :: "sodium \<Rightarrow> old_context \<Rightarrow> bool" where
  "old_ok so c \<longleftrightarrow> (\<exists>a. c = old_of (oc_ssystem c) a \<and> ctx_ok so a)"

definition server_ok :: "sodium \<Rightarrow> old_context \<times> state_server \<Rightarrow> bool" where
  "server_ok so s \<longleftrightarrow> old_ok so (fst s) \<and> pq_wf (pending_peers (snd s))"

lemma old_ok_run: "ok_run (ctx_ok so) m \<Longrightarrow> ok_run (old_ok so) (old_run st m)"
  by (cases m) (auto simp: old_ok_def)

lemma old_ok_handlers:
  assumes "old_ok so c"
  shows "ok_run (old_ok so) (old_hnd_ACK p fd c)" "ok_run (old_ok so) (old_hnd_PING e p fd c)"
    "ok_run (old_ok so) (old_hnd_PONG e p fd c)" "ok_run (old_ok so) (old_hnd_PUNCH e p fd c)"
    "ok_run (old_ok so) (old_hnd_GOSSIP p fd c)"
proof -
  obtain st a where "c = old_of st a" "ctx_ok so a" using assms by (auto simp: old_ok_def)
  then show "ok_run (old_ok so) (old_hnd_ACK p fd c)" "ok_run (old_ok so) (old_hnd_PING e p fd c)"
    "ok_run (old_ok so) (old_hnd_PONG e p fd c)" "ok_run (old_ok so) (old_hnd_PUNCH e p fd c)"
    "ok_run (old_ok so) (old_hnd_GOSSIP p fd c)"
    by (simp_all add: old_ACK_run old_PING_run old_PONG_run old_PUNCH_run old_GOSSIP_run old_ok_run ok_ACK ok_PING
        ok_PONG ok_PUNCH ok_GOSSIP)
qed

definition ok_slot :: "sodium \<Rightarrow> (nnet_fd, env \<times> old_context \<times> 'x) watcher_handler \<Rightarrow> bool" where
  "ok_slot so x \<longleftrightarrow> x = None \<or> (\<exists>h. x = with_old h \<and> (\<forall>e p fd c. old_ok so c \<longrightarrow> ok_run (old_ok so) (h e p fd c)))"

lemma ok_slots: "\<forall>x \<in> set ((old_handlers na)[6 := None]). ok_slot so x"
proof -
  have n: "ok_slot so None" by (simp add: ok_slot_def)
  have h: "ok_slot so (with_old h)" if "\<And>e p fd c. old_ok so c \<Longrightarrow> ok_run (old_ok so) (h e p fd c)" for h
    using that by (auto simp: ok_slot_def)
  show ?thesis unfolding old_handlers_def by (simp add: n h old_ok_handlers)
qed

lemma old_ok_sender: "old_ok so c \<Longrightarrow> old_ok so (c\<lparr>oc_rudp := (oc_rudp c)\<lparr>d_sender := s\<rparr>\<rparr>)"
proof -
  assume "old_ok so c"
  then obtain a where a: "c = old_of (oc_ssystem c) a" "ctx_ok so a" by (auto simp: old_ok_def)
  let ?a = "a\<lparr>ac_rudp := (ac_rudp a)\<lparr>d_sender := s\<rparr>\<rparr>"
  have "c\<lparr>oc_rudp := (oc_rudp c)\<lparr>d_sender := s\<rparr>\<rparr> = old_of (oc_ssystem c) ?a"
    by (subst (1) a(1), subst (2) a(1)) (simp add: old_of_def)
  moreover have "ctx_ok so ?a" using a(2) by (simp add: ctx_ok_def)
  ultimately show ?thesis by (auto simp: old_ok_def)
qed

lemma state_handler_ok:
  assumes "pq_wf (pending_peers serv)"
  shows "ok_run (\<lambda>s. pq_wf (pending_peers s)) (state_handler so z m pck fd serv)"
proof -
  have up: "ok_run pq_wf (prot_queue_upush z (pending_peers serv) x)" for x
    using prot_queue_upush_ok [OF assms, of z x] by auto
  show ?thesis
    unfolding state_handler_def Let_def
    by (auto simp: assms peer_list_ok split: option.split
        intro!: ok_run_bind_oob [OF state_rreceive_oob] ok_run_bind_oob [OF translated_bytes_oob]
          ok_run_bind [OF sender_send_ok] ok_run_bind [OF up])
qed

lemma server_dispatch_ok:
  assumes "server_ok so (c, serv)"
  shows "case watcher_dispatch ((old_handlers na)[6 := server_handler z mem]) p fd (e, c, serv) of
    Inl f \<Rightarrow> f = OutOfBounds | Inr (e', s) \<Rightarrow> server_ok so s"
proof -
  let ?hs = "(old_handlers na)[6 := server_handler z mem]" and ?i = "unat (packtype p)"
  have ok: "old_ok so c" "pq_wf (pending_peers serv)" using assms by (simp_all add: server_ok_def)
  have len: "length (old_handlers na :: (nnet_fd, env \<times> old_context \<times> state_server) watcher_handler list) = 14"
    by (simp add: old_handlers_def)
  consider "udp_is_RUDP_req (packtype p) \<or> 14 \<le> ?i \<or> ?hs ! ?i = None"
    | "\<not> udp_is_RUDP_req (packtype p)" "?i = 6"
    | "\<not> udp_is_RUDP_req (packtype p)" "?i < 14" "?i \<noteq> 6" "?hs ! ?i \<noteq> None" by fastforce
  then show ?thesis
  proof cases
    case 1
    then show ?thesis using assms by (elim disjE) (simp_all add: watcher_dispatch_def PACKET_TYPE_MAX_def len)
  next
    case 2
    let ?m = "state_handler (e_so e) z (mem p) p fd (serv\<lparr>ss_sender := d_sender (oc_rudp c)\<rparr>)"
    have "ok_run (\<lambda>s. pq_wf (pending_peers s)) ?m" using state_handler_ok ok(2) by simp
    then show ?thesis
      using 2 old_ok_sender [OF ok(1)]
      by (cases ?m) (auto simp: watcher_dispatch_def PACKET_TYPE_MAX_def len server_handler_def server_ok_def)
  next
    case 3
    then have "?i < length (?hs[6 := None])" using len by simp
    from nth_mem [OF this] 3(3) have "?hs ! ?i \<in> set ((old_handlers na)[6 := None])" by simp
    then have "ok_slot so (?hs ! ?i)" using ok_slots [of na so] by (rule bspec [rotated])
    with 3 obtain h where h: "?hs ! ?i = with_old h" "\<And>e p fd c. old_ok so c \<Longrightarrow> ok_run (old_ok so) (h e p fd c)"
      by (auto simp only: ok_slot_def)
    show ?thesis
      using 3 h(1) h(2) [OF ok(1), of e p fd] ok(2)
      by (cases "h e p fd c") (auto simp: watcher_dispatch_def PACKET_TYPE_MAX_def len with_old_def server_ok_def)
  qed
qed

lemma server_dispatch_all_ok:
  assumes "server_ok so s"
  shows "case old_dispatch_all ((old_handlers na)[6 := server_handler z mem]) ps s of
    Inl f \<Rightarrow> f = OutOfBounds | Inr s' \<Rightarrow> server_ok so s'"
  using assms
proof (induction ps arbitrary: s)
  case (Cons x ps)
  obtain p fd e c serv where x: "x = (p, fd, e)" "s = (c, serv)" by (cases x; cases s)
  from server_dispatch_ok [of so c serv na z mem p fd e] Cons.prems Cons.IH show ?case
    by (cases "watcher_dispatch ((old_handlers na)[6 := server_handler z mem]) p fd (e, c, serv)") (auto simp: x)
qed simp

lemma init_server_ok:
  assumes "state_server_main lib argv (soter2_intr_init na so cr keys sk st now zw junk) z mem threads =
      Inr (Server_Runs intr serv)"
  shows "server_ok so (oi_ctx intr, serv)"
proof -
  note run = server_runs [OF assms]
  define a where "a = \<lparr>ac_p_db = oc_p_db (oi_ctx intr), ac_g_syst = oc_g_syst (oi_ctx intr), ac_rudp = oi_disp intr,
     ac_listener = oc_listener (oi_ctx intr), ac_turn = snd (turn_client_init 0 0 (snd pvd_sender_new)),
     ac_ssystem = snd (state_sys_init (fst z, [])), ac_now_ms = oc_now_ms (oi_ctx intr)\<rparr>"
  have "oi_ctx intr = old_of (oc_ssystem (oi_ctx intr)) a" by (simp add: old_of_def a_def)
  moreover have "ctx_ok so a"
    using run(5) turn_init_wf pq_create_ok [of "(fst z, [] :: naddr_t)" 220]
    by (simp add: ctx_ok_def node_parts_def a_def state_sys_init_def)
  moreover have "pq_wf (pending_peers serv)"
    using run(3) pq_create_ok [of z 308] by (auto simp: state_server_init_def)
  ultimately show ?thesis by (auto simp: server_ok_def old_ok_def)
qed

subsection \<open>Nodes with the earlier interface\<close>

text \<open>The sizes of the state packets that the server sends.\<close>

definition answers_sized :: "old_context \<Rightarrow> bool" where
  "answers_sized c \<longleftrightarrow> (\<forall>q \<in> set (state_sent c). \<exists>n. unat (d_size (fst q)) = 4 + n * STATE_REQUEST_SIZE)"

lemma state_handler_sends:
  assumes "state_handler so z m pck fd serv = Inr (r, serv')"
  shows "s_packets (ss_sender serv') = s_packets (ss_sender serv) \<or>
    (\<exists>p n. s_packets (ss_sender serv') = s_packets (ss_sender serv) @ [(p, fd)] \<and> unat (d_size p) = 4 + n * STATE_REQUEST_SIZE)"
proof -
  have size: "unat (of_nat k :: u32) = k" if "k \<le> 2000" for k using that by (intro unat_small) simp
  have mk: "udp_make_pack a b u t pl k = Some p \<Longrightarrow> unat (d_size p) = k" for a b u t pl k p
    using size [of k] by (auto simp: udp_make_pack_def UDP_MTU_def PROTOCOL_OVERHEAD_def Let_def split: if_splits)
  have snd: "pvd_sender_send s q to = Inr (k, s') \<Longrightarrow> s_packets s' = s_packets s \<or>
      (\<exists>p p'. q = Some p' \<and> d_size p = d_size p' \<and> s_packets s' = s_packets s @ [(p, to)])"
    for s s' :: "nnet_fd pvd_sender" and q to k
    by (auto simp: pvd_sender_send_def udp_copy_pack_def split: option.splits if_splits)
  show ?thesis
    using assms
    by (auto simp: state_handler_def peer_list_def bind_fault_Inr_iff Let_def split: if_splits option.splits
        dest!: snd mk)
qed

lemma answers_sized_from:
  assumes "answers_sized c"
    and "old_dispatch_all ((old_handlers na)[6 := server_handler z mem]) ps (c, serv) = Inr (c', serv')"
  shows "answers_sized c'"
  using assms
proof (induction ps arbitrary: c serv)
  case (Cons x ps)
  obtain p fd e where x: "x = (p, fd, e)" by (cases x)
  obtain e1 c1 serv1 where d: "watcher_dispatch ((old_handlers na)[6 := server_handler z mem]) p fd (e, c, serv) = Inr (e1, c1, serv1)"
    and rest: "old_dispatch_all ((old_handlers na)[6 := server_handler z mem]) ps (c1, serv1) = Inr (c', serv')"
    using Cons.prems(2) by (auto simp: x bind_fault_Inr_iff)
  have "answers_sized c1"
  proof (cases "packtype p = pt_code PACK_STATE")
    case True
    with server_dispatch [OF d] obtain r where
      h: "state_handler (e_so e) z (mem p) p fd (serv\<lparr>ss_sender := d_sender (oc_rudp c)\<rparr>) = Inr (r, serv1)"
      "c1 = c\<lparr>oc_rudp := (oc_rudp c)\<lparr>d_sender := ss_sender serv1\<rparr>\<rparr>" by auto
    from state_handler_sends [OF h(1)] Cons.prems(1) show ?thesis
      by (fastforce simp: h(2) answers_sized_def state_sent_def)
  next
    case False
    with server_dispatch [OF d] Cons.prems(1) show ?thesis by (simp add: answers_sized_def)
  qed
  with Cons.IH rest show ?case by blast
qed simp

lemma old_state_size: "unat (d_size p) = 4 + n * STATE_REQUEST_SIZE \<Longrightarrow> old_hnd_STATE na e p fd c = Inr (-1, c)"
  by (auto simp: old_hnd_STATE_def STATE_REQUEST_SIZE_def) presburger

subsection \<open>Properties\<close>

text \<open>
  C33: a state server that \<open>main\<close> has started sends no state packet at all while it gets its first 1016 state packets,
  whatever else it gets in between: it introduces nobody to anybody.
\<close>

theorem state_server_introduces_nobody:
  assumes "state_server_main lib argv (soter2_intr_init na so cr keys sk st now zw junk) z mem threads =
      Inr (Server_Runs intr serv)"
    and "sr_uid (fst z) = 0" and "length (filter is_state ps) \<le> 1016"
    and "\<forall>(p, fd, e) \<in> set ps. \<forall>rc r. state_rreceive (e_so e) (data p) = Inr (rc, Some r) \<longrightarrow> sr_uid r \<noteq> 0"
  shows "case old_dispatch_all (w_handlers (oi_wtch intr)) ps (oi_ctx intr, serv) of
    Inl f \<Rightarrow> f = OutOfBounds | Inr (c, serv') \<Rightarrow> state_sent c = []"
proof -
  note run = server_runs [OF assms(1)]
  obtain s where s: "serv = state_server_init s z" using run(3) by blast
  have "mostly_empty 0 serv"
    using pq_create_ok [of z 308] assms(2)
    by (simp add: s mostly_empty_def state_server_init_def prot_queue_create_def pq_set_array_def Let_def pq_wf_def
        prot_array_create_def)
  from server_silent_from [OF this _ assms(4)] assms(3) have
    "old_dispatch_all (w_handlers (oi_wtch intr)) ps (oi_ctx intr, serv) = Inr (c, serv') \<Longrightarrow> state_sent c = []" for c serv'
    unfolding run(2) by (fastforce simp: state_sent_def run(4))
  with server_dispatch_all_ok [OF init_server_ok [OF assms(1)], of na z mem ps] show ?thesis
    unfolding run(2) by (auto split: sum.splits)
qed

definition zero_request :: state_request where
  "zero_request = \<lparr>sr_addr = zeros 52, sr_uid = 0, sr_pubkey = zeros 32, sr_signature = zeros 64, sr_type = 0,
     sr_nonce = 0, sr_timestamp = 0\<rparr>"

lemma demo_server:
  "\<exists>intr serv. state_server_main demo_lib6 [str ''server'', str ''10.0.0.7'', str ''9000''] demo_old
     (zero_request, demo_fd) (\<lambda>_. True) (0, 0, 0, 0) = Inr (Server_Runs intr serv)"
proof -
  obtain s :: "state_server soter2_interface" where s: "demo_old = (0, Some s)"
    and b: "us_open (oi_sock s)" "\<not> us_bound (oi_sock s)"
  proof -
    obtain s :: "state_server soter2_interface" where s: "demo_old = (0, Some s)" by (rule demo_old_ok)
    from that [OF s] old_init_ok(7,8) [OF s [unfolded demo_old_def]] show thesis by simp
  qed
  obtain v4 where v4: "ln_ipv4 (str ''10.0.0.7'') (word_of_int (atoi_long (str ''9000''))) = Inr v4"
    and fam: "na_t (ln_make4 v4) = nADDR_IPV4" "inet_pton4 (cstr (ln_make4 v4)) \<noteq> None"
  proof -
    have "case ln_ipv4 (str ''10.0.0.7'') (word_of_int (atoi_long (str ''9000''))) of
        Inl f \<Rightarrow> False | Inr v4 \<Rightarrow> na_t (ln_make4 v4) = nADDR_IPV4 \<and> inet_pton4 (cstr (ln_make4 v4)) \<noteq> None"
      by code_simp
    with that show thesis by (auto split: sum.splits)
  qed
  let ?s = "soter2_intr_reset_handlers s (server_ivtable (zero_request, demo_fd) (\<lambda>_. True))"
  obtain sock where "ln_usock_bind demo_lib6 (oi_sock ?s) (ln_make4 v4) = (0, sock)"
    using fam b reset_handlers_server [of s "(zero_request, demo_fd)" "\<lambda>_. True"]
    by (auto simp: ln_usock_bind_def us_bind_def ln_netfd_def)
  moreover obtain intr where "soter2_intr_run 0 0 0 0 (Some (?s\<lparr>oi_sock := sock\<rparr>)) = Inr (0, Some intr)"
    by (simp add: soter2_intr_run_def on_intr_def Let_def watcher_start_def pvd_listener_start_def
      pvd_sender_start_def rudp_dispatcher_run_def)
  ultimately show ?thesis by (simp add: state_server_main_def s v4(1))
qed

text \<open>An announcement, as the server gets it with an address and an environment.\<close>

definition demo_announcement :: "protopack \<times> nnet_fd \<times> env" where
  "demo_announcement = (demo_packet\<lparr>packtype := pt_code PACK_STATE\<rparr>, demo_fd, demo_env)"

theorem state_server_introduces_nobody_witness:
  "\<exists>intr serv. state_server_main demo_lib6 [str ''server'', str ''10.0.0.7'', str ''9000''] demo_old
     (zero_request, demo_fd) (\<lambda>_. True) (0, 0, 0, 0) = Inr (Server_Runs intr serv) \<and>
     (case old_dispatch_all (w_handlers (oi_wtch intr)) (replicate 1000 demo_announcement) (oi_ctx intr, serv) of
        Inl f \<Rightarrow> f = OutOfBounds | Inr (c, serv') \<Rightarrow> state_sent c = [])"
proof -
  obtain intr serv where run: "state_server_main demo_lib6 [str ''server'', str ''10.0.0.7'', str ''9000''] demo_old
     (zero_request, demo_fd) (\<lambda>_. True) (0, 0, 0, 0) = Inr (Server_Runs intr serv)" using demo_server by blast
  have k: "sr_pubkey (state_of_bytes (data demo_packet)) = replicate 32 3"
    using state_of_state_bytes [of "\<lparr>sr_addr = na4 [49, 46, 50] 7000, sr_uid = htonl (crypto_pubkey_to_uid demo_sodium (replicate 32 3)),
       sr_pubkey = replicate 32 3, sr_signature = zeros 64, sr_type = 0, sr_nonce = 5, sr_timestamp = 9\<rparr>" "[]"]
    by (simp add: demo_packet_def state_ok_def na4_fields)
  have "crypto_pubkey_to_uid demo_sodium (replicate 32 3) \<noteq> 0"
    by code_simp
  then have "\<forall>(p, fd, e) \<in> set (replicate 1000 demo_announcement).
      \<forall>rc r. state_rreceive (e_so e) (data p) = Inr (rc, Some r) \<longrightarrow> sr_uid r \<noteq> 0"
    using state_rreceive_accepts [of demo_sodium "data demo_packet"] k
    by (auto simp: demo_announcement_def demo_env_def)
  moreover have "length (filter is_state (replicate 1000 demo_announcement)) \<le> 1016"
    by (rule order_trans [OF length_filter_le]) simp
  ultimately show ?thesis
    using run state_server_introduces_nobody [OF run [unfolded demo_old_def], of "replicate 1000 demo_announcement"]
    by (auto simp: zero_request_def)
qed

subsection \<open>A server that answers\<close>

text \<open>
  A server that has got \<open>n\<close> different announcements of one node: they are in the first slots of its ring.
\<close>

definition filled :: "(nat \<Rightarrow> state_request) \<Rightarrow> nnet_fd \<Rightarrow> state_request \<times> nnet_fd \<Rightarrow> nat \<Rightarrow> state_server \<Rightarrow> bool" where
  "filled R fd z n serv \<longleftrightarrow>
     (let q = pending_peers serv in
      pq_wf q \<and> pq_head q = 0 \<and> pq_tail q = n mod 1024 \<and> pq_count q = n \<and> slots q = map (\<lambda>k. (R k, fd)) [0..<n] @ replicate (1024 - n) z)"

lemma filled_init: "filled R fd z 0 (state_server_init s z)"
  using pq_create_ok [of z 308]
  by (simp add: filled_def state_server_init_def prot_queue_create_def pq_set_array_def Let_def pq_wf_def prot_array_create_def)

lemma filled_upush:
  assumes "filled R fd z n serv" and "n \<le> 1016" and "inj_on R {..1016}"
  shows "\<exists>q. prot_queue_upush z' (pending_peers serv) (R n, fd) = Inr (0, q) \<and> filled R fd z (Suc n) (serv\<lparr>ss_sender := s, pending_peers := q\<rparr>)"
proof -
  let ?q = "pending_peers serv" and ?x = "(R n, fd)"
  have f: "pq_wf ?q" "pq_head ?q = 0" "pq_tail ?q = n" "pq_count ?q = n" "slots ?q = map (\<lambda>k. (R k, fd)) [0..<n] @ replicate (1024 - n) z"
    using assms(1,2) by (simp_all add: filled_def Let_def)
  have cap: "pq_cap ?q = 1024" using f(5) assms(2) by simp
  have free: "\<not> mtx (pq_arr ?q)" using f(1) by (simp add: pq_wf_def)
  have "ring ?q = map (\<lambda>k. (R k, fd)) [0..<n]"
    using assms(2) by (intro nth_equalityI) (simp_all add: ring_def f(2,4) cap f(5) nth_append)
  then have new: "?x \<notin> set (ring ?q)" using assms(2) by (auto simp: inj_on_eq_iff [OF assms(3)])
  let ?q' = "?q\<lparr>pq_arr := (pq_arr ?q)\<lparr>mtx := False, obj := (obj (pq_arr ?q))\<lparr>elements := (slots ?q)[n := ?x]\<rparr>\<rparr>,
      pq_tail := (n + 1) mod 1024, pq_count := n + 1\<rparr>"
  obtain q where q: "prot_queue_upush z' ?q ?x = Inr (0, q)" "pq_wf q" using prot_queue_upush_ok [OF f(1)] by blast
  have ex: "\<not> list_ex (\<lambda>i. slots ?q ! i = ?x) [0..<n]"
    using assms(2) by (auto simp: list_ex_iff f(5) nth_append inj_on_eq_iff [OF assms(3)])
  have "prot_queue_upush z' ?q ?x = Inr (0, ?q')"
    unfolding prot_queue_upush_def
    using ex f(2-4) assms(2) cap
    by (subst pq_locked_free [OF free])
      (auto simp: prot_queue_push_unsafe_def Let_def list_ex_iff)
  moreover have "(map (\<lambda>k. (R k, fd)) [0..<n] @ replicate (1024 - n) z)[n := ?x] = map (\<lambda>k. (R k, fd)) [0..<Suc n] @ replicate (1024 - Suc n) z"
    using assms(2) by (simp add: list_update_append Suc_diff_le [symmetric] replicate_Suc [symmetric] del: replicate_Suc) (cases "1024 - n"; simp)
  ultimately show ?thesis using q f(2) by (intro exI [of _ ?q']) (simp add: filled_def f(5))
qed

lemma filled_others:
  assumes "filled R fd z n serv" and "\<And>k. sr_uid (R k) = u" and "sr_uid (fst z) \<noteq> u"
  shows "other_requests u (pending_peers serv) = replicate (1024 - n) (fst z)"
  using assms by (simp add: filled_def other_requests_def Let_def filter_replicate filter_empty_conv)

lemma zeros_translated: "\<exists>bs. translated_bytes (replicate m zero_request) = Inr bs \<and> length bs = m * STATE_REQUEST_SIZE"
proof -
  have "case state_retranslate zero_request of Inl f \<Rightarrow> False | Inr t \<Rightarrow> length (state_bytes t) = 168" by code_simp
  then obtain t where "state_retranslate zero_request = Inr t" "length (state_bytes t) = 168" by (auto split: sum.splits)
  then show ?thesis by (induction m) (auto simp: STATE_REQUEST_SIZE_def)
qed

text \<open>An announcement with a new nonce reaches a server that has got \<open>n\<close> of them.\<close>

lemma filled_handler:
  assumes "filled R fd (zero_request, zfd) n serv" and "n \<le> 1016" and "inj_on R {..1016}" and "\<And>k. sr_uid (R k) = u" and "u \<noteq> 0"
    and "unat (d_size pck) = STATE_REQUEST_SIZE" and "state_rreceive so (data pck) = Inr (0, Some (R n))"
  shows "\<exists>q p. state_handler so z True pck fd serv =
      Inr (0, serv\<lparr>ss_sender := (if n < 1016 then ss_sender serv
        else (ss_sender serv)\<lparr>s_packets := s_packets (ss_sender serv) @ [(p, fd)], s_newpack := mt_evsock_notify (s_newpack (ss_sender serv))\<rparr>),
        pending_peers := q\<rparr>) \<and> packtype p = pt_code PACK_STATE \<and>
    filled R fd (zero_request, zfd) (Suc n) (serv\<lparr>ss_sender := s, pending_peers := q\<rparr>)"
proof -
  have wf: "pq_wf (pending_peers serv)" using assms(1) by (simp add: filled_def Let_def)
  have o: "other_requests u (pending_peers serv) = replicate (1024 - n) zero_request"
    using filled_others [OF assms(1,4)] assms(5) by (simp add: zero_request_def)
  obtain bs where bs: "translated_bytes (replicate (1024 - n) zero_request) = Inr bs" "length bs = (1024 - n) * STATE_REQUEST_SIZE"
    using zeros_translated by blast
  from filled_upush [OF assms(1-3), of z s] obtain q where q: "prot_queue_upush z (pending_peers serv) (R n, fd) = Inr (0, q)"
    "filled R fd (zero_request, zfd) (Suc n) (serv\<lparr>ss_sender := s, pending_peers := q\<rparr>)" by blast
  let ?pl = "le32 (htonl (of_nat (1024 - n))) @ bs"
  let ?mk = "udp_make_pack 0 0 u PACK_STATE (Some ?pl) (4 + (1024 - n) * STATE_REQUEST_SIZE)"
  note h = state_handler_accepted [OF assms(6,7) wf, of z fd, unfolded assms(4) o bs(1), simplified]
  show ?thesis
  proof (cases "n < 1016")
    case True
    then have "?mk = None" by (simp add: udp_make_pack_def PROTOCOL_OVERHEAD_def UDP_MTU_def STATE_REQUEST_SIZE_def)
    then show ?thesis using h q True
      by (intro exI [of _ q] exI [of _ "quick 0 0 0 PACK_STATE"]) (simp add: pvd_sender_send_def quick_def)
  next
    case False
    then have n: "n = 1016" using assms(2) by simp
    then obtain p where p: "?mk = Some p" "packtype p = pt_code PACK_STATE" "udp_copy_pack p = Inr p"
      using bs(2) by (auto simp: udp_make_pack_def PROTOCOL_OVERHEAD_def UDP_MTU_def STATE_REQUEST_SIZE_def udp_copy_pack_def)
    then show ?thesis using h q n by (intro exI [of _ q] exI [of _ p]) (simp add: pvd_sender_send_def)
  qed
qed

lemma dispatch_state:
  assumes "packtype p = pt_code PACK_STATE"
    and "state_handler (e_so e) z (mem p) p fd (serv\<lparr>ss_sender := d_sender (oc_rudp c)\<rparr>) = Inr (r, serv')"
  shows "watcher_dispatch ((old_handlers na)[6 := server_handler z mem]) p fd (e, c, serv) =
    Inr (e, c\<lparr>oc_rudp := (oc_rudp c)\<lparr>d_sender := ss_sender serv'\<rparr>\<rparr>, serv')"
  using assms
  by (simp add: watcher_dispatch_def udp_is_RUDP_req_def PACKET_TYPE_MAX_def old_handlers_def server_handler_def)

lemma old_dispatch_all_snoc:
  "old_dispatch_all hs (xs @ [x]) s = bind_fault (old_dispatch_all hs xs s) (old_dispatch_all hs [x])"
proof (induction xs arbitrary: s)
  case Nil
  then show ?case by simp
next
  case (Cons y xs)
  obtain p fd e where y: "y = (p, fd, e)" by (cases y)
  obtain c v where s: "s = (c, v)" by (cases s)
  show ?case by (cases "watcher_dispatch hs p fd (e, c, v)") (auto simp: y s Cons split_def)
qed

text \<open>
  The announcements \<open>P k\<close> of one node, each with a nonce of its own: the first 1016 are not answered, and the
  next one is, with the eight empty slots.
\<close>

lemma server_answers:
  fixes P :: "nat \<Rightarrow> protopack" and zfd :: nnet_fd
  assumes hs_def: "hs = (old_handlers na)[6 := server_handler (zero_request, zfd) (\<lambda>_. True)]"
    and "\<And>k. packtype (P k) = pt_code PACK_STATE" and "\<And>k. unat (d_size (P k)) = STATE_REQUEST_SIZE"
    and "\<And>k. state_rreceive (e_so e) (data (P k)) = Inr (0, Some (R k))" and "inj_on R {..1016}" and "\<And>k. sr_uid (R k) = u" and "u \<noteq> 0"
    and "filled R fd (zero_request, zfd) 0 serv"
  shows "\<exists>c' serv' p. old_dispatch_all hs (map (\<lambda>k. (P k, fd, e)) [0..<1017]) (c, serv) = Inr (c', serv') \<and>
    state_sent c' = state_sent c @ [(p, fd)]"
proof -
  have sender: "filled R fd z n (v\<lparr>ss_sender := s\<rparr>) = filled R fd z n v" for z n v s by (simp add: filled_def)
  have run: "\<exists>c' serv'. old_dispatch_all hs (map (\<lambda>k. (P k, fd, e)) [0..<n]) (c, serv) = Inr (c', serv') \<and>
      filled R fd (zero_request, zfd) n serv' \<and> state_sent c' = state_sent c" if "n \<le> 1016" for n
    using that
  proof (induction n)
    case 0
    then show ?case using assms(8) by simp
  next
    case (Suc n)
    then obtain c1 v1 where c1: "old_dispatch_all hs (map (\<lambda>k. (P k, fd, e)) [0..<n]) (c, serv) = Inr (c1, v1)"
      "filled R fd (zero_request, zfd) n v1" "state_sent c1 = state_sent c" by auto
    let ?v = "v1\<lparr>ss_sender := d_sender (oc_rudp c1)\<rparr>"
    have f: "filled R fd (zero_request, zfd) n ?v" using c1(2) sender by simp
    obtain q where q: "state_handler (e_so e) (zero_request, zfd) True (P n) fd ?v = Inr (0, ?v\<lparr>pending_peers := q\<rparr>)"
      "filled R fd (zero_request, zfd) (Suc n) (?v\<lparr>pending_peers := q\<rparr>)"
      using filled_handler [OF f _ assms(5,6,7) assms(3) [of n] assms(4) [of n], where z = "(zero_request, zfd)" and s = "ss_sender ?v"]
        Suc.prems by auto
    have "watcher_dispatch hs (P n) fd (e, c1, v1) =
        Inr (e, c1\<lparr>oc_rudp := (oc_rudp c1)\<lparr>d_sender := ss_sender (?v\<lparr>pending_peers := q\<rparr>)\<rparr>\<rparr>, ?v\<lparr>pending_peers := q\<rparr>)"
      unfolding hs_def by (rule dispatch_state) (use assms(2) q(1) in simp_all)
    then show ?case using c1(1,3) q(2) by (simp add: old_dispatch_all_snoc state_sent_def)
  qed
  obtain c1 v1 where c1: "old_dispatch_all hs (map (\<lambda>k. (P k, fd, e)) [0..<1016]) (c, serv) = Inr (c1, v1)"
    "filled R fd (zero_request, zfd) 1016 v1" "state_sent c1 = state_sent c" using run [of 1016] by auto
  let ?v = "v1\<lparr>ss_sender := d_sender (oc_rudp c1)\<rparr>"
  have f: "filled R fd (zero_request, zfd) 1016 ?v" using c1(2) sender by simp
  obtain q p where q: "state_handler (e_so e) (zero_request, zfd) True (P 1016) fd ?v =
      Inr (0, ?v\<lparr>ss_sender := (ss_sender ?v)\<lparr>s_packets := s_packets (ss_sender ?v) @ [(p, fd)],
        s_newpack := mt_evsock_notify (s_newpack (ss_sender ?v))\<rparr>, pending_peers := q\<rparr>)" "packtype p = pt_code PACK_STATE"
    using filled_handler [OF f _ assms(5,6,7) assms(3) [of 1016] assms(4) [of 1016], where z = "(zero_request, zfd)" and s = "ss_sender ?v"]
    by auto
  let ?w = "?v\<lparr>ss_sender := (ss_sender ?v)\<lparr>s_packets := s_packets (ss_sender ?v) @ [(p, fd)],
        s_newpack := mt_evsock_notify (s_newpack (ss_sender ?v))\<rparr>, pending_peers := q\<rparr>"
  have "watcher_dispatch hs (P 1016) fd (e, c1, v1) = Inr (e, c1\<lparr>oc_rudp := (oc_rudp c1)\<lparr>d_sender := ss_sender ?w\<rparr>\<rparr>, ?w)"
    unfolding hs_def by (rule dispatch_state) (use assms(2) q(1) in simp_all)
  moreover have "[0..<1017] = [0..<1016] @ [1016 :: nat]" using upt_Suc_append [of 0 1016] by simp
  ultimately have "old_dispatch_all hs (map (\<lambda>k. (P k, fd, e)) [0..<1017]) (c, serv) =
      Inr (c1\<lparr>oc_rudp := (oc_rudp c1)\<lparr>d_sender := ss_sender ?w\<rparr>\<rparr>, ?w)"
    using c1(1) by (simp add: old_dispatch_all_snoc)
  moreover have "state_sent (c1\<lparr>oc_rudp := (oc_rudp c1)\<lparr>d_sender := ss_sender ?w\<rparr>\<rparr>) = state_sent c @ [(p, fd)]"
    using c1(3) q(2) by (simp add: state_sent_def)
  ultimately show ?thesis by blast
qed

text \<open>Announcements of one node with different nonces.\<close>

lemma demo_announcements:
  obtains P :: "nat \<Rightarrow> protopack" and R where "\<And>k. packtype (P k) = pt_code PACK_STATE" "\<And>k. unat (d_size (P k)) = STATE_REQUEST_SIZE"
    "\<And>k. state_rreceive demo_sodium (data (P k)) = Inr (0, Some (R k))" "inj_on R {..1016 :: nat}"
    "\<And>k. sr_uid (R k) = crypto_pubkey_to_uid demo_sodium (replicate 32 3)"
proof -
  have s: "id_pub Stating.demo_sign = so_sign_pub demo_sodium (id_sec Stating.demo_sign)" "length (id_pub Stating.demo_sign) = 32"
    by (simp_all add: Stating.demo_sign_def demo_sodium_def)
  have "\<forall>k :: nat. \<exists>q r. state_rreceive demo_sodium (state_bytes q) = Inr (0, Some r) \<and> sr_nonce r = of_nat k \<and>
      sr_uid r = crypto_pubkey_to_uid demo_sodium (replicate 32 3)"
  proof
    fix k :: nat
    show "\<exists>q r. state_rreceive demo_sodium (state_bytes q) = Inr (0, Some r) \<and> sr_nonce r = of_nat k \<and>
      sr_uid r = crypto_pubkey_to_uid demo_sodium (replicate 32 3)"
      using state_request_roundtrip [OF demo_sodium_ok _ _ s refl, of "[49, 46, 50]" "of_nat k" 9 7000]
      by (auto simp: Stating.demo_sign_def)
  qed
  then obtain Q R where r: "\<And>k. state_rreceive demo_sodium (state_bytes (Q k)) = Inr (0, Some (R k))"
    "\<And>k. sr_nonce (R k) = of_nat k" "\<And>k. sr_uid (R k) = crypto_pubkey_to_uid demo_sodium (replicate 32 3)" by metis
  have "j = k" if jk: "j \<le> 1016" "k \<le> 1016" "R j = R k" for j k
  proof -
    have "(of_nat j :: u32) = of_nat k" using jk(3) r(2) by metis
    then have "unat (of_nat j :: u32) = unat (of_nat k :: u32)" by simp
    with jk(1,2) show ?thesis by (simp add: unsigned_of_nat take_bit_nat_eq_self)
  qed
  then have "inj_on R {..1016}" by (auto simp: inj_on_def)
  with that [of "\<lambda>k. demo_packet\<lparr>packtype := pt_code PACK_STATE, data := state_bytes (Q k)\<rparr>" R] r show thesis
    by (simp add: demo_packet_def STATE_REQUEST_SIZE_def)
qed

text \<open>
  C34: a node with the earlier interface takes nothing of what the state server sends, although the server is built on the
  same interface: whatever packets a server that \<open>main\<close> has started gets, such a node refuses each state packet that it
  sends, and stays as it is.
\<close>

theorem old_node_deaf_to_server:
  assumes "state_server_main lib argv (soter2_intr_init na so cr keys sk st now zw junk) z mem threads =
      Inr (Server_Runs intr serv)"
  shows "case old_dispatch_all (w_handlers (oi_wtch intr)) ps (oi_ctx intr, serv) of
    Inl f \<Rightarrow> f = OutOfBounds
  | Inr (c, serv') \<Rightarrow> \<forall>(p, to) \<in> set (state_sent c). \<forall>na e from node. old_hnd_STATE na e p from node = Inr (-1, node)"
proof -
  note run = server_runs [OF assms]
  have "answers_sized (oi_ctx intr)" by (simp add: answers_sized_def state_sent_def run(4))
  note sized = answers_sized_from [OF this]
  have "old_hnd_STATE na' e p from node = Inr (-1, node)"
    if "old_dispatch_all (w_handlers (oi_wtch intr)) ps (oi_ctx intr, serv) = Inr (c, serv')" "(p, to) \<in> set (state_sent c)"
    for c serv' p to na' e "from" node
    using sized [OF that(1) [unfolded run(2)]] that(2) old_state_size by (fastforce simp: answers_sized_def)
  with server_dispatch_all_ok [OF init_server_ok [OF assms], of na z mem ps] show ?thesis
    unfolding run(2) by (fastforce split: sum.splits)
qed

theorem old_node_deaf_to_server_witness:
  "\<exists>intr serv ps c serv' p. state_server_main demo_lib6 [str ''server'', str ''10.0.0.7'', str ''9000''] demo_old
     (zero_request, demo_fd) (\<lambda>_. True) (0, 0, 0, 0) = Inr (Server_Runs intr serv) \<and>
     old_dispatch_all (w_handlers (oi_wtch intr)) ps (oi_ctx intr, serv) = Inr (c, serv') \<and> state_sent c = [(p, demo_fd)] \<and>
     (\<forall>na e from node. old_hnd_STATE na e p from node = Inr (-1, node))"
proof -
  obtain intr serv where run: "state_server_main demo_lib6 [str ''server'', str ''10.0.0.7'', str ''9000''] demo_old
     (zero_request, demo_fd) (\<lambda>_. True) (0, 0, 0, 0) = Inr (Server_Runs intr serv)" using demo_server by blast
  note r = server_runs [OF run [unfolded demo_old_def]]
  obtain P :: "nat \<Rightarrow> protopack" and R where p: "\<And>k. packtype (P k) = pt_code PACK_STATE" "\<And>k. unat (d_size (P k)) = STATE_REQUEST_SIZE"
    "\<And>k. state_rreceive demo_sodium (data (P k)) = Inr (0, Some (R k))" "inj_on R {..1016 :: nat}"
    "\<And>k. sr_uid (R k) = crypto_pubkey_to_uid demo_sodium (replicate 32 3)" using demo_announcements by blast
  have u: "crypto_pubkey_to_uid demo_sodium (replicate 32 3) \<noteq> 0" by code_simp
  have f: "filled R demo_fd (zero_request, demo_fd) 0 serv" using r(3) filled_init by auto
  have a: "state_rreceive (e_so demo_env) (data (P k)) = Inr (0, Some (R k))" for k using p(3) by (simp add: demo_env_def)
  let ?ps = "map (\<lambda>k. (P k, demo_fd, demo_env)) [0..<1017]"
  obtain c serv' q where q: "old_dispatch_all (w_handlers (oi_wtch intr)) ?ps (oi_ctx intr, serv) = Inr (c, serv')"
    "state_sent c = state_sent (oi_ctx intr) @ [(q, demo_fd)]"
    using server_answers [OF r(2) p(1,2) a p(4,5) u f] by blast
  have s: "state_sent c = [(q, demo_fd)]" using q(2) r(4) by (simp add: state_sent_def)
  from old_node_deaf_to_server [OF run [unfolded demo_old_def], of ?ps] q(1) s
  have "\<forall>na e from node. old_hnd_STATE na e q from node = Inr (-1, node)" by simp
  with run q(1) s show ?thesis by blast
qed

end
