(* ===== verification/Old_Cli.thy ===== *)
theory Old_Cli
  imports Old_Interface Cli
begin

text \<open>
  \<open>.old/oldcli/src/main.c\<close>: the earlier command line tool on the earlier interface. \<open>main\<close> is split where the threads
  of the interface come in: up to the start of the threads, and from the wait for a connection to the end. The two
  loops that exchange messages run over a tape of rounds; what the threads do to the interface between a send and the
  wait that follows it is a function in each round. \<open>scanf\<close> and \<open>sscanf\<close> are modelled as far as the two formats need
  them; variables that they leave alone are arguments. The printing and the sleeping are left out.

  The lemmas: what one node prints about itself is what another one reads as its address, UID and key; the messages of
  the raw exchange; and the tool frees its connection twice when it ends the regular way.
\<close>

subsection \<open>Reading numbers\<close>

text \<open>A conversion \<open>%u\<close> or \<open>%hu\<close>: the number, before it is stored, and the rest of the input.\<close>

definition scan_unsigned :: "bytes \<Rightarrow> (int \<times> bytes) option" where
  "scan_unsigned s =
     (let t = dropWhile isspace s;
          (neg, u) = (case t of b # bs \<Rightarrow> if b = 45 then (True, bs) else if b = 43 then (False, bs) else (False, t) | [] \<Rightarrow> (False, []));
          n = atoi_digits u 0
      in if takeWhile isdigit u = [] then None
         else Some (if 2 ^ 64 \<le> n then 2 ^ 64 - 1 else if neg then - n else n, dropWhile isdigit u))"

subsection \<open>What nodes tell each other\<close>

text \<open>
  \<open>scanf("%[^:]:%u:%s")\<close> into buffers of 16 and 256 bytes: the three variables afterwards, \<open>junk\<close> before. The network
  part of an address stops at a colon, so this reads IPv4 addresses only.
\<close>

definition scan_pinfo :: "bytes \<Rightarrow> bytes \<times> u32 \<times> bytes \<Rightarrow> fault + bytes \<times> u32 \<times> bytes" where
  "scan_pinfo inp junk =
     (let ip = takeWhile (\<lambda>b. b \<noteq> 58) inp; (_, port0, key0) = junk in
      if ip = [] then Inr junk
      else if 16 \<le> length ip then Inl OutOfBounds
      else
        case dropWhile (\<lambda>b. b \<noteq> 58) inp of
          [] \<Rightarrow> Inr (ip, port0, key0)
        | _ # rest \<Rightarrow>
            (case scan_unsigned rest of
               None \<Rightarrow> Inr (ip, port0, key0)
             | Some (n, rest) \<Rightarrow>
                 (case rest of
                    c # rest \<Rightarrow>
                      let key = takeWhile (\<lambda>b. \<not> isspace b) (dropWhile isspace rest) in
                      if c \<noteq> 58 \<or> key = [] then Inr (ip, word_of_int n, key0)
                      else if 256 \<le> length key then Inl OutOfBounds
                      else Inr (ip, word_of_int n, key)
                  | [] \<Rightarrow> Inr (ip, word_of_int n, key0))))"

text \<open>\<open>uid0\<close> is the variable that a failed decoding leaves alone; the address of the server of the peer is not set.\<close>

definition input_pinfo ::
  "sodium \<Rightarrow> lib6 \<Rightarrow> (bytes \<Rightarrow> bytes list option) \<Rightarrow> naddr_t \<Rightarrow> int \<Rightarrow> bytes \<times> u32 \<times> bytes \<Rightarrow> u32 \<Rightarrow> bytes \<Rightarrow> fault + peer_info" where
  "input_pinfo so lib dns junk_addr now junk uid0 inp =
     bind_fault (scan_pinfo inp junk) (\<lambda>(ip, port, pubkey_b64).
     let (pubkey, uid) =
           (case crypto_decode_pubkey_uid so (Some pubkey_b64) of (_, Some k) \<Rightarrow> k | (_, None) \<Rightarrow> (zeros 32, uid0)) in
     bind_fault (ln_uniq lib dns junk_addr ip (ucast port)) (\<lambda>addr.
     Inr \<lparr>pi_server = zeros 52, pi_state = PEER_ST_INITED, pi_UID = uid, pi_last_seen = word_of_int now,
          pi_pubkey = pubkey, pi_nfd = ln_netfdq lib addr, pi_ctx = 0\<rparr>))"

text \<open>The text that is returned; \<open>ok\<close> is whether there is memory for the encoded key, which the code does not test.\<close>

definition get_selfinfo :: "sodium \<Rightarrow> bool \<Rightarrow> 'x soter2_interface \<Rightarrow> fault + bytes" where
  "get_selfinfo so ok s =
     (let addr = us_addr (oi_sock s) in
      case crypto_encode_pubkey_uid so ok (Some (id_pub (oi_self_sign s))) (self_uid (oi_disp s)) of
        None \<Rightarrow> Inl NullDeref
      | Some b64 \<Rightarrow> Inr (take 511 (ln_gip addr @ [58] @ dec_nat (unat (ln_gport addr)) @ [58] @ b64)))"

subsection \<open>The start of the program\<close>

text \<open>
  What \<open>main\<close> meets: its arguments, the interface as it is initialised, the file of the key, the rounds of STUN, the
  random names of the state servers, uninitialised memory and the results of the thread starts.
\<close>

record old_cli_input =
  om_argv :: "bytes list"
  om_init :: "int \<times> unit soter2_interface option"
  om_so :: sodium
  om_lib :: lib6
  om_dns :: "bytes \<Rightarrow> bytes list option"
  om_opened :: bool
  om_written :: nat
  om_stored :: "bytes option"
  om_order :: "nat \<Rightarrow> nat list"
  om_ports :: "nat \<Rightarrow> nat \<Rightarrow> nat"
  om_stun :: "nat \<Rightarrow> nat \<Rightarrow> naddr_t \<Rightarrow> naddr_t \<Rightarrow> stun_io \<times> stun_io"
  om_rand :: "nat \<Rightarrow> int"
  om_addr :: naddr_t
  om_scan :: "nat \<Rightarrow> bytes \<times> u16"
  om_threads :: "int \<times> int \<times> int \<times> int"

datatype old_cli_result = OldCli_Exit int | OldCli_Runs bool "unit soter2_interface option"

definition old_stuns :: "stun_addr list" where
  "old_stuns = [\<lparr>uniaddr = str ''stun.sipnet.ru'', st_port = 3478\<rparr>, \<lparr>uniaddr = str ''stun.ekiga.net'', st_port = 3478\<rparr>]"

text \<open>The rounds of STUN with \<open>n\<close> left of five.\<close>

fun old_stun_rounds ::
  "old_cli_input \<Rightarrow> nat \<Rightarrow> nat_type \<Rightarrow> unit soter2_interface \<Rightarrow> fault + nat_type \<times> unit soter2_interface" where
  "old_stun_rounds i 0 nt s = Inr (nt, s)"
| "old_stun_rounds i (Suc n) nt s =
     (if nt \<noteq> NAT_ERROR then Inr (nt, s)
      else
        bind_fault (soter2_intr_STUN (om_lib i) (om_dns i) (om_addr i) (om_order i (4 - n)) (om_ports i (4 - n))
                      (om_stun i (4 - n)) s old_stuns) (\<lambda>(nt, s). old_stun_rounds i n nt s))"

text \<open>\<open>sscanf("%[^:]:%hu")\<close> of an argument into a buffer of 255 bytes.\<close>

definition scan_server :: "bytes \<Rightarrow> bytes \<times> u16 \<Rightarrow> fault + bytes \<times> u16" where
  "scan_server arg junk =
     (let ip = takeWhile (\<lambda>b. b \<noteq> 58) arg in
      if ip = [] then Inr junk
      else if 255 \<le> length ip then Inl OutOfBounds
      else
        case dropWhile (\<lambda>b. b \<noteq> 58) arg of
          [] \<Rightarrow> Inr (ip, snd junk)
        | _ # rest \<Rightarrow>
            (case scan_unsigned rest of
               None \<Rightarrow> Inr (ip, snd junk)
             | Some (n, _) \<Rightarrow> Inr (ip, word_of_int n)))"

fun old_add_servers ::
  "old_cli_input \<Rightarrow> nat \<Rightarrow> bytes list \<Rightarrow> unit soter2_interface option \<Rightarrow> fault + unit soter2_interface option" where
  "old_add_servers i k [] intr = Inr intr"
| "old_add_servers i k (arg # args) intr =
     (if arg \<noteq> [] \<and> hd arg = 45 then old_add_servers i (Suc k) args intr
      else
        bind_fault (scan_server arg (om_scan i k)) (\<lambda>(ip, port).
        bind_fault (ln_uniq (om_lib i) (om_dns i) (om_addr i) ip port) (\<lambda>addr.
        bind_fault (soter2_intr_stateconn (om_rand i k) addr 1 intr) (\<lambda>(_, intr).
        old_add_servers i (Suc k) args intr))))"

definition rele_only :: "bytes list \<Rightarrow> bool" where
  "rele_only argv \<longleftrightarrow> str ''-rele'' \<in> set (drop 1 argv)"

definition old_cli_main :: "old_cli_input \<Rightarrow> fault + old_cli_result" where
  "old_cli_main i =
     (let argv = om_argv i in
      if \<not> rele_only argv \<and> length argv < 3 then Inr (OldCli_Exit 1)
      else
        case om_init i of
          (r, None) \<Rightarrow> Inr (OldCli_Exit (-1))
        | (r, Some s) \<Rightarrow>
            if r < 0 then Inr (OldCli_Exit (-1))
            else
              let (r, s, _) = soter2_intr_upd_sign (om_so i) (om_opened i) (om_written i) s (om_stored i) in
              if r < 0 then Inr (OldCli_Exit (-1))
              else
                bind_fault (old_stun_rounds i 5 NAT_ERROR s) (\<lambda>(nt, s).
                if nt = NAT_ERROR then Inr (OldCli_Exit (-1))
                else
                  bind_fault (old_add_servers i 0 (drop 2 argv) (Some s)) (\<lambda>intr.
                  let (rl, rs, rw, rr) = om_threads i in
                  bind_fault (soter2_intr_run rl rs rw rr intr) (\<lambda>(r, intr).
                  if r < 0 then Inr (OldCli_Exit (-1)) else Inr (OldCli_Runs (rele_only argv) intr)))))"

subsection \<open>Exchanging messages\<close>

definition hello :: "nat \<Rightarrow> bytes" where
  "hello i = take 49 (str ''Hello '' @ dec_nat i)"

text \<open>The functions on the connection at the address \<open>a\<close>, which the threads may have freed.\<close>

definition on_conn ::
  "nat \<Rightarrow> (nnet_fd rudp_connection \<Rightarrow> nnet_fd pvd_sender \<Rightarrow> fault + 'r \<times> nnet_fd rudp_connection \<times> nnet_fd pvd_sender) \<Rightarrow>
   'x soter2_interface \<Rightarrow> fault + 'r \<times> 'x soter2_interface" where
  "on_conn a f s =
     (let d = oi_disp s in
      case heap d a of
        None \<Rightarrow> Inl UseAfterFree
      | Some c \<Rightarrow> bind_fault (f c (d_sender d)) (\<lambda>(r, c, snder).
          Inr (r, set_disp s (d\<lparr>heap := (heap d)(a \<mapsto> c), d_sender := snder\<rparr>))))"

text \<open>The loop that receives until there is nothing left.\<close>

function recv_all :: "'fd rudp_connection \<Rightarrow> protopack list \<times> 'fd rudp_connection" where
  "recv_all conn =
     (case soter2_irecv conn of
        (None, conn) \<Rightarrow> ([], conn)
      | (Some p, conn) \<Rightarrow> let (ps, conn) = recv_all conn in (p # ps, conn))"
  by pat_completeness auto
termination
  by (relation "measure (\<lambda>c. length (pkts_reordered c))")
    (auto simp: soter2_irecv_def rudp_conn_recv_def split: if_splits list.splits)

declare recv_all.simps [simp del]

text \<open>
  A round: the clock readings of the send, what the threads do before the wait, and whether \<open>errno\<close> is \<open>EAGAIN\<close> or
  \<open>EINTR\<close> if the wait fails.
\<close>

type_synonym 'x talk_round = "int \<times> int \<times> ('x soter2_interface \<Rightarrow> 'x soter2_interface) \<times> bool"

definition await_round :: "nat \<Rightarrow> 'x soter2_interface \<Rightarrow> fault + int \<times> 'x soter2_interface" where
  "await_round a = on_conn a (\<lambda>c snder. let (w, c) = rudp_conn_wait c in Inr (w, c, snder))"

definition read_round :: "nat \<Rightarrow> 'x soter2_interface \<Rightarrow> fault + protopack list \<times> 'x soter2_interface" where
  "read_round a = on_conn a (\<lambda>c snder. let (ps, c) = recv_all c in Inr (ps, c, snder))"

text \<open>\<open>None\<close>: the loop has not ended after these rounds.\<close>

fun raw_transport ::
  "'x talk_round list \<Rightarrow> nat \<Rightarrow> nat \<Rightarrow> 'x soter2_interface \<Rightarrow> (fault + 'x soter2_interface) option" where
  "raw_transport [] a i s = (if i < 20 then None else Some (Inr s))"
| "raw_transport ((t1, t2, threads, again) # rounds) a i s =
     (if \<not> i < 20 then Some (Inr s)
      else
        case bind_fault (on_conn a (\<lambda>c snder. soter2_isend t1 t2 c snder (hello i) (length (hello i))) s) (\<lambda>(_, s).
             await_round a (threads s)) of
          Inl f \<Rightarrow> Some (Inl f)
        | Inr (w, s) \<Rightarrow>
            if w = 0 then raw_transport rounds a i s
            else if w < 0 then (if again then raw_transport rounds a i s else Some (Inr s))
            else
              case read_round a s of
                Inl f \<Rightarrow> Some (Inl f)
              | Inr (ps, s) \<Rightarrow> raw_transport rounds a (i + length ps) s)"

text \<open>
  The same through a session. The results of sealing and opening are not tested: \<open>junk\<close> is what is sent when nothing was
  sealed.
\<close>

fun open_all :: "sodium \<Rightarrow> e2ee_connection \<Rightarrow> protopack list \<Rightarrow> e2ee_connection" where
  "open_all so econn [] = econn"
| "open_all so econn (p # ps) =
     (let (_, _, econn) = e2ee_decrypt so econn (take (unat (d_size p)) (data p)) in open_all so econn ps)"

fun e2ee_transport ::
  "sodium \<Rightarrow> bytes \<Rightarrow> 'x talk_round list \<Rightarrow> nat \<Rightarrow> e2ee_connection \<Rightarrow> nat \<Rightarrow> 'x soter2_interface \<Rightarrow>
   (fault + e2ee_connection \<times> 'x soter2_interface) option" where
  "e2ee_transport so junk [] a econn i s = (if i < 20 then None else Some (Inr (econn, s)))"
| "e2ee_transport so junk ((t1, t2, threads, again) # rounds) a econn i s =
     (if \<not> i < 20 then Some (Inr (econn, s))
      else
        let (_, enced, econn) = e2ee_encrypt so econn (hello i);
            enced = (case enced of None \<Rightarrow> junk | Some e \<Rightarrow> e) in
        case bind_fault (on_conn a (\<lambda>c snder. soter2_isend t1 t2 c snder enced (length enced)) s) (\<lambda>(_, s).
             await_round a (threads s)) of
          Inl f \<Rightarrow> Some (Inl f)
        | Inr (w, s) \<Rightarrow>
            if w = 0 then e2ee_transport so junk rounds a econn i s
            else if w < 0 then (if again then e2ee_transport so junk rounds a econn i s else Some (Inr (econn, s)))
            else
              case read_round a s of
                Inl f \<Rightarrow> Some (Inl f)
              | Inr (ps, s) \<Rightarrow> e2ee_transport so junk rounds a (open_all so econn ps) (i + length ps) s)"

subsection \<open>The end of the program\<close>

text \<open>
  From the wait for a connection on; \<open>None\<close>: it still waits or exchanges messages. A program in the mode \<open>-rele\<close> goes
  from \<open>old_cli_main\<close> to the last call.
\<close>

definition old_cli_end ::
  "(old_state_system \<Rightarrow> old_state_system) \<Rightarrow> 'x soter2_interface \<Rightarrow> fault + old_cli_result" where
  "old_cli_end st_end s = bind_fault (soter2_intr_end st_end (Some s)) (\<lambda>_. Inr (OldCli_Exit 0))"

definition conn_at :: "nat \<Rightarrow> 'x soter2_interface \<Rightarrow> fault + nnet_fd rudp_connection" where
  "conn_at a s = (case heap (oi_disp s) a of None \<Rightarrow> Inl UseAfterFree | Some c \<Rightarrow> Inr c)"

definition old_cli_client ::
  "(old_state_system \<Rightarrow> old_state_system) \<Rightarrow> 'x talk_round list \<Rightarrow> 'x soter2_interface \<Rightarrow> (fault + old_cli_result) option" where
  "old_cli_client st_end rounds s =
     (case soter2_intr_wait_conn True (Some s) of
        Inr ((r, Some a), Some s) \<Rightarrow>
          if r < 0 then Some (Inr (OldCli_Exit (-1)))
          else
            (case bind_fault (conn_at a s) (\<lambda>c. old_ctx (old_db (\<lambda>db. peers_db_get db (c_uid c))) s) of
               Inl f \<Rightarrow> Some (Inl f)
             | Inr (_, s) \<Rightarrow>
                 (case raw_transport rounds a 0 s of
                    None \<Rightarrow> None
                  | Some m \<Rightarrow> Some
                      (bind_fault m (\<lambda>s.
                       bind_fault (conn_at a s) (\<lambda>c.
                       bind_fault (close_conn (c_uid c) s) (\<lambda>(_, s). old_cli_end st_end s))))))
      | Inr ((r, _), _) \<Rightarrow> if r < 0 then Some (Inr (OldCli_Exit (-1))) else None
      | Inl f \<Rightarrow> Some (Inl f))"

subsection \<open>What nodes tell each other, read back\<close>

lemma scan_dec:
  assumes "n < 2 ^ 64" and "rest = [] \<or> \<not> isdigit (hd rest)"
  shows "scan_unsigned (dec_nat n @ rest) = Some (int n, rest)"
proof -
  obtain b bs where d: "dec_nat n = b # bs" "isdigit b" using dec_nat_head by blast
  have "takeWhile isdigit (dec_nat n @ rest) = dec_nat n" "dropWhile isdigit (dec_nat n @ rest) = rest"
    using dec_nat_digits [of n] assms(2) by (cases rest; simp add: takeWhile_append2 dropWhile_append2)+
  moreover have "atoi_digits (dec_nat n @ rest) 0 = int n"
    using atoi_digits_append [OF dec_nat_digits [of n], of rest 0] assms(2)
    by (cases rest) (simp_all add: atoi_digits_dec)
  ultimately show ?thesis
    using d digit_not_space [OF d(2)] assms(1) by (simp add: scan_unsigned_def)
qed

lemma ntop4_no_colon: "58 \<notin> set (inet_ntop4 ip)"
proof -
  have "58 \<notin> set (dec_octet b)" for b
  proof -
    have "digit n \<noteq> 58" if "n < 10" for n
    proof -
      have "isdigit (digit n)" using that by (rule isdigit_digit)
      then show ?thesis by (auto simp: isdigit_def)
    qed
    moreover have "unat b div 100 < 10" using unsigned_less [of b, where 'a = nat] by simp
    ultimately show ?thesis by (auto simp: dec_octet_def Let_def)
  qed
  then show ?thesis by (cases ip rule: inet_ntop4.cases) simp_all
qed

lemma ntop4_nonempty: "length ip = 4 \<Longrightarrow> inet_ntop4 ip \<noteq> []"
  by (cases ip rule: inet_ntop4.cases) simp_all

text \<open>The line of a node, with whatever ends the line.\<close>

lemma scan_line:
  assumes "length ip = 4" and "\<forall>b \<in> set tok. \<not> isspace b" and "tok \<noteq> []" and "length tok < 256" and "rest = [] \<or> isspace (hd rest)"
  shows "scan_pinfo (inet_ntop4 ip @ [58] @ dec_nat (unat (port :: u16)) @ [58] @ tok @ rest) junk =
    Inr (inet_ntop4 ip, ucast port, tok)"
proof -
  let ?inp = "inet_ntop4 ip @ [58] @ dec_nat (unat port) @ [58] @ tok @ rest"
  have h: "takeWhile (\<lambda>b. b \<noteq> 58) ?inp = inet_ntop4 ip"
    "dropWhile (\<lambda>b. b \<noteq> 58) ?inp = 58 # dec_nat (unat port) @ [58] @ tok @ rest"
  proof -
    have "\<forall>b \<in> set (inet_ntop4 ip). b \<noteq> 58" using ntop4_no_colon by blast
    then show "takeWhile (\<lambda>b. b \<noteq> 58) ?inp = inet_ntop4 ip"
      "dropWhile (\<lambda>b. b \<noteq> 58) ?inp = 58 # dec_nat (unat port) @ [58] @ tok @ rest"
      by (simp_all add: takeWhile_append2 dropWhile_append2)
  qed
  have n: "scan_unsigned (dec_nat (unat port) @ [58] @ tok @ rest) = Some (int (unat port), 58 # tok @ rest)"
    using scan_dec [of "unat port" "[58] @ tok @ rest"] unsigned_less [of port, where 'a = nat] by (simp add: isdigit_def)
  have k: "takeWhile (\<lambda>b. \<not> isspace b) (dropWhile isspace (tok @ rest)) = tok"
  proof -
    obtain b bs where "tok = b # bs" using assms(3) by (cases tok) auto
    then show ?thesis using assms(2,5) by (cases rest) (simp_all add: takeWhile_append2)
  qed
  have w: "word_of_int (int (unat port)) = (ucast port :: u32)" by (simp add: unsigned_ucast_eq)
  show ?thesis
    using length_inet_ntop4 [of ip] ntop4_nonempty [OF assms(1)] assms(3,4)
    by (simp add: scan_pinfo_def Let_def split_beta h n k w del: append_Cons)
qed

subsection \<open>The end\<close>

text \<open>
  When the exchange has ended and the connection is still there, as the threads of the interface have made it, closing it
  frees it twice.
\<close>

lemma old_cli_frees_twice:
  assumes "soter2_intr_wait_conn True (Some s) = Inr ((1, Some a), Some s1)" and "conn_at a s1 = Inr c"
    and "old_ctx (old_db (\<lambda>db. peers_db_get db (c_uid c))) s1 = Inr (r, s2)" and "raw_transport rounds a 0 s2 = Some (Inr s3)"
    and "conn_at a s3 = Inr c'" and "disp_ok (oi_disp s3)" and "\<not> mtx (oi_active_conns s3)"
    and "conns (oi_disp s3) (c_uid c') = Some (Some a)" and "dyn_table_get (obj (oi_active_conns s3)) (c_uid c') = Some (Some a)"
  shows "old_cli_client st_end rounds s = Some (Inl UseAfterFree)"
  using close_conn_twice [OF assms(6-9)] by (simp add: old_cli_client_def assms(1-5))

subsection \<open>Properties\<close>

text \<open>
  C36: introduction by hand: when a node has a public IPv4 address, a user who types the text that it shows about itself into
  another node, with the end of the line, enters a peer with its UID, its key and its address.
\<close>

theorem selfinfo_roundtrip:
  assumes "sodium_ok so" and "length ip = 4" and "us_addr (oi_sock s) = na4 (inet_ntop4 ip) port"
    and "length (id_pub (oi_self_sign s)) = 32"
    and "crypto_encode_pubkey_uid so True (Some (id_pub (oi_self_sign s))) (self_uid (oi_disp s)) = Some tok"
    and "\<forall>b \<in> set tok. \<not> isspace b" and "tok \<noteq> []" and "length tok < 256"
  shows "\<exists>shown. get_selfinfo so True s = Inr shown \<and>
    (\<forall>lib dns ja now junk uid0. input_pinfo so lib dns ja now junk uid0 (shown @ [10]) =
       Inr \<lparr>pi_server = zeros 52, pi_state = PEER_ST_INITED, pi_UID = self_uid (oi_disp s), pi_last_seen = word_of_int now,
            pi_pubkey = id_pub (oi_self_sign s), pi_nfd = ln_netfdq lib (us_addr (oi_sock s)), pi_ctx = 0\<rparr>)"
proof -
  let ?shown = "inet_ntop4 ip @ [58] @ dec_nat (unat port) @ [58] @ tok"
  have port: "unat port < 10 ^ 5" using unsigned_less [of port, where 'a = nat] by simp
  have "length ?shown \<le> 511"
    using length_inet_ntop4 [of ip] length_dec_nat [OF port] assms(8) by simp
  moreover have "ln_gip (us_addr (oi_sock s)) = inet_ntop4 ip" "ln_gport (us_addr (oi_sock s)) = port"
    using na4_fields [of "inet_ntop4 ip" port] length_inet_ntop4 [of ip] inet_ntop4_nonzero [of ip]
    by (simp_all add: assms(3) ln_gip_def ln_gport_def)
  ultimately have "get_selfinfo so True s = Inr ?shown" by (simp add: get_selfinfo_def assms(5))
  moreover have "crypto_decode_pubkey_uid so (Some tok) = (0, Some (id_pub (oi_self_sign s), self_uid (oi_disp s)))"
    using crypto_pubkey_uid_roundtrip [OF assms(1,4), of "self_uid (oi_disp s)"] assms(5) by auto
  moreover have "(ucast (ucast port :: u32) :: u16) = port" by (rule bit_word_eqI) (simp add: bit_simps)
  ultimately show ?thesis
    using scan_line [OF assms(2,6-8), of "[10]" port]
    by (auto simp: input_pinfo_def isspace_def ln_uniq_def ln_uni_ntop4 [OF assms(2)] assms(3))
qed

theorem selfinfo_roundtrip_witness:
  "\<exists>s shown. (demo_old :: int \<times> unit soter2_interface option) = (0, Some s) \<and>
     get_selfinfo demo_sodium True ((set_disp s ((oi_disp s)\<lparr>self_uid := 0x01020304\<rparr>))\<lparr>
       oi_self_sign := (oi_self_sign s)\<lparr>id_pub := replicate 32 7\<rparr>,
       oi_sock := (oi_sock s)\<lparr>us_addr := na4 (inet_ntop4 [10, 0, 0, 7]) 9000\<rparr>\<rparr>) = Inr shown \<and>
     input_pinfo demo_sodium demo_lib6 (\<lambda>_. None) (zeros 52) 5 ([], 0, []) 0 (shown @ [10]) =
       Inr \<lparr>pi_server = zeros 52, pi_state = PEER_ST_INITED, pi_UID = 0x01020304, pi_last_seen = 5,
            pi_pubkey = replicate 32 7, pi_nfd = ln_netfdq demo_lib6 (na4 (inet_ntop4 [10, 0, 0, 7]) 9000), pi_ctx = 0\<rparr>"
proof -
  obtain s :: "unit soter2_interface" where s: "demo_old = (0, Some s)" by (rule demo_old_ok)
  let ?s = "(set_disp s ((oi_disp s)\<lparr>self_uid := 0x01020304\<rparr>))\<lparr>
       oi_self_sign := (oi_self_sign s)\<lparr>id_pub := replicate 32 7\<rparr>,
       oi_sock := (oi_sock s)\<lparr>us_addr := na4 (inet_ntop4 [10, 0, 0, 7]) 9000\<rparr>\<rparr>"
  have sel: "us_addr (oi_sock ?s) = na4 (inet_ntop4 [10, 0, 0, 7]) 9000" "id_pub (oi_self_sign ?s) = replicate 32 7"
    "self_uid (oi_disp ?s) = 0x01020304" by (simp_all add: set_disp_def)
  have tok: "\<forall>b \<in> set demo_token. \<not> isspace b" "demo_token \<noteq> []" "length demo_token < 256"
    by (simp_all add: demo_token_def isspace_def word_le_nat_alt)
  show ?thesis
    using selfinfo_roundtrip [of demo_sodium "[10, 0, 0, 7]" ?s 9000 demo_token, OF demo_sodium_ok] demo_token_encodes tok
    unfolding sel by (fastforce simp: s)
qed

end
