(* ===== verification/Onion.thy ===== *)
theory Onion
  imports E2ee
begin

text \<open>
  \<open>.old/onion/src/packets.c\<close>: the packets of the onion routing that was begun, one cell of 1200 bytes with its circuit
  and command. A structure is sent as its memory image, with the two bytes between \<open>d_size\<close> and \<open>circut_uid\<close> that
  the alignment leaves free. A pointer that may be \<open>NULL\<close> is an option. Writing a packet copies only \<open>d_size\<close> bytes:
  the rest of the cell is what the structure held before.

  The lemmas: what is read back is what was written; a packet fits the encrypted packet that is to carry it, so that the
  assertion holds; and the cells that one end makes arrive at the other end of an encrypted connection in order, each
  with the data that was put in, and with the end of the cell before it.
\<close>

definition MAX_ONION_PACK_SIZE :: nat where
  "MAX_ONION_PACK_SIZE = UDP_MTU - PROTOCOL_OVERHEAD - E2EE_OVERHEAD"

definition MAX_ONION_CELL_SIZE :: nat where
  "MAX_ONION_CELL_SIZE = 1200"

datatype onion_cmd =
  ONION_CMD_CREATE | ONION_CMD_EXTEND | ONION_CMD_CLOSE | ONION_CMD_DATA | ONION_CMD_CREATED | ONION_CMD_EXTENDED

text \<open>In memory a command is a word, which holds any value after it was received.\<close>

fun onion_code :: "onion_cmd \<Rightarrow> u32" where
  "onion_code ONION_CMD_CREATE = 0"
| "onion_code ONION_CMD_EXTEND = 1"
| "onion_code ONION_CMD_CLOSE = 2"
| "onion_code ONION_CMD_DATA = 3"
| "onion_code ONION_CMD_CREATED = 4"
| "onion_code ONION_CMD_EXTENDED = 5"

record onion_packet =
  on_cell :: bytes
  on_d_size :: u16
  on_gap :: bytes
  circut_uid :: u32
  on_cmd :: u32

definition ONION_PACKET_SIZE :: nat where
  "ONION_PACKET_SIZE = MAX_ONION_CELL_SIZE + 12"

definition onion_bytes :: "onion_packet \<Rightarrow> bytes" where
  "onion_bytes p = on_cell p @ le16 (on_d_size p) @ on_gap p @ le32 (circut_uid p) @ le32 (on_cmd p)"

definition onion_of_bytes :: "bytes \<Rightarrow> onion_packet" where
  "onion_of_bytes b =
     \<lparr>on_cell = take 1200 b, on_d_size = of_le16 (drop 1200 b), on_gap = take 2 (drop 1202 b),
      circut_uid = of_le32 (drop 1204 b), on_cmd = of_le32 (drop 1208 b)\<rparr>"

definition onion_pack_construct ::
  "onion_packet option \<Rightarrow> bytes option \<Rightarrow> u16 \<Rightarrow> u32 \<Rightarrow> onion_cmd \<Rightarrow> fault + int \<times> onion_packet option" where
  "onion_pack_construct out dat n uid cmd =
     (case (out, dat) of
        (Some p, Some dat) \<Rightarrow>
          if MAX_ONION_CELL_SIZE < unat n then Inr (-1, out)
          else if length dat < unat n then Inl OutOfBounds
          else
            let p = p\<lparr>on_cmd := onion_code cmd, on_d_size := n, circut_uid := uid,
                      on_cell := take (unat n) dat @ drop (unat n) (on_cell p)\<rparr> in
            if \<not> ONION_PACKET_SIZE \<le> MAX_ONION_PACK_SIZE then Inl AssertFail else Inr (0, Some p)
      | _ \<Rightarrow> Inr (-1, out))"

text \<open>\<open>outgoing\<close> is whether there is a buffer; the second component is what is written to it.\<close>

definition onion_pack_serial :: "onion_packet option \<Rightarrow> bool \<Rightarrow> int \<times> bytes option" where
  "onion_pack_serial inp outgoing =
     (case inp of
        Some p \<Rightarrow> if outgoing then (0, Some (onion_bytes p)) else (-1, None)
      | None \<Rightarrow> (-1, None))"

definition onion_pack_deserial ::
  "onion_packet option \<Rightarrow> bytes option \<Rightarrow> fault + int \<times> onion_packet option" where
  "onion_pack_deserial out incoming =
     (case (out, incoming) of
        (Some _, Some b) \<Rightarrow>
          if length b < ONION_PACKET_SIZE then Inl OutOfBounds else Inr (0, Some (onion_of_bytes b))
      | _ \<Rightarrow> Inr (-1, out))"

subsection \<open>Lemmas\<close>

definition onion_ok :: "onion_packet \<Rightarrow> bool" where
  "onion_ok p \<longleftrightarrow> length (on_cell p) = MAX_ONION_CELL_SIZE \<and> length (on_gap p) = 2"

lemma length_onion_bytes [simp]: "onion_ok p \<Longrightarrow> length (onion_bytes p) = ONION_PACKET_SIZE"
  by (simp add: onion_ok_def onion_bytes_def ONION_PACKET_SIZE_def)

lemma onion_of_onion_bytes [simp]: "onion_ok p \<Longrightarrow> onion_of_bytes (onion_bytes p) = p"
  by (simp add: onion_of_bytes_def onion_bytes_def onion_ok_def MAX_ONION_CELL_SIZE_def
      del: of_le16.simps of_le32.simps)

lemma onion_fits [simp]: "ONION_PACKET_SIZE \<le> MAX_ONION_PACK_SIZE"
  by (simp add: ONION_PACKET_SIZE_def MAX_ONION_PACK_SIZE_def MAX_ONION_CELL_SIZE_def UDP_MTU_def PROTOCOL_OVERHEAD_def
      E2EE_OVERHEAD_def AEAD_ABYTES_def)

text \<open>The cells that one end makes in one structure: the data, its size, the circuit and the command of each.\<close>

fun onion_cells :: "onion_packet \<Rightarrow> (bytes \<times> u16 \<times> u32 \<times> onion_cmd) list \<Rightarrow> fault + onion_packet list" where
  "onion_cells p [] = Inr []"
| "onion_cells p ((dat, n, uid, cmd) # ms) =
     bind_fault (onion_pack_construct (Some p) (Some dat) n uid cmd) (\<lambda>(_, p).
     case p of
       None \<Rightarrow> Inl NullDeref
     | Some p \<Rightarrow> bind_fault (onion_cells p ms) (\<lambda>ps. Inr (p # ps)))"

definition onion_carries :: "bytes \<times> u16 \<times> u32 \<times> onion_cmd \<Rightarrow> onion_packet \<Rightarrow> onion_packet \<Rightarrow> bool" where
  "onion_carries m prev q \<longleftrightarrow>
     (case m of (dat, n, uid, cmd) \<Rightarrow>
        on_d_size q = n \<and> circut_uid q = uid \<and> on_cmd q = onion_code cmd \<and>
        on_cell q = take (unat n) dat @ drop (unat n) (on_cell prev))"

lemma onion_constructed:
  assumes "onion_ok p" and "unat n \<le> MAX_ONION_CELL_SIZE" and "unat n \<le> length dat"
  obtains q where "onion_pack_construct (Some p) (Some dat) n uid cmd = Inr (0, Some q)" "onion_ok q"
    "onion_carries (dat, n, uid, cmd) p q"
  using assms by (auto simp: onion_pack_construct_def onion_ok_def onion_carries_def)

lemma onion_cells_ok:
  assumes "onion_ok p" and "\<forall>(dat, n, _) \<in> set ms. unat n \<le> MAX_ONION_CELL_SIZE \<and> unat n \<le> length dat"
  shows "\<exists>ps. onion_cells p ms = Inr ps \<and> length ps = length ms \<and> (\<forall>q \<in> set ps. onion_ok q) \<and>
    (\<forall>i < length ms. onion_carries (ms ! i) ((p # ps) ! i) (ps ! i))"
  using assms
proof (induction ms arbitrary: p)
  case (Cons m ms)
  obtain dat n uid cmd where m: "m = (dat, n, uid, cmd)" by (cases m)
  obtain q where q: "onion_pack_construct (Some p) (Some dat) n uid cmd = Inr (0, Some q)" "onion_ok q"
      "onion_carries m p q"
    using Cons.prems onion_constructed [of p n dat uid cmd] by (auto simp: m)
  from Cons.IH [OF q(2)] Cons.prems(2) obtain ps where "onion_cells q ms = Inr ps" "length ps = length ms"
    "\<forall>x \<in> set ps. onion_ok x" "\<forall>i < length ms. onion_carries (ms ! i) ((q # ps) ! i) (ps ! i)" by auto
  with q show ?case
    by (intro exI [of _ "q # ps"]) (auto simp: m less_Suc_eq_0_disj)
qed simp

subsection \<open>Properties\<close>

text \<open>
  C37: onion cells over an encrypted connection: the cells that one end makes, one after the other in one structure, and
  sends among any packets that others put in or that go the other way, are read at the other end in order, each with
  its size, circuit, command and data; behind the data a cell carries what the cell before it had there.
\<close>

theorem onion_cells_relayed:
  assumes "sodium_ok so" and "e2ee_paired a b" and "onion_ok p" and "onion_ok mem"
    and "\<forall>(dat, n, _) \<in> set ms. unat n \<le> MAX_ONION_CELL_SIZE \<and> unat n \<le> length dat"
  shows "\<exists>ps wires. onion_cells p ms = Inr ps \<and> map (\<lambda>q. onion_pack_serial (Some q) True) ps = map (\<lambda>w. (0, Some w)) wires \<and>
    (\<forall>es. concat (map said_a es) = wires \<and> (\<forall>e \<in> set es. (\<forall>m. e \<noteq> AtoB m) \<longrightarrow> event_ok so (sk_rx (ec_skeys a)) (sk_rx (ec_skeys b)) e) \<longrightarrow>
       fst (e2ee_talk so a b es) = wires) \<and>
    map (\<lambda>w. onion_pack_deserial (Some mem) (Some w)) wires = map (\<lambda>q. Inr (0, Some q)) ps \<and>
    length ps = length ms \<and> (\<forall>i < length ms. onion_carries (ms ! i) ((p # ps) ! i) (ps ! i))"
proof -
  obtain ps where ps: "onion_cells p ms = Inr ps" "length ps = length ms" "\<forall>q \<in> set ps. onion_ok q"
    "\<forall>i < length ms. onion_carries (ms ! i) ((p # ps) ! i) (ps ! i)"
    using onion_cells_ok [OF assms(3,5)] by blast
  let ?wires = "map onion_bytes ps"
  have "length (onion_bytes q) \<le> E2EE_MAX" if "q \<in> set ps" for q
    using ps(3) that onion_fits by (auto simp: E2EE_MAX_def MAX_ONION_PACK_SIZE_def)
  then have small: "length w \<le> E2EE_MAX" if "w \<in> set ?wires" for w using that by auto
  have "fst (e2ee_talk so a b es) = ?wires"
    if es: "concat (map said_a es) = ?wires"
      "\<forall>e \<in> set es. (\<forall>m. e \<noteq> AtoB m) \<longrightarrow> event_ok so (sk_rx (ec_skeys a)) (sk_rx (ec_skeys b)) e" for es
  proof -
    have "event_ok so (sk_rx (ec_skeys a)) (sk_rx (ec_skeys b)) e" if "e \<in> set es" for e
    proof (cases e)
      case (AtoB m)
      with that have "m \<in> set (concat (map said_a es))" by force
      then show ?thesis using small [of m] by (simp add: es(1) AtoB del: set_map)
    qed (use that es(2) in auto)
    then show ?thesis using e2ee_talk_paired [OF assms(1,2), of es] es(1) by simp
  qed
  with ps show ?thesis
    by (intro exI [of _ ps] exI [of _ ?wires]) (simp add: onion_pack_serial_def onion_pack_deserial_def comp_def)
qed

definition demo_cell :: onion_packet where
  "demo_cell = \<lparr>on_cell = replicate 1200 7, on_d_size = 0, on_gap = [0, 0], circut_uid = 0, on_cmd = 0\<rparr>"

definition demo_onion_end :: "bytes \<Rightarrow> bytes \<Rightarrow> e2ee_connection" where
  "demo_onion_end rx tx = demo_conn\<lparr>hstate := E2EE_HANDSHAKE_ENDED, ec_skeys := \<lparr>sk_rx = rx, sk_tx = tx\<rparr>\<rparr>"

theorem onion_cells_relayed_witness:
  "\<exists>w1 w2 p1 p2.
     fst (e2ee_talk demo_aead (demo_onion_end [1] [2]) (demo_onion_end [2] [1]) [AtoB w1, IntoB [66], BtoA [9], AtoB w2]) = [w1, w2] \<and>
     onion_pack_deserial (Some demo_cell) (Some w1) = Inr (0, Some p1) \<and>
     onion_pack_deserial (Some demo_cell) (Some w2) = Inr (0, Some p2) \<and>
     take 3 (on_cell p1) = [10, 11, 12] \<and> take 3 (on_cell p2) = [20, 11, 12] \<and> on_d_size p2 = 1"
proof -
  let ?a = "demo_onion_end [1] [2]" and ?b = "demo_onion_end [2] [1]"
  let ?ms = "[([10, 11, 12], 3, 1, ONION_CMD_DATA), ([20], 1, 1, ONION_CMD_CLOSE)] :: (bytes \<times> u16 \<times> u32 \<times> onion_cmd) list"
  have ends: "e2ee_paired ?a ?b" by (simp add: e2ee_paired_def demo_onion_end_def demo_conn_def e2ee_conn_end_def)
  have ok: "onion_ok demo_cell" by (simp add: onion_ok_def demo_cell_def MAX_ONION_CELL_SIZE_def)
  have fits: "\<forall>(dat, n, _) \<in> set ?ms. unat n \<le> MAX_ONION_CELL_SIZE \<and> unat n \<le> length dat"
    by (simp add: MAX_ONION_CELL_SIZE_def)
  have f: "foreign demo_aead k [66]" for k by (simp add: foreign_def demo_aead_def numeral_eq_Suc)
  obtain ps wires where t: "map (\<lambda>q. onion_pack_serial (Some q) True) ps = map (\<lambda>w. (0, Some w)) wires"
    "\<forall>es. concat (map said_a es) = wires \<and> (\<forall>e \<in> set es. (\<forall>m. e \<noteq> AtoB m) \<longrightarrow> event_ok demo_aead (sk_rx (ec_skeys ?a)) (sk_rx (ec_skeys ?b)) e) \<longrightarrow>
       fst (e2ee_talk demo_aead ?a ?b es) = wires"
    "map (\<lambda>w. onion_pack_deserial (Some demo_cell) (Some w)) wires = map (\<lambda>q. Inr (0, Some q)) ps"
    "length ps = 2" "\<forall>i < 2. onion_carries (?ms ! i) ((demo_cell # ps) ! i) (ps ! i)"
    using onion_cells_relayed [OF demo_aead_ok ends ok ok fits] by auto
  from t(4) obtain p1 p2 where ps: "ps = [p1, p2]" by (auto simp: numeral_2_eq_2 length_Suc_conv)
  with t(1) obtain w1 w2 where w: "wires = [w1, w2]" by (auto simp: map_eq_Cons_conv Cons_eq_map_conv)
  have "fst (e2ee_talk demo_aead ?a ?b [AtoB w1, IntoB [66], BtoA [9], AtoB w2]) = [w1, w2]"
    using t(2) [THEN spec, of "[AtoB w1, IntoB [66], BtoA [9], AtoB w2]"] f
    by (simp add: w E2EE_MAX_def UDP_MTU_def PROTOCOL_OVERHEAD_def E2EE_OVERHEAD_def AEAD_ABYTES_def del: e2ee_talk.simps)
  moreover have "onion_carries (?ms ! 0) demo_cell p1" "onion_carries (?ms ! 1) p1 p2"
    using t(5) [THEN spec, of 0] t(5) [THEN spec, of 1] by (simp_all add: ps)
  ultimately show ?thesis
    using t(3) by (intro exI [of _ w1] exI [of _ w2] exI [of _ p1] exI [of _ p2])
      (simp add: ps w onion_carries_def del: e2ee_talk.simps)
qed

end
