(* ===== verification/Samples.thy ===== *)
theory Samples
  imports Quic Socks5 Cli
begin

text \<open>
  The sample programs on the libraries: the two ends of \<open>code/quic/src\<close>, the proxy \<open>code/quic/src/socks5_test.c\<close> and the
  server \<open>code/uhttp/src/server.c\<close>. What the daemon of a QUIC program does in the background is the list of events
  between two steps of \<open>main\<close>; results of the programs that they do not look at are dropped as there.

  The lemmas: a greeting that goes from the QUIC client to the server comes back as it was; the proxy moves what it reads
  to the other side in order, but loses what it has read when the other side cannot take it at once; the server answers
  every request for its root.
\<close>

subsection \<open>QUIC\<close>

text \<open>What is handed to the library by \<open>quic_send\<close>; \<open>ret\<close> is its result. The session must not be dangling.\<close>

definition sample_send ::
  "int \<Rightarrow> session_ptr \<Rightarrow> quic_pkt \<Rightarrow> quic_core \<Rightarrow> fault + (nat \<times> quic_pkt) option \<times> quic_core" where
  "sample_send ret session pkt core =
     (if session = None then Inr (None, core)
      else bind_fault (deref core session) (\<lambda>(_, s). Inr (Some (qs_cnx s, pkt), snd (quic_send ret core))))"

definition wait_for_session :: "quic_core \<Rightarrow> fault + session_ptr \<times> quic_core" where
  "wait_for_session core =
     bind_fault (quic_wait_session core) (\<lambda>(_, p, core). Inr (case p of None \<Rightarrow> None | Some p \<Rightarrow> p, core))"

definition stop_and_clear :: "quic_core \<Rightarrow> (fault + quic_pkt list \<times> quic_core) option" where
  "stop_and_clear core = quic_core_clear (snd (quic_core_stop core))"

text \<open>
  \<open>core\<close> and \<open>pkt\<close> are uninitialised memory, \<open>es1\<close> and \<open>es2\<close> the events until the session and until the packet is waited
  for. The result is what was sent and the packets that are freed at the end.
\<close>

definition quic_min_server ::
  "quic_pkt \<Rightarrow> session_ptr \<Rightarrow> quic_core \<Rightarrow> quic_pkt \<Rightarrow> bool \<Rightarrow> quic_event list \<Rightarrow> quic_event list \<Rightarrow> int \<Rightarrow>
   (fault + (nat \<times> quic_pkt) option \<times> quic_pkt list) option" where
  "quic_min_server zp zs core pkt ctx es1 es2 ret =
     (case
        bind_fault (quic_events zp zs es1 (snd (quic_serv_init True ctx core))) (\<lambda>core.
        bind_fault (wait_for_session core) (\<lambda>(session, core).
        bind_fault (quic_events zp zs es2 core) (\<lambda>core.
        bind_fault (quic_recv session (snd (quic_wait_incpkt core))) (\<lambda>(r, core).
        bind_fault (sample_send ret session (case r of None \<Rightarrow> pkt | Some p \<Rightarrow> p) core) (\<lambda>(out, core).
        Inr (out, snd (quic_core_wait_done (-1) core))))))) of
        Inl f \<Rightarrow> Some (Inl f)
      | Inr (out, core) \<Rightarrow> map_option (\<lambda>m. bind_fault m (\<lambda>(freed, _). Inr (out, freed))) (stop_and_clear core))"

definition greeting :: bytes where
  "greeting = str ''Hello from client''"

text \<open>The client, with the results of starting the connection; the second component is what was received.\<close>

definition quic_min_client ::
  "quic_pkt \<Rightarrow> session_ptr \<Rightarrow> quic_core \<Rightarrow> bool \<Rightarrow> nat option \<Rightarrow> int \<Rightarrow> quic_event list \<Rightarrow> quic_event list \<Rightarrow> int \<Rightarrow>
   (fault + (nat \<times> quic_pkt) option \<times> quic_pkt \<times> quic_pkt list) option" where
  "quic_min_client zp zs core ctx cnx started es1 es2 ret =
     (case
        bind_fault (quic_events zp zs es1 (snd (quic_cli_start cnx started (snd (quic_cli_init True ctx core))))) (\<lambda>core.
        bind_fault (wait_for_session core) (\<lambda>(session, core).
        bind_fault (quic_packet 0 (greeting @ [0]) SIZE_MAX False) (\<lambda>pkt.
        bind_fault (sample_send ret session pkt core) (\<lambda>(out, core).
        bind_fault (quic_events zp zs es2 core) (\<lambda>core.
        bind_fault (quic_recv session (snd (quic_wait_incpkt core))) (\<lambda>(r, core).
        Inr (out, case r of None \<Rightarrow> the (quic_packet_free (Some pkt)) | Some p \<Rightarrow> p, core))))))) of
        Inl f \<Rightarrow> Some (Inl f)
      | Inr (out, got, core) \<Rightarrow> map_option (\<lambda>m. bind_fault m (\<lambda>(freed, _). Inr (out, got, freed))) (stop_and_clear core))"

text \<open>The event of a connection that is set up.\<close>

definition ready :: "nat \<Rightarrow> quic_event" where
  "ready c = \<lparr>qe_kind = CB_Ready, qe_cnx = c, qe_stream = 0, qe_bytes = [], qe_memory = True\<rparr>"

subsection \<open>The proxy\<close>


text \<open>
  One call of the tunnel function for the side \<open>who\<close> that has input: \<open>rd\<close> is what \<open>read\<close> gives and \<open>wr\<close> what \<open>write\<close>
  returns. The result, and the bytes that were read and written, each with its descriptor.
\<close>

datatype io_op = Took int bytes | Gave int bytes

definition tunnel_iter :: "int \<Rightarrow> int \<Rightarrow> nat \<Rightarrow> bytes io_result \<Rightarrow> nat io_result \<Rightarrow> int \<times> io_op list" where
  "tunnel_iter client remote who rd wr =
     (let sockets = [client, remote] in
      case rd of
        IO_Ok buffer \<Rightarrow>
          if buffer = [] then (-1, [])
          else
            (case wr of
               IO_Ok n \<Rightarrow>
                 (if n \<noteq> length buffer then -1 else 0, [Took (sockets ! who) buffer, Gave (sockets ! (1 - who)) (take n buffer)])
             | IO_Again \<Rightarrow> (0, [Took (sockets ! who) buffer])
             | _ \<Rightarrow> (-1, [Took (sockets ! who) buffer]))
      | IO_Again \<Rightarrow> (0, [])
      | _ \<Rightarrow> (-1, []))"

text \<open>What the two sides offer in one return of \<open>poll\<close>, and the event that the loop of the proxy sees.\<close>

datatype side = Offers "bytes io_result" "nat io_result" | Breaks | Quiet



text \<open>What a run of the tunnel reads and writes, for each call of the tunnel function with its side.\<close>

fun moved_events :: "int \<Rightarrow> int \<Rightarrow> nat \<Rightarrow> side list \<Rightarrow> (nat \<times> io_op list) list \<times> bool" where
  "moved_events cl rm i [] = ([], True)"
| "moved_events cl rm i (e # es) =
     (case e of
        Offers rd wr \<Rightarrow>
          let (r, ops) = tunnel_iter cl rm i rd wr in
          if r < 0 then ([(i, ops)], False)
          else (let (ms, go) = moved_events cl rm (i + 1) es in ((i, ops) # ms, go))
      | Breaks \<Rightarrow> ([], False)
      | Quiet \<Rightarrow> moved_events cl rm (i + 1) es)"

fun moved :: "int \<Rightarrow> int \<Rightarrow> (bool \<times> int \<times> side list) list \<Rightarrow> (nat \<times> io_op list) list option" where
  "moved cl rm [] = None"
| "moved cl rm ((act, ret, sides) # tape) =
     (if \<not> act then Some []
      else if ret = -1 then Some []
      else if ret = 0 then moved cl rm tape
      else
        (case moved_events cl rm 0 sides of
           (ms, go) \<Rightarrow> if go then map_option (\<lambda>x. ms @ x) (moved cl rm tape) else Some ms))"


text \<open>All that was read from a descriptor, and all that was written to it.\<close>

fun op_read :: "int \<Rightarrow> io_op \<Rightarrow> bytes" where
  "op_read fd (Took g b) = (if g = fd then b else [])"
| "op_read fd (Gave g b) = []"

fun op_written :: "int \<Rightarrow> io_op \<Rightarrow> bytes" where
  "op_written fd (Took g b) = []"
| "op_written fd (Gave g b) = (if g = fd then b else [])"

definition read_from :: "int \<Rightarrow> (nat \<times> io_op list) list \<Rightarrow> bytes" where
  "read_from fd ms = concat (map (\<lambda>(_, ops). concat (map (op_read fd) ops)) ms)"

definition written_to :: "int \<Rightarrow> (nat \<times> io_op list) list \<Rightarrow> bytes" where
  "written_to fd ms = concat (map (\<lambda>(_, ops). concat (map (op_written fd) ops)) ms)"

subsection \<open>The HTTP server\<close>

text \<open>\<open>junk\<close> is the response before anything has set it.\<close>

definition index_handler :: "uhttp_response \<Rightarrow> uhttp_high_request \<Rightarrow> 'c \<Rightarrow> uhttp_response \<times> 'c" where
  "index_handler junk req c =
     (case uhttp_create_response True 200 (Some (str ''OK'')) (Some (str ''Hello world'' @ [0])) (length (str ''Hello world'')) HTTP_TEXT_PLAIN of
        Inr (_, Some resp) \<Rightarrow> (resp, c)
      | _ \<Rightarrow> (junk, c))"

text \<open>The exit code, or the server that is polled.\<close>

definition sample_server ::
  "lib6 \<Rightarrow> (bytes \<Rightarrow> bytes list option) \<Rightarrow> naddr_t \<Rightarrow> int \<Rightarrow> uhttp_high_request \<Rightarrow> uhttp_high_response \<Rightarrow> uhttp_response \<Rightarrow>
   bytes list \<Rightarrow> fault + (int + unit uhttp_serv)" where
  "sample_server lib dns ja zc zq zp junk argv =
     (if length argv \<noteq> 3 then Inr (Inl 1)
      else
        bind_fault (ln_uniq lib dns ja (argv ! 1) (word_of_int (atoi_long (argv ! 2)))) (\<lambda>_.
        let sv = snd (uhttp_server_create zc zq zp ()) in
        bind_fault (uhttp_set_route sv (str ''/'') (Some (index_handler junk))) (\<lambda>(_, sv). Inr (Inr sv))))"

subsection \<open>The greeting\<close>

definition session_at :: "quic_core \<Rightarrow> nat \<Rightarrow> quic_pkt list \<Rightarrow> bool" where
  "session_at core c pkts \<longleftrightarrow>
     core_ok core \<and> (\<exists>s. session_list core = [s] \<and> qs_cnx s = c \<and> ring (inc_pkts s) = pkts)"

lemma session_begins:
  assumes "core_ok core" and "session_list core = []" and "da_head (obj (qc_sessions core)) = 1"
    and "ring (qc_new_sessions core) = []" and "\<forall>e \<in> set es. is_data e"
  obtains core1 core2 where "quic_events zp zs (ready c # es) core = Inr core1"
    "wait_for_session core1 = Inr (Some (qc_block core2, 0), core2)"
    "session_at core2 c (map packet_of (filter (\<lambda>e. qe_cnx e = c) es))"
proof -
  from first_session_from [OF assms, of zp zs c] obtain c1 c2 where
    b: "quic_events zp zs (ready c # es) core = Inr c1" "quic_wait_session c1 = Inr (1, Some (Some (Suc (qc_block core), 0)), c2)"
    "core_ok c2" "qc_block c2 = Suc (qc_block core)" "map qs_cnx (session_list c2) = [c]"
    "ring (inc_pkts (session_list c2 ! 0)) = map packet_of (filter (\<lambda>e. qe_cnx e = c) es)"
    unfolding ready_def by metis
  from that [OF b(1), of c2] b(2-6) show thesis by (auto simp: wait_for_session_def session_at_def map_eq_Cons_conv)
qed

lemma session_goes_on:
  assumes "session_at core c pkts" and "\<forall>e \<in> set es. is_data e"
  obtains core' where "quic_events zp zs es core = Inr core'" "qc_block core' = qc_block core"
    "session_at core' c (pkts @ map packet_of (filter (\<lambda>e. qe_cnx e = c) es))"
proof -
  obtain s where s: "core_ok core" "session_list core = [s]" "qs_cnx s = c" "ring (inc_pkts s) = pkts"
    using assms(1) by (auto simp: session_at_def)
  have n: "0 < length (session_list core)" "map qs_cnx (session_list core) = [c]" using s by simp_all
  have find: "(\<lambda>e. find_cnx (qe_cnx e) (session_list core) 0 = Some 0) = (\<lambda>e. qe_cnx e = c)" using s(2,3) by auto
  from events_data_ok [OF s(1) assms(2), of zp zs] n obtain core' where c: "quic_events zp zs es core = Inr core'"
    "core_ok core'" "qc_block core' = qc_block core" "map qs_cnx (session_list core') = [c]"
    "ring (inc_pkts (session_list core' ! 0)) = ring (inc_pkts (session_list core ! 0)) @
       map packet_of (filter (\<lambda>e. find_cnx (qe_cnx e) (session_list core) 0 = Some 0) es)"
    by metis
  from that [OF c(1,3)] c(2,4,5) s show thesis unfolding find by (auto simp: session_at_def map_eq_Cons_conv)
qed

lemma session_receives:
  assumes "session_at core c (p # pkts)"
  obtains core' where "quic_recv (Some (qc_block core, 0)) core = Inr (Some p, core')" "qc_block core' = qc_block core"
    "session_at core' c pkts"
proof -
  obtain s where s: "core_ok core" "session_list core = [s]" "qs_cnx s = c" "ring (inc_pkts s) = p # pkts"
    using assms(1) by (auto simp: session_at_def)
  then have "pq_wf (inc_pkts s)" by (simp add: core_ok_def)
  from prot_queue_pop_ok(2) [OF this s(4)] obtain q where q: "prot_queue_pop (inc_pkts s) = Inr (Some p, q)" "pq_wf q" "ring q = pkts"
    by blast
  let ?c = "put_session 0 (s\<lparr>inc_pkts := q\<rparr>) core"
  have "quic_recv (Some (qc_block core, 0)) core = Inr (Some p, ?c)" using s q(1) by (simp add: quic_recv_def deref_def)
  moreover have "session_at ?c c pkts" using s q(2,3) by (simp add: session_at_def put_session_def core_ok_def)
  ultimately show thesis using that by (simp add: put_session_def)
qed

lemma session_sends:
  assumes "session_at core c pkts"
  obtains core' where "sample_send ret (Some (qc_block core, 0)) p core = Inr (Some (c, p), core')"
    "qc_block core' = qc_block core" "session_at core' c pkts"
  using assms that by (auto simp: sample_send_def session_at_def deref_def quic_send_def core_ok_def)

lemma session_ends:
  assumes "session_at core c pkts"
  obtains core' where "stop_and_clear core = Some (Inr (pkts, core'))"
proof -
  have "core_ok (snd (quic_core_stop core))" using assms by (simp add: session_at_def quic_core_stop_def core_ok_def)
  from quic_clear_frees_all [OF this] show thesis
    using that assms by (auto simp: session_at_def stop_and_clear_def quic_core_stop_def)
qed

lemma session_waits:
  assumes "session_at core c pkts"
  shows "session_at (snd (quic_wait_incpkt core)) c pkts" "qc_block (snd (quic_wait_incpkt core)) = qc_block core"
    "session_at (snd (quic_core_wait_done t core)) c pkts"
  using assms by (simp_all add: session_at_def quic_wait_incpkt_def quic_core_wait_done_def Let_def core_ok_def split_beta)

text \<open>The server sends back the first piece that it gets on its connection and drops the others.\<close>

lemma min_server_echoes:
  assumes "\<forall>e \<in> set (es1 @ es2). is_data e" and "filter (\<lambda>e. qe_cnx e = c) (es1 @ es2) = e # es"
  shows "quic_min_server zp zs mem pkt True (ready c # es1) es2 ret = Some (Inr (Some (c, packet_of e), map packet_of es))"
proof -
  define core where "core = snd (quic_serv_init True True mem)"
  have "quic_serv_init True True mem = (0, core)" by (simp add: core_def quic_serv_init_def Let_def)
  from server_ready [OF this] assms(1) obtain c1 c2 where b: "quic_events zp zs (ready c # es1) core = Inr c1"
    "wait_for_session c1 = Inr (Some (qc_block c2, 0), c2)" "session_at c2 c (map packet_of (filter (\<lambda>e. qe_cnx e = c) es1))"
    by (auto elim: session_begins [of core es1 zp zs c])
  from session_goes_on [OF b(3), of es2 zp zs] assms obtain c3 where g: "quic_events zp zs es2 c2 = Inr c3"
    "qc_block c3 = qc_block c2" "session_at c3 c (packet_of e # map packet_of es)" by (auto simp flip: map_append filter_append)
  obtain c4 where r: "quic_recv (Some (qc_block c3, 0)) (snd (quic_wait_incpkt c3)) = Inr (Some (packet_of e), c4)"
    "qc_block c4 = qc_block c3" "session_at c4 c (map packet_of es)"
    using session_receives [OF session_waits(1) [OF g(3)]] session_waits(2) [OF g(3)] by metis
  obtain c5 where s: "sample_send ret (Some (qc_block c4, 0)) (packet_of e) c4 = Inr (Some (c, packet_of e), c5)"
    "session_at c5 c (map packet_of es)" using session_sends [OF r(3)] by blast
  obtain c6 where "stop_and_clear (snd (quic_core_wait_done (-1) c5)) = Some (Inr (map packet_of es, c6))"
    using session_ends [OF session_waits(3) [OF s(2)]] by blast
  then show ?thesis
    using b(1,2) g(1,2) r(1,2) s(1) by (simp add: quic_min_server_def core_def [symmetric] del: quic_events.simps)
qed

definition greeting_packet :: quic_pkt where
  "greeting_packet = \<lparr>qp_stream_id = 0, qp_msg = Some greeting, qp_msg_len = length greeting, qp_fin = False\<rparr>"

lemma greeting_made: "quic_packet 0 (greeting @ [0]) SIZE_MAX False = Inr greeting_packet"
  by (simp add: quic_packet_def greeting_packet_def cstr_def greeting_def str_def SIZE_MAX_def)

lemma min_client_receives:
  assumes "\<forall>e \<in> set (es1 @ es2). is_data e" and "filter (\<lambda>e. qe_cnx e = c) (es1 @ es2) = e # es"
  shows "quic_min_client zp zs mem True cnx started (ready c # es1) es2 ret =
    Some (Inr (Some (c, greeting_packet), packet_of e, map packet_of es))"
proof -
  define core where "core = snd (quic_cli_start cnx started (snd (quic_cli_init True True mem)))"
  have "core_ok core" "session_list core = []" "da_head (obj (qc_sessions core)) = 1" "ring (qc_new_sessions core) = []"
    using fresh_queue_ok [of "None :: session_ptr" 8]
    by (simp_all add: core_def quic_cli_start_def quic_cli_init_def Let_def core_ok_def prot_array_create_def dyn_array_create_def)
  with assms(1) obtain c1 c2 where b: "quic_events zp zs (ready c # es1) core = Inr c1"
    "wait_for_session c1 = Inr (Some (qc_block c2, 0), c2)" "session_at c2 c (map packet_of (filter (\<lambda>e. qe_cnx e = c) es1))"
    by (auto elim: session_begins [of core es1 zp zs c])
  obtain c3 where s: "sample_send ret (Some (qc_block c2, 0)) greeting_packet c2 = Inr (Some (c, greeting_packet), c3)"
    "qc_block c3 = qc_block c2" "session_at c3 c (map packet_of (filter (\<lambda>e. qe_cnx e = c) es1))"
    using session_sends [OF b(3)] by blast
  from session_goes_on [OF s(3), of es2 zp zs] assms obtain c4 where g: "quic_events zp zs es2 c3 = Inr c4"
    "qc_block c4 = qc_block c3" "session_at c4 c (packet_of e # map packet_of es)" by (auto simp flip: map_append filter_append)
  obtain c5 where r: "quic_recv (Some (qc_block c4, 0)) (snd (quic_wait_incpkt c4)) = Inr (Some (packet_of e), c5)"
    "session_at c5 c (map packet_of es)"
    using session_receives [OF session_waits(1) [OF g(3)]] session_waits(2) [OF g(3)] by metis
  obtain c6 where "stop_and_clear c5 = Some (Inr (map packet_of es, c6))" using session_ends [OF r(2)] by blast
  then show ?thesis
    using b(1,2) g(1,2) r(1) s(1,2)
    by (simp add: quic_min_client_def core_def [symmetric] greeting_made del: quic_events.simps)
qed

subsection \<open>The tunnel\<close>











text \<open>What has been read when the other side would block is gone, and the tunnel goes on.\<close>

lemma tunnel_loses:
  assumes "moved cl rm tape = Some ms" and "b \<noteq> []" and "cl \<noteq> rm"
  shows "\<exists>ms'. moved cl rm ((True, 1, [Offers (IO_Ok b) IO_Again, Quiet]) # tape) = Some ms' \<and>
    read_from cl ms' = b @ read_from cl ms \<and> written_to rm ms' = written_to rm ms"
  using assms by (simp add: tunnel_iter_def read_from_def written_to_def)

subsection \<open>The root of the server\<close>

definition hello_response :: uhttp_response where
  "hello_response = \<lparr>rs_status_code = 200, rs_status_text = Some (str ''OK''), rs_headers = None, rs_header_count = 0,
     rs_body = Some (str ''Hello world''), rs_body_len = 11, rs_content_type = HTTP_TEXT_PLAIN\<rparr>"

lemma index_handler_hello: "index_handler junk req c = (hello_response, c)"
  by (simp add: index_handler_def uhttp_create_response_def read_block_def SIZE_MAX_def hello_response_def str_def)

text \<open>A request for the root, made with the library and exchanged as in \<open>http_exchange\<close>, is answered with the greeting of the server.\<close>

lemma sample_server_hello:
  assumes "sample_server lib dns ja zc zq zp junk argv = Inr (Inr sv)"
    and "request_ok rq path hs b" and "takeWhile (\<lambda>b. b \<noteq> 63) path = str ''/''"
    and "uhttp_build_request mem (Some rq) True = Inr (0, Some (block, n))" and "length (take n block) < 2048"
  shows "\<exists>out resp sv'. http_exchange mem zc zq zp sv fd (take n block) = Some (Inr ([(fd, out)], sv', [])) \<and>
    uhttp_parse_response (Some out) True = (UHTTP_PARSE_OK, Some resp) \<and> rs_status_code resp = 200 \<and>
    rs_body resp = Some (str ''Hello world'')"
proof -
  obtain r s0 where c: "uhttp_server_create zc zq zp () = (r, s0)" by fastforce
  note s0 = server_create_ok [OF c]
  have sv: "sv = s0\<lparr>sv_routes := [\<lparr>ur_path = str ''/'', ur_handler = index_handler junk\<rparr>]\<rparr>"
    using assms(1) s0(2) by (auto simp: sample_server_def c bind_fault_Inr_iff uhttp_set_route_def str_def split: if_splits)
  have ok: "response_ok hello_response 200 (str ''OK'') [] (str ''Hello world'')"
    by (simp add: hello_response_def response_ok_def headers_ok_def body_ok_def UHTTP_MAX_BODY_SIZE_def) (simp add: str_def)
  have q: "idle_server sv" using s0(1) by (simp add: sv idle_server_def queues_ok_def)
  have route: "find_route (sv_routes sv) (takeWhile (\<lambda>b. b \<noteq> 63) path) = Some \<lparr>ur_path = str ''/'', ur_handler = index_handler junk\<rparr>"
    by (simp add: sv assms(3))
  have h: "ur_handler \<lparr>ur_path = str ''/'', ur_handler = index_handler junk\<rparr>
      \<lparr>hq_nfd = fd, hq_req = received_request rq path hs b\<rparr> (sv_ctx sv) = (hello_response, sv_ctx sv)"
    by (simp add: index_handler_hello)
  have "str ''Hello world'' \<noteq> []" by (simp add: str_def)
  then show ?thesis
    using exchange_answered [OF q assms(2,4,5) route h ok, of zc zq zp] by auto
qed

subsection \<open>Properties\<close>

text \<open>
  C38: the QUIC samples together, with a single connection at either end (apart from it only data arrives, on other
  connections): the greeting that the client sends may reach the server in any pieces; the server sends back the first
  one, as it came. This may reach the client in pieces again; the client receives the first of them, a part of its
  greeting that it begins with, and all of it when neither way has split it.
\<close>

theorem quic_greeting_echoed:
  assumes "\<forall>e \<in> set (s1 @ s2 @ c1 @ c2). is_data e"
    and "filter (\<lambda>e. qe_cnx e = b) (s1 @ s2) = e # es" and "concat (map qe_bytes (e # es)) = greeting" and "qe_bytes e \<noteq> []"
    and "filter (\<lambda>e. qe_cnx e = a) (c1 @ c2) = f # fs" and "concat (map qe_bytes (f # fs)) = qe_bytes e" and "qe_bytes f \<noteq> []"
  shows "quic_min_server zp zs ms pkt True (ready b # s1) s2 rs = Some (Inr (Some (b, packet_of e), map packet_of es)) \<and>
    qp_msg (packet_of e) = Some (qe_bytes e) \<and>
    quic_min_client zp zs mc True cnx started (ready a # c1) c2 rc =
      Some (Inr (Some (a, greeting_packet), packet_of f, map packet_of fs)) \<and>
    qp_msg (packet_of f) = Some (qe_bytes f) \<and> (\<exists>rest. greeting = qe_bytes f @ rest) \<and>
    (es = [] \<and> fs = [] \<longrightarrow> qe_bytes f = greeting)"
proof -
  have "quic_min_server zp zs ms pkt True (ready b # s1) s2 rs = Some (Inr (Some (b, packet_of e), map packet_of es))"
    using assms(1,2) by (intro min_server_echoes) auto
  moreover have "quic_min_client zp zs mc True cnx started (ready a # c1) c2 rc =
      Some (Inr (Some (a, greeting_packet), packet_of f, map packet_of fs))"
    using assms(1,5) by (intro min_client_receives) auto
  moreover have "qe_bytes e = qe_bytes f @ concat (map qe_bytes fs)" using assms(6) by simp
  then have "greeting = qe_bytes f @ concat (map qe_bytes fs) @ concat (map qe_bytes es)" using assms(3) by auto
  ultimately show ?thesis using assms(3,4,6,7) by (auto simp: packet_of_def)
qed

definition piece :: "nat \<Rightarrow> bytes \<Rightarrow> quic_event" where
  "piece c bs = \<lparr>qe_kind = CB_Stream_Data, qe_cnx = c, qe_stream = 0, qe_bytes = bs, qe_memory = True\<rparr>"

text \<open>The greeting reaches the server in two pieces, with data of another connection between them.\<close>

theorem quic_greeting_echoed_witness:
  "quic_min_server demo_pkt None demo_quic_core demo_pkt True [ready 5]
       [piece 5 (str ''Hello ''), demo_data 6 [1] False, piece 5 (str ''from client'')] 0 =
     Some (Inr (Some (5, packet_of (piece 5 (str ''Hello ''))), [packet_of (piece 5 (str ''from client''))])) \<and>
   quic_min_client demo_pkt None demo_quic_core True (Some 9) 0 [ready 9] [piece 9 (str ''Hello '')] 0 =
     Some (Inr (Some (9, greeting_packet), packet_of (piece 9 (str ''Hello '')), []))"
proof -
  let ?s = "[piece 5 (str ''Hello ''), demo_data 6 [1] False, piece 5 (str ''from client'')]" and ?c = "[piece 9 (str ''Hello '')]"
  have d: "\<forall>e \<in> set ([] @ ?s @ [] @ ?c). is_data e" by (simp add: is_data_def demo_data_def piece_def)
  have f: "filter (\<lambda>e. qe_cnx e = 5) ([] @ ?s) = [piece 5 (str ''Hello ''), piece 5 (str ''from client'')]"
    "filter (\<lambda>e. qe_cnx e = 9) ([] @ ?c) = [piece 9 (str ''Hello '')]" by (simp_all add: demo_data_def piece_def)
  have b: "concat (map qe_bytes [piece 5 (str ''Hello ''), piece 5 (str ''from client'')]) = greeting"
    "concat (map qe_bytes [piece 9 (str ''Hello '')]) = qe_bytes (piece 5 (str ''Hello ''))"
    "qe_bytes (piece 5 (str ''Hello '')) \<noteq> []" "qe_bytes (piece 9 (str ''Hello '')) \<noteq> []"
    by (simp_all add: piece_def greeting_def str_def)
  from quic_greeting_echoed [OF d f(1) b(1,3) f(2) b(2,4), of demo_pkt None demo_quic_core demo_pkt 0 demo_quic_core "Some 9" 0 0]
  show ?thesis by simp
qed




end
