(* ===== verification/Spec2Isabelle.thy ===== *)
theory Spec2Isabelle
  imports Secure_Channel Daemons Natpunch Uhttp_Server Socks5 State_Server Logging Quic Cli_End Server_Main Old_Cli Onion Samples
begin

text \<open>
  A model of \<open>soter2\<close>, a peer-to-peer messenger core in C, and proofs about it. All paths are
  below \<open>src/code/devcore\<close> unless they start with \<open>code/\<close>.

  \<^bold>\<open>The program.\<close> A node has one UDP socket. The listener thread (\<open>providers/src/listener.c\<close>) checks
  and queues what arrives; the packet thread (\<open>interface/src/daemons.c\<close>) hands each packet to the
  dispatcher of reliable UDP (\<open>rudp/src\<close>) or to the watcher (\<open>watcher/src\<close>), which calls the handler
  of its type (\<open>interface/src/handlers.c\<close>). The handlers work on the peer database
  (\<open>peersyst/src\<close>), the gossip (\<open>gossip/src\<close>), the TURN client (\<open>turn/src\<close>) and the queue of answers of the
  state server (\<open>stating/src\<close>), and answer through the sender thread (\<open>providers/src/sender.c\<close>).
  A second daemon connects to announced peers and punches holes into NATs. Everything is built
  on the containers of \<open>base/src/base\<close> and the event sockets of \<open>base/src/multithr\<close>. Above and beside
  the node are the encrypted connections of \<open>e2ee/src\<close> over the keys of \<open>crypto/src\<close>, the STUN client of
  \<open>natpunch/src\<close>, the HTTP server of \<open>uhttp/src\<close>, the SOCKS5 proxy of \<open>proxy/src\<close>, the sessions of \<open>quic/src\<close> and the
  logger of \<open>logging/src\<close>. \<open>code/cli\<close> is the program that runs a node behind an HTTP interface, \<open>code/stating\<close> the
  server that is meant to introduce nodes to each other.

  \<^bold>\<open>The theories.\<close>
  \<^item> \<open>Prelude\<close>: words, byte order, faults, lists. \<open>Interfaces\<close>: the contracts \<open>fifo\<close> and
    \<open>kv_store\<close> as locales; \<open>Dyn_Array\<close> and \<open>Prot_Queue\<close> interpret the first one, \<open>Dyn_Table\<close> and
    \<open>Dyn_Htable\<close> the second one.
  \<^item> \<open>Dyn_Array\<close>, \<open>Dyn_Table\<close>, \<open>Dyn_Htable\<close>, \<open>Prot\<close>, \<open>Prot_Queue\<close>: the containers, from their blocks and indices
    up to lists and maps; \<open>Prot\<close> and \<open>Prot_Queue\<close> add the mutexes. \<open>Events\<close>: event
    sockets in both implementations, that of Linux and that on a socket pair, which agree as long as the buffer of the pair is not full.
  \<^item> \<open>Packproto\<close>: \<open>protocol/src\<close>, the packet, its checksum and its form on the wire. The checksum
    detects every burst of four bytes. \<open>Providers\<close>: sender and listener, and that the two are inverse.
  \<^item> \<open>Rudp_Conn\<close>, \<open>Rudp_Disp\<close>: a connection of reliable UDP and the dispatcher. \<open>Rudp_Channel\<close>
    composes two connections with a network that loses, copies and reorders: what is handed
    over is a prefix of what was sent, nothing that is missing is forgotten, and the first missing packet
    is handed over when it arrives.
  \<^item> \<open>Lownet\<close>, \<open>Tcp_Sock\<close>: \<open>lownet/src/core.c\<close> and \<open>tcp_sock.c\<close>. \<open>Peerdb\<close>, \<open>Gossip\<close>, \<open>Turn\<close>, \<open>Watcher\<close>,
    \<open>Stating\<close>, \<open>Crypto\<close>: the components of the node, each with its state, its operations, an invariant that they
    keep and what they promise.
  \<^item> \<open>Handlers\<close>, \<open>Systems\<close>, \<open>Daemons\<close>: \<open>interface/src\<close>. \<open>Daemons\<close> has the steps of a running node,
    \<open>node_step\<close>, one for each thing a thread or the program may do, and the invariant of all states that are
    reached: all components well formed, all mutexes free, no dangling connection. A step is a whole iteration.
  \<^item> \<open>E2ee\<close>: sessions between two peers. \<open>Secure_Channel\<close> puts them on a connection of \<open>Rudp_Channel\<close>: what is
    heard is a prefix of what was said. \<open>Natpunch\<close>: STUN answers and the type of the NAT.
    \<open>Uhttp_Parser\<close>, \<open>Uhttp_Api\<close>, \<open>Uhttp_Server\<close>: HTTP from bytes to the routes and back; \<open>http_exchange\<close> is one exchange in
    which the threads of the server take turns, and \<open>silent_client_stops_server\<close> what a second client can do to it.
    \<open>Socks5\<close>: the proxy, with the descriptors that it closes. \<open>Quic\<close>: the sessions and queues around the library picoquic. \<open>Logging\<close>: one line of the log.
  \<^item> \<open>State_Server\<close>: the handler of the server of \<open>code/stating\<close> and what the nodes make of its answers. \<open>Cli\<close>: the
    handlers and routes of \<open>code/cli\<close> on the node, with the documents of \<open>ujson/src\<close>. \<open>Cli_Main\<close>: \<open>main\<close> up to the server
    that waits for requests; the invariant of the node holds behind it too, whatever is requested. \<open>Cli_End\<close>: the
    threads of the node and of the server beside the loop of \<open>main\<close>, which signals do not end, since they stop a global server and
    not that of \<open>main\<close>; and the end of \<open>main\<close>, which frees each connection once when the threads of the server return, and
    waits for ever for one that a silent client keeps.
  \<^item> \<open>Old_Handlers\<close>, \<open>Old_Interface\<close>: the interface of \<open>.old/old_interface\<close>, which the state server and the earlier command
    line tool are still written against; its handlers are those of the node now, except for the one of state packets.
    \<open>Server_Main\<close> is \<open>main\<close> of \<open>code/stating/src/server.c\<close> on it: what a started server does with any packets.
    \<open>Old_Cli\<close> is \<open>.old/oldcli/src/main.c\<close>, \<open>Onion\<close> the cells of \<open>.old/onion\<close> over the sessions of \<open>E2ee\<close>, and
    \<open>Samples\<close> the programs of \<open>code/quic\<close> and \<open>code/uhttp\<close> on the libraries.

  \<^bold>\<open>How the code is read.\<close> A struct is a record and an enumeration a datatype or the word of its value; a
  fixed-width integer is a word where its width matters, \<open>size_t\<close> a natural number. A pointer that may be \<open>NULL\<close>
  is an option; objects that are shared and freed live on an explicit heap
  (\<open>Rudp_Disp\<close>). Where the program would crash, hang on a mutex or run into undefined behaviour, the function
  returns \<open>Inl\<close> of a \<open>fault\<close>; the results \<open>-1\<close> and \<open>0\<close> of the code are values. A thread is the function of
  one iteration of its loop. A function takes as arguments what it gets from outside: clock readings,
  random numbers, results of system calls and allocations, the contents of uninitialised memory, the
  primitives of libsodium (with their laws as \<open>sodium_ok\<close>), and the IPv6 text conversions of the C library.

  \<^bold>\<open>Bounds and loops.\<close> The results of \<open>Rudp_Channel\<close> hold for \<open>SEQ_BOUND\<close> packets of a connection, up to
  which the sequence numbers do not wrap; \<open>rudp_stuck_at_wrap\<close> shows what happens beyond it. Loops whose
  end is not structural (\<open>st_answers\<close>, \<open>old_answers\<close>, \<open>poll_loop\<close>, \<open>send_loop\<close>, \<open>drop_loop\<close>, \<open>accept_loop\<close>, \<open>free_packets\<close>) are partial functions, and that
  they end is a theorem of each. Loops over outside events recurse over a list of these events, a tape;
  a tape that ends before the loop gives \<open>None\<close>.

  \<^bold>\<open>Threads.\<close> Iterations of threads, and calls of the user, follow each other in any order, but none is interrupted: the
  invariants speak of these runs. The code locks its tables and queues one by one, not for an iteration, so that it has
  races within iterations that no run of the model has: the packet thread frees a connection (\<open>interface/src/daemons.c:40\<close>) that the
  worker of the dispatcher may have looked up, and \<open>s2_systems_stop\<close> (\<open>interface/src/system.c:97\<close>) frees parts of the node
  while the watcher, the listener and the sender still run; its model runs after all iterations.

  \<^bold>\<open>Not modelled.\<close> Libraries that are not in the repository are arguments of what uses them: libsodium, picoquic (its
  callbacks are events), yyjson. \<open>quic/src/enclose.c\<close> consists of stubs, and seven handlers of \<open>code/cli\<close> have no body; a route
  of theirs is \<open>handle_empty\<close>. \<open>ln_wait_netfd\<close> and \<open>ln_setopt\<close> pass their arguments to one system call, and the creation and
  joining of threads are results that the callers take as arguments. Of the programs, the
  printing is left out. \<open>pyver\<close> is in Python. \<open>.old/oldcli/examples\<close> calls functions with arguments that no version of
  the interface takes. \<open>.old\<close> is not built with the present headers: it is read with the components of \<open>devcore\<close> where they
  still have the functions it calls, and what they no longer have is an argument.
\<close>

end
